(* ===== verification/Prelude.thy ===== *)
theory Prelude
  imports Main "HOL-Library.AList" "HOL-Library.List_Lexorder" "HOL-Library.Char_ord"
    "HOL-Library.Product_Lexorder" "HOL-Library.Word"
begin

text \<open>
  What every other theory of the development shares.

  \<^item> \<open>hashmap\<close> is Rust's \<open>HashMap\<close>: an association list with distinct keys whose
    order stands for the iteration order. The order of a Rust map is unspecified, so the
    theorems quantify over every such list. Inserting an existing key replaces the value in
    place; the position of a new key is one of the orders the code may see.
  \<^item> \<open>key_map\<close> is the contract that the clients of a map rely on, as a locale; the
    association lists are its interpretation.
  \<^item> \<open>machine\<close> is the contract of a component driven by steps: an invariant that holds
    at the start and that every step keeps holds in every reachable state.
  \<^item> \<open>env\<close> gathers what the code reads from outside: the clock, the generator of unique
    identifiers and the third-party glob matcher.
\<close>

named_theorems hm_simps
named_theorems wf_intros

section \<open>Hash maps\<close>

type_synonym ('k, 'v) hashmap = "('k \<times> 'v) list"

abbreviation hm_get :: "('k, 'v) hashmap \<Rightarrow> 'k \<Rightarrow> 'v option" where
  "hm_get m k \<equiv> map_of m k"

abbreviation hm_insert :: "'k \<Rightarrow> 'v \<Rightarrow> ('k, 'v) hashmap \<Rightarrow> ('k, 'v) hashmap" where
  "hm_insert k v m \<equiv> AList.update k v m"

abbreviation hm_remove :: "'k \<Rightarrow> ('k, 'v) hashmap \<Rightarrow> ('k, 'v) hashmap" where
  "hm_remove k m \<equiv> AList.delete k m"

abbreviation hm_keys :: "('k, 'v) hashmap \<Rightarrow> 'k list" where
  "hm_keys m \<equiv> map fst m"

abbreviation hm_values :: "('k, 'v) hashmap \<Rightarrow> 'v list" where
  "hm_values m \<equiv> map snd m"

abbreviation hm_contains :: "('k, 'v) hashmap \<Rightarrow> 'k \<Rightarrow> bool" where
  "hm_contains m k \<equiv> k \<in> set (hm_keys m)"

abbreviation hm_wf :: "('k, 'v) hashmap \<Rightarrow> bool" where
  "hm_wf m \<equiv> distinct (hm_keys m)"

text \<open>\<open>get_mut\<close> followed by an update of the borrowed value.\<close>

definition hm_modify :: "'k \<Rightarrow> ('v \<Rightarrow> 'v) \<Rightarrow> ('k, 'v) hashmap \<Rightarrow> ('k, 'v) hashmap" where
  "hm_modify k f m = map (\<lambda>(k', v). if k' = k then (k', f v) else (k', v)) m"

text \<open>\<open>values_mut\<close> and \<open>for (k, v) in &mut map\<close>.\<close>

definition hm_map :: "('k \<Rightarrow> 'v \<Rightarrow> 'w) \<Rightarrow> ('k, 'v) hashmap \<Rightarrow> ('k, 'w) hashmap" where
  "hm_map f m = map (\<lambda>(k, v). (k, f k v)) m"

definition hm_retain :: "('k \<Rightarrow> 'v \<Rightarrow> bool) \<Rightarrow> ('k, 'v) hashmap \<Rightarrow> ('k, 'v) hashmap" where
  "hm_retain P m = filter (\<lambda>(k, v). P k v) m"

text \<open>\<open>map.entry(k).or_default().push(v)\<close>.\<close>

definition hm_push :: "'k \<Rightarrow> 'v \<Rightarrow> ('k, 'v list) hashmap \<Rightarrow> ('k, 'v list) hashmap" where
  "hm_push k v m = (case hm_get m k of
      None \<Rightarrow> hm_insert k [v] m
    | Some vs \<Rightarrow> hm_insert k (vs @ [v]) m)"

definition group_pairs :: "('k \<times> 'v) list \<Rightarrow> ('k, 'v list) hashmap" where
  "group_pairs ps = foldl (\<lambda>m (k, v). hm_push k v m) [] ps"

lemma keys_hm_modify [simp]: "hm_keys (hm_modify k f m) = hm_keys m"
  by (induction m) (auto simp: hm_modify_def)

lemma keys_hm_map [simp]: "hm_keys (hm_map f m) = hm_keys m"
  by (induction m) (auto simp: hm_map_def)

lemma get_hm_modify [hm_simps]:
  "hm_get (hm_modify k f m) x = (if x = k then map_option f (hm_get m x) else hm_get m x)"
  by (induction m) (auto simp: hm_modify_def)

lemma get_hm_map [hm_simps]: "hm_get (hm_map f m) x = map_option (f x) (hm_get m x)"
  by (induction m) (auto simp: hm_map_def)

lemma hm_modify_Nil [simp]: "hm_modify k f [] = []"
  by (simp add: hm_modify_def)

lemma hm_map_Nil [simp]: "hm_map f [] = []"
  by (simp add: hm_map_def)

lemma hm_retain_Nil [simp]: "hm_retain P [] = []"
  by (simp add: hm_retain_def)

lemma set_keys_hm_retain:
  "hm_wf m \<Longrightarrow> set (hm_keys (hm_retain P m)) = {k. \<exists>v. hm_get m k = Some v \<and> P k v}"
  by (force simp: hm_retain_def map_of_eq_Some_iff)

lemma hm_wf_retain [intro]: "hm_wf m \<Longrightarrow> hm_wf (hm_retain P m)"
  by (induction m) (auto simp: hm_retain_def)

lemma get_hm_retain [hm_simps]:
  "hm_wf m \<Longrightarrow> hm_get (hm_retain P m) k
    = (case hm_get m k of None \<Rightarrow> None | Some v \<Rightarrow> if P k v then Some v else None)"
proof (induction m)
  case Nil
  then show ?case by simp
next
  case (Cons a m)
  obtain k' v where a: "a = (k', v)" by (cases a)
  show ?case
  proof (cases "k = k'")
    case True
    with Cons.prems a have "hm_get m k = None" by (simp add: map_of_eq_None_iff)
    with Cons.IH Cons.prems a True show ?thesis by (auto simp: hm_retain_def)
  next
    case False
    with Cons a show ?thesis by (auto simp: hm_retain_def)
  qed
qed

lemma hm_wf_insert [intro]: "hm_wf m \<Longrightarrow> hm_wf (hm_insert k v m)"
  by (rule distinct_update)

lemma hm_wf_remove [intro]: "hm_wf m \<Longrightarrow> hm_wf (hm_remove k m)"
  by (rule distinct_delete)

lemma get_hm_insert [hm_simps]: "hm_get (hm_insert k v m) x = (if x = k then Some v else hm_get m x)"
  by (simp add: update_conv')

lemma get_hm_remove [hm_simps]: "hm_get (hm_remove k m) x = (if x = k then None else hm_get m x)"
  by (simp add: delete_conv')

lemma in_set_getD: "hm_wf m \<Longrightarrow> (k, v) \<in> set m \<Longrightarrow> hm_get m k = Some v"
  by (simp add: map_of_eq_Some_iff)

lemma get_in_keys [simp]: "hm_get m k = Some v \<Longrightarrow> k \<in> fst ` set m"
  by (metis domI dom_map_of_conv_image_fst)

lemma keys_get: "k \<in> fst ` set m \<Longrightarrow> \<exists>v. hm_get m k = Some v"
  by (metis domD dom_map_of_conv_image_fst)

lemma get_hm_push:
  "hm_get (hm_push k v m) x = (if x = k then Some ((case hm_get m k of None \<Rightarrow> [] | Some vs \<Rightarrow> vs) @ [v])
    else hm_get m x)"
  by (simp add: hm_push_def hm_simps split: option.split)

text \<open>The values pushed under a key, in the order of the pushes.\<close>

definition pushed :: "('k \<times> 'v) list \<Rightarrow> 'k \<Rightarrow> 'v list" where
  "pushed ps k = map snd (filter (\<lambda>p. fst p = k) ps)"

lemma get_foldl_push:
  "hm_get (foldl (\<lambda>m (k, v). hm_push k v m) m ps) k
    = (if pushed ps k = [] then hm_get m k
       else Some ((case hm_get m k of None \<Rightarrow> [] | Some vs \<Rightarrow> vs) @ pushed ps k))"
proof (induction ps arbitrary: m)
  case Nil
  then show ?case by (simp add: pushed_def)
next
  case (Cons p ps)
  obtain k' v where p: "p = (k', v)" by (cases p)
  show ?case
    by (auto simp: Cons.IH p get_hm_push pushed_def split: option.split)
qed

lemma get_group_pairs:
  "hm_get (group_pairs ps) k = (if pushed ps k = [] then None else Some (pushed ps k))"
  by (simp add: group_pairs_def get_foldl_push)

lemma get_group_pairs_default:
  "(case hm_get (group_pairs ps) k of None \<Rightarrow> [] | Some vs \<Rightarrow> vs) = pushed ps k"
  by (simp add: get_group_pairs)

section \<open>The contract of a map\<close>

text \<open>
  What the stores of the program (\<open>TeamState\<close>, \<open>ThreadManagerState\<close>, the approval
  tables) rely on: reading back what was inserted, removing exactly one key.
\<close>

locale key_map =
  fixes empty :: 'm
    and get :: "'m \<Rightarrow> 'k \<Rightarrow> 'v option"
    and ins :: "'k \<Rightarrow> 'v \<Rightarrow> 'm \<Rightarrow> 'm"
    and del :: "'k \<Rightarrow> 'm \<Rightarrow> 'm"
  assumes get_empty: "get empty k = None"
    and get_ins: "get (ins k v m) x = (if x = k then Some v else get m x)"
    and get_del: "get (del k m) x = (if x = k then None else get m x)"
begin

definition del_all :: "'k list \<Rightarrow> 'm \<Rightarrow> 'm" where
  "del_all ks m = foldl (\<lambda>m k. del k m) m ks"

lemma get_del_all: "get (del_all ks m) x = (if x \<in> set ks then None else get m x)"
  unfolding del_all_def by (induction ks arbitrary: m) (auto simp: get_del)

lemma ins_then_del: "get (del k (ins k v m)) = get (del k m)"
  by (rule ext) (simp add: get_ins get_del)

end

interpretation hm: key_map "[]" hm_get hm_insert hm_remove
  by unfold_locales (simp_all add: hm_simps)

section \<open>Components driven by steps\<close>

locale machine =
  fixes start :: "'s \<Rightarrow> bool"
    and next_state :: "'s \<Rightarrow> 's \<Rightarrow> bool"
    and inv :: "'s \<Rightarrow> bool"
  assumes inv_start: "start s \<Longrightarrow> inv s"
    and inv_next: "next_state s t \<Longrightarrow> inv s \<Longrightarrow> inv t"
begin

lemma inv_steps: "next_state\<^sup>*\<^sup>* s t \<Longrightarrow> inv s \<Longrightarrow> inv t"
  by (induction rule: rtranclp_induct) (auto intro: inv_next)

lemma inv_reachable: "start s \<Longrightarrow> next_state\<^sup>*\<^sup>* s t \<Longrightarrow> inv t"
  by (blast intro: inv_steps inv_start)

end

section \<open>The outside world of an operation\<close>

text \<open>
  \<open>env_clock e i\<close> is what the clock (\<open>Utc::now()\<close>) shows at the i-th place where the
  operation may read it (a place that a branch skips is skipped), \<open>env_uuid e i\<close> the i-th
  identifier drawn (\<open>Uuid::new_v4()\<close>), \<open>env_glob e p x\<close>
  whether the crate \<open>glob\<close> accepts the pattern \<open>p\<close> and matches \<open>x\<close> with it.
\<close>

record env =
  env_clock :: "nat \<Rightarrow> int"
  env_uuid :: "nat \<Rightarrow> string"
  env_glob :: "string \<Rightarrow> string \<Rightarrow> bool"

text \<open>The world after an operation that read the clock \<open>n\<close> times.\<close>

definition later :: "nat \<Rightarrow> env \<Rightarrow> env" where
  "later n e = e\<lparr>env_clock := \<lambda>i. env_clock e (n + i)\<rparr>"

lemma later_simps [simp]:
  "env_clock (later n e) i = env_clock e (n + i)"
  "env_uuid (later n e) = env_uuid e"
  "env_glob (later n e) = env_glob e"
  by (simp_all add: later_def)

section \<open>Saturating machine integers\<close>

type_synonym u64 = "64 word"
type_synonym u16 = "16 word"

definition saturating_add :: "'a::len word \<Rightarrow> 'a word \<Rightarrow> 'a word" where
  "saturating_add a b = (if a \<le> a + b then a + b else - 1)"

definition saturating_sub :: "'a::len word \<Rightarrow> 'a word \<Rightarrow> 'a word" where
  "saturating_sub a b = (if b \<le> a then a - b else 0)"

lemma unat_saturating_add:
  "unat (saturating_add (a :: 'a::len word) b) = min (unat a + unat b) (2 ^ LENGTH('a) - 1)"
proof (cases "unat a + unat b < 2 ^ LENGTH('a)")
  case True
  then show ?thesis by (simp add: saturating_add_def no_olen_add_nat unat_word_ariths)
next
  case False
  then show ?thesis
    by (simp add: saturating_add_def no_olen_add_nat unsigned_minus_1_eq_mask mask_eq_exp_minus_1)
qed

lemma unat_saturating_sub: "unat (saturating_sub a b) = unat a - unat b"
  by (auto simp: saturating_sub_def unat_sub word_le_nat_alt not_le)

lemma unat_le_max: "unat (a :: 'a::len word) \<le> 2 ^ LENGTH('a) - 1"
proof -
  have "unat a < 2 ^ LENGTH('a)" by (rule unsigned_less)
  then show ?thesis by linarith
qed

lemma saturating_add_ge: "a \<le> saturating_add a b"
  using unat_le_max [of a] by (simp add: word_le_nat_alt unat_saturating_add)

section \<open>Lists\<close>

lemma sort_key_set [simp]: "set (sort_key f xs) = set xs"
  by simp

lemma find_Some_in: "find P xs = Some x \<Longrightarrow> x \<in> set xs \<and> P x"
  by (induction xs) (auto split: if_splits)

lemma find_None_iff_all: "find P xs = None \<longleftrightarrow> (\<forall>x \<in> set xs. \<not> P x)"
  by (induction xs) auto

end
