(* ===== verification/RustStr.thy ===== *)
theory RustStr
  imports Prelude
begin

text \<open>
  The operations of Rust's \<open>str\<close> that the program uses. A \<open>string\<close> is the list of the
  UTF-8 bytes of a Rust string, so \<open>length\<close> is \<open>str::len\<close>. White space is Unicode's
  \<open>White_Space\<close>, listed by its UTF-8 encodings; on well-formed UTF-8 an encoding can only
  occur at a character boundary, so stripping encodings strips characters.
\<close>

abbreviation LF :: char where "LF \<equiv> CHR 0x0A"
abbreviation CR :: char where "CR \<equiv> CHR 0x0D"

section \<open>Prefixes and suffixes\<close>

definition starts_with :: "string \<Rightarrow> string \<Rightarrow> bool" where
  "starts_with p s \<longleftrightarrow> take (length p) s = p"

definition ends_with :: "string \<Rightarrow> string \<Rightarrow> bool" where
  "ends_with p s \<longleftrightarrow> length p \<le> length s \<and> drop (length s - length p) s = p"

definition strip_prefix :: "string \<Rightarrow> string \<Rightarrow> string option" where
  "strip_prefix p s = (if starts_with p s then Some (drop (length p) s) else None)"

definition strip_suffix :: "string \<Rightarrow> string \<Rightarrow> string option" where
  "strip_suffix p s = (if ends_with p s then Some (take (length s - length p) s) else None)"

lemma starts_with_iff: "starts_with p s \<longleftrightarrow> (\<exists>r. s = p @ r)"
  by (metis append_eq_conv_conj append_take_drop_id starts_with_def)

lemma ends_with_iff: "ends_with p s \<longleftrightarrow> (\<exists>r. s = r @ p)"
proof
  assume "ends_with p s"
  then show "\<exists>r. s = r @ p"
    by (metis append_take_drop_id ends_with_def)
qed (auto simp: ends_with_def)

lemma strip_prefix_Some: "strip_prefix p s = Some r \<longleftrightarrow> s = p @ r"
  by (auto simp: strip_prefix_def starts_with_iff)

lemma strip_prefix_append [simp]: "strip_prefix p (p @ r) = Some r"
  by (simp add: strip_prefix_Some)

lemma strip_prefix_None: "strip_prefix p s = None \<longleftrightarrow> \<not> starts_with p s"
  by (simp add: strip_prefix_def)

lemma starts_with_append [simp]: "starts_with p (p @ r)"
  by (auto simp: starts_with_iff)

lemma starts_with_code [simp]:
  "starts_with [] s"
  "\<not> starts_with (c # p) []"
  "starts_with (c # p) (d # s) \<longleftrightarrow> c = d \<and> starts_with p s"
  by (auto simp: starts_with_def)

section \<open>White space\<close>

definition ws_utf8 :: "string list" where
  "ws_utf8 = [[CHR 0x09], [CHR 0x0A], [CHR 0x0B], [CHR 0x0C], [CHR 0x0D], [CHR 0x20],
    [CHR 0xC2, CHR 0x85], [CHR 0xC2, CHR 0xA0], [CHR 0xE1, CHR 0x9A, CHR 0x80],
    [CHR 0xE2, CHR 0x80, CHR 0x80], [CHR 0xE2, CHR 0x80, CHR 0x81], [CHR 0xE2, CHR 0x80, CHR 0x82],
    [CHR 0xE2, CHR 0x80, CHR 0x83], [CHR 0xE2, CHR 0x80, CHR 0x84], [CHR 0xE2, CHR 0x80, CHR 0x85],
    [CHR 0xE2, CHR 0x80, CHR 0x86], [CHR 0xE2, CHR 0x80, CHR 0x87], [CHR 0xE2, CHR 0x80, CHR 0x88],
    [CHR 0xE2, CHR 0x80, CHR 0x89], [CHR 0xE2, CHR 0x80, CHR 0x8A], [CHR 0xE2, CHR 0x80, CHR 0xA8],
    [CHR 0xE2, CHR 0x80, CHR 0xA9], [CHR 0xE2, CHR 0x80, CHR 0xAF], [CHR 0xE2, CHR 0x81, CHR 0x9F],
    [CHR 0xE3, CHR 0x80, CHR 0x80]]"

lemma ws_nonempty: "w \<in> set ws_utf8 \<Longrightarrow> w \<noteq> []"
  by (auto simp: ws_utf8_def)

definition leading_ws :: "string \<Rightarrow> string option" where
  "leading_ws s = find (\<lambda>w. starts_with w s) ws_utf8"

definition trailing_ws :: "string \<Rightarrow> string option" where
  "trailing_ws s = find (\<lambda>w. ends_with w s) ws_utf8"

lemma leading_ws_length: "leading_ws s = Some w \<Longrightarrow> 0 < length w \<and> length w \<le> length s"
  by (auto simp: leading_ws_def starts_with_iff dest!: find_Some_in ws_nonempty)

lemma trailing_ws_length: "trailing_ws s = Some w \<Longrightarrow> 0 < length w \<and> length w \<le> length s"
  by (auto simp: trailing_ws_def ends_with_iff dest!: find_Some_in ws_nonempty)

lemma leading_ws_less: "leading_ws s = Some w \<Longrightarrow> length s - length w < length s"
  by (drule leading_ws_length) linarith

lemma trailing_ws_less: "trailing_ws s = Some w \<Longrightarrow> length s - length w < length s"
  by (drule trailing_ws_length) linarith

function trim_start :: "string \<Rightarrow> string" where
  "trim_start s = (case leading_ws s of None \<Rightarrow> s | Some w \<Rightarrow> trim_start (drop (length w) s))"
  by pat_completeness auto
termination
  by (relation "measure length") (auto intro: leading_ws_less)

function trim_end :: "string \<Rightarrow> string" where
  "trim_end s = (case trailing_ws s of None \<Rightarrow> s | Some w \<Rightarrow> trim_end (take (length s - length w) s))"
  by pat_completeness auto
termination
  by (relation "measure length") (auto dest: trailing_ws_less)

declare trim_start.simps [simp del] trim_end.simps [simp del]

definition trim :: "string \<Rightarrow> string" where
  "trim s = trim_end (trim_start s)"

lemma leading_ws_Nil [simp]: "leading_ws [] = None"
  using leading_ws_length [of "[]"] by (cases "leading_ws []") auto

lemma trailing_ws_Nil [simp]: "trailing_ws [] = None"
  using trailing_ws_length [of "[]"] by (cases "trailing_ws []") auto

lemma trim_start_id: "leading_ws s = None \<Longrightarrow> trim_start s = s"
  by (subst trim_start.simps) simp

lemma trim_end_id: "trailing_ws s = None \<Longrightarrow> trim_end s = s"
  by (subst trim_end.simps) simp

lemma trim_Nil [simp]: "trim [] = []" "trim_end [] = []" "trim_start [] = []"
  by (simp_all add: trim_def trim_start_id trim_end_id)

lemma trim_end_trailing: "trailing_ws (trim_end s) = None"
proof (induction s rule: trim_end.induct)
  case (1 s)
  then show ?case
    by (cases "trailing_ws s") (simp_all add: trim_end.simps [of s])
qed

lemma trim_end_idem [simp]: "trim_end (trim_end s) = trim_end s"
  by (rule trim_end_id [OF trim_end_trailing])

lemma trim_end_prefix: "\<exists>r. s = trim_end s @ r"
proof (induction s rule: trim_end.induct)
  case (1 s)
  show ?case
  proof (cases "trailing_ws s")
    case None
    then show ?thesis by (simp add: trim_end_id)
  next
    case (Some w)
    with 1 obtain r where "take (length s - length w) s = trim_end (take (length s - length w) s) @ r"
      by blast
    then have "s = trim_end (take (length s - length w) s) @ (r @ drop (length s - length w) s)"
      by (metis append.assoc append_take_drop_id)
    with Some show ?thesis by (simp add: trim_end.simps [of s]) blast
  qed
qed

lemma leading_ws_None: "leading_ws s = None \<longleftrightarrow> (\<forall>w \<in> set ws_utf8. \<not> starts_with w s)"
  by (simp add: leading_ws_def find_None_iff_all)

lemma trailing_ws_None: "trailing_ws s = None \<longleftrightarrow> (\<forall>w \<in> set ws_utf8. \<not> ends_with w s)"
  by (simp add: trailing_ws_def find_None_iff_all)

lemma trim_start_leading: "leading_ws (trim_start s) = None"
proof (induction s rule: trim_start.induct)
  case (1 s)
  then show ?case
    by (cases "leading_ws s") (simp_all add: trim_start.simps [of s])
qed

lemma trim_leading: "leading_ws (trim s) = None"
proof -
  obtain r where "trim_start s = trim s @ r"
    unfolding trim_def using trim_end_prefix by blast
  with trim_start_leading [of s] show ?thesis
    by (auto simp: leading_ws_None starts_with_iff)
qed

lemma trim_idem [simp]: "trim (trim s) = trim s"
  by (metis trim_def trim_end_id trim_end_trailing trim_leading trim_start_id)

text \<open>Only white space itself trims to nothing: a string with no white space at either end
  is unchanged.\<close>

lemma trim_id: "leading_ws s = None \<Longrightarrow> trailing_ws s = None \<Longrightarrow> trim s = s"
  by (simp add: trim_def trim_start_id trim_end_id)

lemma trim_space_prefix: "trim_start (CHR '' '' # s) = trim_start s"
proof -
  have "leading_ws (CHR '' '' # s) = Some '' ''"
    by (simp add: leading_ws_def ws_utf8_def starts_with_def)
  then show ?thesis by (simp add: trim_start.simps [of "CHR '' '' # s"])
qed

section \<open>Splitting and joining\<close>

fun split_on :: "char \<Rightarrow> string \<Rightarrow> string list" where
  "split_on c [] = [[]]"
| "split_on c (x # xs) = (if x = c then [] # split_on c xs
     else (case split_on c xs of [] \<Rightarrow> [[x]] | l # ls \<Rightarrow> (x # l) # ls))"

fun join :: "string \<Rightarrow> string list \<Rightarrow> string" where
  "join sep [] = []"
| "join sep [x] = x"
| "join sep (x # y # ys) = x @ sep @ join sep (y # ys)"

lemma split_on_nonempty [simp]: "split_on c s \<noteq> []"
  by (induction s) (auto split: list.splits)

lemma join_cons_char: "join sep ((x # l) # ls) = x # join sep (l # ls)"
  by (cases ls) auto

lemma join_split_on [simp]: "join [c] (split_on c s) = s"
proof (induction s)
  case Nil
  then show ?case by simp
next
  case (Cons x xs)
  obtain l ls where l: "split_on c xs = l # ls"
    by (cases "split_on c xs") auto
  with Cons show ?case by (simp add: join_cons_char)
qed

lemma join_snoc: "join sep (xs @ [x]) = (if xs = [] then x else join sep xs @ sep @ x)"
  by (induction sep xs rule: join.induct) auto

lemma split_on_no_sep: "c \<notin> set s \<Longrightarrow> split_on c s = [s]"
  by (induction s) auto

lemma split_on_append: "c \<notin> set s \<Longrightarrow> split_on c (s @ c # r) = s # split_on c r"
  by (induction s) auto

lemma split_on_join:
  "ls \<noteq> [] \<Longrightarrow> \<forall>l \<in> set ls. c \<notin> set l \<Longrightarrow> split_on c (join [c] ls) = ls"
proof (induction ls rule: join.induct [of "\<lambda>_. _" "[c]", case_names Nil One More])
  case (Nil sep)
  then show ?case by simp
next
  case (One sep x)
  then show ?case by (simp add: split_on_no_sep)
next
  case (More sep x y ys)
  then show ?case by (simp add: split_on_append)
qed

lemma split_on_in_no_sep: "l \<in> set (split_on c s) \<Longrightarrow> c \<notin> set l"
proof (induction s arbitrary: l)
  case Nil
  then show ?case by simp
next
  case (Cons x xs)
  obtain m ms where m: "split_on c xs = m # ms"
    by (cases "split_on c xs") auto
  with Cons show ?case by (auto split: if_splits)
qed

text \<open>
  \<open>str::lines\<close>: the pieces that end in a line feed, the last one optionally without; each
  loses its line feed and then one carriage return before it.
\<close>

fun split_inclusive :: "string \<Rightarrow> string list" where
  "split_inclusive [] = []"
| "split_inclusive (x # xs) = (if x = LF then [x] # split_inclusive xs
     else (case split_inclusive xs of [] \<Rightarrow> [[x]] | l # ls \<Rightarrow> (x # l) # ls))"

definition chomp :: "string \<Rightarrow> string" where
  "chomp l = (case strip_suffix [LF] l of
      None \<Rightarrow> l
    | Some m \<Rightarrow> (case strip_suffix [CR] m of None \<Rightarrow> m | Some n \<Rightarrow> n))"

definition str_lines :: "string \<Rightarrow> string list" where
  "str_lines s = map chomp (split_inclusive s)"

lemma concat_split_inclusive: "concat (split_inclusive s) = s"
  by (induction s) (auto split: list.splits)

lemma split_inclusive_line:
  "LF \<notin> set l \<Longrightarrow> split_inclusive (l @ LF # r) = (l @ [LF]) # split_inclusive r"
  by (induction l) auto

lemma split_inclusive_last: "LF \<notin> set l \<Longrightarrow> l \<noteq> [] \<Longrightarrow> split_inclusive l = [l]"
proof (induction l)
  case Nil
  then show ?case by simp
next
  case (Cons a l)
  then show ?case by (cases "l = []") auto
qed

lemma chomp_line: "LF \<notin> set l \<Longrightarrow> \<not> ends_with [CR] l \<Longrightarrow> chomp (l @ [LF]) = l"
  by (auto simp: chomp_def strip_suffix_def ends_with_def)

lemma chomp_last: "LF \<notin> set l \<Longrightarrow> chomp l = l"
  by (auto simp: chomp_def strip_suffix_def ends_with_iff)

text \<open>Joining lines with line feeds and splitting them again gives the lines.\<close>

lemma str_lines_join:
  assumes "\<forall>l \<in> set ls. LF \<notin> set l \<and> \<not> ends_with [CR] l" and "ls \<noteq> [] \<longrightarrow> last ls \<noteq> []"
  shows "str_lines (join [LF] ls) = ls"
  using assms
proof (induction ls)
  case Nil
  then show ?case by (simp add: str_lines_def)
next
  case (Cons l ls)
  show ?case
  proof (cases ls)
    case Nil
    with Cons.prems show ?thesis
      by (simp add: str_lines_def split_inclusive_last chomp_last)
  next
    case (Cons m ms)
    with Cons.prems Cons.IH show ?thesis
      by (simp add: str_lines_def split_inclusive_line chomp_line)
  qed
qed

section \<open>Characters\<close>

definition is_ascii_digit :: "char \<Rightarrow> bool" where
  "is_ascii_digit c \<longleftrightarrow> CHR ''0'' \<le> c \<and> c \<le> CHR ''9''"

text \<open>The decimal rendering of a number (\<open>format!("{}", n)\<close>).\<close>

definition digit_char :: "nat \<Rightarrow> char" where
  "digit_char d = char_of (48 + d)"

fun show_nat :: "nat \<Rightarrow> string" where
  "show_nat n = (if n < 10 then [digit_char n] else show_nat (n div 10) @ [digit_char (n mod 10)])"

declare show_nat.simps [simp del]

section \<open>ASCII case and substrings\<close>

definition to_lower_char :: "char \<Rightarrow> char" where
  "to_lower_char c = (let n = of_char c :: nat in if 65 \<le> n \<and> n \<le> 90 then char_of (n + 32) else c)"

definition to_ascii_lowercase :: "string \<Rightarrow> string" where
  "to_ascii_lowercase s = map to_lower_char s"

definition eq_ignore_ascii_case :: "string \<Rightarrow> string \<Rightarrow> bool" where
  "eq_ignore_ascii_case a b \<longleftrightarrow> to_ascii_lowercase a = to_ascii_lowercase b"

fun str_contains :: "string \<Rightarrow> string \<Rightarrow> bool" where
  "str_contains p [] \<longleftrightarrow> p = []"
| "str_contains p (c # s) \<longleftrightarrow> starts_with p (c # s) \<or> str_contains p s"

lemma str_contains_iff: "str_contains p s \<longleftrightarrow> (\<exists>l r. s = l @ p @ r)"
proof (induction s)
  case (Cons c s)
  have "(\<exists>l r. c # s = l @ p @ r) \<longleftrightarrow> (\<exists>r. c # s = p @ r) \<or> (\<exists>l r. s = l @ p @ r)"
    by (metis append_Cons append_Nil neq_Nil_conv list.inject)
  with Cons show ?case by (simp add: starts_with_iff)
qed simp

lemma to_lower_char_idem [simp]: "to_lower_char (to_lower_char c) = to_lower_char c"
  by (simp add: to_lower_char_def Let_def)

lemma to_ascii_lowercase_idem [simp]: "to_ascii_lowercase (to_ascii_lowercase s) = to_ascii_lowercase s"
  by (simp add: to_ascii_lowercase_def)

end
