(* ===== verification/TeamTypes.thy ===== *)
theory TeamTypes
  imports RustStr
begin

text \<open>
  The data of an agent team, from \<open>cokra-rs/protocol/src/protocol/items.rs\<close> and the head of
  \<open>cokra-rs/core/src/agent/team_state.rs\<close>: tasks, their blockers and dependency edges,
  ownership scopes and leases, mailbox messages, plans, and the record \<open>team_state\<close> that
  holds them. A field of a Rust struct keeps its name after a prefix that names the struct.
  Timestamps are \<open>i64\<close> seconds that are only compared, so they are \<open>int\<close>; the mailbox
  version is a \<open>u64\<close> that saturates, so it is a 64-bit word.
\<close>

section \<open>Tasks\<close>

datatype team_task_status =
  Task_Pending | Task_InProgress | Task_Review | Task_Completed | Task_Failed | Task_Canceled

datatype team_task_ready_state =
  Ready_Blocked | Ready_Ready | Ready_Claimed | Ready_Review | Ready_Completed | Ready_Failed
  | Ready_Canceled

datatype team_task_review_state =
  Review_NotRequested | Review_Requested | Review_Approved | Review_ChangesRequested

datatype task_blocker_kind = Blocker_Dependency | Blocker_LeaseConflict | Blocker_Manual

record task_blocker =
  tb_id :: string
  tb_kind :: task_blocker_kind
  tb_blocking_task_id :: "string option"
  tb_reason :: string
  tb_active :: bool
  tb_created_at :: int
  tb_cleared_at :: "int option"

datatype task_edge_kind = Edge_Blocks

record task_edge =
  te_from_task_id :: string
  te_to_task_id :: string
  te_kind :: task_edge_kind
  te_reason :: "string option"
  te_created_at :: int

section \<open>Ownership\<close>

datatype ownership_scope_kind = Scope_File | Scope_Directory | Scope_Glob | Scope_Module

datatype ownership_access_mode = Access_SharedRead | Access_ExclusiveWrite | Access_Review

record ownership_scope =
  os_kind :: ownership_scope_kind
  os_path :: string

record scope_request =
  sr_kind :: ownership_scope_kind
  sr_path :: string
  sr_access :: ownership_access_mode
  sr_reason :: "string option"

record ownership_lease =
  ol_id :: string
  ol_task_id :: string
  ol_owner_thread_id :: string
  ol_scope :: ownership_scope
  ol_access :: ownership_access_mode
  ol_acquired_at :: int
  ol_heartbeat_at :: int
  ol_expires_at :: "int option"

record team_task =
  tn_id :: string
  tn_title :: string
  tn_details :: "string option"
  tn_status :: team_task_status
  tn_ready_state :: team_task_ready_state
  tn_review_state :: team_task_review_state
  tn_owner_thread_id :: "string option"
  tn_blocked_by_task_ids :: "string list"
  tn_blocks_task_ids :: "string list"
  tn_blocking_reason :: "string option"
  tn_blockers :: "task_blocker list"
  tn_requested_scopes :: "scope_request list"
  tn_granted_scopes :: "scope_request list"
  tn_scope_policy_override :: bool
  tn_assignee_thread_id :: "string option"
  tn_reviewer_thread_id :: "string option"
  tn_workflow_run_id :: "string option"
  tn_created_at :: int
  tn_updated_at :: int
  tn_notes :: "string list"

section \<open>Messages\<close>

datatype team_message_kind = Msg_Direct | Msg_Broadcast | Msg_Channel | Msg_Queue

datatype team_message_delivery_mode = Delivery_DurableMail | Delivery_EphemeralNudge

datatype team_message_priority = Prio_Low | Prio_Normal | Prio_High | Prio_Urgent

datatype team_message_ack_state = Ack_NotRequired | Ack_Pending | Ack_Acknowledged | Ack_Expired

record team_message =
  tm_id :: string
  tm_sender_thread_id :: string
  tm_recipient_thread_id :: "string option"
  tm_kind :: team_message_kind
  tm_route_key :: "string option"
  tm_claimed_by_thread_id :: "string option"
  tm_delivery_mode :: team_message_delivery_mode
  tm_priority :: team_message_priority
  tm_correlation_id :: "string option"
  tm_task_id :: "string option"
  tm_ack_state :: team_message_ack_state
  tm_message :: string
  tm_created_at :: int
  tm_expires_at :: "int option"
  tm_acknowledged_at :: "int option"
  tm_acknowledged_by_thread_id :: "string option"
  tm_unread :: bool

text \<open>\<open>seen_by\<close> is a \<open>HashSet\<close>, only asked for membership and counted.\<close>

record stored_message =
  sm_id :: string
  sm_sender_thread_id :: string
  sm_recipient_thread_id :: "string option"
  sm_kind :: team_message_kind
  sm_route_key :: "string option"
  sm_claimed_by_thread_id :: "string option"
  sm_delivery_mode :: team_message_delivery_mode
  sm_priority :: team_message_priority
  sm_correlation_id :: "string option"
  sm_task_id :: "string option"
  sm_ack_state :: team_message_ack_state
  sm_message :: string
  sm_created_at :: int
  sm_expires_at :: "int option"
  sm_acknowledged_at :: "int option"
  sm_acknowledged_by_thread_id :: "string option"
  sm_seen_by :: "string list"

section \<open>Plans, members, snapshots\<close>

datatype team_plan_status = Plan_Draft | Plan_PendingApproval | Plan_Approved | Plan_Rejected

record team_plan =
  tp_id :: string
  tp_author_thread_id :: string
  tp_summary :: string
  tp_steps :: "string list"
  tp_status :: team_plan_status
  tp_requires_approval :: bool
  tp_reviewer_thread_id :: "string option"
  tp_review_note :: "string option"
  tp_workflow_run_id :: "string option"
  tp_created_at :: int
  tp_updated_at :: int

section \<open>The team's state\<close>

record team_state =
  ts_tasks :: "(string, team_task) hashmap"
  ts_task_edges :: "task_edge list"
  ts_task_scope_memory :: "(string, scope_request list) hashmap"
  ts_ownership_leases :: "(string, ownership_lease) hashmap"
  ts_plans :: "(string, team_plan) hashmap"
  ts_messages :: "stored_message list"
  ts_mailbox_version :: u64

text \<open>\<open>TeamState::default()\<close> and \<open>clear\<close>.\<close>

definition empty_team_state :: team_state where
  "empty_team_state = \<lparr>ts_tasks = [], ts_task_edges = [], ts_task_scope_memory = [],
     ts_ownership_leases = [], ts_plans = [], ts_messages = [], ts_mailbox_version = 0\<rparr>"

definition clear :: "team_state \<Rightarrow> team_state" where
  "clear st = st\<lparr>ts_tasks := [], ts_task_edges := [], ts_task_scope_memory := [],
     ts_ownership_leases := [], ts_plans := [], ts_messages := [], ts_mailbox_version := 0\<rparr>"

definition mailbox_version :: "team_state \<Rightarrow> u64" where
  "mailbox_version st = ts_mailbox_version st"

definition task :: "string \<Rightarrow> team_state \<Rightarrow> team_task option" where
  "task task_id st = hm_get (ts_tasks st) task_id"

lemma clear_is_empty: "clear st = empty_team_state"
  by (cases st) (simp add: clear_def empty_team_state_def)

end
