(* ===== verification/TeamScopes.thy ===== *)
theory TeamScopes
  imports TeamTypes
begin

text \<open>
  Ownership scopes: which scopes overlap, which requests conflict with a lease, and how the
  scopes a task works under are chosen (\<open>team_state.rs\<close>, the associated functions at the
  end of \<open>impl TeamState\<close> and the scope templates). The crate \<open>glob\<close> is a parameter.
\<close>

section \<open>Overlap and conflict\<close>

definition path_prefix_matches :: "string \<Rightarrow> string \<Rightarrow> bool" where
  "path_prefix_matches path prefix \<longleftrightarrow>
     path = prefix
     \<or> (case strip_prefix prefix path of
          None \<Rightarrow> False
        | Some suffix \<Rightarrow> starts_with ''/'' suffix \<or> starts_with [CHR 0x5C] suffix)"

definition glob_matches :: "(string \<Rightarrow> string \<Rightarrow> bool) \<Rightarrow> string \<Rightarrow> string \<Rightarrow> bool" where
  "glob_matches g pattern candidate = g pattern candidate"

definition scopes_overlap ::
  "(string \<Rightarrow> string \<Rightarrow> bool) \<Rightarrow> ownership_scope_kind \<Rightarrow> string \<Rightarrow> ownership_scope_kind \<Rightarrow> string \<Rightarrow> bool" where
  "scopes_overlap g left_kind left_path right_kind right_path =
     (case (left_kind, right_kind) of
        (Scope_Module, Scope_Module) \<Rightarrow> left_path = right_path
      | (Scope_Module, _) \<Rightarrow> False
      | (_, Scope_Module) \<Rightarrow> False
      | (Scope_Glob, _) \<Rightarrow> glob_matches g left_path right_path
      | (_, Scope_Glob) \<Rightarrow> glob_matches g right_path left_path
      | _ \<Rightarrow> left_path = right_path
          \<or> path_prefix_matches left_path right_path
          \<or> path_prefix_matches right_path left_path)"

fun accesses_compatible :: "ownership_access_mode \<Rightarrow> ownership_access_mode \<Rightarrow> bool" where
  "accesses_compatible requested_access active_access \<longleftrightarrow>
     requested_access = Access_SharedRead \<or> active_access = Access_SharedRead"

definition scope_request_conflicts_with_lease ::
  "(string \<Rightarrow> string \<Rightarrow> bool) \<Rightarrow> scope_request \<Rightarrow> ownership_lease \<Rightarrow> bool" where
  "scope_request_conflicts_with_lease g request lease =
     (if \<not> scopes_overlap g (sr_kind request) (sr_path request)
             (os_kind (ol_scope lease)) (os_path (ol_scope lease))
      then False
      else \<not> accesses_compatible (sr_access request) (ol_access lease))"

fun access_label :: "ownership_access_mode \<Rightarrow> string" where
  "access_label Access_SharedRead = ''shared-read''"
| "access_label Access_ExclusiveWrite = ''exclusive-write''"
| "access_label Access_Review = ''review''"

fun write_scope_rank :: "scope_request \<Rightarrow> string \<Rightarrow> nat" where
  "write_scope_rank scope path = (case sr_kind scope of
      Scope_File \<Rightarrow> 10000
    | Scope_Directory \<Rightarrow> 5000 + length (sr_path scope)
    | Scope_Glob \<Rightarrow> 1000 + length (sr_path scope)
    | Scope_Module \<Rightarrow> if sr_path scope = path then 10000 else 0)"

section \<open>The scopes a task works under\<close>

definition scope_template :: "scope_request \<Rightarrow> scope_request" where
  "scope_template scope = \<lparr>sr_kind = sr_kind scope, sr_path = sr_path scope, sr_access = sr_access scope,
     sr_reason = (case map_option trim (sr_reason scope) of
         None \<Rightarrow> None
       | Some reason \<Rightarrow>
           if reason \<noteq> [] \<and> \<not> starts_with ''lease '' reason then Some reason else None)\<rparr>"

definition scope_templates_from_requests :: "scope_request list \<Rightarrow> scope_request list" where
  "scope_templates_from_requests scopes = map scope_template scopes"

definition resolve_effective_scope_requests ::
  "scope_request list \<Rightarrow> scope_request list option \<Rightarrow> scope_request list option \<Rightarrow> scope_request list" where
  "resolve_effective_scope_requests requested_scopes remembered_scopes granted_scopes =
     (if requested_scopes \<noteq> [] then scope_templates_from_requests requested_scopes
      else case remembered_scopes of
        Some scopes \<Rightarrow>
          if scopes \<noteq> [] then scope_templates_from_requests scopes
          else (case granted_scopes of
              Some gs \<Rightarrow> if gs \<noteq> [] then scope_templates_from_requests gs else []
            | None \<Rightarrow> [])
      | None \<Rightarrow> (case granted_scopes of
              Some gs \<Rightarrow> if gs \<noteq> [] then scope_templates_from_requests gs else []
            | None \<Rightarrow> []))"

definition effective_scope_requests :: "team_state \<Rightarrow> string \<Rightarrow> scope_request list" where
  "effective_scope_requests st task_id =
     (case hm_get (ts_tasks st) task_id of
        None \<Rightarrow> []
      | Some t \<Rightarrow> resolve_effective_scope_requests (tn_requested_scopes t)
          (hm_get (ts_task_scope_memory st) task_id) (Some (tn_granted_scopes t)))"

definition remember_task_scopes :: "string \<Rightarrow> scope_request list \<Rightarrow> team_state \<Rightarrow> team_state" where
  "remember_task_scopes task_id scopes st =
     (if scopes = [] then st
      else st\<lparr>ts_task_scope_memory :=
             hm_insert task_id (scope_templates_from_requests scopes) (ts_task_scope_memory st)\<rparr>)"

definition remember_task_scopes_from_task :: "string \<Rightarrow> team_state \<Rightarrow> team_state" where
  "remember_task_scopes_from_task task_id st =
     remember_task_scopes task_id (effective_scope_requests st task_id) st"

section \<open>Facts\<close>

lemma path_prefix_matches_refl [simp]: "path_prefix_matches p p"
  by (simp add: path_prefix_matches_def)

lemma path_prefix_matches_iff:
  "path_prefix_matches path prefix \<longleftrightarrow>
     path = prefix \<or> (\<exists>r. path = prefix @ ''/'' @ r) \<or> (\<exists>r. path = prefix @ [CHR 0x5C] @ r)"
proof (cases "strip_prefix prefix path")
  case None
  then have "\<not> starts_with prefix path" by (simp add: strip_prefix_None)
  with None show ?thesis
    by (auto simp: path_prefix_matches_def starts_with_iff)
next
  case (Some r)
  then have "path = prefix @ r" by (simp add: strip_prefix_Some)
  with Some show ?thesis
    by (auto simp: path_prefix_matches_def starts_with_iff)
qed

text \<open>A file scope overlaps itself, and overlap is symmetric but for two globs, where only
  the left pattern is matched (against the text of the right pattern).\<close>

lemma scopes_overlap_file_self [simp]: "scopes_overlap g Scope_File p Scope_File p"
  by (simp add: scopes_overlap_def)

lemma scopes_overlap_sym:
  "\<not> (k1 = Scope_Glob \<and> k2 = Scope_Glob) \<Longrightarrow> scopes_overlap g k1 p1 k2 p2 = scopes_overlap g k2 p2 k1 p1"
  by (cases k1; cases k2) (auto simp: scopes_overlap_def)

lemma scopes_overlap_file_sym:
  "scopes_overlap g Scope_File p k q = scopes_overlap g k q Scope_File p"
  by (rule scopes_overlap_sym) simp

lemma scope_request_conflicts_iff:
  "scope_request_conflicts_with_lease g r l \<longleftrightarrow>
     scopes_overlap g (sr_kind r) (sr_path r) (os_kind (ol_scope l)) (os_path (ol_scope l))
     \<and> sr_access r \<noteq> Access_SharedRead \<and> ol_access l \<noteq> Access_SharedRead"
  by (auto simp: scope_request_conflicts_with_lease_def)

text \<open>Taking a template twice changes nothing more, and a template keeps the scope itself.\<close>

lemma scope_template_idem [simp]: "scope_template (scope_template r) = scope_template r"
  by (simp add: scope_template_def split: option.splits)

lemma scope_template_sel [simp]:
  "sr_kind (scope_template r) = sr_kind r" "sr_path (scope_template r) = sr_path r"
  "sr_access (scope_template r) = sr_access r"
  by (simp_all add: scope_template_def)

lemma scope_templates_idem [simp]:
  "scope_templates_from_requests (scope_templates_from_requests rs) = scope_templates_from_requests rs"
  by (simp add: scope_templates_from_requests_def)

lemma scope_templates_Nil_iff [simp]: "scope_templates_from_requests rs = [] \<longleftrightarrow> rs = []"
  by (simp add: scope_templates_from_requests_def)

end
