(* ===== verification/TeamGraph.thy ===== *)
theory TeamGraph
  imports TeamScopes
begin

text \<open>
  The derived part of a team's state (\<open>recompute_task_graph\<close> in \<open>team_state.rs\<close>): stale
  edges, leases and scope memories are dropped, and every task gets the blockers that follow
  from its dependencies and from the leases of others, the scopes its own leases grant, and
  its readiness. The steps of the Rust function are separate definitions, in its order.
\<close>

section \<open>Definitions\<close>

definition sorted_ownership_leases :: "team_state \<Rightarrow> ownership_lease list" where
  "sorted_ownership_leases st =
     sort_key (\<lambda>l. (os_path (ol_scope l), ol_acquired_at l)) (hm_values (ts_ownership_leases st))"

definition granted_scope :: "ownership_lease \<Rightarrow> scope_request" where
  "granted_scope lease = \<lparr>sr_kind = os_kind (ol_scope lease), sr_path = os_path (ol_scope lease),
     sr_access = ol_access lease, sr_reason = Some (''lease '' @ ol_id lease)\<rparr>"

definition granted_scopes_by_task :: "ownership_lease list \<Rightarrow> (string, scope_request list) hashmap" where
  "granted_scopes_by_task leases =
     group_pairs (map (\<lambda>lease. (ol_task_id lease, granted_scope lease)) leases)"

definition blocked_by :: "task_edge list \<Rightarrow> (string, (string \<times> string option) list) hashmap" where
  "blocked_by edges =
     group_pairs (map (\<lambda>edge. (te_to_task_id edge, (te_from_task_id edge, te_reason edge))) edges)"

definition blocks :: "task_edge list \<Rightarrow> (string, string list) hashmap" where
  "blocks edges = group_pairs (map (\<lambda>edge. (te_from_task_id edge, te_to_task_id edge)) edges)"

definition effective_scope_requests_by_task ::
  "(string, scope_request list) hashmap \<Rightarrow> (string, scope_request list) hashmap
     \<Rightarrow> (string, team_task) hashmap \<Rightarrow> (string, scope_request list) hashmap" where
  "effective_scope_requests_by_task memory granted tasks =
     hm_map (\<lambda>task_id t. resolve_effective_scope_requests (tn_requested_scopes t)
       (hm_get memory task_id) (hm_get granted task_id)) tasks"

definition dependency_blocker ::
  "int \<Rightarrow> (string \<Rightarrow> team_task_status option) \<Rightarrow> string \<Rightarrow> string \<times> string option \<Rightarrow> task_blocker" where
  "dependency_blocker now status_by_id task_id dep =
     (let dependency_task_id = fst dep; reason = snd dep;
          dependency_status = status_by_id dependency_task_id;
          active = (case dependency_status of None \<Rightarrow> False | Some status \<Rightarrow> status \<noteq> Task_Completed);
          blocker_reason = (case dependency_status of
              Some Task_Failed \<Rightarrow> ''dependency '' @ dependency_task_id @ '' failed''
            | Some Task_Canceled \<Rightarrow> ''dependency '' @ dependency_task_id @ '' was canceled''
            | Some _ \<Rightarrow> (case reason of Some r \<Rightarrow> r | None \<Rightarrow> ''blocked by task '' @ dependency_task_id)
            | None \<Rightarrow> ''dependency '' @ dependency_task_id @ '' is missing'')
      in \<lparr>tb_id = ''dependency:'' @ task_id @ '':'' @ dependency_task_id,
          tb_kind = Blocker_Dependency, tb_blocking_task_id = Some dependency_task_id,
          tb_reason = blocker_reason, tb_active = active, tb_created_at = now,
          tb_cleared_at = (if active then None else Some now)\<rparr>)"

definition has_scope_conflict ::
  "(string \<Rightarrow> string \<Rightarrow> bool) \<Rightarrow> (string, scope_request list) hashmap \<Rightarrow> string \<Rightarrow> ownership_lease \<Rightarrow> bool" where
  "has_scope_conflict g effective task_id lease =
     (case hm_get effective task_id of
        None \<Rightarrow> False
      | Some requests \<Rightarrow> list_ex (\<lambda>r. scope_request_conflicts_with_lease g r lease) requests)"

definition lease_blocker ::
  "(string \<Rightarrow> string \<Rightarrow> bool) \<Rightarrow> (string, scope_request list) hashmap \<Rightarrow> string \<Rightarrow> string option
     \<Rightarrow> ownership_lease \<Rightarrow> task_blocker option" where
  "lease_blocker g effective task_id requester_thread_id lease =
     (if ol_task_id lease = task_id
         \<or> requester_thread_id = Some (ol_owner_thread_id lease)
         \<or> \<not> has_scope_conflict g effective task_id lease
      then None
      else Some \<lparr>tb_id = ''lease:'' @ task_id @ '':'' @ ol_id lease,
          tb_kind = Blocker_LeaseConflict, tb_blocking_task_id = Some (ol_task_id lease),
          tb_reason = ''scope '' @ os_path (ol_scope lease) @ '' locked by ''
            @ ol_owner_thread_id lease @ '' ('' @ access_label (ol_access lease) @ '')'',
          tb_active = True, tb_created_at = ol_acquired_at lease, tb_cleared_at = None\<rparr>)"

fun ready_state_of :: "team_task_status \<Rightarrow> task_blocker list \<Rightarrow> team_task_ready_state" where
  "ready_state_of Task_Completed bs = Ready_Completed"
| "ready_state_of Task_Failed bs = Ready_Failed"
| "ready_state_of Task_Canceled bs = Ready_Canceled"
| "ready_state_of Task_Review bs = Ready_Review"
| "ready_state_of Task_InProgress bs = Ready_Claimed"
| "ready_state_of Task_Pending bs = (if list_ex tb_active bs then Ready_Blocked else Ready_Ready)"

definition settle_review :: "team_task_status \<Rightarrow> team_task_review_state \<Rightarrow> team_task_review_state" where
  "settle_review status review =
     (let r1 = (if status = Task_Review \<and> review = Review_NotRequested
                then Review_Requested else review)
      in if status = Task_Completed \<and> r1 = Review_Requested then Review_Approved else r1)"

definition requester :: "team_task \<Rightarrow> string option" where
  "requester t = (case tn_owner_thread_id t of Some owner \<Rightarrow> Some owner | None \<Rightarrow> tn_assignee_thread_id t)"

definition or_nil :: "'a list option \<Rightarrow> 'a list" where
  "or_nil x = (case x of None \<Rightarrow> [] | Some xs \<Rightarrow> xs)"

definition task_blockers ::
  "(string \<Rightarrow> string \<Rightarrow> bool) \<Rightarrow> int \<Rightarrow> (string \<Rightarrow> team_task_status option)
     \<Rightarrow> (string, (string \<times> string option) list) hashmap \<Rightarrow> (string, scope_request list) hashmap
     \<Rightarrow> ownership_lease list \<Rightarrow> string \<Rightarrow> team_task \<Rightarrow> task_blocker list" where
  "task_blockers g now status_by_id blocked effective leases task_id t =
     filter (\<lambda>b. tb_kind b = Blocker_Manual) (tn_blockers t)
     @ map (dependency_blocker now status_by_id task_id) (or_nil (hm_get blocked task_id))
     @ List.map_filter (lease_blocker g effective task_id (requester t)) leases"

definition recompute_task ::
  "(string \<Rightarrow> string \<Rightarrow> bool) \<Rightarrow> int \<Rightarrow> (string \<Rightarrow> team_task_status option)
     \<Rightarrow> (string, (string \<times> string option) list) hashmap \<Rightarrow> (string, string list) hashmap
     \<Rightarrow> (string, scope_request list) hashmap \<Rightarrow> (string, scope_request list) hashmap
     \<Rightarrow> ownership_lease list \<Rightarrow> string \<Rightarrow> team_task \<Rightarrow> team_task" where
  "recompute_task g now status_by_id blocked blocking effective granted leases task_id t =
     (let bs = task_blockers g now status_by_id blocked effective leases task_id t
      in t\<lparr>tn_blocked_by_task_ids := map fst (or_nil (hm_get blocked task_id)),
           tn_blocks_task_ids := or_nil (hm_get blocking task_id),
           tn_blockers := bs,
           tn_granted_scopes := or_nil (hm_get granted task_id),
           tn_blocking_reason := map_option tb_reason (find tb_active bs),
           tn_ready_state := ready_state_of (tn_status t) bs,
           tn_review_state := settle_review (tn_status t) (tn_review_state t)\<rparr>)"

text \<open>The \<open>retain\<close> calls that precede the computation.\<close>

definition prune_dangling :: "team_state \<Rightarrow> team_state" where
  "prune_dangling st =
     (let existing_task_ids = hm_keys (ts_tasks st)
      in st\<lparr>ts_task_scope_memory :=
              hm_retain (\<lambda>task_id _. task_id \<in> set existing_task_ids) (ts_task_scope_memory st),
            ts_ownership_leases :=
              hm_retain (\<lambda>_ lease. ol_task_id lease \<in> set existing_task_ids) (ts_ownership_leases st),
            ts_task_edges := filter (\<lambda>edge. te_from_task_id edge \<in> set existing_task_ids
              \<and> te_to_task_id edge \<in> set existing_task_ids) (ts_task_edges st)\<rparr>)"

definition recompute_task_graph :: "(string \<Rightarrow> string \<Rightarrow> bool) \<Rightarrow> int \<Rightarrow> team_state \<Rightarrow> team_state" where
  "recompute_task_graph g now st =
     (let status_by_id = hm_get (hm_map (\<lambda>_ t. tn_status t) (ts_tasks st));
          st1 = prune_dangling st;
          leases = sorted_ownership_leases st1;
          granted = granted_scopes_by_task leases;
          blocked = blocked_by (ts_task_edges st1);
          blocking = blocks (ts_task_edges st1);
          effective = effective_scope_requests_by_task (ts_task_scope_memory st1) granted (ts_tasks st1)
      in st1\<lparr>ts_tasks :=
           hm_map (recompute_task g now status_by_id blocked blocking effective granted leases)
             (ts_tasks st1)\<rparr>)"

section \<open>Frame facts\<close>

lemma or_nil_simps [simp]: "or_nil None = []" "or_nil (Some xs) = xs"
  by (simp_all add: or_nil_def)

lemma prune_dangling_simps [simp]:
  "ts_tasks (prune_dangling st) = ts_tasks st"
  "ts_plans (prune_dangling st) = ts_plans st"
  "ts_messages (prune_dangling st) = ts_messages st"
  "ts_mailbox_version (prune_dangling st) = ts_mailbox_version st"
  by (simp_all add: prune_dangling_def Let_def)

lemma hm_retain_idem [simp]: "hm_retain P (hm_retain P m) = hm_retain P m"
  by (simp add: hm_retain_def)

lemma filter_same: "filter P (filter P xs) = filter P xs"
  by simp

lemma prune_dangling_idem [simp]: "prune_dangling (prune_dangling st) = prune_dangling st"
  by (simp add: prune_dangling_def Let_def filter_same del: filter_filter)

lemma recompute_simps [simp]:
  "hm_keys (ts_tasks (recompute_task_graph g now st)) = hm_keys (ts_tasks st)"
  "ts_task_edges (recompute_task_graph g now st) = ts_task_edges (prune_dangling st)"
  "ts_task_scope_memory (recompute_task_graph g now st) = ts_task_scope_memory (prune_dangling st)"
  "ts_ownership_leases (recompute_task_graph g now st) = ts_ownership_leases (prune_dangling st)"
  "ts_plans (recompute_task_graph g now st) = ts_plans st"
  "ts_messages (recompute_task_graph g now st) = ts_messages st"
  "ts_mailbox_version (recompute_task_graph g now st) = ts_mailbox_version st"
  by (simp_all add: recompute_task_graph_def Let_def)

text \<open>The fields of a task that are its own, not derived.\<close>

definition same_task :: "team_task \<Rightarrow> team_task \<Rightarrow> bool" where
  "same_task t u \<longleftrightarrow> tn_id t = tn_id u \<and> tn_title t = tn_title u \<and> tn_details t = tn_details u
     \<and> tn_status t = tn_status u \<and> tn_owner_thread_id t = tn_owner_thread_id u
     \<and> tn_requested_scopes t = tn_requested_scopes u
     \<and> tn_scope_policy_override t = tn_scope_policy_override u
     \<and> tn_assignee_thread_id t = tn_assignee_thread_id u
     \<and> tn_reviewer_thread_id t = tn_reviewer_thread_id u
     \<and> tn_workflow_run_id t = tn_workflow_run_id u
     \<and> tn_created_at t = tn_created_at u \<and> tn_updated_at t = tn_updated_at u
     \<and> tn_notes t = tn_notes u
     \<and> filter (\<lambda>b. tb_kind b = Blocker_Manual) (tn_blockers t)
        = filter (\<lambda>b. tb_kind b = Blocker_Manual) (tn_blockers u)"

lemma dependency_blocker_kind [simp]:
  "tb_kind (dependency_blocker now s tid d) = Blocker_Dependency"
  by (simp add: dependency_blocker_def Let_def)

lemma dependency_blocker_active:
  "tb_active (dependency_blocker now s tid d) \<longleftrightarrow>
     (\<exists>status. s (fst d) = Some status \<and> status \<noteq> Task_Completed)"
  by (simp add: dependency_blocker_def Let_def split: option.split)

lemma lease_blocker_Some:
  "lease_blocker g eff tid rq l = Some b \<Longrightarrow> tb_kind b = Blocker_LeaseConflict \<and> tb_active b"
  by (auto simp: lease_blocker_def split: if_splits)

lemma lease_blocker_None_iff:
  "lease_blocker g eff tid rq l = None \<longleftrightarrow>
     ol_task_id l = tid \<or> rq = Some (ol_owner_thread_id l) \<or> \<not> has_scope_conflict g eff tid l"
  by (simp add: lease_blocker_def)

lemma set_map_filter: "set (List.map_filter f xs) = {y. \<exists>x \<in> set xs. f x = Some y}"
  by (auto simp: List.map_filter_def image_def)

lemma no_lease_blocker:
  "\<not> list_ex tb_active (List.map_filter (lease_blocker g eff tid rq) ls)
    \<longleftrightarrow> (\<forall>l \<in> set ls. lease_blocker g eff tid rq l = None)"
  by (induction ls) (auto simp: List.map_filter_simps dest: lease_blocker_Some split: option.split)

lemma manual_task_blockers [simp]:
  "filter (\<lambda>b. tb_kind b = Blocker_Manual) (task_blockers g now s bl eff ls tid t)
    = filter (\<lambda>b. tb_kind b = Blocker_Manual) (tn_blockers t)"
proof -
  have "filter (\<lambda>b. tb_kind b = Blocker_Manual) (List.map_filter (lease_blocker g eff tid rq) ls) = []" for rq
    by (auto simp: filter_empty_conv set_map_filter dest: lease_blocker_Some)
  moreover have "filter (\<lambda>b. tb_kind b = Blocker_Manual) (map (dependency_blocker now s tid) ds) = []" for ds
    by (simp add: filter_empty_conv)
  ultimately show ?thesis by (simp add: task_blockers_def)
qed

lemma recompute_task_same: "same_task (recompute_task g now s bl bk eff gr ls tid t) t"
  by (simp add: same_task_def recompute_task_def Let_def)

lemma requester_recompute_task [simp]:
  "requester (recompute_task g now s bl bk eff gr ls tid t) = requester t"
  by (simp add: recompute_task_def Let_def requester_def split: option.split)

lemmas same_task_simps = recompute_task_same [unfolded same_task_def]

lemma get_recompute:
  "hm_get (ts_tasks (recompute_task_graph g now st)) tid = Some u \<longleftrightarrow>
     (\<exists>t. hm_get (ts_tasks st) tid = Some t
        \<and> u = recompute_task g now (\<lambda>k. map_option tn_status (hm_get (ts_tasks st) k))
            (blocked_by (ts_task_edges (prune_dangling st))) (blocks (ts_task_edges (prune_dangling st)))
            (effective_scope_requests_by_task (ts_task_scope_memory (prune_dangling st))
               (granted_scopes_by_task (sorted_ownership_leases (prune_dangling st))) (ts_tasks st))
            (granted_scopes_by_task (sorted_ownership_leases (prune_dangling st)))
            (sorted_ownership_leases (prune_dangling st)) tid t)"
  by (auto simp: recompute_task_graph_def Let_def hm_simps)

lemma get_recompute_same:
  "hm_get (ts_tasks (recompute_task_graph g now st)) tid = Some u
     \<Longrightarrow> \<exists>t. hm_get (ts_tasks st) tid = Some t \<and> same_task u t"
  using recompute_task_same by (fastforce simp: get_recompute)

lemma get_recompute_None [simp]:
  "hm_get (ts_tasks (recompute_task_graph g now st)) tid = None \<longleftrightarrow> hm_get (ts_tasks st) tid = None"
  by (simp add: recompute_task_graph_def Let_def hm_simps)

lemma status_recompute:
  "map_option tn_status (hm_get (ts_tasks (recompute_task_graph g now st)) tid)
    = map_option tn_status (hm_get (ts_tasks st) tid)"
proof (cases "hm_get (ts_tasks (recompute_task_graph g now st)) tid")
  case None
  then show ?thesis by simp
next
  case (Some u)
  with get_recompute_same obtain t where "hm_get (ts_tasks st) tid = Some t" "same_task u t" by blast
  with Some show ?thesis by (simp add: same_task_def)
qed

section \<open>Readiness\<close>

text \<open>What it means for a task to be ready, over the state alone: it is pending, no manual
  blocker is active, every task it depends on is completed, and no other task's lease of
  another thread conflicts with a scope it works under.\<close>

definition dependencies_completed :: "team_state \<Rightarrow> string \<Rightarrow> bool" where
  "dependencies_completed st task_id \<longleftrightarrow>
     (\<forall>edge \<in> set (ts_task_edges st). te_to_task_id edge = task_id \<longrightarrow>
        (\<exists>u. hm_get (ts_tasks st) (te_from_task_id edge) = Some u \<and> tn_status u = Task_Completed))"

definition lease_free :: "(string \<Rightarrow> string \<Rightarrow> bool) \<Rightarrow> team_state \<Rightarrow> string \<Rightarrow> string option \<Rightarrow> bool" where
  "lease_free g st task_id requester_thread_id \<longleftrightarrow>
     (\<forall>lease \<in> set (hm_values (ts_ownership_leases st)).
        ol_task_id lease = task_id \<or> requester_thread_id = Some (ol_owner_thread_id lease)
        \<or> (\<forall>r \<in> set (effective_scope_requests st task_id). \<not> scope_request_conflicts_with_lease g r lease))"

definition no_manual_blocker :: "team_task \<Rightarrow> bool" where
  "no_manual_blocker t \<longleftrightarrow> (\<forall>b \<in> set (tn_blockers t). tb_kind b = Blocker_Manual \<longrightarrow> \<not> tb_active b)"

lemma ready_state_of_ready:
  "ready_state_of s bs = Ready_Ready \<longleftrightarrow> s = Task_Pending \<and> \<not> list_ex tb_active bs"
  by (cases s) auto

lemma resolve_or_nil:
  "resolve_effective_scope_requests rq m (Some (or_nil gr)) = resolve_effective_scope_requests rq m gr"
  by (cases gr) (auto simp: resolve_effective_scope_requests_def split: option.splits)

lemma set_sorted_leases [simp]:
  "set (sorted_ownership_leases st) = set (hm_values (ts_ownership_leases st))"
  by (simp add: sorted_ownership_leases_def)

lemma hm_retain_keys_get:
  "k \<in> K \<Longrightarrow> hm_get (hm_retain (\<lambda>k _. k \<in> K) m) k = hm_get m k"
  by (induction m) (auto simp: hm_retain_def)

lemma pushed_deps:
  "pushed (map (\<lambda>edge. (te_to_task_id edge, (te_from_task_id edge, te_reason edge))) es) k
    = map (\<lambda>edge. (te_from_task_id edge, te_reason edge)) (filter (\<lambda>edge. te_to_task_id edge = k) es)"
  by (induction es) (auto simp: pushed_def)

lemma or_nil_blocked_by:
  "or_nil (hm_get (blocked_by es) k)
    = map (\<lambda>edge. (te_from_task_id edge, te_reason edge)) (filter (\<lambda>edge. te_to_task_id edge = k) es)"
  by (simp add: blocked_by_def get_group_pairs pushed_deps)

lemma effective_after_recompute:
  assumes "hm_get (ts_tasks st) tid = Some t"
  shows "hm_get (effective_scope_requests_by_task (ts_task_scope_memory (prune_dangling st))
            (granted_scopes_by_task (sorted_ownership_leases (prune_dangling st))) (ts_tasks st)) tid
          = Some (effective_scope_requests (recompute_task_graph g now st) tid)"
proof -
  let ?st' = "recompute_task_graph g now st"
  obtain u where u: "hm_get (ts_tasks ?st') tid = Some u"
    using assms by (metis get_recompute_None not_Some_eq)
  from u assms have "tn_granted_scopes u
      = or_nil (hm_get (granted_scopes_by_task (sorted_ownership_leases (prune_dangling st))) tid)"
    and "tn_requested_scopes u = tn_requested_scopes t"
    by (auto simp: get_recompute recompute_task_def Let_def)
  with u assms show ?thesis
    by (simp add: effective_scope_requests_def effective_scope_requests_by_task_def hm_simps
        resolve_or_nil)
qed

lemma ready_iff:
  assumes u: "hm_get (ts_tasks (recompute_task_graph g now st)) tid = Some u"
  shows "tn_ready_state u = Ready_Ready \<longleftrightarrow>
     tn_status u = Task_Pending \<and> no_manual_blocker u
     \<and> dependencies_completed (recompute_task_graph g now st) tid
     \<and> lease_free g (recompute_task_graph g now st) tid (requester u)"
proof -
  let ?st' = "recompute_task_graph g now st"
  let ?p = "prune_dangling st"
  let ?s = "\<lambda>k. map_option tn_status (hm_get (ts_tasks st) k)"
  let ?bl = "blocked_by (ts_task_edges ?p)"
  let ?ls = "sorted_ownership_leases ?p"
  let ?eff = "effective_scope_requests_by_task (ts_task_scope_memory ?p) (granted_scopes_by_task ?ls) (ts_tasks st)"
  obtain t where t: "hm_get (ts_tasks st) tid = Some t"
    and ut: "u = recompute_task g now ?s ?bl (blocks (ts_task_edges ?p)) ?eff (granted_scopes_by_task ?ls) ?ls tid t"
    using u by (auto simp: get_recompute)
  let ?man = "filter (\<lambda>b. tb_kind b = Blocker_Manual) (tn_blockers t)"
  let ?deps = "map (dependency_blocker now ?s tid) (or_nil (hm_get ?bl tid))"
  let ?lbs = "List.map_filter (lease_blocker g ?eff tid (requester t)) ?ls"
  have bs: "tn_blockers u = ?man @ ?deps @ ?lbs"
    by (simp add: ut recompute_task_def task_blockers_def Let_def)
  have rq: "requester u = requester t" by (simp add: ut)
  have "tn_ready_state u = ready_state_of (tn_status u) (tn_blockers u)"
    by (simp add: ut recompute_task_def Let_def)
  then have ready: "tn_ready_state u = Ready_Ready \<longleftrightarrow>
      tn_status u = Task_Pending \<and> \<not> list_ex tb_active ?man \<and> \<not> list_ex tb_active ?deps
      \<and> \<not> list_ex tb_active ?lbs"
    by (simp add: ready_state_of_ready bs)
  have man: "\<not> list_ex tb_active ?man \<longleftrightarrow> no_manual_blocker u"
  proof -
    have "filter (\<lambda>b. tb_kind b = Blocker_Manual) (tn_blockers u) = ?man"
      using same_task_simps [of g now ?s ?bl "blocks (ts_task_edges ?p)" ?eff "granted_scopes_by_task ?ls" ?ls tid t]
      by (simp add: ut)
    then have "\<not> list_ex tb_active (filter (\<lambda>b. tb_kind b = Blocker_Manual) (tn_blockers u))
        \<longleftrightarrow> \<not> list_ex tb_active ?man" by simp
    then show ?thesis by (auto simp: no_manual_blocker_def list_ex_iff)
  qed
  have edges: "te_from_task_id e \<in> set (hm_keys (ts_tasks st))" if "e \<in> set (ts_task_edges ?p)" for e
    using that by (auto simp: prune_dangling_def Let_def)
  have deps: "\<not> list_ex tb_active ?deps \<longleftrightarrow> dependencies_completed ?st' tid"
  proof -
    have st: "(\<exists>u. hm_get (ts_tasks ?st') k = Some u \<and> tn_status u = Task_Completed)
        \<longleftrightarrow> ?s k = Some Task_Completed" for k
      by (auto simp flip: status_recompute [of g now st k])
    have "\<not> list_ex tb_active ?deps \<longleftrightarrow> (\<forall>e \<in> set (ts_task_edges ?p). te_to_task_id e = tid \<longrightarrow>
        (\<forall>s. ?s (te_from_task_id e) = Some s \<longrightarrow> s = Task_Completed))"
      by (auto simp: list_ex_iff or_nil_blocked_by dependency_blocker_active)
    also have "\<dots> \<longleftrightarrow> (\<forall>e \<in> set (ts_task_edges ?p). te_to_task_id e = tid \<longrightarrow>
        ?s (te_from_task_id e) = Some Task_Completed)"
    proof (intro ball_cong refl imp_cong)
      fix e assume "e \<in> set (ts_task_edges ?p)"
      then obtain v where "?s (te_from_task_id e) = Some v"
        using edges keys_get by fastforce
      then show "(\<forall>s. ?s (te_from_task_id e) = Some s \<longrightarrow> s = Task_Completed)
          \<longleftrightarrow> ?s (te_from_task_id e) = Some Task_Completed" by auto
    qed
    also have "\<dots> \<longleftrightarrow> dependencies_completed ?st' tid"
      by (simp add: dependencies_completed_def st)
    finally show ?thesis .
  qed
  have conflict: "has_scope_conflict g ?eff tid l \<longleftrightarrow>
      (\<exists>r \<in> set (effective_scope_requests ?st' tid). scope_request_conflicts_with_lease g r l)" for l
    by (simp add: has_scope_conflict_def effective_after_recompute [OF t, where g = g and now = now] list_ex_iff)
  have "\<not> list_ex tb_active ?lbs \<longleftrightarrow> (\<forall>l \<in> set ?ls. lease_blocker g ?eff tid (requester t) l = None)"
    by (rule no_lease_blocker)
  then have "\<not> list_ex tb_active ?lbs \<longleftrightarrow> lease_free g ?st' tid (requester u)"
    by (simp add: lease_blocker_None_iff conflict lease_free_def rq)
  with ready man deps show ?thesis by simp
qed

section \<open>Recomputing twice\<close>

lemma settle_review_idem [simp]: "settle_review s (settle_review s r) = settle_review s r"
  by (auto simp: settle_review_def Let_def)

lemma recompute_task_idem:
  "recompute_task g now s bl bk eff gr ls tid (recompute_task g now s bl bk eff gr ls tid t)
    = recompute_task g now s bl bk eff gr ls tid t"
proof -
  let ?u = "recompute_task g now s bl bk eff gr ls tid t"
  have "task_blockers g now s bl eff ls tid ?u = task_blockers g now s bl eff ls tid t"
    using same_task_simps [of g now s bl bk eff gr ls tid t]
    by (simp add: task_blockers_def)
  then show ?thesis by (simp add: recompute_task_def Let_def)
qed

lemma prune_after_recompute:
  "prune_dangling (recompute_task_graph g now st) = recompute_task_graph g now st"
proof -
  have "prune_dangling (st'\<lparr>ts_tasks := ts\<rparr>) = (prune_dangling st')\<lparr>ts_tasks := ts\<rparr>"
    if "hm_keys ts = hm_keys (ts_tasks st')" for ts st'
    using that by (simp add: prune_dangling_def Let_def flip: set_map)
  then show ?thesis by (simp add: recompute_task_graph_def Let_def)
qed

lemma hm_map_hm_map: "hm_map f (hm_map f' m) = hm_map (\<lambda>k v. f k (f' k v)) m"
  by (induction m) (auto simp: hm_map_def)

lemma recompute_idem_aux:
  "recompute_task_graph g now (recompute_task_graph g now st) = recompute_task_graph g now st"
proof -
  let ?st' = "recompute_task_graph g now st"
  let ?p = "prune_dangling st"
  let ?ls = "sorted_ownership_leases ?p"
  let ?gr = "granted_scopes_by_task ?ls"
  let ?s = "hm_get (hm_map (\<lambda>_ t. tn_status t) (ts_tasks st))"
  let ?eff = "effective_scope_requests_by_task (ts_task_scope_memory ?p) ?gr (ts_tasks st)"
  let ?f = "recompute_task g now ?s (blocked_by (ts_task_edges ?p)) (blocks (ts_task_edges ?p)) ?eff ?gr ?ls"
  have tasks: "ts_tasks ?st' = hm_map ?f (ts_tasks st)"
    by (simp add: recompute_task_graph_def Let_def)
  have leases: "sorted_ownership_leases ?st' = ?ls"
    by (simp add: sorted_ownership_leases_def)
  have stat: "hm_map (\<lambda>_ t. tn_status t) (ts_tasks ?st') = hm_map (\<lambda>_ t. tn_status t) (ts_tasks st)"
    by (simp add: tasks hm_map_hm_map same_task_simps)
  have eff: "effective_scope_requests_by_task (ts_task_scope_memory ?p) ?gr (ts_tasks ?st') = ?eff"
    by (simp add: effective_scope_requests_by_task_def tasks hm_map_hm_map same_task_simps)
  have "hm_map ?f (ts_tasks ?st') = ts_tasks ?st'"
    by (simp add: tasks hm_map_hm_map recompute_task_idem)
  with leases stat eff show ?thesis
    by (subst recompute_task_graph_def) (simp add: Let_def prune_after_recompute)
qed

end
