(* ===== verification/TeamLeases.thy ===== *)
theory TeamLeases
  imports TeamGraph
begin

text \<open>
  Ownership leases (\<open>team_state.rs\<close>): granting and releasing them for a task or a thread,
  heartbeats, stale leases, and the gate that every write of an agent passes
  (\<open>validate_write_paths\<close>, \<open>ensure_write_paths_owned\<close>).
\<close>

section \<open>Releasing\<close>

text \<open>The loop shared by the release operations: remove each lease that is still there and
  act on the state for it.\<close>

fun remove_leases ::
  "(ownership_lease \<Rightarrow> team_state \<Rightarrow> team_state) \<Rightarrow> string list \<Rightarrow> team_state \<Rightarrow> ownership_lease list \<times> team_state" where
  "remove_leases act [] st = ([], st)"
| "remove_leases act (lease_id # ids) st =
     (case hm_get (ts_ownership_leases st) lease_id of
        None \<Rightarrow> remove_leases act ids st
      | Some lease \<Rightarrow>
          (case remove_leases act ids
                 (act lease (st\<lparr>ts_ownership_leases := hm_remove lease_id (ts_ownership_leases st)\<rparr>)) of
             (removed, st') \<Rightarrow> (lease # removed, st')))"

definition lease_ids_where :: "(ownership_lease \<Rightarrow> bool) \<Rightarrow> team_state \<Rightarrow> string list" where
  "lease_ids_where P st = map ol_id (filter P (hm_values (ts_ownership_leases st)))"

definition release_task_leases_internal :: "string \<Rightarrow> team_state \<Rightarrow> ownership_lease list \<times> team_state" where
  "release_task_leases_internal task_id st =
     remove_leases (\<lambda>_ s. s) (lease_ids_where (\<lambda>lease. ol_task_id lease = task_id) st) st"

definition touch_task :: "int \<Rightarrow> string \<Rightarrow> team_state \<Rightarrow> team_state" where
  "touch_task now task_id st =
     st\<lparr>ts_tasks := hm_modify task_id (\<lambda>t. t\<lparr>tn_updated_at := now\<rparr>) (ts_tasks st)\<rparr>"

definition release_task_leases :: "env \<Rightarrow> string \<Rightarrow> team_state \<Rightarrow> team_task option \<times> team_state" where
  "release_task_leases e task_id st =
     (let now = env_clock e 0
      in if hm_get (ts_tasks st) task_id = None then (None, st)
         else
           (let st1 = touch_task now task_id st;
                st2 = snd (release_task_leases_internal task_id st1);
                st3 = recompute_task_graph (env_glob e) (env_clock e 1) st2
            in (hm_get (ts_tasks st3) task_id, st3)))"

definition force_release_lease :: "env \<Rightarrow> string \<Rightarrow> team_state \<Rightarrow> ownership_lease option \<times> team_state" where
  "force_release_lease e lease_id st =
     (case hm_get (ts_ownership_leases st) lease_id of
        None \<Rightarrow> (None, st)
      | Some lease \<Rightarrow>
          (let st1 = st\<lparr>ts_ownership_leases := hm_remove lease_id (ts_ownership_leases st)\<rparr>;
               st2 = touch_task (env_clock e 0) (ol_task_id lease) st1
           in (Some lease, recompute_task_graph (env_glob e) (env_clock e 1) st2)))"

definition heartbeat :: "int \<Rightarrow> string \<Rightarrow> ownership_lease \<Rightarrow> ownership_lease" where
  "heartbeat now thread_id l =
     (if ol_owner_thread_id l = thread_id then l\<lparr>ol_heartbeat_at := now\<rparr> else l)"

definition touch_thread_leases :: "env \<Rightarrow> string \<Rightarrow> team_state \<Rightarrow> nat \<times> team_state" where
  "touch_thread_leases e thread_id st =
     (let now = env_clock e 0
      in (length (filter (\<lambda>l. ol_owner_thread_id l = thread_id) (hm_values (ts_ownership_leases st))),
          st\<lparr>ts_ownership_leases := hm_map (\<lambda>_. heartbeat now thread_id) (ts_ownership_leases st)\<rparr>))"

definition release_thread_leases :: "env \<Rightarrow> string \<Rightarrow> team_state \<Rightarrow> nat \<times> team_state" where
  "release_thread_leases e thread_id st =
     (let lease_ids = lease_ids_where (\<lambda>lease. ol_owner_thread_id lease = thread_id) st;
          now = env_clock e 0;
          (removed, st1) = remove_leases (\<lambda>lease. touch_task now (ol_task_id lease)) lease_ids st;
          released = length removed
      in if released > 0 then (released, recompute_task_graph (env_glob e) (env_clock e 1) st1)
         else (released, st1))"

definition is_stale :: "string set \<Rightarrow> int \<Rightarrow> int \<Rightarrow> ownership_lease \<Rightarrow> bool" where
  "is_stale active_thread_ids stale_before now lease \<longleftrightarrow>
     (case ol_expires_at lease of None \<Rightarrow> False | Some expires_at \<Rightarrow> expires_at \<le> now)
     \<or> (ol_owner_thread_id lease \<notin> active_thread_ids \<and> ol_heartbeat_at lease \<le> stale_before)"

definition cleanup_stale_leases ::
  "env \<Rightarrow> string set \<Rightarrow> int \<Rightarrow> team_state \<Rightarrow> ownership_lease list \<times> team_state" where
  "cleanup_stale_leases e active_thread_ids stale_before st =
     (let now = env_clock e 0;
          stale_ids = lease_ids_where (is_stale active_thread_ids stale_before now) st;
          (removed, st1) = remove_leases (\<lambda>lease. touch_task now (ol_task_id lease)) stale_ids st
      in if removed \<noteq> [] then (removed, recompute_task_graph (env_glob e) (env_clock e 1) st1)
         else (removed, st1))"

definition task_has_active_leases :: "string \<Rightarrow> team_state \<Rightarrow> bool" where
  "task_has_active_leases task_id st \<longleftrightarrow>
     list_ex (\<lambda>lease. ol_task_id lease = task_id) (hm_values (ts_ownership_leases st))"

section \<open>Granting\<close>

definition new_lease ::
  "string \<Rightarrow> int \<Rightarrow> string \<Rightarrow> string \<Rightarrow> ownership_scope_kind \<Rightarrow> string \<Rightarrow> ownership_access_mode \<Rightarrow> ownership_lease" where
  "new_lease uid now task_id owner_thread_id kind path access =
     \<lparr>ol_id = uid, ol_task_id = task_id, ol_owner_thread_id = owner_thread_id,
      ol_scope = \<lparr>os_kind = kind, os_path = path\<rparr>, ol_access = access,
      ol_acquired_at = now, ol_heartbeat_at = now, ol_expires_at = None\<rparr>"

definition insert_lease :: "ownership_lease \<Rightarrow> team_state \<Rightarrow> team_state" where
  "insert_lease lease st =
     st\<lparr>ts_ownership_leases := hm_insert (ol_id lease) lease (ts_ownership_leases st)\<rparr>"

definition apply_task_leases ::
  "env \<Rightarrow> string \<Rightarrow> string \<Rightarrow> ownership_access_mode option \<Rightarrow> team_state \<Rightarrow> team_state" where
  "apply_task_leases e task_id owner_thread_id access_override st =
     (let effective_scopes = effective_scope_requests st task_id;
          st1 = remember_task_scopes task_id effective_scopes st;
          st2 = snd (release_task_leases_internal task_id st1);
          now = env_clock e 0
      in foldl (\<lambda>s (i, request). insert_lease
             (new_lease (env_uuid e i) now task_id owner_thread_id (sr_kind request) (sr_path request)
                (case access_override of Some a \<Rightarrow> a | None \<Rightarrow> sr_access request)) s)
           st2 (List.enumerate 0 effective_scopes))"

section \<open>The write gate\<close>

definition holds_write_lease :: "(string \<Rightarrow> string \<Rightarrow> bool) \<Rightarrow> string \<Rightarrow> string \<Rightarrow> ownership_lease \<Rightarrow> bool" where
  "holds_write_lease g thread_id path lease \<longleftrightarrow>
     ol_owner_thread_id lease = thread_id
     \<and> ol_access lease = Access_ExclusiveWrite
     \<and> scopes_overlap g Scope_File path (os_kind (ol_scope lease)) (os_path (ol_scope lease))"

definition blocks_write :: "(string \<Rightarrow> string \<Rightarrow> bool) \<Rightarrow> string \<Rightarrow> string \<Rightarrow> ownership_lease \<Rightarrow> bool" where
  "blocks_write g thread_id path lease \<longleftrightarrow>
     ol_owner_thread_id lease \<noteq> thread_id
     \<and> scopes_overlap g Scope_File path (os_kind (ol_scope lease)) (os_path (ol_scope lease))"

fun write_conflicts ::
  "(string \<Rightarrow> string \<Rightarrow> bool) \<Rightarrow> string \<Rightarrow> team_state \<Rightarrow> string list \<Rightarrow> (string \<times> ownership_lease option) list" where
  "write_conflicts g thread_id st [] = []"
| "write_conflicts g thread_id st (path # paths) =
     (let leases = hm_values (ts_ownership_leases st)
      in if list_ex (holds_write_lease g thread_id path) leases
         then write_conflicts g thread_id st paths
         else (path, find (blocks_write g thread_id path) leases) # write_conflicts g thread_id st paths)"

definition validate_write_paths ::
  "(string \<Rightarrow> string \<Rightarrow> bool) \<Rightarrow> string \<Rightarrow> string list \<Rightarrow> team_state
     \<Rightarrow> (string \<times> ownership_lease option) list + unit" where
  "validate_write_paths g thread_id paths st =
     (let conflicts = write_conflicts g thread_id st paths
      in if conflicts = [] then Inr () else Inl conflicts)"

definition list_max :: "nat list \<Rightarrow> nat option" where
  "list_max xs = (case xs of [] \<Rightarrow> None | y # ys \<Rightarrow> Some (foldl max y ys))"

text \<open>The best rank with which a task's scopes allow a write of the path, if any.\<close>

definition best_write_rank :: "(string \<Rightarrow> string \<Rightarrow> bool) \<Rightarrow> team_state \<Rightarrow> string \<Rightarrow> string \<Rightarrow> nat option" where
  "best_write_rank g st task_id path =
     list_max (map (\<lambda>scope. write_scope_rank scope path)
       (filter (\<lambda>scope. scopes_overlap g (sr_kind scope) (sr_path scope) Scope_File path)
         (filter (\<lambda>scope. sr_access scope = Access_ExclusiveWrite)
           (effective_scope_requests st task_id))))"

text \<open>A candidate is (rank, time of the last update, task, owner); the sort is by rank and
  update time downwards, then by task upwards.\<close>

type_synonym candidate = "nat \<times> int \<times> string \<times> string"

definition candidate_key :: "candidate \<Rightarrow> int \<times> int \<times> string" where
  "candidate_key c = (case c of (rank, updated, task_id, owner) \<Rightarrow> (- int rank, - updated, task_id))"

definition top_candidates :: "candidate list \<Rightarrow> candidate list" where
  "top_candidates cs = (case sort_key candidate_key cs of
      [] \<Rightarrow> []
    | c # rest \<Rightarrow> filter (\<lambda>c'. fst c' = fst c) (c # rest))"

definition write_candidates ::
  "(string \<Rightarrow> string \<Rightarrow> bool) \<Rightarrow> (string \<Rightarrow> bool) \<Rightarrow> team_state \<Rightarrow> string \<Rightarrow> candidate list" where
  "write_candidates g owner_ok st path =
     List.map_filter (\<lambda>t. case tn_owner_thread_id t of
         None \<Rightarrow> None
       | Some owner \<Rightarrow>
           if tn_status t = Task_InProgress \<and> owner_ok owner
           then map_option (\<lambda>rank. (rank, tn_updated_at t, tn_id t, owner)) (best_write_rank g st (tn_id t) path)
           else None)
       (hm_values (ts_tasks st))"

definition candidate_task :: "candidate \<Rightarrow> string" where
  "candidate_task c = (case c of (rank, updated, task_id, owner) \<Rightarrow> task_id)"

definition candidate_owner :: "candidate \<Rightarrow> string" where
  "candidate_owner c = (case c of (rank, updated, task_id, owner) \<Rightarrow> owner)"

definition select_write_task_for_path ::
  "(string \<Rightarrow> string \<Rightarrow> bool) \<Rightarrow> string \<Rightarrow> string \<Rightarrow> team_state \<Rightarrow> string list + string option" where
  "select_write_task_for_path g thread_id path st =
     (let candidates = write_candidates g (\<lambda>owner. owner = thread_id) st path
      in if candidates = [] then Inr None
         else (case top_candidates candidates of
             [c] \<Rightarrow> Inr (Some (candidate_task c))
           | tops \<Rightarrow> Inl (map candidate_task tops)))"

datatype write_ownership_failure =
    Blocked string ownership_lease
  | MissingClaim string
  | ClaimedByOther string string string
  | AmbiguousClaim string "string list"

text \<open>One path of the first loop of \<open>ensure_write_paths_owned\<close>: nothing to do, a grant
  from a task, or a failure.\<close>

datatype write_verdict = AlreadyOwned | Grant string | Refuse write_ownership_failure

definition write_verdict_for ::
  "(string \<Rightarrow> string \<Rightarrow> bool) \<Rightarrow> string \<Rightarrow> team_state \<Rightarrow> string \<Rightarrow> write_verdict" where
  "write_verdict_for g thread_id st path =
     (let leases = hm_values (ts_ownership_leases st)
      in if list_ex (holds_write_lease g thread_id path) leases then AlreadyOwned
         else case find (blocks_write g thread_id path) leases of
           Some lease \<Rightarrow> Refuse (Blocked path lease)
         | None \<Rightarrow>
             (case select_write_task_for_path g thread_id path st of
                Inr (Some task_id) \<Rightarrow> Grant task_id
              | Inr None \<Rightarrow>
                  (let candidates = write_candidates g (\<lambda>owner. owner \<noteq> thread_id) st path
                   in if candidates = [] then Refuse (MissingClaim path)
                      else (case top_candidates candidates of
                          [c] \<Rightarrow> Refuse (ClaimedByOther path (candidate_task c) (candidate_owner c))
                        | tops \<Rightarrow> Refuse (AmbiguousClaim path (map candidate_task tops))))
              | Inl task_ids \<Rightarrow> Refuse (AmbiguousClaim path task_ids)))"

fun plan_writes ::
  "(string \<Rightarrow> string \<Rightarrow> bool) \<Rightarrow> string \<Rightarrow> team_state \<Rightarrow> string list
     \<Rightarrow> (string \<times> string) list \<times> write_ownership_failure list" where
  "plan_writes g thread_id st [] = ([], [])"
| "plan_writes g thread_id st (path # paths) =
     (case plan_writes g thread_id st paths of (grants, failures) \<Rightarrow>
        (case write_verdict_for g thread_id st path of
           AlreadyOwned \<Rightarrow> (grants, failures)
         | Grant task_id \<Rightarrow> ((path, task_id) # grants, failures)
         | Refuse failure \<Rightarrow> (grants, failure # failures)))"

definition has_file_lease :: "string \<Rightarrow> string \<Rightarrow> string \<Rightarrow> team_state \<Rightarrow> bool" where
  "has_file_lease task_id thread_id path st \<longleftrightarrow>
     list_ex (\<lambda>lease. ol_task_id lease = task_id \<and> ol_owner_thread_id lease = thread_id
       \<and> ol_access lease = Access_ExclusiveWrite \<and> os_kind (ol_scope lease) = Scope_File
       \<and> os_path (ol_scope lease) = path) (hm_values (ts_ownership_leases st))"

text \<open>The second loop: \<open>n\<close> leases have been inserted so far, so the next identifier drawn is
  the n-th.\<close>

fun insert_grants ::
  "env \<Rightarrow> int \<Rightarrow> string \<Rightarrow> nat \<Rightarrow> (string \<times> string) list \<Rightarrow> team_state \<Rightarrow> nat \<times> team_state" where
  "insert_grants e now thread_id n [] st = (n, st)"
| "insert_grants e now thread_id n ((path, task_id) # grants) st =
     (if has_file_lease task_id thread_id path st then insert_grants e now thread_id n grants st
      else insert_grants e now thread_id (Suc n) grants
        (touch_task now task_id
          (insert_lease (new_lease (env_uuid e n) now task_id thread_id Scope_File path
             Access_ExclusiveWrite) st)))"

definition ensure_write_paths_owned ::
  "env \<Rightarrow> string \<Rightarrow> string list \<Rightarrow> team_state \<Rightarrow> (write_ownership_failure list + nat) \<times> team_state" where
  "ensure_write_paths_owned e thread_id paths st =
     (case plan_writes (env_glob e) thread_id st paths of (grants, failures) \<Rightarrow>
        if failures \<noteq> [] then (Inl failures, st)
        else
          (case insert_grants e (env_clock e 0) thread_id 0 grants st of (inserted, st1) \<Rightarrow>
             (Inr inserted,
              if inserted > 0 then recompute_task_graph (env_glob e) (env_clock e 1) st1 else st1)))"

end
