(* ===== verification/TeamTasks.thy ===== *)
theory TeamTasks
  imports TeamLeases
begin

text \<open>
  The task board (\<open>team_state.rs\<close>): creating, updating, assigning, handing off and
  claiming tasks, their dependencies and manual blockers. Every operation that returns a
  task returns it as the recomputed state holds it.
\<close>

section \<open>Dependencies\<close>

text \<open>The depth-first search for a path, with the stack's top at the end of the list. It
  answers whether \<open>dependency\<close> is reached.\<close>

function dependency_search :: "task_edge list \<Rightarrow> string \<Rightarrow> string list \<Rightarrow> string list \<Rightarrow> bool" where
  "dependency_search edges dependency frontier visited =
     (if frontier = [] then False
      else let current = last frontier; frontier' = butlast frontier in
        if current \<in> set visited then dependency_search edges dependency frontier' visited
        else if current = dependency then True
        else dependency_search edges dependency
          (frontier' @ map te_to_task_id (filter (\<lambda>edge. te_from_task_id edge = current) edges))
          (current # visited))"
  by pat_completeness auto
termination
proof (relation "measures [\<lambda>(edges, dep, fr, vis). card ((set fr \<union> te_to_task_id ` set edges) - set vis),
    \<lambda>(edges, dep, fr, vis). length fr]", goal_cases)
  case 1
  then show ?case by simp
next
  case (2 edges dep fr vis cur fr')
  then have sub: "(set fr' \<union> te_to_task_id ` set edges) - set vis \<subseteq> (set fr \<union> te_to_task_id ` set edges) - set vis"
    by (auto dest: in_set_butlastD)
  have "card ((set fr' \<union> te_to_task_id ` set edges) - set vis)
      \<le> card ((set fr \<union> te_to_task_id ` set edges) - set vis)"
    by (rule card_mono [OF _ sub]) simp
  moreover have "length fr' < length fr" using 2 by (cases fr rule: rev_cases) auto
  ultimately show ?case by auto
next
  case (3 edges dep fr vis cur fr')
  let ?new = "map te_to_task_id (filter (\<lambda>e. te_from_task_id e = cur) edges)"
  have "cur \<in> set fr" using 3 by simp
  with 3 have "(set (fr' @ ?new) \<union> te_to_task_id ` set edges) - set (cur # vis)
      \<subset> (set fr \<union> te_to_task_id ` set edges) - set vis"
    by (auto dest: in_set_butlastD)
  then have "card ((set (fr' @ ?new) \<union> te_to_task_id ` set edges) - set (cur # vis))
      < card ((set fr \<union> te_to_task_id ` set edges) - set vis)"
    by (rule psubset_card_mono [rotated]) simp
  then show ?case by simp
qed

declare dependency_search.simps [simp del]

definition add_task_dependency ::
  "env \<Rightarrow> string \<Rightarrow> string \<Rightarrow> string option \<Rightarrow> team_state \<Rightarrow> team_task option \<times> team_state" where
  "add_task_dependency e task_id dependency_task_id reason st =
     (if task_id = dependency_task_id
         \<or> \<not> hm_contains (ts_tasks st) task_id
         \<or> \<not> hm_contains (ts_tasks st) dependency_task_id
      then (None, st)
      else if dependency_search (ts_task_edges st) dependency_task_id [task_id] [] then (None, st)
      else
        (let exists = list_ex (\<lambda>edge. te_from_task_id edge = dependency_task_id
               \<and> te_to_task_id edge = task_id) (ts_task_edges st);
             st1 = (if exists then st
               else st\<lparr>ts_task_edges := ts_task_edges st @
                 [\<lparr>te_from_task_id = dependency_task_id, te_to_task_id = task_id, te_kind = Edge_Blocks,
                   te_reason = reason, te_created_at = env_clock e 0\<rparr>]\<rparr>);
             st2 = recompute_task_graph (env_glob e) (env_clock e 1) st1
         in (hm_get (ts_tasks st2) task_id, st2)))"

definition remove_task_dependency ::
  "env \<Rightarrow> string \<Rightarrow> string \<Rightarrow> team_state \<Rightarrow> team_task option \<times> team_state" where
  "remove_task_dependency e task_id dependency_task_id st =
     (let original_len = length (ts_task_edges st);
          st1 = st\<lparr>ts_task_edges := filter (\<lambda>edge. \<not> (te_from_task_id edge = dependency_task_id
                  \<and> te_to_task_id edge = task_id)) (ts_task_edges st)\<rparr>
      in if original_len = length (ts_task_edges st1) then (None, st1)
         else
           (let st2 = recompute_task_graph (env_glob e) (env_clock e 0) st1
            in (hm_get (ts_tasks st2) task_id, st2)))"

section \<open>Creating and updating\<close>

definition not_blank :: "string option \<Rightarrow> string option" where
  "not_blank value = (case value of None \<Rightarrow> None | Some s \<Rightarrow> if trim s \<noteq> [] then Some s else None)"

definition push_note :: "string option \<Rightarrow> team_task \<Rightarrow> team_task" where
  "push_note note t = (case not_blank note of
      None \<Rightarrow> t
    | Some n \<Rightarrow> t\<lparr>tn_notes := tn_notes t @ [n]\<rparr>)"

definition manual_blocker :: "string \<Rightarrow> int \<Rightarrow> string \<Rightarrow> task_blocker" where
  "manual_blocker uid now reason =
     \<lparr>tb_id = uid, tb_kind = Blocker_Manual, tb_blocking_task_id = None, tb_reason = reason,
      tb_active = True, tb_created_at = now, tb_cleared_at = None\<rparr>"

definition new_task ::
  "string \<Rightarrow> int \<Rightarrow> string \<Rightarrow> string option \<Rightarrow> string option \<Rightarrow> string option \<Rightarrow> string option
     \<Rightarrow> scope_request list \<Rightarrow> bool \<Rightarrow> team_task" where
  "new_task task_id now title details owner_thread_id assignee_thread_id workflow_run_id
     requested_scopes scope_policy_override =
     \<lparr>tn_id = task_id, tn_title = title, tn_details = details, tn_status = Task_Pending,
      tn_ready_state = Ready_Ready, tn_review_state = Review_NotRequested,
      tn_owner_thread_id = (case owner_thread_id of Some o' \<Rightarrow> Some o' | None \<Rightarrow> assignee_thread_id),
      tn_blocked_by_task_ids = [], tn_blocks_task_ids = [], tn_blocking_reason = None,
      tn_blockers = [], tn_requested_scopes = requested_scopes, tn_granted_scopes = [],
      tn_scope_policy_override = scope_policy_override, tn_assignee_thread_id = assignee_thread_id,
      tn_reviewer_thread_id = None, tn_workflow_run_id = workflow_run_id,
      tn_created_at = now, tn_updated_at = now, tn_notes = []\<rparr>"

definition create_task ::
  "env \<Rightarrow> string \<Rightarrow> string option \<Rightarrow> string option \<Rightarrow> string option \<Rightarrow> string option
     \<Rightarrow> scope_request list \<Rightarrow> string option \<Rightarrow> bool \<Rightarrow> team_state \<Rightarrow> team_task option \<times> team_state" where
  "create_task e title details owner_thread_id assignee_thread_id workflow_run_id requested_scopes
     blocking_reason scope_policy_override st =
     (let now = env_clock e 0;
          task_id = env_uuid e 0;
          t0 = new_task task_id now title details owner_thread_id assignee_thread_id workflow_run_id
                 requested_scopes scope_policy_override;
          t1 = (case not_blank blocking_reason of
              None \<Rightarrow> t0
            | Some reason \<Rightarrow> t0\<lparr>tn_blockers := [manual_blocker (env_uuid e 1) now reason]\<rparr>);
          st1 = st\<lparr>ts_tasks := hm_insert task_id t1 (ts_tasks st)\<rparr>;
          st2 = remember_task_scopes_from_task task_id st1;
          st3 = recompute_task_graph (env_glob e) (env_clock e 1) st2
      in (hm_get (ts_tasks st3) task_id, st3))"

definition refresh_leases_after_update :: "env \<Rightarrow> string \<Rightarrow> team_state \<Rightarrow> team_state" where
  "refresh_leases_after_update e task_id st =
     (case hm_get (ts_tasks st) task_id of
        None \<Rightarrow> st
      | Some t \<Rightarrow>
          (case tn_status t of
             Task_InProgress \<Rightarrow> snd (release_task_leases_internal task_id st)
           | Task_Review \<Rightarrow>
               (case tn_owner_thread_id t of
                  Some owner_thread_id \<Rightarrow>
                    apply_task_leases e task_id owner_thread_id (Some Access_Review) st
                | None \<Rightarrow> snd (release_task_leases_internal task_id st))
           | Task_Pending \<Rightarrow> snd (release_task_leases_internal task_id st)
           | _ \<Rightarrow> snd (release_task_leases_internal task_id st)))"

text \<open>The optional arguments of \<open>update_task\<close>: \<open>None\<close> leaves a field alone.\<close>

record task_patch =
  up_status :: "team_task_status option"
  up_assignee_thread_id :: "string option option"
  up_owner_thread_id :: "string option option"
  up_reviewer_thread_id :: "string option option"
  up_note :: "string option"
  up_requested_scopes :: "scope_request list option"
  up_granted_scopes :: "scope_request list option"
  up_review_state :: "team_task_review_state option"
  up_scope_policy_override :: "bool option"

definition apply_patch_fields :: "int \<Rightarrow> task_patch \<Rightarrow> team_task \<Rightarrow> team_task" where
  "apply_patch_fields now p t =
     (push_note (up_note p)
       (t\<lparr>tn_status := case_option (tn_status t) id (up_status p),
          tn_assignee_thread_id := case_option (tn_assignee_thread_id t) id (up_assignee_thread_id p),
          tn_owner_thread_id := case_option (tn_owner_thread_id t) id (up_owner_thread_id p),
          tn_reviewer_thread_id := case_option (tn_reviewer_thread_id t) id (up_reviewer_thread_id p),
          tn_requested_scopes := case_option (tn_requested_scopes t) id (up_requested_scopes p),
          tn_granted_scopes := case_option (tn_granted_scopes t) id (up_granted_scopes p),
          tn_review_state := case_option (tn_review_state t) id (up_review_state p),
          tn_scope_policy_override :=
            case_option (tn_scope_policy_override t) id (up_scope_policy_override p)\<rparr>))
       \<lparr>tn_updated_at := now\<rparr>"

definition update_task :: "env \<Rightarrow> string \<Rightarrow> task_patch \<Rightarrow> team_state \<Rightarrow> team_task option \<times> team_state" where
  "update_task e task_id p st =
     (if hm_get (ts_tasks st) task_id = None then (None, st)
      else
        (let st1 = st\<lparr>ts_tasks := hm_modify task_id (apply_patch_fields (env_clock e 0) p) (ts_tasks st)\<rparr>;
             st2 = remember_task_scopes_from_task task_id st1;
             st3 = (if up_granted_scopes p = None then
                 st2\<lparr>ts_tasks := hm_modify task_id (\<lambda>t.
                     if up_review_state p = None \<and> tn_status t = Task_Pending
                     then t\<lparr>tn_review_state := Review_NotRequested\<rparr> else t) (ts_tasks st2)\<rparr>
               else st2);
             refresh = up_status p \<noteq> None \<or> up_assignee_thread_id p \<noteq> None \<or> up_owner_thread_id p \<noteq> None
               \<or> up_reviewer_thread_id p \<noteq> None \<or> up_requested_scopes p \<noteq> None;
             st4 = (if refresh then refresh_leases_after_update (later 1 e) task_id st3 else st3);
             st5 = recompute_task_graph (env_glob e) (env_clock e 2) st4
         in (hm_get (ts_tasks st5) task_id, st5)))"

definition assign_task ::
  "env \<Rightarrow> string \<Rightarrow> string \<Rightarrow> string option \<Rightarrow> team_state \<Rightarrow> team_task option \<times> team_state" where
  "assign_task e task_id assignee_thread_id note st =
     (if hm_get (ts_tasks st) task_id = None then (None, st)
      else
        (let st1 = st\<lparr>ts_tasks := hm_modify task_id (\<lambda>t.
               (push_note note
                 (t\<lparr>tn_assignee_thread_id := Some assignee_thread_id,
                    tn_owner_thread_id := Some assignee_thread_id,
                    tn_reviewer_thread_id := None,
                    tn_status := Task_Pending,
                    tn_review_state := Review_NotRequested,
                    tn_granted_scopes := []\<rparr>))\<lparr>tn_updated_at := env_clock e 0\<rparr>) (ts_tasks st)\<rparr>;
             st2 = snd (release_task_leases_internal task_id st1);
             st3 = recompute_task_graph (env_glob e) (env_clock e 1) st2
         in (hm_get (ts_tasks st3) task_id, st3)))"

definition handoff_task ::
  "env \<Rightarrow> string \<Rightarrow> string \<Rightarrow> string option \<Rightarrow> bool \<Rightarrow> team_state \<Rightarrow> team_task option \<times> team_state" where
  "handoff_task e task_id to_thread_id note review_mode st =
     (let effective_scopes = effective_scope_requests st task_id;
          st1 = remember_task_scopes task_id effective_scopes st
      in if hm_get (ts_tasks st1) task_id = None then (None, st1)
         else
           (let st2 = st1\<lparr>ts_tasks := hm_modify task_id (\<lambda>t.
                  (push_note note
                    (t\<lparr>tn_assignee_thread_id := Some to_thread_id,
                       tn_owner_thread_id := Some to_thread_id,
                       tn_reviewer_thread_id := (if review_mode then Some to_thread_id else None),
                       tn_status := (if review_mode then Task_Review else Task_Pending),
                       tn_review_state := (if review_mode then Review_Requested else Review_NotRequested),
                       tn_granted_scopes := []\<rparr>))\<lparr>tn_updated_at := env_clock e 0\<rparr>) (ts_tasks st1)\<rparr>;
                st3 = apply_task_leases (later 1 e) task_id to_thread_id
                        (if review_mode then Some Access_Review else None) st2;
                st4 = recompute_task_graph (env_glob e) (env_clock e 2) st3
            in (hm_get (ts_tasks st4) task_id, st4)))"

section \<open>Claiming\<close>

definition is_task_ready :: "env \<Rightarrow> string \<Rightarrow> team_state \<Rightarrow> bool \<times> team_state" where
  "is_task_ready e task_id st =
     (let st1 = recompute_task_graph (env_glob e) (env_clock e 0) st
      in ((case hm_get (ts_tasks st1) task_id of
             None \<Rightarrow> False | Some t \<Rightarrow> tn_ready_state t = Ready_Ready), st1))"

definition may_claim :: "string \<Rightarrow> team_task \<Rightarrow> bool" where
  "may_claim claimer_thread_id t \<longleftrightarrow>
     (case tn_assignee_thread_id t of None \<Rightarrow> True | Some assignee \<Rightarrow> assignee = claimer_thread_id)"

definition can_claim_task :: "env \<Rightarrow> string \<Rightarrow> string \<Rightarrow> bool \<Rightarrow> team_state \<Rightarrow> bool \<times> team_state" where
  "can_claim_task e task_id claimer_thread_id requires_ready st =
     (case (if requires_ready then is_task_ready e task_id st else (True, st)) of
        (ready, st1) \<Rightarrow>
          if \<not> ready then (False, st1)
          else ((case hm_get (ts_tasks st1) task_id of None \<Rightarrow> False | Some t \<Rightarrow> may_claim claimer_thread_id t), st1))"

definition claim_fields :: "int \<Rightarrow> (string \<times> string option) option \<Rightarrow> team_task \<Rightarrow> team_task" where
  "claim_fields now claim t =
     (let t1 = (case claim of
            None \<Rightarrow> t
          | Some (claimer_thread_id, note) \<Rightarrow>
              push_note note
                (t\<lparr>tn_assignee_thread_id := Some claimer_thread_id,
                   tn_owner_thread_id := Some claimer_thread_id,
                   tn_reviewer_thread_id :=
                     (if tn_status t \<noteq> Task_Review then None else tn_reviewer_thread_id t)\<rparr>))
      in t1\<lparr>tn_status := Task_InProgress, tn_review_state := Review_NotRequested,
            tn_granted_scopes := [], tn_updated_at := now\<rparr>)"

definition claim_task_internal ::
  "env \<Rightarrow> string \<Rightarrow> (string \<times> string option) option \<Rightarrow> bool \<Rightarrow> team_state \<Rightarrow> team_task option \<times> team_state" where
  "claim_task_internal e task_id claim requires_ready st =
     (case (if requires_ready then is_task_ready e task_id st else (True, st)) of
        (ready, st1) \<Rightarrow>
          if \<not> ready then (None, st1)
          else
            (let e1 = (if requires_ready then later 1 e else e);
                 st2 = remember_task_scopes task_id (effective_scope_requests st1 task_id) st1
             in if hm_get (ts_tasks st2) task_id = None then (None, st2)
                else
                  (let st3 = st2\<lparr>ts_tasks := hm_modify task_id (claim_fields (env_clock e1 0) claim) (ts_tasks st2)\<rparr>;
                       st4 = recompute_task_graph (env_glob e1) (env_clock e1 1) st3
                   in (hm_get (ts_tasks st4) task_id, st4))))"

definition claim_ready_task ::
  "env \<Rightarrow> string \<Rightarrow> string \<Rightarrow> string option \<Rightarrow> team_state \<Rightarrow> team_task option \<times> team_state" where
  "claim_ready_task e task_id claimer_thread_id note st =
     (case can_claim_task e task_id claimer_thread_id True st of
        (ok, st1) \<Rightarrow>
          if \<not> ok then (None, st1)
          else claim_task_internal (later 1 e) task_id (Some (claimer_thread_id, note)) True st1)"

definition claim_task ::
  "env \<Rightarrow> string \<Rightarrow> string \<Rightarrow> string option \<Rightarrow> team_state \<Rightarrow> team_task option \<times> team_state" where
  "claim_task e task_id claimer_thread_id note st =
     (case can_claim_task e task_id claimer_thread_id True st of
        (ok, st1) \<Rightarrow>
          if \<not> ok then (None, st1)
          else claim_task_internal (later 1 e) task_id (Some (claimer_thread_id, note)) True st1)"

definition list_ready_tasks :: "env \<Rightarrow> string \<Rightarrow> team_state \<Rightarrow> team_task list \<times> team_state" where
  "list_ready_tasks e claimer_thread_id st =
     (let st1 = recompute_task_graph (env_glob e) (env_clock e 0) st
      in (sort_key tn_created_at
            (filter (\<lambda>t. tn_ready_state t = Ready_Ready \<and> may_claim claimer_thread_id t)
              (hm_values (ts_tasks st1))), st1))"

definition claim_next_task :: "env \<Rightarrow> string \<Rightarrow> team_state \<Rightarrow> team_task option \<times> team_state" where
  "claim_next_task e claimer_thread_id st =
     (case list_ready_tasks e claimer_thread_id st of
        ([], st1) \<Rightarrow> (None, st1)
      | (t # _, st1) \<Rightarrow> claim_ready_task (later 1 e) (tn_id t) claimer_thread_id None st1)"

section \<open>Manual blockers\<close>

definition block_task :: "env \<Rightarrow> string \<Rightarrow> string \<Rightarrow> team_state \<Rightarrow> team_task option \<times> team_state" where
  "block_task e task_id reason st =
     (let reason' = trim reason
      in if reason' = [] then (None, st)
         else if hm_get (ts_tasks st) task_id = None then (None, st)
         else
           (let st1 = st\<lparr>ts_tasks := hm_modify task_id (\<lambda>t. t\<lparr>tn_blockers := tn_blockers t
                    @ [manual_blocker (env_uuid e 0) (env_clock e 0) reason'],
                  tn_updated_at := env_clock e 1\<rparr>) (ts_tasks st)\<rparr>;
                st2 = recompute_task_graph (env_glob e) (env_clock e 2) st1
            in (hm_get (ts_tasks st2) task_id, st2)))"

definition clears :: "string option \<Rightarrow> task_blocker \<Rightarrow> bool" where
  "clears blocker_id b \<longleftrightarrow> tb_kind b = Blocker_Manual \<and> tb_active b
     \<and> (case blocker_id of None \<Rightarrow> True | Some value \<Rightarrow> tb_id b = value)"

definition clear_blocker :: "int \<Rightarrow> string option \<Rightarrow> task_blocker \<Rightarrow> task_blocker" where
  "clear_blocker now blocker_id b =
     (if clears blocker_id b then b\<lparr>tb_active := False, tb_cleared_at := Some now\<rparr> else b)"

definition unblock_task ::
  "env \<Rightarrow> string \<Rightarrow> string option \<Rightarrow> team_state \<Rightarrow> team_task option \<times> team_state" where
  "unblock_task e task_id blocker_id st =
     (case hm_get (ts_tasks st) task_id of
        None \<Rightarrow> (None, st)
      | Some t \<Rightarrow>
          (let now = env_clock e 0
           in if \<not> list_ex (clears blocker_id) (tn_blockers t) then (None, st)
              else
                (let st1 = st\<lparr>ts_tasks := hm_modify task_id (\<lambda>t. t\<lparr>
                         tn_blockers := map (clear_blocker now blocker_id) (tn_blockers t),
                         tn_updated_at := now\<rparr>) (ts_tasks st)\<rparr>;
                     st2 = recompute_task_graph (env_glob e) (env_clock e 1) st1
                 in (hm_get (ts_tasks st2) task_id, st2))))"

definition open_task_count_for_thread :: "string \<Rightarrow> team_state \<Rightarrow> nat" where
  "open_task_count_for_thread thread_id st =
     length (filter (\<lambda>t. (tn_owner_thread_id t = Some thread_id
            \<or> tn_assignee_thread_id t = Some thread_id
            \<or> tn_reviewer_thread_id t = Some thread_id)
          \<and> tn_status t \<notin> {Task_Completed, Task_Failed, Task_Canceled})
        (hm_values (ts_tasks st)))"

definition sorted_tasks :: "team_state \<Rightarrow> team_task list" where
  "sorted_tasks st = sort_key tn_created_at (hm_values (ts_tasks st))"

definition sorted_task_edges :: "team_state \<Rightarrow> task_edge list" where
  "sorted_task_edges st = sort_key te_created_at (ts_task_edges st)"

end
