(* ===== verification/TeamMailbox.thy ===== *)
theory TeamMailbox
  imports TeamTypes
begin

text \<open>
  The team's mailbox (\<open>team_state.rs\<close>): posting, reading, claiming from a queue,
  acknowledging and expiring messages, the unread counters and the version counter that
  wakes waiting agents.
\<close>

section \<open>One message\<close>

definition is_expired :: "int \<Rightarrow> stored_message \<Rightarrow> bool" where
  "is_expired now m \<longleftrightarrow>
     (case sm_expires_at m of None \<Rightarrow> False | Some expires_at \<Rightarrow> expires_at > 0 \<and> expires_at \<le> now)
     \<and> sm_delivery_mode m = Delivery_EphemeralNudge"

definition is_visible_to :: "string \<Rightarrow> stored_message \<Rightarrow> bool" where
  "is_visible_to thread_id m \<longleftrightarrow>
     (case sm_recipient_thread_id m of
        Some recipient_thread_id \<Rightarrow> recipient_thread_id = thread_id \<or> sm_sender_thread_id m = thread_id
      | None \<Rightarrow>
          (case sm_kind m of
             Msg_Queue \<Rightarrow> sm_claimed_by_thread_id m = Some thread_id \<or> sm_sender_thread_id m = thread_id
           | _ \<Rightarrow> True))"

definition can_ack :: "string \<Rightarrow> stored_message \<Rightarrow> bool" where
  "can_ack thread_id m \<longleftrightarrow>
     (case sm_kind m of
        Msg_Queue \<Rightarrow> sm_claimed_by_thread_id m = Some thread_id
      | _ \<Rightarrow> sm_recipient_thread_id m = Some thread_id)"

definition to_team_message :: "string \<Rightarrow> stored_message \<Rightarrow> team_message" where
  "to_team_message thread_id m =
     \<lparr>tm_id = sm_id m, tm_sender_thread_id = sm_sender_thread_id m,
      tm_recipient_thread_id = sm_recipient_thread_id m, tm_kind = sm_kind m,
      tm_route_key = sm_route_key m, tm_claimed_by_thread_id = sm_claimed_by_thread_id m,
      tm_delivery_mode = sm_delivery_mode m, tm_priority = sm_priority m,
      tm_correlation_id = sm_correlation_id m, tm_task_id = sm_task_id m,
      tm_ack_state = sm_ack_state m, tm_message = sm_message m, tm_created_at = sm_created_at m,
      tm_expires_at = sm_expires_at m, tm_acknowledged_at = sm_acknowledged_at m,
      tm_acknowledged_by_thread_id = sm_acknowledged_by_thread_id m,
      tm_unread = (thread_id \<notin> set (sm_seen_by m))\<rparr>"

fun message_priority_rank :: "team_message_priority \<Rightarrow> nat" where
  "message_priority_rank Prio_Urgent = 3"
| "message_priority_rank Prio_High = 2"
| "message_priority_rank Prio_Normal = 1"
| "message_priority_rank Prio_Low = 0"

definition mark_seen_by :: "string \<Rightarrow> stored_message \<Rightarrow> stored_message" where
  "mark_seen_by thread_id m = m\<lparr>sm_seen_by := List.insert thread_id (sm_seen_by m)\<rparr>"

section \<open>The mailbox\<close>

definition bump_mailbox_version :: "team_state \<Rightarrow> team_state" where
  "bump_mailbox_version st = st\<lparr>ts_mailbox_version := saturating_add (ts_mailbox_version st) 1\<rparr>"

definition expires_now :: "int \<Rightarrow> stored_message \<Rightarrow> bool" where
  "expires_now now m \<longleftrightarrow> is_expired now m \<and> sm_ack_state m \<noteq> Ack_Expired"

definition expire_messages :: "int \<Rightarrow> team_state \<Rightarrow> team_state" where
  "expire_messages now st =
     (let changed = list_ex (expires_now now) (ts_messages st);
          st1 = st\<lparr>ts_messages := map (\<lambda>m. if expires_now now m then m\<lparr>sm_ack_state := Ack_Expired\<rparr> else m)
                  (ts_messages st)\<rparr>
      in if changed then bump_mailbox_version st1 else st1)"

record post_args =
  pa_sender_thread_id :: string
  pa_recipient_thread_id :: "string option"
  pa_kind :: team_message_kind
  pa_route_key :: "string option"
  pa_delivery_mode :: team_message_delivery_mode
  pa_priority :: team_message_priority
  pa_correlation_id :: "string option"
  pa_task_id :: "string option"
  pa_message :: string
  pa_expires_at :: "int option"

definition stored_of :: "env \<Rightarrow> post_args \<Rightarrow> stored_message" where
  "stored_of e a =
     \<lparr>sm_id = env_uuid e 0, sm_sender_thread_id = pa_sender_thread_id a,
      sm_recipient_thread_id = pa_recipient_thread_id a, sm_kind = pa_kind a,
      sm_route_key = pa_route_key a, sm_claimed_by_thread_id = None,
      sm_delivery_mode = pa_delivery_mode a, sm_priority = pa_priority a,
      sm_correlation_id = pa_correlation_id a, sm_task_id = pa_task_id a,
      sm_ack_state = (if pa_recipient_thread_id a \<noteq> None \<or> pa_kind a = Msg_Queue
        then Ack_Pending else Ack_NotRequired),
      sm_message = pa_message a, sm_created_at = env_clock e 1,
      sm_expires_at = (case pa_expires_at a of
          None \<Rightarrow> None | Some expires_at \<Rightarrow> if expires_at > 0 then Some expires_at else None),
      sm_acknowledged_at = None, sm_acknowledged_by_thread_id = None,
      sm_seen_by = [pa_sender_thread_id a]\<rparr>"

definition post_message :: "env \<Rightarrow> post_args \<Rightarrow> team_state \<Rightarrow> team_message \<times> team_state" where
  "post_message e a st =
     (let st1 = expire_messages (env_clock e 0) st;
          stored = stored_of e a
      in (to_team_message (sm_sender_thread_id stored) stored,
          bump_mailbox_version (st1\<lparr>ts_messages := ts_messages st1 @ [stored]\<rparr>)))"

definition reads :: "int \<Rightarrow> string \<Rightarrow> bool \<Rightarrow> stored_message \<Rightarrow> bool" where
  "reads now reader_thread_id unread_only m \<longleftrightarrow>
     is_visible_to reader_thread_id m \<and> \<not> is_expired now m
     \<and> (\<not> unread_only \<or> reader_thread_id \<notin> set (sm_seen_by m))"

definition collect_messages ::
  "env \<Rightarrow> string \<Rightarrow> bool \<Rightarrow> bool \<Rightarrow> team_state \<Rightarrow> team_message list \<times> team_state" where
  "collect_messages e reader_thread_id unread_only mark_seen st =
     (let st1 = expire_messages (env_clock e 0) st;
          now = env_clock e 1;
          see = (\<lambda>m. if mark_seen then mark_seen_by reader_thread_id m else m);
          selected = filter (reads now reader_thread_id unread_only) (ts_messages st1);
          changed = (mark_seen \<and> list_ex (\<lambda>m. reader_thread_id \<notin> set (sm_seen_by m)) selected);
          out = map (\<lambda>m. to_team_message reader_thread_id (see m)) selected;
          st2 = st1\<lparr>ts_messages := map (\<lambda>m. if reads now reader_thread_id unread_only m then see m else m)
                  (ts_messages st1)\<rparr>
      in (sort_key (\<lambda>m. (- int (message_priority_rank (tm_priority m)), tm_created_at m)) out,
          if changed then bump_mailbox_version st2 else st2))"

definition peek_messages :: "env \<Rightarrow> string \<Rightarrow> bool \<Rightarrow> team_state \<Rightarrow> team_message list \<times> team_state" where
  "peek_messages e reader_thread_id unread_only st = collect_messages e reader_thread_id unread_only False st"

definition read_messages :: "env \<Rightarrow> string \<Rightarrow> bool \<Rightarrow> team_state \<Rightarrow> team_message list \<times> team_state" where
  "read_messages e reader_thread_id unread_only st = collect_messages e reader_thread_id unread_only True st"

definition claimable_from :: "int \<Rightarrow> string \<Rightarrow> stored_message \<Rightarrow> bool" where
  "claimable_from now queue_name m \<longleftrightarrow>
     \<not> is_expired now m \<and> sm_kind m = Msg_Queue \<and> sm_route_key m = Some queue_name
     \<and> sm_claimed_by_thread_id m = None"

definition claim_message :: "string \<Rightarrow> stored_message \<Rightarrow> stored_message" where
  "claim_message claimer_thread_id m =
     mark_seen_by claimer_thread_id (m\<lparr>sm_claimed_by_thread_id := Some claimer_thread_id\<rparr>)"

text \<open>The indexes of the messages that may be claimed, most urgent and then oldest first.\<close>

definition eligible_indexes :: "int \<Rightarrow> string \<Rightarrow> stored_message list \<Rightarrow> nat list" where
  "eligible_indexes now queue_name messages =
     map fst (sort_key (\<lambda>(index, m). (- int (message_priority_rank (sm_priority m)), sm_created_at m))
       (filter (\<lambda>(index, m). claimable_from now queue_name m) (List.enumerate 0 messages)))"

fun claim_indexes :: "string \<Rightarrow> nat list \<Rightarrow> stored_message list \<Rightarrow> team_message list \<times> stored_message list" where
  "claim_indexes claimer_thread_id [] messages = ([], messages)"
| "claim_indexes claimer_thread_id (index # indexes) messages =
     (if index < length messages then
        (let m = claim_message claimer_thread_id (messages ! index)
         in case claim_indexes claimer_thread_id indexes (messages[index := m]) of
              (out, messages') \<Rightarrow> (to_team_message claimer_thread_id m # out, messages'))
      else claim_indexes claimer_thread_id indexes messages)"

definition claim_queue_messages ::
  "env \<Rightarrow> string \<Rightarrow> string \<Rightarrow> nat \<Rightarrow> team_state \<Rightarrow> team_message list \<times> team_state" where
  "claim_queue_messages e claimer_thread_id queue_name limit st =
     (let st1 = expire_messages (env_clock e 0) st;
          now = env_clock e 1;
          chosen = take limit (eligible_indexes now queue_name (ts_messages st1))
      in case claim_indexes claimer_thread_id chosen (ts_messages st1) of
           (messages, stored) \<Rightarrow>
             (let st2 = st1\<lparr>ts_messages := stored\<rparr>
              in (messages, if messages \<noteq> [] then bump_mailbox_version st2 else st2)))"

text \<open>\<open>iter_mut().find(..)\<close> and an update of what it finds.\<close>

fun update_first :: "('a \<Rightarrow> bool) \<Rightarrow> ('a \<Rightarrow> 'a) \<Rightarrow> 'a list \<Rightarrow> ('a \<times> 'a list) option" where
  "update_first P f [] = None"
| "update_first P f (x # xs) =
     (if P x then Some (f x, f x # xs)
      else map_option (\<lambda>(y, ys). (y, x # ys)) (update_first P f xs))"

definition acknowledge :: "int \<Rightarrow> string \<Rightarrow> stored_message \<Rightarrow> stored_message" where
  "acknowledge now acker_thread_id m =
     mark_seen_by acker_thread_id
       (m\<lparr>sm_ack_state := Ack_Acknowledged, sm_acknowledged_at := Some now,
          sm_acknowledged_by_thread_id := Some acker_thread_id\<rparr>)"

definition ack_message :: "env \<Rightarrow> string \<Rightarrow> string \<Rightarrow> team_state \<Rightarrow> team_message option \<times> team_state" where
  "ack_message e acker_thread_id message_id st =
     (let st1 = expire_messages (env_clock e 0) st
      in case update_first (\<lambda>m. sm_id m = message_id \<and> can_ack acker_thread_id m \<and> sm_ack_state m = Ack_Pending)
                (acknowledge (env_clock e 1) acker_thread_id) (ts_messages st1) of
           None \<Rightarrow> (None, st1)
         | Some (m, messages) \<Rightarrow>
             (Some (to_team_message acker_thread_id m),
              bump_mailbox_version (st1\<lparr>ts_messages := messages\<rparr>)))"

definition unread_count_for :: "int \<Rightarrow> string \<Rightarrow> team_state \<Rightarrow> nat" where
  "unread_count_for now thread_id st =
     length (filter (\<lambda>m. is_visible_to thread_id m \<and> \<not> is_expired now m
       \<and> thread_id \<notin> set (sm_seen_by m)) (ts_messages st))"

definition sorted_recent_messages :: "int \<Rightarrow> string \<Rightarrow> nat \<Rightarrow> team_state \<Rightarrow> team_message list" where
  "sorted_recent_messages now observer_thread_id limit st =
     take limit (sort_key (\<lambda>m. (- tm_created_at m, - int (message_priority_rank (tm_priority m))))
       (map (to_team_message observer_thread_id) (filter (\<lambda>m. \<not> is_expired now m) (ts_messages st))))"

text \<open>Weights of the threads seen in the messages; the thread with the largest weight, the
  last one of the iteration where several have it.\<close>

definition add_weight :: "nat \<Rightarrow> string \<Rightarrow> (string, nat) hashmap \<Rightarrow> (string, nat) hashmap" where
  "add_weight n k counts =
     hm_insert k ((case hm_get counts k of None \<Rightarrow> 0 | Some c \<Rightarrow> c) + n) counts"

definition weigh_message :: "(string, nat) hashmap \<Rightarrow> stored_message \<Rightarrow> (string, nat) hashmap" where
  "weigh_message counts m =
     (let c1 = add_weight 2 (sm_sender_thread_id m) counts;
          c2 = (case sm_recipient_thread_id m of None \<Rightarrow> c1 | Some r \<Rightarrow> add_weight 1 r c1);
          c3 = (case sm_claimed_by_thread_id m of None \<Rightarrow> c2 | Some c \<Rightarrow> add_weight 1 c c2)
      in foldl (\<lambda>c seen. add_weight 1 seen c) c3 (sm_seen_by m))"

fun max_by_count :: "(string \<times> nat) list \<Rightarrow> (string \<times> nat) option" where
  "max_by_count [] = None"
| "max_by_count (x # xs) = (case max_by_count xs of
      None \<Rightarrow> Some x
    | Some y \<Rightarrow> if snd x > snd y then Some x else Some y)"

definition likely_root_thread_id :: "team_state \<Rightarrow> string option" where
  "likely_root_thread_id st = map_option fst (max_by_count (foldl weigh_message [] (ts_messages st)))"

section \<open>Plans\<close>

text \<open>Plans and their approval (\<open>submit_plan\<close>, \<open>decide_plan\<close> and \<open>requires_plan_approval\<close>
  of \<open>team_state.rs\<close>).\<close>

definition submit_plan ::
  "env \<Rightarrow> string \<Rightarrow> string \<Rightarrow> string list \<Rightarrow> bool \<Rightarrow> string option \<Rightarrow> team_state \<Rightarrow> team_plan \<times> team_state" where
  "submit_plan e author_thread_id summary steps requires_approval workflow_run_id st =
     (let now = env_clock e 0;
          plan = \<lparr>tp_id = env_uuid e 0, tp_author_thread_id = author_thread_id, tp_summary = summary,
            tp_steps = steps,
            tp_status = (if requires_approval then Plan_PendingApproval else Plan_Approved),
            tp_requires_approval = requires_approval, tp_reviewer_thread_id = None,
            tp_review_note = None, tp_workflow_run_id = workflow_run_id,
            tp_created_at = now, tp_updated_at = now\<rparr>
      in (plan, st\<lparr>ts_plans := hm_insert (tp_id plan) plan (ts_plans st)\<rparr>))"

definition decide_fields :: "int \<Rightarrow> string \<Rightarrow> bool \<Rightarrow> string option \<Rightarrow> team_plan \<Rightarrow> team_plan" where
  "decide_fields now reviewer_thread_id approved note plan =
     plan\<lparr>tp_status := (if approved then Plan_Approved else Plan_Rejected),
          tp_reviewer_thread_id := Some reviewer_thread_id, tp_review_note := note,
          tp_updated_at := now\<rparr>"

definition decide_plan ::
  "env \<Rightarrow> string \<Rightarrow> string \<Rightarrow> bool \<Rightarrow> string option \<Rightarrow> team_state \<Rightarrow> team_plan option \<times> team_state" where
  "decide_plan e plan_id reviewer_thread_id approved note st =
     (if hm_get (ts_plans st) plan_id = None then (None, st)
      else
        (let plans = hm_modify plan_id (decide_fields (env_clock e 0) reviewer_thread_id approved note) (ts_plans st)
         in (hm_get plans plan_id, st\<lparr>ts_plans := plans\<rparr>)))"

definition requires_plan_approval :: "string \<Rightarrow> team_state \<Rightarrow> bool" where
  "requires_plan_approval thread_id st \<longleftrightarrow>
     list_ex (\<lambda>plan. tp_status plan = Plan_PendingApproval \<or> tp_status plan = Plan_Rejected)
       (filter (\<lambda>plan. tp_author_thread_id plan = thread_id \<and> tp_requires_approval plan)
         (hm_values (ts_plans st)))"

definition sorted_plans :: "team_state \<Rightarrow> team_plan list" where
  "sorted_plans st = sort_key tp_created_at (hm_values (ts_plans st))"

end
