(* ===== verification/TeamInv.thy ===== *)
theory TeamInv
  imports TeamTasks TeamMailbox
begin

text \<open>
  The invariant of a team's state and its preservation by every operation: keys are the
  identifiers of the values, nothing refers to a task that is not there, the dependencies
  have no cycle, and a task is shown as ready exactly when it is ready.
\<close>

section \<open>The invariant\<close>

definition edge_rel :: "task_edge list \<Rightarrow> (string \<times> string) set" where
  "edge_rel edges = (\<lambda>edge. (te_from_task_id edge, te_to_task_id edge)) ` set edges"

definition team_keys :: "team_state \<Rightarrow> bool" where
  "team_keys st \<longleftrightarrow>
     hm_wf (ts_tasks st) \<and> hm_wf (ts_task_scope_memory st) \<and> hm_wf (ts_ownership_leases st)
     \<and> hm_wf (ts_plans st)
     \<and> (\<forall>k t. hm_get (ts_tasks st) k = Some t \<longrightarrow> tn_id t = k)
     \<and> (\<forall>k l. hm_get (ts_ownership_leases st) k = Some l \<longrightarrow> ol_id l = k)
     \<and> (\<forall>k p. hm_get (ts_plans st) k = Some p \<longrightarrow> tp_id p = k)"

definition team_base :: "team_state \<Rightarrow> bool" where
  "team_base st \<longleftrightarrow> team_keys st \<and> acyclic (edge_rel (ts_task_edges st))"

definition team_closed :: "team_state \<Rightarrow> bool" where
  "team_closed st \<longleftrightarrow>
     (\<forall>k \<in> set (hm_keys (ts_task_scope_memory st)). hm_contains (ts_tasks st) k)
     \<and> (\<forall>l \<in> set (hm_values (ts_ownership_leases st)). hm_contains (ts_tasks st) (ol_task_id l))
     \<and> (\<forall>edge \<in> set (ts_task_edges st). hm_contains (ts_tasks st) (te_from_task_id edge)
          \<and> hm_contains (ts_tasks st) (te_to_task_id edge))"

definition board_current :: "(string \<Rightarrow> string \<Rightarrow> bool) \<Rightarrow> team_state \<Rightarrow> bool" where
  "board_current g st \<longleftrightarrow>
     (\<forall>tid t. hm_get (ts_tasks st) tid = Some t \<longrightarrow>
        (tn_ready_state t = Ready_Ready \<longleftrightarrow>
           tn_status t = Task_Pending \<and> no_manual_blocker t
           \<and> dependencies_completed st tid \<and> lease_free g st tid (requester t)))"

definition team_inv :: "(string \<Rightarrow> string \<Rightarrow> bool) \<Rightarrow> team_state \<Rightarrow> bool" where
  "team_inv g st \<longleftrightarrow> team_base st \<and> team_closed st \<and> board_current g st"

section \<open>Recomputing establishes it\<close>

lemma team_keys_recompute: "team_keys st \<Longrightarrow> team_keys (recompute_task_graph g now st)"
proof -
  assume k: "team_keys st"
  have "tn_id u = tid" if "hm_get (ts_tasks (recompute_task_graph g now st)) tid = Some u" for tid u
    using get_recompute_same [OF that] k by (auto simp: same_task_def team_keys_def)
  moreover have "hm_wf (ts_tasks (recompute_task_graph g now st))"
    using k by (simp add: team_keys_def del: map_map)
  moreover have "hm_wf (ts_task_scope_memory (prune_dangling st))" "hm_wf (ts_ownership_leases (prune_dangling st))"
    using k by (auto simp: team_keys_def prune_dangling_def Let_def)
  moreover have "ol_id l = lid" if "hm_get (ts_ownership_leases (prune_dangling st)) lid = Some l" for lid l
    using that k
    by (auto simp: prune_dangling_def Let_def team_keys_def get_hm_retain split: option.splits if_splits)
  ultimately show ?thesis using k by (simp add: team_keys_def)
qed

lemma set_hm_retain: "x \<in> set (hm_retain P m) \<longleftrightarrow> x \<in> set m \<and> P (fst x) (snd x)"
  by (auto simp: hm_retain_def)

lemma team_closed_recompute: "team_closed (recompute_task_graph g now st)"
proof -
  have "hm_contains (ts_tasks (recompute_task_graph g now st)) k \<longleftrightarrow> hm_contains (ts_tasks st) k" for k
    by simp
  then show ?thesis
    by (auto simp: team_closed_def prune_dangling_def Let_def set_hm_retain simp del: list.set_map)
qed

lemma board_current_recompute: "board_current g (recompute_task_graph g now st)"
  using ready_iff by (simp add: board_current_def)

lemma acyclic_recompute:
  "acyclic (edge_rel (ts_task_edges st)) \<Longrightarrow> acyclic (edge_rel (ts_task_edges (recompute_task_graph g now st)))"
  by (erule acyclic_subset) (auto simp: prune_dangling_def Let_def edge_rel_def)

lemma recompute_inv: "team_base st \<Longrightarrow> team_inv g (recompute_task_graph g now st)"
  by (simp add: team_inv_def team_base_def team_keys_recompute acyclic_recompute
      team_closed_recompute board_current_recompute del: recompute_simps)

lemma team_inv_base: "team_inv g st \<Longrightarrow> team_base st"
  by (simp add: team_inv_def)

lemma recompute_base [wf_intros]: "team_base st \<Longrightarrow> team_base (recompute_task_graph g now st)"
  by (rule team_inv_base [OF recompute_inv])

section \<open>The primitive updates keep the base\<close>

lemma base_modify_task [wf_intros]:
  assumes "team_base st" and "\<And>t. tn_id (f t) = tn_id t" and "m = ts_tasks st"
  shows "team_base (st\<lparr>ts_tasks := hm_modify k f m\<rparr>)"
  using assms by (auto simp: team_base_def team_keys_def get_hm_modify split: if_splits)

lemma base_insert_task [wf_intros]:
  "team_base st \<Longrightarrow> tn_id t = k \<Longrightarrow> team_base (st\<lparr>ts_tasks := hm_insert k t (ts_tasks st)\<rparr>)"
  by (auto simp: team_base_def team_keys_def get_hm_insert distinct_update)

lemma base_remember [wf_intros]: "team_base st \<Longrightarrow> team_base (remember_task_scopes k ss st)"
  by (auto simp: remember_task_scopes_def team_base_def team_keys_def distinct_update)

lemma base_remember_from [wf_intros]: "team_base st \<Longrightarrow> team_base (remember_task_scopes_from_task k st)"
  by (simp add: remember_task_scopes_from_task_def base_remember)

lemma base_remove_lease [wf_intros]:
  "team_base st \<Longrightarrow> team_base (st\<lparr>ts_ownership_leases := hm_remove k (ts_ownership_leases st)\<rparr>)"
  by (auto simp: team_base_def team_keys_def get_hm_remove distinct_delete split: if_splits)

lemma base_insert_lease [wf_intros]: "team_base st \<Longrightarrow> team_base (insert_lease l st)"
  by (auto simp: insert_lease_def team_base_def team_keys_def get_hm_insert distinct_update)

lemma base_touch_task [wf_intros]: "team_base st \<Longrightarrow> team_base (touch_task now k st)"
  unfolding touch_task_def by (rule base_modify_task) auto

lemma base_remove_leases [wf_intros]:
  "team_base st \<Longrightarrow> (\<And>l s. team_base s \<Longrightarrow> team_base (act l s)) \<Longrightarrow> team_base (snd (remove_leases act ids st))"
proof (induction ids arbitrary: st)
  case Nil
  then show ?case by simp
next
  case (Cons k ids)
  show ?case
  proof (cases "hm_get (ts_ownership_leases st) k")
    case None
    with Cons show ?thesis by simp
  next
    case (Some l)
    have "team_base (act l (st\<lparr>ts_ownership_leases := hm_remove k (ts_ownership_leases st)\<rparr>))"
      by (intro Cons.prems(2) base_remove_lease Cons.prems(1))
    from Cons.IH [OF this Cons.prems(2)] Some show ?thesis
      by (auto split: prod.split)
  qed
qed

lemma base_release_internal [wf_intros]:
  "team_base st \<Longrightarrow> team_base (snd (release_task_leases_internal k st))"
  unfolding release_task_leases_internal_def by (rule base_remove_leases)

lemma base_fold_insert:
  "team_base st \<Longrightarrow> team_base (foldl (\<lambda>s (i, r). insert_lease (f i r) s) st xs)"
  by (induction xs arbitrary: st) (auto intro: base_insert_lease)

lemma base_apply_leases [wf_intros]: "team_base st \<Longrightarrow> team_base (apply_task_leases e k ow acc st)"
  unfolding apply_task_leases_def Let_def
  by (rule base_fold_insert) (intro wf_intros)

lemma base_refresh [wf_intros]: "team_base st \<Longrightarrow> team_base (refresh_leases_after_update e k st)"
  unfolding refresh_leases_after_update_def
  by (auto intro: wf_intros split: option.split team_task_status.split)

lemma push_note_id [simp]: "tn_id (push_note n t) = tn_id t"
  by (simp add: push_note_def split: option.split)

section \<open>The operations keep the invariant\<close>

lemma create_task_inv:
  assumes "team_inv g st" and g: "g = env_glob e"
  shows "team_inv g (snd (create_task e ti de ow asg run rq br ov st))"
  unfolding create_task_def Let_def g snd_conv
  by (rule recompute_inv) (intro wf_intros, use assms team_inv_base in auto,
      simp add: new_task_def split: option.split)

lemma update_task_inv:
  assumes "team_inv g st" and g: "g = env_glob e"
  shows "team_inv g (snd (update_task e k p st))"
proof (cases "hm_get (ts_tasks st) k")
  case None
  with assms show ?thesis by (simp add: update_task_def)
next
  case (Some t)
  have b: "team_base st" using assms team_inv_base by blast
  have f: "tn_id (apply_patch_fields now p t) = tn_id t" for now t
    by (simp add: apply_patch_fields_def)
  have "team_base (remember_task_scopes_from_task k
      (st\<lparr>ts_tasks := hm_modify k (apply_patch_fields (env_clock e 0) p) (ts_tasks st)\<rparr>))" (is "team_base ?s2")
    by (intro wf_intros b f refl)
  then have "team_base (?s2\<lparr>ts_tasks := hm_modify k (\<lambda>t. if up_review_state p = None \<and> tn_status t = Task_Pending
      then t\<lparr>tn_review_state := Review_NotRequested\<rparr> else t) (ts_tasks ?s2)\<rparr>)" (is "team_base ?s3")
    by (rule base_modify_task) simp_all
  with \<open>team_base ?s2\<close> show ?thesis
    unfolding update_task_def Let_def g using Some
    by (auto intro!: recompute_inv base_refresh)
qed

lemma assign_task_inv:
  assumes "team_inv g st" and g: "g = env_glob e"
  shows "team_inv g (snd (assign_task e k asg note st))"
proof (cases "hm_get (ts_tasks st) k")
  case None
  with assms show ?thesis by (simp add: assign_task_def)
next
  case (Some t)
  then show ?thesis
    unfolding assign_task_def Let_def g using team_inv_base [OF assms(1)]
    by (auto intro!: recompute_inv base_release_internal base_modify_task)
qed

lemma effective_missing: "hm_get (ts_tasks st) k = None \<Longrightarrow> effective_scope_requests st k = []"
  by (simp add: effective_scope_requests_def)

lemma remember_Nil [simp]: "remember_task_scopes k [] st = st"
  by (simp add: remember_task_scopes_def)

lemma ts_tasks_remember [simp]: "ts_tasks (remember_task_scopes k ss st) = ts_tasks st"
  by (simp add: remember_task_scopes_def)

lemma handoff_task_inv:
  assumes "team_inv g st" and g: "g = env_glob e"
  shows "team_inv g (snd (handoff_task e k dst note rm st))"
proof (cases "hm_get (ts_tasks st) k")
  case None
  with assms show ?thesis by (simp add: handoff_task_def effective_missing)
next
  case (Some t)
  then show ?thesis
    unfolding handoff_task_def Let_def g using team_inv_base [OF assms(1)]
    by (auto intro!: recompute_inv base_apply_leases base_modify_task base_remember)
qed

lemma is_task_ready_inv: "team_base st \<Longrightarrow> team_inv (env_glob e) (snd (is_task_ready e k st))"
  by (simp add: is_task_ready_def Let_def recompute_inv)

lemma can_claim_inv:
  "team_inv (env_glob e) st \<Longrightarrow> team_inv (env_glob e) (snd (can_claim_task e k c rr st))"
  using is_task_ready_inv [OF team_inv_base, of "env_glob e" st e k]
  by (auto simp: can_claim_task_def split: prod.split)

lemma claim_fields_id [simp]: "tn_id (claim_fields now c t) = tn_id t"
  by (simp add: claim_fields_def Let_def split: option.split prod.split)

lemma claim_internal_inv:
  assumes "team_inv (env_glob e) st"
  shows "team_inv (env_glob e) (snd (claim_task_internal e k c rr st))"
proof -
  obtain ready st1 where r: "(if rr then is_task_ready e k st else (True, st)) = (ready, st1)"
    by fastforce
  then have inv1: "team_inv (env_glob e) st1"
    using is_task_ready_inv [OF team_inv_base, of "env_glob e" st e k] assms by (auto split: if_splits)
  show ?thesis
  proof (cases "ready \<and> hm_get (ts_tasks st1) k \<noteq> None")
    case True
    then show ?thesis
      using team_inv_base [OF inv1] r
      by (cases rr) (auto simp: claim_task_internal_def Let_def
          intro!: recompute_inv base_modify_task base_remember)
  next
    case False
    then show ?thesis
      using inv1 r by (auto simp: claim_task_internal_def Let_def effective_missing)
  qed
qed

lemma claim_ready_task_inv:
  assumes "team_inv (env_glob e) st"
  shows "team_inv (env_glob e) (snd (claim_ready_task e k c note st))"
proof -
  obtain ok st1 where r: "can_claim_task e k c True st = (ok, st1)" by fastforce
  with can_claim_inv [OF assms] have "team_inv (env_glob (later 1 e)) st1" by (metis later_simps(3) snd_conv)
  from claim_internal_inv [OF this] r can_claim_inv [OF assms] show ?thesis
    by (auto simp: claim_ready_task_def) (metis snd_conv)
qed

lemma claim_task_eq: "claim_task = claim_ready_task"
  by (intro ext) (simp add: claim_task_def claim_ready_task_def)

lemma list_ready_inv: "team_inv (env_glob e) st \<Longrightarrow> team_inv (env_glob e) (snd (list_ready_tasks e c st))"
  by (simp add: list_ready_tasks_def Let_def recompute_inv team_inv_base)

lemma claim_next_task_inv:
  assumes "team_inv (env_glob e) st"
  shows "team_inv (env_glob e) (snd (claim_next_task e c st))"
proof -
  obtain ts st1 where r: "list_ready_tasks e c st = (ts, st1)" by fastforce
  with list_ready_inv [OF assms, of c] have "team_inv (env_glob (later 1 e)) st1" by simp
  from claim_ready_task_inv [OF this] this show ?thesis
    by (cases ts) (auto simp: claim_next_task_def r)
qed

section \<open>The dependency search\<close>

abbreviation edge_path :: "task_edge list \<Rightarrow> string \<Rightarrow> string \<Rightarrow> bool" where
  "edge_path edges a b \<equiv> (a, b) \<in> (edge_rel edges)\<^sup>*"

lemma edge_rel_step:
  "(a, b) \<in> edge_rel edges \<longleftrightarrow> b \<in> te_to_task_id ` set (filter (\<lambda>edge. te_from_task_id edge = a) edges)"
  by (auto simp: edge_rel_def)

lemma dependency_search_Nil [simp]: "\<not> dependency_search edges dep [] vis"
  by (subst dependency_search.simps) simp

lemma dependency_search_snoc:
  "dependency_search edges dep (fr @ [cur]) vis =
     (if cur \<in> set vis then dependency_search edges dep fr vis
      else if cur = dep then True
      else dependency_search edges dep
        (fr @ map te_to_task_id (filter (\<lambda>edge. te_from_task_id edge = cur) edges)) (cur # vis))"
  by (subst dependency_search.simps) (simp add: Let_def)

lemma dependency_search_sound:
  "dependency_search edges dep fr vis \<Longrightarrow> \<exists>x \<in> set fr. edge_path edges x dep"
proof (induction edges dep fr vis rule: dependency_search.induct)
  case (1 edges dep fr vis)
  from 1(3) have ne: "fr \<noteq> []" by auto
  then obtain fr' cur where fr: "fr = fr' @ [cur]" by (metis append_butlast_last_id)
  let ?new = "map te_to_task_id (filter (\<lambda>edge. te_from_task_id edge = cur) edges)"
  show ?case
  proof (cases "cur \<in> set vis \<or> cur = dep")
    case True
    then show ?thesis
      using 1 fr by (auto simp: dependency_search_snoc split: if_splits)
  next
    case False
    with 1(3) fr have "dependency_search edges dep (fr' @ ?new) (cur # vis)"
      by (simp add: dependency_search_snoc)
    with "1.IH"(2) [OF ne] False fr obtain x where x: "x \<in> set (fr' @ ?new)" "edge_path edges x dep"
      by (metis butlast_snoc last_snoc)
    show ?thesis
    proof (cases "x \<in> set fr'")
      case True
      with x fr show ?thesis by auto
    next
      case False
      with x have "(cur, x) \<in> edge_rel edges" by (auto simp: edge_rel_step)
      then have "edge_path edges cur dep" using x(2) by (rule converse_rtrancl_into_rtrancl)
      with fr show ?thesis by auto
    qed
  qed
qed

text \<open>When the search fails, everything seen is closed under the edges and misses the
  dependency, so no path leads there.\<close>

lemma dependency_search_complete:
  assumes "\<not> dependency_search edges dep fr vis" and "dep \<notin> set vis"
    and "\<And>v w. v \<in> set vis \<Longrightarrow> (v, w) \<in> edge_rel edges \<Longrightarrow> w \<in> set vis \<union> set fr"
    and "x \<in> set vis \<union> set fr"
  shows "\<not> edge_path edges x dep"
  using assms
proof (induction edges dep fr vis arbitrary: x rule: dependency_search.induct)
  case (1 edges dep fr vis)
  show ?case
  proof (cases "fr = []")
    case True
    have "y \<in> set vis" if "edge_path edges x y" for y
      using that
    proof (induction rule: rtrancl_induct)
      case base
      show ?case using "1.prems"(4) True by simp
    next
      case (step y z)
      then show ?case using "1.prems"(3) True by fastforce
    qed
    with "1.prems"(2) show ?thesis by blast
  next
    case False
    then obtain fr' cur where fr: "fr = fr' @ [cur]" by (metis append_butlast_last_id)
    let ?new = "map te_to_task_id (filter (\<lambda>edge. te_from_task_id edge = cur) edges)"
    show ?thesis
    proof (cases "cur \<in> set vis")
      case True
      have "\<not> dependency_search edges dep fr' vis"
        using "1.prems"(1) True fr by (simp add: dependency_search_snoc)
      with "1.IH"(1) [of cur fr' x] "1.prems" True fr show ?thesis by fastforce
    next
      case unseen: False
      have nd: "cur \<noteq> dep" and rec: "\<not> dependency_search edges dep (fr' @ ?new) (cur # vis)"
        using "1.prems"(1) unseen fr
        by (auto simp: dependency_search_snoc split: if_splits)
      have "w \<in> set (cur # vis) \<union> set (fr' @ ?new)" if "v \<in> set (cur # vis)" "(v, w) \<in> edge_rel edges" for v w
        using that "1.prems"(3) [of v w] fr by (auto simp: edge_rel_step)
      moreover have "dep \<notin> set (cur # vis)" "x \<in> set (cur # vis) \<union> set (fr' @ ?new)"
        using nd "1.prems"(2,4) fr by auto
      moreover have "cur = last fr" "fr' = butlast fr" using fr by simp_all
      ultimately show ?thesis using "1.IH"(2) [OF False _ _ unseen nd rec] by blast
    qed
  qed
qed

lemma dependency_search_iff: "dependency_search edges dep [t] [] \<longleftrightarrow> edge_path edges t dep"
  using dependency_search_sound [of edges dep "[t]" "[]"]
    dependency_search_complete [of edges dep "[t]" "[]" t] by auto

lemma edge_rel_append: "edge_rel (edges @ [edge]) = insert (te_from_task_id edge, te_to_task_id edge) (edge_rel edges)"
  by (simp add: edge_rel_def)

lemma add_task_dependency_inv:
  assumes inv: "team_inv (env_glob e) st"
  shows "team_inv (env_glob e) (snd (add_task_dependency e t d reason st))"
proof (cases "t = d \<or> \<not> hm_contains (ts_tasks st) t \<or> \<not> hm_contains (ts_tasks st) d
    \<or> dependency_search (ts_task_edges st) d [t] []")
  case True
  with inv show ?thesis by (auto simp: add_task_dependency_def)
next
  case False
  let ?edge = "\<lparr>te_from_task_id = d, te_to_task_id = t, te_kind = Edge_Blocks,
    te_reason = reason, te_created_at = env_clock e 0\<rparr>"
  have base: "team_base st" by (rule team_inv_base [OF inv])
  from False have "\<not> edge_path (ts_task_edges st) t d" by (simp add: dependency_search_iff)
  with base have "acyclic (edge_rel (ts_task_edges st @ [?edge]))"
    by (simp add: edge_rel_append acyclic_insert team_base_def)
  with base have "team_base (st\<lparr>ts_task_edges := ts_task_edges st @ [?edge]\<rparr>)"
    by (simp add: team_base_def team_keys_def)
  with base False show ?thesis
    by (auto simp: add_task_dependency_def Let_def intro!: recompute_inv)
qed

lemma remove_task_dependency_inv:
  assumes inv: "team_inv (env_glob e) st"
  shows "team_inv (env_glob e) (snd (remove_task_dependency e t d st))"
proof -
  let ?P = "\<lambda>edge. \<not> (te_from_task_id edge = d \<and> te_to_task_id edge = t)"
  have base: "team_base st" by (rule team_inv_base [OF inv])
  have "edge_rel (filter ?P (ts_task_edges st)) \<subseteq> edge_rel (ts_task_edges st)"
    by (auto simp: edge_rel_def)
  with base have base': "team_base (st\<lparr>ts_task_edges := filter ?P (ts_task_edges st)\<rparr>)"
    by (auto simp: team_base_def team_keys_def intro: acyclic_subset)
  have unchanged: "st\<lparr>ts_task_edges := filter ?P (ts_task_edges st)\<rparr> = st"
    if "length (ts_task_edges st) = length (filter ?P (ts_task_edges st))"
  proof -
    have "filter ?P (ts_task_edges st) = ts_task_edges st"
      using that by (metis filter_id_conv length_filter_less order_less_irrefl)
    then show ?thesis by simp
  qed
  from base' inv unchanged show ?thesis
    by (auto simp: remove_task_dependency_def Let_def intro!: recompute_inv)
qed

section \<open>Blockers, leases, mailbox and plans keep the invariant\<close>

lemma block_task_inv:
  assumes inv: "team_inv (env_glob e) st"
  shows "team_inv (env_glob e) (snd (block_task e k r st))"
  using inv team_inv_base [OF inv]
  by (auto simp: block_task_def Let_def intro!: recompute_inv base_modify_task)

lemma unblock_task_inv:
  assumes inv: "team_inv (env_glob e) st"
  shows "team_inv (env_glob e) (snd (unblock_task e k b st))"
  using inv team_inv_base [OF inv]
  by (auto simp: unblock_task_def Let_def intro!: recompute_inv base_modify_task split: option.split)

lemma release_task_leases_inv:
  assumes inv: "team_inv (env_glob e) st"
  shows "team_inv (env_glob e) (snd (release_task_leases e k st))"
  using inv team_inv_base [OF inv]
  by (auto simp: release_task_leases_def Let_def intro!: recompute_inv base_release_internal base_touch_task)

lemma force_release_lease_inv:
  assumes inv: "team_inv (env_glob e) st"
  shows "team_inv (env_glob e) (snd (force_release_lease e k st))"
  using inv team_inv_base [OF inv]
  by (auto simp: force_release_lease_def Let_def intro!: recompute_inv base_touch_task base_remove_lease
      split: option.split)

lemma remove_leases_none: "fst (remove_leases act ids st) = [] \<Longrightarrow> snd (remove_leases act ids st) = st"
  by (induction ids arbitrary: st) (auto split: option.splits prod.splits)

lemma release_thread_leases_inv:
  assumes inv: "team_inv (env_glob e) st"
  shows "team_inv (env_glob e) (snd (release_thread_leases e th st))"
proof -
  let ?act = "\<lambda>lease. touch_task (env_clock e 0) (ol_task_id lease)"
  let ?ids = "lease_ids_where (\<lambda>lease. ol_owner_thread_id lease = th) st"
  obtain removed st1 where r: "remove_leases ?act ?ids st = (removed, st1)" by fastforce
  have "team_base (snd (remove_leases ?act ?ids st))"
    by (intro wf_intros team_inv_base [OF inv])
  with r inv remove_leases_none [of ?act ?ids st] show ?thesis
    by (auto simp: release_thread_leases_def Let_def intro: recompute_inv)
qed

lemma cleanup_stale_leases_inv:
  assumes inv: "team_inv (env_glob e) st"
  shows "team_inv (env_glob e) (snd (cleanup_stale_leases e act before st))"
proof -
  let ?act = "\<lambda>lease. touch_task (env_clock e 0) (ol_task_id lease)"
  let ?ids = "lease_ids_where (is_stale act before (env_clock e 0)) st"
  obtain removed st1 where r: "remove_leases ?act ?ids st = (removed, st1)" by fastforce
  have "team_base (snd (remove_leases ?act ?ids st))"
    by (intro wf_intros team_inv_base [OF inv])
  with r inv remove_leases_none [of ?act ?ids st] show ?thesis
    by (auto simp: cleanup_stale_leases_def Let_def intro: recompute_inv)
qed

lemma insert_grants_base: "team_base st \<Longrightarrow> team_base (snd (insert_grants e now th n gs st))"
  by (induction e now th n gs st rule: insert_grants.induct)
     (auto intro: base_touch_task base_insert_lease)

lemma insert_grants_count: "n \<le> fst (insert_grants e now th n gs st)"
  by (induction e now th n gs st rule: insert_grants.induct) (auto split: if_splits)

lemma insert_grants_none:
  "fst (insert_grants e now th n gs st) = n \<Longrightarrow> snd (insert_grants e now th n gs st) = st"
proof (induction e now th n gs st rule: insert_grants.induct)
  case (2 e now th n path k gs st)
  show ?case
  proof (cases "has_file_lease k th path st")
    case True
    with 2 show ?thesis by simp
  next
    case False
    with 2(3) show ?thesis
      using insert_grants_count [of "Suc n"] by (simp del: fst_conv) (metis Suc_n_not_le_n)
  qed
qed simp

lemma ensure_write_paths_owned_inv:
  assumes inv: "team_inv (env_glob e) st"
  shows "team_inv (env_glob e) (snd (ensure_write_paths_owned e th ps st))"
proof -
  obtain gs fs where p: "plan_writes (env_glob e) th st ps = (gs, fs)" by fastforce
  obtain n st1 where i: "insert_grants e (env_clock e 0) th 0 gs st = (n, st1)" by fastforce
  have "team_base st1"
    using insert_grants_base [OF team_inv_base [OF inv], of e "env_clock e 0" th 0 gs] i by simp
  with p i inv insert_grants_none [of e "env_clock e 0" th 0 gs st] show ?thesis
    by (auto simp: ensure_write_paths_owned_def intro: recompute_inv)
qed

text \<open>Heartbeats, messages and plans touch nothing the invariant reads, but the keys of the
  plans.\<close>

lemma team_inv_cong:
  assumes "team_inv g st"
    and "ts_tasks st' = ts_tasks st" "ts_task_edges st' = ts_task_edges st"
      "ts_task_scope_memory st' = ts_task_scope_memory st"
      "ts_ownership_leases st' = ts_ownership_leases st" "ts_plans st' = ts_plans st"
  shows "team_inv g st'"
  using assms
  by (simp add: team_inv_def team_base_def team_keys_def team_closed_def board_current_def
      dependencies_completed_def lease_free_def effective_scope_requests_def)

lemma lease_free_map:
  assumes "\<And>l. ol_task_id (h l) = ol_task_id l" "\<And>l. ol_owner_thread_id (h l) = ol_owner_thread_id l"
    "\<And>l. ol_scope (h l) = ol_scope l" "\<And>l. ol_access (h l) = ol_access l"
    and "hm_values (ts_ownership_leases st') = map h (hm_values (ts_ownership_leases st))"
    and "effective_scope_requests st' k = effective_scope_requests st k"
  shows "lease_free g st' k rq = lease_free g st k rq"
  unfolding lease_free_def assms(5,6)
  by (simp add: scope_request_conflicts_with_lease_def assms(1-4))

lemma heartbeat_sel [simp]:
  "ol_id (heartbeat now th l) = ol_id l" "ol_task_id (heartbeat now th l) = ol_task_id l"
  "ol_owner_thread_id (heartbeat now th l) = ol_owner_thread_id l"
  "ol_scope (heartbeat now th l) = ol_scope l" "ol_access (heartbeat now th l) = ol_access l"
  by (simp_all add: heartbeat_def)

lemma hm_values_map: "hm_values (hm_map (\<lambda>_. h) m) = map h (hm_values m)"
  by (induction m) (auto simp: hm_map_def)

lemma touch_thread_leases_inv:
  assumes inv: "team_inv (env_glob e) st"
  shows "team_inv (env_glob e) (snd (touch_thread_leases e th st))"
proof -
  let ?h = "heartbeat (env_clock e 0) th"
  let ?st' = "st\<lparr>ts_ownership_leases := hm_map (\<lambda>_. ?h) (ts_ownership_leases st)\<rparr>"
  have vals: "hm_values (hm_map (\<lambda>_. ?h) m) = map ?h (hm_values m)" for m
    by (rule hm_values_map)
  have "effective_scope_requests ?st' k = effective_scope_requests st k" for k
    by (simp add: effective_scope_requests_def split: option.split)
  then have "lease_free (env_glob e) ?st' k rq = lease_free (env_glob e) st k rq" for k rq
    by (intro lease_free_map [where h = ?h]) (simp_all add: vals del: map_map)
  then have "board_current (env_glob e) ?st'"
    using inv by (simp add: team_inv_def board_current_def dependencies_completed_def)
  moreover have "team_base ?st'"
    using inv by (auto simp: team_inv_def team_base_def team_keys_def hm_simps)
  moreover have "team_closed ?st'"
    using inv by (auto simp: team_inv_def team_closed_def vals simp del: map_map)
  ultimately show ?thesis by (simp add: touch_thread_leases_def Let_def team_inv_def)
qed

lemma frame_bump [simp]:
  "ts_tasks (bump_mailbox_version st) = ts_tasks st"
  "ts_task_edges (bump_mailbox_version st) = ts_task_edges st"
  "ts_task_scope_memory (bump_mailbox_version st) = ts_task_scope_memory st"
  "ts_ownership_leases (bump_mailbox_version st) = ts_ownership_leases st"
  "ts_plans (bump_mailbox_version st) = ts_plans st"
  "ts_messages (bump_mailbox_version st) = ts_messages st"
  by (simp_all add: bump_mailbox_version_def)

lemma frame_expire [simp]:
  "ts_tasks (expire_messages now st) = ts_tasks st"
  "ts_task_edges (expire_messages now st) = ts_task_edges st"
  "ts_task_scope_memory (expire_messages now st) = ts_task_scope_memory st"
  "ts_ownership_leases (expire_messages now st) = ts_ownership_leases st"
  "ts_plans (expire_messages now st) = ts_plans st"
  by (simp_all add: expire_messages_def Let_def)

lemma post_message_inv: "team_inv g st \<Longrightarrow> team_inv g (snd (post_message e a st))"
  by (erule team_inv_cong) (simp_all add: post_message_def Let_def)

lemma collect_messages_inv: "team_inv g st \<Longrightarrow> team_inv g (snd (collect_messages e r u m st))"
  by (erule team_inv_cong) (simp_all add: collect_messages_def Let_def)

lemma claim_queue_messages_inv: "team_inv g st \<Longrightarrow> team_inv g (snd (claim_queue_messages e c q n st))"
  by (erule team_inv_cong) (simp_all add: claim_queue_messages_def Let_def split: prod.split)

lemma ack_message_inv: "team_inv g st \<Longrightarrow> team_inv g (snd (ack_message e a i st))"
  by (erule team_inv_cong) (simp_all add: ack_message_def Let_def split: option.split)

lemma plans_inv:
  assumes inv: "team_inv g st" and "hm_wf ps" and "\<And>k p. hm_get ps k = Some p \<Longrightarrow> tp_id p = k"
  shows "team_inv g (st\<lparr>ts_plans := ps\<rparr>)"
  using assms
  by (simp add: team_inv_def team_base_def team_keys_def team_closed_def board_current_def
      dependencies_completed_def lease_free_def effective_scope_requests_def)

lemma submit_plan_inv:
  assumes "team_inv g st"
  shows "team_inv g (snd (submit_plan e au su sp rq run st))"
  using assms unfolding submit_plan_def Let_def snd_conv
  by (intro plans_inv assms)
     (auto simp: team_inv_def team_base_def team_keys_def get_hm_insert distinct_update split: if_splits)

lemma decide_plan_inv:
  assumes inv: "team_inv g st"
  shows "team_inv g (snd (decide_plan e k rv ok note st))"
proof -
  let ?ps = "hm_modify k (decide_fields (env_clock e 0) rv ok note) (ts_plans st)"
  have "team_inv g (st\<lparr>ts_plans := ?ps\<rparr>)"
    using inv
    by (intro plans_inv)
       (auto simp: team_inv_def team_base_def team_keys_def get_hm_modify decide_fields_def split: if_splits)
  with inv show ?thesis by (simp add: decide_plan_def Let_def)
qed

lemma empty_inv: "team_inv g empty_team_state"
  by (simp add: team_inv_def team_base_def team_keys_def team_closed_def board_current_def
      empty_team_state_def edge_rel_def acyclic_def)

section \<open>Reachable states\<close>

text \<open>
  A team's state as a machine whose steps are the operations of \<open>TeamState\<close>, in any order
  and with any arguments, clock readings and drawn identifiers. The glob matcher \<open>g\<close> is the
  same in every step.
\<close>

inductive team_step :: "(string \<Rightarrow> string \<Rightarrow> bool) \<Rightarrow> team_state \<Rightarrow> team_state \<Rightarrow> bool" for g where
  step_create: "env_glob e = g \<Longrightarrow> team_step g st (snd (create_task e ti de ow asg run rq br ov st))"
| step_update: "env_glob e = g \<Longrightarrow> team_step g st (snd (update_task e k p st))"
| step_assign: "env_glob e = g \<Longrightarrow> team_step g st (snd (assign_task e k asg note st))"
| step_handoff: "env_glob e = g \<Longrightarrow> team_step g st (snd (handoff_task e k dst note review st))"
| step_claim: "env_glob e = g \<Longrightarrow> team_step g st (snd (claim_task e k c note st))"
| step_claim_ready: "env_glob e = g \<Longrightarrow> team_step g st (snd (claim_ready_task e k c note st))"
| step_claim_next: "env_glob e = g \<Longrightarrow> team_step g st (snd (claim_next_task e c st))"
| step_list_ready: "env_glob e = g \<Longrightarrow> team_step g st (snd (list_ready_tasks e c st))"
| step_add_dependency: "env_glob e = g \<Longrightarrow> team_step g st (snd (add_task_dependency e k d reason st))"
| step_remove_dependency: "env_glob e = g \<Longrightarrow> team_step g st (snd (remove_task_dependency e k d st))"
| step_block: "env_glob e = g \<Longrightarrow> team_step g st (snd (block_task e k text st))"
| step_unblock: "env_glob e = g \<Longrightarrow> team_step g st (snd (unblock_task e k b st))"
| step_release_task: "env_glob e = g \<Longrightarrow> team_step g st (snd (release_task_leases e k st))"
| step_force_release: "env_glob e = g \<Longrightarrow> team_step g st (snd (force_release_lease e lid st))"
| step_touch: "env_glob e = g \<Longrightarrow> team_step g st (snd (touch_thread_leases e th st))"
| step_release_thread: "env_glob e = g \<Longrightarrow> team_step g st (snd (release_thread_leases e th st))"
| step_cleanup: "env_glob e = g \<Longrightarrow> team_step g st (snd (cleanup_stale_leases e live before st))"
| step_ensure: "env_glob e = g \<Longrightarrow> team_step g st (snd (ensure_write_paths_owned e th paths st))"
| step_post: "env_glob e = g \<Longrightarrow> team_step g st (snd (post_message e a st))"
| step_read: "env_glob e = g \<Longrightarrow> team_step g st (snd (read_messages e r unread st))"
| step_peek: "env_glob e = g \<Longrightarrow> team_step g st (snd (peek_messages e r unread st))"
| step_claim_queue: "env_glob e = g \<Longrightarrow> team_step g st (snd (claim_queue_messages e c q n st))"
| step_ack: "env_glob e = g \<Longrightarrow> team_step g st (snd (ack_message e a mid st))"
| step_submit: "env_glob e = g \<Longrightarrow> team_step g st (snd (submit_plan e au su steps rq run st))"
| step_decide: "env_glob e = g \<Longrightarrow> team_step g st (snd (decide_plan e pid rv ok note st))"
| step_clear: "team_step g st (clear st)"
| step_snapshot: "team_step g st (recompute_task_graph g now st)"

lemma team_step_inv: "team_step g st st' \<Longrightarrow> team_inv g st \<Longrightarrow> team_inv g st'"
proof (induction rule: team_step.induct)
  case (step_clear st)
  then show ?case by (simp add: clear_is_empty empty_inv)
next
  case (step_snapshot st now)
  then show ?case by (simp add: recompute_inv team_inv_base)
qed (auto simp: claim_task_eq read_messages_def peek_messages_def
    intro: create_task_inv update_task_inv assign_task_inv handoff_task_inv claim_ready_task_inv
      claim_next_task_inv list_ready_inv add_task_dependency_inv remove_task_dependency_inv
      block_task_inv unblock_task_inv release_task_leases_inv force_release_lease_inv
      touch_thread_leases_inv release_thread_leases_inv cleanup_stale_leases_inv
      ensure_write_paths_owned_inv post_message_inv collect_messages_inv claim_queue_messages_inv
      ack_message_inv submit_plan_inv decide_plan_inv)

interpretation team: machine "\<lambda>st. st = empty_team_state" "team_step g" "team_inv g" for g
  by unfold_locales (auto intro: empty_inv team_step_inv)

text \<open>C1. In every state that a team reaches from the empty one by any sequence of its
  operations, the maps are keyed by the identifiers of their values, nothing refers to a
  missing task, the dependencies have no cycle, and a task is shown as ready exactly when it
  is pending, not blocked by hand, all its dependencies are completed and no other thread's
  lease conflicts with its scopes.\<close>

theorem team_reachable_inv:
  assumes "(team_step g)\<^sup>*\<^sup>* empty_team_state st"
  shows "team_inv g st"
  using team.inv_reachable [OF refl assms] .

theorem team_reachable_inv_witness:
  "team_inv (=) (snd (create_task \<lparr>env_clock = int, env_uuid = (\<lambda>i. replicate i CHR ''x''), env_glob = (=)\<rparr>
     ''t'' None None None None [] None False empty_team_state))"
proof (rule team_reachable_inv)
  show "(team_step (=))\<^sup>*\<^sup>* empty_team_state (snd (create_task \<lparr>env_clock = int,
      env_uuid = (\<lambda>i. replicate i CHR ''x''), env_glob = (=)\<rparr>
      ''t'' None None None None [] None False empty_team_state))"
    by (rule r_into_rtranclp) (rule step_create, simp)
qed

end
