(* ===== verification/TeamClaims.thy ===== *)
theory TeamClaims
  imports TeamInv
begin

text \<open>
  Recomputing the board twice, and what claiming a task needs and gives
  (\<open>is_task_ready\<close>, \<open>can_claim_task\<close>, \<open>claim_ready_task\<close>, \<open>claim_next_task\<close>).
\<close>

declare get_recompute_None [simp del]

section \<open>Recomputing twice\<close>

lemma recompute_task_again:
  "recompute_task g n2 s bl bk eff gr ls tid (recompute_task g n1 s bl bk eff gr ls tid t)
    = recompute_task g n2 s bl bk eff gr ls tid t"
proof -
  let ?u = "recompute_task g n1 s bl bk eff gr ls tid t"
  have "task_blockers g n2 s bl eff ls tid ?u = task_blockers g n2 s bl eff ls tid t"
    using same_task_simps [of g n1 s bl bk eff gr ls tid t]
    by (simp add: task_blockers_def)
  then show ?thesis by (simp add: recompute_task_def Let_def)
qed

lemma recompute_again:
  "recompute_task_graph g n2 (recompute_task_graph g n1 st) = recompute_task_graph g n2 st"
proof -
  let ?st' = "recompute_task_graph g n1 st"
  let ?p = "prune_dangling st"
  let ?ls = "sorted_ownership_leases ?p"
  let ?gr = "granted_scopes_by_task ?ls"
  let ?s = "hm_get (hm_map (\<lambda>_ t. tn_status t) (ts_tasks st))"
  let ?eff = "effective_scope_requests_by_task (ts_task_scope_memory ?p) ?gr (ts_tasks st)"
  let ?f = "\<lambda>n. recompute_task g n ?s (blocked_by (ts_task_edges ?p)) (blocks (ts_task_edges ?p)) ?eff ?gr ?ls"
  have tasks: "ts_tasks ?st' = hm_map (?f n1) (ts_tasks st)"
    by (simp add: recompute_task_graph_def Let_def)
  have st': "?st' = ?p\<lparr>ts_tasks := hm_map (?f n1) (ts_tasks st)\<rparr>"
    by (simp add: recompute_task_graph_def Let_def)
  have leases: "sorted_ownership_leases ?st' = ?ls"
    by (simp add: sorted_ownership_leases_def)
  have stat: "hm_map (\<lambda>_ t. tn_status t) (ts_tasks ?st') = hm_map (\<lambda>_ t. tn_status t) (ts_tasks st)"
    by (simp add: tasks hm_map_hm_map same_task_simps)
  have eff: "effective_scope_requests_by_task (ts_task_scope_memory ?p) ?gr (ts_tasks ?st') = ?eff"
    by (simp add: effective_scope_requests_by_task_def tasks hm_map_hm_map same_task_simps)
  have again: "hm_map (?f n2) (ts_tasks ?st') = hm_map (?f n2) (ts_tasks st)"
    by (simp add: tasks hm_map_hm_map recompute_task_again)
  have "recompute_task_graph g n2 ?st' = ?st'\<lparr>ts_tasks := hm_map (?f n2) (ts_tasks st)\<rparr>"
    using leases stat eff again
    by (subst recompute_task_graph_def) (simp add: Let_def prune_after_recompute)
  also have "\<dots> = recompute_task_graph g n2 st"
    by (simp add: st' recompute_task_graph_def Let_def)
  finally show ?thesis .
qed

lemma ready_state_now:
  assumes "hm_get (ts_tasks (recompute_task_graph g n1 st)) k = Some u"
    and "hm_get (ts_tasks (recompute_task_graph g n2 st)) k = Some v"
  shows "tn_ready_state u = tn_ready_state v"
proof -
  have "list_ex tb_active (task_blockers g n1 s bl eff ls k t)
      = list_ex tb_active (task_blockers g n2 s bl eff ls k t)" for s bl eff ls t
    by (simp add: task_blockers_def list_ex_iff bex_Un dependency_blocker_active)
  then have "ready_state_of x (task_blockers g n1 s bl eff ls k t)
      = ready_state_of x (task_blockers g n2 s bl eff ls k t)" for x s bl eff ls t
    by (cases x) auto
  with assms show ?thesis
    by (auto simp: get_recompute recompute_task_def Let_def)
qed

lemma recompute_blocked_by:
  assumes "hm_get (ts_tasks (recompute_task_graph g now st)) k = Some u"
  shows "set (tn_blocked_by_task_ids u) = {te_from_task_id edge | edge. edge \<in> set (ts_task_edges st)
    \<and> te_to_task_id edge = k \<and> te_from_task_id edge \<in> set (hm_keys (ts_tasks st))}"
proof -
  have k: "k \<in> fst ` set (ts_tasks st)"
    using assms by (auto simp: get_recompute)
  have "tn_blocked_by_task_ids u
      = map te_from_task_id (filter (\<lambda>edge. te_to_task_id edge = k) (ts_task_edges (prune_dangling st)))"
    using assms by (auto simp: get_recompute recompute_task_def Let_def or_nil_blocked_by)
  with k show ?thesis by (auto simp: prune_dangling_def Let_def)
qed

section \<open>Claiming\<close>

text \<open>When the board judges a task ready for a thread, on the recomputed state.\<close>

definition claimable :: "(string \<Rightarrow> string \<Rightarrow> bool) \<Rightarrow> team_state \<Rightarrow> string \<Rightarrow> string \<Rightarrow> bool" where
  "claimable g st task_id claimer \<longleftrightarrow>
     (\<exists>t. hm_get (ts_tasks st) task_id = Some t \<and> tn_status t = Task_Pending \<and> no_manual_blocker t
        \<and> dependencies_completed st task_id \<and> lease_free g st task_id (requester t)
        \<and> may_claim claimer t)"

lemma can_claim_iff:
  "fst (can_claim_task e k c True st)
    \<longleftrightarrow> claimable (env_glob e) (recompute_task_graph (env_glob e) (env_clock e 0) st) k c"
proof -
  let ?st' = "recompute_task_graph (env_glob e) (env_clock e 0) st"
  show ?thesis
  proof (cases "hm_get (ts_tasks ?st') k")
    case None
    then show ?thesis by (simp add: can_claim_task_def is_task_ready_def Let_def claimable_def)
  next
    case (Some t)
    with ready_iff [OF Some] show ?thesis
      by (auto simp: can_claim_task_def is_task_ready_def Let_def claimable_def)
  qed
qed

lemma snd_can_claim: "snd (can_claim_task e k c True st) = recompute_task_graph (env_glob e) (env_clock e 0) st"
  by (simp add: can_claim_task_def is_task_ready_def Let_def)

lemma claimable_ready:
  "claimable g (recompute_task_graph g now st) k c \<longleftrightarrow>
     (\<exists>t. hm_get (ts_tasks (recompute_task_graph g now st)) k = Some t
        \<and> tn_ready_state t = Ready_Ready \<and> may_claim c t)"
  using ready_iff [of g now st k] by (auto simp: claimable_def)

lemma fst_is_task_ready:
  "fst (is_task_ready e k st) \<longleftrightarrow>
     (\<exists>t. hm_get (ts_tasks (recompute_task_graph (env_glob e) (env_clock e 0) st)) k = Some t
        \<and> tn_ready_state t = Ready_Ready)"
  by (simp add: is_task_ready_def Let_def split: option.split)

lemma snd_is_task_ready:
  "snd (is_task_ready e k st) = recompute_task_graph (env_glob e) (env_clock e 0) st"
  by (simp add: is_task_ready_def Let_def)

lemma get_recompute_twice:
  assumes "hm_get (ts_tasks (recompute_task_graph g n1 st)) k = Some t"
  obtains u where "hm_get (ts_tasks (recompute_task_graph g n2 st)) k = Some u"
    and "same_task u t" and "tn_ready_state u = tn_ready_state t"
proof -
  have "hm_get (ts_tasks (recompute_task_graph g n2 st)) k \<noteq> None"
    using assms get_recompute_None [of g n1 st k] get_recompute_None [of g n2 st k] by auto
  then obtain u where u: "hm_get (ts_tasks (recompute_task_graph g n2 st)) k = Some u" by blast
  then have u': "hm_get (ts_tasks (recompute_task_graph g n2 (recompute_task_graph g n1 st))) k = Some u"
    by (simp add: recompute_again)
  from get_recompute_same [OF u'] assms have "same_task u t" by auto
  with u ready_state_now [OF u assms] that show thesis by blast
qed

text \<open>A task that was taken: in progress, owned by and assigned to its claimer.\<close>

definition taken_by :: "string \<Rightarrow> team_task \<Rightarrow> bool" where
  "taken_by c t \<longleftrightarrow> tn_status t = Task_InProgress \<and> tn_owner_thread_id t = Some c
     \<and> tn_assignee_thread_id t = Some c"

lemma push_note_sel [simp]:
  "tn_status (push_note n t) = tn_status t" "tn_owner_thread_id (push_note n t) = tn_owner_thread_id t"
  "tn_assignee_thread_id (push_note n t) = tn_assignee_thread_id t"
  "tn_requested_scopes (push_note n t) = tn_requested_scopes t"
  "tn_granted_scopes (push_note n t) = tn_granted_scopes t"
  by (simp_all add: push_note_def split: option.split)

lemma taken_claim_fields: "taken_by c (claim_fields now (Some (c, note)) t)"
  by (simp add: taken_by_def claim_fields_def Let_def)

lemma claim_internal_taken:
  assumes "fst (claim_task_internal e k (Some (c, note)) True st) = r"
    and "snd (claim_task_internal e k (Some (c, note)) True st) = st'"
    and "fst (is_task_ready e k st)"
  shows "\<exists>t. r = Some t \<and> hm_get (ts_tasks st') k = Some t \<and> taken_by c t"
proof -
  let ?g = "env_glob e"
  let ?st1 = "recompute_task_graph ?g (env_clock e 0) st"
  let ?st2 = "remember_task_scopes k (effective_scope_requests ?st1 k) ?st1"
  let ?st3 = "?st2\<lparr>ts_tasks := hm_modify k (claim_fields (env_clock e 1) (Some (c, note))) (ts_tasks ?st2)\<rparr>"
  let ?st4 = "recompute_task_graph ?g (env_clock e 2) ?st3"
  have rdy: "is_task_ready e k st = (True, ?st1)"
    using assms(3) snd_is_task_ready [of e k st] by (cases "is_task_ready e k st") simp
  obtain t where t: "hm_get (ts_tasks ?st1) k = Some t"
    using assms(3) by (auto simp: fst_is_task_ready)
  have run: "claim_task_internal e k (Some (c, note)) True st = (hm_get (ts_tasks ?st4) k, ?st4)"
    by (simp add: claim_task_internal_def rdy Let_def t numeral_2_eq_2 del: recompute_simps)
  have "hm_get (ts_tasks ?st3) k = Some (claim_fields (env_clock e 1) (Some (c, note)) t)"
    by (simp add: get_hm_modify t)
  then obtain u where u: "hm_get (ts_tasks ?st4) k = Some u"
      and same: "same_task u (claim_fields (env_clock e 1) (Some (c, note)) t)"
    using get_recompute_None [of ?g "env_clock e 2" ?st3 k]
      get_recompute_same [of ?g "env_clock e 2" ?st3 k] by fastforce
  have "taken_by c u"
    using taken_claim_fields [of c "env_clock e 1" "note" t] same
    by (simp add: taken_by_def same_task_def)
  moreover have "r = Some u" using assms(1) run u by (metis fst_conv)
  moreover have "st' = ?st4" using assms(2) run by (metis snd_conv)
  ultimately show ?thesis using u by blast
qed

lemma claim_ready_cases:
  assumes "claim_ready_task e k c note st = (r, st')"
  shows "if claimable (env_glob e) (recompute_task_graph (env_glob e) (env_clock e 0) st) k c
    then \<exists>t. r = Some t \<and> hm_get (ts_tasks st') k = Some t \<and> taken_by c t
    else r = None \<and> st' = recompute_task_graph (env_glob e) (env_clock e 0) st"
proof -
  let ?g = "env_glob e"
  let ?st1 = "recompute_task_graph ?g (env_clock e 0) st"
  obtain ok where can: "can_claim_task e k c True st = (ok, ?st1)"
    using snd_can_claim [of e k c st] by (cases "can_claim_task e k c True st") simp
  then have ok: "ok \<longleftrightarrow> claimable ?g ?st1 k c" using can_claim_iff [of e k c st] by simp
  show ?thesis
  proof (cases ok)
    case False
    with assms can ok show ?thesis by (simp add: claim_ready_task_def)
  next
    case True
    then obtain t where t: "hm_get (ts_tasks ?st1) k = Some t" "tn_ready_state t = Ready_Ready"
      using ok by (auto simp: claimable_ready)
    obtain u where "hm_get (ts_tasks (recompute_task_graph ?g (env_clock e 1) st)) k = Some u"
      "tn_ready_state u = Ready_Ready"
      using get_recompute_twice [OF t(1), of "env_clock e 1"] t(2) by metis
    then have "fst (is_task_ready (later 1 e) k ?st1)"
      by (simp add: fst_is_task_ready recompute_again)
    from claim_internal_taken [OF refl refl this, of c "note"] assms can True ok show ?thesis
      by (simp add: claim_ready_task_def)
  qed
qed

section \<open>Properties\<close>

text \<open>A state with one pending task \<open>k\<close> and nothing else, and the world it is used in.\<close>

definition demo_env :: env where
  "demo_env = \<lparr>env_clock = int, env_uuid = (\<lambda>i. replicate (Suc i) CHR ''u''), env_glob = (=)\<rparr>"

definition demo_board :: team_state where
  "demo_board = empty_team_state\<lparr>ts_tasks :=
     [(''k'', new_task ''k'' 0 ''title'' None None None None [] False)]\<rparr>"

lemmas board_eval = demo_board_def demo_env_def empty_team_state_def new_task_def
  claim_ready_task_def can_claim_task_def is_task_ready_def claim_task_internal_def claim_fields_def
  recompute_task_graph_def prune_dangling_def recompute_task_def task_blockers_def hm_map_def
  hm_retain_def sorted_ownership_leases_def granted_scopes_by_task_def group_pairs_def blocked_by_def
  blocks_def effective_scope_requests_by_task_def resolve_effective_scope_requests_def or_nil_def
  settle_review_def may_claim_def effective_scope_requests_def remember_task_scopes_def hm_modify_def
  push_note_def not_blank_def

text \<open>C2. \<open>claim_ready_task\<close> hands a task out exactly when, on the recomputed board, the task
  is pending, unblocked by hand, all its dependencies are completed, no other thread's lease
  conflicts with its scopes and it is unassigned or assigned to the claimer; the task handed
  out is the stored one, in progress, owned by and assigned to the claimer; otherwise nothing
  but the recomputation happens.\<close>

theorem claim_ready_task_spec:
  "claimable (env_glob e) (recompute_task_graph (env_glob e) (env_clock e 0) st) k c \<and>
     (\<exists>t. fst (claim_ready_task e k c note st) = Some t
        \<and> hm_get (ts_tasks (snd (claim_ready_task e k c note st))) k = Some t
        \<and> tn_status t = Task_InProgress \<and> tn_owner_thread_id t = Some c
        \<and> tn_assignee_thread_id t = Some c)
   \<or> \<not> claimable (env_glob e) (recompute_task_graph (env_glob e) (env_clock e 0) st) k c \<and>
     claim_ready_task e k c note st = (None, recompute_task_graph (env_glob e) (env_clock e 0) st)"
  using claim_ready_cases [of e k c "note" st "fst (claim_ready_task e k c note st)"
      "snd (claim_ready_task e k c note st)"]
  by (auto simp: taken_by_def prod_eq_iff split: if_splits)

text \<open>A claim is exclusive: after a thread has claimed a task, a claim of the same task by
  any thread, at any later time, gets nothing as long as nothing else happened.\<close>

theorem claim_exclusive:
  assumes "claim_ready_task e k c note st = (Some t, st')"
  shows "fst (claim_ready_task e' k c' note' st') = None"
proof -
  have st': "hm_get (ts_tasks st') k = Some t" "tn_status t = Task_InProgress"
    using claim_ready_cases [OF assms] by (auto simp: taken_by_def split: if_splits)
  have "\<not> claimable (env_glob e') (recompute_task_graph (env_glob e') (env_clock e' 0) st') k c'"
  proof
    assume "claimable (env_glob e') (recompute_task_graph (env_glob e') (env_clock e' 0) st') k c'"
    then obtain u where "hm_get (ts_tasks (recompute_task_graph (env_glob e') (env_clock e' 0) st')) k = Some u"
      and u: "tn_status u = Task_Pending" by (auto simp: claimable_def)
    from get_recompute_same [OF this(1)] st' u show False by (auto simp: same_task_def)
  qed
  with claim_ready_cases [of e' k c' note' st'] show ?thesis
    by (cases "claim_ready_task e' k c' note' st'") auto
qed

theorem claim_exclusive_witness:
  "fst (claim_ready_task demo_env ''k'' ''b'' None
     (snd (claim_ready_task demo_env ''k'' ''a'' None demo_board))) = None"
proof -
  obtain t where "fst (claim_ready_task demo_env ''k'' ''a'' None demo_board) = Some t"
    by (simp add: board_eval Let_def)
  then have "claim_ready_task demo_env ''k'' ''a'' None demo_board
      = (Some t, snd (claim_ready_task demo_env ''k'' ''a'' None demo_board))"
    by (simp add: prod_eq_iff)
  then show ?thesis by (rule claim_exclusive)
qed

text \<open>Recomputing the board is idempotent: a second recomputation, at any time, gives what
  it would have given on the original state.\<close>

theorem recompute_idempotent:
  "recompute_task_graph g n2 (recompute_task_graph g n1 st) = recompute_task_graph g n2 st"
  by (rule recompute_again)

text \<open>C3. \<open>add_task_dependency\<close> succeeds exactly when both tasks exist, differ, and the
  dependency cannot be reached from the task along the existing edges, so that an edge never
  closes a cycle; a refused call changes nothing.\<close>

theorem add_task_dependency_spec:
  "if t \<noteq> d \<and> hm_contains (ts_tasks st) t \<and> hm_contains (ts_tasks st) d
      \<and> (t, d) \<notin> (edge_rel (ts_task_edges st))\<^sup>*
   then (\<exists>u. fst (add_task_dependency e t d reason st) = Some u \<and> d \<in> set (tn_blocked_by_task_ids u))
   else add_task_dependency e t d reason st = (None, st)"
proof (cases "t \<noteq> d \<and> hm_contains (ts_tasks st) t \<and> hm_contains (ts_tasks st) d
      \<and> (t, d) \<notin> (edge_rel (ts_task_edges st))\<^sup>*")
  case False
  then show ?thesis by (auto simp: add_task_dependency_def dependency_search_iff)
next
  case True
  let ?added = "if list_ex (\<lambda>edge. te_from_task_id edge = d \<and> te_to_task_id edge = t) (ts_task_edges st) then st
    else st\<lparr>ts_task_edges := ts_task_edges st @ [\<lparr>te_from_task_id = d, te_to_task_id = t, te_kind = Edge_Blocks,
       te_reason = reason, te_created_at = env_clock e 0\<rparr>]\<rparr>"
  obtain st1 where st1: "st1 = ?added" by simp
  have tasks: "ts_tasks st1 = ts_tasks st" by (simp add: st1)
  have edge: "\<exists>edge \<in> set (ts_task_edges st1). te_from_task_id edge = d \<and> te_to_task_id edge = t"
    by (auto simp: st1 list_ex_iff)
  let ?st2 = "recompute_task_graph (env_glob e) (env_clock e 1) st1"
  have run: "add_task_dependency e t d reason st = (hm_get (ts_tasks ?st2) t, ?st2)"
    using True by (simp add: add_task_dependency_def dependency_search_iff Let_def st1 del: recompute_simps)
  have "t \<in> fst ` set (ts_tasks st)" using True by simp
  then obtain v where "hm_get (ts_tasks st1) t = Some v" using keys_get tasks by metis
  then obtain u where u: "hm_get (ts_tasks ?st2) t = Some u"
    using get_recompute_None [of "env_glob e" "env_clock e 1" st1 t] by fastforce
  have "d \<in> set (tn_blocked_by_task_ids u)"
    using True edge unfolding recompute_blocked_by [OF u] tasks by blast
  with u True show ?thesis by (simp add: run del: recompute_simps)
qed

end
