(* ===== verification/TeamOwnership.thy ===== *)
theory TeamOwnership
  imports TeamClaims
begin

text \<open>
  What the lease operations promise: a release removes exactly the leases it names, the write
  gate gives its caller every path it answered \<open>Ok\<close> for, never grants a file that another
  thread holds a lease on, and a handoff keeps the scopes a task works under.
\<close>

section \<open>Removing leases\<close>

lemma remove_leases_get:
  assumes "\<And>l s. ts_ownership_leases (act l s) = ts_ownership_leases s"
  shows "hm_get (ts_ownership_leases (snd (remove_leases act ids st))) x
    = (if x \<in> set ids then None else hm_get (ts_ownership_leases st) x)"
proof (induction ids arbitrary: st)
  case (Cons k ids)
  show ?case
    by (cases "hm_get (ts_ownership_leases st) k") (auto simp: Cons.IH assms get_hm_remove case_prod_beta)
qed simp

lemma remove_leases_fst:
  assumes "\<And>l s. ts_ownership_leases (act l s) = ts_ownership_leases s" and "distinct ids"
  shows "fst (remove_leases act ids st) = List.map_filter (hm_get (ts_ownership_leases st)) ids"
  using assms(2)
proof (induction ids arbitrary: st)
  case Nil
  show ?case by (simp add: List.map_filter_simps)
next
  case (Cons k ids)
  have "List.map_filter (hm_get (hm_remove k (ts_ownership_leases st))) ids
      = List.map_filter (hm_get (ts_ownership_leases st)) ids"
    using Cons.prems by (auto simp: List.map_filter_def get_hm_remove intro!: map_cong filter_cong)
  with Cons show ?case
    by (cases "hm_get (ts_ownership_leases st) k") (simp_all add: assms(1) List.map_filter_simps case_prod_beta)
qed

lemma remove_leases_wf:
  assumes "\<And>l s. ts_ownership_leases (act l s) = ts_ownership_leases s"
    and "hm_wf (ts_ownership_leases st)"
  shows "hm_wf (ts_ownership_leases (snd (remove_leases act ids st)))"
  using assms(2)
  by (induction ids arbitrary: st) (auto simp: assms(1) distinct_delete case_prod_beta split: option.split)

lemma keyed_values:
  assumes "hm_wf m" and "\<And>k l. hm_get m k = Some l \<Longrightarrow> f l = k" and "l \<in> set (hm_values m)"
  shows "hm_get m (f l) = Some l"
proof -
  from assms(3) obtain k where "(k, l) \<in> set m" by auto
  then have "hm_get m k = Some l" using assms(1) by (rule in_set_getD [rotated])
  with assms(2) show ?thesis by auto
qed

lemma lease_ids_where_facts:
  assumes "team_keys st"
  shows "distinct (lease_ids_where P st)"
    and "k \<in> set (lease_ids_where P st) \<longleftrightarrow> (\<exists>l. hm_get (ts_ownership_leases st) k = Some l \<and> P l)"
    and "List.map_filter (hm_get (ts_ownership_leases st)) (lease_ids_where P st)
      = filter P (hm_values (ts_ownership_leases st))"
proof -
  let ?m = "ts_ownership_leases st"
  have wf: "hm_wf ?m" and id: "\<And>k l. hm_get ?m k = Some l \<Longrightarrow> ol_id l = k"
    using assms by (auto simp: team_keys_def)
  have keys: "map ol_id (hm_values ?m) = hm_keys ?m"
    using wf id by (auto intro!: map_cong dest: in_set_getD)
  have "distinct (map ol_id (hm_values ?m))" by (simp only: keys wf)
  then show "distinct (lease_ids_where P st)"
    unfolding lease_ids_where_def by (rule distinct_map_filter)
  have val: "hm_get ?m (ol_id l) = Some l" if "l \<in> set (hm_values ?m)" for l
    using keyed_values [OF wf id that] .
  show "k \<in> set (lease_ids_where P st) \<longleftrightarrow> (\<exists>l. hm_get ?m k = Some l \<and> P l)"
    using val id by (auto simp: lease_ids_where_def image_iff) (metis map_of_SomeD snd_conv)+
  have "List.map_filter (hm_get ?m) (map ol_id ls) = ls" if "set ls \<subseteq> set (hm_values ?m)" for ls
    using that val by (induction ls) (auto simp: List.map_filter_simps)
  then show "List.map_filter (hm_get ?m) (lease_ids_where P st) = filter P (hm_values ?m)"
    by (auto simp: lease_ids_where_def)
qed

lemma remove_where:
  assumes "team_keys st" and act: "\<And>l s. ts_ownership_leases (act l s) = ts_ownership_leases s"
    and r: "remove_leases act (lease_ids_where P st) st = (removed, st1)"
  shows "removed = filter P (hm_values (ts_ownership_leases st))"
    and "hm_get (ts_ownership_leases st1) k = (case hm_get (ts_ownership_leases st) k of
      None \<Rightarrow> None | Some l \<Rightarrow> if P l then None else Some l)"
proof -
  note facts = lease_ids_where_facts [OF assms(1), where P = P]
  from remove_leases_get [where act = act and st = st and x = k and ids = "lease_ids_where P st", OF act]
    remove_leases_fst [where act = act and st = st, OF act facts(1)] r
  show "removed = filter P (hm_values (ts_ownership_leases st))"
    and "hm_get (ts_ownership_leases st1) k = (case hm_get (ts_ownership_leases st) k of
      None \<Rightarrow> None | Some l \<Rightarrow> if P l then None else Some l)"
    by (auto simp: facts(2,3) split: option.split)
qed

lemma leases_touch_task [simp]: "ts_ownership_leases (touch_task now k st) = ts_ownership_leases st"
  by (simp add: touch_task_def)

lemma keys_touch_task [simp]: "hm_keys (ts_tasks (touch_task now k st)) = hm_keys (ts_tasks st)"
  by (simp add: touch_task_def)

lemma remove_leases_task_keys:
  assumes "\<And>l s. hm_keys (ts_tasks (act l s)) = hm_keys (ts_tasks s)"
  shows "hm_keys (ts_tasks (snd (remove_leases act ids st))) = hm_keys (ts_tasks st)"
proof (induction ids arbitrary: st)
  case (Cons k ids)
  then show ?case
    using Cons.IH [of "act l (st\<lparr>ts_ownership_leases := hm_remove k (ts_ownership_leases st)\<rparr>)" for l]
    by (auto simp: assms case_prod_beta split: option.split simp del: map_eq_conv)
qed simp

text \<open>Recomputing a state whose leases are all on existing tasks keeps them all.\<close>

lemma recompute_keeps_leases:
  assumes "hm_wf (ts_ownership_leases st)"
    and "\<And>k l. hm_get (ts_ownership_leases st) k = Some l \<Longrightarrow> hm_contains (ts_tasks st) (ol_task_id l)"
  shows "hm_get (ts_ownership_leases (recompute_task_graph g now st)) k = hm_get (ts_ownership_leases st) k"
  using assms by (auto simp: prune_dangling_def Let_def get_hm_retain split: option.split)

lemma team_closed_lease:
  "team_closed st \<Longrightarrow> hm_get (ts_ownership_leases st) k = Some l \<Longrightarrow> hm_contains (ts_tasks st) (ol_task_id l)"
  by (force simp: team_closed_def dest: map_of_SomeD)

section \<open>Releasing a thread, cleaning up\<close>

lemma remove_where_invariants:
  assumes "team_inv g st" and act: "\<And>l s. ts_ownership_leases (act l s) = ts_ownership_leases s"
    and "\<And>l s. hm_keys (ts_tasks (act l s)) = hm_keys (ts_tasks s)"
    and r: "remove_leases act (lease_ids_where P st) st = (removed, st1)"
  shows "hm_get (ts_ownership_leases (recompute_task_graph g now st1)) k
      = (case hm_get (ts_ownership_leases st) k of None \<Rightarrow> None | Some l \<Rightarrow> if P l then None else Some l)"
proof -
  have keys: "team_keys st" and closed: "team_closed st"
    using assms(1) by (auto simp: team_inv_def team_base_def)
  have get1: "hm_get (ts_ownership_leases st1) k' = (case hm_get (ts_ownership_leases st) k' of
      None \<Rightarrow> None | Some l \<Rightarrow> if P l then None else Some l)" for k'
    using remove_where(2) [OF keys act r] .
  have "hm_wf (ts_ownership_leases st1)"
    using remove_leases_wf [where act = act and st = st and ids = "lease_ids_where P st", OF act] keys r
    by (simp add: team_keys_def)
  moreover have "hm_keys (ts_tasks st1) = hm_keys (ts_tasks st)"
    using remove_leases_task_keys [where act = act and st = st and ids = "lease_ids_where P st", OF assms(3)] r
    by simp
  ultimately show ?thesis
    using get1 team_closed_lease [OF closed]
    by (subst recompute_keeps_leases) (auto split: option.splits if_splits)
qed

text \<open>\<open>release_thread_leases\<close> takes away every lease of the thread and no other lease, and
  returns how many it took.\<close>

theorem release_thread_leases_exact:
  assumes "team_inv (env_glob e) st" and "release_thread_leases e th st = (n, st')"
  shows "hm_get (ts_ownership_leases st') k = (case hm_get (ts_ownership_leases st) k of
       None \<Rightarrow> None | Some l \<Rightarrow> if ol_owner_thread_id l = th then None else Some l)
     \<and> n = length (filter (\<lambda>l. ol_owner_thread_id l = th) (hm_values (ts_ownership_leases st)))"
proof -
  let ?P = "\<lambda>l. ol_owner_thread_id l = th"
  have keys: "team_keys st" using assms(1) by (simp add: team_inv_def team_base_def)
  obtain removed st1 where r: "remove_leases (\<lambda>l. touch_task (env_clock e 0) (ol_task_id l))
      (lease_ids_where ?P st) st = (removed, st1)" by fastforce
  with assms(2) have n: "n = length removed"
    and st': "st' = (if n > 0 then recompute_task_graph (env_glob e) (env_clock e 1) st1 else st1)"
    by (auto simp: release_thread_leases_def Let_def split: if_splits)
  note exact = remove_where [OF keys leases_touch_task r]
  show ?thesis
    using remove_where_invariants [OF assms(1) leases_touch_task keys_touch_task r]
    by (simp add: n st' exact)
qed

lemma cleanup_stale_leases_get:
  assumes "team_inv (env_glob e) st" and "cleanup_stale_leases e live before st = (removed, st')"
  shows "hm_get (ts_ownership_leases st') k = (case hm_get (ts_ownership_leases st) k of
       None \<Rightarrow> None | Some l \<Rightarrow> if is_stale live before (env_clock e 0) l then None else Some l)
     \<and> removed = filter (is_stale live before (env_clock e 0)) (hm_values (ts_ownership_leases st))"
proof -
  let ?P = "is_stale live before (env_clock e 0)"
  have keys: "team_keys st" using assms(1) by (simp add: team_inv_def team_base_def)
  obtain rs st1 where r: "remove_leases (\<lambda>l. touch_task (env_clock e 0) (ol_task_id l))
      (lease_ids_where ?P st) st = (rs, st1)" by fastforce
  with assms(2) have n: "removed = rs"
    and st': "st' = (if rs \<noteq> [] then recompute_task_graph (env_glob e) (env_clock e 1) st1 else st1)"
    by (auto simp: cleanup_stale_leases_def Let_def split: if_splits)
  note exact = remove_where [OF keys leases_touch_task r]
  show ?thesis
    using remove_where_invariants [OF assms(1) leases_touch_task keys_touch_task r]
    by (simp add: n st' exact)
qed

text \<open>\<open>cleanup_stale_leases\<close> takes away, and returns, exactly the leases that have expired
  or whose thread is not alive and whose last heartbeat is old.\<close>

theorem cleanup_stale_leases_exact:
  assumes "team_inv (env_glob e) st" and "cleanup_stale_leases e live before st = (removed, st')"
  shows "hm_get (ts_ownership_leases st') k = (case hm_get (ts_ownership_leases st) k of
       None \<Rightarrow> None | Some l \<Rightarrow> if is_stale live before (env_clock e 0) l then None else Some l)
     \<and> removed = filter (is_stale live before (env_clock e 0)) (hm_values (ts_ownership_leases st))"
  by (rule cleanup_stale_leases_get [OF assms])

end
