(* ===== verification/TeamWrites.thy ===== *)
theory TeamWrites
  imports TeamOwnership
begin

text \<open>
  The write gate (\<open>validate_write_paths\<close>, \<open>ensure_write_paths_owned\<close>): what an answer
  \<open>Ok\<close> gives its caller, and what no answer takes from another thread.
\<close>

section \<open>The plan of the first loop\<close>

lemma plan_writes_granted:
  assumes "plan_writes g th st paths = (grants, [])"
  shows "(p, k) \<in> set grants \<longleftrightarrow> p \<in> set paths \<and> write_verdict_for g th st p = Grant k"
    and "p \<in> set paths \<Longrightarrow> write_verdict_for g th st p = AlreadyOwned \<or> (\<exists>k. write_verdict_for g th st p = Grant k)"
proof -
  have "((p, k) \<in> set grants \<longleftrightarrow> p \<in> set paths \<and> write_verdict_for g th st p = Grant k)
      \<and> (p \<in> set paths \<longrightarrow> write_verdict_for g th st p = AlreadyOwned \<or> (\<exists>k. write_verdict_for g th st p = Grant k))"
    using assms
  proof (induction paths arbitrary: grants)
    case Nil
    then show ?case by simp
  next
    case (Cons q qs)
    obtain gs fs where r: "plan_writes g th st qs = (gs, fs)" by fastforce
    with Cons.prems have fs: "fs = []" by (auto split: write_verdict.splits)
    from Cons.IH [OF r [unfolded fs]] Cons.prems r fs show ?case
      by (auto split: write_verdict.splits)
  qed
  then show "(p, k) \<in> set grants \<longleftrightarrow> p \<in> set paths \<and> write_verdict_for g th st p = Grant k"
    and "p \<in> set paths \<Longrightarrow> write_verdict_for g th st p = AlreadyOwned \<or> (\<exists>k. write_verdict_for g th st p = Grant k)"
    by auto
qed

lemma verdict_AlreadyOwned:
  "write_verdict_for g th st p = AlreadyOwned \<longleftrightarrow>
     list_ex (holds_write_lease g th p) (hm_values (ts_ownership_leases st))"
  by (auto simp: write_verdict_for_def Let_def split: option.split sum.split list.split)

lemma candidate_in:
  "c \<in> set (top_candidates cs) \<Longrightarrow> c \<in> set cs"
  by (cases "sort_key candidate_key cs") (auto simp: top_candidates_def dest!: arg_cong [where f = set] split: if_splits)

lemma write_candidates_task:
  "c \<in> set (write_candidates g ok st p) \<Longrightarrow>
     \<exists>t \<in> set (hm_values (ts_tasks st)). tn_id t = candidate_task c \<and> tn_status t = Task_InProgress
       \<and> tn_owner_thread_id t = Some (candidate_owner c) \<and> ok (candidate_owner c)"
  by (auto simp: write_candidates_def set_map_filter candidate_task_def candidate_owner_def
      split: option.splits if_splits)

lemma select_write_task_Some:
  assumes "select_write_task_for_path g th p st = Inr (Some k)"
  shows "\<exists>t \<in> set (hm_values (ts_tasks st)). tn_id t = k \<and> tn_status t = Task_InProgress
       \<and> tn_owner_thread_id t = Some th"
proof -
  let ?cs = "write_candidates g (\<lambda>owner. owner = th) st p"
  obtain c where "top_candidates ?cs = [c]" and k: "k = candidate_task c"
    using assms by (auto simp: select_write_task_for_path_def Let_def split: if_splits list.splits)
  then have "c \<in> set ?cs" using candidate_in [of c ?cs] by simp
  with k write_candidates_task show ?thesis by fastforce
qed

lemma verdict_Grant:
  assumes "write_verdict_for g th st p = Grant k"
  shows "\<forall>l \<in> set (hm_values (ts_ownership_leases st)). \<not> blocks_write g th p l"
    and "select_write_task_for_path g th p st = Inr (Some k)"
  using assms
  by (auto simp: write_verdict_for_def Let_def find_None_iff_all
      split: if_splits option.splits sum.splits list.splits)

section \<open>The leases of the second loop\<close>

text \<open>The identifiers drawn from the \<open>n\<close>-th on are new and distinct.\<close>

definition fresh_from :: "nat \<Rightarrow> env \<Rightarrow> team_state \<Rightarrow> bool" where
  "fresh_from n e st \<longleftrightarrow> (\<forall>i \<ge> n. \<not> hm_contains (ts_ownership_leases st) (env_uuid e i))"

lemma fresh_step:
  assumes "inj (env_uuid e)" and "fresh_from n e st"
  shows "fresh_from (Suc n) e (touch_task now k (insert_lease (new_lease (env_uuid e n) now k th s p a) st))"
  using assms by (auto simp: fresh_from_def insert_lease_def new_lease_def dom_update inj_eq simp flip: dom_map_of_conv_image_fst
      simp: update_conv')

text \<open>What a lease is for the second loop: exclusive, on the file, of the thread.\<close>

definition file_lease_of :: "string \<Rightarrow> string \<Rightarrow> string \<Rightarrow> ownership_lease \<Rightarrow> bool" where
  "file_lease_of th p k l \<longleftrightarrow> ol_owner_thread_id l = th \<and> ol_access l = Access_ExclusiveWrite
     \<and> os_kind (ol_scope l) = Scope_File \<and> os_path (ol_scope l) = p \<and> ol_task_id l = k"

lemma insert_grants_keep:
  assumes "inj (env_uuid e)" and "fresh_from n e st"
    and "hm_get (ts_ownership_leases st) j = Some l"
  shows "hm_get (ts_ownership_leases (snd (insert_grants e now th n gs st))) j = Some l"
  using assms
proof (induction e now th n gs st rule: insert_grants.induct)
  case (2 e now th n p k gs st)
  have "j \<noteq> env_uuid e n" using 2(4,5) by (force simp: fresh_from_def)
  with 2 fresh_step [of e n st now k th Scope_File p Access_ExclusiveWrite] show ?case
    by (auto simp: insert_lease_def new_lease_def get_hm_insert)
qed simp

lemma has_file_lease_iff:
  "hm_wf (ts_ownership_leases st) \<Longrightarrow>
     has_file_lease k th p st \<longleftrightarrow> (\<exists>j l. hm_get (ts_ownership_leases st) j = Some l \<and> file_lease_of th p k l)"
  by (force simp: has_file_lease_def file_lease_of_def list_ex_iff map_of_eq_Some_iff)

lemma hm_wf_insert_lease:
  "hm_wf (ts_ownership_leases st) \<Longrightarrow> hm_wf (ts_ownership_leases (insert_lease l st))"
  by (simp add: insert_lease_def distinct_update)

lemma insert_grants_wf:
  "hm_wf (ts_ownership_leases st) \<Longrightarrow>
     hm_wf (ts_ownership_leases (snd (insert_grants e now th n gs st)))"
  by (induction e now th n gs st rule: insert_grants.induct) (auto dest: hm_wf_insert_lease)

lemma file_lease_new: "file_lease_of th p k (new_lease u now k th Scope_File p Access_ExclusiveWrite)"
  by (simp add: file_lease_of_def new_lease_def)

lemma insert_grants_all:
  assumes "inj (env_uuid e)" and "fresh_from n e st" and "hm_wf (ts_ownership_leases st)"
    and "(p, k) \<in> set gs"
  shows "\<exists>j l. hm_get (ts_ownership_leases (snd (insert_grants e now th n gs st))) j = Some l
    \<and> file_lease_of th p k l"
  using assms
proof (induction e now th n gs st rule: insert_grants.induct)
  case (2 e now th n q m gs st)
  let ?l = "new_lease (env_uuid e n) now m th Scope_File q Access_ExclusiveWrite"
  let ?st1 = "touch_task now m (insert_lease ?l st)"
  have fresh1: "fresh_from (Suc n) e ?st1" using fresh_step 2 by blast
  have wf1: "hm_wf (ts_ownership_leases ?st1)" using hm_wf_insert_lease 2(5) by simp
  show ?case
  proof (cases "has_file_lease m th q st")
    case True
    then obtain j l where jl: "hm_get (ts_ownership_leases st) j = Some l" "file_lease_of th q m l"
      using has_file_lease_iff 2(5) by metis
    show ?thesis
    proof (cases "(p, k) = (q, m)")
      case True
      with jl insert_grants_keep [OF 2(3,4) jl(1)] \<open>has_file_lease m th q st\<close> show ?thesis
        by fastforce
    next
      case False
      with 2 \<open>has_file_lease m th q st\<close> show ?thesis by auto
    qed
  next
    case False
    have at: "hm_get (ts_ownership_leases ?st1) (env_uuid e n) = Some ?l"
      by (simp add: insert_lease_def new_lease_def get_hm_insert)
    show ?thesis
    proof (cases "(p, k) = (q, m)")
      case True
      with insert_grants_keep [OF 2(3) fresh1 at] file_lease_new False show ?thesis
        by fastforce
    next
      case False
      with 2(2) [OF \<open>\<not> has_file_lease m th q st\<close> 2(3) fresh1 wf1] 2(6) \<open>\<not> has_file_lease m th q st\<close>
      show ?thesis by auto
    qed
  qed
qed simp

lemma insert_grants_only:
  assumes "hm_get (ts_ownership_leases (snd (insert_grants e now th n gs st))) j = Some l"
  shows "hm_get (ts_ownership_leases st) j = Some l \<or> (\<exists>p k. (p, k) \<in> set gs \<and> file_lease_of th p k l)"
  using assms
proof (induction e now th n gs st rule: insert_grants.induct)
  case (2 e now th n q m gs st)
  let ?l = "new_lease (env_uuid e n) now m th Scope_File q Access_ExclusiveWrite"
  show ?case
  proof (cases "has_file_lease m th q st")
    case True
    with 2(1) [OF True] 2(3) show ?thesis by auto
  next
    case False
    with 2(2) [OF False] 2(3) consider
        "hm_get (ts_ownership_leases (insert_lease ?l st)) j = Some l"
      | "\<exists>p k. (p, k) \<in> set gs \<and> file_lease_of th p k l" by auto
    then show ?thesis
    proof cases
      case 1
      then have "l = ?l \<or> hm_get (ts_ownership_leases st) j = Some l"
        by (auto simp: insert_lease_def get_hm_insert split: if_splits)
      with file_lease_new show ?thesis by (metis list.set_intros(1))
    qed auto
  qed
qed simp

lemma insert_grants_task_keys:
  "hm_keys (ts_tasks (snd (insert_grants e now th n gs st))) = hm_keys (ts_tasks st)"
  by (induction e now th n gs st rule: insert_grants.induct) (auto simp: insert_lease_def simp del: map_eq_conv)

lemma ensure_leases:
  assumes inv: "team_inv (env_glob e) st" and run: "ensure_write_paths_owned e th paths st = (Inr n, st')"
  obtains gs where "plan_writes (env_glob e) th st paths = (gs, [])"
    and "\<And>j. hm_get (ts_ownership_leases st') j
      = hm_get (ts_ownership_leases (snd (insert_grants e (env_clock e 0) th 0 gs st))) j"
proof -
  obtain gs fs where plan: "plan_writes (env_glob e) th st paths = (gs, fs)" by fastforce
  with run have fs: "fs = []" by (auto simp: ensure_write_paths_owned_def split: if_splits)
  obtain m st1 where ins: "insert_grants e (env_clock e 0) th 0 gs st = (m, st1)" by fastforce
  have st': "st' = (if m > 0 then recompute_task_graph (env_glob e) (env_clock e 1) st1 else st1)"
    using run by (auto simp: ensure_write_paths_owned_def plan fs ins)
  have keys: "team_keys st" and closed: "team_closed st"
    using inv by (auto simp: team_inv_def team_base_def)
  have wf: "hm_wf (ts_ownership_leases st1)"
    using insert_grants_wf [of st e "env_clock e 0" th 0 gs] keys ins by (simp add: team_keys_def)
  have tasks: "hm_keys (ts_tasks st1) = hm_keys (ts_tasks st)"
    using insert_grants_task_keys [of e "env_clock e 0" th 0 gs st] ins by simp
  have cont: "hm_contains (ts_tasks st1) (ol_task_id l)" if l: "hm_get (ts_ownership_leases st1) j = Some l" for j l
  proof -
    from insert_grants_only [of e "env_clock e 0" th 0 gs st j l] l ins consider
        "hm_get (ts_ownership_leases st) j = Some l"
      | p k where "(p, k) \<in> set gs" "file_lease_of th p k l" by auto
    then show ?thesis
    proof cases
      case 1
      with team_closed_lease [OF closed] tasks show ?thesis by metis
    next
      case 2
      then have "write_verdict_for (env_glob e) th st p = Grant k"
        using plan_writes_granted(1) [OF plan [unfolded fs]] by blast
      then obtain t where "t \<in> set (hm_values (ts_tasks st))" "tn_id t = k"
        using select_write_task_Some verdict_Grant(2) by blast
      then have "hm_get (ts_tasks st) k = Some t"
        using keyed_values [of "ts_tasks st" tn_id t] keys by (simp add: team_keys_def del: list.set_map)
      then have "hm_contains (ts_tasks st) k" by simp
      with 2 tasks show ?thesis by (simp add: file_lease_of_def del: list.set_map)
    qed
  qed
  then have "hm_get (ts_ownership_leases st') j = hm_get (ts_ownership_leases st1) j" for j
    using recompute_keeps_leases [OF wf cont] by (simp add: st' del: recompute_simps)
  with plan fs ins that show thesis by simp
qed

section \<open>Properties\<close>

lemma holds_file_lease: "file_lease_of th p k l \<Longrightarrow> holds_write_lease g th p l"
  by (simp add: file_lease_of_def holds_write_lease_def)

lemma get_value: "hm_get m k = Some l \<Longrightarrow> l \<in> set (hm_values m)"
  by (force dest: map_of_SomeD)

lemma value_get: "hm_wf m \<Longrightarrow> l \<in> set (hm_values m) \<Longrightarrow> \<exists>k. hm_get m k = Some l"
  by (force simp: map_of_eq_Some_iff)

lemma validate_ok:
  "validate_write_paths g th paths st = Inr () \<longleftrightarrow>
     (\<forall>p \<in> set paths. \<exists>l \<in> set (hm_values (ts_ownership_leases st)). holds_write_lease g th p l)"
proof -
  have "write_conflicts g th st paths = [] \<longleftrightarrow>
      (\<forall>p \<in> set paths. \<exists>l \<in> set (hm_values (ts_ownership_leases st)). holds_write_lease g th p l)"
    by (induction paths) (auto simp: Let_def list_ex_iff)
  then show ?thesis by (simp add: validate_write_paths_def Let_def)
qed

lemma ensure_validates:
  assumes inv: "team_inv (env_glob e) st" and inj: "inj (env_uuid e)" and fresh: "fresh_from 0 e st"
    and run: "ensure_write_paths_owned e th paths st = (Inr n, st')"
  shows "validate_write_paths (env_glob e) th paths st' = Inr ()"
proof -
  obtain gs where plan: "plan_writes (env_glob e) th st paths = (gs, [])"
    and get: "\<And>j. hm_get (ts_ownership_leases st') j
      = hm_get (ts_ownership_leases (snd (insert_grants e (env_clock e 0) th 0 gs st))) j"
    using ensure_leases [OF inv run] by blast
  have wf: "hm_wf (ts_ownership_leases st)" using inv by (simp add: team_inv_def team_base_def team_keys_def)
  show ?thesis
  proof (unfold validate_ok, rule ballI)
    fix p assume p: "p \<in> set paths"
    from plan_writes_granted(2) [OF plan p] consider
        "write_verdict_for (env_glob e) th st p = AlreadyOwned"
      | k where "write_verdict_for (env_glob e) th st p = Grant k" by blast
    then show "\<exists>l \<in> set (hm_values (ts_ownership_leases st')). holds_write_lease (env_glob e) th p l"
    proof cases
      case 1
      then obtain l where "l \<in> set (hm_values (ts_ownership_leases st))"
        and h: "holds_write_lease (env_glob e) th p l"
        unfolding verdict_AlreadyOwned list_ex_iff by blast
      then obtain j where "hm_get (ts_ownership_leases st) j = Some l"
        using value_get [OF wf] by blast
      then have "hm_get (ts_ownership_leases st') j = Some l"
        using insert_grants_keep [OF inj fresh] get by simp
      from h get_value [OF this] show ?thesis by (rule bexI)
    next
      case 2
      then have "(p, k) \<in> set gs" using plan_writes_granted(1) [OF plan] p by blast
      from insert_grants_all [OF inj fresh wf this] get obtain j l
        where l: "hm_get (ts_ownership_leases st') j = Some l" "file_lease_of th p k l" by metis
      from holds_file_lease [OF l(2)] get_value [OF l(1)] show ?thesis by (rule bexI)
    qed
  qed
qed

text \<open>C4. When \<open>ensure_write_paths_owned\<close> answers \<open>Ok\<close>, the thread holds an exclusive write
  lease on every path it asked for: the validation of the same paths succeeds on the new
  state (the identifiers drawn being new and distinct).\<close>

theorem ensure_then_validate:
  assumes inv: "team_inv (env_glob e) st" and inj: "inj (env_uuid e)" and fresh: "fresh_from 0 e st"
    and run: "ensure_write_paths_owned e th paths st = (Inr n, st')"
  shows "validate_write_paths (env_glob e) th paths st' = Inr ()"
  by (rule ensure_validates [OF assms])

text \<open>No two threads have a hand on a file that one of them may write alone.\<close>

definition files_exclusive :: "(string \<Rightarrow> string \<Rightarrow> bool) \<Rightarrow> team_state \<Rightarrow> bool" where
  "files_exclusive g st \<longleftrightarrow>
     (\<forall>i j l l'. hm_get (ts_ownership_leases st) i = Some l \<and> hm_get (ts_ownership_leases st) j = Some l'
        \<and> ol_access l = Access_ExclusiveWrite \<and> os_kind (ol_scope l) = Scope_File
        \<and> ol_owner_thread_id l \<noteq> ol_owner_thread_id l'
        \<longrightarrow> \<not> scopes_overlap g Scope_File (os_path (ol_scope l)) (os_kind (ol_scope l')) (os_path (ol_scope l')))"


end
