(* ===== verification/TeamHandoff.thy ===== *)
theory TeamHandoff
  imports TeamWrites
begin

text \<open>
  Handing a task to another thread (\<open>handoff_task\<close>): its scopes stay, its leases change
  hands, and the leases are granted without looking at those of other threads. The concrete
  boards at the end are inputs on which the properties about leases are applied.
\<close>

section \<open>The scopes a task works under are templates\<close>

lemma effective_templates [simp]:
  "scope_templates_from_requests (effective_scope_requests st k) = effective_scope_requests st k"
  by (simp add: effective_scope_requests_def resolve_effective_scope_requests_def
      split: option.split)

lemma effective_requested:
  assumes "hm_get (ts_tasks st) k = Some t" and "tn_requested_scopes t \<noteq> []"
  shows "effective_scope_requests st k = scope_templates_from_requests (tn_requested_scopes t)"
  using assms by (simp add: effective_scope_requests_def resolve_effective_scope_requests_def)

lemma effective_remembered:
  assumes "hm_get (ts_tasks st) k = Some t" and "tn_requested_scopes t = []"
    and "hm_get (ts_task_scope_memory st) k = Some ss" and "ss \<noteq> []"
  shows "effective_scope_requests st k = scope_templates_from_requests ss"
  using assms by (simp add: effective_scope_requests_def resolve_effective_scope_requests_def)

lemma effective_Nil:
  assumes "hm_get (ts_tasks st) k = Some t"
  shows "effective_scope_requests st k = [] \<longleftrightarrow> tn_requested_scopes t = []
    \<and> (hm_get (ts_task_scope_memory st) k = None \<or> hm_get (ts_task_scope_memory st) k = Some [])
    \<and> tn_granted_scopes t = []"
  using assms by (auto simp: effective_scope_requests_def resolve_effective_scope_requests_def split: option.split)

text \<open>The state remembers, for the task, the scopes \<open>ss\<close>, or the task requests them itself.\<close>

definition keeps_scopes :: "string \<Rightarrow> scope_request list \<Rightarrow> team_state \<Rightarrow> bool" where
  "keeps_scopes k ss st \<longleftrightarrow> (\<exists>t. hm_get (ts_tasks st) k = Some t
     \<and> (if tn_requested_scopes t \<noteq> [] then scope_templates_from_requests (tn_requested_scopes t) = ss
        else hm_get (ts_task_scope_memory st) k = Some ss))"

lemma keeps_effective:
  "keeps_scopes k ss st \<Longrightarrow> ss \<noteq> [] \<Longrightarrow> scope_templates_from_requests ss = ss \<Longrightarrow> effective_scope_requests st k = ss"
  by (auto simp: keeps_scopes_def effective_requested effective_remembered split: if_splits)

lemma keeps_remember:
  assumes "hm_get (ts_tasks st) k = Some t" and "effective_scope_requests st k \<noteq> []"
  shows "keeps_scopes k (effective_scope_requests st k) (remember_task_scopes k (effective_scope_requests st k) st)"
  using assms by (auto simp: keeps_scopes_def remember_task_scopes_def get_hm_insert effective_requested)

lemma keeps_recompute:
  assumes "keeps_scopes k ss st" and "hm_wf (ts_task_scope_memory st)"
  shows "keeps_scopes k ss (recompute_task_graph g now st)"
proof -
  obtain t where t: "hm_get (ts_tasks st) k = Some t"
    and s: "if tn_requested_scopes t \<noteq> [] then scope_templates_from_requests (tn_requested_scopes t) = ss
        else hm_get (ts_task_scope_memory st) k = Some ss"
    using assms(1) by (auto simp: keeps_scopes_def)
  have "k \<in> fst ` set (ts_tasks st)" using t by (rule get_in_keys)
  then have mem: "hm_get (ts_task_scope_memory (recompute_task_graph g now st)) k = hm_get (ts_task_scope_memory st) k"
    using assms(2) by (simp add: prune_dangling_def Let_def get_hm_retain split: option.split)
  obtain u where u: "hm_get (ts_tasks (recompute_task_graph g now st)) k = Some u"
    using t get_recompute_None [of g now st k] by (metis not_None_eq)
  with get_recompute_same [OF u] t have "tn_requested_scopes u = tn_requested_scopes t"
    by (auto simp: same_task_def)
  with u s mem show ?thesis by (simp add: keeps_scopes_def)
qed

lemma same_tasks_leases:
  "keeps_scopes k ss (st\<lparr>ts_ownership_leases := m\<rparr>) = keeps_scopes k ss st"
  by (simp add: keeps_scopes_def)

lemma release_internal_frame:
  "ts_tasks (snd (release_task_leases_internal k st)) = ts_tasks st"
  "ts_task_scope_memory (snd (release_task_leases_internal k st)) = ts_task_scope_memory st"
proof -
  have "ts_tasks (snd (remove_leases (\<lambda>_ s. s) ids st)) = ts_tasks st
      \<and> ts_task_scope_memory (snd (remove_leases (\<lambda>_ s. s) ids st)) = ts_task_scope_memory st" for ids
    by (induction ids arbitrary: st) (auto simp: case_prod_beta split: option.split)
  then show "ts_tasks (snd (release_task_leases_internal k st)) = ts_tasks st"
    "ts_task_scope_memory (snd (release_task_leases_internal k st)) = ts_task_scope_memory st"
    by (simp_all add: release_task_leases_internal_def)
qed

lemma fold_insert_frame:
  "ts_tasks (foldl (\<lambda>s (i, r). insert_lease (f i r) s) st xs) = ts_tasks st"
  "ts_task_scope_memory (foldl (\<lambda>s (i, r). insert_lease (f i r) s) st xs) = ts_task_scope_memory st"
  by (induction xs arbitrary: st) (auto simp: insert_lease_def)

lemma keeps_apply:
  assumes "keeps_scopes k ss st" and "ss \<noteq> []" and "scope_templates_from_requests ss = ss"
  shows "keeps_scopes k ss (apply_task_leases e k ow acc st)"
proof -
  have "effective_scope_requests st k = ss" using keeps_effective assms by blast
  with assms show ?thesis
    by (auto simp: apply_task_leases_def Let_def keeps_scopes_def fold_insert_frame release_internal_frame
        remember_task_scopes_def get_hm_insert)
qed

lemma fold_insert_get:
  assumes "hm_get (ts_ownership_leases (foldl (\<lambda>s (i, r). insert_lease (f i r) s) st xs)) j = Some l"
  shows "hm_get (ts_ownership_leases st) j = Some l \<or> (\<exists>i r. (i, r) \<in> set xs \<and> l = f i r)"
  using assms
proof (induction xs arbitrary: st)
  case (Cons x xs)
  obtain i r where x: "x = (i, r)" by (cases x)
  from Cons.IH [of "insert_lease (f i r) st"] Cons.prems show ?case
    by (auto simp: x insert_lease_def get_hm_insert split: if_splits)
qed simp

text \<open>After \<open>apply_task_leases\<close> every lease of the task belongs to the new owner.\<close>

lemma apply_task_leases_owner:
  assumes "team_keys st" and "hm_get (ts_ownership_leases (apply_task_leases e k ow acc st)) j = Some l"
    and "ol_task_id l = k"
  shows "ol_owner_thread_id l = ow \<and> effective_scope_requests st k \<noteq> []"
proof -
  let ?ss = "effective_scope_requests st k"
  let ?st1 = "remember_task_scopes k ?ss st"
  let ?f = "\<lambda>i r. new_lease (env_uuid e i) (env_clock e 0) k ow (sr_kind r) (sr_path r)
      (case acc of Some a \<Rightarrow> a | None \<Rightarrow> sr_access r)"
  have keys1: "team_keys ?st1"
    using assms(1) by (auto simp: remember_task_scopes_def team_keys_def distinct_update)
  obtain rs st2 where r: "release_task_leases_internal k ?st1 = (rs, st2)" by fastforce
  have "hm_get (ts_ownership_leases st2) j = Some l \<Longrightarrow> False"
    using remove_where(2) [OF keys1 _ r [unfolded release_task_leases_internal_def], of j] assms(3)
    by (auto split: option.splits if_splits)
  moreover have "hm_get (ts_ownership_leases st2) j = Some l
      \<or> (\<exists>i r. (i, r) \<in> set (List.enumerate 0 ?ss) \<and> l = ?f i r)"
    using assms(2) r by (intro fold_insert_get) (simp add: apply_task_leases_def Let_def)
  ultimately show ?thesis by (auto simp: new_lease_def in_set_enumerate_eq)
qed

section \<open>The handoff\<close>

text \<open>The state between the update of the task and the leases.\<close>

definition handed :: "env \<Rightarrow> string \<Rightarrow> string \<Rightarrow> string option \<Rightarrow> bool \<Rightarrow> team_task \<Rightarrow> team_task" where
  "handed e k dst n rm t =
     (push_note n
       (t\<lparr>tn_assignee_thread_id := Some dst, tn_owner_thread_id := Some dst,
          tn_reviewer_thread_id := (if rm then Some dst else None),
          tn_status := (if rm then Task_Review else Task_Pending),
          tn_review_state := (if rm then Review_Requested else Review_NotRequested),
          tn_granted_scopes := []\<rparr>))\<lparr>tn_updated_at := env_clock e 0\<rparr>"

lemma handed_sel [simp]:
  "tn_id (handed e k dst n rm t) = tn_id t" "tn_requested_scopes (handed e k dst n rm t) = tn_requested_scopes t"
  "tn_granted_scopes (handed e k dst n rm t) = []"
  by (simp_all add: handed_def)

lemma handoff_unfold:
  assumes "hm_get (ts_tasks st) k = Some t"
  shows "snd (handoff_task e k dst n rm st) =
    recompute_task_graph (env_glob e) (env_clock e 2)
      (apply_task_leases (later 1 e) k dst (if rm then Some Access_Review else None)
        ((remember_task_scopes k (effective_scope_requests st k) st)
           \<lparr>ts_tasks := hm_modify k (handed e k dst n rm) (ts_tasks st)\<rparr>))"
  using assms by (simp add: handoff_task_def Let_def handed_def [abs_def] del: recompute_simps)

text \<open>A handoff keeps the scopes the task works under, and afterwards every lease of the
  task belongs to the thread it was handed to.\<close>

theorem handoff_keeps_scopes:
  assumes inv: "team_inv (env_glob e) st"
  shows "effective_scope_requests (snd (handoff_task e k dst n rm st)) k = effective_scope_requests st k
    \<and> (\<forall>l \<in> set (hm_values (ts_ownership_leases (snd (handoff_task e k dst n rm st)))).
         ol_task_id l = k \<longrightarrow> ol_owner_thread_id l = dst)"
proof (cases "hm_get (ts_tasks st) k")
  case None
  then have "snd (handoff_task e k dst n rm st) = st"
    by (simp add: handoff_task_def effective_missing)
  moreover have "ol_task_id l \<noteq> k" if "l \<in> set (hm_values (ts_ownership_leases st))" for l
    using inv that None get_in_keys by (force simp: team_inv_def team_closed_def map_of_eq_None_iff)
  ultimately show ?thesis by auto
next
  case (Some t)
  let ?E = "effective_scope_requests st k"
  let ?st2 = "(remember_task_scopes k ?E st)\<lparr>ts_tasks := hm_modify k (handed e k dst n rm) (ts_tasks st)\<rparr>"
  let ?st3 = "apply_task_leases (later 1 e) k dst (if rm then Some Access_Review else None) ?st2"
  let ?st4 = "recompute_task_graph (env_glob e) (env_clock e 2) ?st3"
  note final = handoff_unfold [OF Some, of e dst n rm]
  have "team_base ?st2"
    using team_inv_base [OF inv] by (intro base_modify_task base_remember) simp_all
  then have keys2: "team_keys ?st2" and keys3: "team_keys ?st3"
    using base_apply_leases by (auto simp: team_base_def)
  have t2: "hm_get (ts_tasks ?st2) k = Some (handed e k dst n rm t)"
    using Some by (simp add: get_hm_modify)
  have wf4: "hm_wf (ts_ownership_leases ?st4)"
    using team_keys_recompute [OF keys3, of "env_glob e" "env_clock e 2"] by (simp add: team_keys_def del: recompute_simps)
  have lease3: "hm_get (ts_ownership_leases ?st3) j = Some l"
    if "hm_get (ts_ownership_leases ?st4) j = Some l" for j l
    using that keys3 by (auto simp: prune_dangling_def Let_def get_hm_retain team_keys_def split: option.splits if_splits)
  have owner: "ol_owner_thread_id l = dst \<and> effective_scope_requests ?st2 k \<noteq> []"
    if "l \<in> set (hm_values (ts_ownership_leases ?st4))" "ol_task_id l = k" for l
    using value_get [OF wf4 that(1)] lease3 apply_task_leases_owner [OF keys2 _ that(2)] by blast
  have "effective_scope_requests ?st4 k = ?E"
  proof (cases "?E = []")
    case False
    from keeps_remember [OF Some this] Some have "keeps_scopes k ?E ?st2"
      by (auto simp: keeps_scopes_def get_hm_modify)
    from keeps_apply [OF this False] keeps_recompute [of k ?E ?st3] keys3
    have "keeps_scopes k ?E ?st4" by (simp add: team_keys_def del: recompute_simps)
    then show ?thesis by (rule keeps_effective) (simp_all add: False)
  next
    case True
    have E2: "effective_scope_requests ?st2 k = []"
      using True effective_Nil [OF Some] effective_Nil [OF t2] by (simp add: True)
    obtain u where u: "hm_get (ts_tasks ?st3) k = Some u" "tn_requested_scopes u = []"
        and mem: "hm_get (ts_task_scope_memory ?st3) k = None \<or> hm_get (ts_task_scope_memory ?st3) k = Some []"
      using t2 E2 effective_Nil [OF t2] True
      by (auto simp: apply_task_leases_def Let_def fold_insert_frame release_internal_frame)
    then obtain v where v: "hm_get (ts_tasks ?st4) k = Some v"
      using get_recompute_None [of "env_glob e" "env_clock e 2" ?st3 k] by (metis not_None_eq)
    have "tn_requested_scopes v = []" using get_recompute_same [OF v] u by (auto simp: same_task_def)
    moreover have "tn_granted_scopes v = []"
    proof -
      have "tn_granted_scopes v
          = or_nil (hm_get (granted_scopes_by_task (sorted_ownership_leases (prune_dangling ?st3))) k)"
        using v by (auto simp: get_recompute recompute_task_def Let_def)
      moreover have "ol_task_id l \<noteq> k" if "l \<in> set (sorted_ownership_leases (prune_dangling ?st3))" for l
      proof -
        have "l \<in> set (hm_values (ts_ownership_leases ?st4))" using that by simp
        with owner E2 show ?thesis by blast
      qed
      ultimately show ?thesis
        by (auto simp: granted_scopes_by_task_def get_group_pairs pushed_def filter_empty_conv)
    qed
    moreover have "hm_get (ts_task_scope_memory ?st4) k = None \<or> hm_get (ts_task_scope_memory ?st4) k = Some []"
      using mem keys3 by (auto simp: prune_dangling_def Let_def get_hm_retain team_keys_def split: option.splits)
    ultimately have "effective_scope_requests ?st4 k = []" unfolding effective_Nil [OF v] by blast
    from this True [symmetric] show ?thesis by (rule trans)
  qed
  with owner show ?thesis unfolding final by blast
qed

section \<open>Two handoffs and one file\<close>

text \<open>Two tasks that ask for the same file; one is handed to \<open>a\<close>, the other to \<open>b\<close>.\<close>

definition demo_scope :: scope_request where
  "demo_scope = \<lparr>sr_kind = Scope_File, sr_path = ''f'', sr_access = Access_ExclusiveWrite, sr_reason = None\<rparr>"

definition demo_env_at :: "nat \<Rightarrow> env" where
  "demo_env_at n = demo_env\<lparr>env_uuid := \<lambda>i. replicate (Suc (n + i)) CHR ''u''\<rparr>"

definition two_tasks :: team_state where
  "two_tasks = snd (create_task (demo_env_at 1) ''second'' None None None None [demo_scope] None False
     (snd (create_task (demo_env_at 0) ''first'' None None None None [demo_scope] None False empty_team_state)))"

definition shared_file :: team_state where
  "shared_file = snd (handoff_task (demo_env_at 3) ''uu'' ''b'' None False
     (snd (handoff_task (demo_env_at 2) ''u'' ''a'' None False two_tasks)))"

text \<open>A handoff does not look at the leases of other threads: operations lead from the
  empty state to one where two threads both hold an exclusive lease on the same file, and
  the write gate lets both of them write it.\<close>

theorem handoff_shares_file:
  "(team_step (=))\<^sup>*\<^sup>* empty_team_state shared_file
   \<and> validate_write_paths (=) ''a'' [''f''] shared_file = Inr ()
   \<and> validate_write_paths (=) ''b'' [''f''] shared_file = Inr ()
   \<and> \<not> files_exclusive (=) shared_file"
proof (intro conjI)
  have g: "env_glob (demo_env_at n) = (=)" for n by (simp add: demo_env_at_def demo_env_def)
  have "(team_step (=))\<^sup>*\<^sup>* empty_team_state two_tasks"
    unfolding two_tasks_def
    by (rule rtranclp.rtrancl_into_rtrancl [OF rtranclp.rtrancl_into_rtrancl [OF rtranclp.rtrancl_refl]])
       (rule step_create [OF g])+
  then show "(team_step (=))\<^sup>*\<^sup>* empty_team_state shared_file"
    unfolding shared_file_def
    by (rule rtranclp.rtrancl_into_rtrancl [OF rtranclp.rtrancl_into_rtrancl])
       (rule step_handoff [OF g])+
  have leases: "map (\<lambda>l. (ol_owner_thread_id l, ol_scope l, ol_access l)) (hm_values (ts_ownership_leases shared_file))
      = [(''a'', \<lparr>os_kind = Scope_File, os_path = ''f''\<rparr>, Access_ExclusiveWrite),
         (''b'', \<lparr>os_kind = Scope_File, os_path = ''f''\<rparr>, Access_ExclusiveWrite)]"
    and wf: "hm_wf (ts_ownership_leases shared_file)"
    by code_simp+
  then obtain l l' where ls: "hm_values (ts_ownership_leases shared_file) = [l, l']"
    and l: "ol_owner_thread_id l = ''a''" "ol_scope l = \<lparr>os_kind = Scope_File, os_path = ''f''\<rparr>" "ol_access l = Access_ExclusiveWrite"
    and l': "ol_owner_thread_id l' = ''b''" "ol_scope l' = \<lparr>os_kind = Scope_File, os_path = ''f''\<rparr>" "ol_access l' = Access_ExclusiveWrite"
    by (auto simp: map_eq_Cons_conv)
  show "validate_write_paths (=) ''a'' [''f''] shared_file = Inr ()"
    "validate_write_paths (=) ''b'' [''f''] shared_file = Inr ()"
    by (simp_all add: validate_ok ls l l' holds_write_lease_def del: list.set_map)
  have "l \<in> set (hm_values (ts_ownership_leases shared_file))" "l' \<in> set (hm_values (ts_ownership_leases shared_file))"
    by (simp_all add: ls del: list.set_map)
  then obtain i j where "hm_get (ts_ownership_leases shared_file) i = Some l"
      "hm_get (ts_ownership_leases shared_file) j = Some l'"
    using value_get [OF wf] by metis
  then show "\<not> files_exclusive (=) shared_file"
    using l l' by (force simp: files_exclusive_def)
qed

section \<open>The properties at work\<close>

text \<open>The first task claimed by \<open>a\<close>, before and after \<open>a\<close> asked to write \<open>f\<close>.\<close>

definition claimed_board :: team_state where
  "claimed_board = snd (claim_ready_task (demo_env_at 2) ''u'' ''a'' None
     (snd (create_task (demo_env_at 0) ''title'' None None None None [demo_scope] None False empty_team_state)))"

definition owned_board :: team_state where
  "owned_board = snd (ensure_write_paths_owned (demo_env_at 2) ''a'' [''f''] claimed_board)"

lemma env_glob_demo [simp]: "env_glob (demo_env_at n) = (=)"
  by (simp add: demo_env_at_def demo_env_def)

lemma claimed_board_inv: "team_inv (env_glob (demo_env_at n)) claimed_board"
proof -
  have "team_inv (env_glob (demo_env_at 2)) claimed_board"
    unfolding claimed_board_def by (intro claim_ready_task_inv create_task_inv empty_inv) simp
  then show ?thesis by simp
qed

lemma owned_board_inv: "team_inv (env_glob (demo_env_at n)) owned_board"
  using ensure_write_paths_owned_inv [OF claimed_board_inv] by (simp add: owned_board_def)

lemma claimed_board_leases: "ts_ownership_leases claimed_board = []"
  by code_simp

lemma claimed_ensure: "fst (ensure_write_paths_owned (demo_env_at 2) ''a'' [''f''] claimed_board) = Inr 1"
  by code_simp

theorem release_thread_leases_exact_witness:
  "fst (release_thread_leases (demo_env_at 3) ''a'' owned_board) = 1"
proof -
  have "length (filter (\<lambda>l. ol_owner_thread_id l = ''a'') (hm_values (ts_ownership_leases owned_board))) = 1"
    by code_simp
  moreover have "release_thread_leases (demo_env_at 3) ''a'' owned_board
      = (fst (release_thread_leases (demo_env_at 3) ''a'' owned_board),
         snd (release_thread_leases (demo_env_at 3) ''a'' owned_board))" by simp
  ultimately show ?thesis
    using conjunct2 [OF release_thread_leases_exact [OF owned_board_inv, where k = "''uuu''"]] by metis
qed

theorem cleanup_stale_leases_exact_witness:
  "length (fst (cleanup_stale_leases (demo_env_at 3) {} 5 owned_board)) = 1"
proof -
  have "length (filter (is_stale {} 5 (env_clock (demo_env_at 3) 0)) (hm_values (ts_ownership_leases owned_board))) = 1"
    by code_simp
  moreover have "cleanup_stale_leases (demo_env_at 3) {} 5 owned_board
      = (fst (cleanup_stale_leases (demo_env_at 3) {} 5 owned_board),
         snd (cleanup_stale_leases (demo_env_at 3) {} 5 owned_board))" by simp
  ultimately show ?thesis
    using conjunct2 [OF cleanup_stale_leases_exact [OF owned_board_inv, where k = "''uuu''"]] by metis
qed

theorem ensure_then_validate_witness:
  "validate_write_paths (=) ''a'' [''f''] owned_board = Inr ()"
proof -
  have "inj (env_uuid (demo_env_at 2))" by (auto simp: inj_def demo_env_at_def dest: arg_cong [where f = length])
  moreover have "fresh_from 0 (demo_env_at 2) claimed_board"
    by (simp add: fresh_from_def claimed_board_leases)
  moreover have "ensure_write_paths_owned (demo_env_at 2) ''a'' [''f''] claimed_board = (Inr 1, owned_board)"
    using claimed_ensure by (simp add: owned_board_def prod_eq_iff)
  ultimately show ?thesis using ensure_then_validate [OF claimed_board_inv] by simp
qed


theorem handoff_keeps_scopes_witness:
  "effective_scope_requests (snd (handoff_task (demo_env_at 3) ''u'' ''b'' None True owned_board)) ''u'' = [demo_scope]"
proof -
  have "effective_scope_requests owned_board ''u'' = [demo_scope]" by code_simp
  with conjunct1 [OF handoff_keeps_scopes [OF owned_board_inv, of 3 "''u''" "''b''" None True]]
  show ?thesis by simp
qed

end
