(* ===== verification/TeamMail.thy ===== *)
theory TeamMail
  imports TeamMailbox
begin

text \<open>
  What the mailbox and the plans promise: a waiting agent sees every change by the version,
  a queue message goes to one thread, a message is acknowledged once and by its addressee,
  reading empties the unread counter, and a plan blocks its author until it is approved.
\<close>

section \<open>Frame facts\<close>

lemma mark_seen_sel [simp]:
  "sm_id (mark_seen_by r m) = sm_id m" "sm_kind (mark_seen_by r m) = sm_kind m"
  "sm_recipient_thread_id (mark_seen_by r m) = sm_recipient_thread_id m"
  "sm_sender_thread_id (mark_seen_by r m) = sm_sender_thread_id m"
  "sm_claimed_by_thread_id (mark_seen_by r m) = sm_claimed_by_thread_id m"
  "sm_expires_at (mark_seen_by r m) = sm_expires_at m"
  "sm_delivery_mode (mark_seen_by r m) = sm_delivery_mode m"
  "sm_ack_state (mark_seen_by r m) = sm_ack_state m"
  "set (sm_seen_by (mark_seen_by r m)) = insert r (set (sm_seen_by m))"
  by (simp_all add: mark_seen_by_def)

lemma mark_seen_same: "r \<in> set (sm_seen_by m) \<Longrightarrow> mark_seen_by r m = m"
  by (simp add: mark_seen_by_def)

lemma expired_cong:
  "sm_expires_at m = sm_expires_at m' \<Longrightarrow> sm_delivery_mode m = sm_delivery_mode m'
    \<Longrightarrow> is_expired now m = is_expired now m'"
  by (simp add: is_expired_def)

lemma is_expired_mark [simp]: "is_expired now (mark_seen_by r m) = is_expired now m"
  by (rule expired_cong) simp_all

lemma is_visible_mark [simp]: "is_visible_to x (mark_seen_by r m) = is_visible_to x m"
  by (simp add: is_visible_to_def split: option.split team_message_kind.split)

lemma is_expired_mono: "is_expired now m \<Longrightarrow> now \<le> now2 \<Longrightarrow> is_expired now2 m"
  by (auto simp: is_expired_def split: option.splits)

lemma messages_bump [simp]: "ts_messages (bump_mailbox_version st) = ts_messages st"
  by (simp add: bump_mailbox_version_def)

lemma messages_expire:
  "ts_messages (expire_messages now st)
    = map (\<lambda>m. if expires_now now m then m\<lparr>sm_ack_state := Ack_Expired\<rparr> else m) (ts_messages st)"
  by (simp add: expire_messages_def Let_def)

section \<open>The version\<close>

definition saturated :: "team_state \<Rightarrow> bool" where
  "saturated st \<longleftrightarrow> ts_mailbox_version st = - 1"

definition bumped :: "team_state \<Rightarrow> team_state \<Rightarrow> bool" where
  "bumped st st' \<longleftrightarrow> ts_mailbox_version st < ts_mailbox_version st' \<or> saturated st \<and> saturated st'"

definition not_behind :: "team_state \<Rightarrow> team_state \<Rightarrow> bool" where
  "not_behind st st' \<longleftrightarrow> ts_mailbox_version st \<le> ts_mailbox_version st'"

lemma saturated_unat: "saturated st \<longleftrightarrow> unat (ts_mailbox_version st) = 2 ^ 64 - 1"
  by (simp add: saturated_def word_unat_eq_iff unsigned_minus_1_eq_mask mask_eq_exp_minus_1)

lemma bumped_unat:
  "bumped st st' \<longleftrightarrow> unat (ts_mailbox_version st) < unat (ts_mailbox_version st')
    \<or> unat (ts_mailbox_version st) = 2 ^ 64 - 1 \<and> unat (ts_mailbox_version st') = 2 ^ 64 - 1"
  by (simp only: bumped_def saturated_unat word_less_nat_alt)

lemma unat_version_le: "unat (ts_mailbox_version st) \<le> 2 ^ 64 - 1"
  using unat_le_max [of "ts_mailbox_version st"] by simp

lemma bump_bumped: "bumped st (bump_mailbox_version st)"
  using unat_version_le [of st] by (auto simp: bumped_unat bump_mailbox_version_def unat_saturating_add)

lemma bumped_not_behind: "bumped st st' \<Longrightarrow> not_behind st st'"
  by (auto simp: bumped_unat not_behind_def word_le_nat_alt)

lemma not_behind_refl [simp]: "not_behind st st"
  by (simp add: not_behind_def)

lemma bumped_trans:
  "bumped st st' \<Longrightarrow> not_behind st' st'' \<Longrightarrow> bumped st st''"
  "not_behind st st' \<Longrightarrow> bumped st' st'' \<Longrightarrow> bumped st st''"
  using unat_version_le [of st''] unat_version_le [of st'] by (auto simp: bumped_unat not_behind_def word_le_nat_alt)

lemma version_cong:
  "ts_mailbox_version st' = ts_mailbox_version st'' \<Longrightarrow> bumped st st' = bumped st st''"
  "ts_mailbox_version st' = ts_mailbox_version st'' \<Longrightarrow> bumped st' st = bumped st'' st"
  by (simp_all add: bumped_unat)

lemma expire_version:
  "ts_messages (expire_messages now st) = ts_messages st \<and> expire_messages now st = st
   \<or> bumped st (expire_messages now st)"
proof (cases "list_ex (expires_now now) (ts_messages st)")
  case True
  have "bumped (st\<lparr>ts_messages := ms\<rparr>) (bump_mailbox_version (st\<lparr>ts_messages := ms\<rparr>))" for ms
    by (rule bump_bumped)
  then show ?thesis using True
    by (simp add: expire_messages_def version_cong(2) [of "st\<lparr>ts_messages := _\<rparr>" st])
next
  case False
  then have "map (\<lambda>m. if expires_now now m then m\<lparr>sm_ack_state := Ack_Expired\<rparr> else m) (ts_messages st) = ts_messages st"
    by (auto simp: list_ex_iff intro!: map_idI)
  with False show ?thesis by (simp add: expire_messages_def)
qed

text \<open>A step of the mailbox: any of its operations, by any thread.\<close>

inductive mail_step :: "team_state \<Rightarrow> team_state \<Rightarrow> bool" where
  mail_post: "mail_step st (snd (post_message e a st))"
| mail_read: "mail_step st (snd (read_messages e r unread st))"
| mail_peek: "mail_step st (snd (peek_messages e r unread st))"
| mail_claim: "mail_step st (snd (claim_queue_messages e c q n st))"
| mail_ack: "mail_step st (snd (ack_message e a mid st))"

inductive_cases mail_stepE: "mail_step st st'"

definition watched :: "team_state \<Rightarrow> team_state \<Rightarrow> bool" where
  "watched st st' \<longleftrightarrow> not_behind st st' \<and> (ts_messages st' \<noteq> ts_messages st \<longrightarrow> bumped st st')"

lemma watched_cases:
  assumes "ts_messages s2 = ts_messages s1 \<and> ts_mailbox_version s2 = ts_mailbox_version s1 \<or> bumped s1 s2"
    and "ts_messages s1 = ts_messages st \<and> s1 = st \<or> bumped st s1"
  shows "watched st s2"
  using assms bumped_not_behind bumped_trans
  by (metis not_behind_def not_behind_refl version_cong(1) watched_def)

lemma update_first_None: "update_first P f xs = None \<longleftrightarrow> (\<forall>x \<in> set xs. \<not> P x)"
  by (induction xs) auto

lemma bump_after: "ts_mailbox_version s' = ts_mailbox_version s \<Longrightarrow> bumped s (bump_mailbox_version s')"
  using bump_bumped [of s'] by (simp add: bumped_unat)

lemma claim_indexes_none: "claim_indexes c idx ms = ([], ms') \<Longrightarrow> ms' = ms"
  by (induction idx arbitrary: ms) (auto simp: Let_def case_prod_beta split: if_splits)

lemma mail_step_watched: "mail_step st st' \<Longrightarrow> watched st st'"
proof (induction rule: mail_step.induct)
  case (mail_post st e a)
  show ?case
    by (rule watched_cases [OF _ expire_version [of "env_clock e 0"]])
       (simp add: post_message_def Let_def bump_after)
next
  case (mail_claim st e c q n)
  show ?case
    by (rule watched_cases [OF _ expire_version [of "env_clock e 0"]])
       (auto simp: claim_queue_messages_def Let_def bump_after dest: claim_indexes_none split: prod.split)
next
  case (mail_ack st e a mid)
  show ?case
    by (rule watched_cases [OF _ expire_version [of "env_clock e 0"]])
       (auto simp: ack_message_def Let_def bump_after split: option.split)
next
  case (mail_read st e r unread)
  have "map (\<lambda>m. if reads now r unread m then mark_seen_by r m else m) ms = ms"
    if "\<not> list_ex (\<lambda>m. r \<notin> set (sm_seen_by m)) (filter (reads now r unread) ms)" for now ms
    using that by (auto simp: list_ex_iff mark_seen_same intro!: map_idI)
  then show ?case
    by (intro watched_cases [OF _ expire_version [of "env_clock e 0"]])
       (auto simp: read_messages_def collect_messages_def Let_def bump_after)
next
  case (mail_peek st e r unread)
  show ?case
    by (rule watched_cases [OF _ expire_version [of "env_clock e 0"]])
       (simp add: peek_messages_def collect_messages_def Let_def)
qed

text \<open>Every operation of the mailbox that changes a stored message raises the mailbox
  version (or finds it at its maximum), and none lowers it, so that an agent that waits for
  a new version misses no change.\<close>

theorem mailbox_change_seen:
  assumes "mail_step st st'"
  shows "ts_mailbox_version st \<le> ts_mailbox_version st'
    \<and> (ts_messages st' = ts_messages st \<or> ts_mailbox_version st < ts_mailbox_version st'
       \<or> ts_mailbox_version st = - 1 \<and> ts_mailbox_version st' = - 1)"
  using mail_step_watched [OF assms]
  by (auto simp: watched_def not_behind_def bumped_def saturated_def)

section \<open>Queues\<close>

lemma claim_indexes_eq:
  assumes "distinct idx" and "\<forall>i \<in> set idx. i < length ms"
  shows "claim_indexes c idx ms = (map (\<lambda>i. to_team_message c (claim_message c (ms ! i))) idx,
    map (\<lambda>(i, m). if i \<in> set idx then claim_message c m else m) (List.enumerate 0 ms))"
  using assms
proof (induction idx arbitrary: ms)
  case Nil
  show ?case by (simp add: case_prod_beta flip: zip_map_fst_snd)
next
  case (Cons j idx)
  let ?ms = "ms[j := claim_message c (ms ! j)]"
  have "map (\<lambda>(i, m). if i \<in> set idx then claim_message c m else m) (List.enumerate 0 ?ms)
      = map (\<lambda>(i, m). if i \<in> set (j # idx) then claim_message c m else m) (List.enumerate 0 ms)"
    using Cons.prems by (intro nth_equalityI) (auto simp: nth_enumerate_eq nth_list_update)
  moreover have "map (\<lambda>i. to_team_message c (claim_message c (?ms ! i))) idx
      = map (\<lambda>i. to_team_message c (claim_message c (ms ! i))) idx"
    using Cons.prems by (intro map_cong refl) (auto simp: nth_list_update)
  ultimately show ?case using Cons.IH [of ?ms] Cons.prems by (simp add: Let_def)
qed

lemma eligible_facts:
  "distinct (eligible_indexes now q ms)"
  "i \<in> set (eligible_indexes now q ms) \<longleftrightarrow> i < length ms \<and> claimable_from now q (ms ! i)"
proof -
  let ?f = "filter (\<lambda>(index, m). claimable_from now q m) (List.enumerate 0 ms)"
  let ?s = "sort_key (\<lambda>(index, m). (- int (message_priority_rank (sm_priority m)), sm_created_at m)) ?f"
  have "distinct (map fst ?f)" by (rule distinct_map_filter) (simp add: enumerate_eq_zip)
  then have "distinct (map fst ?s)"
    by (simp add: distinct_map)
  then show "distinct (eligible_indexes now q ms)" by (simp add: eligible_indexes_def)
  show "i \<in> set (eligible_indexes now q ms) \<longleftrightarrow> i < length ms \<and> claimable_from now q (ms ! i)"
    by (force simp: eligible_indexes_def in_set_enumerate_eq image_iff)
qed

lemma nth_messages_expire:
  "i < length (ts_messages st) \<Longrightarrow>
     sm_claimed_by_thread_id (ts_messages (expire_messages now st) ! i) = sm_claimed_by_thread_id (ts_messages st ! i)"
  by (simp add: messages_expire)

lemma length_filter_enumerate:
  "length (filter (\<lambda>(i, m). P m) (List.enumerate n ms)) = length (filter P ms)"
  by (induction ms arbitrary: n) auto

text \<open>\<open>claim_queue_messages\<close> gives its caller at most \<open>limit\<close> messages, all of them of the
  queue, unexpired and so far unclaimed, and all such messages if the limit allows; exactly
  these become claimed by the caller, and a claimed message is never taken over.\<close>

theorem claim_queue_spec:
  assumes run: "claim_queue_messages e c q limit st = (out, st')"
  shows "\<exists>chosen. length out = length chosen \<and> distinct chosen
    \<and> length chosen = min limit (length (filter (claimable_from (env_clock e 1) q)
        (ts_messages (expire_messages (env_clock e 0) st))))
    \<and> (\<forall>i < length (ts_messages st).
         (if i \<in> set chosen
          then claimable_from (env_clock e 1) q (ts_messages (expire_messages (env_clock e 0) st) ! i)
            \<and> sm_claimed_by_thread_id (ts_messages st ! i) = None
            \<and> sm_claimed_by_thread_id (ts_messages st' ! i) = Some c
          else sm_claimed_by_thread_id (ts_messages st' ! i) = sm_claimed_by_thread_id (ts_messages st ! i)))"
proof (intro exI conjI)
  let ?now = "env_clock e 1"
  let ?ms = "ts_messages (expire_messages (env_clock e 0) st)"
  let ?el = "eligible_indexes ?now q ?ms"
  let ?chosen = "take limit ?el"
  note el = eligible_facts [where now = ?now and q = q and ms = ?ms]
  have sub: "i < length ?ms \<and> claimable_from ?now q (?ms ! i)" if "i \<in> set ?chosen" for i
    using that el(2) in_set_takeD by metis
  have dist: "distinct ?chosen" using el(1) by simp
  have len: "length ?ms = length (ts_messages st)" by (simp add: messages_expire)
  have claim: "claim_indexes c ?chosen ?ms
    = (map (\<lambda>i. to_team_message c (claim_message c (?ms ! i))) ?chosen,
       map (\<lambda>(i, m). if i \<in> set ?chosen then claim_message c m else m) (List.enumerate 0 ?ms))"
    using claim_indexes_eq [OF dist] sub by blast
  have out: "out = map (\<lambda>i. to_team_message c (claim_message c (?ms ! i))) ?chosen"
    and ms': "ts_messages st' = map (\<lambda>(i, m). if i \<in> set ?chosen then claim_message c m else m) (List.enumerate 0 ?ms)"
    using run by (auto simp: claim_queue_messages_def Let_def claim [simplified] split: if_splits)
  show "length out = length ?chosen" by (simp add: out)
  show "distinct ?chosen" by (rule dist)
  have "length ?el = length (filter (\<lambda>(index, m). claimable_from ?now q m) (List.enumerate 0 ?ms))"
    by (simp add: eligible_indexes_def)
  also have "\<dots> = length (filter (claimable_from ?now q) (map snd (List.enumerate 0 ?ms)))"
    by (simp add: length_filter_enumerate)
  finally show "length ?chosen = min limit (length (filter (claimable_from ?now q) ?ms))" by simp
  show "\<forall>i < length (ts_messages st). (if i \<in> set ?chosen
      then claimable_from ?now q (?ms ! i) \<and> sm_claimed_by_thread_id (ts_messages st ! i) = None
        \<and> sm_claimed_by_thread_id (ts_messages st' ! i) = Some c
      else sm_claimed_by_thread_id (ts_messages st' ! i) = sm_claimed_by_thread_id (ts_messages st ! i))"
  proof (intro allI impI)
    fix i assume i: "i < length (ts_messages st)"
    have at: "ts_messages st' ! i = (if i \<in> set ?chosen then claim_message c (?ms ! i) else ?ms ! i)"
      using i len by (simp add: ms' nth_enumerate_eq)
    have same: "sm_claimed_by_thread_id (?ms ! i) = sm_claimed_by_thread_id (ts_messages st ! i)"
      using nth_messages_expire i by blast
    show "if i \<in> set ?chosen
      then claimable_from ?now q (?ms ! i) \<and> sm_claimed_by_thread_id (ts_messages st ! i) = None
        \<and> sm_claimed_by_thread_id (ts_messages st' ! i) = Some c
      else sm_claimed_by_thread_id (ts_messages st' ! i) = sm_claimed_by_thread_id (ts_messages st ! i)"
      using sub [of i] same by (auto simp: at claim_message_def claimable_from_def)
  qed
qed

section \<open>Acknowledging\<close>

lemma update_first_Some:
  "update_first P f xs = Some (y, ys) \<Longrightarrow>
     \<exists>us x vs. xs = us @ x # vs \<and> (\<forall>u \<in> set us. \<not> P u) \<and> P x \<and> y = f x \<and> ys = us @ f x # vs"
proof (induction xs arbitrary: y ys)
  case (Cons x xs)
  show ?case
  proof (cases "P x")
    case True
    with Cons.prems show ?thesis by (intro exI [of _ "[]"]) auto
  next
    case False
    with Cons.prems obtain ys' where u: "update_first P f xs = Some (y, ys')" and ys: "ys = x # ys'" by auto
    from Cons.IH [OF u] obtain us z vs where "xs = us @ z # vs" "\<forall>u \<in> set us. \<not> P u" "P z" "y = f z" "ys' = us @ f z # vs"
      by blast
    with False ys show ?thesis by (intro exI [of _ "x # us"] exI [of _ z] exI [of _ vs]) auto
  qed
qed simp

lemma ack_stored:
  assumes "ack_message e a mid st = (Some m, st')"
  shows "\<exists>us x vs. ts_messages (expire_messages (env_clock e 0) st) = us @ x # vs \<and> sm_id x = mid
    \<and> can_ack a x \<and> sm_ack_state x = Ack_Pending \<and> m = to_team_message a (acknowledge (env_clock e 1) a x)
    \<and> ts_messages st' = us @ acknowledge (env_clock e 1) a x # vs"
proof -
  let ?P = "\<lambda>m. sm_id m = mid \<and> can_ack a m \<and> sm_ack_state m = Ack_Pending"
  let ?f = "acknowledge (env_clock e 1) a"
  obtain y ys where u: "update_first ?P ?f (ts_messages (expire_messages (env_clock e 0) st)) = Some (y, ys)"
      and "m = to_team_message a y" and "ts_messages st' = ys"
    using assms by (auto simp: ack_message_def Let_def split: option.splits)
  with update_first_Some [OF u] show ?thesis by blast
qed

lemma acknowledge_sel [simp]:
  "sm_id (acknowledge now a m) = sm_id m" "sm_ack_state (acknowledge now a m) = Ack_Acknowledged"
  "sm_kind (acknowledge now a m) = sm_kind m"
  "sm_acknowledged_by_thread_id (acknowledge now a m) = Some a"
  by (simp_all add: acknowledge_def mark_seen_by_def)

text \<open>Only the addressee of a pending message (for a queue message, the thread that
  claimed it) can acknowledge it, the acknowledgement is recorded under its name, and no
  second acknowledgement by anybody at any time succeeds.\<close>

theorem ack_once:
  assumes ids: "distinct (map sm_id (ts_messages st))" and run: "ack_message e a mid st = (Some m, st')"
  shows "(\<exists>x \<in> set (ts_messages (expire_messages (env_clock e 0) st)).
        sm_id x = mid \<and> can_ack a x \<and> sm_ack_state x = Ack_Pending)
    \<and> (\<exists>y \<in> set (ts_messages st'). sm_id y = mid \<and> sm_acknowledged_by_thread_id y = Some a)
    \<and> fst (ack_message e' a' mid st') = None"
proof -
  obtain us x vs where at: "ts_messages (expire_messages (env_clock e 0) st) = us @ x # vs"
    and x: "sm_id x = mid" "can_ack a x" "sm_ack_state x = Ack_Pending"
    and st': "ts_messages st' = us @ acknowledge (env_clock e 1) a x # vs"
    using ack_stored [OF run] by blast
  have "map sm_id (ts_messages (expire_messages (env_clock e 0) st)) = map sm_id (ts_messages st)"
    by (simp add: messages_expire)
  with ids at have "distinct (map sm_id (us @ x # vs))" by metis
  with x(1) have others: "\<forall>y \<in> set us \<union> set vs. sm_id y \<noteq> mid" by (auto simp: image_iff)
  have "fst (ack_message e' a' mid st') = None"
  proof (rule ccontr)
    assume "fst (ack_message e' a' mid st') \<noteq> None"
    then obtain m' st'' where "ack_message e' a' mid st' = (Some m', st'')"
      by (cases "ack_message e' a' mid st'") auto
    from ack_stored [OF this] obtain z where z: "z \<in> set (ts_messages (expire_messages (env_clock e' 0) st'))"
      "sm_id z = mid" "sm_ack_state z = Ack_Pending" by fastforce
    then obtain w where "w \<in> set (ts_messages st')" "sm_id w = mid" "sm_ack_state w = Ack_Pending"
      by (auto simp: messages_expire split: if_splits)
    with others show False by (auto simp: st')
  qed
  with at x st' show ?thesis by auto
qed

section \<open>Reading\<close>

text \<open>After \<open>read_messages\<close> the reader has no unread message, at that time or later,
  whether it asked for all messages or for the unread ones; peeking leaves the counter as
  it was.\<close>

theorem read_clears_unread:
  assumes "env_clock e 1 \<le> now"
  shows "unread_count_for now r (snd (read_messages e r unread st)) = 0
    \<and> unread_count_for now r (snd (peek_messages e r unread st)) = unread_count_for now r st"
proof
  let ?seen = "\<lambda>m. if reads (env_clock e 1) r unread m then mark_seen_by r m else m"
  have "\<not> (is_visible_to r (?seen m) \<and> \<not> is_expired now (?seen m) \<and> r \<notin> set (sm_seen_by (?seen m)))" for m
    using assms is_expired_mono [of "env_clock e 1" m now] by (auto simp: reads_def)
  then have "filter (\<lambda>m. is_visible_to r m \<and> \<not> is_expired now m \<and> r \<notin> set (sm_seen_by m)) (map ?seen ms) = []" for ms
    by (simp only: filter_empty_conv set_map) blast
  then show "unread_count_for now r (snd (read_messages e r unread st)) = 0"
    by (simp add: unread_count_for_def read_messages_def collect_messages_def Let_def)
  let ?x = "\<lambda>m. if expires_now (env_clock e 0) m then m\<lparr>sm_ack_state := Ack_Expired\<rparr> else m"
  have same: "is_visible_to r (?x m) = is_visible_to r m" "is_expired now (?x m) = is_expired now m"
    "sm_seen_by (?x m) = sm_seen_by m" for m
    by (auto simp: is_visible_to_def is_expired_def split: option.split team_message_kind.split)
  have "length (filter (\<lambda>m. is_visible_to r m \<and> \<not> is_expired now m \<and> r \<notin> set (sm_seen_by m)) (map ?x ms))
      = length (filter (\<lambda>m. is_visible_to r m \<and> \<not> is_expired now m \<and> r \<notin> set (sm_seen_by m)) ms)" for ms
    by (induction ms) (auto simp: same simp del: if_distrib)
  then show "unread_count_for now r (snd (peek_messages e r unread st)) = unread_count_for now r st"
    by (simp add: unread_count_for_def peek_messages_def collect_messages_def Let_def messages_expire)
qed

section \<open>Plans\<close>

text \<open>Deciding a plan blocks or frees its author and nobody else: after the decision a
  thread is held back exactly if it has a plan that needs approval and is rejected now, or
  another such plan that is still pending or rejected.\<close>

theorem decide_plan_gates:
  assumes "hm_wf (ts_plans st)"
  shows "requires_plan_approval th (snd (decide_plan e pid rv ok note st)) \<longleftrightarrow>
     (\<exists>k p. hm_get (ts_plans st) k = Some p \<and> tp_author_thread_id p = th \<and> tp_requires_approval p
       \<and> (if k = pid then \<not> ok else tp_status p \<in> {Plan_PendingApproval, Plan_Rejected}))"
proof -
  let ?st' = "snd (decide_plan e pid rv ok note st)"
  have get: "hm_get (ts_plans ?st') k = (if k = pid
      then map_option (decide_fields (env_clock e 0) rv ok note) (hm_get (ts_plans st) k)
      else hm_get (ts_plans st) k)" for k
    by (auto simp: decide_plan_def Let_def get_hm_modify)
  have "hm_wf (ts_plans ?st')" using assms by (simp add: decide_plan_def Let_def del: map_map)
  then have "requires_plan_approval th ?st' \<longleftrightarrow> (\<exists>k p. hm_get (ts_plans ?st') k = Some p
      \<and> tp_author_thread_id p = th \<and> tp_requires_approval p
      \<and> (tp_status p = Plan_PendingApproval \<or> tp_status p = Plan_Rejected))"
    by (force simp: requires_plan_approval_def list_ex_iff map_of_eq_Some_iff)
  then show ?thesis
    unfolding get by (auto simp: decide_fields_def split: if_splits) (metis+)?
qed

section \<open>The properties at work\<close>

definition mail_env :: "nat \<Rightarrow> env" where
  "mail_env n = \<lparr>env_clock = (\<lambda>i. int (n + i)), env_uuid = (\<lambda>i. replicate (n + i) CHR ''m''), env_glob = (=)\<rparr>"

definition queued :: post_args where
  "queued = \<lparr>pa_sender_thread_id = ''root'', pa_recipient_thread_id = None, pa_kind = Msg_Queue,
     pa_route_key = Some ''q'', pa_delivery_mode = Delivery_DurableMail, pa_priority = Prio_Normal,
     pa_correlation_id = None, pa_task_id = None, pa_message = ''work'', pa_expires_at = None\<rparr>"

definition mail_posted :: team_state where
  "mail_posted = snd (post_message (mail_env 1) queued empty_team_state)"

definition mail_claimed :: team_state where
  "mail_claimed = snd (claim_queue_messages (mail_env 5) ''a'' ''q'' 3 mail_posted)"

theorem mailbox_change_seen_witness: "ts_mailbox_version empty_team_state < ts_mailbox_version mail_posted"
proof -
  have "mail_step empty_team_state mail_posted" unfolding mail_posted_def by (rule mail_post)
  moreover have "ts_messages mail_posted \<noteq> ts_messages empty_team_state"
    "ts_mailbox_version empty_team_state \<noteq> - 1" by code_simp+
  ultimately show ?thesis using mailbox_change_seen by blast
qed

theorem claim_queue_spec_witness:
  "length (fst (claim_queue_messages (mail_env 5) ''a'' ''q'' 3 mail_posted)) = 1"
proof -
  have "length (filter (claimable_from (env_clock (mail_env 5) 1) ''q'')
      (ts_messages (expire_messages (env_clock (mail_env 5) 0) mail_posted))) = 1" by code_simp
  with claim_queue_spec [of "mail_env 5" "''a''" "''q''" 3 mail_posted
      "fst (claim_queue_messages (mail_env 5) ''a'' ''q'' 3 mail_posted)" mail_claimed]
  show ?thesis by (auto simp: mail_claimed_def)
qed

theorem ack_once_witness:
  "fst (ack_message (mail_env 9) ''b'' ''m'' (snd (ack_message (mail_env 7) ''a'' ''m'' mail_claimed))) = None"
proof -
  have "fst (ack_message (mail_env 7) ''a'' ''m'' mail_claimed) \<noteq> None"
    and ids: "distinct (map sm_id (ts_messages mail_claimed))" by code_simp+
  then obtain m where "ack_message (mail_env 7) ''a'' ''m'' mail_claimed
      = (Some m, snd (ack_message (mail_env 7) ''a'' ''m'' mail_claimed))"
    by (cases "ack_message (mail_env 7) ''a'' ''m'' mail_claimed") auto
  from ack_once [OF ids this] show ?thesis by blast
qed

theorem read_clears_unread_witness:
  "unread_count_for 100 ''a'' (snd (read_messages (mail_env 7) ''a'' True mail_claimed)) = 0"
  using read_clears_unread [of "mail_env 7" 100 "''a''" True mail_claimed] by (simp add: mail_env_def)

theorem decide_plan_gates_witness:
  "requires_plan_approval ''a'' (snd (decide_plan (mail_env 3) ''m'' ''root'' False None
     (snd (submit_plan (mail_env 1) ''a'' ''summary'' [] True None empty_team_state))))"
  by (subst decide_plan_gates) (code_simp, simp add: submit_plan_def Let_def empty_team_state_def mail_env_def)

end
