(* ===== verification/TeamSnapshot.thy ===== *)
theory TeamSnapshot
  imports TeamOwnership TeamMail
begin

text \<open>
  What a client sees of a team (\<open>TeamState::snapshot\<close>): the members with their last known
  state, the board, the plans, the unread counters, the latest messages and the leases; and
  the data of workflows, which a snapshot carries unchanged.
\<close>

section \<open>Data\<close>

datatype collab_agent_lifecycle = LC_PendingInit | LC_Ready | LC_Busy | LC_Error | LC_Shutdown | LC_NotFound

datatype collab_turn_outcome = TO_NoneYet | TO_Succeeded | TO_Errored | TO_Interrupted

record collab_agent_wait_state =
  cw_lifecycle :: collab_agent_lifecycle
  cw_turn_outcome :: collab_turn_outcome
  cw_last_turn_summary :: "string option"
  cw_attention_reason :: "string option"
  cw_pending_wake_count :: nat

definition default_wait_state :: collab_agent_wait_state where
  "default_wait_state = \<lparr>cw_lifecycle = LC_PendingInit, cw_turn_outcome = TO_NoneYet,
     cw_last_turn_summary = None, cw_attention_reason = None, cw_pending_wake_count = 0\<rparr>"

text \<open>The part of \<open>ThreadInfo\<close> that a snapshot reads.\<close>

record snapshot_thread =
  sn_thread_id :: string
  sn_nickname :: "string option"
  sn_role :: string
  sn_task :: string
  sn_depth :: nat

record team_member =
  mb_thread_id :: string
  mb_nickname :: "string option"
  mb_role :: string
  mb_task :: string
  mb_depth :: nat
  mb_state :: collab_agent_wait_state

datatype workflow_run_status = Run_Pending | Run_Active | Run_WaitingApproval | Run_Completed | Run_Failed | Run_Canceled

datatype workflow_step_status = Step_Pending | Step_InProgress | Step_Completed | Step_Blocked | Step_Failed | Step_Skipped

datatype workflow_approval_status = Approval_NotRequested | Approval_Pending | Approval_Approved | Approval_Rejected

record workflow_approval_state =
  wa_status :: workflow_approval_status
  wa_requested_by_thread_id :: "string option"
  wa_reviewer_thread_id :: "string option"
  wa_note :: "string option"
  wa_updated_at :: int

record workflow_step_state =
  ws_id :: string
  ws_title :: string
  ws_details :: "string option"
  ws_status :: workflow_step_status
  ws_assigned_thread_id :: "string option"
  ws_updated_at :: int

record workflow_artifact =
  wf_id :: string
  wf_kind :: string
  wf_label :: string
  wf_content :: string
  wf_created_by_thread_id :: "string option"
  wf_created_at :: int

record workflow_run =
  wr_id :: string
  wr_workflow_name :: string
  wr_title :: string
  wr_owner_thread_id :: string
  wr_status :: workflow_run_status
  wr_resume_token :: "string option"
  wr_current_step_id :: "string option"
  wr_steps :: "workflow_step_state list"
  wr_artifacts :: "workflow_artifact list"
  wr_approval :: workflow_approval_state
  wr_created_at :: int
  wr_updated_at :: int

record workflow_runtime_snapshot =
  wx_root_thread_id :: string
  wx_runs :: "workflow_run list"

record team_snapshot =
  sp_root_thread_id :: string
  sp_members :: "team_member list"
  sp_tasks :: "team_task list"
  sp_task_edges :: "task_edge list"
  sp_plans :: "team_plan list"
  sp_unread_counts :: "(string, nat) hashmap"
  sp_mailbox_version :: u64
  sp_recent_messages :: "team_message list"
  sp_ownership_leases :: "ownership_lease list"
  sp_workflow :: "workflow_runtime_snapshot option"

section \<open>The snapshot\<close>

definition scopes_with_access :: "scope_request list \<Rightarrow> ownership_access_mode \<Rightarrow> scope_request list" where
  "scopes_with_access scopes access =
     map (\<lambda>scope. \<lparr>sr_kind = sr_kind scope, sr_path = sr_path scope, sr_access = access,
       sr_reason = sr_reason scope\<rparr>) scopes"

definition member_of :: "(string, collab_agent_wait_state) hashmap \<Rightarrow> snapshot_thread \<Rightarrow> team_member" where
  "member_of statuses thread =
     \<lparr>mb_thread_id = sn_thread_id thread, mb_nickname = sn_nickname thread, mb_role = sn_role thread,
      mb_task = sn_task thread, mb_depth = sn_depth thread,
      mb_state = (case hm_get statuses (sn_thread_id thread) of Some s \<Rightarrow> s | None \<Rightarrow> default_wait_state)\<rparr>"

text \<open>The clock is read once for the recomputation, once per member and once for the messages.\<close>

definition snapshot ::
  "env \<Rightarrow> string \<Rightarrow> snapshot_thread list \<Rightarrow> (string, collab_agent_wait_state) hashmap
     \<Rightarrow> workflow_runtime_snapshot option \<Rightarrow> team_state \<Rightarrow> team_snapshot \<times> team_state" where
  "snapshot e root_thread_id threads statuses run_state st =
     (let st1 = recompute_task_graph (env_glob e) (env_clock e 0) st;
          members = map (member_of statuses) threads;
          tasks = sorted_tasks st1;
          plans = sorted_plans st1;
          unread_counts = foldl (\<lambda>m (i, member). hm_insert (mb_thread_id member)
              (unread_count_for (env_clock e (1 + i)) (mb_thread_id member) st1) m)
            [] (List.enumerate 0 members);
          recent_messages = sorted_recent_messages (env_clock e (1 + length members)) root_thread_id 12 st1;
          ownership_leases = sorted_ownership_leases st1
      in (\<lparr>sp_root_thread_id = root_thread_id, sp_members = members, sp_tasks = tasks,
           sp_task_edges = sorted_task_edges st1, sp_plans = plans, sp_unread_counts = unread_counts,
           sp_mailbox_version = ts_mailbox_version st1, sp_recent_messages = recent_messages,
           sp_ownership_leases = ownership_leases, sp_workflow = run_state\<rparr>, st1))"

section \<open>Properties\<close>

lemma keyed_keys:
  "hm_wf m \<Longrightarrow> (\<And>k v. hm_get m k = Some v \<Longrightarrow> f v = k) \<Longrightarrow> map f (hm_values m) = hm_keys m"
  by (auto intro!: map_cong dest: in_set_getD)

text \<open>A snapshot shows the whole board and nothing else: its tasks are those of the state,
  by creation time, each shown ready exactly when it is pending, unblocked and its
  dependencies are completed and no other thread's lease stands in its way; its edges and
  leases only mention tasks it shows; and it shows at most twelve messages.\<close>

theorem snapshot_shows_board:
  assumes "team_inv g st" and "g = env_glob e" and "snapshot e root threads statuses runs st = (s, st')"
  shows "set (sp_tasks s) = set (hm_values (ts_tasks st')) \<and> sorted (map tn_created_at (sp_tasks s))
    \<and> (\<forall>t \<in> set (sp_tasks s). hm_get (ts_tasks st') (tn_id t) = Some t
         \<and> (tn_ready_state t = Ready_Ready \<longleftrightarrow> tn_status t = Task_Pending \<and> no_manual_blocker t
              \<and> dependencies_completed st' (tn_id t) \<and> lease_free g st' (tn_id t) (requester t)))
    \<and> (\<forall>edge \<in> set (sp_task_edges s). te_from_task_id edge \<in> tn_id ` set (sp_tasks s)
         \<and> te_to_task_id edge \<in> tn_id ` set (sp_tasks s))
    \<and> (\<forall>l \<in> set (sp_ownership_leases s). ol_task_id l \<in> tn_id ` set (sp_tasks s))
    \<and> length (sp_recent_messages s) \<le> 12"
proof -
  have st': "st' = recompute_task_graph (env_glob e) (env_clock e 0) st"
    and tasks: "sp_tasks s = sorted_tasks st'" and edges: "sp_task_edges s = sorted_task_edges st'"
    and leases: "sp_ownership_leases s = sorted_ownership_leases st'"
    and msgs: "length (sp_recent_messages s) \<le> 12"
    using assms(3) by (auto simp: snapshot_def Let_def sorted_recent_messages_def simp del: recompute_simps)
  have inv: "team_inv g st'" unfolding st' using assms(1,2) by (simp add: recompute_inv team_inv_base)
  have keys: "team_keys st'" using inv by (simp add: team_inv_def team_base_def)
  then have wf: "hm_wf (ts_tasks st')" and id: "\<And>k t. hm_get (ts_tasks st') k = Some t \<Longrightarrow> tn_id t = k"
    unfolding team_keys_def by blast+
  have get: "hm_get (ts_tasks st') (tn_id t) = Some t" if "t \<in> set (hm_values (ts_tasks st'))" for t
    by (rule keyed_values [OF wf id that])
  have "map tn_id (hm_values (ts_tasks st')) = hm_keys (ts_tasks st')" by (rule keyed_keys [OF wf id])
  then have ids: "tn_id ` set (hm_values (ts_tasks st')) = set (hm_keys (ts_tasks st'))"
    by (metis list.set_map)
  have closed: "team_closed st'" and board: "board_current g st'" using inv by (auto simp: team_inv_def)
  have all: "set (sp_tasks s) = set (hm_values (ts_tasks st'))"
    unfolding tasks sorted_tasks_def by (rule sort_key_set)
  show ?thesis
  proof (intro conjI ballI all msgs)
    show "sorted (map tn_created_at (sp_tasks s))" by (simp add: tasks sorted_tasks_def)
    fix t assume "t \<in> set (sp_tasks s)"
    then show at: "hm_get (ts_tasks st') (tn_id t) = Some t" unfolding all by (rule get)
    show "tn_ready_state t = Ready_Ready \<longleftrightarrow> tn_status t = Task_Pending \<and> no_manual_blocker t
        \<and> dependencies_completed st' (tn_id t) \<and> lease_free g st' (tn_id t) (requester t)"
      using board at unfolding board_current_def by blast
  next
    fix edge assume "edge \<in> set (sp_task_edges s)"
    then have "edge \<in> set (ts_task_edges st')" by (simp add: edges sorted_task_edges_def)
    with closed show "te_from_task_id edge \<in> tn_id ` set (sp_tasks s)" "te_to_task_id edge \<in> tn_id ` set (sp_tasks s)"
      unfolding all ids team_closed_def by blast+
  next
    fix l assume "l \<in> set (sp_ownership_leases s)"
    then have "l \<in> set (hm_values (ts_ownership_leases st'))" unfolding leases by (simp only: set_sorted_leases)
    with closed show "ol_task_id l \<in> tn_id ` set (sp_tasks s)"
      unfolding all ids team_closed_def by blast
  qed
qed

theorem snapshot_shows_board_witness:
  "length (sp_recent_messages (fst (snapshot demo_env ''root'' [] [] None empty_team_state))) \<le> 12"
  using snapshot_shows_board [of "(=)" empty_team_state demo_env "''root''" "[]" "[]" None
      "fst (snapshot demo_env ''root'' [] [] None empty_team_state)"
      "snd (snapshot demo_env ''root'' [] [] None empty_team_state)"]
  by (simp add: empty_inv demo_env_def)

section \<open>What operations leave alone\<close>

text \<open>
  What the operations of the board leave alone: the plans, the messages and the version of the
  mailbox. And what the operations of the mailbox leave alone: the plans.
\<close>

definition keeps_mail :: "team_state \<Rightarrow> team_state \<Rightarrow> bool" where
  "keeps_mail st st' \<longleftrightarrow> ts_plans st' = ts_plans st \<and> ts_messages st' = ts_messages st
     \<and> ts_mailbox_version st' = ts_mailbox_version st"

named_theorems frame_rules

lemma keeps_mail_refl [simp, intro]: "keeps_mail st st"
  by (simp add: keeps_mail_def)

lemma keeps_mail_trans: "keeps_mail st st1 \<Longrightarrow> keeps_mail st1 st2 \<Longrightarrow> keeps_mail st st2"
  by (simp add: keeps_mail_def)

text \<open>Updates of the other fields, and the recomputation of the board.\<close>

lemma keeps_mail_simps [simp]:
  "keeps_mail st (st1\<lparr>ts_tasks := a\<rparr>) = keeps_mail st st1"
  "keeps_mail st (st1\<lparr>ts_task_edges := b\<rparr>) = keeps_mail st st1"
  "keeps_mail st (st1\<lparr>ts_task_scope_memory := c\<rparr>) = keeps_mail st st1"
  "keeps_mail st (st1\<lparr>ts_ownership_leases := d\<rparr>) = keeps_mail st st1"
  "keeps_mail st (recompute_task_graph g now st1) = keeps_mail st st1"
  "keeps_mail (st\<lparr>ts_tasks := a\<rparr>) st1 = keeps_mail st st1"
  "keeps_mail (st\<lparr>ts_task_edges := b\<rparr>) st1 = keeps_mail st st1"
  "keeps_mail (st\<lparr>ts_task_scope_memory := c\<rparr>) st1 = keeps_mail st st1"
  "keeps_mail (st\<lparr>ts_ownership_leases := d\<rparr>) st1 = keeps_mail st st1"
  "keeps_mail (recompute_task_graph g now st) st1 = keeps_mail st st1"
  by (simp_all add: keeps_mail_def)

lemma keeps_touch [simp]: "keeps_mail st (touch_task now k st1) = keeps_mail st st1"
  by (simp add: touch_task_def)

lemma keeps_insert_lease [simp]: "keeps_mail st (insert_lease l st1) = keeps_mail st st1"
  by (simp add: insert_lease_def)

lemma frame_remember [simp]:
  "keeps_mail st (remember_task_scopes k ss st1) = keeps_mail st st1"
  "keeps_mail st (remember_task_scopes_from_task k st1) = keeps_mail st st1"
  by (simp_all add: remember_task_scopes_def remember_task_scopes_from_task_def Let_def split: option.split)

lemma keeps_remove_leases:
  "(\<And>l s. keeps_mail st (act l s) = keeps_mail st s) \<Longrightarrow> keeps_mail st (snd (remove_leases act ids st1)) = keeps_mail st st1"
  by (induction ids arbitrary: st1) (auto split: option.split prod.split simp: prod.case_eq_if)

lemma keeps_release_internal [simp]: "keeps_mail st (snd (release_task_leases_internal k st1)) = keeps_mail st st1"
  by (simp add: release_task_leases_internal_def keeps_remove_leases)

lemma keeps_grants: "keeps_mail st (foldl (\<lambda>s (i, r). insert_lease (f i r) s) st1 rs) = keeps_mail st st1"
  by (induction rs arbitrary: st1) (simp_all add: prod.case_eq_if)

lemma keeps_apply_leases [simp]: "keeps_mail st (apply_task_leases e k o' a st1) = keeps_mail st st1"
  by (simp add: apply_task_leases_def Let_def keeps_grants)

lemma keeps_refresh [simp]: "keeps_mail st (refresh_leases_after_update e k st1) = keeps_mail st st1"
  by (simp add: refresh_leases_after_update_def split: option.split team_task_status.split)

lemma keeps_insert_grants [simp]: "keeps_mail st (snd (insert_grants e now th n gs st1)) = keeps_mail st st1"
  by (induction e now th n gs st1 rule: insert_grants.induct) auto

lemma keeps_create [frame_rules]: "keeps_mail st (snd (create_task e ti de ow asg run rq br ov st))"
  by (simp add: create_task_def Let_def)

lemma keeps_update [frame_rules]: "keeps_mail st (snd (update_task e k p st))"
  by (simp add: update_task_def Let_def)

lemma keeps_assign [frame_rules]: "keeps_mail st (snd (assign_task e k asg note st))"
  by (simp add: assign_task_def Let_def)

lemma keeps_handoff [frame_rules]: "keeps_mail st (snd (handoff_task e k dst note review st))"
  by (simp add: handoff_task_def Let_def)

lemma keeps_is_ready [simp]: "keeps_mail st (snd (is_task_ready e k st1)) = keeps_mail st st1"
  by (simp add: is_task_ready_def Let_def)

lemma keeps_can_claim [simp]: "keeps_mail st (snd (can_claim_task e k c rr st1)) = keeps_mail st st1"
  by (simp add: can_claim_task_def Let_def prod.case_eq_if)

lemma keeps_claim_internal [simp]: "keeps_mail st (snd (claim_task_internal e k c rr st1)) = keeps_mail st st1"
  by (simp add: claim_task_internal_def Let_def prod.case_eq_if)

lemma keeps_claim_ready [simp]: "keeps_mail st (snd (claim_ready_task e k c note st1)) = keeps_mail st st1"
  by (simp add: claim_ready_task_def prod.case_eq_if)

lemma keeps_claim [simp]: "keeps_mail st (snd (claim_task e k c note st1)) = keeps_mail st st1"
  by (simp add: claim_task_def prod.case_eq_if)

lemma keeps_list_ready [simp]: "keeps_mail st (snd (list_ready_tasks e c st1)) = keeps_mail st st1"
  by (simp add: list_ready_tasks_def Let_def)

lemma keeps_dependency [frame_rules]:
  "keeps_mail st (snd (add_task_dependency e k d reason st))" "keeps_mail st (snd (remove_task_dependency e k d st))"
  by (simp_all add: add_task_dependency_def remove_task_dependency_def Let_def)

lemma keeps_block [frame_rules]: "keeps_mail st (snd (block_task e k reason st))" "keeps_mail st (snd (unblock_task e k b st))"
  by (simp_all add: block_task_def unblock_task_def Let_def split: option.split)

lemma keeps_releases [frame_rules]:
  "keeps_mail st (snd (release_task_leases e k st))" "keeps_mail st (snd (force_release_lease e l st))"
  "keeps_mail st (snd (touch_thread_leases e th st))"
  by (simp_all add: release_task_leases_def force_release_lease_def touch_thread_leases_def Let_def split: option.split)

lemma keeps_release_thread [simp]: "keeps_mail st (snd (release_thread_leases e th st1)) = keeps_mail st st1"
  by (simp add: release_thread_leases_def Let_def prod.case_eq_if keeps_remove_leases)

lemma keeps_cleanup [simp]: "keeps_mail st (snd (cleanup_stale_leases e live before st1)) = keeps_mail st st1"
  by (simp add: cleanup_stale_leases_def Let_def prod.case_eq_if keeps_remove_leases)

lemma keeps_ensure [simp]: "keeps_mail st (snd (ensure_write_paths_owned e th paths st1)) = keeps_mail st st1"
  by (simp add: ensure_write_paths_owned_def prod.case_eq_if)

section \<open>The mailbox and the plans\<close>

lemma plans_expire [simp]: "ts_plans (expire_messages now st) = ts_plans st"
  by (simp add: expire_messages_def bump_mailbox_version_def Let_def)

lemma plans_mailbox [simp]:
  "ts_plans (snd (post_message e a st)) = ts_plans st" "ts_plans (snd (collect_messages e r u m st)) = ts_plans st"
  "ts_plans (snd (claim_queue_messages e c q n st)) = ts_plans st" "ts_plans (snd (ack_message e who i st)) = ts_plans st"
  by (auto simp: post_message_def collect_messages_def claim_queue_messages_def ack_message_def bump_mailbox_version_def Let_def
      split: prod.split option.split)

lemma plans_submit: "ts_plans (snd (submit_plan e au su steps rq run st)) =
    hm_insert (env_uuid e 0) (fst (submit_plan e au su steps rq run st)) (ts_plans st)"
  "tp_id (fst (submit_plan e au su steps rq run st)) = env_uuid e 0"
  "ts_mailbox_version (snd (submit_plan e au su steps rq run st)) = ts_mailbox_version st"
  by (simp_all add: submit_plan_def Let_def)

lemma version_decide [simp]: "ts_mailbox_version (snd (decide_plan e k r ok note st)) = ts_mailbox_version st"
  by (simp add: decide_plan_def Let_def)

lemma get_decide: "hm_get (ts_plans (snd (decide_plan e k r ok note st))) j
    = (if j = k then map_option (decide_fields (env_clock e 0) r ok note) (hm_get (ts_plans st) k) else hm_get (ts_plans st) j)"
  "fst (decide_plan e k r ok note st) = map_option (decide_fields (env_clock e 0) r ok note) (hm_get (ts_plans st) k)"
  by (auto simp: decide_plan_def Let_def get_hm_modify)

end
