(* ===== verification/AgentGuards.thy ===== *)
theory AgentGuards
  imports Prelude
begin

text \<open>
  The limit on spawned agents (\<open>agent/guards.rs\<close>). The counter is an atomic word that any
  number of callers race on: the compare-and-exchange loop of \<open>try_increment_spawned\<close>, the
  reservations and the releases are interleaved one atomic access at a time. \<open>usize\<close> is a
  64-bit word. A set of thread identifiers is a distinct list.
\<close>

section \<open>Operations without interference\<close>

definition MAX_THREAD_SPAWN_DEPTH :: u64 where
  "MAX_THREAD_SPAWN_DEPTH = 1"

definition exceeds_thread_spawn_depth_limit :: "u64 \<Rightarrow> bool" where
  "exceeds_thread_spawn_depth_limit depth \<longleftrightarrow> depth > MAX_THREAD_SPAWN_DEPTH"

record guards =
  threads_set :: "string list"
  total_count :: u64

datatype guard_error = AgentLimitReached u64

definition default_guards :: guards where
  "default_guards = \<lparr>threads_set = [], total_count = 0\<rparr>"

text \<open>\<open>reserve_spawn_slot\<close> when nobody else touches the counter meanwhile; the reservation
  it returns is the right to call \<open>commit\<close> or \<open>drop_reservation\<close> once.\<close>

definition reserve_spawn_slot :: "u64 option \<Rightarrow> guards \<Rightarrow> (guard_error + unit) \<times> guards" where
  "reserve_spawn_slot max_threads gs =
     (case max_threads of
        Some m \<Rightarrow>
          if total_count gs \<ge> m then (Inl (AgentLimitReached m), gs)
          else (Inr (), gs\<lparr>total_count := total_count gs + 1\<rparr>)
      | None \<Rightarrow> (Inr (), gs\<lparr>total_count := total_count gs + 1\<rparr>))"

definition register_spawned_thread :: "string \<Rightarrow> guards \<Rightarrow> guards" where
  "register_spawned_thread thread_id gs = gs\<lparr>threads_set := List.insert thread_id (threads_set gs)\<rparr>"

definition drop_reservation :: "guards \<Rightarrow> guards" where
  "drop_reservation gs = gs\<lparr>total_count := total_count gs - 1\<rparr>"

definition release_spawned_thread :: "string \<Rightarrow> guards \<Rightarrow> guards" where
  "release_spawned_thread thread_id gs =
     (if thread_id \<in> set (threads_set gs)
      then gs\<lparr>threads_set := remove1 thread_id (threads_set gs), total_count := total_count gs - 1\<rparr>
      else gs)"

definition spawned_count :: "guards \<Rightarrow> u64" where
  "spawned_count gs = total_count gs"

section \<open>Interleavings\<close>

text \<open>
  Where a caller stands: outside; in the loop with the value \<open>current\<close> it loaded; told that
  the limit is reached; holding an active \<open>SpawnReservation\<close>; or having removed its thread
  from the set but not yet decremented the counter.
\<close>

datatype caller = Outside | Looping u64 | Refused | Reserving | Removed

record guards_run =
  gr_guards :: guards
  gr_callers :: "caller list"

definition with_caller :: "nat \<Rightarrow> caller \<Rightarrow> guards \<Rightarrow> guards_run \<Rightarrow> guards_run" where
  "with_caller i c gs s = \<lparr>gr_guards = gs, gr_callers = (gr_callers s)[i := c]\<rparr>"

definition at :: "guards_run \<Rightarrow> nat \<Rightarrow> caller \<Rightarrow> bool" where
  "at s i c \<longleftrightarrow> i < length (gr_callers s) \<and> gr_callers s ! i = c"

definition plus_count :: "u64 \<Rightarrow> guards \<Rightarrow> guards" where
  "plus_count d gs = gs\<lparr>total_count := total_count gs + d\<rparr>"

inductive guards_step :: "u64 option \<Rightarrow> guards_run \<Rightarrow> guards_run \<Rightarrow> bool" for max_threads where
  load: "max_threads = Some m \<Longrightarrow> at s i Outside
    \<Longrightarrow> guards_step max_threads s (with_caller i (Looping (total_count (gr_guards s))) (gr_guards s) s)"
| full: "max_threads = Some m \<Longrightarrow> at s i (Looping c) \<Longrightarrow> c \<ge> m
    \<Longrightarrow> guards_step max_threads s (with_caller i Refused (gr_guards s) s)"
| exchange: "max_threads = Some m \<Longrightarrow> at s i (Looping c) \<Longrightarrow> c < m \<Longrightarrow> total_count (gr_guards s) = c
    \<Longrightarrow> guards_step max_threads s (with_caller i Reserving ((gr_guards s)\<lparr>total_count := c + 1\<rparr>) s)"
| exchange_fails: "max_threads = Some m \<Longrightarrow> at s i (Looping c) \<Longrightarrow> c < m
    \<Longrightarrow> guards_step max_threads s (with_caller i (Looping (total_count (gr_guards s))) (gr_guards s) s)"
| refused: "at s i Refused \<Longrightarrow> guards_step max_threads s (with_caller i Outside (gr_guards s) s)"
| unlimited: "max_threads = None \<Longrightarrow> at s i Outside
    \<Longrightarrow> guards_step max_threads s (with_caller i Reserving (plus_count 1 (gr_guards s)) s)"
| commit: "at s i Reserving
    \<Longrightarrow> guards_step max_threads s (with_caller i Outside (register_spawned_thread tid (gr_guards s)) s)"
| dropped: "at s i Reserving
    \<Longrightarrow> guards_step max_threads s (with_caller i Outside (plus_count (- 1) (gr_guards s)) s)"
| remove: "at s i Outside \<Longrightarrow> tid \<in> set (threads_set (gr_guards s))
    \<Longrightarrow> guards_step max_threads s (with_caller i Removed
          ((gr_guards s)\<lparr>threads_set := remove1 tid (threads_set (gr_guards s))\<rparr>) s)"
| decrement: "at s i Removed
    \<Longrightarrow> guards_step max_threads s (with_caller i Outside (plus_count (- 1) (gr_guards s)) s)"

text \<open>The units of the counter that callers still have to give back or turn into a thread.\<close>

fun owed :: "caller \<Rightarrow> nat" where
  "owed Reserving = 1"
| "owed Removed = 1"
| "owed _ = 0"

definition total_owed :: "guards_run \<Rightarrow> nat" where
  "total_owed s = sum_list (map owed (gr_callers s))"

definition guards_start :: "guards_run \<Rightarrow> bool" where
  "guards_start s \<longleftrightarrow> gr_guards s = default_guards \<and> (\<forall>c \<in> set (gr_callers s). c = Outside)"

definition guards_inv :: "u64 \<Rightarrow> guards_run \<Rightarrow> bool" where
  "guards_inv m s \<longleftrightarrow> distinct (threads_set (gr_guards s))
     \<and> length (threads_set (gr_guards s)) + total_owed s \<le> unat (total_count (gr_guards s))
     \<and> total_count (gr_guards s) \<le> m"

lemma sum_list_update_owed:
  "i < length cs \<Longrightarrow> sum_list (map owed (cs[i := c])) + owed (cs ! i) = sum_list (map owed cs) + owed c"
proof (induction cs arbitrary: i)
  case (Cons d cs)
  then show ?case by (cases i) (auto simp: algebra_simps)
qed simp

lemma owed_le: "at s i c \<Longrightarrow> owed c \<le> total_owed s"
  using member_le_sum_list [of "owed c" "map owed (gr_callers s)"]
  by (auto simp: at_def total_owed_def)

lemma total_owed_with:
  "at s i c \<Longrightarrow> total_owed (with_caller i c' gs s) = total_owed s + owed c' - owed c"
  using sum_list_update_owed [of i "gr_callers s" c'] by (auto simp: at_def total_owed_def with_caller_def)

lemma guards_with_caller [simp]: "gr_guards (with_caller i c gs s) = gs"
  by (simp add: with_caller_def)

lemma unat_inc: "c < (m :: u64) \<Longrightarrow> unat (c + 1) = unat c + 1"
proof -
  assume "c < m"
  then have "unat c + unat (1 :: u64) < 2 ^ LENGTH(64)"
    using unsigned_less [of m, where 'a = nat] by (simp add: word_less_nat_alt)
  then show ?thesis by (simp only: unat_add_lem) simp
qed

lemma unat_dec: "0 < unat (c :: u64) \<Longrightarrow> unat (c - 1) = unat c - 1"
  by (metis unat_minus_one unat_0 less_irrefl)

lemma guards_step_inv:
  assumes "guards_step (Some m) s s'" and "guards_inv m s"
  shows "guards_inv m s'"
  using assms(1)
proof (cases rule: guards_step.cases)
  case (exchange m' i c)
  then have "m' = m" by simp
  with exchange assms(2) total_owed_with [OF exchange(3), of Reserving] owed_le [OF exchange(3)] unat_inc [of c m]
  show ?thesis by (auto simp: guards_inv_def inc_le)
next
  case (commit i tid)
  with assms(2) total_owed_with [OF commit(2), of Outside] owed_le [OF commit(2)] show ?thesis
    by (auto simp: guards_inv_def register_spawned_thread_def List.insert_def)
next
  case (dropped i)
  with assms(2) total_owed_with [OF dropped(2), of Outside] owed_le [OF dropped(2)] show ?thesis
    using unat_dec [of "total_count (gr_guards s)"]
    by (auto simp: guards_inv_def plus_count_def word_le_nat_alt)
next
  case (decrement i)
  with assms(2) total_owed_with [OF decrement(2), of Outside] owed_le [OF decrement(2)] show ?thesis
    using unat_dec [of "total_count (gr_guards s)"]
    by (auto simp: guards_inv_def plus_count_def word_le_nat_alt)
next
  case (remove i tid)
  then obtain n where n: "length (threads_set (gr_guards s)) = Suc n"
    by (cases "threads_set (gr_guards s)") auto
  with remove assms(2) total_owed_with [OF remove(2), of Removed] show ?thesis
    by (simp add: guards_inv_def length_remove1)
next
  case (load m' i)
  with assms(2) total_owed_with [OF load(3)] owed_le [OF load(3)] show ?thesis by (fastforce simp: guards_inv_def)
next
  case (full m' i c)
  with assms(2) total_owed_with [OF full(3), of Refused] owed_le [OF full(3)] show ?thesis by (simp add: guards_inv_def)
next
  case (exchange_fails m' i c)
  with assms(2) total_owed_with [OF exchange_fails(3)] owed_le [OF exchange_fails(3)] show ?thesis by (fastforce simp: guards_inv_def)
next
  case (refused i)
  with assms(2) total_owed_with [OF refused(2), of Outside] owed_le [OF refused(2)] show ?thesis by (simp add: guards_inv_def)
qed simp

lemma guards_start_inv: "guards_start s \<Longrightarrow> guards_inv m s"
  by (simp add: guards_start_def guards_inv_def default_guards_def total_owed_def) auto

interpretation guards: machine guards_start "guards_step (Some m)" "guards_inv m" for m
  by unfold_locales (auto intro: guards_start_inv guards_step_inv)

section \<open>Properties\<close>

text \<open>C6. However the callers interleave, with a limit \<open>m\<close> the counter never exceeds \<open>m\<close>, and it
  covers the registered threads and the units that reservations and releases still owe, so
  at most \<open>m\<close> threads are registered and no decrement wraps below zero.\<close>

theorem spawn_limit_holds:
  assumes "guards_start s" and "(guards_step (Some m))\<^sup>*\<^sup>* s s'"
  shows "spawned_count (gr_guards s') \<le> m
    \<and> length (threads_set (gr_guards s')) + total_owed s' \<le> unat (spawned_count (gr_guards s'))
    \<and> length (threads_set (gr_guards s')) \<le> unat m"
  using guards.inv_reachable [OF assms]
  by (auto simp: guards_inv_def spawned_count_def word_le_nat_alt)

text \<open>Two callers race for the only slot; the one that loaded last wins.\<close>

definition race_start :: guards_run where
  "race_start = \<lparr>gr_guards = default_guards, gr_callers = [Outside, Outside]\<rparr>"

theorem spawn_limit_holds_witness:
  "\<exists>s'. (guards_step (Some 1))\<^sup>*\<^sup>* race_start s' \<and> at s' 0 (Looping 0) \<and> at s' 1 Reserving
    \<and> spawned_count (gr_guards s') \<le> 1"
proof -
  let ?s1 = "with_caller 0 (Looping 0) default_guards race_start"
  let ?s2 = "with_caller 1 (Looping 0) default_guards ?s1"
  let ?s3 = "with_caller 1 Reserving (default_guards\<lparr>total_count := 0 + 1\<rparr>) ?s2"
  have "guards_step (Some 1) race_start ?s1"
    using guards_step.load [of "Some 1" 1 race_start 0] by (simp add: race_start_def at_def default_guards_def)
  moreover have "guards_step (Some 1) ?s1 ?s2"
    using guards_step.load [of "Some 1" 1 ?s1 1]
    by (simp add: race_start_def at_def default_guards_def with_caller_def)
  moreover have "guards_step (Some 1) ?s2 ?s3"
    using guards_step.exchange [of "Some 1" 1 ?s2 1 0]
    by (simp add: race_start_def at_def default_guards_def with_caller_def)
  ultimately have run: "(guards_step (Some 1))\<^sup>*\<^sup>* race_start ?s3" by simp
  have "guards_start race_start" by (simp add: guards_start_def race_start_def)
  from spawn_limit_holds [OF this run] run show ?thesis
    by (intro exI [of _ ?s3]) (auto simp: at_def with_caller_def race_start_def)
qed

text \<open>What the interleavings do when a caller is alone is what the operations do.\<close>

lemma reserve_alone:
  assumes "at s i Outside" and "reserve_spawn_slot (Some m) (gr_guards s) = (Inr (), gs)"
  shows "(guards_step (Some m))\<^sup>*\<^sup>* s (with_caller i Reserving gs s)"
proof -
  let ?c = "total_count (gr_guards s)"
  let ?s1 = "with_caller i (Looping ?c) (gr_guards s) s"
  have "?c < m" and gs: "gs = (gr_guards s)\<lparr>total_count := ?c + 1\<rparr>"
    using assms(2) by (auto simp: reserve_spawn_slot_def split: if_splits)
  have "guards_step (Some m) s ?s1" using load [of "Some m" m s i] assms(1) by simp
  moreover have "at ?s1 i (Looping ?c)" using assms(1) by (simp add: at_def with_caller_def)
  then have "guards_step (Some m) ?s1 (with_caller i Reserving gs ?s1)"
    using exchange [of "Some m" m ?s1 i ?c] \<open>?c < m\<close> by (simp add: gs)
  moreover have "with_caller i Reserving gs ?s1 = with_caller i Reserving gs s"
    by (simp add: with_caller_def)
  ultimately show ?thesis by (metis converse_rtranclp_into_rtranclp r_into_rtranclp)
qed

text \<open>A caller that is alone gets a slot exactly while the limit is not reached; a
  reservation that is dropped, or a thread that is committed and released, leaves the
  counter and the registered threads as they were.\<close>

theorem reservation_roundtrip:
  assumes "reserve_spawn_slot (Some m) gs = (Inr (), gs')"
  shows "total_count gs < m \<and> total_count gs' = total_count gs + 1
    \<and> drop_reservation gs' = gs
    \<and> (tid \<notin> set (threads_set gs) \<longrightarrow> release_spawned_thread tid (register_spawned_thread tid gs') = gs)"
  using assms
  by (auto simp: reserve_spawn_slot_def drop_reservation_def release_spawned_thread_def
      register_spawned_thread_def List.insert_def split: if_splits)

theorem reservation_roundtrip_witness:
  "release_spawned_thread ''t'' (register_spawned_thread ''t''
     (snd (reserve_spawn_slot (Some 1) default_guards))) = default_guards"
proof -
  have "reserve_spawn_slot (Some 1) default_guards
      = (Inr (), snd (reserve_spawn_slot (Some 1) default_guards))"
    by (simp add: reserve_spawn_slot_def default_guards_def)
  from reservation_roundtrip [OF this, of "''t''"] show ?thesis by (simp add: default_guards_def)
qed

end
