(* ===== verification/AgentControl.thy ===== *)
theory AgentControl
  imports AgentGuards RustStr
begin

text \<open>
  The control plane of an agent: its status and the transitions it accepts
  (\<open>agent/status.rs\<close>, \<open>transition\<close>, \<open>start\<close>, \<open>process_turn\<close> and \<open>stop\<close> of
  \<open>agent/control.rs\<close>), the registry of threads (\<open>thread_manager.rs\<close>) and the spawning and
  removal of agents (\<open>spawn_agent\<close>, \<open>shutdown_spawned_agent\<close>).
\<close>

section \<open>Status\<close>

datatype agent_status = PendingInit | Initializing | Ready | Busy | Error string | Shutdown

definition can_transition_to :: "agent_status \<Rightarrow> agent_status \<Rightarrow> bool" where
  "can_transition_to s new = (case (s, new) of
      (PendingInit, Initializing) \<Rightarrow> True
    | (Initializing, Ready) \<Rightarrow> True
    | (Initializing, Error _) \<Rightarrow> True
    | (Ready, Busy) \<Rightarrow> True
    | (Ready, Shutdown) \<Rightarrow> True
    | (Busy, Ready) \<Rightarrow> True
    | (Busy, Error _) \<Rightarrow> True
    | (Busy, Shutdown) \<Rightarrow> True
    | (Error _, Ready) \<Rightarrow> True
    | (Error _, Shutdown) \<Rightarrow> True
    | (Shutdown, Shutdown) \<Rightarrow> True
    | (a, b) \<Rightarrow> a = b)"

text \<open>The status and what was sent to the subscribers of the status channel, latest last.\<close>

record status_cell =
  sc_status :: agent_status
  sc_sent :: "agent_status list"

definition transition :: "agent_status \<Rightarrow> status_cell \<Rightarrow> status_cell" where
  "transition next c =
     (if can_transition_to (sc_status c) next
      then c\<lparr>sc_status := next, sc_sent := sc_sent c @ [next]\<rparr>
      else c)"

definition new_status_cell :: status_cell where
  "new_status_cell = \<lparr>sc_status = PendingInit, sc_sent = []\<rparr>"

definition start_agent :: "status_cell \<Rightarrow> status_cell" where
  "start_agent c = transition Ready (transition Initializing c)"

definition begin_turn :: "status_cell \<Rightarrow> status_cell" where
  "begin_turn c = transition Busy c"

text \<open>The turn itself (\<open>TurnExecutor\<close>) yields a result or the text of an error.\<close>

definition end_turn :: "(string + 'r) \<Rightarrow> status_cell \<Rightarrow> (string + 'r) \<times> status_cell" where
  "end_turn result c = (case result of
      Inr r \<Rightarrow> (Inr r, transition Ready c)
    | Inl err \<Rightarrow> (Inl err, transition (Error err) c))"

definition process_turn :: "(string + 'r) \<Rightarrow> status_cell \<Rightarrow> (string + 'r) \<times> status_cell" where
  "process_turn result c = end_turn result (begin_turn c)"

definition stop_agent :: "status_cell \<Rightarrow> status_cell" where
  "stop_agent c = transition Shutdown c"

section \<open>The registry of threads\<close>

record thread_info =
  ti_thread_id :: string
  ti_parent_thread_id :: "string option"
  ti_depth :: u64
  ti_nickname :: "string option"
  ti_role :: string
  ti_task :: string
  ti_created_at :: int

type_synonym thread_registry = "(string, thread_info) hashmap"

definition new_registry :: "env \<Rightarrow> string \<Rightarrow> thread_registry" where
  "new_registry e root_thread_id = hm_insert root_thread_id
     \<lparr>ti_thread_id = root_thread_id, ti_parent_thread_id = None, ti_depth = 0, ti_nickname = None,
      ti_role = ''root'', ti_task = ''root session'', ti_created_at = env_clock e 0\<rparr> []"

definition spawn_thread ::
  "env \<Rightarrow> string \<Rightarrow> u64 \<Rightarrow> string option \<Rightarrow> string \<Rightarrow> string \<Rightarrow> thread_registry \<Rightarrow> string \<times> thread_registry" where
  "spawn_thread e parent_thread_id depth nickname role task threads =
     (let thread_id = env_uuid e 0;
          info = \<lparr>ti_thread_id = thread_id, ti_parent_thread_id = Some parent_thread_id, ti_depth = depth,
            ti_nickname = nickname, ti_role = role, ti_task = task, ti_created_at = env_clock e 0\<rparr>
      in (thread_id, hm_insert thread_id info threads))"

definition remove_thread :: "string \<Rightarrow> thread_registry \<Rightarrow> bool \<times> thread_registry" where
  "remove_thread thread_id threads = (hm_contains threads thread_id, hm_remove thread_id threads)"

definition get_thread :: "string \<Rightarrow> thread_registry \<Rightarrow> thread_info option" where
  "get_thread thread_id threads = hm_get threads thread_id"

definition list_thread_ids :: "thread_registry \<Rightarrow> string list" where
  "list_thread_ids threads = hm_keys threads"

section \<open>Spawning\<close>

datatype control_event =
    SpawnBegin string "string option" string string
  | SpawnEnd string "string option" string string
  | ThreadCreated string

datatype control_error = EmptyTask | DepthExceeded u64 | ManagerDropped | Guard guard_error

text \<open>What the control object shares: the registry (\<open>None\<close> once the manager is dropped), the
  guards, and the events sent so far.\<close>

record control_state =
  cs_threads :: "thread_registry option"
  cs_guards :: guards
  cs_root_thread_id :: string
  cs_events :: "control_event list"

definition spawn_agent ::
  "env \<Rightarrow> string \<Rightarrow> string option \<Rightarrow> string option \<Rightarrow> string option \<Rightarrow> u64 \<Rightarrow> u64 option
     \<Rightarrow> control_state \<Rightarrow> (control_error + string) \<times> control_state" where
  "spawn_agent e task nickname role parent_thread_id depth max_threads s =
     (if trim task = [] then (Inl EmptyTask, s)
      else if exceeds_thread_spawn_depth_limit depth then (Inl (DepthExceeded depth), s)
      else case cs_threads s of
        None \<Rightarrow> (Inl ManagerDropped, s)
      | Some threads \<Rightarrow>
          (case reserve_spawn_slot max_threads (cs_guards s) of
             (Inl err, gs) \<Rightarrow> (Inl (Guard err), s\<lparr>cs_guards := gs\<rparr>)
           | (Inr _, gs) \<Rightarrow>
               (let parent = (case parent_thread_id of Some p \<Rightarrow> p | None \<Rightarrow> cs_root_thread_id s);
                    role' = (case role of Some r \<Rightarrow> r | None \<Rightarrow> ''default'')
                in case spawn_thread e parent depth nickname role' task threads of
                     (thread_id, threads') \<Rightarrow>
                       (Inr thread_id,
                        s\<lparr>cs_threads := Some threads',
                          cs_guards := register_spawned_thread thread_id gs,
                          cs_events := cs_events s @ [SpawnBegin parent nickname role' task,
                            ThreadCreated thread_id, SpawnEnd thread_id nickname role' task]\<rparr>))))"

definition shutdown_spawned_agent :: "string \<Rightarrow> control_state \<Rightarrow> (control_error + unit) \<times> control_state" where
  "shutdown_spawned_agent thread_id s = (case cs_threads s of
      None \<Rightarrow> (Inl ManagerDropped, s)
    | Some threads \<Rightarrow>
        (case remove_thread thread_id threads of
           (removed, threads') \<Rightarrow>
             (Inr (), s\<lparr>cs_threads := Some threads',
                cs_guards := (if removed then release_spawned_thread thread_id (cs_guards s) else cs_guards s)\<rparr>)))"

definition drop_manager :: "control_state \<Rightarrow> control_state" where
  "drop_manager s = s\<lparr>cs_threads := None\<rparr>"

definition new_control :: "env \<Rightarrow> string \<Rightarrow> control_state" where
  "new_control e root = \<lparr>cs_threads = Some (new_registry e root), cs_guards = default_guards,
     cs_root_thread_id = root, cs_events = []\<rparr>"

section \<open>Invariants\<close>

inductive status_step :: "status_cell \<Rightarrow> status_cell \<Rightarrow> bool" where
  st_start: "status_step c (start_agent c)"
| st_begin: "status_step c (begin_turn c)"
| st_end: "status_step c (snd (end_turn (r :: string + unit) c))"
| st_stop: "status_step c (stop_agent c)"

text \<open>The history of a status cell is a walk along accepted transitions that ends in the status.\<close>

fun walk :: "agent_status \<Rightarrow> agent_status list \<Rightarrow> bool" where
  "walk a [] = True"
| "walk a (b # bs) = (can_transition_to a b \<and> walk b bs)"

definition status_inv :: "status_cell \<Rightarrow> bool" where
  "status_inv c \<longleftrightarrow> walk PendingInit (sc_sent c) \<and> sc_status c = last (PendingInit # sc_sent c)"

lemma walk_snoc: "walk a (bs @ [b]) \<longleftrightarrow> walk a bs \<and> can_transition_to (last (a # bs)) b"
  by (induction bs arbitrary: a) auto

lemma transition_inv: "status_inv c \<Longrightarrow> status_inv (transition s c)"
  by (auto simp: status_inv_def transition_def walk_snoc)

lemma status_step_transitions:
  "status_step c c' \<Longrightarrow> (\<And>s d. P d \<Longrightarrow> P (transition s d)) \<Longrightarrow> P c \<Longrightarrow> P c'"
  by (induction rule: status_step.induct)
     (auto simp: start_agent_def begin_turn_def end_turn_def stop_agent_def split: sum.split)

interpretation status: machine "\<lambda>c. c = new_status_cell" status_step status_inv
  by unfold_locales
     (simp add: status_inv_def new_status_cell_def, erule status_step_transitions, erule transition_inv)

text \<open>From \<open>Shutdown\<close> nothing else is reached, and only idempotent announcements are sent.\<close>

interpretation stopped: machine "\<lambda>c. sc_status c = Shutdown" status_step "\<lambda>c. sc_status c = Shutdown"
  by unfold_locales
     (simp, erule status_step_transitions [where P = "\<lambda>c. sc_status c = Shutdown"],
      auto simp: transition_def can_transition_to_def split: agent_status.splits)

inductive control_step :: "string \<Rightarrow> u64 option \<Rightarrow> control_state \<Rightarrow> control_state \<Rightarrow> bool"
  for root max_threads where
  cn_spawn: "\<not> hm_contains (case cs_threads s of None \<Rightarrow> [] | Some ts \<Rightarrow> ts) (env_uuid e 0)
    \<Longrightarrow> env_uuid e 0 \<noteq> root
    \<Longrightarrow> control_step root max_threads s (snd (spawn_agent e task nick role parent depth max_threads s))"
| cn_shutdown: "control_step root max_threads s (snd (shutdown_spawned_agent tid s))"

definition control_inv :: "string \<Rightarrow> u64 \<Rightarrow> control_state \<Rightarrow> bool" where
  "control_inv root m s \<longleftrightarrow> (\<exists>threads. cs_threads s = Some threads \<and> hm_wf threads
     \<and> (\<forall>k i. hm_get threads k = Some i \<longrightarrow> ti_thread_id i = k \<and> ti_depth i \<le> MAX_THREAD_SPAWN_DEPTH)
     \<and> distinct (threads_set (cs_guards s))
     \<and> set (threads_set (cs_guards s)) = set (hm_keys threads) - {root}
     \<and> unat (total_count (cs_guards s)) = length (threads_set (cs_guards s))
     \<and> total_count (cs_guards s) \<le> m)"

lemma control_invE:
  assumes "control_inv root m s"
  obtains threads where "cs_threads s = Some threads" "hm_wf threads"
    "\<forall>k i. hm_get threads k = Some i \<longrightarrow> ti_thread_id i = k \<and> ti_depth i \<le> MAX_THREAD_SPAWN_DEPTH"
    "distinct (threads_set (cs_guards s))"
    "set (threads_set (cs_guards s)) = set (hm_keys threads) - {root}"
    "unat (total_count (cs_guards s)) = length (threads_set (cs_guards s))"
    "total_count (cs_guards s) \<le> m"
  using assms by (auto simp: control_inv_def)

lemma control_step_inv:
  assumes "control_step root (Some m) s s'" and "control_inv root m s"
  shows "control_inv root m s'"
  using assms(1)
proof (cases rule: control_step.cases)
  case (cn_spawn e task nick role parent depth)
  from assms(2) obtain threads where inv: "cs_threads s = Some threads" "hm_wf threads"
    "\<forall>k i. hm_get threads k = Some i \<longrightarrow> ti_thread_id i = k \<and> ti_depth i \<le> MAX_THREAD_SPAWN_DEPTH"
    "distinct (threads_set (cs_guards s))"
    "set (threads_set (cs_guards s)) = set (hm_keys threads) - {root}"
    "unat (total_count (cs_guards s)) = length (threads_set (cs_guards s))"
    "total_count (cs_guards s) \<le> m"
    by (rule control_invE)
  show ?thesis
  proof (cases "trim task = [] \<or> exceeds_thread_spawn_depth_limit depth \<or> total_count (cs_guards s) \<ge> m")
    case True
    then have "s' = s"
      by (auto simp: cn_spawn(1) spawn_agent_def inv(1) reserve_spawn_slot_def)
    with assms(2) show ?thesis by simp
  next
    case False
    then have new: "env_uuid e 0 \<notin> set (threads_set (cs_guards s))"
      and count: "unat (total_count (cs_guards s) + 1) = unat (total_count (cs_guards s)) + 1"
      using cn_spawn(2) inv(1,5) unat_inc [of "total_count (cs_guards s)" m] by auto
    obtain i where s': "cs_threads s' = Some (hm_insert (env_uuid e 0) i threads)"
      and i: "ti_thread_id i = env_uuid e 0" "ti_depth i = depth"
      and gs: "cs_guards s' = register_spawned_thread (env_uuid e 0)
        ((cs_guards s)\<lparr>total_count := total_count (cs_guards s) + 1\<rparr>)"
      using False by (auto simp: cn_spawn(1) spawn_agent_def inv(1) reserve_spawn_slot_def spawn_thread_def Let_def)
    have "depth \<le> MAX_THREAD_SPAWN_DEPTH" using False by (auto simp: exceeds_thread_spawn_depth_limit_def)
    then show ?thesis
      unfolding control_inv_def s'
      using inv new count i cn_spawn(3) False
      by (auto simp: gs register_spawned_thread_def List.insert_def get_hm_insert distinct_update
          dom_update simp flip: dom_map_of_conv_image_fst intro: inc_le)
  qed
next
  case (cn_shutdown tid)
  from assms(2) obtain threads where inv: "cs_threads s = Some threads" "hm_wf threads"
    "\<forall>k i. hm_get threads k = Some i \<longrightarrow> ti_thread_id i = k \<and> ti_depth i \<le> MAX_THREAD_SPAWN_DEPTH"
    "distinct (threads_set (cs_guards s))"
    "set (threads_set (cs_guards s)) = set (hm_keys threads) - {root}"
    "unat (total_count (cs_guards s)) = length (threads_set (cs_guards s))"
    "total_count (cs_guards s) \<le> m"
    by (rule control_invE)
  have s': "cs_threads s' = Some (hm_remove tid threads)"
    by (simp add: cn_shutdown inv(1) shutdown_spawned_agent_def remove_thread_def)
  have keys: "set (hm_keys (hm_remove tid threads)) = set (hm_keys threads) - {tid}"
    by (simp add: delete_keys set_filter)
  show ?thesis
  proof (cases "tid \<in> set (threads_set (cs_guards s))")
    case True
    then obtain n where n: "length (threads_set (cs_guards s)) = Suc n"
      by (cases "threads_set (cs_guards s)") auto
    then have dec: "unat (total_count (cs_guards s) - 1) = n"
      using unat_dec [of "total_count (cs_guards s)"] inv(6) by simp
    have gs: "cs_guards s' = (cs_guards s)\<lparr>threads_set := remove1 tid (threads_set (cs_guards s)),
        total_count := total_count (cs_guards s) - 1\<rparr>"
      using True inv(5) by (auto simp: cn_shutdown inv(1) shutdown_spawned_agent_def remove_thread_def
          release_spawned_thread_def)
    have "total_count (cs_guards s) - 1 \<le> m"
      using dec n inv(6,7) by (simp add: word_le_nat_alt)
    then show ?thesis
      unfolding control_inv_def s'
      using inv True n dec keys by (auto simp: gs distinct_delete get_hm_remove length_remove1 simp del: set_map split: if_splits)
  next
    case False
    then have gs: "cs_guards s' = cs_guards s"
      by (simp add: cn_shutdown inv(1) shutdown_spawned_agent_def remove_thread_def release_spawned_thread_def)
    show ?thesis
      unfolding control_inv_def s'
      using inv False keys by (auto simp: gs distinct_delete get_hm_remove simp del: set_map split: if_splits)
  qed
qed

lemma new_control_inv: "control_inv root m (new_control e root)"
  by (simp add: control_inv_def new_control_def new_registry_def default_guards_def MAX_THREAD_SPAWN_DEPTH_def)

interpretation control: machine "\<lambda>s. \<exists>e. s = new_control e root" "control_step root (Some m)" "control_inv root m"
  for root m
  by unfold_locales (auto intro: new_control_inv control_step_inv)

section \<open>Properties\<close>

text \<open>Spawning and shutting down agents in any order with a limit \<open>m\<close> keeps the registry
  and the guards in step: the registered threads but the root are exactly those that hold a
  slot, the counter is their number and at most \<open>m\<close>, and no thread is deeper than the limit
  (every identifier drawn being new).\<close>

theorem agents_bounded:
  assumes "(control_step root (Some m))\<^sup>*\<^sup>* (new_control e root) s"
  shows "\<exists>threads. cs_threads s = Some threads
    \<and> set (threads_set (cs_guards s)) = set (list_thread_ids threads) - {root}
    \<and> unat (spawned_count (cs_guards s)) = card (set (list_thread_ids threads) - {root})
    \<and> spawned_count (cs_guards s) \<le> m
    \<and> (\<forall>k i. get_thread k threads = Some i \<longrightarrow> \<not> exceeds_thread_spawn_depth_limit (ti_depth i))"
proof -
  have "control_inv root m s" using control.inv_reachable [OF _ assms] by blast
  then obtain threads where inv: "cs_threads s = Some threads" "hm_wf threads"
    "\<forall>k i. hm_get threads k = Some i \<longrightarrow> ti_thread_id i = k \<and> ti_depth i \<le> MAX_THREAD_SPAWN_DEPTH"
    "distinct (threads_set (cs_guards s))"
    "set (threads_set (cs_guards s)) = set (hm_keys threads) - {root}"
    "unat (total_count (cs_guards s)) = length (threads_set (cs_guards s))"
    "total_count (cs_guards s) \<le> m"
    by (rule control_invE)
  moreover have "length (threads_set (cs_guards s)) = card (set (hm_keys threads) - {root})"
    using distinct_card [OF inv(4)] inv(5) by simp
  ultimately show ?thesis
    by (auto simp: spawned_count_def list_thread_ids_def get_thread_def exceeds_thread_spawn_depth_limit_def not_less
        simp del: set_map)
qed

definition spawn_env :: env where
  "spawn_env = \<lparr>env_clock = int, env_uuid = (\<lambda>i. replicate (Suc i) CHR ''t''), env_glob = (=)\<rparr>"

definition one_agent :: control_state where
  "one_agent = snd (spawn_agent spawn_env ''look'' None None None 1 (Some 1) (new_control spawn_env ''root''))"

theorem agents_bounded_witness:
  "spawned_count (cs_guards one_agent) = 1
   \<and> (\<exists>threads. cs_threads one_agent = Some threads \<and> set (list_thread_ids threads) - {''root''} = {''t''})"
proof -
  have "control_step ''root'' (Some 1) (new_control spawn_env ''root'') one_agent"
    unfolding one_agent_def
    by (rule cn_spawn) (simp_all add: new_control_def new_registry_def spawn_env_def)
  then have run: "(control_step ''root'' (Some 1))\<^sup>*\<^sup>* (new_control spawn_env ''root'') one_agent" by simp
  have gs: "threads_set (cs_guards one_agent) = [''t'']" and count: "spawned_count (cs_guards one_agent) = 1"
    by code_simp+
  from agents_bounded [OF run] obtain threads where "cs_threads one_agent = Some threads"
    and "set (threads_set (cs_guards one_agent)) = set (list_thread_ids threads) - {''root''}" by blast
  with gs count show ?thesis by simp
qed

text \<open>Whatever order starts, turns and stops come in, the statuses announced to the
  subscribers are a walk along accepted transitions that ends in the agent's status, and
  once \<open>Shutdown\<close> was announced the agent stays shut down.\<close>

theorem status_history:
  assumes "status_step\<^sup>*\<^sup>* new_status_cell c"
  shows "walk PendingInit (sc_sent c) \<and> sc_status c = last (PendingInit # sc_sent c)
    \<and> (Shutdown \<in> set (sc_sent c) \<longrightarrow> sc_status c = Shutdown)"
proof -
  have inv: "status_inv c" by (rule status.inv_reachable [OF refl assms])
  have "Shutdown \<in> set bs \<Longrightarrow> walk a bs \<Longrightarrow> last (a # bs) = Shutdown" for a bs
  proof (induction bs arbitrary: a)
    case (Cons b bs)
    have stay: "walk Shutdown cs \<Longrightarrow> last (Shutdown # cs) = Shutdown" for cs
    proof (induction cs)
      case (Cons d ds)
      then have "d = Shutdown" by (cases d) (auto simp: can_transition_to_def)
      with Cons show ?case by (cases ds) auto
    qed simp
    show ?case
    proof (cases "b = Shutdown")
      case True
      with Cons.prems stay [of bs] show ?thesis by simp
    next
      case False
      with Cons show ?thesis by auto
    qed
  qed simp
  with inv show ?thesis by (auto simp: status_inv_def)
qed

theorem status_history_witness:
  "sc_status (start_agent (stop_agent (start_agent new_status_cell))) = Shutdown"
proof -
  let ?c = "start_agent (stop_agent (start_agent new_status_cell))"
  have "status_step\<^sup>*\<^sup>* new_status_cell ?c"
    by (meson st_start st_stop rtranclp.rtrancl_refl rtranclp.rtrancl_into_rtrancl)
  from status_history [OF this] show ?thesis
    by (auto simp: start_agent_def stop_agent_def transition_def can_transition_to_def new_status_cell_def)
qed

text \<open>A stop that comes before the start is lost: the agent becomes ready afterwards.\<close>

theorem stop_before_start_lost: "sc_status (start_agent (stop_agent new_status_cell)) = Ready"
  by (simp add: start_agent_def stop_agent_def transition_def can_transition_to_def new_status_cell_def)

end
