(* ===== verification/PatchSeek.thy ===== *)
theory PatchSeek
  imports RustStr
begin

text \<open>
  Finding the lines of a chunk in a file (\<open>apply-patch/src/seek_sequence.rs\<close>): four passes
  of decreasing strictness over the same range of start positions.
\<close>

section \<open>Definitions\<close>

text \<open>The typographic characters that \<open>normalise\<close> maps to ASCII, by their UTF-8 encodings.\<close>

definition punctuation :: "(string \<times> char) list" where
  "punctuation =
     [([CHR 0xE2, CHR 0x80, CHR 0x90], CHR ''-''), ([CHR 0xE2, CHR 0x80, CHR 0x91], CHR ''-''),
      ([CHR 0xE2, CHR 0x80, CHR 0x92], CHR ''-''), ([CHR 0xE2, CHR 0x80, CHR 0x93], CHR ''-''),
      ([CHR 0xE2, CHR 0x80, CHR 0x94], CHR ''-''), ([CHR 0xE2, CHR 0x80, CHR 0x95], CHR ''-''),
      ([CHR 0xE2, CHR 0x88, CHR 0x92], CHR ''-''),
      ([CHR 0xE2, CHR 0x80, CHR 0x98], CHR 0x27), ([CHR 0xE2, CHR 0x80, CHR 0x99], CHR 0x27),
      ([CHR 0xE2, CHR 0x80, CHR 0x9A], CHR 0x27), ([CHR 0xE2, CHR 0x80, CHR 0x9B], CHR 0x27),
      ([CHR 0xE2, CHR 0x80, CHR 0x9C], CHR 0x22), ([CHR 0xE2, CHR 0x80, CHR 0x9D], CHR 0x22),
      ([CHR 0xE2, CHR 0x80, CHR 0x9E], CHR 0x22), ([CHR 0xE2, CHR 0x80, CHR 0x9F], CHR 0x22),
      ([CHR 0xC2, CHR 0xA0], CHR '' ''),
      ([CHR 0xE2, CHR 0x80, CHR 0x82], CHR '' ''), ([CHR 0xE2, CHR 0x80, CHR 0x83], CHR '' ''),
      ([CHR 0xE2, CHR 0x80, CHR 0x84], CHR '' ''), ([CHR 0xE2, CHR 0x80, CHR 0x85], CHR '' ''),
      ([CHR 0xE2, CHR 0x80, CHR 0x86], CHR '' ''), ([CHR 0xE2, CHR 0x80, CHR 0x87], CHR '' ''),
      ([CHR 0xE2, CHR 0x80, CHR 0x88], CHR '' ''), ([CHR 0xE2, CHR 0x80, CHR 0x89], CHR '' ''),
      ([CHR 0xE2, CHR 0x80, CHR 0x8A], CHR '' ''), ([CHR 0xE2, CHR 0x80, CHR 0xAF], CHR '' ''),
      ([CHR 0xE2, CHR 0x81, CHR 0x9F], CHR '' ''), ([CHR 0xE3, CHR 0x80, CHR 0x80], CHR '' '')]"

fun ascii_punctuation :: "nat \<Rightarrow> string \<Rightarrow> string" where
  "ascii_punctuation skip [] = []"
| "ascii_punctuation (Suc skip) (c # s) = ascii_punctuation skip s"
| "ascii_punctuation 0 (c # s) =
     (case find (\<lambda>(w, a). starts_with w (c # s)) punctuation of
        Some (w, a) \<Rightarrow> a # ascii_punctuation (length w - 1) s
      | None \<Rightarrow> c # ascii_punctuation 0 s)"

definition normalise :: "string \<Rightarrow> string" where
  "normalise s = ascii_punctuation 0 (trim s)"

text \<open>One pass: the first start position in the range at which all lines agree under \<open>f\<close>.
  The exact pass compares slices, which is the same with \<open>f = id\<close>.\<close>

definition agrees :: "(string \<Rightarrow> string) \<Rightarrow> string list \<Rightarrow> string list \<Rightarrow> nat \<Rightarrow> bool" where
  "agrees f xs pattern i \<longleftrightarrow>
     list_all (\<lambda>(p_idx, pat). f (xs ! (i + p_idx)) = f pat) (List.enumerate 0 pattern)"

definition agrees_exactly :: "string list \<Rightarrow> string list \<Rightarrow> nat \<Rightarrow> bool" where
  "agrees_exactly xs pattern i \<longleftrightarrow> take (length pattern) (drop i xs) = pattern"

definition search_range :: "nat \<Rightarrow> string list \<Rightarrow> string list \<Rightarrow> nat list" where
  "search_range search_start xs pattern = [search_start..<Suc (length xs - length pattern)]"

definition seek_sequence :: "string list \<Rightarrow> string list \<Rightarrow> nat \<Rightarrow> bool \<Rightarrow> nat option" where
  "seek_sequence xs pattern start eof =
     (if pattern = [] then Some start
      else if length pattern > length xs then None
      else
        (let search_start = (if eof \<and> length xs \<ge> length pattern then length xs - length pattern else start);
             range = search_range search_start xs pattern
         in case find (agrees_exactly xs pattern) range of
              Some i \<Rightarrow> Some i
            | None \<Rightarrow>
                (case find (agrees trim_end xs pattern) range of
                   Some i \<Rightarrow> Some i
                 | None \<Rightarrow>
                     (case find (agrees trim xs pattern) range of
                        Some i \<Rightarrow> Some i
                      | None \<Rightarrow> find (agrees normalise xs pattern) range))))"

section \<open>Facts\<close>

lemma agrees_iff:
  assumes "i + length pattern \<le> length xs"
  shows "agrees f xs pattern i \<longleftrightarrow> map f (take (length pattern) (drop i xs)) = map f pattern"
proof -
  have "agrees f xs pattern i \<longleftrightarrow> (\<forall>j < length pattern. f (xs ! (i + j)) = f (pattern ! j))"
    by (auto simp: agrees_def list_all_iff in_set_enumerate_eq)
  also have "\<dots> \<longleftrightarrow> map f (take (length pattern) (drop i xs)) = map f pattern"
    using assms by (auto simp: list_eq_iff_nth_eq)
  finally show ?thesis .
qed

lemma agrees_exactly_iff:
  "i + length pattern \<le> length xs \<Longrightarrow> agrees_exactly xs pattern i \<longleftrightarrow> agrees id xs pattern i"
  by (simp add: agrees_iff agrees_exactly_def)

lemma find_upt_Some:
  "find P [a..<b] = Some i \<longleftrightarrow> a \<le> i \<and> i < b \<and> P i \<and> (\<forall>j. a \<le> j \<and> j < i \<longrightarrow> \<not> P j)"
proof (induction "b - a" arbitrary: a)
  case 0
  then show ?case by auto
next
  case (Suc n)
  then have "[a..<b] = a # [Suc a..<b]" by (simp add: upt_conv_Cons)
  with Suc show ?case
    by (auto simp: Suc_le_eq le_less) (metis Suc_leI le_eq_less_or_eq)+
qed

text \<open>The passes in their order.\<close>

definition passes :: "(string \<Rightarrow> string) list" where
  "passes = [id, trim_end, trim, normalise]"

definition seek_start :: "string list \<Rightarrow> string list \<Rightarrow> nat \<Rightarrow> bool \<Rightarrow> nat" where
  "seek_start xs pattern start eof = (if eof then length xs - length pattern else start)"

lemma passes_nth [simp]:
  "passes ! 0 = id" "passes ! Suc 0 = trim_end" "passes ! 2 = trim" "passes ! 3 = normalise"
  by (simp_all add: passes_def numeral_eq_Suc)

text \<open>Position \<open>i\<close> is a match of pass \<open>k\<close>.\<close>

definition match_at :: "nat \<Rightarrow> string list \<Rightarrow> string list \<Rightarrow> nat \<Rightarrow> bool" where
  "match_at k xs pattern i \<longleftrightarrow> i + length pattern \<le> length xs
     \<and> map (passes ! k) (take (length pattern) (drop i xs)) = map (passes ! k) pattern"

lemma in_search_range:
  "length pattern \<le> length xs \<Longrightarrow>
     i \<in> set (search_range s xs pattern) \<longleftrightarrow> s \<le> i \<and> i + length pattern \<le> length xs"
  by (auto simp: search_range_def)

lemma find_pass:
  assumes "length pattern \<le> length xs" and "k < 4"
  shows "find (agrees (passes ! k) xs pattern) (search_range s xs pattern) = Some i \<longleftrightarrow>
     s \<le> i \<and> match_at k xs pattern i \<and> (\<forall>j. s \<le> j \<and> j < i \<longrightarrow> \<not> match_at k xs pattern j)"
  unfolding search_range_def find_upt_Some using assms by (auto simp: match_at_def agrees_iff)

lemma find_pass_None:
  assumes "length pattern \<le> length xs"
  shows "find (agrees (passes ! k) xs pattern) (search_range s xs pattern) = None \<longleftrightarrow>
     (\<forall>j. s \<le> j \<longrightarrow> \<not> match_at k xs pattern j)"
  using assms by (auto simp: find_None_iff_all in_search_range match_at_def agrees_iff)

lemma find_cong_set: "(\<And>x. x \<in> set xs \<Longrightarrow> P x = Q x) \<Longrightarrow> find P xs = find Q xs"
  by (induction xs) auto

lemma seek_passes:
  assumes "pattern \<noteq> []" and "length pattern \<le> length xs"
  shows "seek_sequence xs pattern start eof =
    (let f = (\<lambda>k. find (agrees (passes ! k) xs pattern) (search_range (seek_start xs pattern start eof) xs pattern))
     in case f 0 of Some i \<Rightarrow> Some i | None \<Rightarrow> (case f 1 of Some i \<Rightarrow> Some i | None \<Rightarrow>
        (case f 2 of Some i \<Rightarrow> Some i | None \<Rightarrow> f 3)))"
proof -
  have "find (agrees_exactly xs pattern) (search_range s xs pattern)
      = find (agrees id xs pattern) (search_range s xs pattern)" for s
    by (rule find_cong_set) (use assms in \<open>simp add: in_search_range agrees_exactly_iff\<close>)
  with assms show ?thesis
    by (auto simp: seek_sequence_def seek_start_def Let_def not_less split: option.split)
qed

lemma Ex_less_4: "(\<exists>k < (4 :: nat). P k) \<longleftrightarrow> P 0 \<or> P 1 \<or> P 2 \<or> P 3"
  by (auto simp: numeral_eq_Suc less_Suc_eq)

lemma All_less_few:
  "(\<forall>k < (0 :: nat). P k) \<longleftrightarrow> True" "(\<forall>k < (1 :: nat). P k) \<longleftrightarrow> P 0"
  "(\<forall>k < (2 :: nat). P k) \<longleftrightarrow> P 0 \<and> P 1" "(\<forall>k < (3 :: nat). P k) \<longleftrightarrow> P 0 \<and> P 1 \<and> P 2"
  by (auto simp: numeral_eq_Suc less_Suc_eq)

lemma first_of_four:
  "(case f 0 of Some i \<Rightarrow> Some i | None \<Rightarrow> (case f 1 of Some i \<Rightarrow> Some i | None \<Rightarrow>
        (case f 2 of Some i \<Rightarrow> Some i | None \<Rightarrow> f 3))) = Some i
   \<longleftrightarrow> (\<exists>k < (4 :: nat). f k = Some i \<and> (\<forall>k' < k. f k' = None))"
proof -
  have "(\<exists>k < (4 :: nat). f k = Some i \<and> (\<forall>k' < k. f k' = None)) \<longleftrightarrow>
      f 0 = Some i \<or> f 1 = Some i \<and> f 0 = None \<or> f 2 = Some i \<and> f 0 = None \<and> f 1 = None
      \<or> f 3 = Some i \<and> f 0 = None \<and> f 1 = None \<and> f 2 = None"
    by (subst Ex_less_4, (subst All_less_few)+, simp only: simp_thms)
  then show ?thesis
    by (cases "f 0"; cases "f 1"; cases "f 2") simp_all
qed

lemma seek_iff:
  assumes "pattern \<noteq> []"
  shows "seek_sequence xs pattern start eof = Some i \<longleftrightarrow>
    (\<exists>k < 4. seek_start xs pattern start eof \<le> i \<and> match_at k xs pattern i
       \<and> (\<forall>j. seek_start xs pattern start eof \<le> j \<and> j < i \<longrightarrow> \<not> match_at k xs pattern j)
       \<and> (\<forall>k' < k. \<forall>j \<ge> seek_start xs pattern start eof. \<not> match_at k' xs pattern j))"
proof (cases "length pattern \<le> length xs")
  case False
  then have "\<not> match_at k xs pattern i" for k i by (simp add: match_at_def)
  with False assms show ?thesis by (simp add: seek_sequence_def)
next
  case True
  let ?s = "seek_start xs pattern start eof"
  let ?f = "\<lambda>k. find (agrees (passes ! k) xs pattern) (search_range ?s xs pattern)"
  have some: "?f k = Some i \<longleftrightarrow> ?s \<le> i \<and> match_at k xs pattern i
      \<and> (\<forall>j. ?s \<le> j \<and> j < i \<longrightarrow> \<not> match_at k xs pattern j)" if "k < 4" for k i
    using find_pass [OF True that] .
  have none: "?f k = None \<longleftrightarrow> (\<forall>j \<ge> ?s. \<not> match_at k xs pattern j)" for k
    using find_pass_None [OF True] by blast
  have "seek_sequence xs pattern start eof = Some i \<longleftrightarrow>
      (\<exists>k < 4. ?f k = Some i \<and> (\<forall>k' < k. ?f k' = None))"
    using first_of_four [of ?f i] by (simp only: seek_passes [OF assms True] Let_def)
  also have "\<dots> \<longleftrightarrow> (\<exists>k < 4. ?s \<le> i \<and> match_at k xs pattern i
      \<and> (\<forall>j. ?s \<le> j \<and> j < i \<longrightarrow> \<not> match_at k xs pattern j)
      \<and> (\<forall>k' < k. \<forall>j \<ge> ?s. \<not> match_at k' xs pattern j))"
    unfolding none by (rule arg_cong [where f = Ex], rule ext, rule conj_cong [OF refl]) (simp only: some conj_assoc)
  finally show ?thesis .
qed

text \<open>What the callers use: a match lies inside the file and, without \<open>eof\<close>, not before the
  start.\<close>

lemma seek_bounds:
  assumes "seek_sequence xs pattern start eof = Some i" and "pattern \<noteq> []"
  shows "i + length pattern \<le> length xs" and "\<not> eof \<Longrightarrow> start \<le> i"
    and "\<exists>k < 4. match_at k xs pattern i" and "eof \<Longrightarrow> i = length xs - length pattern"
proof -
  obtain k where "k < 4" "seek_start xs pattern start eof \<le> i" "match_at k xs pattern i"
    using assms seek_iff by blast
  then show "i + length pattern \<le> length xs" "\<not> eof \<Longrightarrow> start \<le> i" "\<exists>k < 4. match_at k xs pattern i"
      "eof \<Longrightarrow> i = length xs - length pattern"
    by (auto simp: match_at_def seek_start_def)
qed

section \<open>Properties\<close>

text \<open>\<open>seek_sequence\<close> finds a non-empty pattern exactly if some pass matches somewhere in the
  range, and then it returns the first match of the strictest pass that has one.\<close>

theorem seek_strictest_first:
  assumes "pattern \<noteq> []"
  shows "seek_sequence xs pattern start eof = Some i \<longleftrightarrow>
    (\<exists>k < 4. seek_start xs pattern start eof \<le> i \<and> match_at k xs pattern i
       \<and> (\<forall>j. seek_start xs pattern start eof \<le> j \<and> j < i \<longrightarrow> \<not> match_at k xs pattern j)
       \<and> (\<forall>k' < k. \<forall>j \<ge> seek_start xs pattern start eof. \<not> match_at k' xs pattern j))"
  by (rule seek_iff [OF assms])

theorem seek_strictest_first_witness:
  "seek_sequence [''a '', ''b'', ''a''] [''a''] 0 False = Some 2"
  by (subst seek_strictest_first, simp, rule exI [of _ 0])
     (auto simp: match_at_def seek_start_def less_Suc_eq numeral_eq_Suc)

text \<open>With \<open>eof\<close> a non-empty pattern is only ever found at the very end of the file,
  wherever the search was asked to start.\<close>

theorem seek_eof_only_at_end:
  assumes "seek_sequence xs pattern start True = Some i" and "pattern \<noteq> []"
  shows "i = length xs - length pattern"
  using seek_bounds(4) [OF assms] by simp

theorem seek_eof_only_at_end_witness: "(0 :: nat) = length [''a''] - length [''a'']"
proof -
  have "seek_sequence [''a''] [''a''] 5 True = Some 0" by code_simp
  from seek_eof_only_at_end [OF this] show ?thesis by simp
qed

end
