(* ===== verification/PatchParser.thy ===== *)
theory PatchParser
  imports RustStr
begin

text \<open>
  The parser of the patch format (\<open>apply-patch/src/parser.rs\<close>): the envelope, strict and
  lenient, one hunk, one chunk, the line numbers of its errors. A path is its text.
\<close>

section \<open>Definitions\<close>

definition BEGIN_PATCH_MARKER :: string where "BEGIN_PATCH_MARKER = ''*** Begin Patch''"
definition END_PATCH_MARKER :: string where "END_PATCH_MARKER = ''*** End Patch''"
definition ADD_FILE_MARKER :: string where "ADD_FILE_MARKER = ''*** Add File: ''"
definition DELETE_FILE_MARKER :: string where "DELETE_FILE_MARKER = ''*** Delete File: ''"
definition UPDATE_FILE_MARKER :: string where "UPDATE_FILE_MARKER = ''*** Update File: ''"
definition MOVE_TO_MARKER :: string where "MOVE_TO_MARKER = ''*** Move to: ''"
definition EOF_MARKER :: string where "EOF_MARKER = ''*** End of File''"
definition CHANGE_CONTEXT_MARKER :: string where "CHANGE_CONTEXT_MARKER = ''@@ ''"
definition EMPTY_CHANGE_CONTEXT_MARKER :: string where "EMPTY_CHANGE_CONTEXT_MARKER = ''@@''"

lemmas markers = BEGIN_PATCH_MARKER_def END_PATCH_MARKER_def ADD_FILE_MARKER_def
  DELETE_FILE_MARKER_def UPDATE_FILE_MARKER_def MOVE_TO_MARKER_def EOF_MARKER_def
  CHANGE_CONTEXT_MARKER_def EMPTY_CHANGE_CONTEXT_MARKER_def

definition PARSE_IN_STRICT_MODE :: bool where "PARSE_IN_STRICT_MODE \<longleftrightarrow> False"

datatype parse_error = InvalidPatchError string | InvalidHunkError string nat

record update_file_chunk =
  uc_change_context :: "string option"
  uc_old_lines :: "string list"
  uc_new_lines :: "string list"
  uc_is_end_of_file :: bool

datatype hunk =
    AddFile string string
  | DeleteFile string
  | UpdateFile string "string option" "update_file_chunk list"

record parsed_patch =
  pp_hunks :: "hunk list"
  pp_patch :: string

datatype parse_mode = Strict | Lenient

text \<open>A text between two single quotes.\<close>

definition quoted :: "string \<Rightarrow> string" where
  "quoted s = [CHR 0x27] @ s @ [CHR 0x27]"

subsection \<open>The envelope\<close>

definition check_start_and_end_lines_strict :: "string option \<Rightarrow> string option \<Rightarrow> parse_error + unit" where
  "check_start_and_end_lines_strict first_line last_line =
     (case (map_option trim first_line, map_option trim last_line) of
        (Some first, Some last') \<Rightarrow>
          if first = BEGIN_PATCH_MARKER \<and> last' = END_PATCH_MARKER then Inr ()
          else if first \<noteq> BEGIN_PATCH_MARKER
          then Inl (InvalidPatchError (''The first line of the patch must be '' @ quoted ''*** Begin Patch''))
          else Inl (InvalidPatchError (''The last line of the patch must be '' @ quoted ''*** End Patch''))
      | (Some first, None) \<Rightarrow>
          if first \<noteq> BEGIN_PATCH_MARKER
          then Inl (InvalidPatchError (''The first line of the patch must be '' @ quoted ''*** Begin Patch''))
          else Inl (InvalidPatchError (''The last line of the patch must be '' @ quoted ''*** End Patch''))
      | (None, _) \<Rightarrow>
          Inl (InvalidPatchError (''The last line of the patch must be '' @ quoted ''*** End Patch'')))"

definition check_patch_boundaries_strict :: "string list \<Rightarrow> parse_error + unit" where
  "check_patch_boundaries_strict ls =
     (case ls of
        [] \<Rightarrow> check_start_and_end_lines_strict None None
      | [first] \<Rightarrow> check_start_and_end_lines_strict (Some first) (Some first)
      | first # rest \<Rightarrow> check_start_and_end_lines_strict (Some first) (Some (last rest)))"

definition check_patch_boundaries_lenient :: "string list \<Rightarrow> parse_error \<Rightarrow> parse_error + string list" where
  "check_patch_boundaries_lenient original_lines original_parse_error =
     (case original_lines of
        first # second # rest \<Rightarrow>
          if (first = ''<<EOF'' \<or> first = ''<<'' @ quoted ''EOF'' \<or> first = ''<<'' @ [CHR 0x22] @ ''EOF'' @ [CHR 0x22])
              \<and> ends_with ''EOF'' (last (second # rest))
              \<and> length original_lines \<ge> 4
          then
            (let inner_lines = take (length original_lines - 2) (drop 1 original_lines)
             in case check_patch_boundaries_strict inner_lines of
                  Inr _ \<Rightarrow> Inr inner_lines
                | Inl e \<Rightarrow> Inl e)
          else Inl original_parse_error
      | _ \<Rightarrow> Inl original_parse_error)"

subsection \<open>One chunk\<close>

text \<open>The loop over the lines of a chunk; it returns the chunk and the lines taken.\<close>

fun chunk_lines :: "nat \<Rightarrow> nat \<Rightarrow> update_file_chunk \<Rightarrow> string list \<Rightarrow> parse_error + update_file_chunk \<times> nat" where
  "chunk_lines line_number parsed_lines chunk [] = Inr (chunk, parsed_lines)"
| "chunk_lines line_number parsed_lines chunk (line # rest) =
     (if line = EOF_MARKER then
        (if parsed_lines = 0
         then Inl (InvalidHunkError ''Update hunk does not contain any lines'' (line_number + 1))
         else Inr (chunk\<lparr>uc_is_end_of_file := True\<rparr>, parsed_lines + 1))
      else case line of
        [] \<Rightarrow> chunk_lines line_number (parsed_lines + 1)
          (chunk\<lparr>uc_old_lines := uc_old_lines chunk @ [[]], uc_new_lines := uc_new_lines chunk @ [[]]\<rparr>) rest
      | c # text \<Rightarrow>
          (if c = CHR '' '' then chunk_lines line_number (parsed_lines + 1)
             (chunk\<lparr>uc_old_lines := uc_old_lines chunk @ [text], uc_new_lines := uc_new_lines chunk @ [text]\<rparr>) rest
           else if c = CHR ''+'' then chunk_lines line_number (parsed_lines + 1)
             (chunk\<lparr>uc_new_lines := uc_new_lines chunk @ [text]\<rparr>) rest
           else if c = CHR ''-'' then chunk_lines line_number (parsed_lines + 1)
             (chunk\<lparr>uc_old_lines := uc_old_lines chunk @ [text]\<rparr>) rest
           else if parsed_lines = 0
           then Inl (InvalidHunkError (''Unexpected line found in update hunk: '' @ quoted line
             @ ''. Every line should start with '' @ quoted '' '' @ '' (context line), '' @ quoted ''+''
             @ '' (added line), or '' @ quoted ''-'' @ '' (removed line)'') (line_number + 1))
           else Inr (chunk, parsed_lines)))"

definition parse_update_file_chunk ::
  "string list \<Rightarrow> nat \<Rightarrow> bool \<Rightarrow> parse_error + update_file_chunk \<times> nat" where
  "parse_update_file_chunk ls line_number allow_missing_context =
     (case ls of
        [] \<Rightarrow> Inl (InvalidHunkError ''Update hunk does not contain any lines'' line_number)
      | first # _ \<Rightarrow>
          (case (if first = EMPTY_CHANGE_CONTEXT_MARKER then Inr (None, 1)
                 else case strip_prefix CHANGE_CONTEXT_MARKER first of
                   Some context' \<Rightarrow> Inr (Some context', 1)
                 | None \<Rightarrow>
                     if \<not> allow_missing_context
                     then Inl (InvalidHunkError (''Expected update hunk to start with a @@ context marker, got: ''
                       @ quoted first) line_number)
                     else Inr (None, 0)) of
             Inl e \<Rightarrow> Inl e
           | Inr (change_context, start_index) \<Rightarrow>
               if start_index \<ge> length ls
               then Inl (InvalidHunkError ''Update hunk does not contain any lines'' (line_number + 1))
               else
                 (case chunk_lines line_number 0
                        \<lparr>uc_change_context = change_context, uc_old_lines = [], uc_new_lines = [],
                         uc_is_end_of_file = False\<rparr> (drop start_index ls) of
                    Inl e \<Rightarrow> Inl e
                  | Inr (chunk, parsed_lines) \<Rightarrow> Inr (chunk, parsed_lines + start_index))))"

lemma chunk_lines_count:
  "chunk_lines ln n c ls = Inr (c', m) \<Longrightarrow>
     n \<le> m \<and> m \<le> n + length ls \<and> (ls \<noteq> [] \<longrightarrow> 0 < m)"
  by (induction ln n c ls rule: chunk_lines.induct) (fastforce split: if_splits list.splits)+

lemma chunk_count:
  "parse_update_file_chunk ls ln allow = Inr (c, n) \<Longrightarrow> 0 < n \<and> n \<le> length ls"
  by (auto simp: parse_update_file_chunk_def split: list.splits if_splits option.splits sum.splits prod.splits
      dest!: chunk_lines_count)

subsection \<open>One hunk\<close>

fun add_lines :: "string list \<Rightarrow> string \<times> nat" where
  "add_lines [] = ([], 0)"
| "add_lines (line # rest) = (case strip_prefix ''+'' line of
      Some line_to_add \<Rightarrow> (case add_lines rest of (contents, n) \<Rightarrow> (line_to_add @ [LF] @ contents, Suc n))
    | None \<Rightarrow> ([], 0))"

text \<open>The loop over the chunks of an update: the chunks so far and the lines parsed so far.\<close>

function update_chunks ::
  "nat \<Rightarrow> nat \<Rightarrow> update_file_chunk list \<Rightarrow> string list \<Rightarrow> parse_error + update_file_chunk list \<times> nat" where
  "update_chunks line_number parsed_lines chunks remaining =
     (if remaining = [] then Inr (chunks, parsed_lines)
      else if trim (hd remaining) = []
      then update_chunks line_number (parsed_lines + 1) chunks (tl remaining)
      else if starts_with ''***'' (hd remaining) then Inr (chunks, parsed_lines)
      else case parse_update_file_chunk remaining (line_number + parsed_lines) (chunks = []) of
        Inl e \<Rightarrow> Inl e
      | Inr (chunk, n) \<Rightarrow>
          update_chunks line_number (parsed_lines + n) (chunks @ [chunk]) (drop n remaining))"
  by pat_completeness auto
termination
proof (relation "measure (\<lambda>(ln, n, cs, ls). length ls)", goal_cases)
  case (3 ln n cs ls r c m)
  then show ?case using chunk_count [of ls "ln + n" "cs = []" c m] by (cases ls) auto
qed auto

declare update_chunks.simps [simp del]

definition parse_one_hunk :: "string list \<Rightarrow> nat \<Rightarrow> parse_error + hunk \<times> nat" where
  "parse_one_hunk ls line_number =
     (let first_line = trim (hd ls)
      in case strip_prefix ADD_FILE_MARKER first_line of
        Some path \<Rightarrow> (case add_lines (tl ls) of (contents, n) \<Rightarrow> Inr (AddFile path contents, Suc n))
      | None \<Rightarrow>
          (case strip_prefix DELETE_FILE_MARKER first_line of
             Some path \<Rightarrow> Inr (DeleteFile path, 1)
           | None \<Rightarrow>
               (case strip_prefix UPDATE_FILE_MARKER first_line of
                  Some path \<Rightarrow>
                    (let remaining = tl ls;
                         move_path = (case remaining of [] \<Rightarrow> None | l # _ \<Rightarrow> strip_prefix MOVE_TO_MARKER l);
                         moved = move_path \<noteq> None
                     in case update_chunks line_number (if moved then 2 else 1) []
                            (if moved then tl remaining else remaining) of
                          Inl e \<Rightarrow> Inl e
                        | Inr (chunks, parsed_lines) \<Rightarrow>
                            if chunks = []
                            then Inl (InvalidHunkError (''Update file hunk for path '' @ quoted path @ '' is empty'') line_number)
                            else Inr (UpdateFile path move_path chunks, parsed_lines))
                | None \<Rightarrow> Inl (InvalidHunkError (quoted first_line
                    @ '' is not a valid hunk header. Valid hunk headers: '' @ quoted ''*** Add File: {path}''
                    @ '', '' @ quoted ''*** Delete File: {path}'' @ '', ''
                    @ quoted ''*** Update File: {path}'') line_number))))"

lemma add_lines_count: "snd (add_lines ls) \<le> length ls"
  by (induction ls) (auto split: option.split prod.splits)

lemma update_chunks_Nil [simp]: "update_chunks ln n cs [] = Inr (cs, n)"
  by (simp add: update_chunks.simps)

lemma update_chunks_count:
  "update_chunks ln n cs ls = Inr (cs', m) \<Longrightarrow> n \<le> m \<and> m \<le> n + length ls"
proof (induction ln n cs ls rule: update_chunks.induct)
  case (1 ln n cs ls)
  show ?case
  proof (cases "ls = [] \<or> trim (hd ls) \<noteq> [] \<and> starts_with ''***'' (hd ls)")
    case True
    with 1(3) show ?thesis by (cases "ls = []") (simp_all add: update_chunks.simps [of ln n cs ls])
  next
    case False
    show ?thesis
    proof (cases "trim (hd ls) = []")
      case True
      with False 1(3) have "update_chunks ln (n + 1) cs (tl ls) = Inr (cs', m)"
        by (simp add: update_chunks.simps [of ln n cs ls])
      with 1(1) False True have "n + 1 \<le> m \<and> m \<le> n + 1 + length (tl ls)" by blast
      with False show ?thesis by (cases ls) auto
    next
      case blank: False
      with False 1(3) obtain c k where c: "parse_update_file_chunk ls (ln + n) (cs = []) = Inr (c, k)"
        and "update_chunks ln (n + k) (cs @ [c]) (drop k ls) = Inr (cs', m)"
        by (auto simp: update_chunks.simps [of ln n cs ls] split: sum.splits)
      with 1(2) False blank have "n + k \<le> m \<and> m \<le> n + k + length (drop k ls)" by blast
      with chunk_count [OF c] show ?thesis by simp
    qed
  qed
qed

lemma hunk_count:
  assumes "parse_one_hunk ls ln = Inr (h, n)" and "ls \<noteq> []"
  shows "0 < n \<and> n \<le> length ls"
proof -
  obtain l rest where ls: "ls = l # rest" using assms(2) by (cases ls) auto
  let ?mv = "case rest of [] \<Rightarrow> None | x # _ \<Rightarrow> strip_prefix MOVE_TO_MARKER x"
  consider
      contents where "add_lines rest = (contents, n - 1)" "0 < n"
    | "n = 1"
    | cs where "update_chunks ln (if ?mv \<noteq> None then 2 else 1) [] (if ?mv \<noteq> None then tl rest else rest) = Inr (cs, n)"
    using assms(1) by (auto simp: parse_one_hunk_def ls Let_def split: option.splits sum.splits prod.splits if_splits)
  then show ?thesis
  proof cases
    case 1
    with add_lines_count [of rest] show ?thesis by (simp add: ls)
  next
    case 2
    then show ?thesis by (simp add: ls)
  next
    case 3
    with update_chunks_count [OF 3] show ?thesis
      by (cases rest) (auto simp: ls split: if_splits option.splits)
  qed
qed

subsection \<open>The patch\<close>

function parse_hunks :: "nat \<Rightarrow> string list \<Rightarrow> parse_error + hunk list" where
  "parse_hunks line_number remaining =
     (if remaining = [] then Inr []
      else case parse_one_hunk remaining line_number of
        Inl e \<Rightarrow> Inl e
      | Inr (hunk, n) \<Rightarrow>
          (case parse_hunks (line_number + n) (drop n remaining) of
             Inl e \<Rightarrow> Inl e
           | Inr hunks \<Rightarrow> Inr (hunk # hunks)))"
  by pat_completeness auto
termination
proof (relation "measure (\<lambda>(ln, ls). length ls)", goal_cases)
  case (2 ln ls r h n)
  then show ?case using hunk_count [of ls ln h n] by auto
qed auto

declare parse_hunks.simps [simp del]

definition parse_patch_text :: "string \<Rightarrow> parse_mode \<Rightarrow> parse_error + parsed_patch" where
  "parse_patch_text patch mode =
     (let lines0 = str_lines (trim patch)
      in case (case check_patch_boundaries_strict lines0 of
                 Inr _ \<Rightarrow> Inr lines0
               | Inl e \<Rightarrow> (case mode of Strict \<Rightarrow> Inl e | Lenient \<Rightarrow> check_patch_boundaries_lenient lines0 e)) of
           Inl e \<Rightarrow> Inl e
         | Inr ls \<Rightarrow>
             (let last_line_index = length ls - 1
              in case parse_hunks 2 (take (last_line_index - 1) (drop 1 ls)) of
                   Inl e \<Rightarrow> Inl e
                 | Inr hunks \<Rightarrow> Inr \<lparr>pp_hunks = hunks, pp_patch = join [LF] ls\<rparr>))"

definition parse_patch :: "string \<Rightarrow> parse_error + parsed_patch" where
  "parse_patch patch = parse_patch_text patch (if PARSE_IN_STRICT_MODE then Strict else Lenient)"

end
