(* ===== verification/PatchRoundtrip.thy ===== *)
theory PatchRoundtrip
  imports PatchParser
begin

text \<open>
  A printer for patches and the proof that \<open>parse_patch\<close> reads back what it printed, with the
  line counts of every level.
\<close>

section \<open>White space at the ends\<close>

definition ws_bytes :: "char set" where
  "ws_bytes = set (concat ws_utf8)"

lemma trailing_ws_snoc: "c \<notin> ws_bytes \<Longrightarrow> trailing_ws (s @ [c]) = None"
proof -
  assume c: "c \<notin> ws_bytes"
  have "\<not> ends_with w (s @ [c])" if "w \<in> set ws_utf8" for w
  proof
    assume "ends_with w (s @ [c])"
    then obtain r where "s @ [c] = r @ w" by (auto simp: ends_with_iff)
    with ws_nonempty [OF that] have "c = last w" by (metis last_appendR last_snoc)
    with ws_nonempty [OF that] that c show False by (auto simp: ws_bytes_def)
  qed
  then show ?thesis by (simp add: trailing_ws_None)
qed

lemma leading_ws_Cons: "c \<notin> ws_bytes \<Longrightarrow> leading_ws (c # s) = None"
proof -
  assume c: "c \<notin> ws_bytes"
  have "\<not> starts_with w (c # s)" if "w \<in> set ws_utf8" for w
  proof
    assume "starts_with w (c # s)"
    then obtain r where "c # s = w @ r" by (auto simp: starts_with_iff)
    with ws_nonempty [OF that] have "c \<in> set w" by (cases w) auto
    with that c show False by (auto simp: ws_bytes_def)
  qed
  then show ?thesis by (simp add: leading_ws_None)
qed

lemma trim_end_nonempty: "c \<notin> ws_bytes \<Longrightarrow> c \<in> set s \<Longrightarrow> c \<in> set (trim_end s)"
proof (induction s rule: trim_end.induct)
  case (1 s)
  show ?case
  proof (cases "trailing_ws s")
    case None
    with 1 show ?thesis by (simp add: trim_end_id)
  next
    case (Some w)
    then have w: "w \<in> set ws_utf8" "ends_with w s"
      by (auto simp: trailing_ws_def dest: find_Some_in)
    then obtain r where s: "s = r @ w" by (auto simp: ends_with_iff)
    from w(1) 1(2) have "c \<notin> set w" by (auto simp: ws_bytes_def)
    with 1(3) s have "c \<in> set (take (length s - length w) s)" by simp
    with 1(1) [OF Some 1(2)] Some show ?thesis by (simp add: trim_end.simps [of s])
  qed
qed

lemma trim_Cons_nonempty: "c \<notin> ws_bytes \<Longrightarrow> trim (c # s) \<noteq> []"
  using trim_end_nonempty [of c "c # s"] by (auto simp: trim_def trim_start_id leading_ws_Cons)

lemma marker_bytes: "CHR ''*'' \<notin> ws_bytes" "CHR ''@'' \<notin> ws_bytes" "CHR ''h'' \<notin> ws_bytes"
  by (simp_all add: ws_bytes_def ws_utf8_def)

section \<open>The printer\<close>

definition chunk_header :: "string option \<Rightarrow> string" where
  "chunk_header ctx = (case ctx of None \<Rightarrow> EMPTY_CHANGE_CONTEXT_MARKER | Some c \<Rightarrow> CHANGE_CONTEXT_MARKER @ c)"

definition render_chunk :: "update_file_chunk \<Rightarrow> string list" where
  "render_chunk c = chunk_header (uc_change_context c)
     # map (\<lambda>l. CHR ''-'' # l) (uc_old_lines c) @ map (\<lambda>l. CHR ''+'' # l) (uc_new_lines c)
     @ (if uc_is_end_of_file c then [EOF_MARKER] else [])"

text \<open>The lines of the contents of a new file, each of which ends in a line feed.\<close>

definition content_lines :: "string \<Rightarrow> string list" where
  "content_lines contents = butlast (split_on LF contents)"

fun render_hunk :: "hunk \<Rightarrow> string list" where
  "render_hunk (AddFile path contents) =
     (ADD_FILE_MARKER @ path) # map (\<lambda>l. CHR ''+'' # l) (content_lines contents)"
| "render_hunk (DeleteFile path) = [DELETE_FILE_MARKER @ path]"
| "render_hunk (UpdateFile path move_path chunks) =
     (UPDATE_FILE_MARKER @ path)
     # (case move_path of None \<Rightarrow> [] | Some m \<Rightarrow> [MOVE_TO_MARKER @ m])
     @ concat (map render_chunk chunks)"

definition render_lines :: "hunk list \<Rightarrow> string list" where
  "render_lines hunks = BEGIN_PATCH_MARKER # concat (map render_hunk hunks) @ [END_PATCH_MARKER]"

definition render_patch :: "hunk list \<Rightarrow> string" where
  "render_patch hunks = join [LF] (render_lines hunks)"

text \<open>What can be printed: lines without line feeds and without a carriage return at the end,
  headers that do not end in white space, contents that end in a line feed, chunks with at
  least one line, updates with at least one chunk.\<close>

definition plain :: "string \<Rightarrow> bool" where
  "plain l \<longleftrightarrow> LF \<notin> set l \<and> \<not> ends_with [CR] l"

definition plain_path :: "string \<Rightarrow> bool" where
  "plain_path p \<longleftrightarrow> plain p \<and> p \<noteq> [] \<and> trailing_ws (UPDATE_FILE_MARKER @ p) = None
     \<and> trailing_ws (ADD_FILE_MARKER @ p) = None \<and> trailing_ws (DELETE_FILE_MARKER @ p) = None"

definition printable_chunk :: "update_file_chunk \<Rightarrow> bool" where
  "printable_chunk c \<longleftrightarrow> (uc_old_lines c \<noteq> [] \<or> uc_new_lines c \<noteq> [])
     \<and> list_all plain (uc_old_lines c) \<and> list_all plain (uc_new_lines c)
     \<and> (case uc_change_context c of None \<Rightarrow> True | Some x \<Rightarrow> plain (CHANGE_CONTEXT_MARKER @ x))"

fun printable_hunk :: "hunk \<Rightarrow> bool" where
  "printable_hunk (AddFile path contents) \<longleftrightarrow>
     plain_path path \<and> last (split_on LF contents) = [] \<and> list_all plain (content_lines contents)"
| "printable_hunk (DeleteFile path) \<longleftrightarrow> plain_path path"
| "printable_hunk (UpdateFile path move_path chunks) \<longleftrightarrow>
     plain_path path \<and> (case move_path of None \<Rightarrow> True | Some m \<Rightarrow> plain (MOVE_TO_MARKER @ m))
     \<and> chunks \<noteq> [] \<and> list_all printable_chunk chunks"

section \<open>Reading a chunk back\<close>

text \<open>What may follow a chunk: the next chunk, or a line that starts a hunk.\<close>

definition ends_chunk :: "string list \<Rightarrow> bool" where
  "ends_chunk rest \<longleftrightarrow> rest = [] \<or> (\<exists>c l. hd rest = c # l \<and> c \<in> {CHR ''@'', CHR ''*''} \<and> hd rest \<noteq> EOF_MARKER)"

lemma chunk_lines_minus:
  "chunk_lines ln n c (map (\<lambda>l. CHR ''-'' # l) ls @ rest)
    = chunk_lines ln (n + length ls) (c\<lparr>uc_old_lines := uc_old_lines c @ ls\<rparr>) rest"
  by (induction ls arbitrary: n c) (simp_all add: EOF_MARKER_def)

lemma chunk_lines_plus:
  "chunk_lines ln n c (map (\<lambda>l. CHR ''+'' # l) ls @ rest)
    = chunk_lines ln (n + length ls) (c\<lparr>uc_new_lines := uc_new_lines c @ ls\<rparr>) rest"
  by (induction ls arbitrary: n c) (simp_all add: EOF_MARKER_def)

lemma chunk_lines_end:
  "ends_chunk rest \<Longrightarrow> 0 < n \<Longrightarrow> chunk_lines ln n c rest = Inr (c, n)"
  by (cases rest) (auto simp: ends_chunk_def)

lemma chunk_lines_eof: "0 < n \<Longrightarrow> chunk_lines ln n c (EOF_MARKER # rest) = Inr (c\<lparr>uc_is_end_of_file := True\<rparr>, n + 1)"
  by simp

lemma parse_rendered_chunk:
  assumes c: "printable_chunk c" and rest: "ends_chunk rest"
  shows "parse_update_file_chunk (render_chunk c @ rest) ln allow = Inr (c, length (render_chunk c))"
proof -
  let ?body = "map (\<lambda>l. CHR ''-'' # l) (uc_old_lines c) @ map (\<lambda>l. CHR ''+'' # l) (uc_new_lines c)
     @ (if uc_is_end_of_file c then [EOF_MARKER] else []) @ rest"
  let ?start = "\<lparr>uc_change_context = uc_change_context c, uc_old_lines = [], uc_new_lines = [],
     uc_is_end_of_file = False\<rparr>"
  have len: "0 < length (uc_old_lines c) + length (uc_new_lines c)"
    using c by (auto simp: printable_chunk_def)
  have "chunk_lines ln 0 ?start ?body
      = Inr (c, length (uc_old_lines c) + length (uc_new_lines c) + (if uc_is_end_of_file c then 1 else 0))"
    using len rest by (simp add: chunk_lines_minus chunk_lines_plus chunk_lines_end chunk_lines_eof del: chunk_lines.simps)
  moreover have "render_chunk c @ rest = chunk_header (uc_change_context c) # ?body"
    by (simp add: render_chunk_def)
  moreover have "?body \<noteq> []" using len by auto
  ultimately show ?thesis
    by (cases "uc_change_context c")
       (auto simp: parse_update_file_chunk_def chunk_header_def markers render_chunk_def
          strip_prefix_def starts_with_def simp del: chunk_lines.simps)
qed

section \<open>Reading hunks back\<close>

text \<open>What may follow a hunk: nothing, or the first line of another hunk.\<close>

definition ends_hunk :: "string list \<Rightarrow> bool" where
  "ends_hunk rest \<longleftrightarrow> rest = [] \<or> (starts_with ''***'' (hd rest) \<and> hd rest \<noteq> EOF_MARKER
     \<and> \<not> starts_with MOVE_TO_MARKER (hd rest))"

lemma ends_hunk_chunk: "ends_hunk rest \<Longrightarrow> ends_chunk rest"
  by (cases "hd rest") (auto simp: ends_hunk_def ends_chunk_def)

lemma render_chunk_start: "\<exists>l ls. render_chunk c = (CHR ''@'' # l) # ls"
  by (cases "uc_change_context c") (auto simp: render_chunk_def chunk_header_def markers)

lemma chunks_end:
  "ends_hunk rest \<Longrightarrow> ends_chunk (concat (map render_chunk cs) @ rest)"
proof (cases cs)
  case (Cons c ds)
  obtain l ls where "render_chunk c = (CHR ''@'' # l) # ls" using render_chunk_start by blast
  then show ?thesis by (simp add: Cons ends_chunk_def EOF_MARKER_def)
qed (simp add: ends_hunk_chunk)

lemma update_chunks_stop: "ends_hunk rest \<Longrightarrow> update_chunks ln n cs rest = Inr (cs, n)"
proof (cases rest)
  case (Cons x xs)
  assume e: "ends_hunk rest"
  then obtain l where "x = CHR ''*'' # l" by (cases x) (auto simp: Cons ends_hunk_def)
  with e show ?thesis
    by (simp add: Cons update_chunks.simps [of ln n cs] trim_Cons_nonempty marker_bytes ends_hunk_def)
qed simp

lemma update_rendered_chunks:
  assumes "list_all printable_chunk cs" and "ends_hunk rest"
  shows "update_chunks ln n done (concat (map render_chunk cs) @ rest)
    = Inr (done @ cs, n + length (concat (map render_chunk cs)))"
  using assms(1)
proof (induction cs arbitrary: n "done")
  case Nil
  then show ?case by (simp add: update_chunks_stop [OF assms(2)])
next
  case (Cons c cs)
  obtain l ls where start: "render_chunk c = (CHR ''@'' # l) # ls" using render_chunk_start by blast
  let ?more = "concat (map render_chunk cs) @ rest"
  have parse: "parse_update_file_chunk (render_chunk c @ ?more) (ln + n) a = Inr (c, length (render_chunk c))" for a
    using Cons.prems parse_rendered_chunk [OF _ chunks_end [OF assms(2)]] by simp
  have "update_chunks ln n done (render_chunk c @ ?more)
      = update_chunks ln (n + length (render_chunk c)) (done @ [c]) (drop (length (render_chunk c)) (render_chunk c @ ?more))"
    using parse by (subst update_chunks.simps) (simp add: start trim_Cons_nonempty marker_bytes)
  also have "\<dots> = Inr ((done @ [c]) @ cs, n + length (render_chunk c) + length (concat (map render_chunk cs)))"
    using Cons by simp
  finally show ?case by simp
qed

lemma add_rendered_lines:
  assumes "rest = [] \<or> \<not> starts_with ''+'' (hd rest)"
  shows "add_lines (map (\<lambda>l. CHR ''+'' # l) ls @ rest) = (concat (map (\<lambda>l. l @ [LF]) ls), length ls)"
proof (induction ls)
  case Nil
  with assms show ?case by (cases rest) (auto simp: strip_prefix_def)
qed (simp add: strip_prefix_def starts_with_def)

lemma concat_lines_join: "ls \<noteq> [] \<Longrightarrow> concat (map (\<lambda>l. l @ [c]) (butlast ls)) @ last ls = join [c] ls"
  by (induction ls rule: join.induct [of "\<lambda>_. _" "[c]"]) auto

lemma content_lines_concat:
  assumes "last (split_on LF contents) = []"
  shows "concat (map (\<lambda>l. l @ [LF]) (content_lines contents)) = contents"
  using concat_lines_join [of "split_on LF contents" LF] assms by (simp add: content_lines_def)

lemma trim_header:
  "trailing_ws (CHR ''*'' # l) = None \<Longrightarrow> trim (CHR ''*'' # l) = CHR ''*'' # l"
  by (rule trim_id) (simp_all add: leading_ws_Cons marker_bytes)

lemma strip_other:
  "strip_prefix ADD_FILE_MARKER (DELETE_FILE_MARKER @ p) = None"
  "strip_prefix ADD_FILE_MARKER (UPDATE_FILE_MARKER @ p) = None"
  "strip_prefix DELETE_FILE_MARKER (UPDATE_FILE_MARKER @ p) = None"
  by (simp_all add: strip_prefix_def starts_with_def markers)

lemma trim_headers:
  assumes "plain_path p"
  shows "trim (ADD_FILE_MARKER @ p) = ADD_FILE_MARKER @ p" "trim (DELETE_FILE_MARKER @ p) = DELETE_FILE_MARKER @ p"
    "trim (UPDATE_FILE_MARKER @ p) = UPDATE_FILE_MARKER @ p"
  using assms by (simp_all add: plain_path_def markers trim_header)

lemma parse_rendered_hunk:
  assumes h: "printable_hunk h" and rest: "ends_hunk rest"
  shows "parse_one_hunk (render_hunk h @ rest) ln = Inr (h, length (render_hunk h))"
proof (cases h)
  case (AddFile p contents)
  have "rest = [] \<or> \<not> starts_with ''+'' (hd rest)"
    using rest by (cases "hd rest") (auto simp: ends_hunk_def)
  with h show ?thesis
    by (simp add: AddFile parse_one_hunk_def Let_def trim_headers add_rendered_lines content_lines_concat)
next
  case (DeleteFile p)
  with h show ?thesis by (simp add: parse_one_hunk_def Let_def trim_headers strip_other)
next
  case (UpdateFile p mv cs)
  obtain c ds where cs: "cs = c # ds" using h UpdateFile by (cases cs) auto
  obtain l ls where start: "render_chunk c = (CHR ''@'' # l) # ls" using render_chunk_start by blast
  have "update_chunks ln n [] (concat (map render_chunk cs) @ rest)
      = Inr (cs, n + length (concat (map render_chunk cs)))" for n
    using h UpdateFile update_rendered_chunks [OF _ rest, of cs ln n "[]"] by simp
  with h show ?thesis
    by (cases mv)
       (simp_all add: UpdateFile parse_one_hunk_def Let_def trim_headers strip_other cs start,
        simp add: strip_prefix_def starts_with_def MOVE_TO_MARKER_def)
qed

lemma render_hunk_ends: "ends_hunk (concat (map render_hunk hs))"
proof (cases hs)
  case (Cons h ds)
  then show ?thesis by (cases h) (simp_all add: ends_hunk_def markers)
qed (simp add: ends_hunk_def)

lemma parse_rendered_hunks:
  "list_all printable_hunk hs \<Longrightarrow> parse_hunks ln (concat (map render_hunk hs)) = Inr hs"
proof (induction hs arbitrary: ln)
  case Nil
  then show ?case by (simp add: parse_hunks.simps)
next
  case (Cons h hs)
  have "parse_one_hunk (render_hunk h @ concat (map render_hunk hs)) ln = Inr (h, length (render_hunk h))"
    using Cons.prems parse_rendered_hunk [OF _ render_hunk_ends] by simp
  moreover have "render_hunk h \<noteq> []" by (cases h) simp_all
  ultimately show ?case using Cons by (subst parse_hunks.simps) simp
qed

section \<open>Reading a patch back\<close>

lemma ends_with_char: "ends_with [c] s \<longleftrightarrow> s \<noteq> [] \<and> last s = c"
  by (cases s rule: rev_cases) (auto simp: ends_with_iff)

lemma trim_markers: "trim BEGIN_PATCH_MARKER = BEGIN_PATCH_MARKER" "trim END_PATCH_MARKER = END_PATCH_MARKER"
  by code_simp+

lemma plain_Cons: "plain x \<Longrightarrow> c \<noteq> LF \<Longrightarrow> c \<noteq> CR \<Longrightarrow> plain (c # x)"
  by (cases x) (auto simp: plain_def ends_with_char)

lemma plain_append: "plain x \<Longrightarrow> x \<noteq> [] \<Longrightarrow> LF \<notin> set m \<Longrightarrow> plain (m @ x)"
  by (auto simp: plain_def ends_with_char)

lemma plain_markers:
  "plain BEGIN_PATCH_MARKER" "plain END_PATCH_MARKER" "plain EOF_MARKER" "plain EMPTY_CHANGE_CONTEXT_MARKER"
  "LF \<notin> set ADD_FILE_MARKER" "LF \<notin> set DELETE_FILE_MARKER" "LF \<notin> set UPDATE_FILE_MARKER"
  by (simp_all add: markers plain_def ends_with_char)

lemma printable_chunk_plain:
  assumes "printable_chunk c" and "x \<in> set (render_chunk c)"
  shows "plain x"
proof -
  have "plain (chunk_header (uc_change_context c))"
    using assms(1) plain_markers(4) by (auto simp: printable_chunk_def chunk_header_def split: option.splits)
  with assms plain_markers(3) show ?thesis
    by (auto simp: render_chunk_def printable_chunk_def list_all_iff split: if_splits intro!: plain_Cons)
qed

lemma printable_hunk_plain:
  assumes "printable_hunk h" and "x \<in> set (render_hunk h)"
  shows "plain x"
proof (cases h)
  case (AddFile p contents)
  with assms plain_markers(5) show ?thesis
    by (auto simp: list_all_iff plain_path_def intro: plain_Cons plain_append)
next
  case (DeleteFile p)
  with assms plain_markers(6) show ?thesis by (auto simp: plain_path_def intro: plain_append)
next
  case (UpdateFile p mv cs)
  with assms plain_markers(7) printable_chunk_plain show ?thesis
    by (auto simp: list_all_iff plain_path_def split: option.splits intro: plain_append)
qed

lemma printable_lines_plain:
  "list_all printable_hunk hs \<Longrightarrow> l \<in> set (render_lines hs) \<Longrightarrow> plain l"
  using printable_hunk_plain plain_markers(1,2) by (auto simp: render_lines_def list_all_iff)

lemma trim_render_patch: "trim (render_patch hs) = render_patch hs"
proof -
  let ?b = "concat (map render_hunk hs)"
  have lines: "render_lines hs = (BEGIN_PATCH_MARKER # ?b) @ [END_PATCH_MARKER]"
    by (simp add: render_lines_def)
  have patch: "render_patch hs = (join [LF] (BEGIN_PATCH_MARKER # ?b) @ [LF] @ ''*** End Patc'') @ ''h''"
    unfolding render_patch_def lines join_snoc by (simp add: END_PATCH_MARKER_def)
  obtain t where "join [LF] (BEGIN_PATCH_MARKER # ?b) = CHR ''*'' # t"
    by (cases ?b) (simp_all add: BEGIN_PATCH_MARKER_def)
  then have "leading_ws (render_patch hs) = None"
    unfolding patch by (simp add: leading_ws_Cons marker_bytes)
  moreover have "trailing_ws (render_patch hs) = None"
    unfolding patch by (rule trailing_ws_snoc) (rule marker_bytes)
  ultimately show ?thesis by (rule trim_id)
qed

lemma boundaries_ok: "check_patch_boundaries_strict (BEGIN_PATCH_MARKER # xs @ [END_PATCH_MARKER]) = Inr ()"
  by (cases xs) (simp_all add: check_patch_boundaries_strict_def check_start_and_end_lines_strict_def trim_markers)

lemma str_lines_render_patch:
  assumes "list_all printable_hunk hs"
  shows "str_lines (render_patch hs) = render_lines hs"
  unfolding render_patch_def
proof (rule str_lines_join)
  show "\<forall>l \<in> set (render_lines hs). LF \<notin> set l \<and> \<not> ends_with [CR] l"
    using printable_lines_plain [OF assms] unfolding plain_def by blast
  show "render_lines hs \<noteq> [] \<longrightarrow> last (render_lines hs) \<noteq> []" by (simp add: render_lines_def END_PATCH_MARKER_def)
qed

text \<open>C7. Parsing is the inverse of printing: for every list of printable hunks the parser
  returns exactly these hunks, and the lines it read.\<close>

theorem parse_render:
  assumes "list_all printable_hunk hs"
  shows "parse_patch (render_patch hs) = Inr \<lparr>pp_hunks = hs, pp_patch = render_patch hs\<rparr>"
proof -
  let ?ls = "render_lines hs"
  note trim_render_patch [of hs]
  moreover have "str_lines (render_patch hs) = ?ls"
      by (rule str_lines_render_patch [OF assms])
  moreover have "check_patch_boundaries_strict ?ls = Inr ()"
    by (simp add: render_lines_def boundaries_ok)
  moreover have "take (length ?ls - 1 - 1) (drop 1 ?ls) = concat (map render_hunk hs)"
    by (simp add: render_lines_def)
  ultimately show ?thesis
    using parse_rendered_hunks [OF assms]
    by (simp add: parse_patch_def parse_patch_text_def Let_def flip: render_patch_def)
qed

definition demo_hunks :: "hunk list" where
  "demo_hunks =
     [AddFile ''new.txt'' (''a'' @ [LF] @ [LF]),
      UpdateFile ''old.txt'' (Some ''moved.txt'')
        [\<lparr>uc_change_context = Some ''fn main'', uc_old_lines = [''x''], uc_new_lines = [''y'', ''z''],
          uc_is_end_of_file = True\<rparr>],
      DeleteFile ''gone.txt'']"

theorem parse_render_witness:
  "parse_patch (render_patch demo_hunks) = Inr \<lparr>pp_hunks = demo_hunks, pp_patch = render_patch demo_hunks\<rparr>"
proof (rule parse_render)
  show "list_all printable_hunk demo_hunks" by code_simp
qed

text \<open>The lines of a patch inside a shell here-document, which models sometimes send.\<close>

definition heredoc :: "string \<Rightarrow> hunk list \<Rightarrow> string" where
  "heredoc opening hunks = join [LF] (opening # render_lines hunks @ [''EOF''])"

text \<open>The parser is lenient: a printed patch wrapped in a here-document, with the
  delimiter \<open>EOF\<close> bare, in single or in double quotes, yields the same hunks.\<close>

theorem parse_heredoc:
  assumes "list_all printable_hunk hs"
    and "opening \<in> {''<<EOF'', ''<<'' @ quoted ''EOF'', ''<<'' @ [CHR 0x22] @ ''EOF'' @ [CHR 0x22]}"
  shows "parse_patch (heredoc opening hs) = Inr \<lparr>pp_hunks = hs, pp_patch = render_patch hs\<rparr>"
proof -
  let ?ls = "opening # render_lines hs @ [''EOF'']"
  obtain t where op: "opening = CHR ''<'' # t" using assms(2) by (auto simp: quoted_def)
  have plain_op: "plain opening" using assms(2) by (auto simp: quoted_def plain_def ends_with_char)
  have shape: "heredoc opening hs = (join [LF] (opening # render_lines hs) @ [LF] @ ''EO'') @ ''F''"
    using join_snoc [of "[LF]" "opening # render_lines hs" "''EOF''"] by (simp add: heredoc_def)
  have "CHR ''<'' \<notin> ws_bytes" by (simp add: ws_bytes_def ws_utf8_def)
  moreover obtain r where "join [LF] (opening # render_lines hs) = CHR ''<'' # r"
    by (simp add: op render_lines_def)
  ultimately have "leading_ws (heredoc opening hs) = None"
    unfolding shape by (simp add: leading_ws_Cons)
  moreover have "trailing_ws (heredoc opening hs) = None"
    unfolding shape by (rule trailing_ws_snoc) (simp add: ws_bytes_def ws_utf8_def)
  ultimately have trim: "trim (heredoc opening hs) = heredoc opening hs" by (rule trim_id)
  have lines: "str_lines (heredoc opening hs) = ?ls"
    unfolding heredoc_def
  proof (rule str_lines_join)
    have "plain ''EOF''" by (simp add: plain_def ends_with_char)
    with plain_op printable_lines_plain [OF assms(1)]
    show "\<forall>l \<in> set ?ls. LF \<notin> set l \<and> \<not> ends_with [CR] l" unfolding plain_def by fastforce
  qed simp
  have "trim opening \<noteq> BEGIN_PATCH_MARKER"
    using assms(2) by (auto simp: BEGIN_PATCH_MARKER_def quoted_def) (code_simp+)?
  then obtain e where strict: "check_patch_boundaries_strict ?ls = Inl e"
    by (cases "render_lines hs") (simp_all add: check_patch_boundaries_strict_def
        check_start_and_end_lines_strict_def render_lines_def)
  have inner: "take (length ?ls - 2) (drop 1 ?ls) = render_lines hs" by simp
  have "check_patch_boundaries_strict (render_lines hs) = Inr ()"
    by (simp add: render_lines_def boundaries_ok)
  then have "check_patch_boundaries_lenient ?ls e = Inr (render_lines hs)"
    using assms(2) inner
    by (simp add: check_patch_boundaries_lenient_def render_lines_def ends_with_def Let_def)
  moreover have "take (length (render_lines hs) - 1 - 1) (drop 1 (render_lines hs)) = concat (map render_hunk hs)"
    by (simp add: render_lines_def)
  ultimately show ?thesis
    using parse_rendered_hunks [OF assms(1)] strict
    by (simp add: parse_patch_def parse_patch_text_def PARSE_IN_STRICT_MODE_def Let_def trim lines flip: render_patch_def)
qed

theorem parse_heredoc_witness:
  "parse_patch (heredoc ''<<EOF'' demo_hunks) = Inr \<lparr>pp_hunks = demo_hunks, pp_patch = render_patch demo_hunks\<rparr>"
proof (rule parse_heredoc)
  show "list_all printable_hunk demo_hunks" by code_simp
qed simp

end
