(* ===== verification/RustPath.thy ===== *)
theory RustPath
  imports RustStr
begin

text \<open>
  The operations of Rust's \<open>std::path\<close> that the program uses, on Unix paths: a path is its
  text, \<open>PathBuf::push\<close> and \<open>pop\<close> edit the text, \<open>components\<close> reads it.
\<close>

section \<open>Pushing and popping\<close>

definition is_absolute :: "string \<Rightarrow> bool" where
  "is_absolute path \<longleftrightarrow> starts_with ''/'' path"

definition path_join :: "string \<Rightarrow> string \<Rightarrow> string" where
  "path_join cwd path =
     (if is_absolute path then path
      else if cwd = [] \<or> ends_with ''/'' cwd then cwd @ path
      else cwd @ ''/'' @ path)"

text \<open>On the reversed path: drop trailing separators and trailing \<open>.\<close> components.\<close>

fun strip_seps :: "string \<Rightarrow> string" where
  "strip_seps [] = []"
| "strip_seps [c] = [c]"
| "strip_seps (c # d # r) =
     (if c = CHR ''/'' then strip_seps (d # r)
      else if c = CHR ''.'' \<and> d = CHR ''/'' then strip_seps (d # r)
      else c # d # r)"

definition path_parent :: "string \<Rightarrow> string option" where
  "path_parent path =
     (let r = strip_seps (rev path)
      in if r = [] \<or> r = ''/'' then None
         else Some (rev (strip_seps (dropWhile (\<lambda>c. c \<noteq> CHR ''/'') r))))"

definition path_pop :: "string \<Rightarrow> string" where
  "path_pop path = (case path_parent path of None \<Rightarrow> path | Some parent \<Rightarrow> parent)"

section \<open>Components\<close>

datatype path_component = RootDir | CurDir | ParentDir | Normal string

definition component_of :: "string \<Rightarrow> path_component" where
  "component_of seg = (if seg = ''.'' then CurDir else if seg = ''..'' then ParentDir else Normal seg)"

definition path_components :: "string \<Rightarrow> path_component list" where
  "path_components path =
     (let segs = filter (\<lambda>s. s \<noteq> []) (split_on (CHR ''/'') path)
      in if is_absolute path then RootDir # map component_of (filter (\<lambda>s. s \<noteq> ''.'') segs)
         else (case segs of
            [] \<Rightarrow> []
          | s # rest \<Rightarrow> map component_of (s # filter (\<lambda>s. s \<noteq> ''.'') rest)))"

definition file_name :: "string \<Rightarrow> string option" where
  "file_name path = (case rev (path_components path) of Normal s # _ \<Rightarrow> Some s | _ \<Rightarrow> None)"

definition path_starts_with :: "string \<Rightarrow> string \<Rightarrow> bool" where
  "path_starts_with path base \<longleftrightarrow>
     take (length (path_components base)) (path_components path) = path_components base"

section \<open>Lexical normalisation\<close>

text \<open>The same function is declared in \<open>tools/command_intent.rs\<close> and in \<open>tools/router.rs\<close>.\<close>

fun push_component :: "string \<Rightarrow> path_component \<Rightarrow> string" where
  "push_component normalized RootDir = path_join normalized ''/''"
| "push_component normalized CurDir = normalized"
| "push_component normalized ParentDir = path_pop normalized"
| "push_component normalized (Normal segment) = path_join normalized segment"

definition lexically_normalize_path :: "string \<Rightarrow> string" where
  "lexically_normalize_path path = foldl push_component [] (path_components path)"

definition normalize_path :: "string \<Rightarrow> string \<Rightarrow> string" where
  "normalize_path arg cwd =
     lexically_normalize_path (if is_absolute arg then arg else path_join cwd arg)"

section \<open>Normal paths as lists of segments\<close>

text \<open>The abstract reading: whether the path starts at the root, and its segments.\<close>

fun norm_step :: "bool \<times> string list \<Rightarrow> path_component \<Rightarrow> bool \<times> string list" where
  "norm_step (rooted, segs) RootDir = (True, [])"
| "norm_step (rooted, segs) CurDir = (rooted, segs)"
| "norm_step (rooted, segs) ParentDir = (rooted, butlast segs)"
| "norm_step (rooted, segs) (Normal s) = (rooted, segs @ [s])"

definition norm_path :: "string \<Rightarrow> bool \<times> string list" where
  "norm_path path = foldl norm_step (False, []) (path_components path)"

definition plain_seg :: "string \<Rightarrow> bool" where
  "plain_seg s \<longleftrightarrow> s \<noteq> [] \<and> CHR ''/'' \<notin> set s \<and> s \<noteq> ''.'' \<and> s \<noteq> ''..''"

fun path_text :: "bool \<times> string list \<Rightarrow> string" where
  "path_text (rooted, segs) = (if rooted then ''/'' else []) @ join ''/'' segs"

lemma strip_seps_id: "s = [] \<or> (hd s \<noteq> CHR ''/'' \<and> take 2 s \<noteq> ''./'') \<Longrightarrow> strip_seps s = s"
  by (cases s rule: strip_seps.cases) (auto simp: numeral_2_eq_2)

lemma plain_ends: "plain_seg s \<Longrightarrow> last s \<noteq> CHR ''/''"
  unfolding plain_seg_def by (metis last_in_set)

text \<open>The text of a plain path, read from its end.\<close>

lemma strip_rev_text:
  assumes "plain_seg s"
  shows "strip_seps (rev (p @ ''/'' @ s)) = rev s @ ''/'' @ rev p"
    and "strip_seps (rev s) = rev s"
proof -
  obtain c r where s: "rev s = c # r" using assms by (cases "rev s") (auto simp: plain_seg_def)
  have c: "c \<noteq> CHR ''/''" using s plain_ends [OF assms] by (metis list.sel(1) hd_rev)
  have r: "CHR ''/'' \<notin> set r" using s assms unfolding plain_seg_def by (metis set_rev list.set_intros(2))
  have dot: "c = CHR ''.'' \<Longrightarrow> r \<noteq> []" using s assms by (auto simp: plain_seg_def rev_eq_Cons_iff)
  show "strip_seps (rev (p @ ''/'' @ s)) = rev s @ ''/'' @ rev p"
  proof -
    have "take 2 (c # r @ CHR ''/'' # rev p) \<noteq> ''./''"
      using r dot by (cases r) (auto simp: numeral_2_eq_2)
    then have "strip_seps (c # r @ CHR ''/'' # rev p) = c # r @ CHR ''/'' # rev p"
      using c by (intro strip_seps_id) simp
    then show ?thesis by (simp add: s)
  qed
  show "strip_seps (rev s) = rev s"
    using c r dot by (intro strip_seps_id) (cases r; auto simp: s numeral_2_eq_2)
qed

lemma path_parent_text:
  assumes "plain_seg s"
  shows "path_parent (p @ ''/'' @ s) = Some (rev (strip_seps (CHR ''/'' # rev p)))"
    and "path_parent s = Some []"
proof -
  have "\<And>z. dropWhile (\<lambda>c. c \<noteq> CHR ''/'') (rev s @ ''/'' @ z) = CHR ''/'' # z"
    using assms by (subst dropWhile_append2) (auto simp: plain_seg_def)
  moreover have "rev s \<noteq> []" using assms by (simp add: plain_seg_def)
  ultimately show "path_parent (p @ ''/'' @ s) = Some (rev (strip_seps (CHR ''/'' # rev p)))"
    unfolding path_parent_def strip_rev_text(1) [OF assms] by (auto simp: Let_def append_eq_Cons_conv)
  have "rev s \<noteq> ''/''" using assms by (auto simp: plain_seg_def rev_eq_Cons_iff)
  moreover have dw: "dropWhile (\<lambda>c. c \<noteq> CHR ''/'') (rev s) = []"
    using assms by (subst dropWhile_eq_Nil_conv) (auto simp: plain_seg_def)
  have "strip_seps (dropWhile (\<lambda>c. c \<noteq> CHR ''/'') (rev s)) = []"
    by (simp only: dw strip_seps.simps)
  ultimately show "path_parent s = Some []"
    unfolding path_parent_def strip_rev_text(2) [OF assms] using assms by (simp add: plain_seg_def)
qed

lemma path_text_rev:
  assumes "\<forall>s \<in> set segs. plain_seg s" and "segs \<noteq> []"
  shows "strip_seps (rev (path_text (rooted, segs))) = rev (path_text (rooted, segs))"
proof (cases segs rule: rev_cases)
  case (snoc ss s)
  have "plain_seg s" using assms snoc by simp
  note strip = strip_rev_text [OF this]
  show ?thesis
  proof (cases "ss = []")
    case True
    then show ?thesis using snoc strip(2) strip(1) [of "[]"] by auto
  next
    case False
    then show ?thesis
      using snoc strip(1) [of "(if rooted then ''/'' else []) @ join ''/'' ss"] by (simp add: join_snoc)
  qed
qed (use assms in simp)

lemma path_pop_text:
  assumes "\<forall>s \<in> set segs. plain_seg s"
  shows "path_pop (path_text (rooted, segs)) = path_text (rooted, butlast segs)"
proof (cases segs rule: rev_cases)
  case Nil
  then show ?thesis by (simp add: path_pop_def path_parent_def)
next
  case (snoc ss s)
  have s: "plain_seg s" and ss: "\<forall>s \<in> set ss. plain_seg s" using assms snoc by auto
  show ?thesis
  proof (cases "ss = []")
    case True
    then show ?thesis
      using snoc path_parent_text [OF s] path_parent_text(1) [OF s, of "[]"] by (simp add: path_pop_def)
  next
    case False
    have "strip_seps (CHR ''/'' # rev (path_text (rooted, ss))) = rev (path_text (rooted, ss))"
    proof (cases "rev (path_text (rooted, ss))")
      case Nil
      have "join ''/'' ss \<noteq> []"
        using False ss by (cases ss rule: rev_cases) (auto simp: join_snoc plain_seg_def)
      then show ?thesis using Nil by auto
    next
      case (Cons c r)
      then show ?thesis using path_text_rev [OF ss False, of rooted] by simp
    qed
    then show ?thesis
      using snoc False path_parent_text(1) [OF s, of "path_text (rooted, ss)"]
      by (simp add: path_pop_def join_snoc)
  qed
qed

lemma plain_not_absolute: "plain_seg s \<Longrightarrow> \<not> is_absolute s"
  by (cases s) (auto simp: plain_seg_def is_absolute_def)

lemma ends_slash: "ends_with ''/'' p \<longleftrightarrow> p \<noteq> [] \<and> last p = CHR ''/''"
  by (cases p rule: rev_cases) (auto simp: ends_with_iff)

lemma path_text_ends:
  assumes "\<forall>s \<in> set segs. plain_seg s"
  shows "path_text (rooted, segs) = [] \<or> ends_with ''/'' (path_text (rooted, segs)) \<longleftrightarrow> segs = []"
proof (cases segs rule: rev_cases)
  case (snoc ss s)
  have s: "plain_seg s" using assms snoc by simp
  then have "last s \<noteq> CHR ''/''" "s \<noteq> []" using plain_ends by (auto simp: plain_seg_def)
  moreover obtain p where "path_text (rooted, segs) = p @ s"
    using snoc by (cases "ss = []") (auto simp: join_snoc)
  ultimately show ?thesis using snoc by (simp add: ends_slash del: path_text.simps)
qed (simp add: ends_slash)

lemma path_join_text:
  assumes "\<forall>s \<in> set segs. plain_seg s" and "plain_seg s"
  shows "path_join (path_text (rooted, segs)) s = path_text (rooted, segs @ [s])"
  using path_text_ends [OF assms(1), of rooted] plain_not_absolute [OF assms(2)]
  by (cases "segs = []") (auto simp: path_join_def join_snoc)

text \<open>The segments of any path are plain, so normalising it never leaves the plain paths.\<close>

definition ok_component :: "path_component \<Rightarrow> bool" where
  "ok_component c = (case c of Normal s \<Rightarrow> plain_seg s | _ \<Rightarrow> True)"

lemma component_seg:
  assumes "c \<in> set (path_components path)"
  shows "c = RootDir \<or> (\<exists>s. s \<noteq> [] \<and> CHR ''/'' \<notin> set s \<and> c = component_of s)"
proof -
  let ?segs = "filter (\<lambda>s. s \<noteq> []) (split_on (CHR ''/'') path)"
  have segs: "s \<noteq> [] \<and> CHR ''/'' \<notin> set s" if "s \<in> set ?segs" for s
    using that split_on_in_no_sep by auto
  show ?thesis
  proof (cases "is_absolute path")
    case True
    with assms have "c \<in> insert RootDir (component_of ` set ?segs)"
      by (auto simp: path_components_def Let_def)
    then show ?thesis using segs by blast
  next
    case False
    with assms have "c \<in> component_of ` set ?segs"
      by (cases ?segs) (auto simp: path_components_def Let_def split: if_splits)
    then show ?thesis using segs by blast
  qed
qed

lemma components_ok: "c \<in> set (path_components path) \<Longrightarrow> ok_component c"
  using component_seg [of c path] by (auto simp: ok_component_def component_of_def plain_seg_def)

lemma push_component_step:
  assumes "ok_component c" and "\<forall>s \<in> set segs. plain_seg s"
  shows "push_component (path_text (rooted, segs)) c = path_text (norm_step (rooted, segs) c)"
    and "\<forall>s \<in> set (snd (norm_step (rooted, segs) c)). plain_seg s"
  using assms path_pop_text [OF assms(2)] path_join_text [OF assms(2)]
  by (cases c; auto simp: ok_component_def path_join_def is_absolute_def dest: in_set_butlastD
      simp del: path_text.simps; simp)+

lemma foldl_push_component:
  assumes "\<forall>c \<in> set cs. ok_component c" and "\<forall>s \<in> set (snd n). plain_seg s"
  shows "foldl push_component (path_text n) cs = path_text (foldl norm_step n cs)
    \<and> (\<forall>s \<in> set (snd (foldl norm_step n cs)). plain_seg s)"
  using assms
proof (induction cs arbitrary: n)
  case (Cons c cs)
  have "ok_component c" "\<forall>c \<in> set cs. ok_component c" using Cons.prems by auto
  note step = push_component_step [OF this(1) Cons.prems(2), of "fst n", unfolded prod.collapse]
  note Cons.IH [OF \<open>\<forall>c \<in> set cs. ok_component c\<close> step(2)]
  then show ?case unfolding foldl_Cons step(1) .
qed simp

lemma normalize_text: "lexically_normalize_path path = path_text (norm_path path)"
  and normalize_plain: "\<forall>s \<in> set (snd (norm_path path)). plain_seg s"
  using foldl_push_component [of "path_components path" "(False, [])"] components_ok
  by (auto simp: lexically_normalize_path_def norm_path_def)

lemma components_text:
  assumes "\<forall>s \<in> set segs. plain_seg s"
  shows "path_components (path_text (rooted, segs)) = (if rooted then [RootDir] else []) @ map Normal segs"
proof -
  have seg: "map component_of ss = map Normal ss" "filter (\<lambda>s. s \<noteq> ''.'') ss = ss" "filter (\<lambda>s. s \<noteq> []) ss = ss"
    "filter (\<lambda>s. s \<noteq> [] \<and> s \<noteq> ''.'') ss = ss"
    if "\<forall>s \<in> set ss. plain_seg s" for ss
    using that by (induction ss) (auto simp: component_of_def plain_seg_def)
  have split: "split_on (CHR ''/'') (join ''/'' segs) = (if segs = [] then [[]] else segs)"
    using assms by (cases "segs = []") (auto simp: plain_seg_def intro!: split_on_join)
  have abs: "\<not> is_absolute (join ''/'' segs)"
  proof (cases segs)
    case (Cons s ss)
    then obtain c r where "s = c # r" "c \<noteq> CHR ''/''" using assms by (cases s) (auto simp: plain_seg_def)
    then show ?thesis using Cons by (cases ss) (auto simp: is_absolute_def)
  qed (simp add: is_absolute_def)
  show ?thesis
  proof (cases rooted)
    case True
    then show ?thesis
      using seg assms by (auto simp: path_components_def split is_absolute_def)
  next
    case False
    then show ?thesis
    proof (cases segs)
      case (Cons s ss)
      have "plain_seg s" and ss: "\<forall>x \<in> set ss. plain_seg x" using assms Cons by auto
      then have "component_of s = Normal s" by (simp add: component_of_def plain_seg_def)
      moreover have "path_components (join ''/'' segs) = map component_of (s # filter (\<lambda>s. s \<noteq> ''.'') ss)"
        using abs split seg(3) [OF assms] Cons by (simp add: path_components_def)
      ultimately show ?thesis using False Cons seg(1,2) [OF ss] by simp
    qed (simp add: path_components_def is_absolute_def)
  qed
qed

lemma foldl_norm_normals: "foldl norm_step (r, segs) (map Normal ss) = (r, segs @ ss)"
  by (induction ss arbitrary: segs) auto

lemma norm_path_text:
  "\<forall>s \<in> set segs. plain_seg s \<Longrightarrow> norm_path (path_text (rooted, segs)) = (rooted, segs)"
  by (cases rooted) (simp_all add: norm_path_def components_text foldl_norm_normals del: path_text.simps)

lemma norm_path_idem: "norm_path (path_text (norm_path path)) = norm_path path"
  using norm_path_text [OF normalize_plain, where rooted = "fst (norm_path path)" and path1 = path] by simp

lemma components_norm_path:
  "path_components (path_text (norm_path path)) =
     (if fst (norm_path path) then [RootDir] else []) @ map Normal (snd (norm_path path))"
proof -
  have "path_text (norm_path path) = path_text (fst (norm_path path), snd (norm_path path))" by simp
  then show ?thesis by (simp only: components_text [OF normalize_plain])
qed

lemma foldl_norm_rooted: "RootDir \<notin> set cs \<Longrightarrow> fst (foldl norm_step n cs) = fst n"
proof (induction cs arbitrary: n)
  case (Cons c cs)
  then show ?case by (cases n; cases c) auto
qed simp

lemma components_tail_no_root: "path_components path = RootDir # cs \<Longrightarrow> RootDir \<notin> set cs"
  by (auto simp: path_components_def Let_def component_of_def split: if_splits list.splits)

lemma norm_path_rooted: "is_absolute path \<Longrightarrow> fst (norm_path path)"
  using foldl_norm_rooted [of _ "(True, [])"] components_tail_no_root [of path]
  by (auto simp: norm_path_def path_components_def Let_def)

lemma path_join_absolute: "is_absolute cwd \<Longrightarrow> is_absolute (path_join cwd path)"
  by (cases cwd) (auto simp: path_join_def is_absolute_def)

text \<open>Under an absolute working directory a normalised path is absolute and normal.\<close>

lemma normalize_path_absolute:
  assumes "is_absolute cwd"
  shows "is_absolute (normalize_path arg cwd)"
    and "lexically_normalize_path (normalize_path arg cwd) = normalize_path arg cwd"
proof -
  let ?p = "if is_absolute arg then arg else path_join cwd arg"
  have "is_absolute ?p" using path_join_absolute [OF assms] by simp
  from norm_path_rooted [OF this] show "is_absolute (normalize_path arg cwd)"
    by (cases "norm_path ?p") (simp add: normalize_path_def normalize_text is_absolute_def)
  show "lexically_normalize_path (normalize_path arg cwd) = normalize_path arg cwd"
    by (simp only: normalize_path_def normalize_text norm_path_idem)
qed

end
