(* ===== verification/PatchApply.thy ===== *)
theory PatchApply
  imports RustPath PatchSeek PatchParser
begin

text \<open>
  Applying a patch (\<open>apply-patch/src/lib.rs\<close>): the replacements that the chunks of an update
  stand for, their application to the lines of a file, and the effects of a list of hunks on
  the file system. Paths are Unix paths.

  A \<open>disk\<close> holds the text files by path. The operating system may refuse an operation
  (\<open>dk_deny\<close>, with the text of its error); a refused operation has no effect. Directories are
  not represented: creating them has no effect on files.
\<close>

section \<open>Errors and the disk\<close>

datatype apply_patch_error =
    ParseFailed parse_error
  | IoFailed string string
  | ComputeReplacementsFailed string

datatype fs_op = CreateDirs string | WriteFile string | RemoveFile string | ReadFile string

record disk =
  dk_files :: "(string, string) hashmap"
  dk_deny :: "fs_op \<Rightarrow> string option"

definition fs_create_dir_all :: "string \<Rightarrow> disk \<Rightarrow> string option" where
  "fs_create_dir_all path d = dk_deny d (CreateDirs path)"

definition fs_write :: "string \<Rightarrow> string \<Rightarrow> disk \<Rightarrow> (string + unit) \<times> disk" where
  "fs_write path contents d = (case dk_deny d (WriteFile path) of
      Some err \<Rightarrow> (Inl err, d)
    | None \<Rightarrow> (Inr (), d\<lparr>dk_files := hm_insert path contents (dk_files d)\<rparr>))"

definition not_found :: string where
  "not_found = ''No such file or directory (os error 2)''"

definition fs_remove_file :: "string \<Rightarrow> disk \<Rightarrow> (string + unit) \<times> disk" where
  "fs_remove_file path d = (case dk_deny d (RemoveFile path) of
      Some err \<Rightarrow> (Inl err, d)
    | None \<Rightarrow>
        if hm_contains (dk_files d) path
        then (Inr (), d\<lparr>dk_files := hm_remove path (dk_files d)\<rparr>)
        else (Inl not_found, d))"

definition fs_read_to_string :: "string \<Rightarrow> disk \<Rightarrow> string + string" where
  "fs_read_to_string path d = (case dk_deny d (ReadFile path) of
      Some err \<Rightarrow> Inl err
    | None \<Rightarrow> (case hm_get (dk_files d) path of None \<Rightarrow> Inl not_found | Some s \<Rightarrow> Inr s))"

section \<open>Replacements\<close>

type_synonym replacement = "nat \<times> nat \<times> string list"

text \<open>\<open>last().is_some_and(String::is_empty)\<close>.\<close>

definition ends_empty :: "string list \<Rightarrow> bool" where
  "ends_empty ls \<longleftrightarrow> ls \<noteq> [] \<and> last ls = []"

definition after_context ::
  "string list \<Rightarrow> string \<Rightarrow> update_file_chunk \<Rightarrow> nat \<Rightarrow> apply_patch_error + nat" where
  "after_context original_lines path chunk line_index =
     (case uc_change_context chunk of
        None \<Rightarrow> Inr line_index
      | Some ctx_line \<Rightarrow>
          (case seek_sequence original_lines [ctx_line] line_index False of
             Some idx \<Rightarrow> Inr (idx + 1)
           | None \<Rightarrow> Inl (ComputeReplacementsFailed
               (''Failed to find context '' @ quoted ctx_line @ '' in '' @ path))))"

definition insertion_index :: "string list \<Rightarrow> nat" where
  "insertion_index original_lines =
     (if ends_empty original_lines then length original_lines - 1 else length original_lines)"

text \<open>The place of the old lines of a chunk: the pattern searched for, the lines that replace
  it, and where it was found; a pattern that ends in an empty line is retried without it.\<close>

definition locate_chunk ::
  "string list \<Rightarrow> update_file_chunk \<Rightarrow> nat \<Rightarrow> string list \<times> string list \<times> nat option" where
  "locate_chunk original_lines chunk line_index =
     (let pattern = uc_old_lines chunk;
          new_slice = uc_new_lines chunk;
          found = seek_sequence original_lines pattern line_index (uc_is_end_of_file chunk)
      in if found = None \<and> ends_empty pattern
         then
           (let pattern' = butlast pattern;
                new_slice' = (if ends_empty new_slice then butlast new_slice else new_slice)
            in (pattern', new_slice',
                seek_sequence original_lines pattern' line_index (uc_is_end_of_file chunk)))
         else (pattern, new_slice, found))"

fun replacement_loop ::
  "string list \<Rightarrow> string \<Rightarrow> nat \<Rightarrow> update_file_chunk list \<Rightarrow> apply_patch_error + replacement list" where
  "replacement_loop original_lines path line_index [] = Inr []"
| "replacement_loop original_lines path line_index (chunk # chunks) =
     (case after_context original_lines path chunk line_index of
        Inl e \<Rightarrow> Inl e
      | Inr line_index' \<Rightarrow>
          if uc_old_lines chunk = []
          then (case replacement_loop original_lines path line_index' chunks of
              Inl e \<Rightarrow> Inl e
            | Inr rs \<Rightarrow> Inr ((insertion_index original_lines, 0, uc_new_lines chunk) # rs))
          else (case locate_chunk original_lines chunk line_index' of
              (pattern, new_slice, Some start_idx) \<Rightarrow>
                (case replacement_loop original_lines path (start_idx + length pattern) chunks of
                   Inl e \<Rightarrow> Inl e
                 | Inr rs \<Rightarrow> Inr ((start_idx, length pattern, new_slice) # rs))
            | (_, _, None) \<Rightarrow> Inl (ComputeReplacementsFailed
                (''Failed to find expected lines in '' @ path @ '':'' @ [LF]
                 @ join [LF] (uc_old_lines chunk)))))"

definition compute_replacements ::
  "string list \<Rightarrow> string \<Rightarrow> update_file_chunk list \<Rightarrow> apply_patch_error + replacement list" where
  "compute_replacements original_lines path chunks =
     (case replacement_loop original_lines path 0 chunks of
        Inl e \<Rightarrow> Inl e
      | Inr rs \<Rightarrow> Inr (sort_key fst rs))"

text \<open>\<open>Vec::remove\<close> in the guarded loop and \<open>Vec::insert\<close>, which panics past the end (\<open>None\<close>).\<close>

fun remove_times :: "nat \<Rightarrow> nat \<Rightarrow> string list \<Rightarrow> string list" where
  "remove_times start 0 ls = ls"
| "remove_times start (Suc n) ls =
     remove_times start n (if start < length ls then take start ls @ drop (Suc start) ls else ls)"

fun insert_all :: "nat \<Rightarrow> string list \<Rightarrow> string list \<Rightarrow> string list option" where
  "insert_all index [] ls = Some ls"
| "insert_all index (new_line # rest) ls =
     (if index \<le> length ls then insert_all (Suc index) rest (take index ls @ [new_line] @ drop index ls)
      else None)"

definition apply_replacement :: "replacement \<Rightarrow> string list \<Rightarrow> string list option" where
  "apply_replacement r ls = (case r of (start_idx, old_len, new_segment) \<Rightarrow>
     insert_all start_idx new_segment (remove_times start_idx old_len ls))"

definition apply_replacements :: "string list \<Rightarrow> replacement list \<Rightarrow> string list option" where
  "apply_replacements ls replacements =
     foldl (\<lambda>acc r. Option.bind acc (apply_replacement r)) (Some ls) (rev replacements)"

text \<open>The new contents; the inner \<open>None\<close> is the panic of \<open>Vec::insert\<close>.\<close>

definition derive_new_contents_from_chunks ::
  "disk \<Rightarrow> string \<Rightarrow> update_file_chunk list \<Rightarrow> apply_patch_error + string option" where
  "derive_new_contents_from_chunks d path chunks =
     (case fs_read_to_string path d of
        Inl err \<Rightarrow> Inl (IoFailed (''Failed to read file to update '' @ path) err)
      | Inr original_contents \<Rightarrow>
          (let split = split_on LF original_contents;
               original_lines = (if ends_empty split then butlast split else split)
           in case compute_replacements original_lines path chunks of
                Inl e \<Rightarrow> Inl e
              | Inr replacements \<Rightarrow>
                  Inr (case apply_replacements original_lines replacements of
                     None \<Rightarrow> None
                   | Some new_lines \<Rightarrow>
                       Some (join [LF] (if ends_empty new_lines then new_lines else new_lines @ [[]])))))"

section \<open>Hunks\<close>

record affected_paths =
  ap_added :: "string list"
  ap_modified :: "string list"
  ap_deleted :: "string list"

definition no_paths :: affected_paths where
  "no_paths = \<lparr>ap_added = [], ap_modified = [], ap_deleted = []\<rparr>"

definition resolve_path :: "string \<Rightarrow> string \<Rightarrow> string" where
  "resolve_path cwd path = (if is_absolute path then path else path_join cwd path)"

fun resolve_hunk :: "hunk \<Rightarrow> string \<Rightarrow> hunk" where
  "resolve_hunk (AddFile path contents) cwd = AddFile (resolve_path cwd path) contents"
| "resolve_hunk (DeleteFile path) cwd = DeleteFile (resolve_path cwd path)"
| "resolve_hunk (UpdateFile path move_path chunks) cwd =
     UpdateFile (resolve_path cwd path) (map_option (resolve_path cwd) move_path) chunks"

text \<open>Creating the directories above a path, when there are any.\<close>

definition create_parents :: "string \<Rightarrow> disk \<Rightarrow> apply_patch_error option" where
  "create_parents path d = (case path_parent path of
      None \<Rightarrow> None
    | Some parent \<Rightarrow>
        if parent = [] then None
        else map_option (IoFailed (''Failed to create parent directories for '' @ path))
               (fs_create_dir_all parent d))"

definition write_at :: "string \<Rightarrow> string \<Rightarrow> disk \<Rightarrow> apply_patch_error option \<times> disk" where
  "write_at path contents d = (case fs_write path contents d of
      (Inl err, d') \<Rightarrow> (Some (IoFailed (''Failed to write file '' @ path) err), d')
    | (Inr _, d') \<Rightarrow> (None, d'))"

definition remove_at :: "string \<Rightarrow> string \<Rightarrow> disk \<Rightarrow> apply_patch_error option \<times> disk" where
  "remove_at context' path d = (case fs_remove_file path d of
      (Inl err, d') \<Rightarrow> (Some (IoFailed (context' @ path) err), d')
    | (Inr _, d') \<Rightarrow> (None, d'))"

text \<open>One hunk: the error or the paths it touched, and the disk it leaves. \<open>None\<close> is a panic.\<close>

fun apply_hunk :: "hunk \<Rightarrow> affected_paths \<Rightarrow> disk \<Rightarrow> ((apply_patch_error + affected_paths) \<times> disk) option" where
  "apply_hunk (AddFile path contents) ap d =
     (case create_parents path d of
        Some e \<Rightarrow> Some (Inl e, d)
      | None \<Rightarrow>
          (case write_at path contents d of
             (Some e, d') \<Rightarrow> Some (Inl e, d')
           | (None, d') \<Rightarrow> Some (Inr (ap\<lparr>ap_added := ap_added ap @ [path]\<rparr>), d')))"
| "apply_hunk (DeleteFile path) ap d =
     (case remove_at ''Failed to delete file '' path d of
        (Some e, d') \<Rightarrow> Some (Inl e, d')
      | (None, d') \<Rightarrow> Some (Inr (ap\<lparr>ap_deleted := ap_deleted ap @ [path]\<rparr>), d'))"
| "apply_hunk (UpdateFile path move_path chunks) ap d =
     (case derive_new_contents_from_chunks d path chunks of
        Inl e \<Rightarrow> Some (Inl e, d)
      | Inr None \<Rightarrow> None
      | Inr (Some new_contents) \<Rightarrow>
          (case move_path of
             Some dest \<Rightarrow>
               (case create_parents dest d of
                  Some e \<Rightarrow> Some (Inl e, d)
                | None \<Rightarrow>
                    (case write_at dest new_contents d of
                       (Some e, d1) \<Rightarrow> Some (Inl e, d1)
                     | (None, d1) \<Rightarrow>
                         (case remove_at ''Failed to remove original '' path d1 of
                            (Some e, d2) \<Rightarrow> Some (Inl e, d2)
                          | (None, d2) \<Rightarrow> Some (Inr (ap\<lparr>ap_modified := ap_modified ap @ [dest]\<rparr>), d2))))
           | None \<Rightarrow>
               (case write_at path new_contents d of
                  (Some e, d') \<Rightarrow> Some (Inl e, d')
                | (None, d') \<Rightarrow> Some (Inr (ap\<lparr>ap_modified := ap_modified ap @ [path]\<rparr>), d'))))"

fun apply_hunks_to_files ::
  "hunk list \<Rightarrow> affected_paths \<Rightarrow> disk \<Rightarrow> ((apply_patch_error + affected_paths) \<times> disk) option" where
  "apply_hunks_to_files [] ap d = Some (Inr ap, d)"
| "apply_hunks_to_files (h # hs) ap d = (case apply_hunk h ap d of
      None \<Rightarrow> None
    | Some (Inl e, d') \<Rightarrow> Some (Inl e, d')
    | Some (Inr ap', d') \<Rightarrow> apply_hunks_to_files hs ap' d')"

definition apply_patch :: "string \<Rightarrow> string \<Rightarrow> disk \<Rightarrow> ((apply_patch_error + affected_paths) \<times> disk) option" where
  "apply_patch patch cwd d = (case parse_patch patch of
      Inl e \<Rightarrow> Some (Inl (ParseFailed e), d)
    | Inr parsed \<Rightarrow>
        if pp_hunks parsed = [] then Some (Inl (ComputeReplacementsFailed ''No files were modified.''), d)
        else apply_hunks_to_files (map (\<lambda>h. resolve_hunk h cwd) (pp_hunks parsed)) no_paths d)"

definition format_summary :: "affected_paths \<Rightarrow> string" where
  "format_summary ap =
     concat (map (\<lambda>p. ''A '' @ p @ [LF]) (ap_added ap) @ map (\<lambda>p. ''M '' @ p @ [LF]) (ap_modified ap)
       @ map (\<lambda>p. ''D '' @ p @ [LF]) (ap_deleted ap))"

end
