(* ===== verification/PatchEffects.thy ===== *)
theory PatchEffects
  imports PatchApply
begin

text \<open>
  What applying a patch does: no index is out of range, an update replaces the places its
  chunks match and nothing else, and files that no hunk names are never touched. Paths are
  compared as texts: links and other aliases of a file are outside the model.
\<close>

section \<open>One replacement\<close>

lemma remove_times_eq: "remove_times start n ls = take start ls @ drop (start + n) ls"
proof (induction n arbitrary: ls)
  case (Suc n)
  show ?case
  proof (cases "start < length ls")
    case True
    then show ?thesis by (simp add: Suc.IH min_def add.commute)
  next
    case False
    then show ?thesis by (simp add: Suc.IH)
  qed
qed simp

lemma insert_all_eq: "i \<le> length ls \<Longrightarrow> insert_all i new ls = Some (take i ls @ new @ drop i ls)"
proof (induction new arbitrary: i ls)
  case (Cons x xs)
  then show ?case
    by (simp add: Cons.IH min_def)
qed simp

lemma apply_replacement_eq:
  "s \<le> length ls \<Longrightarrow> apply_replacement (s, l, new) ls = Some (take s ls @ new @ drop (s + l) ls)"
  by (simp add: apply_replacement_def remove_times_eq insert_all_eq min_def)

lemma apply_replacements_Cons:
  "apply_replacements ls (r # rs) = Option.bind (apply_replacements ls rs) (apply_replacement r)"
  by (simp add: apply_replacements_def foldl_conv_foldr)

lemma apply_replacements_Nil [simp]: "apply_replacements ls [] = Some ls"
  by (simp add: apply_replacements_def)

section \<open>All replacements\<close>

definition in_range :: "string list \<Rightarrow> replacement \<Rightarrow> bool" where
  "in_range ls r \<longleftrightarrow> fst r + fst (snd r) \<le> length ls"

text \<open>From the last replacement to the first, the lines before the next one stay as they are.\<close>

lemma apply_replacements_total:
  assumes "sorted (map fst rs)" and "\<forall>r \<in> set rs. fst r \<le> length ls"
  shows "\<exists>ls'. apply_replacements ls rs = Some ls'
    \<and> (\<forall>s \<le> length ls. (\<forall>r \<in> set rs. s \<le> fst r) \<longrightarrow> s \<le> length ls')"
  using assms
proof (induction rs)
  case (Cons r rs)
  obtain s l new where r: "r = (s, l, new)" by (cases r)
  from Cons obtain ls' where ls': "apply_replacements ls rs = Some ls'"
    and keep: "\<forall>s \<le> length ls. (\<forall>r \<in> set rs. s \<le> fst r) \<longrightarrow> s \<le> length ls'" by auto
  have s: "s \<le> length ls'" using keep Cons.prems r by auto
  then have run: "apply_replacements ls (r # rs) = Some (take s ls' @ new @ drop (s + l) ls')"
    by (simp add: apply_replacements_Cons ls' r apply_replacement_eq)
  show ?case
  proof (intro exI conjI allI impI)
    fix s' assume "s' \<le> length ls" and "\<forall>r \<in> set (r # rs). s' \<le> fst r"
    then have "s' \<le> s" by (simp add: r)
    with s show "s' \<le> length (take s ls' @ new @ drop (s + l) ls')" by simp
  qed (rule run)
qed simp

text \<open>The same as a single pass over the file, for replacements in order and disjoint.\<close>

fun splice :: "nat \<Rightarrow> string list \<Rightarrow> replacement list \<Rightarrow> string list" where
  "splice i ls [] = drop i ls"
| "splice i ls ((s, l, new) # rs) = take (s - i) (drop i ls) @ new @ splice (s + l) ls rs"

fun disjoint_from :: "nat \<Rightarrow> string list \<Rightarrow> replacement list \<Rightarrow> bool" where
  "disjoint_from i ls [] \<longleftrightarrow> i \<le> length ls"
| "disjoint_from i ls ((s, l, new) # rs) \<longleftrightarrow> i \<le> s \<and> disjoint_from (s + l) ls rs"

lemma disjoint_le: "disjoint_from i ls rs \<Longrightarrow> i \<le> length ls"
  by (induction i ls rs rule: disjoint_from.induct) auto

lemma apply_replacements_splice:
  "disjoint_from i ls rs \<Longrightarrow> apply_replacements ls rs = Some (take i ls @ splice i ls rs)"
proof (induction i ls rs rule: disjoint_from.induct)
  case (2 i ls s l new rs)
  have le: "s + l \<le> length ls" using 2(2) disjoint_le by auto
  have "apply_replacements ls ((s, l, new) # rs)
      = apply_replacement (s, l, new) (take (s + l) ls @ splice (s + l) ls rs)"
    using 2 by (simp add: apply_replacements_Cons)
  also have "\<dots> = Some (take s ls @ new @ splice (s + l) ls rs)"
    using le by (simp add: apply_replacement_eq min_def)
  also have "take s ls = take i ls @ take (s - i) (drop i ls)"
    using 2(2) by (metis disjoint_from.simps(2) le_add_diff_inverse take_add)
  finally show ?case by simp
qed simp

lemma disjoint_sorted: "disjoint_from i ls rs \<Longrightarrow> sorted (map fst rs) \<and> (\<forall>r \<in> set rs. i \<le> fst r)"
proof (induction i ls rs rule: disjoint_from.induct)
  case (2 i ls s l new rs)
  then show ?case by (auto intro: order_trans)
qed simp

section \<open>The replacements of chunks\<close>

lemma after_context_le:
  "after_context ls path c i = Inr j \<Longrightarrow> i \<le> length ls \<Longrightarrow> i \<le> j \<and> j \<le> length ls"
proof (cases "uc_change_context c")
  case (Some x)
  assume "after_context ls path c i = Inr j"
  then obtain idx where "seek_sequence ls [x] i False = Some idx" "j = idx + 1"
    by (auto simp: after_context_def Some split: option.splits)
  with seek_bounds(1,2) [of ls "[x]" i False idx] show ?thesis by simp
qed (simp add: after_context_def)

text \<open>Where a chunk was found, and that the lines there agree with what was looked for.\<close>

definition found_at :: "string list \<Rightarrow> update_file_chunk \<Rightarrow> replacement \<Rightarrow> bool" where
  "found_at ls c r \<longleftrightarrow>
     (\<exists>pattern. fst (snd r) = length pattern \<and> fst r + length pattern \<le> length ls
        \<and> (pattern = [] \<or> (\<exists>k < 4. match_at k ls pattern (fst r)))
        \<and> (pattern = uc_old_lines c \<and> snd (snd r) = uc_new_lines c
           \<or> ends_empty (uc_old_lines c) \<and> pattern = butlast (uc_old_lines c)
             \<and> snd (snd r) \<in> {uc_new_lines c, butlast (uc_new_lines c)}))"

lemma locate_chunk_found:
  assumes "locate_chunk ls c i = (pattern, new, Some s)" and "i \<le> length ls" and "uc_old_lines c \<noteq> []"
  shows "found_at ls c (s, length pattern, new)" and "\<not> uc_is_end_of_file c \<Longrightarrow> i \<le> s"
proof -
  let ?eof = "uc_is_end_of_file c"
  consider
      "pattern = uc_old_lines c" "new = uc_new_lines c" "seek_sequence ls pattern i ?eof = Some s"
    | "ends_empty (uc_old_lines c)" "pattern = butlast (uc_old_lines c)"
      "new \<in> {uc_new_lines c, butlast (uc_new_lines c)}" "seek_sequence ls pattern i ?eof = Some s"
  proof (cases "seek_sequence ls (uc_old_lines c) i ?eof = None \<and> ends_empty (uc_old_lines c)")
    case True
    with assms(1) have "pattern = butlast (uc_old_lines c)" "seek_sequence ls pattern i ?eof = Some s"
      "new = (if ends_empty (uc_new_lines c) then butlast (uc_new_lines c) else uc_new_lines c)"
      by (auto simp: locate_chunk_def Let_def)
    with True that(2) show thesis by (simp split: if_splits)
  next
    case False
    with assms(1) that(1) show thesis by (auto simp: locate_chunk_def Let_def)
  qed
  then have "found_at ls c (s, length pattern, new) \<and> (\<not> ?eof \<longrightarrow> i \<le> s)"
  proof cases
    case 1
    with assms(3) seek_bounds [OF 1(3)] show ?thesis by (auto simp: found_at_def)
  next
    case 2
    show ?thesis
    proof (cases "pattern = []")
      case True
      with 2 assms(2) show ?thesis by (auto simp: found_at_def seek_sequence_def)
    next
      case False
      from 2 seek_bounds [OF 2(4) False] show ?thesis
        unfolding found_at_def by (intro conjI exI [of _ pattern]) (auto simp: False)
    qed
  qed
  then show "found_at ls c (s, length pattern, new)" "\<not> ?eof \<Longrightarrow> i \<le> s" by auto
qed

lemma insertion_le: "insertion_index ls \<le> length ls"
  by (simp add: insertion_index_def)

lemma replacement_loop_range:
  "replacement_loop ls path i cs = Inr rs \<Longrightarrow> i \<le> length ls \<Longrightarrow> \<forall>r \<in> set rs. in_range ls r"
proof (induction ls path i cs arbitrary: rs rule: replacement_loop.induct)
  case (2 ls path i c cs)
  obtain j where j: "after_context ls path c i = Inr j"
    using 2(3) by (auto split: sum.splits)
  have le: "j \<le> length ls" using after_context_le [OF j 2(4)] by simp
  show ?case
  proof (cases "uc_old_lines c = []")
    case True
    then obtain rs' where "replacement_loop ls path j cs = Inr rs'"
      and "rs = (insertion_index ls, 0, uc_new_lines c) # rs'"
      using 2(3) j by (auto split: sum.splits)
    with 2(1) [OF j True] le insertion_le [of ls] show ?thesis by (auto simp: in_range_def)
  next
    case False
    obtain p new f where l: "locate_chunk ls c j = (p, new, f)" by (cases "locate_chunk ls c j")
    then obtain s where f: "f = Some s" using 2(3) j False by (cases f) auto
    then obtain rs' where r: "replacement_loop ls path (s + length p) cs = Inr rs'"
      and rs: "rs = (s, length p, new) # rs'"
      using 2(3) j False l by (auto split: sum.splits)
    have found: "found_at ls c (s, length p, new)"
      using locate_chunk_found(1) [OF l [unfolded f] le False] .
    then have "s + length p \<le> length ls" by (auto simp: found_at_def)
    with 2(2) [OF j False l [unfolded f, symmetric] refl refl r] rs show ?thesis by (simp add: in_range_def)
  qed
qed simp

lemma replacement_loop_disjoint:
  assumes "replacement_loop ls path i cs = Inr rs" and "i \<le> length ls"
    and "\<forall>c \<in> set cs. uc_old_lines c \<noteq> [] \<and> \<not> uc_is_end_of_file c"
  shows "disjoint_from i ls rs \<and> list_all2 (found_at ls) cs rs"
  using assms
proof (induction ls path i cs arbitrary: rs rule: replacement_loop.induct)
  case (2 ls path i c cs)
  obtain j where j: "after_context ls path c i = Inr j"
    using 2(3) by (auto split: sum.splits)
  have le: "i \<le> j" "j \<le> length ls" using after_context_le [OF j 2(4)] by auto
  have old: "uc_old_lines c \<noteq> []" "\<not> uc_is_end_of_file c" using 2(5) by auto
  obtain p new f where l: "locate_chunk ls c j = (p, new, f)" by (cases "locate_chunk ls c j")
  then obtain s where f: "f = Some s" using 2(3) j old by (cases f) auto
  then obtain rs' where r: "replacement_loop ls path (s + length p) cs = Inr rs'"
    and rs: "rs = (s, length p, new) # rs'"
    using 2(3) j old l by (auto split: sum.splits)
  note found = locate_chunk_found [OF l [unfolded f] le(2) old(1)]
  then have "s + length p \<le> length ls" by (auto simp: found_at_def)
  with 2(2) [OF j old(1) l [unfolded f, symmetric] refl refl r] 2(5) rs found old(2) le show ?case by auto
qed simp

section \<open>Properties\<close>

lemma compute_range:
  assumes "compute_replacements ls path cs = Inr rs"
  shows "sorted (map fst rs) \<and> (\<forall>r \<in> set rs. in_range ls r)"
  using assms replacement_loop_range [of ls path 0 cs]
  by (auto simp: compute_replacements_def split: sum.splits)

lemma derive_no_panic: "derive_new_contents_from_chunks d path cs \<noteq> Inr None"
proof
  assume "derive_new_contents_from_chunks d path cs = Inr None"
  then obtain ls rs where "compute_replacements ls path cs = Inr rs" and none: "apply_replacements ls rs = None"
    by (auto simp: derive_new_contents_from_chunks_def Let_def split: sum.splits option.splits)
  with compute_range have "sorted (map fst rs)" "\<forall>r \<in> set rs. fst r \<le> length ls"
    unfolding in_range_def by (blast intro: add_leD1)+
  with apply_replacements_total [of rs ls] none show False by auto
qed

lemma apply_hunk_total: "apply_hunk h ap d \<noteq> None"
  using derive_no_panic
  by (cases h) (auto split: option.splits prod.splits sum.splits)

lemma apply_hunks_total: "apply_hunks_to_files hs ap d \<noteq> None"
  by (induction hs arbitrary: ap d) (use apply_hunk_total in \<open>auto split: option.splits sum.splits\<close>)

lemma apply_patch_no_panic: "apply_patch patch cwd d \<noteq> None"
  by (cases "parse_patch patch") (simp_all add: apply_patch_def apply_hunks_total del: not_None_eq)


text \<open>The lines of a file that an update works on.\<close>

definition file_lines :: "string \<Rightarrow> string list" where
  "file_lines contents = (let split = split_on LF contents in if ends_empty split then butlast split else split)"

text \<open>C9. If every chunk of an update has old lines and is not tied to the end of the file, a
  successful update replaces, in one pass from the start to the end of the file, the lines
  each chunk matches, in the order of the chunks and without overlap, keeps every other
  line, and ends the file with a line feed.\<close>

theorem update_is_splice:
  assumes "derive_new_contents_from_chunks d path cs = Inr (Some text')"
    and "fs_read_to_string path d = Inr contents"
    and "\<forall>c \<in> set cs. uc_old_lines c \<noteq> [] \<and> \<not> uc_is_end_of_file c"
  shows "\<exists>rs. list_all2 (found_at (file_lines contents)) cs rs
    \<and> disjoint_from 0 (file_lines contents) rs
    \<and> (let new = splice 0 (file_lines contents) rs
       in text' = join [LF] (if ends_empty new then new else new @ [[]]))"
proof -
  let ?ls = "file_lines contents"
  obtain rs where rs: "compute_replacements ?ls path cs = Inr rs"
    and new: "text' = (case apply_replacements ?ls rs of None \<Rightarrow> text'
      | Some new \<Rightarrow> join [LF] (if ends_empty new then new else new @ [[]]))"
    using assms(1,2)
    by (auto simp: derive_new_contents_from_chunks_def file_lines_def Let_def split: sum.splits option.splits)
  obtain rs' where loop: "replacement_loop ?ls path 0 cs = Inr rs'" and sorted: "rs = sort_key fst rs'"
    using rs by (auto simp: compute_replacements_def split: sum.splits)
  have dis: "disjoint_from 0 ?ls rs' \<and> list_all2 (found_at ?ls) cs rs'"
    using replacement_loop_disjoint [OF loop _ assms(3)] by simp
  then have "rs = rs'" using sorted disjoint_sorted by (metis sort_key_id_if_sorted)
  with dis new apply_replacements_splice [of 0 ?ls rs] show ?thesis
    by (intro exI [of _ rs']) (simp add: Let_def)
qed

text \<open>The files a hunk names.\<close>

fun hunk_paths :: "hunk \<Rightarrow> string set" where
  "hunk_paths (AddFile path contents) = {path}"
| "hunk_paths (DeleteFile path) = {path}"
| "hunk_paths (UpdateFile path move_path chunks) = insert path (set_option move_path)"

lemma write_at_other:
  "write_at path contents d = (r, d') \<Longrightarrow> q \<noteq> path \<Longrightarrow> hm_get (dk_files d') q = hm_get (dk_files d) q"
  by (auto simp: write_at_def fs_write_def get_hm_insert split: option.splits)

lemma remove_at_other:
  "remove_at c path d = (r, d') \<Longrightarrow> q \<noteq> path \<Longrightarrow> hm_get (dk_files d') q = hm_get (dk_files d) q"
  by (auto simp: remove_at_def fs_remove_file_def get_hm_remove split: option.splits if_splits)

lemma apply_hunk_other:
  "apply_hunk h ap d = Some (r, d') \<Longrightarrow> q \<notin> hunk_paths h \<Longrightarrow> hm_get (dk_files d') q = hm_get (dk_files d) q"
  by (cases h)
     (auto dest!: write_at_other [where q = q] remove_at_other [where q = q]
       split: option.splits prod.splits sum.splits)

lemma apply_hunks_other:
  "apply_hunks_to_files hs ap d = Some (r, d') \<Longrightarrow> q \<notin> \<Union> (hunk_paths ` set hs)
    \<Longrightarrow> hm_get (dk_files d') q = hm_get (dk_files d) q"
proof (induction hs arbitrary: ap d)
  case (Cons h hs)
  then obtain r1 d1 where h: "apply_hunk h ap d = Some (r1, d1)"
    by (auto split: option.splits)
  with Cons apply_hunk_other [OF h, of q] show ?case by (cases r1) auto
qed simp

text \<open>C10. A file that no hunk of the patch names, neither as its target nor as the destination
  of a move, is the same after the patch, whether it was applied, failed halfway or did not
  parse; and a patch that does not parse changes no file at all.\<close>

theorem apply_patch_frame:
  assumes "apply_patch patch cwd d = Some (r, d')"
    and "\<And>parsed. parse_patch patch = Inr parsed
      \<Longrightarrow> q \<notin> \<Union> (hunk_paths ` (\<lambda>h. resolve_hunk h cwd) ` set (pp_hunks parsed))"
  shows "hm_get (dk_files d') q = hm_get (dk_files d) q"
proof (cases "parse_patch patch")
  case (Inl e)
  with assms(1) show ?thesis by (simp add: apply_patch_def)
next
  case (Inr parsed)
  then show ?thesis
    using assms(1) assms(2) [OF Inr]
      apply_hunks_other [of "map (\<lambda>h. resolve_hunk h cwd) (pp_hunks parsed)" no_paths d r d' q]
    by (auto simp: apply_patch_def split: if_splits)
qed

text \<open>An update that moves a file onto itself deletes it: the new contents are written to the
  destination, and then the original path is removed.\<close>

theorem move_onto_itself_deletes:
  assumes "apply_hunk (UpdateFile p (Some p) cs) ap d = Some (Inr ap', d')"
  shows "hm_get (dk_files d') p = None \<and> ap_modified ap' = ap_modified ap @ [p]"
  using assms
  by (auto simp: write_at_def remove_at_def fs_write_def fs_remove_file_def get_hm_remove
      split: sum.splits option.splits prod.splits if_splits)

text \<open>A chunk without old lines goes before the empty last line of the file, also when an earlier
  chunk has replaced that line: its lines are then dropped with the replaced ones.\<close>

lemma insertion_lost:
  "derive_new_contents_from_chunks
     \<lparr>dk_files = [(''f'', ''a'' @ [LF, LF])], dk_deny = (\<lambda>_. None)\<rparr> ''f''
     [\<lparr>uc_change_context = None, uc_old_lines = [''a'', []], uc_new_lines = [''b''], uc_is_end_of_file = False\<rparr>,
      \<lparr>uc_change_context = None, uc_old_lines = [], uc_new_lines = [''x''], uc_is_end_of_file = False\<rparr>]
   = Inr (Some (''b'' @ [LF]))"
  by code_simp

section \<open>The properties at work\<close>

definition demo_disk :: disk where
  "demo_disk = \<lparr>dk_files = [(''/w/a'', ''one'' @ [LF] @ ''two'' @ [LF] @ ''three'' @ [LF]), (''/w/b'', ''keep'')],
     dk_deny = (\<lambda>_. None)\<rparr>"

definition demo_chunks :: "update_file_chunk list" where
  "demo_chunks =
     [\<lparr>uc_change_context = None, uc_old_lines = [''one''], uc_new_lines = [''1'', ''1b''], uc_is_end_of_file = False\<rparr>,
      \<lparr>uc_change_context = Some ''two'', uc_old_lines = [''three ''], uc_new_lines = [], uc_is_end_of_file = False\<rparr>]"

lemma demo_derive:
  "derive_new_contents_from_chunks demo_disk ''/w/a'' demo_chunks
    = Inr (Some (''1'' @ [LF] @ ''1b'' @ [LF] @ ''two'' @ [LF]))"
  by code_simp

theorem update_is_splice_witness:
  "\<exists>rs. list_all2 (found_at [''one'', ''two'', ''three'']) demo_chunks rs
     \<and> disjoint_from 0 [''one'', ''two'', ''three''] rs"
proof -
  have lines: "file_lines (''one'' @ [LF] @ ''two'' @ [LF] @ ''three'' @ [LF]) = [''one'', ''two'', ''three'']"
    by code_simp
  have "fs_read_to_string ''/w/a'' demo_disk = Inr (''one'' @ [LF] @ ''two'' @ [LF] @ ''three'' @ [LF])"
    by (simp add: fs_read_to_string_def demo_disk_def)
  from update_is_splice [OF demo_derive this] show ?thesis
    unfolding lines by (auto simp: demo_chunks_def)
qed

definition move_patch :: string where
  "move_patch = join [LF] [''*** Begin Patch'', ''*** Update File: a'', ''*** Move to: a'', ''@@'', ''-one'',
     ''+1'', ''*** End Patch'']"

lemma parse_move_patch:
  "parse_patch move_patch = Inr \<lparr>pp_hunks = [UpdateFile ''a'' (Some ''a'')
     [\<lparr>uc_change_context = None, uc_old_lines = [''one''], uc_new_lines = [''1''], uc_is_end_of_file = False\<rparr>]],
     pp_patch = move_patch\<rparr>"
  by code_simp

theorem apply_patch_frame_witness:
  "\<exists>r d'. apply_patch move_patch ''/w'' demo_disk = Some (r, d') \<and> hm_get (dk_files d') ''/w/b'' = Some ''keep''"
proof -
  obtain r d' where run: "apply_patch move_patch ''/w'' demo_disk = Some (r, d')"
    using apply_patch_no_panic by fast
  have "hm_get (dk_files d') ''/w/b'' = hm_get (dk_files demo_disk) ''/w/b''"
    by (rule apply_patch_frame [OF run])
       (auto simp: parse_move_patch resolve_path_def path_join_def is_absolute_def ends_with_def)
  with run show ?thesis by (auto simp: demo_disk_def)
qed

theorem move_onto_itself_deletes_witness:
  "hm_get (dk_files (snd (the (apply_hunk (UpdateFile ''/w/a'' (Some ''/w/a'') demo_chunks) no_paths demo_disk)))) ''/w/a'' = None"
proof -
  have "case apply_hunk (UpdateFile ''/w/a'' (Some ''/w/a'') demo_chunks) no_paths demo_disk of
      Some (Inr _, _) \<Rightarrow> True | _ \<Rightarrow> False" by code_simp
  then obtain ap' d' where "apply_hunk (UpdateFile ''/w/a'' (Some ''/w/a'') demo_chunks) no_paths demo_disk
      = Some (Inr ap', d')" by (auto split: option.splits sum.splits simp del: apply_hunk.simps)
  from move_onto_itself_deletes [OF this] this show ?thesis by simp
qed

end
