(* ===== verification/ToolPolicy.thy ===== *)
theory ToolPolicy
  imports RustPath
begin

text \<open>
  Approval policy of command execution: the policy enumerations of
  \<open>protocol/src/protocol/config_types.rs\<close>, the requirement type and the default requirement of
  \<open>core/src/tools/sandboxing.rs\<close>, and the classification and decision of
  \<open>core/src/exec_policy.rs\<close>. A command is its list of arguments.
\<close>

section \<open>Policies\<close>

datatype ask_for_approval = UnlessTrusted | OnFailure | OnRequest | Never

datatype read_only_access = RestrictedAccess bool "string list" | FullAccess

datatype network_access = Network_Full | Network_None

datatype sandbox_policy =
    DangerFullAccess
  | ReadOnly read_only_access
  | ExternalSandbox network_access
  | WorkspaceWrite "string list" read_only_access bool bool bool

datatype review_decision = Approved | Denied | Always

datatype sandbox_permissions = UseDefault | WithAdditionalPermissions | RequireEscalated

datatype exec_approval_requirement =
    Skip bool
  | NeedsApproval "string option"
  | Forbidden string

fun unconfined :: "sandbox_policy \<Rightarrow> bool" where
  "unconfined DangerFullAccess = True"
| "unconfined (ExternalSandbox _) = True"
| "unconfined _ = False"

definition default_exec_approval_requirement ::
  "ask_for_approval \<Rightarrow> sandbox_policy \<Rightarrow> exec_approval_requirement" where
  "default_exec_approval_requirement policy sandbox =
     (let needs_approval = (case policy of
          Never \<Rightarrow> False
        | OnFailure \<Rightarrow> False
        | OnRequest \<Rightarrow> \<not> unconfined sandbox
        | UnlessTrusted \<Rightarrow> True)
      in if needs_approval then NeedsApproval None else Skip False)"

section \<open>Known safe commands\<close>

definition SAFE_COMMANDS :: "string list" where
  "SAFE_COMMANDS = [''cat'', ''cd'', ''cut'', ''echo'', ''expr'', ''false'', ''grep'', ''head'', ''id'', ''ls'', ''nl'',
     ''paste'', ''pwd'', ''rev'', ''seq'', ''stat'', ''tail'', ''tr'', ''true'', ''uname'', ''uniq'', ''wc'', ''which'',
     ''whoami'']"

definition safe_base64 :: "string list \<Rightarrow> bool" where
  "safe_base64 command \<longleftrightarrow> \<not> list_ex (\<lambda>arg.
     arg \<in> set [''-o'', ''--output''] \<or> starts_with ''--output='' arg
     \<or> (starts_with ''-o'' arg \<and> arg \<noteq> ''-o'')) (drop 1 command)"

definition UNSAFE_FIND_OPTIONS :: "string list" where
  "UNSAFE_FIND_OPTIONS = [''-exec'', ''-execdir'', ''-ok'', ''-okdir'', ''-delete'', ''-fls'', ''-fprint'',
     ''-fprint0'', ''-fprintf'']"

definition safe_find :: "string list \<Rightarrow> bool" where
  "safe_find command \<longleftrightarrow> \<not> list_ex (\<lambda>arg. arg \<in> set UNSAFE_FIND_OPTIONS) command"

definition safe_rg :: "string list \<Rightarrow> bool" where
  "safe_rg command \<longleftrightarrow> \<not> list_ex (\<lambda>arg.
     arg \<in> set [''--search-zip'', ''-z'']
     \<or> list_ex (\<lambda>opt. arg = opt \<or> starts_with (opt @ ''='') arg) [''--pre'', ''--hostname-bin'']) command"

definition git_has_config_override_global_option :: "string list \<Rightarrow> bool" where
  "git_has_config_override_global_option command \<longleftrightarrow> list_ex (\<lambda>arg.
     arg \<in> set [''-c'', ''--config-env'']
     \<or> (starts_with ''-c'' arg \<and> length arg > 2)
     \<or> starts_with ''--config-env='' arg) command"

definition is_git_global_option_with_value :: "string \<Rightarrow> bool" where
  "is_git_global_option_with_value arg \<longleftrightarrow>
     arg \<in> set [''-C'', ''-c'', ''--config-env'', ''--exec-path'', ''--git-dir'', ''--namespace'', ''--super-prefix'',
       ''--work-tree'']"

definition is_git_global_option_with_inline_value :: "string \<Rightarrow> bool" where
  "is_git_global_option_with_inline_value arg \<longleftrightarrow>
     starts_with ''--config-env='' arg \<or> starts_with ''--exec-path='' arg \<or> starts_with ''--git-dir='' arg
     \<or> starts_with ''--namespace='' arg \<or> starts_with ''--super-prefix='' arg \<or> starts_with ''--work-tree='' arg
     \<or> ((starts_with ''-C'' arg \<or> starts_with ''-c'' arg) \<and> length arg > 2)"

text \<open>The loop of \<open>find_git_subcommand\<close> from an index on.\<close>

fun git_subcommand_from :: "string list \<Rightarrow> bool \<Rightarrow> nat \<Rightarrow> string list \<Rightarrow> (nat \<times> string) option" where
  "git_subcommand_from subcommands skip_next idx [] = None"
| "git_subcommand_from subcommands skip_next idx (arg # args) =
     (if skip_next then git_subcommand_from subcommands False (Suc idx) args
      else if is_git_global_option_with_inline_value arg
        then git_subcommand_from subcommands False (Suc idx) args
      else if is_git_global_option_with_value arg
        then git_subcommand_from subcommands True (Suc idx) args
      else if arg = ''--'' \<or> starts_with ''-'' arg
        then git_subcommand_from subcommands False (Suc idx) args
      else if arg \<in> set subcommands then Some (idx, arg)
      else None)"

definition find_git_subcommand :: "string list \<Rightarrow> string list \<Rightarrow> (nat \<times> string) option" where
  "find_git_subcommand command subcommands = (case command of
      [] \<Rightarrow> None
    | cmd0 # args \<Rightarrow>
        if ends_with ''git'' cmd0 then git_subcommand_from subcommands False 1 args else None)"

definition git_subcommand_args_are_read_only :: "string list \<Rightarrow> bool" where
  "git_subcommand_args_are_read_only args \<longleftrightarrow> \<not> list_ex (\<lambda>arg.
     arg \<in> set [''--output'', ''--ext-diff'', ''--textconv'', ''--exec'', ''--paginate'']
     \<or> starts_with ''--output='' arg \<or> starts_with ''--exec='' arg) args"

fun branch_args_from :: "bool \<Rightarrow> string list \<Rightarrow> bool" where
  "branch_args_from saw_read_only_flag [] = saw_read_only_flag"
| "branch_args_from saw_read_only_flag (arg # args) =
     (if arg \<in> set [''--list'', ''-l'', ''--show-current'', ''-a'', ''--all'', ''-r'', ''--remotes'', ''-v'', ''-vv'',
          ''--verbose'']
        then branch_args_from True args
      else if starts_with ''--format='' arg then branch_args_from True args
      else False)"

definition git_branch_is_read_only :: "string list \<Rightarrow> bool" where
  "git_branch_is_read_only branch_args \<longleftrightarrow> branch_args = [] \<or> branch_args_from False branch_args"

definition safe_git :: "string list \<Rightarrow> bool" where
  "safe_git command \<longleftrightarrow> \<not> git_has_config_override_global_option command
     \<and> (case find_git_subcommand command [''status'', ''log'', ''diff'', ''show'', ''branch''] of
          None \<Rightarrow> False
        | Some (idx, subcommand) \<Rightarrow>
            (let args = drop (idx + 1) command
             in if subcommand \<in> set [''status'', ''log'', ''diff'', ''show'']
                  then git_subcommand_args_are_read_only args
                else subcommand = ''branch'' \<and> git_subcommand_args_are_read_only args
                  \<and> git_branch_is_read_only args))"

text \<open>\<open>(\d+,)?\d+p\<close>.\<close>

definition all_digits :: "string \<Rightarrow> bool" where
  "all_digits s \<longleftrightarrow> s \<noteq> [] \<and> list_all is_ascii_digit s"

definition is_valid_sed_n_arg :: "string option \<Rightarrow> bool" where
  "is_valid_sed_n_arg arg = (case arg of
      None \<Rightarrow> False
    | Some s \<Rightarrow> (case strip_suffix ''p'' s of
          None \<Rightarrow> False
        | Some core \<Rightarrow> (case split_on (CHR '','') core of
              [num] \<Rightarrow> all_digits num
            | [a, b] \<Rightarrow> all_digits a \<and> all_digits b
            | _ \<Rightarrow> False)))"

text \<open>\<open>command.get(i)\<close>.\<close>

definition arg_at :: "string list \<Rightarrow> nat \<Rightarrow> string option" where
  "arg_at command i = (if i < length command then Some (command ! i) else None)"

definition safe_sed :: "string list \<Rightarrow> bool" where
  "safe_sed command \<longleftrightarrow>
     length command \<le> 4 \<and> arg_at command 1 = Some ''-n'' \<and> is_valid_sed_n_arg (arg_at command 2)"

text \<open>The compilation target is Linux.\<close>

definition is_safe_to_call_with_exec :: "string list \<Rightarrow> bool" where
  "is_safe_to_call_with_exec command = (case command of
      [] \<Rightarrow> False
    | cmd0 # _ \<Rightarrow> (case file_name cmd0 of
          None \<Rightarrow> False
        | Some cmd \<Rightarrow>
            if cmd \<in> set [''numfmt'', ''tac''] then True
            else if cmd \<in> set SAFE_COMMANDS then True
            else if cmd = ''base64'' then safe_base64 command
            else if cmd = ''find'' then safe_find command
            else if cmd = ''rg'' then safe_rg command
            else if cmd = ''git'' then safe_git command
            else if cmd = ''sed'' then safe_sed command
            else False))"

definition is_known_safe_command :: "string list \<Rightarrow> bool" where
  "is_known_safe_command command = is_safe_to_call_with_exec command"

section \<open>Dangerous commands\<close>

fun is_dangerous_to_call_with_exec :: "string list \<Rightarrow> bool" where
  "is_dangerous_to_call_with_exec [] = False"
| "is_dangerous_to_call_with_exec (cmd0 # args) =
     (if cmd0 = ''rm'' then arg_at (cmd0 # args) 1 \<in> set [Some ''-f'', Some ''-rf'']
      else if cmd0 = ''sudo'' then is_dangerous_to_call_with_exec args
      else False)"

definition command_might_be_dangerous :: "string list \<Rightarrow> bool" where
  "command_might_be_dangerous command = is_dangerous_to_call_with_exec command"

section \<open>The decision\<close>

definition command_display_for_approval :: "string list \<Rightarrow> string option" where
  "command_display_for_approval command = (if command = [] then None else Some (join '' '' command))"

text \<open>\<open>rsplit(c).next()\<close>.\<close>

definition after_last :: "char \<Rightarrow> string \<Rightarrow> string" where
  "after_last c s = last (split_on c s)"

definition runs_apply_patch :: "string list \<Rightarrow> bool" where
  "runs_apply_patch command = (case command of
      [] \<Rightarrow> False
    | program # _ \<Rightarrow>
        after_last (CHR 0x5C) (after_last (CHR ''/'') program) \<in> set [''apply_patch'', ''apply-patch''])"

definition unmatched_command ::
  "string list \<Rightarrow> sandbox_policy \<Rightarrow> ask_for_approval \<Rightarrow> sandbox_permissions \<Rightarrow> exec_approval_requirement" where
  "unmatched_command command sandbox policy permissions = (case policy of
      Never \<Rightarrow> Skip False
    | OnFailure \<Rightarrow> Skip False
    | UnlessTrusted \<Rightarrow> NeedsApproval (command_display_for_approval command)
    | OnRequest \<Rightarrow>
        if unconfined sandbox then Skip False
        else if permissions = RequireEscalated then NeedsApproval (command_display_for_approval command)
        else Skip False)"

definition eval_exec_approval ::
  "string list \<Rightarrow> sandbox_policy \<Rightarrow> ask_for_approval \<Rightarrow> sandbox_permissions \<Rightarrow> exec_approval_requirement" where
  "eval_exec_approval command sandbox policy permissions =
     (if runs_apply_patch command
        then Forbidden ''apply_patch must be handled internally, not via external execution''
      else if permissions = RequireEscalated \<and> policy \<noteq> OnRequest
        then Forbidden ''escalated sandbox permissions require OnRequest approval policy''
      else if is_known_safe_command command then Skip False
      else if command_might_be_dangerous command then
        (if policy = Never then Forbidden ''dangerous command blocked by approval policy (Never)''
         else NeedsApproval (command_display_for_approval command))
      else unmatched_command command sandbox policy permissions)"

section \<open>Intents\<close>

text \<open>
  What a command means to do (\<open>core/src/tools/command_intent.rs\<close>): the command inside a shell
  wrapper, its class of mutation and the paths it names. Splitting a command text into words
  is the crate \<open>shlex\<close>, a parameter of the definitions that use it.
\<close>

section \<open>Definitions\<close>

datatype command_mutation_class = MutReadOnly | WritesFiles | ChangesPermissions | Destructive | Unknown

record path_intent =
  pi_operation :: string
  pi_path :: string
  pi_external_to_cwd :: bool

record command_intent =
  ci_canonical_command :: "string list"
  ci_command_prefix :: "string list"
  ci_path_intents :: "path_intent list"
  ci_mutation_class :: command_mutation_class
  ci_network_hint :: bool
  ci_external_paths :: "string list"

type_synonym splitter = "string \<Rightarrow> string list option"

definition basename :: "string \<Rightarrow> string" where
  "basename command = rev (takeWhile (\<lambda>c. c \<noteq> CHR ''/'' \<and> c \<noteq> CHR 0x5C) (rev command))"

definition first_word :: "string list \<Rightarrow> string option" where
  "first_word command = (case command of [] \<Rightarrow> None | cmd0 # _ \<Rightarrow> Some (basename cmd0))"

definition wrapped_command :: "string list \<Rightarrow> string option" where
  "wrapped_command command = (case first_word command of
      None \<Rightarrow> None
    | Some cmd0 \<Rightarrow>
        if length command < 3 then None
        else if cmd0 \<in> set [''bash'', ''sh'', ''zsh''] \<and> command ! 1 \<in> set [''-c'', ''-lc''] then Some (command ! 2)
        else if cmd0 \<in> set [''cmd'', ''cmd.exe''] \<and> eq_ignore_ascii_case (command ! 1) ''/c'' then Some (command ! 2)
        else if str_contains ''powershell'' cmd0 \<and> command ! 1 \<in> set [''-Command'', ''-command'', ''-c'']
          then Some (command ! 2)
        else None)"

definition unwrap_shell_wrapper :: "splitter \<Rightarrow> string list \<Rightarrow> string list option" where
  "unwrap_shell_wrapper shlex command = (case wrapped_command command of
      None \<Rightarrow> None
    | Some wrapped \<Rightarrow>
        (let parsed = (case shlex wrapped of None \<Rightarrow> [] | Some ws \<Rightarrow> ws)
         in if parsed = [] then None else Some parsed))"

definition build_command_prefix :: "string list \<Rightarrow> string list" where
  "build_command_prefix command = (case first_word command of
      None \<Rightarrow> []
    | Some cmd0 \<Rightarrow>
        cmd0 # (if cmd0 \<in> set [''git'', ''cargo'', ''npm'', ''pnpm'', ''yarn'', ''uv'']
                then (case arg_at command 1 of
                    Some arg1 \<Rightarrow> if starts_with ''-'' arg1 then [] else [arg1]
                  | None \<Rightarrow> [])
                else []))"

definition command_uses_network :: "string list \<Rightarrow> bool" where
  "command_uses_network command = (case first_word command of
      None \<Rightarrow> False
    | Some cmd0 \<Rightarrow> cmd0 \<in> set [''curl'', ''wget'', ''ssh'', ''scp'', ''rsync'', ''nc'', ''ncat'', ''ping'', ''dig'',
        ''nslookup'', ''telnet'', ''ftp''])"

definition sed_in_place :: "string list \<Rightarrow> bool" where
  "sed_in_place command \<longleftrightarrow> list_ex (\<lambda>arg. arg = ''-i'' \<or> starts_with ''-i'' arg) (drop 1 command)"

definition classify_mutation :: "string list \<Rightarrow> command_mutation_class" where
  "classify_mutation command = (case first_word command of
      None \<Rightarrow> Unknown
    | Some cmd0 \<Rightarrow>
        if cmd0 = ''sed'' \<and> sed_in_place command then WritesFiles
        else if cmd0 = ''patch'' then WritesFiles
        else if cmd0 = ''git'' then
          (case arg_at command 1 of
             Some sub \<Rightarrow>
               if sub \<in> set [''apply'', ''checkout'', ''restore'', ''mv''] then WritesFiles
               else if sub = ''rm'' then Destructive else Unknown
           | None \<Rightarrow> Unknown)
        else if cmd0 \<in> set [''cat'', ''cd'', ''echo'', ''find'', ''grep'', ''head'', ''ls'', ''nl'', ''pwd'', ''rg'', ''sed'',
          ''tail'', ''wc''] then MutReadOnly
        else if cmd0 \<in> set [''touch'', ''mkdir'', ''cp'', ''mv'', ''tee''] then WritesFiles
        else if cmd0 \<in> set [''chmod'', ''chown'', ''chgrp''] then ChangesPermissions
        else if cmd0 = ''rm'' then Destructive
        else Unknown)"

definition intent_of :: "string \<Rightarrow> string \<Rightarrow> string \<Rightarrow> path_intent" where
  "intent_of cwd operation arg =
     (let normalized = normalize_path arg cwd
      in \<lparr>pi_operation = operation, pi_path = normalized,
          pi_external_to_cwd = \<not> path_starts_with normalized cwd\<rparr>)"

definition no_option :: "string \<Rightarrow> bool" where
  "no_option arg \<longleftrightarrow> \<not> starts_with ''-'' arg"

definition position :: "('a \<Rightarrow> bool) \<Rightarrow> 'a list \<Rightarrow> nat option" where
  "position P xs = (if list_ex P xs then Some (length (takeWhile (\<lambda>x. \<not> P x) xs)) else None)"

definition git_path_start :: "string list \<Rightarrow> string \<Rightarrow> nat" where
  "git_path_start command subcommand =
     (if subcommand \<in> set [''checkout'', ''restore'']
      then (case position (\<lambda>arg. arg = ''--'') command of Some idx \<Rightarrow> idx + 1 | None \<Rightarrow> length command)
      else 2)"

definition git_mutation :: "string list \<Rightarrow> string option" where
  "git_mutation command = (case arg_at command 1 of
      Some sub \<Rightarrow> if sub \<in> set [''rm'', ''mv'', ''checkout'', ''restore''] then Some sub else None
    | None \<Rightarrow> None)"

definition collect_path_intents :: "string list \<Rightarrow> string \<Rightarrow> path_intent list" where
  "collect_path_intents command cwd = (case first_word command of
      None \<Rightarrow> []
    | Some cmd0 \<Rightarrow>
        if cmd0 = ''git'' \<and> git_mutation command \<noteq> None
        then map (intent_of cwd (the (git_mutation command)))
               (filter no_option (drop (git_path_start command (the (git_mutation command))) command))
        else if cmd0 = ''sed'' \<and> sed_in_place command
        then map (intent_of cwd ''sed'') (drop 1 (filter no_option (drop 2 command)))
        else if cmd0 \<in> set [''cd'', ''rm'', ''cp'', ''mv'', ''mkdir'', ''touch'', ''chmod'', ''chown'', ''chgrp'', ''cat'']
        then map (intent_of cwd cmd0)
               (filter no_option
                  (drop (if cmd0 \<in> set [''chmod'', ''chown'', ''chgrp''] then 2 else 1) command))
        else [])"

definition from_argv :: "splitter \<Rightarrow> string list \<Rightarrow> string \<Rightarrow> command_intent" where
  "from_argv shlex command cwd =
     (let canonical_command =
            (case unwrap_shell_wrapper shlex command of None \<Rightarrow> command | Some c \<Rightarrow> c);
          path_intents = collect_path_intents canonical_command cwd
      in \<lparr>ci_canonical_command = canonical_command,
          ci_command_prefix = build_command_prefix canonical_command,
          ci_path_intents = path_intents,
          ci_mutation_class = classify_mutation canonical_command,
          ci_network_hint = command_uses_network canonical_command,
          ci_external_paths = map pi_path (filter pi_external_to_cwd path_intents)\<rparr>)"

definition from_command :: "splitter \<Rightarrow> string \<Rightarrow> string \<Rightarrow> command_intent" where
  "from_command shlex command cwd =
     from_argv shlex (case shlex command of None \<Rightarrow> [] | Some tokens \<Rightarrow> tokens) cwd"

text \<open>\<open>eval_shell_command_approval\<close> of \<open>core/src/exec_policy.rs\<close>.\<close>

definition eval_shell_command_approval ::
  "splitter \<Rightarrow> string \<Rightarrow> string \<Rightarrow> sandbox_policy \<Rightarrow> ask_for_approval \<Rightarrow> sandbox_permissions
     \<Rightarrow> exec_approval_requirement" where
  "eval_shell_command_approval shlex command cwd sandbox policy permissions =
     (let canonical = ci_canonical_command (from_command shlex command cwd)
      in eval_exec_approval (if canonical = [] then [command] else canonical) sandbox policy permissions)"

end
