(* ===== verification/ExecSafety.thy ===== *)
theory ExecSafety
  imports ToolPolicy
begin

text \<open>
  What the approval policy guarantees about commands, what it does not see in a shell command,
  and what the paths of a command's intent mean.
\<close>

section \<open>The decision matrix\<close>

lemma components_of_name:
  "CHR ''/'' \<notin> set s \<Longrightarrow> s \<noteq> [] \<Longrightarrow> path_components s = [component_of s]"
  by (cases s) (auto simp: path_components_def split_on_no_sep is_absolute_def)

lemma file_name_of_name: "plain_seg s \<Longrightarrow> file_name s = Some s"
  by (simp add: file_name_def components_of_name plain_seg_def component_of_def)

lemma dangerous_program:
  "is_dangerous_to_call_with_exec command \<Longrightarrow> \<exists>args. command = ''rm'' # args \<or> command = ''sudo'' # args"
  by (cases command) (auto split: if_splits)

text \<open>No command is on both lists.\<close>

lemma dangerous_not_safe: "command_might_be_dangerous command \<Longrightarrow> \<not> is_known_safe_command command"
proof -
  assume "command_might_be_dangerous command"
  then obtain args where "command = ''rm'' # args \<or> command = ''sudo'' # args"
    using dangerous_program by (auto simp: command_might_be_dangerous_def)
  moreover have "file_name ''rm'' = Some ''rm''" "file_name ''sudo'' = Some ''sudo''"
    by (simp_all add: file_name_of_name plain_seg_def)
  ultimately show ?thesis
    by (auto simp: is_known_safe_command_def is_safe_to_call_with_exec_def SAFE_COMMANDS_def)
qed

lemma eval_dangerous:
  assumes "command_might_be_dangerous command"
  shows "eval_exec_approval command sandbox policy permissions \<noteq> Skip b"
    and "policy = Never \<Longrightarrow> \<exists>reason. eval_exec_approval command sandbox policy permissions = Forbidden reason"
  using assms dangerous_not_safe [OF assms] by (auto simp: eval_exec_approval_def)

lemma eval_bypass: "eval_exec_approval command sandbox policy permissions \<noteq> Skip True"
  by (auto simp: eval_exec_approval_def unmatched_command_def split: ask_for_approval.splits)

text \<open>C14. Whatever the sandbox: a command classified as dangerous, under any number of \<open>sudo\<close>, is
  never run without a prompt and is forbidden when the policy is to never ask; running
  \<open>apply_patch\<close> from outside is always forbidden; a policy of never asking never asks; under
  \<open>UnlessTrusted\<close> only commands on the safe list run without a prompt; and no command is ever
  allowed to bypass the sandbox.\<close>

theorem approval_matrix:
  defines "eval \<equiv> eval_exec_approval"
  shows "(command_might_be_dangerous (replicate n ''sudo'' @ command) = command_might_be_dangerous command)
    \<and> (command_might_be_dangerous command \<longrightarrow> (\<forall>b. eval command sandbox policy permissions \<noteq> Skip b)
        \<and> (policy = Never \<longrightarrow> (\<exists>reason. eval command sandbox policy permissions = Forbidden reason)))
    \<and> (runs_apply_patch command \<longrightarrow> (\<exists>reason. eval command sandbox policy permissions = Forbidden reason))
    \<and> (policy = Never \<longrightarrow> (\<forall>reason. eval command sandbox policy permissions \<noteq> NeedsApproval reason))
    \<and> (policy = UnlessTrusted \<and> eval command sandbox policy permissions = Skip False
        \<longrightarrow> is_known_safe_command command)
    \<and> eval command sandbox policy permissions \<noteq> Skip True"
proof (intro conjI impI allI)
  show "command_might_be_dangerous (replicate n ''sudo'' @ command) = command_might_be_dangerous command"
    by (induction n) (simp_all add: command_might_be_dangerous_def)
qed (use eval_dangerous eval_bypass in \<open>auto simp: eval_def eval_exec_approval_def unmatched_command_def
      split: if_splits\<close>)

theorem approval_matrix_witness:
  "eval_exec_approval [''sudo'', ''rm'', ''-rf'', ''/''] DangerFullAccess OnFailure UseDefault \<noteq> Skip False"
  using approval_matrix [of 0 "[''sudo'', ''rm'', ''-rf'', ''/'']"]
  by (simp add: command_might_be_dangerous_def arg_at_def)

section \<open>Shell commands\<close>

lemma safe_command_skips:
  assumes "cmd0 \<in> set SAFE_COMMANDS" and "permissions \<noteq> RequireEscalated"
  shows "eval_exec_approval (cmd0 # args) sandbox policy permissions = Skip False"
proof -
  have "plain_seg cmd0 \<and> CHR 0x5C \<notin> set cmd0 \<and> cmd0 \<notin> {''apply_patch'', ''apply-patch''}"
    using assms(1) unfolding SAFE_COMMANDS_def plain_seg_def by auto
  then have "file_name cmd0 = Some cmd0" "after_last (CHR ''/'') cmd0 = cmd0"
    "after_last (CHR 0x5C) cmd0 = cmd0" "cmd0 \<notin> {''apply_patch'', ''apply-patch''}"
    by (auto simp: file_name_of_name after_last_def split_on_no_sep plain_seg_def)
  with assms show ?thesis
    by (simp add: eval_exec_approval_def runs_apply_patch_def is_known_safe_command_def
        is_safe_to_call_with_exec_def)
qed

lemma safe_words:
  "list_all (\<lambda>c. basename c = c \<and> c \<notin> set [''bash'', ''sh'', ''zsh'', ''cmd'', ''cmd.exe'']
     \<and> \<not> str_contains ''powershell'' c) SAFE_COMMANDS"
  by code_simp

lemma safe_not_wrapper: "cmd0 \<in> set SAFE_COMMANDS \<Longrightarrow> wrapped_command (cmd0 # args) = None"
  using safe_words by (auto simp: wrapped_command_def first_word_def list_all_iff)

text \<open>The classification looks at the first word only: a shell command that starts with a
  word of the safe list is run without a prompt under every policy, whatever follows it,
  also when what follows is \<open>&&\<close> and a dangerous command.\<close>

theorem safe_prefix_hides_rest:
  assumes "shlex text' = Some (cmd0 # args)" and "cmd0 \<in> set SAFE_COMMANDS" and "permissions \<noteq> RequireEscalated"
  shows "eval_shell_command_approval shlex text' cwd sandbox policy permissions = Skip False"
  using assms safe_command_skips safe_not_wrapper
  by (simp add: eval_shell_command_approval_def from_command_def from_argv_def unwrap_shell_wrapper_def Let_def)

text \<open>Splitting at blanks is what \<open>shlex\<close> does on texts without quotes, escapes and comments.\<close>

definition blank_split :: splitter where
  "blank_split s = Some (filter (\<lambda>w. w \<noteq> []) (split_on (CHR '' '') s))"

theorem safe_prefix_hides_rest_witness:
  "eval_shell_command_approval blank_split ''ls && rm -rf src'' ''/w'' DangerFullAccess UnlessTrusted UseDefault
     = Skip False
   \<and> command_might_be_dangerous [''rm'', ''-rf'', ''src'']"
proof
  show "eval_shell_command_approval blank_split ''ls && rm -rf src'' ''/w'' DangerFullAccess UnlessTrusted UseDefault
     = Skip False"
    by (rule safe_prefix_hides_rest [of _ _ "''ls''" "[''&&'', ''rm'', ''-rf'', ''src'']"])
       (simp_all add: blank_split_def SAFE_COMMANDS_def)
qed (simp add: command_might_be_dangerous_def arg_at_def)

section \<open>Paths\<close>

text \<open>Lexical normalisation implements the list of segments, in which a current-directory
  component is dropped and a parent component removes the segment before it: the text it
  builds is that list's, it reads back as that list, and normalising again changes nothing.\<close>

theorem normalize_refines:
  "lexically_normalize_path path = path_text (norm_path path)
    \<and> path_components (lexically_normalize_path path)
        = (if fst (norm_path path) then [RootDir] else []) @ map Normal (snd (norm_path path))
    \<and> lexically_normalize_path (lexically_normalize_path path) = lexically_normalize_path path"
  by (simp only: normalize_text norm_path_idem components_norm_path simp_thms)

lemma intent_paths:
  assumes "p \<in> set (collect_path_intents command cwd)"
  shows "\<exists>operation arg. p = intent_of cwd operation arg"
proof (cases "first_word command")
  case None
  with assms show ?thesis by (simp add: collect_path_intents_def)
next
  case (Some cmd0)
  with assms have "p \<in> set (collect_path_intents command cwd)" by simp
  then obtain operation args where "p \<in> set (map (intent_of cwd operation) args)"
    unfolding collect_path_intents_def Some option.case
    by (simp only: split: if_split_asm) (blast | simp)+
  then show ?thesis by auto
qed

lemma normalized_components:
  "\<exists>rooted segs. path_components (normalize_path arg cwd) = (if rooted then [RootDir] else []) @ map Normal segs"
  unfolding normalize_path_def normalize_text components_norm_path by blast

lemma absolute_components: "is_absolute cwd \<Longrightarrow> \<exists>cs. path_components cwd = RootDir # cs"
  by (simp add: path_components_def)

lemma path_starts_below:
  assumes "is_absolute cwd"
  shows "path_starts_with (normalize_path arg cwd) cwd
    \<longleftrightarrow> (\<exists>segs. path_components (normalize_path arg cwd) = path_components cwd @ map Normal segs)"
proof
  obtain cs where cwd: "path_components cwd = RootDir # cs" using absolute_components [OF assms] by blast
  obtain rooted segs where
    p: "path_components (normalize_path arg cwd) = (if rooted then [RootDir] else []) @ map Normal segs"
    using normalized_components by blast
  assume "path_starts_with (normalize_path arg cwd) cwd"
  then have pre: "take (Suc (length cs)) (path_components (normalize_path arg cwd)) = RootDir # cs"
    by (simp add: path_starts_with_def cwd)
  then have rooted: rooted by (cases rooted; cases segs) (auto simp: p)
  with pre have "map Normal (take (length cs) segs) = cs" by (simp add: p take_map)
  then have "map Normal segs = cs @ map Normal (drop (length cs) segs)"
    by (metis append_take_drop_id map_append)
  then show "\<exists>segs. path_components (normalize_path arg cwd) = path_components cwd @ map Normal segs"
    using rooted by (auto simp: p cwd)
qed (auto simp: path_starts_with_def)

text \<open>With an absolute working directory, a path of a command's intent is reported as
  internal exactly when it is the working directory followed by plain segments, so that no
  parent component can lead out of it; no reported path contains a parent component; and the
  external paths of the intent are those of its external path intents.\<close>

theorem internal_paths_below_cwd:
  assumes "is_absolute cwd" and "p \<in> set (ci_path_intents (from_command shlex command cwd))"
  shows "(\<not> pi_external_to_cwd p \<longleftrightarrow>
      (\<exists>segs. path_components (pi_path p) = path_components cwd @ map Normal segs))
    \<and> ParentDir \<notin> set (path_components (pi_path p))
    \<and> (pi_external_to_cwd p \<longrightarrow> pi_path p \<in> set (ci_external_paths (from_command shlex command cwd)))"
proof -
  have "p \<in> set (collect_path_intents (ci_canonical_command (from_command shlex command cwd)) cwd)"
    using assms(2) by (simp add: from_command_def from_argv_def Let_def)
  then obtain operation arg where p: "p = intent_of cwd operation arg"
    using intent_paths by blast
  then have path: "pi_path p = normalize_path arg cwd"
    and ext: "pi_external_to_cwd p \<longleftrightarrow> \<not> path_starts_with (pi_path p) cwd"
    by (simp_all add: intent_of_def Let_def)
  have "ParentDir \<notin> set (path_components (pi_path p))"
    using normalized_components [of arg cwd] unfolding path by auto
  moreover have "pi_external_to_cwd p \<longrightarrow> pi_path p \<in> set (ci_external_paths (from_command shlex command cwd))"
    using assms(2) by (auto simp: from_command_def from_argv_def Let_def)
  ultimately show ?thesis using path_starts_below [OF assms(1), of arg] unfolding ext path by simp
qed

theorem internal_paths_below_cwd_witness:
  "\<exists>p. ci_path_intents (from_command blank_split ''cat ../README.md'' ''/repo/wt'') = [p]
     \<and> pi_external_to_cwd p \<and> pi_path p = ''/repo/README.md''
     \<and> \<not> (\<exists>segs. path_components ''/repo/README.md'' = path_components ''/repo/wt'' @ map Normal segs)"
proof -
  have run: "ci_path_intents (from_command blank_split ''cat ../README.md'' ''/repo/wt'')
    = [\<lparr>pi_operation = ''cat'', pi_path = ''/repo/README.md'', pi_external_to_cwd = True\<rparr>]" by code_simp
  have "is_absolute ''/repo/wt''" by (simp add: is_absolute_def)
  from internal_paths_below_cwd [OF this, of "\<lparr>pi_operation = ''cat'', pi_path = ''/repo/README.md'',
      pi_external_to_cwd = True\<rparr>" blank_split "''cat ../README.md''"]
  show ?thesis using run by simp
qed

end
