(* ===== verification/ToolGate.thy ===== *)
theory ToolGate
  imports TeamHandoff TeamOwnership PatchEffects PatchRoundtrip ToolPolicy
begin

text \<open>
  The gate between a tool call and the team (\<open>core/src/tools/router.rs\<close> and
  \<open>TeamRuntime::ensure_mutation_paths_owned\<close> of \<open>core/src/agent/team_runtime.rs\<close>): the paths a
  call is going to change, and the leases the calling thread must hold on them.

  The arguments of a call are a JSON object: a map from names to values, of which only
  strings are looked into. The conversions of \<open>serde_json\<close> and the splitting of \<open>shlex\<close>
  are parameters (\<open>tool_lib\<close>), as is what the registered handler answers to \<open>is_mutating\<close>.
\<close>

section \<open>Calls\<close>

datatype json_value = JString string | JOther

record tool_call =
  tc_tool_name :: string
  tc_args :: "(string, json_value) hashmap"

record shell_params =
  sp_command :: "string list"
  sp_workdir :: "string option"
  sp_permissions :: "sandbox_permissions option"

record tool_lib =
  tl_shlex :: splitter
  tl_params :: "(string, json_value) hashmap \<Rightarrow> shell_params option"
  tl_permissions :: "json_value \<Rightarrow> sandbox_permissions option"
  tl_is_mutating :: "tool_call \<Rightarrow> bool option"

record tool_spec =
  tsp_requires_approval :: bool
  tsp_allow_network :: bool
  tsp_mutates_state :: bool

text \<open>\<open>args.get(name).and_then(Value::as_str)\<close>.\<close>

definition str_arg :: "tool_call \<Rightarrow> string \<Rightarrow> string option" where
  "str_arg req name = (case hm_get (tc_args req) name of Some (JString s) \<Rightarrow> Some s | _ \<Rightarrow> None)"

definition canonical_exec_tool_name :: "string \<Rightarrow> string option" where
  "canonical_exec_tool_name name =
     (if name = ''shell'' then Some ''shell''
      else if name \<in> set [''unified_exec'', ''local_shell'', ''container.exec''] then Some ''unified_exec''
      else None)"

definition exec_command_intent :: "tool_lib \<Rightarrow> tool_call \<Rightarrow> string \<Rightarrow> command_intent option" where
  "exec_command_intent lib req cwd =
     (if canonical_exec_tool_name (tc_tool_name req) = Some ''shell''
      then map_option (\<lambda>command. from_command (tl_shlex lib) command
             (case str_arg req ''workdir'' of Some w \<Rightarrow> w | None \<Rightarrow> cwd)) (str_arg req ''command'')
      else if canonical_exec_tool_name (tc_tool_name req) = Some ''unified_exec''
      then map_option (\<lambda>params. from_argv (tl_shlex lib) (sp_command params)
             (case sp_workdir params of Some w \<Rightarrow> w | None \<Rightarrow> cwd)) (tl_params lib (tc_args req))
      else None)"

section \<open>The requirement of a registered tool\<close>

definition tool_approval_requirement ::
  "tool_lib \<Rightarrow> tool_spec option \<Rightarrow> ask_for_approval \<Rightarrow> sandbox_policy \<Rightarrow> tool_call \<Rightarrow> exec_approval_requirement" where
  "tool_approval_requirement lib spec policy sandbox req =
     (if (case spec of None \<Rightarrow> True | Some s \<Rightarrow> \<not> tsp_requires_approval s) then Skip False
      else
        (case (canonical_exec_tool_name (tc_tool_name req), str_arg req ''command'', tl_params lib (tc_args req)) of
           (Some ''shell'', Some command, _) \<Rightarrow>
             eval_shell_command_approval (tl_shlex lib) command
               (case str_arg req ''workdir'' of Some w \<Rightarrow> w | None \<Rightarrow> ''.'') sandbox policy
               (case Option.bind (hm_get (tc_args req) ''sandbox_permissions'') (tl_permissions lib) of
                  Some p \<Rightarrow> p | None \<Rightarrow> UseDefault)
         | (Some ''unified_exec'', _, Some params) \<Rightarrow>
             eval_exec_approval (sp_command params) sandbox policy
               (case sp_permissions params of Some p \<Rightarrow> p | None \<Rightarrow> UseDefault)
         | _ \<Rightarrow>
             (case policy of
                Never \<Rightarrow> Forbidden (''tool '' @ tc_tool_name req @ '' is blocked by approval policy'')
              | OnFailure \<Rightarrow> Skip False
              | OnRequest \<Rightarrow> NeedsApproval (Some (''Execute '' @ tc_tool_name req @ ''?''))
              | UnlessTrusted \<Rightarrow> NeedsApproval (Some (''Execute '' @ tc_tool_name req @ ''?'')))))"

section \<open>The paths of a call\<close>

definition normalize_lock_path :: "string \<Rightarrow> string \<Rightarrow> string" where
  "normalize_lock_path path cwd = normalize_path path cwd"

definition patch_line_path :: "string \<Rightarrow> string option" where
  "patch_line_path line =
     (case strip_prefix ''*** Update File: '' line of Some p \<Rightarrow> Some p
      | None \<Rightarrow> (case strip_prefix ''*** Add File: '' line of Some p \<Rightarrow> Some p
      | None \<Rightarrow> (case strip_prefix ''*** Delete File: '' line of Some p \<Rightarrow> Some p
      | None \<Rightarrow> strip_prefix ''*** Move to: '' line)))"

definition parse_apply_patch_paths :: "string \<Rightarrow> string \<Rightarrow> string list" where
  "parse_apply_patch_paths patch cwd =
     remdups_adj (sort (map (\<lambda>path. normalize_lock_path (trim path) cwd)
       (List.map_filter patch_line_path (str_lines patch))))"

definition mutation_paths_for_call :: "tool_lib \<Rightarrow> tool_call \<Rightarrow> string \<Rightarrow> string list" where
  "mutation_paths_for_call lib req cwd =
     (case exec_command_intent lib req cwd of
        Some intent \<Rightarrow> map pi_path (ci_path_intents intent)
      | None \<Rightarrow>
          if tc_tool_name req \<in> set [''write_file'', ''edit_file'']
          then (case str_arg req ''file_path'' of Some path \<Rightarrow> [normalize_lock_path path cwd] | None \<Rightarrow> [])
          else if tc_tool_name req = ''apply_patch''
          then (case str_arg req ''patch'' of Some patch \<Rightarrow> parse_apply_patch_paths patch cwd | None \<Rightarrow> [])
          else [])"

definition exec_requires_explicit_lock_paths :: "tool_lib \<Rightarrow> tool_call \<Rightarrow> string \<Rightarrow> bool" where
  "exec_requires_explicit_lock_paths lib req cwd =
     (case exec_command_intent lib req cwd of
        None \<Rightarrow> False
      | Some intent \<Rightarrow> ci_mutation_class intent \<in> set [WritesFiles, ChangesPermissions, Destructive]
          \<and> ci_path_intents intent = [])"

definition lock_gate_exempt :: "string \<Rightarrow> bool" where
  "lock_gate_exempt tool_name \<longleftrightarrow>
     tool_name \<in> set [''approve_team_plan'', ''submit_team_plan'', ''team_status'', ''read_team_messages'',
       ''watch_team_inbox'', ''ack_team_message'', ''send_team_message'', ''send_team_nudge'', ''create_team_task'',
       ''update_team_task'', ''assign_team_task'', ''claim_team_task'', ''claim_next_team_task'',
       ''claim_team_messages'', ''handoff_team_task'', ''claim_ready_task'', ''list_ready_tasks'',
       ''add_task_dependency'', ''remove_task_dependency'', ''block_task'', ''unblock_task'', ''release_task_leases'',
       ''force_release_lease'', ''cleanup_team'', ''wait'', ''close_agent'']"

definition is_mutating_call :: "tool_lib \<Rightarrow> tool_spec option \<Rightarrow> tool_call \<Rightarrow> string \<Rightarrow> bool" where
  "is_mutating_call lib spec req cwd \<longleftrightarrow>
     (case spec of None \<Rightarrow> False | Some s \<Rightarrow> tsp_mutates_state s)
     \<or> (case exec_command_intent lib req cwd of None \<Rightarrow> False
        | Some intent \<Rightarrow> ci_mutation_class intent \<noteq> MutReadOnly)
     \<or> (case tl_is_mutating lib req of None \<Rightarrow> False | Some b \<Rightarrow> b)"

section \<open>The gate\<close>

definition LEASE_STALE_AFTER_SECS :: int where "LEASE_STALE_AFTER_SECS = 300"

text \<open>What the gate reads of the team's runtime: its working directory and the threads that
  still run.\<close>

record team_runtime =
  tr_cwd :: string
  tr_active :: "string set"

definition normalize_scope_path :: "string \<Rightarrow> ownership_scope_kind \<Rightarrow> string \<Rightarrow> string" where
  "normalize_scope_path config_cwd kind path =
     (if kind = Scope_Module then trim path
      else lexically_normalize_path (if is_absolute path then path else path_join config_cwd path))"

definition maintain_leases :: "env \<Rightarrow> team_runtime \<Rightarrow> team_state \<Rightarrow> team_state" where
  "maintain_leases e rt st =
     snd (cleanup_stale_leases (later 1 e) (tr_active rt) (env_clock e 0 - LEASE_STALE_AFTER_SECS) st)"

definition ensure_mutation_paths_owned ::
  "env \<Rightarrow> team_runtime \<Rightarrow> string \<Rightarrow> string list \<Rightarrow> team_state
     \<Rightarrow> (write_ownership_failure list + unit) \<times> team_state" where
  "ensure_mutation_paths_owned e rt thread_id paths st =
     (let st1 = maintain_leases e rt st
      in case ensure_write_paths_owned (later 3 e) thread_id
                (map (normalize_scope_path (tr_cwd rt) Scope_File) paths) st1 of
           (Inl failures, st2) \<Rightarrow> (Inl failures, st2)
         | (Inr _, st2) \<Rightarrow> (Inr (), snd (touch_thread_leases (later 5 e) thread_id st2)))"

datatype gate_error = NeedsExplicitPaths | LockRequired "write_ownership_failure list"

definition enforce_ownership_lock_gate ::
  "tool_lib \<Rightarrow> tool_spec option \<Rightarrow> env \<Rightarrow> team_runtime option \<Rightarrow> tool_call \<Rightarrow> string \<Rightarrow> string \<Rightarrow> team_state
     \<Rightarrow> (gate_error + unit) \<times> team_state" where
  "enforce_ownership_lock_gate lib spec e runtime req cwd thread_id st =
     (if \<not> is_mutating_call lib spec req cwd \<or> lock_gate_exempt (tc_tool_name req) then (Inr (), st)
      else case runtime of
        None \<Rightarrow> (Inr (), st)
      | Some rt \<Rightarrow>
          if exec_requires_explicit_lock_paths lib req cwd then (Inl NeedsExplicitPaths, st)
          else
            (let mutation_paths = mutation_paths_for_call lib req cwd
             in if mutation_paths = [] then (Inr (), st)
                else (case ensure_mutation_paths_owned e rt thread_id mutation_paths st of
                    (Inl failures, st') \<Rightarrow> (Inl (LockRequired failures), st')
                  | (Inr _, st') \<Rightarrow> (Inr (), st'))))"

end
