(* ===== verification/GateSafety.thy ===== *)
theory GateSafety
  imports ToolGate
begin

text \<open>
  What the gate guarantees for patches: the parser of the patch and the reader of its paths
  agree on the patches that are printed flush left, and there the gate locks every file the
  patch names; on other patches they disagree.
\<close>

section \<open>The leases after the gate\<close>

lemma maintain_leases_shrinks:
  assumes "team_inv (env_glob e) st"
  shows "team_inv (env_glob e) (maintain_leases e rt st)"
    and "hm_get (ts_ownership_leases (maintain_leases e rt st)) k \<noteq> None
      \<Longrightarrow> hm_get (ts_ownership_leases st) k \<noteq> None"
proof -
  have inv: "team_inv (env_glob (later 1 e)) st" using assms by simp
  from cleanup_stale_leases_inv [OF inv] show "team_inv (env_glob e) (maintain_leases e rt st)"
    by (simp add: maintain_leases_def)
  show "hm_get (ts_ownership_leases (maintain_leases e rt st)) k \<noteq> None
      \<Longrightarrow> hm_get (ts_ownership_leases st) k \<noteq> None"
    using cleanup_stale_leases_get [OF inv, where k = k, OF prod.collapse [symmetric]]
    by (auto simp: maintain_leases_def split: option.splits)
qed

lemma maintain_fresh:
  assumes "team_inv (env_glob e) st" and "fresh_from 0 e st"
  shows "fresh_from 0 (later n e) (maintain_leases e rt st)"
proof -
  have "\<not> hm_contains (ts_ownership_leases (maintain_leases e rt st)) k"
    if "\<not> hm_contains (ts_ownership_leases st) k" for k
    using that maintain_leases_shrinks(2) [OF assms(1), of rt k] unfolding set_map map_of_eq_None_iff by blast
  with assms(2) show ?thesis by (simp add: fresh_from_def)
qed

lemma touch_keeps_validate:
  "validate_write_paths g th paths st = Inr () \<Longrightarrow>
     validate_write_paths g th paths (snd (touch_thread_leases e th' st)) = Inr ()"
proof -
  have keep: "holds_write_lease g th p (heartbeat now th' l) = holds_write_lease g th p l" for p now l
    by (simp add: heartbeat_def holds_write_lease_def)
  show "validate_write_paths g th paths st = Inr () \<Longrightarrow>
     validate_write_paths g th paths (snd (touch_thread_leases e th' st)) = Inr ()"
    by (simp add: validate_ok touch_thread_leases_def Let_def hm_map_def keep split_def)
qed

lemma ensure_mutation_validates:
  assumes inv: "team_inv (env_glob e) st" and inj: "inj (env_uuid e)" and fresh: "fresh_from 0 e st"
    and run: "ensure_mutation_paths_owned e rt th paths st = (Inr (), st')"
  shows "validate_write_paths (env_glob e) th (map (normalize_scope_path (tr_cwd rt) Scope_File) paths) st' = Inr ()"
proof -
  let ?ps = "map (normalize_scope_path (tr_cwd rt) Scope_File) paths"
  obtain n st2 where ensure: "ensure_write_paths_owned (later 3 e) th ?ps (maintain_leases e rt st) = (Inr n, st2)"
    and st': "st' = snd (touch_thread_leases (later 5 e) th st2)"
    using run by (auto simp: ensure_mutation_paths_owned_def Let_def split: prod.splits sum.splits)
  have "validate_write_paths (env_glob e) th ?ps st2 = Inr ()"
    using ensure_validates [OF _ _ maintain_fresh [OF inv fresh] ensure] maintain_leases_shrinks(1) [OF inv] inj
    by simp
  then show ?thesis unfolding st' by (rule touch_keeps_validate)
qed

section \<open>The paths of a printed patch\<close>

lemma set_parse_apply_patch_paths:
  "set (parse_apply_patch_paths patch cwd) =
     {normalize_path (trim p) cwd | p line. line \<in> set (str_lines patch) \<and> patch_line_path line = Some p}"
  by (force simp: parse_apply_patch_paths_def normalize_lock_path_def List.map_filter_def)

lemma hunk_line:
  assumes "p \<in> hunk_paths h"
  shows "\<exists>line \<in> set (render_hunk h). patch_line_path line = Some p"
proof (cases h)
  case (AddFile path contents)
  then show ?thesis using assms
    by (auto simp: patch_line_path_def markers strip_prefix_def starts_with_def)
next
  case (DeleteFile path)
  then show ?thesis using assms
    by (auto simp: patch_line_path_def markers strip_prefix_def starts_with_def)
next
  case (UpdateFile path move_path chunks)
  then show ?thesis using assms
    by (auto simp: patch_line_path_def markers strip_prefix_def starts_with_def)
qed

lemma printed_paths_found:
  assumes "list_all printable_hunk hs" and "h \<in> set hs" and "p \<in> hunk_paths h" and "trim p = p"
  shows "normalize_path p cwd \<in> set (parse_apply_patch_paths (render_patch hs) cwd)"
proof -
  obtain line where line: "line \<in> set (render_hunk h)" "patch_line_path line = Some p"
    using hunk_line [OF assms(3)] by blast
  with assms(2) have "line \<in> set (str_lines (render_patch hs))"
    by (auto simp: str_lines_render_patch [OF assms(1)] render_lines_def)
  with line(2) assms(4) show ?thesis unfolding set_parse_apply_patch_paths by force
qed

lemma patch_call_intent: "tc_tool_name req = ''apply_patch'' \<Longrightarrow> exec_command_intent lib req cwd = None"
  by (simp add: exec_command_intent_def canonical_exec_tool_name_def)

text \<open>C11. If the gate lets an \<open>apply_patch\<close> call of a team member pass, then for every file that
  the patch adds, deletes, updates or moves to, the calling thread holds an exclusive write
  lease afterwards: for every patch printed from hunks whose paths have no white space around
  them, under absolute working directories.\<close>

theorem gate_locks_patch:
  assumes inv: "team_inv (env_glob e) st" and inj: "inj (env_uuid e)" and fresh: "fresh_from 0 e st"
    and call: "tc_tool_name req = ''apply_patch''" "str_arg req ''patch'' = Some (render_patch hs)"
      "tl_is_mutating lib req = Some True"
    and hunks: "list_all printable_hunk hs" "\<forall>h \<in> set hs. \<forall>p \<in> hunk_paths h. trim p = p"
    and cwd: "is_absolute cwd"
    and pass: "enforce_ownership_lock_gate lib spec e (Some rt) req cwd th st = (Inr (), st')"
  shows "\<forall>h \<in> set hs. \<forall>p \<in> hunk_paths h.
    validate_write_paths (env_glob e) th [normalize_path p cwd] st' = Inr ()"
proof (intro ballI)
  fix h p assume "h \<in> set hs" "p \<in> hunk_paths h"
  with hunks have path: "normalize_path p cwd \<in> set (parse_apply_patch_paths (render_patch hs) cwd)"
    using printed_paths_found by blast
  let ?paths = "parse_apply_patch_paths (render_patch hs) cwd"
  have paths: "mutation_paths_for_call lib req cwd = ?paths"
    using call by (simp add: mutation_paths_for_call_def patch_call_intent)
  have "is_mutating_call lib spec req cwd" "\<not> lock_gate_exempt (tc_tool_name req)"
    "\<not> exec_requires_explicit_lock_paths lib req cwd" "?paths \<noteq> []"
    using call path by (auto simp: is_mutating_call_def lock_gate_exempt_def exec_requires_explicit_lock_paths_def
        patch_call_intent)
  with pass have "ensure_mutation_paths_owned e rt th ?paths st = (Inr (), st')"
    by (auto simp: enforce_ownership_lock_gate_def paths split: prod.splits sum.splits)
  from ensure_mutation_validates [OF inv inj fresh this]
  have "validate_write_paths (env_glob e) th (map (normalize_scope_path (tr_cwd rt) Scope_File) ?paths) st' = Inr ()" .
  moreover have "normalize_scope_path (tr_cwd rt) Scope_File (normalize_path p cwd) = normalize_path p cwd"
    using normalize_path_absolute [OF cwd, of p] by (simp add: normalize_scope_path_def)
  ultimately show "validate_write_paths (env_glob e) th [normalize_path p cwd] st' = Inr ()"
    using path unfolding validate_ok by force
qed

text \<open>A board on which a thread has claimed the task that writes below \<open>/w\<close>.\<close>

definition patch_hunks :: "hunk list" where
  "patch_hunks = [AddFile ''new'' (''x'' @ [LF]), DeleteFile ''sub/../old'']"

definition patch_call :: "string \<Rightarrow> tool_call" where
  "patch_call patch = \<lparr>tc_tool_name = ''apply_patch'', tc_args = [(''patch'', JString patch)]\<rparr>"

definition demo_lib :: tool_lib where
  "demo_lib = \<lparr>tl_shlex = (\<lambda>_. None), tl_params = (\<lambda>_. None), tl_permissions = (\<lambda>_. None),
     tl_is_mutating = (\<lambda>_. Some True)\<rparr>"

definition demo_rt :: team_runtime where
  "demo_rt = \<lparr>tr_cwd = ''/w'', tr_active = {''a''}\<rparr>"

definition work_scope :: scope_request where
  "work_scope = \<lparr>sr_kind = Scope_Directory, sr_path = ''/w'', sr_access = Access_ExclusiveWrite,
     sr_reason = None\<rparr>"

definition work_board :: team_state where
  "work_board = snd (claim_ready_task (demo_env_at 2) ''u'' ''a'' None
     (snd (create_task (demo_env_at 0) ''title'' None None None None [work_scope] None False empty_team_state)))"

lemma work_board_inv: "team_inv (env_glob (demo_env_at n)) work_board"
proof -
  have "team_inv (env_glob (demo_env_at 2)) work_board"
    unfolding work_board_def using claim_ready_task_inv create_task_inv empty_inv by (metis env_glob_demo)
  then show ?thesis by simp
qed

lemma work_board_leases: "ts_ownership_leases work_board = []"
  by code_simp

lemma gate_run:
  "fst (enforce_ownership_lock_gate demo_lib None (demo_env_at 2) (Some demo_rt)
     (patch_call (render_patch patch_hunks)) ''/w'' ''a'' work_board) = Inr ()"
  by code_simp

theorem gate_locks_patch_witness:
  "validate_write_paths (=) ''a'' [''/w/old''] (snd (enforce_ownership_lock_gate demo_lib None (demo_env_at 2)
     (Some demo_rt) (patch_call (render_patch patch_hunks)) ''/w'' ''a'' work_board)) = Inr ()"
proof -
  let ?call = "patch_call (render_patch patch_hunks)"
  let ?run = "enforce_ownership_lock_gate demo_lib None (demo_env_at 2) (Some demo_rt) ?call ''/w'' ''a'' work_board"
  have "inj (env_uuid (demo_env_at 2))" by (auto simp: inj_def demo_env_at_def dest: arg_cong [where f = length])
  moreover have "fresh_from 0 (demo_env_at 2) work_board"
    by (simp add: fresh_from_def work_board_leases)
  moreover have "list_all printable_hunk patch_hunks" "\<forall>h \<in> set patch_hunks. \<forall>p \<in> hunk_paths h. trim p = p"
    by (code_simp, simp add: patch_hunks_def trim_id leading_ws_None trailing_ws_None ws_utf8_def ends_with_def)
  moreover have "?run = (Inr (), snd ?run)" using gate_run by (simp add: prod_eq_iff)
  ultimately have "validate_write_paths (env_glob (demo_env_at 2)) ''a'' [normalize_path ''sub/../old'' ''/w''] (snd ?run) = Inr ()"
    using gate_locks_patch [OF work_board_inv, of 2 ?call patch_hunks demo_lib "''/w''" None demo_rt "''a''" "snd ?run"]
    by (simp add: patch_call_def str_arg_def demo_lib_def is_absolute_def patch_hunks_def)
  moreover have "normalize_path ''sub/../old'' ''/w'' = ''/w/old''" by code_simp
  ultimately show ?thesis by simp
qed

definition indented_patch :: string where
  "indented_patch = join [LF] [''*** Begin Patch'', ''  *** Add File: b'', ''+mine'', ''*** End Patch'']"

text \<open>The parser accepts a header with white space before it, the gate does not see it: a patch
  that is applied to a file while the gate finds no path in the call, asks for no lease and
  lets it pass.\<close>

theorem indented_header_escapes_gate:
  "enforce_ownership_lock_gate lib spec e runtime (patch_call indented_patch) cwd th st = (Inr (), st)
    \<and> apply_patch indented_patch ''/w'' demo_disk =
        Some (Inr \<lparr>ap_added = [''/w/b''], ap_modified = [], ap_deleted = []\<rparr>,
          demo_disk\<lparr>dk_files := hm_insert ''/w/b'' (''mine'' @ [LF]) (dk_files demo_disk)\<rparr>)"
proof
  have "List.map_filter patch_line_path (str_lines indented_patch) = []" by code_simp
  then have none: "mutation_paths_for_call lib (patch_call indented_patch) cwd = []"
    by (simp add: mutation_paths_for_call_def patch_call_intent patch_call_def str_arg_def parse_apply_patch_paths_def)
  have name: "tc_tool_name (patch_call indented_patch) = ''apply_patch''" by (simp add: patch_call_def)
  show "enforce_ownership_lock_gate lib spec e runtime (patch_call indented_patch) cwd th st = (Inr (), st)"
    by (simp add: enforce_ownership_lock_gate_def none exec_requires_explicit_lock_paths_def
        patch_call_intent name split: option.split)
  have "parse_patch indented_patch = Inr \<lparr>pp_hunks = [AddFile ''b'' (''mine'' @ [LF])], pp_patch = indented_patch\<rparr>"
    by code_simp
  moreover have "resolve_path ''/w'' ''b'' = ''/w/b''" "path_parent ''/w/b'' = Some ''/w''" by code_simp+
  moreover have "dk_deny demo_disk = (\<lambda>_. None)" by (simp add: demo_disk_def)
  ultimately show "apply_patch indented_patch ''/w'' demo_disk =
        Some (Inr \<lparr>ap_added = [''/w/b''], ap_modified = [], ap_deleted = []\<rparr>,
          demo_disk\<lparr>dk_files := hm_insert ''/w/b'' (''mine'' @ [LF]) (dk_files demo_disk)\<rparr>)"
    by (simp add: apply_patch_def create_parents_def write_at_def fs_write_def fs_create_dir_all_def no_paths_def)
qed

end
