(* ===== verification/NetworkAttempts.thy ===== *)
theory NetworkAttempts
  imports ToolPolicy
begin

text \<open>
  The attempts of \<open>core/src/tools/network_approval.rs\<close>: while a tool runs under managed network
  rules, an attempt is registered under a fresh identifier, the tool's network calls record
  an outcome in it, and finishing the attempt reads the outcome and removes it.
\<close>

datatype network_approval_mode = Immediate | Deferred

datatype network_approval_outcome = DeniedByUser | DeniedByPolicy string

datatype tool_error =
    Rejected string
  | SandboxDenied string "string option"
  | Execution string

type_synonym attempts = "(string, network_approval_outcome option) hashmap"

record active_network_approval =
  an_attempt_id :: "string option"
  an_mode :: network_approval_mode

definition into_deferred :: "active_network_approval \<Rightarrow> string option" where
  "into_deferred active = (case (an_mode active, an_attempt_id active) of
      (Deferred, Some attempt_id) \<Rightarrow> Some attempt_id
    | _ \<Rightarrow> None)"

definition register_attempt :: "string \<Rightarrow> attempts \<Rightarrow> attempts" where
  "register_attempt attempt_id m = hm_insert attempt_id None m"

definition unregister_attempt :: "string \<Rightarrow> attempts \<Rightarrow> attempts" where
  "unregister_attempt attempt_id m = hm_remove attempt_id m"

definition set_outcome :: "string \<Rightarrow> network_approval_outcome \<Rightarrow> attempts \<Rightarrow> attempts" where
  "set_outcome attempt_id outcome m = hm_modify attempt_id (\<lambda>_. Some outcome) m"

definition take_outcome :: "string \<Rightarrow> attempts \<Rightarrow> network_approval_outcome option \<times> attempts" where
  "take_outcome attempt_id m =
     (case hm_get m attempt_id of
        None \<Rightarrow> (None, m)
      | Some slot \<Rightarrow> (slot, hm_modify attempt_id (\<lambda>_. None) m))"

text \<open>The identifier is the next one of the generator.\<close>

definition begin_network_approval ::
  "string \<Rightarrow> bool \<Rightarrow> network_approval_mode option \<Rightarrow> attempts \<Rightarrow> active_network_approval option \<times> attempts" where
  "begin_network_approval fresh has_managed_network_requirements spec m =
     (case spec of
        None \<Rightarrow> (None, m)
      | Some mode \<Rightarrow>
          if \<not> has_managed_network_requirements then (None, m)
          else (Some \<lparr>an_attempt_id = Some fresh, an_mode = mode\<rparr>, register_attempt fresh m))"

definition finish_immediate_network_approval ::
  "active_network_approval \<Rightarrow> attempts \<Rightarrow> (tool_error + unit) \<times> attempts" where
  "finish_immediate_network_approval active m =
     (case an_attempt_id active of
        None \<Rightarrow> (Inr (), m)
      | Some attempt_id \<Rightarrow>
          (case take_outcome attempt_id m of (outcome, m1) \<Rightarrow>
             (case outcome of
                Some DeniedByUser \<Rightarrow> Inl (Rejected ''rejected by user'')
              | Some (DeniedByPolicy message) \<Rightarrow> Inl (Rejected message)
              | None \<Rightarrow> Inr (),
              unregister_attempt attempt_id m1)))"

definition finish_deferred_network_approval :: "string option \<Rightarrow> attempts \<Rightarrow> attempts" where
  "finish_deferred_network_approval deferred m =
     (case deferred of None \<Rightarrow> m | Some attempt_id \<Rightarrow> unregister_attempt attempt_id m)"

lemma keys_set_outcome [simp]: "hm_keys (set_outcome i out m) = hm_keys m"
  by (simp add: set_outcome_def)

lemma keys_take_outcome [simp]: "hm_keys (snd (take_outcome i m)) = hm_keys m"
  by (simp add: take_outcome_def split: option.split)

lemma keys_register: "set (hm_keys (register_attempt i m)) = insert i (set (hm_keys m))"
  by (simp add: register_attempt_def dom_update)

lemma keys_unregister: "set (hm_keys (unregister_attempt i m)) = set (hm_keys m) - {i}"
  by (auto simp: unregister_attempt_def delete_keys)

lemma keys_finish_immediate:
  "an_attempt_id active = Some i \<Longrightarrow>
     set (hm_keys (snd (finish_immediate_network_approval active m))) = set (hm_keys m) - {i}"
  by (simp add: finish_immediate_network_approval_def keys_unregister case_prod_beta del: set_map)

end
