(* ===== verification/ToolOrchestrator.thy ===== *)
theory ToolOrchestrator
  imports NetworkAttempts
begin

text \<open>
  Running a tool (\<open>core/src/tools/orchestrator.rs\<close>): approval, a first attempt in the selected
  sandbox, and an escalated attempt without it. A tool runtime is a record of its trait
  methods over a state of its own; the approval keys are given as \<open>serde_json\<close> renders them
  (\<open>None\<close> when it fails). The asynchronous calls of one run follow each other.

  \<open>or_calls\<close> is not in the code: it lists the prompts and runs that were made, in order, so
  that the properties can speak of them.
\<close>

section \<open>Tools\<close>

datatype sandbox_override = NoOverride | BypassSandboxFirstAttempt

datatype sandboxable_preference = Auto | Require | Forbid

datatype sandbox_kind = Kind_Policy | Kind_None

record approval_ctx =
  ax_retry_reason :: "string option"
  ax_network_approval_reason :: "string option"

record sandbox_attempt =
  sa_sandbox :: sandbox_kind
  sa_policy :: sandbox_policy
  sa_enforce_managed_network :: bool

record turn_context =
  tc_approval_policy :: ask_for_approval
  tc_sandbox_policy :: sandbox_policy
  tc_managed_network :: bool

record ('rq, 'out, 't) tool_runtime =
  rt_approval_keys :: "'rq \<Rightarrow> string option list"
  rt_sandbox_mode :: "'rq \<Rightarrow> sandbox_override"
  rt_should_bypass_approval :: "ask_for_approval \<Rightarrow> bool \<Rightarrow> bool"
  rt_exec_approval_requirement :: "'rq \<Rightarrow> exec_approval_requirement option"
  rt_wants_no_sandbox_approval :: "ask_for_approval \<Rightarrow> bool"
  rt_sandbox_preference :: sandboxable_preference
  rt_escalate_on_failure :: bool
  rt_network_approval_spec :: "'rq \<Rightarrow> network_approval_mode option"
  rt_start_approval :: "'rq \<Rightarrow> approval_ctx \<Rightarrow> 't \<Rightarrow> review_decision \<times> 't"
  rt_run :: "'rq \<Rightarrow> sandbox_attempt \<Rightarrow> string option \<Rightarrow> 't \<Rightarrow> attempts \<Rightarrow> (tool_error + 'out) \<times> 't \<times> attempts"

text \<open>The methods that the traits provide.\<close>

definition default_should_bypass_approval :: "ask_for_approval \<Rightarrow> bool \<Rightarrow> bool" where
  "default_should_bypass_approval policy already_approved \<longleftrightarrow> (if already_approved then True else policy = Never)"

definition default_wants_no_sandbox_approval :: "ask_for_approval \<Rightarrow> bool" where
  "default_wants_no_sandbox_approval policy \<longleftrightarrow> policy \<notin> set [Never, OnRequest]"

section \<open>The approval store\<close>

type_synonym approval_store = "(string, review_decision) hashmap"

definition store_get :: "string option \<Rightarrow> approval_store \<Rightarrow> review_decision option" where
  "store_get key store = (case key of None \<Rightarrow> None | Some k \<Rightarrow> hm_get store k)"

definition store_put :: "string option \<Rightarrow> review_decision \<Rightarrow> approval_store \<Rightarrow> approval_store" where
  "store_put key decision store = (case key of None \<Rightarrow> store | Some k \<Rightarrow> hm_insert k decision store)"

definition has_cached_always :: "string option list \<Rightarrow> approval_store \<Rightarrow> bool" where
  "has_cached_always keys store \<longleftrightarrow> list_all (\<lambda>key. store_get key store = Some Always) keys"

definition cache_always :: "string option list \<Rightarrow> approval_store \<Rightarrow> approval_store" where
  "cache_always keys store = foldl (\<lambda>s key. store_put key Always s) store keys"

section \<open>One run\<close>

datatype call = Asked approval_ctx review_decision | Ran sandbox_attempt

record 't orchestrator =
  or_tool :: 't
  or_store :: approval_store
  or_attempts :: attempts
  or_drawn :: nat
  or_calls :: "call list"

definition ask :: "('rq, 'out, 't) tool_runtime \<Rightarrow> 'rq \<Rightarrow> approval_ctx \<Rightarrow> 't orchestrator
    \<Rightarrow> review_decision \<times> 't orchestrator" where
  "ask tool req ctx st =
     (case rt_start_approval tool req ctx (or_tool st) of (decision, t) \<Rightarrow>
        (decision, st\<lparr>or_tool := t, or_calls := or_calls st @ [Asked ctx decision]\<rparr>))"

text \<open>\<open>run_attempt\<close>; the second component is the handle of a deferred attempt.\<close>

definition run_attempt :: "('rq, 'out, 't) tool_runtime \<Rightarrow> (nat \<Rightarrow> string) \<Rightarrow> 'rq \<Rightarrow> turn_context \<Rightarrow> sandbox_attempt
    \<Rightarrow> 't orchestrator \<Rightarrow> ((tool_error + 'out) \<times> string option) \<times> 't orchestrator" where
  "run_attempt tool uuid req turn attempt st =
     (case begin_network_approval (uuid (or_drawn st)) (tc_managed_network turn)
             (rt_network_approval_spec tool req) (or_attempts st) of (network_approval, m1) \<Rightarrow>
        (let drawn = (if network_approval = None then or_drawn st else Suc (or_drawn st));
             attempt_id = Option.bind network_approval an_attempt_id
         in case rt_run tool req attempt attempt_id (or_tool st) m1 of (run_result, t, m2) \<Rightarrow>
              (let st1 = st\<lparr>or_tool := t, or_attempts := m2, or_drawn := drawn,
                       or_calls := or_calls st @ [Ran attempt]\<rparr>
               in case network_approval of
                    None \<Rightarrow> ((run_result, None), st1)
                  | Some active \<Rightarrow>
                      (case an_mode active of
                         Immediate \<Rightarrow>
                           (case finish_immediate_network_approval active m2 of
                              (Inl err, m3) \<Rightarrow> ((Inl err, None), st1\<lparr>or_attempts := m3\<rparr>)
                            | (Inr _, m3) \<Rightarrow> ((run_result, None), st1\<lparr>or_attempts := m3\<rparr>))
                       | Deferred \<Rightarrow>
                           (let deferred = into_deferred active
                            in case run_result of
                                 Inl _ \<Rightarrow> ((run_result, None),
                                   st1\<lparr>or_attempts := finish_deferred_network_approval deferred m2\<rparr>)
                               | Inr _ \<Rightarrow> ((run_result, deferred), st1))))))"

fun select_initial_sandbox :: "sandbox_policy \<Rightarrow> sandboxable_preference \<Rightarrow> sandbox_kind" where
  "select_initial_sandbox policy Forbid = Kind_None"
| "select_initial_sandbox policy Require = Kind_Policy"
| "select_initial_sandbox policy Auto = (case policy of DangerFullAccess \<Rightarrow> Kind_None | _ \<Rightarrow> Kind_Policy)"

definition build_denial_reason_from_output :: "string \<Rightarrow> string" where
  "build_denial_reason_from_output output' = ''command failed; retry without sandbox?''"

definition requirement_of :: "('rq, 'out, 't) tool_runtime \<Rightarrow> 'rq \<Rightarrow> turn_context \<Rightarrow> exec_approval_requirement" where
  "requirement_of tool req turn = (case rt_exec_approval_requirement tool req of
      Some r \<Rightarrow> r
    | None \<Rightarrow> default_exec_approval_requirement (tc_approval_policy turn) (tc_sandbox_policy turn))"

text \<open>The approval phase: an error, or whether the run is already approved.\<close>

definition decide :: "('rq, 'out, 't) tool_runtime \<Rightarrow> 'rq \<Rightarrow> approval_ctx \<Rightarrow> 't orchestrator
    \<Rightarrow> review_decision \<times> 't orchestrator" where
  "decide tool req ctx st =
     (let keys = rt_approval_keys tool req
      in if keys = [] then ask tool req ctx st
         else if has_cached_always keys (or_store st) then (Always, st)
         else (case ask tool req ctx st of (decision, st1) \<Rightarrow>
             (decision,
              if decision = Always then st1\<lparr>or_store := cache_always keys (or_store st1)\<rparr> else st1)))"

definition approval_phase :: "('rq, 'out, 't) tool_runtime \<Rightarrow> 'rq \<Rightarrow> turn_context \<Rightarrow> 't orchestrator
    \<Rightarrow> (tool_error + bool) \<times> 't orchestrator" where
  "approval_phase tool req turn st = (case requirement_of tool req turn of
      Skip _ \<Rightarrow> (Inr False, st)
    | Forbidden reason \<Rightarrow> (Inl (Rejected reason), st)
    | NeedsApproval reason \<Rightarrow>
        (case decide tool req \<lparr>ax_retry_reason = reason, ax_network_approval_reason = None\<rparr> st of
           (Denied, st1) \<Rightarrow> (Inl (Rejected ''rejected by user''), st1)
         | (_, st1) \<Rightarrow> (Inr True, st1)))"

definition initial_attempt :: "('rq, 'out, 't) tool_runtime \<Rightarrow> 'rq \<Rightarrow> turn_context \<Rightarrow> sandbox_attempt" where
  "initial_attempt tool req turn =
     \<lparr>sa_sandbox = (case rt_sandbox_mode tool req of
          BypassSandboxFirstAttempt \<Rightarrow> Kind_None
        | NoOverride \<Rightarrow> select_initial_sandbox (tc_sandbox_policy turn) (rt_sandbox_preference tool)),
      sa_policy = tc_sandbox_policy turn,
      sa_enforce_managed_network = tc_managed_network turn\<rparr>"

definition escalated_attempt :: "turn_context \<Rightarrow> sandbox_attempt" where
  "escalated_attempt turn =
     \<lparr>sa_sandbox = Kind_None, sa_policy = tc_sandbox_policy turn,
      sa_enforce_managed_network = tc_managed_network turn\<rparr>"

text \<open>Whether a denied first attempt may be retried at all.\<close>

definition may_escalate :: "('rq, 'out, 't) tool_runtime \<Rightarrow> turn_context \<Rightarrow> string option \<Rightarrow> bool" where
  "may_escalate tool turn network_policy_reason \<longleftrightarrow>
     rt_escalate_on_failure tool
     \<and> (rt_wants_no_sandbox_approval tool (tc_approval_policy turn)
        \<or> (tc_approval_policy turn = OnRequest \<and> network_policy_reason \<noteq> None
           \<and> (case default_exec_approval_requirement (tc_approval_policy turn) (tc_sandbox_policy turn) of
                NeedsApproval _ \<Rightarrow> True | _ \<Rightarrow> False)))"

definition escalate :: "('rq, 'out, 't) tool_runtime \<Rightarrow> (nat \<Rightarrow> string) \<Rightarrow> 'rq \<Rightarrow> turn_context \<Rightarrow> bool
    \<Rightarrow> string \<Rightarrow> string option \<Rightarrow> 't orchestrator
    \<Rightarrow> (tool_error + 'out \<times> string option) \<times> 't orchestrator" where
  "escalate tool uuid req turn already_approved output' network_policy_reason st =
     (let retry_reason = (case network_policy_reason of
            Some network_reason \<Rightarrow> network_reason
          | None \<Rightarrow> build_denial_reason_from_output output');
          bypass = rt_should_bypass_approval tool (tc_approval_policy turn) already_approved
            \<and> network_policy_reason = None;
          (decision, st1) = (if bypass then (Approved, st)
            else ask tool req \<lparr>ax_retry_reason = Some retry_reason,
                   ax_network_approval_reason = network_policy_reason\<rparr> st)
      in if decision = Denied then (Inl (Rejected ''rejected by user''), st1)
         else (case run_attempt tool uuid req turn (escalated_attempt turn) st1 of
             ((Inl err, _), st2) \<Rightarrow> (Inl err, st2)
           | ((Inr out, deferred), st2) \<Rightarrow> (Inr (out, deferred), st2)))"

definition run :: "('rq, 'out, 't) tool_runtime \<Rightarrow> (nat \<Rightarrow> string) \<Rightarrow> 'rq \<Rightarrow> turn_context \<Rightarrow> 't orchestrator
    \<Rightarrow> (tool_error + 'out \<times> string option) \<times> 't orchestrator" where
  "run tool uuid req turn st = (case approval_phase tool req turn st of
      (Inl err, st1) \<Rightarrow> (Inl err, st1)
    | (Inr already_approved, st1) \<Rightarrow>
        (case run_attempt tool uuid req turn (initial_attempt tool req turn) st1 of
           ((Inr out, deferred), st2) \<Rightarrow> (Inr (out, deferred), st2)
         | ((Inl (SandboxDenied output' network_policy_reason), _), st2) \<Rightarrow>
             if may_escalate tool turn network_policy_reason
             then escalate tool uuid req turn already_approved output' network_policy_reason st2
             else (Inl (SandboxDenied output' network_policy_reason), st2)
         | ((Inl err, _), st2) \<Rightarrow> (Inl err, st2)))"

end
