(* ===== verification/OrchestratorSafety.thy ===== *)
theory OrchestratorSafety
  imports ToolOrchestrator
begin

text \<open>
  What a run of a tool guarantees, for every tool: nothing runs without the consent that the
  requirement asks for, the sandbox is only left as the policy allows, and no network attempt
  stays registered behind a run that is over.
\<close>

section \<open>The calls of a run\<close>

lemma ask_calls:
  "ask tool req ctx st = (d, st') \<Longrightarrow>
     or_calls st' = or_calls st @ [Asked ctx d] \<and> or_store st' = or_store st
     \<and> or_attempts st' = or_attempts st \<and> or_drawn st' = or_drawn st"
  by (auto simp: ask_def split: prod.splits)

lemma run_attempt_calls:
  "run_attempt tool uuid req turn a st = (r, st') \<Longrightarrow>
     or_calls st' = or_calls st @ [Ran a] \<and> or_store st' = or_store st"
  by (auto simp: run_attempt_def Let_def split: prod.splits option.splits sum.splits network_approval_mode.splits)

text \<open>The approval phase: the calls it makes and what they say.\<close>

definition consent :: "('rq, 'out, 't) tool_runtime \<Rightarrow> 'rq \<Rightarrow> turn_context \<Rightarrow> approval_store \<Rightarrow> call list \<Rightarrow> bool" where
  "consent tool req turn store calls \<longleftrightarrow> (case requirement_of tool req turn of
      Skip _ \<Rightarrow> calls = []
    | Forbidden _ \<Rightarrow> False
    | NeedsApproval reason \<Rightarrow>
        (calls = [] \<and> rt_approval_keys tool req \<noteq> []
           \<and> list_all (\<lambda>key. store_get key store = Some Always) (rt_approval_keys tool req))
        \<or> (\<exists>d. d \<noteq> Denied \<and> calls = [Asked \<lparr>ax_retry_reason = reason, ax_network_approval_reason = None\<rparr> d]))"

lemma approval_phase_calls:
  assumes "approval_phase tool req turn st = (r, st')"
  shows "\<exists>calls. or_calls st' = or_calls st @ calls
    \<and> (case r of
         Inl e \<Rightarrow> (\<exists>msg. e = Rejected msg) \<and> (\<forall>a. Ran a \<notin> set calls)
       | Inr approved \<Rightarrow> consent tool req turn (or_store st) calls
           \<and> (approved \<longleftrightarrow> (\<exists>reason. requirement_of tool req turn = NeedsApproval reason)))"
proof (cases "requirement_of tool req turn")
  case (NeedsApproval reason)
  let ?ctx = "\<lparr>ax_retry_reason = reason, ax_network_approval_reason = None\<rparr>"
  obtain d st1 where d: "decide tool req ?ctx st = (d, st1)" by fastforce
  then have "or_calls st1 = or_calls st @ [Asked ?ctx d]
    \<or> (st1 = st \<and> d = Always \<and> rt_approval_keys tool req \<noteq> []
       \<and> has_cached_always (rt_approval_keys tool req) (or_store st))"
    by (auto simp: decide_def Let_def split: if_splits prod.splits dest!: ask_calls)
  with assms NeedsApproval d show ?thesis
    by (cases d) (auto simp: approval_phase_def consent_def has_cached_always_def)
qed (use assms in \<open>auto simp: approval_phase_def consent_def\<close>)

text \<open>The escalation: either it is refused, or it ends in a run without the sandbox.\<close>

lemma escalate_calls:
  assumes "escalate tool uuid req turn approved output' reason st = (r, st')"
  shows "(\<exists>ctx. or_calls st' = or_calls st @ [Asked ctx Denied] \<and> r = Inl (Rejected ''rejected by user''))
    \<or> (\<exists>asked. or_calls st' = or_calls st @ asked @ [Ran (escalated_attempt turn)]
        \<and> (asked = [] \<and> rt_should_bypass_approval tool (tc_approval_policy turn) approved
           \<or> (\<exists>ctx d. asked = [Asked ctx d] \<and> d \<noteq> Denied)))"
proof -
  let ?bypass = "rt_should_bypass_approval tool (tc_approval_policy turn) approved \<and> reason = None"
  let ?ctx = "\<lparr>ax_retry_reason = Some (case reason of Some n \<Rightarrow> n | None \<Rightarrow> build_denial_reason_from_output output'),
      ax_network_approval_reason = reason\<rparr>"
  obtain d st1 where d: "(if ?bypass then (Approved, st) else ask tool req ?ctx st) = (d, st1)" by fastforce
  obtain r2 st2 where run2: "run_attempt tool uuid req turn (escalated_attempt turn) st1 = (r2, st2)" by fastforce
  have esc: "escalate tool uuid req turn approved output' reason st =
    (if d = Denied then (Inl (Rejected ''rejected by user''), st1)
     else (case (r2, st2) of
         ((Inl err, _), st2) \<Rightarrow> (Inl err, st2)
       | ((Inr out, deferred), st2) \<Rightarrow> (Inr (out, deferred), st2)))"
    unfolding escalate_def Let_def d by (simp add: run2)
  have calls1: "?bypass \<and> st1 = st \<and> d = Approved \<or> or_calls st1 = or_calls st @ [Asked ?ctx d]"
    using d by (auto split: if_splits dest: ask_calls)
  show ?thesis
  proof (cases "d = Denied")
    case True
    with esc assms calls1 show ?thesis by auto
  next
    case False
    with esc assms have "st' = st2" by (auto split: prod.splits sum.splits)
    with run_attempt_calls [OF run2] calls1 False show ?thesis by auto
  qed
qed

text \<open>The calls of a whole run, in the order they are made.\<close>

definition allowed_calls :: "('rq, 'out, 't) tool_runtime \<Rightarrow> 'rq \<Rightarrow> turn_context \<Rightarrow> approval_store \<Rightarrow> call list \<Rightarrow> bool" where
  "allowed_calls tool req turn store calls \<longleftrightarrow>
     (\<forall>a. Ran a \<notin> set calls)
     \<or> (\<exists>before. consent tool req turn store before
         \<and> (calls = before @ [Ran (initial_attempt tool req turn)]
            \<or> (rt_escalate_on_failure tool \<and> (\<exists>asked rest.
                 calls = before @ [Ran (initial_attempt tool req turn)] @ asked @ rest
                 \<and> (rest = [] \<and> (\<exists>ctx. asked = [Asked ctx Denied])
                    \<or> rest = [Ran (escalated_attempt turn)]
                      \<and> (asked = [] \<and> rt_should_bypass_approval tool (tc_approval_policy turn)
                            (\<exists>reason. requirement_of tool req turn = NeedsApproval reason)
                         \<or> (\<exists>ctx d. asked = [Asked ctx d] \<and> d \<noteq> Denied)))))))"

lemma run_calls:
  assumes "run tool uuid req turn st = (r, st')"
  shows "\<exists>calls. or_calls st' = or_calls st @ calls \<and> allowed_calls tool req turn (or_store st) calls"
proof -
  obtain p st1 where p: "approval_phase tool req turn st = (p, st1)" by fastforce
  from approval_phase_calls [OF p] obtain before where before: "or_calls st1 = or_calls st @ before"
    and phase: "case p of
         Inl e \<Rightarrow> (\<exists>msg. e = Rejected msg) \<and> (\<forall>a. Ran a \<notin> set before)
       | Inr approved \<Rightarrow> consent tool req turn (or_store st) before
           \<and> (approved \<longleftrightarrow> (\<exists>reason. requirement_of tool req turn = NeedsApproval reason))" by blast
  show ?thesis
  proof (cases p)
    case (Inl e)
    with assms p have "st' = st1" by (simp add: run_def)
    with before phase Inl show ?thesis by (auto simp: allowed_calls_def)
  next
    case (Inr approved)
    with phase have consent: "consent tool req turn (or_store st) before"
      and approved: "approved \<longleftrightarrow> (\<exists>reason. requirement_of tool req turn = NeedsApproval reason)" by auto
    obtain r1 h st2 where first: "run_attempt tool uuid req turn (initial_attempt tool req turn) st1 = ((r1, h), st2)"
      by (metis prod.exhaust)
    have calls2: "or_calls st2 = or_calls st @ before @ [Ran (initial_attempt tool req turn)]"
      using run_attempt_calls [OF first] before by simp
    have run: "run tool uuid req turn st = (case ((r1, h), st2) of
        ((Inr out, deferred), st2) \<Rightarrow> (Inr (out, deferred), st2)
      | ((Inl (SandboxDenied output' network_policy_reason), _), st2) \<Rightarrow>
          if may_escalate tool turn network_policy_reason
          then escalate tool uuid req turn approved output' network_policy_reason st2
          else (Inl (SandboxDenied output' network_policy_reason), st2)
      | ((Inl err, _), st2) \<Rightarrow> (Inl err, st2))"
      unfolding run_def p Inr prod.case sum.case first ..
    show ?thesis
    proof (cases "st' = st2")
      case True
      with calls2 consent show ?thesis unfolding allowed_calls_def
        by (intro exI [of _ "before @ [Ran (initial_attempt tool req turn)]"]) auto
    next
      case False
      with run assms obtain out reason where esc: "may_escalate tool turn reason"
        "escalate tool uuid req turn approved out reason st2 = (r, st')"
        by (auto split: sum.splits tool_error.splits if_splits)
      have flag: "rt_escalate_on_failure tool" using esc(1) by (simp add: may_escalate_def)
      from escalate_calls [OF esc(2)] obtain asked rest where
        "or_calls st' = or_calls st @ before @ [Ran (initial_attempt tool req turn)] @ asked @ rest"
        and "rest = [] \<and> (\<exists>ctx. asked = [Asked ctx Denied])
          \<or> rest = [Ran (escalated_attempt turn)]
            \<and> (asked = [] \<and> rt_should_bypass_approval tool (tc_approval_policy turn) approved
               \<or> (\<exists>ctx d. asked = [Asked ctx d] \<and> d \<noteq> Denied))"
        unfolding calls2 by (metis append.assoc append.right_neutral)
      with consent flag show ?thesis unfolding allowed_calls_def approved by metis
    qed
  qed
qed

text \<open>C12. The calls that a run makes, in order: if the requirement forbids the tool, or a needed
  approval is denied, the tool never runs; a run that needs approval is preceded by a granted
  prompt or by keys that are all remembered as always approved; a second run only happens for
  a tool that escalates, after the first run, and leaves the sandbox only after a granted
  prompt or when the tool's own rule bypasses it; after a denied prompt nothing runs.\<close>

theorem run_needs_consent:
  assumes "run tool uuid req turn st = (r, st')"
  shows "\<exists>calls. or_calls st' = or_calls st @ calls \<and> allowed_calls tool req turn (or_store st) calls"
  by (rule run_calls [OF assms])

section \<open>Network attempts\<close>

text \<open>A tool may record outcomes in attempts, but only the service adds and removes them.\<close>

definition respects_attempts :: "('rq, 'out, 't) tool_runtime \<Rightarrow> bool" where
  "respects_attempts tool \<longleftrightarrow> (\<forall>req a i t m. set (hm_keys (snd (snd (rt_run tool req a i t m)))) = set (hm_keys m))"

definition fresh_ids :: "(nat \<Rightarrow> string) \<Rightarrow> 't orchestrator \<Rightarrow> bool" where
  "fresh_ids uuid st \<longleftrightarrow> (\<forall>i \<ge> or_drawn st. uuid i \<notin> set (hm_keys (or_attempts st)))"

lemma fresh_ids_mono:
  assumes "fresh_ids uuid st" and "inj uuid" and "or_drawn st' = Suc (or_drawn st)"
    and "set (hm_keys (or_attempts st')) \<subseteq> insert (uuid (or_drawn st)) (set (hm_keys (or_attempts st)))"
  shows "fresh_ids uuid st'"
  unfolding fresh_ids_def
proof (intro allI impI notI)
  fix i assume i: "or_drawn st' \<le> i" and "uuid i \<in> set (hm_keys (or_attempts st'))"
  with assms(4) have "uuid i = uuid (or_drawn st) \<or> uuid i \<in> set (hm_keys (or_attempts st))" by blast
  with assms(1,2,3) i show False by (auto simp: fresh_ids_def inj_eq)
qed

text \<open>With no attempt begun the keys stay; otherwise the fresh one is finished or handed out.\<close>

lemma run_attempt_attempts:
  assumes keep: "respects_attempts tool" and "inj uuid" and fresh: "fresh_ids uuid st"
    and run: "run_attempt tool uuid req turn a st = ((r, deferred), st')"
  shows "set (hm_keys (or_attempts st')) = set (hm_keys (or_attempts st)) \<union> set_option deferred
    \<and> fresh_ids uuid st' \<and> ((\<exists>e. r = Inl e) \<longrightarrow> deferred = None)"
proof -
  let ?i = "uuid (or_drawn st)"
  have new: "?i \<notin> set (hm_keys (or_attempts st))" using fresh by (simp add: fresh_ids_def)
  obtain net m1 where b: "begin_network_approval ?i (tc_managed_network turn)
      (rt_network_approval_spec tool req) (or_attempts st) = (net, m1)" by fastforce
  obtain r1 t m2 where r1: "rt_run tool req a (Option.bind net an_attempt_id) (or_tool st) m1 = (r1, t, m2)"
    by (metis prod.exhaust)
  have m2: "set (hm_keys m2) = set (hm_keys m1)"
    using keep r1 unfolding respects_attempts_def by (metis snd_conv)
  show ?thesis
  proof (cases net)
    case None
    with b have "m1 = or_attempts st" by (auto simp: begin_network_approval_def split: option.splits if_splits)
    with m2 have same: "set (hm_keys m2) = set (hm_keys (or_attempts st))" by simp
    have "or_attempts st' = m2 \<and> or_drawn st' = or_drawn st \<and> deferred = None"
      using run b r1 None by (auto simp: run_attempt_def)
    then show ?thesis using same fresh by (simp add: fresh_ids_def del: set_map)
  next
    case (Some active)
    with b have m1: "m1 = register_attempt ?i (or_attempts st)" and act: "an_attempt_id active = Some ?i"
      by (auto simp: begin_network_approval_def split: option.splits if_splits)
    have k2: "set (hm_keys m2) = insert ?i (set (hm_keys (or_attempts st)))"
      unfolding m2 m1 keys_register ..
    have drawn: "or_drawn st' = Suc (or_drawn st)"
      using run b r1 Some by (auto simp: run_attempt_def Let_def split: network_approval_mode.splits prod.splits sum.splits)
    have res: "set (hm_keys (or_attempts st')) = set (hm_keys (or_attempts st)) \<union> set_option deferred
      \<and> set_option deferred \<subseteq> {?i} \<and> ((\<exists>e. r = Inl e) \<longrightarrow> deferred = None)"
    proof (cases "an_mode active")
      case Immediate
      obtain f m3 where f: "finish_immediate_network_approval active m2 = (f, m3)" by fastforce
      have "set (hm_keys m3) = set (hm_keys m2) - {?i}"
        using keys_finish_immediate [OF act, of m2] unfolding f by simp
      then have "set (hm_keys m3) = set (hm_keys (or_attempts st))" using k2 new by auto
      moreover have "or_attempts st' = m3 \<and> deferred = None"
        using run b r1 Some Immediate f by (auto simp: run_attempt_def Let_def split: sum.splits)
      ultimately show ?thesis by simp
    next
      case Deferred
      have d: "into_deferred active = Some ?i" using act Deferred by (simp add: into_deferred_def)
      show ?thesis
      proof (cases r1)
        case (Inl e)
        have "set (hm_keys (unregister_attempt ?i m2)) = set (hm_keys (or_attempts st))"
          unfolding keys_unregister k2 using new by auto
        moreover have "or_attempts st' = unregister_attempt ?i m2 \<and> deferred = None"
          using run b r1 Some Deferred d Inl
          by (auto simp: run_attempt_def Let_def finish_deferred_network_approval_def)
        ultimately show ?thesis by simp
      next
        case (Inr out)
        then have "or_attempts st' = m2 \<and> deferred = Some ?i \<and> r = Inr out"
          using run b r1 Some Deferred d by (auto simp: run_attempt_def Let_def)
        then show ?thesis using k2 by simp
      qed
    qed
    then have "fresh_ids uuid st'" by (intro fresh_ids_mono [OF fresh assms(2) drawn]) auto
    with res show ?thesis by blast
  qed
qed

lemma fresh_ids_cong:
  "or_attempts st' = or_attempts st \<Longrightarrow> or_drawn st' = or_drawn st \<Longrightarrow> fresh_ids uuid st' = fresh_ids uuid st"
  by (simp add: fresh_ids_def)

lemma approval_phase_frame:
  assumes "approval_phase tool req turn st = (r, st')"
  shows "or_attempts st' = or_attempts st \<and> or_drawn st' = or_drawn st"
  using assms
  by (auto simp: approval_phase_def decide_def Let_def
      split: exec_approval_requirement.splits review_decision.splits prod.splits if_splits dest!: ask_calls)

definition handle_of :: "(tool_error + 'out \<times> string option) \<Rightarrow> string set" where
  "handle_of r = (case r of Inr (out, Some attempt_id) \<Rightarrow> {attempt_id} | _ \<Rightarrow> {})"

lemma escalate_attempts:
  assumes "respects_attempts tool" and "inj uuid" and fresh: "fresh_ids uuid st"
    and esc: "escalate tool uuid req turn approved output' reason st = (r, st')"
  shows "set (hm_keys (or_attempts st')) = set (hm_keys (or_attempts st)) \<union> handle_of r"
proof -
  let ?bypass = "rt_should_bypass_approval tool (tc_approval_policy turn) approved \<and> reason = None"
  let ?ctx = "\<lparr>ax_retry_reason = Some (case reason of Some n \<Rightarrow> n | None \<Rightarrow> build_denial_reason_from_output output'),
      ax_network_approval_reason = reason\<rparr>"
  obtain d st1 where d: "(if ?bypass then (Approved, st) else ask tool req ?ctx st) = (d, st1)" by fastforce
  then have same: "or_attempts st1 = or_attempts st" "or_drawn st1 = or_drawn st"
    by (auto split: if_splits dest: ask_calls)
  obtain r2 h st2 where run2: "run_attempt tool uuid req turn (escalated_attempt turn) st1 = ((r2, h), st2)"
    by (metis prod.exhaust)
  from run_attempt_attempts [OF assms(1,2) _ run2] fresh_ids_cong [OF same] fresh
  have "set (hm_keys (or_attempts st2)) = set (hm_keys (or_attempts st)) \<union> set_option h"
    and "(\<exists>e. r2 = Inl e) \<longrightarrow> h = None" unfolding same by blast+
  moreover have "d = Denied \<and> r = Inl (Rejected ''rejected by user'') \<and> st' = st1
      \<or> st' = st2 \<and> r = (case r2 of Inl e \<Rightarrow> Inl e | Inr out \<Rightarrow> Inr (out, h))"
    using esc unfolding escalate_def Let_def d by (auto simp: run2 split: if_splits sum.splits)
  ultimately show ?thesis using same by (auto simp: handle_of_def split: sum.splits option.splits)
qed

text \<open>C13. A run leaves no network attempt behind: for every tool that does not add or remove
  attempts itself, the registered attempts after a run, whether it succeeded, was rejected,
  denied or failed, are those before it and the one whose handle the result carries.\<close>

theorem run_leaves_no_attempt:
  assumes "respects_attempts tool" and "inj uuid" and "fresh_ids uuid st"
    and "run tool uuid req turn st = (r, st')"
  shows "set (hm_keys (or_attempts st')) = set (hm_keys (or_attempts st)) \<union> handle_of r"
proof -
  obtain p st1 where p: "approval_phase tool req turn st = (p, st1)" by fastforce
  note same = approval_phase_frame [OF p]
  show ?thesis
  proof (cases p)
    case (Inl e)
    with assms(4) p same show ?thesis by (auto simp: run_def handle_of_def)
  next
    case (Inr approved)
    obtain r1 h st2 where first: "run_attempt tool uuid req turn (initial_attempt tool req turn) st1 = ((r1, h), st2)"
      by (metis prod.exhaust)
    from run_attempt_attempts [OF assms(1,2) _ first] fresh_ids_cong [of st1 st] same assms(3)
    have a2: "set (hm_keys (or_attempts st2)) = set (hm_keys (or_attempts st)) \<union> set_option h"
      and fresh2: "fresh_ids uuid st2" and none: "(\<exists>e. r1 = Inl e) \<longrightarrow> h = None" by auto
    from assms(4) have "st' = st2 \<and> r = (case r1 of Inl e \<Rightarrow> Inl e | Inr out \<Rightarrow> Inr (out, h))
      \<or> (\<exists>out reason. r1 = Inl (SandboxDenied out reason)
          \<and> escalate tool uuid req turn approved out reason st2 = (r, st'))"
      unfolding run_def p Inr prod.case sum.case first
      by (auto split: sum.splits tool_error.splits if_splits)
    then show ?thesis
    proof
      assume "st' = st2 \<and> r = (case r1 of Inl e \<Rightarrow> Inl e | Inr out \<Rightarrow> Inr (out, h))"
      with a2 none show ?thesis by (auto simp: handle_of_def split: sum.splits option.splits)
    next
      assume "\<exists>out reason. r1 = Inl (SandboxDenied out reason)
          \<and> escalate tool uuid req turn approved out reason st2 = (r, st')"
      then obtain out reason where "r1 = Inl (SandboxDenied out reason)"
        "escalate tool uuid req turn approved out reason st2 = (r, st')" by blast
      with escalate_attempts [OF assms(1,2) fresh2] a2 none show ?thesis by auto
    qed
  qed
qed

section \<open>The properties at work\<close>

text \<open>A tool that is denied by the sandbox in its first attempt and succeeds outside of it; the
  user answers every prompt with \<open>Approved\<close>.\<close>

definition mock_tool :: "(unit, string, nat) tool_runtime" where
  "mock_tool = \<lparr>rt_approval_keys = (\<lambda>_. [Some ''mock-key'']), rt_sandbox_mode = (\<lambda>_. NoOverride),
     rt_should_bypass_approval = default_should_bypass_approval,
     rt_exec_approval_requirement = (\<lambda>_. Some (Skip False)),
     rt_wants_no_sandbox_approval = default_wants_no_sandbox_approval,
     rt_sandbox_preference = Auto, rt_escalate_on_failure = True,
     rt_network_approval_spec = (\<lambda>_. Some Deferred),
     rt_start_approval = (\<lambda>_ _ t. (Approved, t)),
     rt_run = (\<lambda>_ a i t m. (if t = 0 then Inl (SandboxDenied ''denied'' None) else Inr ''ok'', Suc t, m))\<rparr>"

definition mock_turn :: turn_context where
  "mock_turn = \<lparr>tc_approval_policy = UnlessTrusted, tc_sandbox_policy = ReadOnly FullAccess, tc_managed_network = True\<rparr>"

definition mock_start :: "nat orchestrator" where
  "mock_start = \<lparr>or_tool = 0, or_store = [], or_attempts = [], or_drawn = 0, or_calls = []\<rparr>"

abbreviation mock_ids :: "nat \<Rightarrow> string" where
  "mock_ids i \<equiv> replicate i (CHR ''x'')"

lemma mock_run:
  "run mock_tool mock_ids () mock_turn mock_start =
     (Inr (''ok'', Some ''x''),
      \<lparr>or_tool = 2, or_store = [], or_attempts = [(''x'', None)], or_drawn = 2,
       or_calls = [Ran (initial_attempt mock_tool () mock_turn),
         Asked \<lparr>ax_retry_reason = Some ''command failed; retry without sandbox?'',
           ax_network_approval_reason = None\<rparr> Approved,
         Ran (escalated_attempt mock_turn)]\<rparr>)"
  by code_simp

theorem run_needs_consent_witness:
  "allowed_calls mock_tool () mock_turn [] [Ran (initial_attempt mock_tool () mock_turn),
     Asked \<lparr>ax_retry_reason = Some ''command failed; retry without sandbox?'',
       ax_network_approval_reason = None\<rparr> Approved, Ran (escalated_attempt mock_turn)]"
  using run_needs_consent [OF mock_run] by (simp add: mock_start_def)

theorem run_leaves_no_attempt_witness:
  "set (hm_keys (or_attempts (snd (run mock_tool mock_ids () mock_turn mock_start)))) = {''x''}"
proof -
  have "respects_attempts mock_tool" by (simp add: respects_attempts_def mock_tool_def)
  moreover have "inj mock_ids" by (auto simp: inj_def dest: arg_cong [where f = length])
  moreover have "fresh_ids mock_ids mock_start" by (simp add: fresh_ids_def mock_start_def)
  ultimately show ?thesis
    using run_leaves_no_attempt [OF _ _ _ mock_run] unfolding mock_run by (simp add: handle_of_def mock_start_def)
qed

end
