(* ===== verification/PendingApprovals.thy ===== *)
theory PendingApprovals
  imports ToolPolicy
begin

text \<open>
  Prompts that wait for the user (\<open>core/src/session/approvals.rs\<close>, its twin
  \<open>core/src/session/user_input.rs\<close>, and the calls of \<open>core/src/session/mod.rs\<close> around them). The
  registry keeps the sender of each waiting prompt by its identifier, and the identifiers by
  turn. A sender is a value of any type here; in the session it is a channel number.
\<close>

section \<open>The registry\<close>

record 'tx pending_approvals_state =
  pa_by_id :: "(string, 'tx) hashmap"
  pa_ids_by_turn :: "(string, string list) hashmap"

definition no_pending :: "'tx pending_approvals_state" where
  "no_pending = \<lparr>pa_by_id = [], pa_ids_by_turn = []\<rparr>"

definition drop_id :: "string \<Rightarrow> (string, string list) hashmap \<Rightarrow> (string, string list) hashmap" where
  "drop_id approval_id m = hm_map (\<lambda>_. filter (\<lambda>i. i \<noteq> approval_id)) m"

definition pending_insert :: "string \<Rightarrow> string \<Rightarrow> 'tx \<Rightarrow> 'tx pending_approvals_state
    \<Rightarrow> 'tx option \<times> 'tx pending_approvals_state" where
  "pending_insert approval_id turn_id tx st =
     (let previous = hm_get (pa_by_id st) approval_id;
          turns = (if previous \<noteq> None then drop_id approval_id (pa_ids_by_turn st) else pa_ids_by_turn st)
      in (previous, \<lparr>pa_by_id = hm_insert approval_id tx (pa_by_id st),
            pa_ids_by_turn = hm_push turn_id approval_id turns\<rparr>))"

definition pending_remove :: "string \<Rightarrow> 'tx pending_approvals_state \<Rightarrow> 'tx option \<times> 'tx pending_approvals_state" where
  "pending_remove approval_id st =
     (case hm_get (pa_by_id st) approval_id of
        None \<Rightarrow> (None, st)
      | Some tx \<Rightarrow>
          (let turns = drop_id approval_id (pa_ids_by_turn st);
               empty_turns = map fst (filter (\<lambda>(turn_id, ids). ids = []) turns)
           in (Some tx, \<lparr>pa_by_id = hm_remove approval_id (pa_by_id st),
                 pa_ids_by_turn = foldl (\<lambda>m turn_id. hm_remove turn_id m) turns empty_turns\<rparr>)))"

fun remove_ids :: "string list \<Rightarrow> (string, 'tx) hashmap \<Rightarrow> 'tx list \<times> (string, 'tx) hashmap" where
  "remove_ids [] m = ([], m)"
| "remove_ids (i # ids) m = (case remove_ids ids (hm_remove i m) of (removed, m') \<Rightarrow>
     (case hm_get m i of Some tx \<Rightarrow> (tx # removed, m') | None \<Rightarrow> (removed, m')))"

definition pending_clear_turn :: "string \<Rightarrow> 'tx pending_approvals_state \<Rightarrow> 'tx list \<times> 'tx pending_approvals_state" where
  "pending_clear_turn turn_id st =
     (case hm_get (pa_ids_by_turn st) turn_id of
        None \<Rightarrow> ([], st)
      | Some ids \<Rightarrow>
          (case remove_ids ids (pa_by_id st) of (removed, by_id) \<Rightarrow>
             (removed, \<lparr>pa_by_id = by_id, pa_ids_by_turn = hm_remove turn_id (pa_ids_by_turn st)\<rparr>)))"

text \<open>\<open>PendingUserInputs\<close> has the same three operations.\<close>

definition inputs_insert :: "string \<Rightarrow> string \<Rightarrow> 'tx \<Rightarrow> 'tx pending_approvals_state
    \<Rightarrow> 'tx option \<times> 'tx pending_approvals_state" where
  "inputs_insert request_id turn_id tx st = pending_insert request_id turn_id tx st"

definition inputs_remove :: "string \<Rightarrow> 'tx pending_approvals_state \<Rightarrow> 'tx option \<times> 'tx pending_approvals_state" where
  "inputs_remove request_id st = pending_remove request_id st"

definition inputs_clear_turn :: "string \<Rightarrow> 'tx pending_approvals_state \<Rightarrow> 'tx list \<times> 'tx pending_approvals_state" where
  "inputs_clear_turn turn_id st = pending_clear_turn turn_id st"

section \<open>The contract\<close>

text \<open>What a registry of prompts promises: it implements a map from identifiers to the turn and
  the sender of the prompt.\<close>

type_synonym 'tx prompts = "string \<Rightarrow> (string \<times> 'tx) option"

definition prompts_of_turn :: "'tx prompts \<Rightarrow> string \<Rightarrow> string set" where
  "prompts_of_turn A turn = {i. \<exists>tx. A i = Some (turn, tx)}"

definition without_turn :: "string \<Rightarrow> 'tx prompts \<Rightarrow> 'tx prompts" where
  "without_turn turn A = (\<lambda>i. case A i of Some (t, tx) \<Rightarrow> if t = turn then None else A i | None \<Rightarrow> None)"

lemma without_turn_Some: "without_turn turn A i = Some (t, tx) \<longleftrightarrow> A i = Some (t, tx) \<and> t \<noteq> turn"
  by (auto simp: without_turn_def split: option.splits prod.splits if_splits)

locale prompt_registry =
  fixes none :: 'st
    and ins :: "string \<Rightarrow> string \<Rightarrow> 'tx \<Rightarrow> 'st \<Rightarrow> 'tx option \<times> 'st"
    and rem :: "string \<Rightarrow> 'st \<Rightarrow> 'tx option \<times> 'st"
    and clr :: "string \<Rightarrow> 'st \<Rightarrow> 'tx list \<times> 'st"
    and rep :: "'st \<Rightarrow> 'tx prompts \<Rightarrow> bool"
  assumes rep_none: "rep none Map.empty"
    and rep_ins: "rep st A \<Longrightarrow> ins i turn tx st = (r, st') \<Longrightarrow> r = map_option snd (A i) \<and> rep st' (A(i \<mapsto> (turn, tx)))"
    and rep_rem: "rep st A \<Longrightarrow> rem i st = (r, st') \<Longrightarrow> r = map_option snd (A i) \<and> rep st' (A(i := None))"
    and rep_clr: "rep st A \<Longrightarrow> clr turn st = (txs, st') \<Longrightarrow>
      rep st' (without_turn turn A) \<and> (\<exists>ids. distinct ids \<and> set ids = prompts_of_turn A turn
        \<and> txs = map (\<lambda>i. snd (the (A i))) ids)"
begin

text \<open>The senders that the registry holds are those of the map.\<close>

definition held :: "'tx prompts \<Rightarrow> 'tx set" where
  "held A = {tx. \<exists>i turn. A i = Some (turn, tx)}"

lemma clr_held:
  assumes "rep st A" and "clr turn st = (txs, st')"
  shows "set txs \<union> held (without_turn turn A) = held A"
proof -
  from rep_clr [OF assms] have "set txs = {tx. \<exists>i. A i = Some (turn, tx)}"
    by (force simp: prompts_of_turn_def)
  then show ?thesis by (auto simp: held_def without_turn_Some)
qed

end

section \<open>The registry keeps the contract\<close>

definition ids_of :: "'tx pending_approvals_state \<Rightarrow> string \<Rightarrow> string list" where
  "ids_of st turn = (case hm_get (pa_ids_by_turn st) turn of None \<Rightarrow> [] | Some ids \<Rightarrow> ids)"

definition registry_rep :: "'tx pending_approvals_state \<Rightarrow> 'tx prompts \<Rightarrow> bool" where
  "registry_rep st A \<longleftrightarrow> hm_wf (pa_ids_by_turn st)
     \<and> (\<forall>i. hm_get (pa_by_id st) i = map_option snd (A i))
     \<and> (\<forall>turn. distinct (ids_of st turn) \<and> set (ids_of st turn) = prompts_of_turn A turn)"

lemma get_drop_id: "hm_get (drop_id i m) turn = map_option (filter (\<lambda>j. j \<noteq> i)) (hm_get m turn)"
  by (simp add: drop_id_def get_hm_map)

lemma wf_hm_push: "hm_wf m \<Longrightarrow> hm_wf (hm_push k v m)"
  by (auto simp: hm_push_def split: option.split intro: hm_wf_insert)

lemma rep_insert:
  assumes rep: "registry_rep st A" and ins: "pending_insert i turn tx st = (r, st')"
  shows "r = map_option snd (A i) \<and> registry_rep st' (A(i \<mapsto> (turn, tx)))"
proof -
  let ?ts = "if A i \<noteq> None then drop_id i (pa_ids_by_turn st) else pa_ids_by_turn st"
  have r: "r = map_option snd (A i)" and st': "st' = \<lparr>pa_by_id = hm_insert i tx (pa_by_id st),
      pa_ids_by_turn = hm_push turn i ?ts\<rparr>"
    using assms by (auto simp: registry_rep_def pending_insert_def Let_def)
  have old: "filter (\<lambda>j. j \<noteq> i) (ids_of st t) = ids_of st t" if "A i = None" for t
    using rep that by (subst filter_id_conv) (auto simp: registry_rep_def prompts_of_turn_def)
  have ids: "ids_of st' t = (if t = turn then filter (\<lambda>j. j \<noteq> i) (ids_of st t) @ [i]
      else filter (\<lambda>j. j \<noteq> i) (ids_of st t))" for t
  proof (cases "A i = None")
    case True
    then show ?thesis using old [OF True, of t]
      by (auto simp: st' ids_of_def get_hm_push split: option.splits)
  next
    case False
    then show ?thesis by (auto simp: st' ids_of_def get_hm_push get_drop_id split: option.splits)
  qed
  have wf: "hm_wf (pa_ids_by_turn st')"
    using rep by (simp add: st' registry_rep_def drop_id_def wf_hm_push)
  have by_id: "pa_by_id st' = hm_insert i tx (pa_by_id st)" by (simp add: st')
  show ?thesis
    using r rep wf unfolding registry_rep_def
    by (auto simp: ids get_hm_insert by_id prompts_of_turn_def)
qed

lemma wf_removes: "hm_wf m \<Longrightarrow> hm_wf (foldl (\<lambda>m k. hm_remove k m) m ks)"
  by (induction ks arbitrary: m) (auto intro: hm_wf_remove)

lemma rep_remove:
  assumes rep: "registry_rep st A" and rem: "pending_remove i st = (r, st')"
  shows "r = map_option snd (A i) \<and> registry_rep st' (A(i := None))"
proof (cases "A i")
  case None
  with assms show ?thesis by (auto simp: pending_remove_def registry_rep_def fun_upd_idem)
next
  case (Some p)
  let ?ts = "drop_id i (pa_ids_by_turn st)"
  let ?empty = "map fst (filter (\<lambda>(turn_id, ids). ids = []) ?ts)"
  have wf: "hm_wf ?ts" using rep by (simp add: registry_rep_def drop_id_def)
  have r: "r = Some (snd p)" and st': "st' = \<lparr>pa_by_id = hm_remove i (pa_by_id st),
      pa_ids_by_turn = hm.del_all ?empty ?ts\<rparr>"
    using assms Some by (auto simp: registry_rep_def pending_remove_def hm.del_all_def Let_def)
  have "hm_get ?ts t = Some []" if "t \<in> set ?empty" for t
    using that in_set_getD [OF wf, of t "[]"] by auto
  then have ids: "ids_of st' t = filter (\<lambda>j. j \<noteq> i) (ids_of st t)" for t
    by (force simp: st' ids_of_def hm.get_del_all get_drop_id split: option.splits)
  have "hm_wf (pa_ids_by_turn st')"
    using wf by (simp add: st' hm.del_all_def wf_removes)
  moreover have by_id: "pa_by_id st' = hm_remove i (pa_by_id st)" by (simp add: st')
  ultimately show ?thesis
    using r rep Some unfolding registry_rep_def
    by (auto simp: ids get_hm_remove by_id prompts_of_turn_def)
qed

lemma remove_ids_get: "hm_get (snd (remove_ids ids m)) j = (if j \<in> set ids then None else hm_get m j)"
  by (induction ids arbitrary: m) (auto simp: get_hm_remove case_prod_beta split: option.splits)

lemma remove_ids_all:
  "distinct ids \<Longrightarrow> \<forall>i \<in> set ids. hm_get m i = Some (f i) \<Longrightarrow> fst (remove_ids ids m) = map f ids"
proof (induction ids arbitrary: m)
  case (Cons i ids)
  then have "fst (remove_ids ids (hm_remove i m)) = map f ids"
    by (intro Cons.IH) (auto simp: get_hm_remove)
  with Cons show ?case by (auto split: prod.splits)
qed simp

lemma rep_clear:
  assumes rep: "registry_rep st A" and clr: "pending_clear_turn turn st = (txs, st')"
  shows "registry_rep st' (without_turn turn A) \<and> (\<exists>ids. distinct ids \<and> set ids = prompts_of_turn A turn
    \<and> txs = map (\<lambda>i. snd (the (A i))) ids)"
proof (cases "hm_get (pa_ids_by_turn st) turn")
  case None
  then have "ids_of st turn = []" by (simp add: ids_of_def)
  moreover have "set (ids_of st turn) = prompts_of_turn A turn" using rep by (simp add: registry_rep_def)
  ultimately have "prompts_of_turn A turn = {}" by simp
  then have "without_turn turn A = A"
    by (intro ext) (auto simp: without_turn_def prompts_of_turn_def split: option.splits)
  with assms None \<open>prompts_of_turn A turn = {}\<close> show ?thesis by (simp add: pending_clear_turn_def)
next
  case (Some ids)
  then have ids: "ids_of st turn = ids" by (simp add: ids_of_def)
  then have dist: "distinct ids" and set: "set ids = prompts_of_turn A turn"
    using rep by (auto simp: registry_rep_def)
  have get: "hm_get (pa_by_id st) i = Some (snd (the (A i)))" if "i \<in> set ids" for i
    using rep that unfolding set by (auto simp: registry_rep_def prompts_of_turn_def)
  have txs: "txs = map (\<lambda>i. snd (the (A i))) ids"
    and st': "st' = \<lparr>pa_by_id = snd (remove_ids ids (pa_by_id st)),
      pa_ids_by_turn = hm_remove turn (pa_ids_by_turn st)\<rparr>"
    using clr Some remove_ids_all [OF dist, of "pa_by_id st" "\<lambda>i. snd (the (A i))"] get
    by (auto simp: pending_clear_turn_def split: prod.splits)
  have "ids_of st' t = (if t = turn then [] else ids_of st t)" for t
    by (simp add: st' ids_of_def get_hm_remove)
  moreover have "prompts_of_turn (without_turn turn A) t = (if t = turn then {} else prompts_of_turn A t)" for t
    by (auto simp: prompts_of_turn_def without_turn_Some)
  moreover have "hm_get (pa_by_id st') i = map_option snd (without_turn turn A i)" for i
  proof (cases "i \<in> set ids")
    case True
    then show ?thesis by (auto simp: st' remove_ids_get set prompts_of_turn_def without_turn_def)
  next
    case False
    then have "without_turn turn A i = A i"
      by (auto simp: set prompts_of_turn_def without_turn_def split: option.splits)
    then show ?thesis using rep False by (simp add: st' remove_ids_get registry_rep_def)
  qed
  moreover have "hm_wf (pa_ids_by_turn st')" using rep by (auto simp: st' registry_rep_def)
  ultimately have "registry_rep st' (without_turn turn A)"
    using rep by (simp add: registry_rep_def)
  then show ?thesis using dist set txs by blast
qed

lemma rep_no_pending: "registry_rep no_pending Map.empty"
  by (simp add: registry_rep_def no_pending_def ids_of_def prompts_of_turn_def)

interpretation prompts: prompt_registry no_pending pending_insert pending_remove pending_clear_turn registry_rep
  by unfold_locales (rule rep_no_pending rep_insert rep_remove rep_clear; assumption)+

interpretation inputs: prompt_registry no_pending inputs_insert inputs_remove inputs_clear_turn registry_rep
  by unfold_locales
    (unfold inputs_insert_def inputs_remove_def inputs_clear_turn_def,
     (rule rep_no_pending rep_insert rep_remove rep_clear; assumption)+)

text \<open>The registry of waiting prompts, two maps that every operation updates together,
  implements one map from identifiers to the turn and the sender of the prompt: inserting
  overwrites and returns the sender that was there, removing returns and forgets one, clearing
  a turn returns the senders of exactly its prompts, each once, and keeps the others.\<close>

theorem pending_refines_map:
  assumes "registry_rep st A"
  shows "fst (pending_insert i turn tx st) = map_option snd (A i)
    \<and> registry_rep (snd (pending_insert i turn tx st)) (A(i \<mapsto> (turn, tx)))
    \<and> fst (pending_remove i st) = map_option snd (A i)
    \<and> registry_rep (snd (pending_remove i st)) (A(i := None))
    \<and> registry_rep (snd (pending_clear_turn turn st)) (without_turn turn A)
    \<and> (\<exists>ids. distinct ids \<and> set ids = prompts_of_turn A turn
        \<and> fst (pending_clear_turn turn st) = map (\<lambda>i. snd (the (A i))) ids)"
  using prompts.rep_ins [OF assms, of i turn tx] prompts.rep_rem [OF assms, of i]
    prompts.rep_clr [OF assms, of turn]
  by (metis prod.collapse)

theorem pending_refines_map_witness:
  "registry_rep (snd (pending_insert ''a'' ''t'' (1 :: nat) no_pending)) (Map.empty(''a'' \<mapsto> (''t'', 1)))"
  using pending_refines_map [OF rep_no_pending, of "''a''" "''t''" "1 :: nat"] by (elim conjE)

section \<open>The session's prompts\<close>

text \<open>
  \<open>Session\<close> opens a channel per request. \<open>ss_answers c\<close> is what has been sent on channel \<open>c\<close>,
  the later first; \<open>ss_next\<close> is the next channel. The request is a step of its own (inserting
  and denying the prompt it overwrites happen before it waits), as are the two answers.
\<close>

record session_prompts =
  ss_pending :: "nat pending_approvals_state"
  ss_answers :: "nat \<Rightarrow> review_decision list"
  ss_next :: nat

definition send :: "nat \<Rightarrow> review_decision \<Rightarrow> session_prompts \<Rightarrow> session_prompts" where
  "send c d s = s\<lparr>ss_answers := (ss_answers s)(c := d # ss_answers s c)\<rparr>"

definition request_exec_approval :: "string \<Rightarrow> string \<Rightarrow> session_prompts \<Rightarrow> session_prompts" where
  "request_exec_approval approval_id turn_id s =
     (case pending_insert approval_id turn_id (ss_next s) (ss_pending s) of (previous, pending) \<Rightarrow>
        (let s1 = s\<lparr>ss_pending := pending, ss_next := Suc (ss_next s)\<rparr>
         in case previous of None \<Rightarrow> s1 | Some c \<Rightarrow> send c Denied s1))"

definition notify_exec_approval :: "string \<Rightarrow> review_decision \<Rightarrow> session_prompts \<Rightarrow> bool \<times> session_prompts" where
  "notify_exec_approval approval_id decision s =
     (case pending_remove approval_id (ss_pending s) of
        (None, pending) \<Rightarrow> (False, s\<lparr>ss_pending := pending\<rparr>)
      | (Some c, pending) \<Rightarrow> (True, send c decision (s\<lparr>ss_pending := pending\<rparr>)))"

definition clear_pending_approvals_for_turn :: "string \<Rightarrow> session_prompts \<Rightarrow> nat \<times> session_prompts" where
  "clear_pending_approvals_for_turn turn_id s =
     (case pending_clear_turn turn_id (ss_pending s) of (pending_txs, pending) \<Rightarrow>
        (length pending_txs, foldl (\<lambda>s c. send c Denied s) (s\<lparr>ss_pending := pending\<rparr>) pending_txs))"

inductive session_step :: "session_prompts \<Rightarrow> session_prompts \<Rightarrow> bool" where
  step_request: "session_step s (request_exec_approval i turn s)"
| step_notify: "session_step s (snd (notify_exec_approval i d s))"
| step_clear_turn: "session_step s (snd (clear_pending_approvals_for_turn turn s))"

definition fresh_session :: session_prompts where
  "fresh_session = \<lparr>ss_pending = no_pending, ss_answers = (\<lambda>_. []), ss_next = 0\<rparr>"

text \<open>Every channel that was opened is either held by exactly one waiting prompt and has no
  answer, or has exactly one answer.\<close>

definition holds :: "nat prompts \<Rightarrow> string \<Rightarrow> nat \<Rightarrow> bool" where
  "holds A i c \<longleftrightarrow> (\<exists>t. A i = Some (t, c))"

lemma holds_simps:
  "holds (A(i \<mapsto> (t, n))) j c \<longleftrightarrow> (if j = i then c = n else holds A j c)"
  "holds (A(i := None)) j c \<longleftrightarrow> j \<noteq> i \<and> holds A j c"
  "holds (without_turn turn A) j c \<longleftrightarrow> holds A j c \<and> A j \<noteq> Some (turn, c)"
  by (auto simp: holds_def without_turn_Some)

definition channels_ok :: "nat prompts \<Rightarrow> nat \<Rightarrow> (nat \<Rightarrow> review_decision list) \<Rightarrow> bool" where
  "channels_ok A next_channel answers \<longleftrightarrow>
     (\<forall>c i j. holds A i c \<longrightarrow> holds A j c \<longrightarrow> i = j)
     \<and> (\<forall>c i. holds A i c \<longrightarrow> c < next_channel \<and> answers c = [])
     \<and> (\<forall>c < next_channel. (\<forall>i. \<not> holds A i c) \<longrightarrow> length (answers c) = 1)
     \<and> (\<forall>c \<ge> next_channel. answers c = [])"

definition session_inv :: "session_prompts \<Rightarrow> bool" where
  "session_inv s \<longleftrightarrow> (\<exists>A. registry_rep (ss_pending s) A \<and> channels_ok A (ss_next s) (ss_answers s))"

lemma channels_okD:
  assumes "channels_ok A n answers"
  shows "holds A i c \<Longrightarrow> holds A j c \<Longrightarrow> i = j" and "holds A i c \<Longrightarrow> c < n" and "holds A i c \<Longrightarrow> answers c = []"
    and "c < n \<Longrightarrow> (\<And>i. \<not> holds A i c) \<Longrightarrow> length (answers c) = 1" and "n \<le> c \<Longrightarrow> answers c = []"
  using assms by (auto simp: channels_ok_def)

lemma channels_okI:
  assumes "\<And>c i j. holds A i c \<Longrightarrow> holds A j c \<Longrightarrow> i = j" and "\<And>c i. holds A i c \<Longrightarrow> c < n \<and> answers c = []"
    and "\<And>c. c < n \<Longrightarrow> (\<And>i. \<not> holds A i c) \<Longrightarrow> length (answers c) = 1" and "\<And>c. n \<le> c \<Longrightarrow> answers c = []"
  shows "channels_ok A n answers"
  using assms by (simp add: channels_ok_def)

lemma channels_answer:
  assumes ok: "channels_ok A n answers" and h: "holds A i c"
  shows "channels_ok (A(i := None)) n (answers(c := d # answers c))"
proof (rule channels_okI, unfold holds_simps)
  fix x j k assume "j \<noteq> i \<and> holds A j x" "k \<noteq> i \<and> holds A k x"
  then show "j = k" using channels_okD(1) [OF ok, of j x k] by blast
next
  fix x j assume j: "j \<noteq> i \<and> holds A j x"
  then have "x \<noteq> c" using channels_okD(1) [OF ok _ h, of j] by blast
  with j show "x < n \<and> (answers(c := d # answers c)) x = []"
    using channels_okD(2,3) [OF ok, of j x] by simp
next
  fix x assume "x < n" and none: "\<And>j. \<not> (j \<noteq> i \<and> holds A j x)"
  show "length ((answers(c := d # answers c)) x) = 1"
  proof (cases "x = c")
    case True
    then show ?thesis using channels_okD(3) [OF ok h] by simp
  next
    case False
    then have "\<not> holds A i x" using h by (auto simp: holds_def)
    then have "\<not> holds A j x" for j using none [of j] by (cases "j = i") auto
    then show ?thesis using channels_okD(4) [OF ok \<open>x < n\<close>] False by simp
  qed
next
  fix x assume "n \<le> x"
  then show "(answers(c := d # answers c)) x = []"
    using channels_okD(2) [OF ok h] channels_okD(5) [OF ok, of x] by auto
qed

lemma channels_open:
  assumes ok: "channels_ok A n answers" and "A i = None"
  shows "channels_ok (A(i \<mapsto> (turn, n))) (Suc n) answers"
proof (rule channels_okI, unfold holds_simps)
  have new: "\<not> holds A j n" for j using channels_okD(2) [OF ok, of j n] by auto
  show "j = k" if "if j = i then x = n else holds A j x" "if k = i then x = n else holds A k x" for x j k
    using that new [of j] new [of k] channels_okD(1) [OF ok, of j x k] by (auto split: if_splits)
  show "x < Suc n \<and> answers x = []" if "if j = i then x = n else holds A j x" for x j
    using that channels_okD(2,3) [OF ok, of j x] channels_okD(5) [OF ok, of n] by (auto split: if_splits)
  show "answers x = []" if "Suc n \<le> x" for x using channels_okD(5) [OF ok, of x] that by simp
  show "length (answers x) = 1" if "x < Suc n" and none: "\<And>j. \<not> (if j = i then x = n else holds A j x)" for x
  proof -
    have "x \<noteq> n" using none [of i] by simp
    moreover have "\<not> holds A j x" for j using none [of j] assms(2) by (auto simp: holds_def split: if_splits)
    ultimately show ?thesis using channels_okD(4) [OF ok, of x] that(1) by simp
  qed
qed

lemma channels_clear:
  assumes ok: "channels_ok A n answers"
  shows "channels_ok (without_turn turn A) n
     (\<lambda>c. if \<exists>i. A i = Some (turn, c) then d # answers c else answers c)"
proof (rule channels_okI, unfold holds_simps)
  have turn: "holds A i x" if "A i = Some (turn, x)" for i x using that by (simp add: holds_def)
  show "j = k" if "holds A j x \<and> A j \<noteq> Some (turn, x)" "holds A k x \<and> A k \<noteq> Some (turn, x)" for x j k
    using that channels_okD(1) [OF ok, of j x k] by blast
  show "x < n \<and> (if \<exists>i. A i = Some (turn, x) then d # answers x else answers x) = []"
    if "holds A j x \<and> A j \<noteq> Some (turn, x)" for x j
  proof -
    have "\<nexists>i. A i = Some (turn, x)" using that turn channels_okD(1) [OF ok, of j x] by blast
    then show ?thesis using that channels_okD(2,3) [OF ok, of j x] by simp
  qed
  show "(if \<exists>i. A i = Some (turn, x) then d # answers x else answers x) = []" if "n \<le> x" for x
    using that turn [of _ x] channels_okD(2) [OF ok, of _ x] channels_okD(5) [OF ok that] by force
  show "length (if \<exists>i. A i = Some (turn, x) then d # answers x else answers x) = 1"
    if "x < n" and none: "\<And>j. \<not> (holds A j x \<and> A j \<noteq> Some (turn, x))" for x
  proof (cases "\<exists>i. A i = Some (turn, x)")
    case True
    then show ?thesis using turn [of _ x] channels_okD(3) [OF ok, of _ x] by auto
  next
    case False
    then have "\<not> holds A j x" for j using none [of j] by auto
    then show ?thesis using False channels_okD(4) [OF ok that(1)] by simp
  qed
qed

lemma send_simps [simp]:
  "ss_pending (send c d s) = ss_pending s" "ss_next (send c d s) = ss_next s"
  "ss_answers (send c d s) x = (if x = c then d # ss_answers s c else ss_answers s x)"
  by (simp_all add: send_def)

lemma foldl_send:
  "distinct cs \<Longrightarrow> ss_pending (foldl (\<lambda>s c. send c d s) s cs) = ss_pending s
     \<and> ss_next (foldl (\<lambda>s c. send c d s) s cs) = ss_next s
     \<and> ss_answers (foldl (\<lambda>s c. send c d s) s cs) x
        = (if x \<in> set cs then d # ss_answers s x else ss_answers s x)"
  by (induction cs arbitrary: s) auto

lemma session_step_inv: "session_step s t \<Longrightarrow> session_inv s \<Longrightarrow> session_inv t"
proof (induction rule: session_step.induct)
  case (step_request s i turn)
  then obtain A where A: "registry_rep (ss_pending s) A" and ok: "channels_ok A (ss_next s) (ss_answers s)"
    unfolding session_inv_def by blast
  obtain r p where ins: "pending_insert i turn (ss_next s) (ss_pending s) = (r, p)" by fastforce
  from rep_insert [OF A ins] have r: "r = map_option snd (A i)"
    and p: "registry_rep p (A(i \<mapsto> (turn, ss_next s)))" by blast+
  show ?case
  proof (cases "A i")
    case None
    with channels_open [OF ok] ins r p show ?thesis
      by (auto simp: session_inv_def request_exec_approval_def Let_def)
  next
    case (Some q)
    then have "holds A i (snd q)" by (cases q) (simp add: holds_def)
    from channels_open [OF channels_answer [OF ok this], of i turn Denied] Some ins r p show ?thesis
      by (auto simp: session_inv_def request_exec_approval_def send_def Let_def)
  qed
next
  case (step_notify s i d)
  then obtain A where A: "registry_rep (ss_pending s) A" and ok: "channels_ok A (ss_next s) (ss_answers s)"
    unfolding session_inv_def by blast
  obtain r p where rem: "pending_remove i (ss_pending s) = (r, p)" by fastforce
  from rep_remove [OF A rem] have r: "r = map_option snd (A i)" and p: "registry_rep p (A(i := None))" by blast+
  show ?case
  proof (cases "A i")
    case None
    with rem r p ok show ?thesis
      by (auto simp: session_inv_def notify_exec_approval_def fun_upd_idem)
  next
    case (Some q)
    then have "holds A i (snd q)" by (cases q) (simp add: holds_def)
    from channels_answer [OF ok this, of d] Some rem r p show ?thesis
      by (auto simp: session_inv_def notify_exec_approval_def send_def)
  qed
next
  case (step_clear_turn s turn)
  then obtain A where A: "registry_rep (ss_pending s) A" and ok: "channels_ok A (ss_next s) (ss_answers s)"
    unfolding session_inv_def by blast
  obtain txs p where clr: "pending_clear_turn turn (ss_pending s) = (txs, p)" by fastforce
  from rep_clear [OF A clr] obtain ids where p: "registry_rep p (without_turn turn A)" and d: "distinct ids"
    and ids: "set ids = prompts_of_turn A turn" and txs: "txs = map (\<lambda>i. snd (the (A i))) ids" by blast
  have h: "A i = Some (turn, snd (the (A i)))" if "i \<in> set ids" for i
    using that unfolding ids by (auto simp: prompts_of_turn_def)
  have "inj_on (\<lambda>i. snd (the (A i))) (set ids)"
    using channels_okD(1) [OF ok] h unfolding inj_on_def holds_def by metis
  then have dist: "distinct txs" using d by (simp add: txs distinct_map)
  have mem: "c \<in> set txs \<longleftrightarrow> (\<exists>i. A i = Some (turn, c))" for c
    using h ids by (force simp: txs prompts_of_turn_def)
  have "ss_answers (snd (clear_pending_approvals_for_turn turn s))
      = (\<lambda>c. if \<exists>i. A i = Some (turn, c) then Denied # ss_answers s c else ss_answers s c)"
    using foldl_send [OF dist] by (intro ext) (simp add: clear_pending_approvals_for_turn_def clr mem)
  with channels_clear [OF ok, of turn Denied] p show ?case
    unfolding session_inv_def using foldl_send [OF dist]
    by (intro exI [of _ "without_turn turn A"]) (simp add: clear_pending_approvals_for_turn_def clr)
qed

lemma fresh_session_inv: "session_inv fresh_session"
  unfolding session_inv_def fresh_session_def
  by (rule exI [of _ Map.empty]) (simp add: rep_no_pending channels_ok_def holds_def)

interpretation session: machine "\<lambda>s. s = fresh_session" session_step session_inv
  by unfold_locales (auto intro: fresh_session_inv session_step_inv)

text \<open>After any sequence of requests, answers and cleared turns, every prompt that was ever
  requested is either waiting, under exactly one identifier and not answered, or has been
  answered exactly once: no waiting request is lost, none is answered twice.\<close>

theorem prompts_answered_once:
  assumes "session_step\<^sup>*\<^sup>* fresh_session s"
  shows "\<exists>A. registry_rep (ss_pending s) A
    \<and> (\<forall>c < ss_next s. (\<exists>!i. holds A i c) \<and> ss_answers s c = []
        \<or> (\<nexists>i. holds A i c) \<and> (\<exists>d. ss_answers s c = [d]))"
proof -
  obtain A where A: "registry_rep (ss_pending s) A" and ok: "channels_ok A (ss_next s) (ss_answers s)"
    using session.inv_reachable [OF refl assms] by (auto simp: session_inv_def)
  have "(\<exists>!i. holds A i c) \<and> ss_answers s c = [] \<or> (\<nexists>i. holds A i c) \<and> (\<exists>d. ss_answers s c = [d])"
    if "c < ss_next s" for c
  proof (cases "\<exists>i. holds A i c")
    case True
    then show ?thesis using channels_okD(1,3) [OF ok] by blast
  next
    case False
    then have "length (ss_answers s c) = 1" using channels_okD(4) [OF ok that] by blast
    then show ?thesis using False by (auto simp: length_Suc_conv)
  qed
  with A show ?thesis by blast
qed

theorem prompts_answered_once_witness:
  "\<exists>d. ss_answers (request_exec_approval ''a'' ''t'' (request_exec_approval ''a'' ''t'' fresh_session)) 0 = [d]"
proof -
  let ?s = "request_exec_approval ''a'' ''t'' (request_exec_approval ''a'' ''t'' fresh_session)"
  have "session_step\<^sup>*\<^sup>* fresh_session ?s"
    by (meson rtranclp.rtrancl_into_rtrancl rtranclp.rtrancl_refl step_request)
  moreover have "ss_next ?s = 2" "ss_answers ?s 0 \<noteq> []" by code_simp+
  ultimately show ?thesis using prompts_answered_once [of ?s] by force
qed

end
