(* ===== verification/ConfigLayers.thy ===== *)
theory ConfigLayers
  imports RustStr
begin

text \<open>
  The configuration as a stack of layers (\<open>config/src/layer_stack.rs\<close>) and the layer of the
  command-line overrides (\<open>config/src/loader.rs\<close>): merging TOML values, the origin of each key,
  the fingerprint of a layer. A TOML table is a list of entries with distinct keys, in the
  order of the library's map. Rendering a date and time, parsing a floating-point number
  and the hasher of the standard library are parameters.
\<close>

section \<open>Values and layers\<close>

datatype toml_value =
    TString string
  | TInteger int
  | TFloat "64 word"
  | TBoolean bool
  | TDatetime string
  | TArray "toml_value list"
  | TTable "(string \<times> toml_value) list"

datatype config_layer_source =
    Layer_Default
  | Layer_System string
  | Layer_User string
  | Layer_Project string
  | Layer_SessionFlags

fun precedence :: "config_layer_source \<Rightarrow> int" where
  "precedence Layer_Default = 0"
| "precedence (Layer_System _) = 10"
| "precedence (Layer_User _) = 20"
| "precedence (Layer_Project _) = 25"
| "precedence Layer_SessionFlags = 30"

record config_layer_entry =
  cl_source :: config_layer_source
  cl_config :: toml_value
  cl_disabled_reason :: "string option"
  cl_version :: string

record config_layer_metadata =
  cm_source :: config_layer_source
  cm_version :: string
  cm_disabled_reason :: "string option"

definition is_enabled :: "config_layer_entry \<Rightarrow> bool" where
  "is_enabled layer \<longleftrightarrow> cl_disabled_reason layer = None"

definition layers_high_to_low :: "config_layer_entry list \<Rightarrow> config_layer_entry list" where
  "layers_high_to_low layers = sort_key (\<lambda>l. - precedence (cl_source l)) layers"

section \<open>Merging\<close>

fun merge_toml_values :: "toml_value \<Rightarrow> toml_value \<Rightarrow> toml_value"
  and merge_entries :: "(string \<times> toml_value) list \<Rightarrow> (string \<times> toml_value) list \<Rightarrow> (string \<times> toml_value) list" where
  "merge_toml_values (TTable base_tbl) (TTable overlay_tbl) = TTable (merge_entries base_tbl overlay_tbl)"
| "merge_toml_values base_any overlay_any = overlay_any"
| "merge_entries base_tbl [] = base_tbl"
| "merge_entries base_tbl ((k, v_overlay) # overlay_tbl) =
     merge_entries
       (hm_insert k (case hm_get base_tbl k of
            Some v_base \<Rightarrow> merge_toml_values v_base v_overlay
          | None \<Rightarrow> v_overlay) base_tbl) overlay_tbl"

definition effective_config :: "config_layer_entry list \<Rightarrow> toml_value" where
  "effective_config layers =
     foldl (\<lambda>merged layer. if is_enabled layer then merge_toml_values merged (cl_config layer) else merged)
       (TTable []) layers"

section \<open>Origins\<close>

fun update_origins_for_value :: "(string, config_layer_metadata) hashmap \<Rightarrow> toml_value \<Rightarrow> string
    \<Rightarrow> config_layer_metadata \<Rightarrow> (string, config_layer_metadata) hashmap"
  and update_origins_for_entries :: "(string, config_layer_metadata) hashmap \<Rightarrow> (string \<times> toml_value) list \<Rightarrow> string
    \<Rightarrow> config_layer_metadata \<Rightarrow> (string, config_layer_metadata) hashmap" where
  "update_origins_for_value origins (TTable tbl) prefix meta = update_origins_for_entries origins tbl prefix meta"
| "update_origins_for_value origins value' prefix meta =
     (if prefix = [] then origins else hm_insert prefix meta origins)"
| "update_origins_for_entries origins [] prefix meta = origins"
| "update_origins_for_entries origins ((k, v) # tbl) prefix meta =
     (let next_key = (if prefix = [] then k else prefix @ ''.'' @ k)
      in update_origins_for_entries
           (update_origins_for_value (hm_insert next_key meta origins) v next_key meta) tbl prefix meta)"

definition origin_of :: "config_layer_entry \<Rightarrow> config_layer_metadata" where
  "origin_of layer = \<lparr>cm_source = cl_source layer, cm_version = cl_version layer, cm_disabled_reason = None\<rparr>"

definition origins :: "config_layer_entry list \<Rightarrow> (string, config_layer_metadata) hashmap" where
  "origins layers =
     foldl (\<lambda>m layer. if is_enabled layer then update_origins_for_value m (cl_config layer) [] (origin_of layer) else m)
       [] layers"

section \<open>The fingerprint of a value\<close>

text \<open>What is fed into the hasher, in order.\<close>

datatype hash_input =
    H_Tag nat
  | H_Str string
  | H_I64 int
  | H_Bits "64 word"
  | H_Bool bool
  | H_Len nat

fun hash_toml_value :: "toml_value \<Rightarrow> hash_input list" where
  "hash_toml_value (TString s) = [H_Tag 0, H_Str s]"
| "hash_toml_value (TInteger i) = [H_Tag 1, H_I64 i]"
| "hash_toml_value (TFloat f) = [H_Tag 2, H_Bits f]"
| "hash_toml_value (TBoolean b) = [H_Tag 3, H_Bool b]"
| "hash_toml_value (TDatetime d) = [H_Tag 4, H_Str d]"
| "hash_toml_value (TArray arr) = [H_Tag 5, H_Len (length arr)] @ concat (map hash_toml_value arr)"
| "hash_toml_value (TTable tbl) = H_Tag 6 #
     concat (map (\<lambda>(k, hv). H_Str k # hv) (sort_key fst (map (\<lambda>(k, v). (k, hash_toml_value v)) tbl)))"

definition version_for_toml :: "(hash_input list \<Rightarrow> string) \<Rightarrow> toml_value \<Rightarrow> string" where
  "version_for_toml finish value' = finish (hash_toml_value value')"

definition new_layer :: "(hash_input list \<Rightarrow> string) \<Rightarrow> config_layer_source \<Rightarrow> toml_value \<Rightarrow> config_layer_entry" where
  "new_layer finish source config =
     \<lparr>cl_source = source, cl_config = config, cl_disabled_reason = None,
      cl_version = version_for_toml finish config\<rparr>"

definition new_disabled_layer ::
  "(hash_input list \<Rightarrow> string) \<Rightarrow> config_layer_source \<Rightarrow> toml_value \<Rightarrow> string \<Rightarrow> config_layer_entry" where
  "new_disabled_layer finish source config reason =
     \<lparr>cl_source = source, cl_config = config, cl_disabled_reason = Some reason,
      cl_version = version_for_toml finish config\<rparr>"

section \<open>Command-line overrides\<close>

text \<open>\<open>str::parse::<i64>\<close>: an optional sign and digits, in range.\<close>

definition digits_value :: "string \<Rightarrow> int" where
  "digits_value ds = foldl (\<lambda>n c. 10 * n + (of_char c - 48)) 0 ds"

definition parse_digits :: "string \<Rightarrow> int option" where
  "parse_digits ds = (if ds \<noteq> [] \<and> list_all is_ascii_digit ds then Some (digits_value ds) else None)"

definition parse_i64 :: "string \<Rightarrow> int option" where
  "parse_i64 s =
     (case (case s of
          [] \<Rightarrow> None
        | c # ds \<Rightarrow>
            if c = CHR ''-'' then map_option uminus (parse_digits ds)
            else if c = CHR ''+'' then parse_digits ds
            else parse_digits s) of
        None \<Rightarrow> None
      | Some n \<Rightarrow> if - (2 ^ 63) \<le> n \<and> n < 2 ^ 63 then Some n else None)"

definition parse_override_value :: "(string \<Rightarrow> 64 word option) \<Rightarrow> string \<Rightarrow> toml_value" where
  "parse_override_value parse_f64 raw =
     (let trimmed = trim raw
      in if eq_ignore_ascii_case trimmed ''true'' then TBoolean True
         else if eq_ignore_ascii_case trimmed ''false'' then TBoolean False
         else (case parse_i64 trimmed of
             Some v \<Rightarrow> TInteger v
           | None \<Rightarrow> (case parse_f64 trimmed of Some v \<Rightarrow> TFloat v | None \<Rightarrow> TString trimmed)))"

definition key_segments :: "string \<Rightarrow> string list" where
  "key_segments dotted = filter (\<lambda>s. s \<noteq> []) (split_on (CHR ''.'') dotted)"

text \<open>The walk of \<open>set_dotted_key\<close> along the segments; it stops at a value that is no table.\<close>

fun set_segments :: "string list \<Rightarrow> toml_value \<Rightarrow> toml_value \<Rightarrow> toml_value" where
  "set_segments [] value' cur = cur"
| "set_segments [seg] value' (TTable tbl) = TTable (hm_insert seg value' tbl)"
| "set_segments (seg # segs) value' (TTable tbl) =
     TTable (hm_insert seg
       (set_segments segs value' (case hm_get tbl seg of None \<Rightarrow> TTable [] | Some v \<Rightarrow> v)) tbl)"
| "set_segments (seg # segs) value' cur = cur"

definition set_dotted_key :: "toml_value \<Rightarrow> string \<Rightarrow> toml_value \<Rightarrow> toml_value" where
  "set_dotted_key root dotted value' = set_segments (key_segments dotted) value' root"

definition build_cli_overrides_layer :: "(string \<Rightarrow> 64 word option) \<Rightarrow> (string \<times> string) list \<Rightarrow> toml_value" where
  "build_cli_overrides_layer parse_f64 cli_overrides =
     foldl (\<lambda>root (key, raw). set_dotted_key root key (parse_override_value parse_f64 raw)) (TTable []) cli_overrides"

section \<open>Reading a value\<close>

text \<open>What stands at a path of keys: a table, another value, or nothing.\<close>

datatype node = Leaf toml_value | Tab

fun node_at :: "toml_value \<Rightarrow> string list \<Rightarrow> node option" where
  "node_at (TTable tbl) [] = Some Tab"
| "node_at (TTable tbl) (k # ks) = (case hm_get tbl k of None \<Rightarrow> None | Some v \<Rightarrow> node_at v ks)"
| "node_at v [] = Some (Leaf v)"
| "node_at v (k # ks) = None"

text \<open>Whether a value other than a table stands above the path.\<close>

fun hides :: "toml_value \<Rightarrow> string list \<Rightarrow> bool" where
  "hides (TTable tbl) (k # ks) = (case hm_get tbl k of None \<Rightarrow> False | Some v \<Rightarrow> hides v ks)"
| "hides v [] = False"
| "hides v (k # ks) = True"

fun wf_toml :: "toml_value \<Rightarrow> bool" where
  "wf_toml (TTable tbl) \<longleftrightarrow> hm_wf tbl \<and> (\<forall>(k, v) \<in> set tbl. wf_toml v)"
| "wf_toml _ = True"

lemma get_merge_entries:
  "hm_wf ov \<Longrightarrow> hm_get (merge_entries b ov) k = (case hm_get ov k of
      None \<Rightarrow> hm_get b k
    | Some v \<Rightarrow> Some (case hm_get b k of Some vb \<Rightarrow> merge_toml_values vb v | None \<Rightarrow> v))"
proof (induction ov arbitrary: b)
  case (Cons e ov)
  obtain k' v where e: "e = (k', v)" by (cases e)
  have "hm_get ov k' = None" using Cons.prems by (simp add: e map_of_eq_None_iff)
  with Cons show ?case by (auto simp: e get_hm_insert split: option.splits)
qed simp

text \<open>The last writer: what merging leaves at a path.\<close>

lemma node_merge:
  "wf_toml ov \<Longrightarrow> node_at (merge_toml_values b ov) p =
     (case node_at ov p of Some n \<Rightarrow> Some n | None \<Rightarrow> if hides ov p then None else node_at b p)"
proof (induction p arbitrary: b ov)
  case Nil
  show ?case by (cases ov; cases b) auto
next
  case (Cons k p)
  show ?case
  proof (cases ov)
    case (TTable o')
    have wf: "hm_wf o'" and sub: "\<And>v. hm_get o' k = Some v \<Longrightarrow> wf_toml v"
      using Cons.prems by (auto simp: TTable dest!: map_of_SomeD)
    show ?thesis
    proof (cases "\<exists>b'. b = TTable b'")
      case True
      then obtain b' where "b = TTable b'" ..
      then show ?thesis
        using Cons.IH sub by (auto simp: TTable get_merge_entries [OF wf] split: option.splits)
    next
      case False
      then have "node_at b (k # p) = None" "merge_toml_values b ov = ov" by (cases b; simp add: TTable)+
      then show ?thesis by (auto split: option.splits)
    qed
  qed (cases b; simp)+
qed

end
