(* ===== verification/ConfigEffective.thy ===== *)
theory ConfigEffective
  imports ConfigLayers
begin

text \<open>
  The effective configuration is the layers read from the highest down, the origins name the
  layer that supplied a value, an override on the command line wins, and what the fingerprint
  of a layer does not tell apart.
\<close>

section \<open>The effective value\<close>

fun resolve :: "toml_value list \<Rightarrow> string list \<Rightarrow> node option" where
  "resolve [] p = (if p = [] then Some Tab else None)"
| "resolve (c # cs) p = (case node_at c p of Some n \<Rightarrow> Some n | None \<Rightarrow> if hides c p then None else resolve cs p)"

definition enabled_configs :: "config_layer_entry list \<Rightarrow> toml_value list" where
  "enabled_configs layers = map cl_config (filter is_enabled layers)"

lemma node_effective:
  "\<forall>l \<in> set layers. wf_toml (cl_config l) \<Longrightarrow>
     node_at (effective_config layers) p = resolve (rev (enabled_configs layers)) p"
proof (induction layers arbitrary: p rule: rev_induct)
  case Nil
  show ?case by (cases p) (simp_all add: effective_config_def enabled_configs_def)
next
  case (snoc l layers)
  then show ?case
    by (auto simp: effective_config_def enabled_configs_def node_merge split: option.split)
qed

text \<open>The effective configuration holds at every path what the highest enabled layer says
  that has anything there, unless a higher layer has put another value than a table above
  the path; disabled layers have no influence.\<close>

theorem effective_is_last_writer:
  assumes "\<forall>l \<in> set layers. wf_toml (cl_config l)"
  shows "node_at (effective_config layers) p = resolve (rev (enabled_configs layers)) p
    \<and> effective_config layers = effective_config (filter is_enabled layers)"
proof
  show "node_at (effective_config layers) p = resolve (rev (enabled_configs layers)) p"
    by (rule node_effective [OF assms])
  show "effective_config layers = effective_config (filter is_enabled layers)"
    by (induction layers rule: rev_induct) (simp_all add: effective_config_def)
qed

section \<open>Origins\<close>

definition clean_key :: "string \<Rightarrow> bool" where
  "clean_key k \<longleftrightarrow> k \<noteq> [] \<and> CHR ''.'' \<notin> set k"

fun clean_toml :: "toml_value \<Rightarrow> bool" where
  "clean_toml (TTable tbl) \<longleftrightarrow> hm_wf tbl \<and> (\<forall>(k, v) \<in> set tbl. clean_key k \<and> clean_toml v)"
| "clean_toml _ = True"

abbreviation dotted :: "string list \<Rightarrow> string" where
  "dotted p \<equiv> join ''.'' p"

lemma dotted_inj:
  assumes "p \<noteq> []" "\<forall>k \<in> set p. clean_key k" "q \<noteq> []" "\<forall>k \<in> set q. clean_key k"
  shows "dotted p = dotted q \<longleftrightarrow> p = q"
  using split_on_join [of p "CHR ''.''"] split_on_join [of q "CHR ''.''"] assms
  unfolding clean_key_def by metis

lemma dotted_Nil: "\<forall>k \<in> set p. clean_key k \<Longrightarrow> dotted p = [] \<longleftrightarrow> p = []"
  by (cases p rule: rev_cases) (auto simp: join_snoc clean_key_def)

lemma next_key: "\<forall>k \<in> set p. clean_key k \<Longrightarrow> (if dotted p = [] then k else dotted p @ ''.'' @ k) = dotted (p @ [k])"
  by (simp add: dotted_Nil join_snoc)

text \<open>Marking a value below a path sets the origin of exactly the paths that stand in it.\<close>

definition marks :: "toml_value \<Rightarrow> bool" where
  "marks v \<longleftrightarrow> (\<forall>pre m meta P. clean_toml v \<longrightarrow> (\<forall>k \<in> set pre. clean_key k) \<longrightarrow> P \<noteq> [] \<longrightarrow> (\<forall>k \<in> set P. clean_key k)
     \<longrightarrow> (pre \<noteq> [] \<longrightarrow> hm_get m (dotted pre) = Some meta)
     \<longrightarrow> hm_get (update_origins_for_value m v (dotted pre) meta) (dotted P) =
        (if \<exists>q. P = pre @ q \<and> node_at v q \<noteq> None then Some meta else hm_get m (dotted P)))"

lemma node_at_root [simp]: "node_at v [] \<noteq> None"
  by (cases v) auto

lemma mark_entry:
  assumes v: "marks v" "clean_toml v" and k: "clean_key k"
    and pre: "\<forall>k \<in> set pre. clean_key k" and P: "P \<noteq> []" "\<forall>k \<in> set P. clean_key k"
  shows "hm_get (update_origins_for_value (hm_insert (dotted (pre @ [k])) meta m) v (dotted (pre @ [k])) meta) (dotted P) =
    (if \<exists>q. P = pre @ k # q \<and> node_at v q \<noteq> None then Some meta else hm_get m (dotted P))"
proof -
  have ck: "\<forall>x \<in> set (pre @ [k]). clean_key x" using pre k by auto
  have "hm_get (update_origins_for_value (hm_insert (dotted (pre @ [k])) meta m) v (dotted (pre @ [k])) meta) (dotted P) =
    (if \<exists>q. P = (pre @ [k]) @ q \<and> node_at v q \<noteq> None then Some meta
     else hm_get (hm_insert (dotted (pre @ [k])) meta m) (dotted P))"
    using v ck P unfolding marks_def by (auto simp: get_hm_insert)
  moreover have "dotted P = dotted (pre @ [k]) \<longleftrightarrow> P = pre @ [k]"
    by (rule dotted_inj [OF P _ ck]) simp
  moreover have "\<exists>q. P = pre @ k # q \<and> node_at v q \<noteq> None" if "P = pre @ [k]"
    using that by (intro exI [of _ "[]"]) simp
  ultimately show ?thesis by (auto simp: get_hm_insert)
qed

lemma mark_entries:
  assumes "\<And>k v. (k, v) \<in> set t \<Longrightarrow> marks v \<and> clean_toml v \<and> clean_key k" and "hm_wf t"
    and "\<forall>k \<in> set pre. clean_key k" and "P \<noteq> []" "\<forall>k \<in> set P. clean_key k"
  shows "hm_get (update_origins_for_entries m t (dotted pre) meta) (dotted P) =
    (if \<exists>k q v. P = pre @ k # q \<and> hm_get t k = Some v \<and> node_at v q \<noteq> None then Some meta else hm_get m (dotted P))"
  using assms(1,2)
proof (induction t arbitrary: m)
  case (Cons e t)
  obtain k v where e: "e = (k, v)" by (cases e)
  have ev: "marks v" "clean_toml v" "clean_key k" using Cons.prems(1) [of k v] by (auto simp: e)
  have new: "hm_get t k = None" using Cons.prems(2) by (simp add: e map_of_eq_None_iff)
  let ?m = "update_origins_for_value (hm_insert (dotted (pre @ [k])) meta m) v (dotted (pre @ [k])) meta"
  have "hm_get (update_origins_for_entries m (e # t) (dotted pre) meta) (dotted P)
      = hm_get (update_origins_for_entries ?m t (dotted pre) meta) (dotted P)"
    by (simp add: e next_key [OF assms(3)] Let_def del: join_snoc)
  also have "\<dots> = (if \<exists>k q v. P = pre @ k # q \<and> hm_get t k = Some v \<and> node_at v q \<noteq> None then Some meta
      else hm_get ?m (dotted P))"
    by (rule Cons.IH) (use Cons.prems in auto)
  also have "hm_get ?m (dotted P)
      = (if \<exists>q. P = pre @ k # q \<and> node_at v q \<noteq> None then Some meta else hm_get m (dotted P))"
    by (rule mark_entry [OF ev assms(3-5)])
  also have "(if \<exists>k q v. P = pre @ k # q \<and> hm_get t k = Some v \<and> node_at v q \<noteq> None then Some meta
      else if \<exists>q. P = pre @ k # q \<and> node_at v q \<noteq> None then Some meta else hm_get m (dotted P))
    = (if \<exists>k' q v'. P = pre @ k' # q \<and> hm_get (e # t) k' = Some v' \<and> node_at v' q \<noteq> None then Some meta
       else hm_get m (dotted P))"
    using new by (auto simp: e split: if_splits)
  finally show ?case .
qed simp

lemma node_at_value: "(\<And>t. v \<noteq> TTable t) \<Longrightarrow> node_at v q \<noteq> None \<longleftrightarrow> q = []"
  by (cases v; cases q) auto

lemma marks_value:
  assumes "\<And>t. v \<noteq> TTable t"
  shows "marks v"
  unfolding marks_def
proof (intro allI impI)
  fix pre P and m :: "(string, config_layer_metadata) hashmap" and meta
  assume A: "\<forall>k \<in> set pre. clean_key k" "P \<noteq> []" "\<forall>k \<in> set P. clean_key k"
  have "update_origins_for_value m v (dotted pre) meta = (if pre = [] then m else hm_insert (dotted pre) meta m)"
    using assms dotted_Nil [OF A(1)] by (cases v) auto
  moreover have "pre \<noteq> [] \<Longrightarrow> dotted P = dotted pre \<longleftrightarrow> P = pre"
    by (rule dotted_inj [OF A(2,3) _ A(1)])
  ultimately show "hm_get (update_origins_for_value m v (dotted pre) meta) (dotted P) =
      (if \<exists>q. P = pre @ q \<and> node_at v q \<noteq> None then Some meta else hm_get m (dotted P))"
    unfolding node_at_value [OF assms] using A(2) by (auto simp: get_hm_insert)
qed

lemma marks_all: "marks v"
proof (induction v)
  case (TTable t)
  show ?case
    unfolding marks_def
  proof (intro allI impI)
    fix pre P and m :: "(string, config_layer_metadata) hashmap" and meta
    assume A: "clean_toml (TTable t)" "\<forall>k \<in> set pre. clean_key k" "P \<noteq> []" "\<forall>k \<in> set P. clean_key k"
      "pre \<noteq> [] \<longrightarrow> hm_get m (dotted pre) = Some meta"
    have sub: "marks v \<and> clean_toml v \<and> clean_key k" if "(k, v) \<in> set t" for k v
      using TTable [OF that] A(1) that by auto
    have "(\<exists>q. P = pre @ q \<and> node_at (TTable t) q \<noteq> None) \<longleftrightarrow> P = pre \<or>
        (\<exists>k q v. P = pre @ k # q \<and> hm_get t k = Some v \<and> node_at v q \<noteq> None)" (is "?l \<longleftrightarrow> ?r")
    proof
      assume ?l
      then obtain q where q: "P = pre @ q" "node_at (TTable t) q \<noteq> None" by blast
      then show ?r by (cases q) (auto split: option.splits)
    next
      assume ?r
      then show ?l
      proof
        assume "P = pre"
        then show ?l by (intro exI [of _ "[]"]) simp
      next
        assume "\<exists>k q v. P = pre @ k # q \<and> hm_get t k = Some v \<and> node_at v q \<noteq> None"
        then obtain k q v where "P = pre @ k # q" "hm_get t k = Some v" "node_at v q \<noteq> None" by blast
        then show ?l by (intro exI [of _ "k # q"]) simp
      qed
    qed
    then show "hm_get (update_origins_for_value m (TTable t) (dotted pre) meta) (dotted P) =
        (if \<exists>q. P = pre @ q \<and> node_at (TTable t) q \<noteq> None then Some meta else hm_get m (dotted P))"
      using mark_entries [OF sub _ A(2-4), where m = m and meta = meta] A by auto
  qed
qed (rule marks_value; simp)+

lemma clean_wf: "clean_toml v \<Longrightarrow> wf_toml v"
  by (induction v) auto

lemma origins_get:
  assumes "\<forall>l \<in> set layers. clean_toml (cl_config l)" and "P \<noteq> []" "\<forall>k \<in> set P. clean_key k"
  shows "hm_get (origins layers) (dotted P) =
    map_option origin_of (find (\<lambda>l. node_at (cl_config l) P \<noteq> None) (rev (filter is_enabled layers)))"
  using assms(1)
proof (induction layers rule: rev_induct)
  case (snoc l layers)
  have "hm_get (update_origins_for_value m (cl_config l) [] meta) (dotted P)
    = (if node_at (cl_config l) P \<noteq> None then Some meta else hm_get m (dotted P))" for m meta
    using marks_all [of "cl_config l"] snoc.prems assms(2,3) unfolding marks_def
    by (metis append_Nil empty_iff empty_set in_set_conv_decomp join.simps(1) last_in_set)
  with snoc show ?case by (auto simp: origins_def)
qed (simp add: origins_def)

lemma resolve_Leaf:
  "resolve cs P = Some (Leaf x) \<Longrightarrow> P \<noteq> [] \<Longrightarrow>
     \<exists>c. find (\<lambda>c. node_at c P \<noteq> None) cs = Some c \<and> node_at c P = Some (Leaf x)"
  by (induction cs) (auto split: option.splits if_splits)

lemma find_map: "find Q (map f xs) = map_option f (find (\<lambda>x. Q (f x)) xs)"
  by (induction xs) auto

text \<open>The origin that is reported for a value of the effective configuration is the layer it
  came from: for every path to a value that is no table, \<open>origins\<close> names, under the dotted
  path, an enabled layer that holds this value at this path (for keys without dots).\<close>

theorem origin_names_supplier:
  assumes clean: "\<forall>l \<in> set layers. clean_toml (cl_config l)"
    and path: "P \<noteq> []" "\<forall>k \<in> set P. clean_key k"
    and val: "node_at (effective_config layers) P = Some (Leaf x)"
  shows "\<exists>l \<in> set layers. is_enabled l \<and> node_at (cl_config l) P = Some (Leaf x)
    \<and> hm_get (origins layers) (dotted P) = Some (origin_of l)"
proof -
  have "resolve (rev (enabled_configs layers)) P = Some (Leaf x)"
    using val node_effective [of layers P] clean clean_wf by auto
  from resolve_Leaf [OF this path(1)] obtain l where
    l: "find (\<lambda>l. node_at (cl_config l) P \<noteq> None) (rev (filter is_enabled layers)) = Some l"
    and "node_at (cl_config l) P = Some (Leaf x)"
    by (auto simp: enabled_configs_def rev_map find_map)
  with find_Some_in [OF l] origins_get [OF clean path] show ?thesis by auto
qed

section \<open>Overrides\<close>

lemma node_set_segments:
  "segs \<noteq> [] \<Longrightarrow> \<not> hides root segs \<Longrightarrow> node_at (set_segments segs v root) segs = node_at v []"
  by (induction segs v root rule: set_segments.induct)
     (auto simp: get_hm_insert split: option.splits if_splits)

lemma set_hm_insert: "set (hm_insert k v m) \<subseteq> insert (k, v) (set m)"
  by (induction m) auto

lemma wf_toml_insert: "wf_toml (TTable m) \<Longrightarrow> wf_toml v \<Longrightarrow> wf_toml (TTable (hm_insert k v m))"
  using set_hm_insert [of k v m] by auto

lemma wf_toml_get: "wf_toml (TTable m) \<Longrightarrow> hm_get m k = Some v \<Longrightarrow> wf_toml v"
  by (auto dest: map_of_SomeD)

lemma wf_set_segments: "wf_toml root \<Longrightarrow> wf_toml v \<Longrightarrow> wf_toml (set_segments segs v root)"
proof (induction segs v root rule: set_segments.induct)
  case (2 seg v tbl)
  then show ?case by (simp only: set_segments.simps wf_toml_insert)
next
  case (3 seg s segs v tbl)
  have "wf_toml (case hm_get tbl seg of None \<Rightarrow> TTable [] | Some v \<Rightarrow> v)"
    using wf_toml_get [OF 3(2)] by (auto split: option.split)
  with 3 show ?case by (simp only: set_segments.simps wf_toml_insert)
qed simp_all

lemma wf_override: "wf_toml (parse_override_value f raw)"
  and node_override: "node_at (parse_override_value f raw) [] = Some (Leaf (parse_override_value f raw))"
  by (auto simp: parse_override_value_def Let_def split: option.splits)

lemma wf_build: "wf_toml (build_cli_overrides_layer f os)"
  by (induction os rule: rev_induct)
     (auto simp: build_cli_overrides_layer_def set_dotted_key_def wf_override intro!: wf_set_segments)

text \<open>The last override on the command line wins over every layer below it: its key holds
  the value that was given, whatever the files say, unless an earlier override has put a value
  that is no table above the key.\<close>

theorem cli_override_wins:
  assumes "\<forall>l \<in> set lower. wf_toml (cl_config l)" and "key_segments key \<noteq> []"
    and "\<not> hides (build_cli_overrides_layer f os) (key_segments key)"
  shows "node_at (effective_config (lower @ [new_layer finish Layer_SessionFlags
      (build_cli_overrides_layer f (os @ [(key, raw)]))])) (key_segments key)
    = Some (Leaf (parse_override_value f raw))"
proof -
  let ?l = "new_layer finish Layer_SessionFlags (build_cli_overrides_layer f (os @ [(key, raw)]))"
  have node: "node_at (cl_config ?l) (key_segments key) = Some (Leaf (parse_override_value f raw))"
    using node_set_segments [OF assms(2,3)] node_override
    by (simp add: new_layer_def build_cli_overrides_layer_def set_dotted_key_def)
  have "wf_toml (cl_config ?l)" by (simp add: new_layer_def wf_build)
  with assms(1) have "node_at (effective_config (lower @ [?l])) (key_segments key)
      = resolve (rev (enabled_configs (lower @ [?l]))) (key_segments key)"
    by (intro node_effective) auto
  also have "rev (enabled_configs (lower @ [?l])) = cl_config ?l # rev (enabled_configs lower)"
    by (simp add: enabled_configs_def is_enabled_def new_layer_def)
  finally show ?thesis using node by simp
qed

section \<open>Fingerprints\<close>

text \<open>Two different configurations get the same version under every hasher, because the
  number of entries of a table is not fed into it: a table \<open>a\<close> that contains \<open>b\<close>, and an empty
  table \<open>a\<close> followed by \<open>b\<close> beside it.\<close>

theorem versions_collide:
  "version_for_toml finish (TTable [(''a'', TTable [(''b'', TInteger 1)])])
     = version_for_toml finish (TTable [(''a'', TTable []), (''b'', TInteger 1)])
   \<and> node_at (TTable [(''a'', TTable [(''b'', TInteger 1)])]) [''b'']
     \<noteq> node_at (TTable [(''a'', TTable []), (''b'', TInteger 1)]) [''b'']"
  by (simp add: version_for_toml_def)

section \<open>The properties at work\<close>

definition demo_layers :: "config_layer_entry list" where
  "demo_layers =
     [\<lparr>cl_source = Layer_Default, cl_config = TTable [(''model'', TTable [(''name'', TString ''x''), (''n'', TInteger 1)])],
       cl_disabled_reason = None, cl_version = ''v0''\<rparr>,
      \<lparr>cl_source = Layer_User ''u'', cl_config = TTable [(''model'', TTable [(''name'', TString ''y'')])],
       cl_disabled_reason = None, cl_version = ''v1''\<rparr>,
      \<lparr>cl_source = Layer_Project ''p'', cl_config = TTable [(''model'', TString ''z'')],
       cl_disabled_reason = Some ''untrusted'', cl_version = ''v2''\<rparr>]"

lemma demo_layers_clean: "\<forall>l \<in> set demo_layers. clean_toml (cl_config l)"
  by (simp add: demo_layers_def clean_key_def)

theorem effective_is_last_writer_witness:
  "node_at (effective_config demo_layers) [''model'', ''name''] = Some (Leaf (TString ''y''))"
proof -
  have "resolve (rev (enabled_configs demo_layers)) [''model'', ''name''] = Some (Leaf (TString ''y''))" by code_simp
  moreover have "\<forall>l \<in> set demo_layers. wf_toml (cl_config l)" using demo_layers_clean clean_wf by blast
  ultimately show ?thesis
    using conjunct1 [OF effective_is_last_writer [of demo_layers "[''model'', ''name'']"]] by simp
qed

theorem origin_names_supplier_witness:
  "\<exists>l \<in> set demo_layers. hm_get (origins demo_layers) ''model.n'' = Some (origin_of l)
     \<and> node_at (cl_config l) [''model'', ''n''] = Some (Leaf (TInteger 1))"
proof -
  have "node_at (effective_config demo_layers) [''model'', ''n''] = Some (Leaf (TInteger 1))" by code_simp
  from origin_names_supplier [OF demo_layers_clean _ _ this] show ?thesis
    by (auto simp: clean_key_def)
qed

theorem cli_override_wins_witness:
  "node_at (effective_config (demo_layers @ [new_layer (\<lambda>_. ''v'') Layer_SessionFlags
      (build_cli_overrides_layer (\<lambda>_. None) [(''model.name'', ''true''), (''model.n'', '' 7 '')])])) [''model'', ''n'']
    = Some (Leaf (TInteger 7))"
proof -
  have "key_segments ''model.n'' = [''model'', ''n'']" "parse_override_value (\<lambda>_. None) '' 7 '' = TInteger 7"
    "\<not> hides (build_cli_overrides_layer (\<lambda>_. None) [(''model.name'', ''true'')]) [''model'', ''n'']"
    by code_simp+
  then show ?thesis
    using cli_override_wins [of demo_layers "''model.n''" "\<lambda>_. None" "[(''model.name'', ''true'')]" _ "'' 7 ''"]
      demo_layers_clean clean_wf by auto
qed

end
