(* ===== verification/ConfigLoader.thy ===== *)
theory ConfigLoader
  imports ConfigEffective RustPath
begin

text \<open>
  Loading the configuration (\<open>config/src/loader.rs\<close>): the layers in their order, the project
  root, the trust in a project, and the project layers between the root and the working
  directory. The file system, \<open>git\<close>, the TOML parser and serde's conversion into \<open>Config\<close> are
  the fields of an environment; the fields of \<open>Config\<close> that the loader does not read are the
  extension of a record.
\<close>

section \<open>The environment\<close>

datatype read_result = Contents string | Not_Found | Read_Error string

datatype trust_level = Trusted | Untrusted

record config =
  cfg_projects :: "(string, trust_level option) hashmap"
  cfg_cwd :: string
  cfg_config_layer_stack :: "config_layer_entry list option"

record 'a config_env =
  ce_read_to_string :: "string \<Rightarrow> read_result"
  ce_is_dir :: "string \<Rightarrow> bool option"
  ce_canonicalize :: "string \<Rightarrow> string + string"
  ce_current_dir :: "string + string"
  ce_git_common_dir :: "string \<Rightarrow> string option"
  ce_from_str :: "string \<Rightarrow> string + toml_value"
  ce_default :: "string + toml_value"
  ce_try_into :: "toml_value \<Rightarrow> string + 'a config_scheme"
  ce_parse_f64 :: "string \<Rightarrow> 64 word option"
  ce_finish :: "hash_input list \<Rightarrow> string"

text \<open>\<open>Path::ancestors\<close>: the path and its parents.\<close>

lemma strip_seps_head: "strip_seps r = c # d # r' \<Longrightarrow> c \<noteq> CHR ''/''"
  by (induction r rule: strip_seps.induct) (auto split: if_splits)

lemma length_strip_seps: "length (strip_seps r) \<le> length r"
  by (induction r rule: strip_seps.induct) auto

lemma path_parent_shorter:
  assumes "path_parent path = Some p"
  shows "length p < length path"
proof -
  let ?r = "strip_seps (rev path)" and ?d = "dropWhile (\<lambda>c. c \<noteq> CHR ''/'') (strip_seps (rev path))"
  have r: "?r \<noteq> []" "?r \<noteq> ''/''" and p: "length p = length (strip_seps ?d)"
    using assms by (auto simp: path_parent_def Let_def split: if_splits)
  obtain c r' where cr: "?r = c # r'" using r(1) by (cases ?r) auto
  have "c \<noteq> CHR ''/''" using r(2) cr strip_seps_head [of "rev path" c] by (cases r') auto
  then have "length ?d < length ?r" using cr length_dropWhile_le [of _ r'] by (simp add: less_Suc_eq_le)
  then show ?thesis using p length_strip_seps [of ?d] length_strip_seps [of "rev path"] by simp
qed

function path_ancestors :: "string \<Rightarrow> string list" where
  "path_ancestors path = path # (case path_parent path of None \<Rightarrow> [] | Some parent \<Rightarrow> path_ancestors parent)"
  by pat_completeness auto
termination
  by (relation "measure length") (auto dest: path_parent_shorter)

declare path_ancestors.simps [simp del]

definition same_path :: "string \<Rightarrow> string \<Rightarrow> bool" where
  "same_path a b \<longleftrightarrow> path_components a = path_components b"

section \<open>Trust in a project\<close>

record project_trust_context =
  pt_project_root :: string
  pt_project_root_key :: string
  pt_repo_root_key :: "string option"
  pt_projects_trust :: "(string, trust_level) hashmap"
  pt_user_config_file :: string

record project_trust_decision =
  pd_trust_level :: "trust_level option"
  pd_trust_key :: string

definition is_trusted :: "project_trust_decision \<Rightarrow> bool" where
  "is_trusted decision \<longleftrightarrow> pd_trust_level decision = Some Trusted"

definition decision_for_dir :: "project_trust_context \<Rightarrow> string \<Rightarrow> project_trust_decision" where
  "decision_for_dir ctx dir_key =
     (case hm_get (pt_projects_trust ctx) dir_key of
        Some level \<Rightarrow> \<lparr>pd_trust_level = Some level, pd_trust_key = dir_key\<rparr>
      | None \<Rightarrow> (case hm_get (pt_projects_trust ctx) (pt_project_root_key ctx) of
          Some level \<Rightarrow> \<lparr>pd_trust_level = Some level, pd_trust_key = pt_project_root_key ctx\<rparr>
        | None \<Rightarrow> (case (case pt_repo_root_key ctx of
              None \<Rightarrow> None
            | Some repo_root_key \<Rightarrow> map_option (Pair repo_root_key) (hm_get (pt_projects_trust ctx) repo_root_key)) of
              Some (repo_root_key, level) \<Rightarrow> \<lparr>pd_trust_level = Some level, pd_trust_key = repo_root_key\<rparr>
            | None \<Rightarrow> \<lparr>pd_trust_level = None,
                pd_trust_key = (case pt_repo_root_key ctx of Some k \<Rightarrow> k | None \<Rightarrow> pt_project_root_key ctx)\<rparr>)))"

definition disabled_reason_for_dir :: "project_trust_context \<Rightarrow> string \<Rightarrow> string option" where
  "disabled_reason_for_dir ctx dir =
     (let decision = decision_for_dir ctx dir; trust_key = pd_trust_key decision
      in if is_trusted decision then None
         else if pd_trust_level decision = Some Untrusted
         then Some (trust_key @ '' is marked as untrusted in '' @ pt_user_config_file ctx
           @ ''. To load config.toml, mark it trusted.'')
         else Some (''To load config.toml, add '' @ trust_key @ '' as a trusted project in ''
           @ pt_user_config_file ctx @ ''.''))"

section \<open>The project root\<close>

definition project_root_markers_from_config :: "toml_value \<Rightarrow> string + string list option" where
  "project_root_markers_from_config cfg =
     (case cfg of
        TTable table \<Rightarrow>
          (case hm_get table ''project_root_markers'' of
             None \<Rightarrow> Inr None
           | Some (TArray entries) \<Rightarrow>
               if list_all (\<lambda>e. case e of TString _ \<Rightarrow> True | _ \<Rightarrow> False) entries
               then Inr (Some (map (\<lambda>e. case e of TString s \<Rightarrow> s | _ \<Rightarrow> []) entries))
               else Inl ''project_root_markers must be an array of strings''
           | Some _ \<Rightarrow> Inl ''project_root_markers must be an array of strings'')
      | _ \<Rightarrow> Inr None)"

definition default_project_root_markers :: "string list" where
  "default_project_root_markers = [''.git'']"

definition find_project_root :: "'a config_env \<Rightarrow> string \<Rightarrow> string list \<Rightarrow> string" where
  "find_project_root env cwd markers =
     (if markers = [] then cwd
      else (case find (\<lambda>ancestor. list_ex (\<lambda>marker. ce_is_dir env (path_join ancestor marker) \<noteq> None) markers)
              (path_ancestors cwd) of
          Some ancestor \<Rightarrow> ancestor
        | None \<Rightarrow> cwd))"

definition canonicalize_or :: "'a config_env \<Rightarrow> string \<Rightarrow> string" where
  "canonicalize_or env path = (case ce_canonicalize env path of Inr p \<Rightarrow> p | Inl e \<Rightarrow> path)"

definition resolve_root_git_project_for_trust :: "'a config_env \<Rightarrow> string \<Rightarrow> string option" where
  "resolve_root_git_project_for_trust env cwd =
     (case (if ce_is_dir env cwd = Some True then Some cwd else path_parent cwd) of
        None \<Rightarrow> None
      | Some base \<Rightarrow> (case ce_git_common_dir env base of
          None \<Rightarrow> None
        | Some out \<Rightarrow>
            (let git_dir_s = trim out
             in if git_dir_s = [] then None
                else path_parent (canonicalize_or env
                  (if is_absolute git_dir_s then git_dir_s else path_join base git_dir_s)))))"

definition project_trust_context_for ::
  "'a config_env \<Rightarrow> toml_value \<Rightarrow> string \<Rightarrow> string list \<Rightarrow> string \<Rightarrow> string + project_trust_context" where
  "project_trust_context_for env merged_config cwd markers user_config_file =
     (case ce_try_into env merged_config of
        Inl e \<Rightarrow> Inl e
      | Inr cfg \<Rightarrow>
          (let project_root = find_project_root env cwd markers
           in Inr \<lparr>pt_project_root = project_root, pt_project_root_key = project_root,
                pt_repo_root_key = resolve_root_git_project_for_trust env cwd,
                pt_projects_trust = List.map_filter (\<lambda>(key, trust_level). map_option (Pair key) trust_level) (cfg_projects cfg),
                pt_user_config_file = user_config_file\<rparr>))"

section \<open>Layers\<close>

definition load_required_toml_layer ::
  "'a config_env \<Rightarrow> string \<Rightarrow> (toml_value \<Rightarrow> config_layer_entry) \<Rightarrow> string + config_layer_entry" where
  "load_required_toml_layer env file create =
     (case ce_read_to_string env file of
        Contents contents \<Rightarrow>
          if trim contents = [] then Inr (create (TTable []))
          else (case ce_from_str env contents of
              Inr cfg \<Rightarrow> Inr (create cfg)
            | Inl e \<Rightarrow> Inl (''Error parsing config file '' @ file @ '': '' @ e))
      | Not_Found \<Rightarrow> Inr (create (TTable []))
      | Read_Error e \<Rightarrow> Inl (''Failed to read config file '' @ file @ '': '' @ e))"

definition project_layer_entry ::
  "'a config_env \<Rightarrow> project_trust_context \<Rightarrow> string \<Rightarrow> string \<Rightarrow> toml_value \<Rightarrow> bool \<Rightarrow> config_layer_entry" where
  "project_layer_entry env ctx dot_cokra_folder layer_dir cfg config_toml_exists =
     (let source = Layer_Project dot_cokra_folder
      in case (if config_toml_exists then disabled_reason_for_dir ctx layer_dir else None) of
           Some reason \<Rightarrow> new_disabled_layer (ce_finish env) source cfg reason
         | None \<Rightarrow> new_layer (ce_finish env) source cfg)"

text \<open>One directory of the loop: skipped, a layer, or an error that ends the loading.\<close>

definition project_layer_of ::
  "'a config_env \<Rightarrow> project_trust_context \<Rightarrow> string \<Rightarrow> string \<Rightarrow> string + config_layer_entry option" where
  "project_layer_of env ctx cokra_home_abs dir =
     (let dot_cokra = path_join dir ''.cokra''; config_file = path_join dot_cokra ''config.toml''
      in if ce_is_dir env dot_cokra \<noteq> Some True then Inr None
         else if same_path (canonicalize_or env dot_cokra) cokra_home_abs then Inr None
         else (case ce_read_to_string env config_file of
             Contents contents \<Rightarrow>
               (case ce_from_str env contents of
                  Inr cfg \<Rightarrow> Inr (Some (project_layer_entry env ctx dot_cokra dir cfg True))
                | Inl e \<Rightarrow>
                    if is_trusted (decision_for_dir ctx dir)
                    then Inl (''Error parsing project config file '' @ config_file @ '': '' @ e)
                    else Inr (Some (project_layer_entry env ctx dot_cokra dir (TTable []) True)))
           | Not_Found \<Rightarrow> Inr (Some (project_layer_entry env ctx dot_cokra dir (TTable []) False))
           | Read_Error e \<Rightarrow> Inl (''Failed to read project config file '' @ config_file @ '': '' @ e)))"

fun project_layers_loop ::
  "'a config_env \<Rightarrow> project_trust_context \<Rightarrow> string \<Rightarrow> string list \<Rightarrow> config_layer_entry list
     \<Rightarrow> string + config_layer_entry list" where
  "project_layers_loop env ctx home [] layers = Inr layers"
| "project_layers_loop env ctx home (dir # dirs) layers =
     (case project_layer_of env ctx home dir of
        Inl e \<Rightarrow> Inl e
      | Inr None \<Rightarrow> project_layers_loop env ctx home dirs layers
      | Inr (Some layer) \<Rightarrow> project_layers_loop env ctx home dirs (layers @ [layer]))"

text \<open>The directories from the working directory up to the project root.\<close>

fun up_to_root :: "string \<Rightarrow> string list \<Rightarrow> string list" where
  "up_to_root project_root [] = []"
| "up_to_root project_root (ancestor # as) =
     ancestor # (if same_path ancestor project_root then [] else up_to_root project_root as)"

definition project_dirs :: "string \<Rightarrow> string \<Rightarrow> string list" where
  "project_dirs cwd project_root = rev (up_to_root project_root (path_ancestors cwd))"

definition load_project_layers ::
  "'a config_env \<Rightarrow> string \<Rightarrow> string \<Rightarrow> project_trust_context \<Rightarrow> string \<Rightarrow> string + config_layer_entry list" where
  "load_project_layers env cwd project_root ctx cokra_home =
     project_layers_loop env ctx (canonicalize_or env cokra_home) (project_dirs cwd project_root) []"

definition system_config_toml_file :: string where
  "system_config_toml_file = ''/etc/cokra/config.toml''"

record config_loader =
  cl_global_dir :: string
  cl_cwd :: "string option"

definition resolve_cwd :: "'a config_env \<Rightarrow> config_loader \<Rightarrow> string + string" where
  "resolve_cwd env loader =
     (case cl_cwd loader of Some p \<Rightarrow> ce_canonicalize env p | None \<Rightarrow> ce_current_dir env)"

text \<open>The layers that do not come from the project, and what they say together with the
  overrides.\<close>

definition base_layers :: "'a config_env \<Rightarrow> config_loader \<Rightarrow> string + config_layer_entry list" where
  "base_layers env loader =
     (let user_file = path_join (cl_global_dir loader) ''config.toml''
      in case ce_default env of
           Inl e \<Rightarrow> Inl e
         | Inr default_cfg \<Rightarrow>
             (case load_required_toml_layer env system_config_toml_file
                     (new_layer (ce_finish env) (Layer_System system_config_toml_file)) of
                Inl e \<Rightarrow> Inl e
              | Inr system_layer \<Rightarrow>
                  (case load_required_toml_layer env user_file (new_layer (ce_finish env) (Layer_User user_file)) of
                     Inl e \<Rightarrow> Inl e
                   | Inr user_layer \<Rightarrow>
                       Inr [new_layer (ce_finish env) Layer_Default default_cfg, system_layer, user_layer])))"

definition session_flags_layer :: "'a config_env \<Rightarrow> (string \<times> string) list \<Rightarrow> toml_value option" where
  "session_flags_layer env cli_overrides =
     (if cli_overrides = [] then None
      else Some (build_cli_overrides_layer (ce_parse_f64 env) cli_overrides))"

definition merged_so_far :: "config_layer_entry list \<Rightarrow> toml_value option \<Rightarrow> toml_value" where
  "merged_so_far layers flags =
     (let merged = foldl (\<lambda>merged layer. merge_toml_values merged (cl_config layer)) (TTable []) layers
      in case flags of None \<Rightarrow> merged | Some f \<Rightarrow> merge_toml_values merged f)"

definition trust_context_of :: "'a config_env \<Rightarrow> config_loader \<Rightarrow> string \<Rightarrow> toml_value \<Rightarrow> string + project_trust_context" where
  "trust_context_of env loader cwd merged =
     (case project_root_markers_from_config merged of
        Inl e \<Rightarrow> Inl e
      | Inr markers \<Rightarrow>
          project_trust_context_for env merged cwd
            (case markers of Some ms \<Rightarrow> ms | None \<Rightarrow> default_project_root_markers)
            (path_join (cl_global_dir loader) ''config.toml''))"

definition load_with_cli_overrides_and_stack ::
  "'a config_env \<Rightarrow> config_loader \<Rightarrow> (string \<times> string) list
     \<Rightarrow> string + 'a config_scheme \<times> config_layer_entry list" where
  "load_with_cli_overrides_and_stack env loader cli_overrides =
     (case resolve_cwd env loader of
        Inl e \<Rightarrow> Inl e
      | Inr resolved_cwd \<Rightarrow> (case base_layers env loader of
        Inl e \<Rightarrow> Inl e
      | Inr layers \<Rightarrow>
          (let flags = session_flags_layer env cli_overrides; merged = merged_so_far layers flags
           in case trust_context_of env loader resolved_cwd merged of
                Inl e \<Rightarrow> Inl e
              | Inr ctx \<Rightarrow> (case load_project_layers env resolved_cwd (pt_project_root ctx) ctx (cl_global_dir loader) of
                Inl e \<Rightarrow> Inl e
              | Inr project_layers \<Rightarrow>
                  (let stack = layers @ project_layers @
                         (case flags of None \<Rightarrow> [] | Some f \<Rightarrow> [new_layer (ce_finish env) Layer_SessionFlags f])
                   in case ce_try_into env (effective_config stack) of
                        Inl e \<Rightarrow> Inl e
                      | Inr cfg \<Rightarrow> Inr (cfg\<lparr>cfg_cwd := resolved_cwd\<rparr>, stack))))))"

definition load_with_cli_overrides ::
  "'a config_env \<Rightarrow> config_loader \<Rightarrow> (string \<times> string) list \<Rightarrow> string + 'a config_scheme" where
  "load_with_cli_overrides env loader cli_overrides =
     (case load_with_cli_overrides_and_stack env loader cli_overrides of
        Inl e \<Rightarrow> Inl e
      | Inr (cfg, stack) \<Rightarrow> Inr (cfg\<lparr>cfg_config_layer_stack := Some stack\<rparr>))"

end
