(* ===== verification/ConfigTrust.thy ===== *)
theory ConfigTrust
  imports ConfigLoader
begin

text \<open>
  What the loader promises: the order of the layers, and that a project which nobody outside it
  has marked as trusted has no influence on the configuration.
\<close>

section \<open>The layers that are loaded\<close>

lemma cl_source_new [simp]:
  "cl_source (new_layer f s c) = s" "cl_config (new_layer f s c) = c" "is_enabled (new_layer f s c)"
  "cl_source (new_disabled_layer f s c r) = s" "cl_config (new_disabled_layer f s c r) = c"
  "\<not> is_enabled (new_disabled_layer f s c r)"
  by (simp_all add: new_layer_def new_disabled_layer_def is_enabled_def)

definition project_layer_ok :: "project_trust_context \<Rightarrow> string list \<Rightarrow> config_layer_entry \<Rightarrow> bool" where
  "project_layer_ok ctx dirs l \<longleftrightarrow>
     (\<exists>dir \<in> set dirs. cl_source l = Layer_Project (path_join dir ''.cokra'')
        \<and> (is_enabled l \<longrightarrow> cl_config l = TTable [] \<or> is_trusted (decision_for_dir ctx dir)))"

lemma project_layer_of_ok:
  "project_layer_of env ctx home dir = Inr (Some l) \<Longrightarrow> project_layer_ok ctx [dir] l"
  by (auto simp: project_layer_of_def project_layer_ok_def project_layer_entry_def Let_def disabled_reason_for_dir_def
      split: if_splits read_result.splits sum.splits option.splits)

lemma project_layers_loop_ok:
  "project_layers_loop env ctx home dirs layers = Inr out \<Longrightarrow>
     \<exists>new. out = layers @ new \<and> (\<forall>l \<in> set new. project_layer_ok ctx dirs l)"
proof (induction dirs arbitrary: layers)
  case (Cons dir dirs)
  from Cons.prems show ?case
  proof (cases "project_layer_of env ctx home dir")
    case (Inr r)
    show ?thesis
    proof (cases r)
      case None
      with Cons Inr show ?thesis by (fastforce simp: project_layer_ok_def)
    next
      case (Some l)
      with Cons Inr obtain new where "out = (layers @ [l]) @ new" "\<forall>l \<in> set new. project_layer_ok ctx dirs l"
        by fastforce
      with project_layer_of_ok [of env ctx home dir l] Inr Some show ?thesis
        by (intro exI [of _ "l # new"]) (auto simp: project_layer_ok_def)
    qed
  qed simp
qed simp

lemma load_required_source:
  "load_required_toml_layer env file create = Inr l \<Longrightarrow> \<exists>c. l = create c"
  by (auto simp: load_required_toml_layer_def split: if_splits read_result.splits sum.splits)

lemma base_layers_shape:
  assumes "base_layers env loader = Inr layers"
  shows "\<exists>a b c user. layers = [new_layer (ce_finish env) Layer_Default a,
    new_layer (ce_finish env) (Layer_System system_config_toml_file) b, new_layer (ce_finish env) (Layer_User user) c]"
  using assms by (auto simp: base_layers_def Let_def split: sum.splits dest!: load_required_source)

text \<open>What a load that succeeds has done.\<close>

lemma load_shape:
  assumes "load_with_cli_overrides_and_stack env loader overrides = Inr (cfg, stack)"
  obtains cwd layers ctx projects where
    "resolve_cwd env loader = Inr cwd" "base_layers env loader = Inr layers"
    "trust_context_of env loader cwd (merged_so_far layers (session_flags_layer env overrides)) = Inr ctx"
    "\<forall>l \<in> set projects. project_layer_ok ctx (project_dirs cwd (pt_project_root ctx)) l"
    "stack = layers @ projects @ (case session_flags_layer env overrides of
        None \<Rightarrow> [] | Some f \<Rightarrow> [new_layer (ce_finish env) Layer_SessionFlags f])"
    "\<exists>cfg'. ce_try_into env (effective_config stack) = Inr cfg' \<and> cfg = cfg'\<lparr>cfg_cwd := cwd\<rparr>"
proof -
  obtain cwd layers ctx projects where
    "resolve_cwd env loader = Inr cwd" "base_layers env loader = Inr layers"
    "trust_context_of env loader cwd (merged_so_far layers (session_flags_layer env overrides)) = Inr ctx"
    and p: "load_project_layers env cwd (pt_project_root ctx) ctx (cl_global_dir loader) = Inr projects"
    and "stack = layers @ projects @ (case session_flags_layer env overrides of
        None \<Rightarrow> [] | Some f \<Rightarrow> [new_layer (ce_finish env) Layer_SessionFlags f])"
    "\<exists>cfg'. ce_try_into env (effective_config stack) = Inr cfg' \<and> cfg = cfg'\<lparr>cfg_cwd := cwd\<rparr>"
    using assms by (auto simp: load_with_cli_overrides_and_stack_def Let_def split: sum.splits)
  moreover from project_layers_loop_ok [OF p [unfolded load_project_layers_def]]
  have "\<forall>l \<in> set projects. project_layer_ok ctx (project_dirs cwd (pt_project_root ctx)) l" by simp
  ultimately show ?thesis using that by blast
qed

section \<open>Order\<close>

lemma project_layer_precedence: "project_layer_ok ctx dirs l \<Longrightarrow> precedence (cl_source l) = 25"
  by (auto simp: project_layer_ok_def)

lemma sorted_const: "\<forall>x \<in> set xs. f x = (c :: int) \<Longrightarrow> sorted (map f xs)"
  by (induction xs) auto

text \<open>The layers of a loaded configuration stand in the order of their precedence: the
  defaults, the system file, the user file, the projects, the command line.\<close>

theorem layers_by_precedence:
  assumes "load_with_cli_overrides_and_stack env loader overrides = Inr (cfg, stack)"
  shows "sorted (map (precedence \<circ> cl_source) stack) \<and> take 3 (map (precedence \<circ> cl_source) stack) = [0, 10, 20]"
proof -
  obtain layers ctx dirs projects where base: "base_layers env loader = Inr layers"
    and pr: "\<forall>l \<in> set projects. project_layer_ok ctx dirs l"
    and st: "stack = layers @ projects @ (case session_flags_layer env overrides of
        None \<Rightarrow> [] | Some f \<Rightarrow> [new_layer (ce_finish env) Layer_SessionFlags f])"
    by (rule load_shape [OF assms])
  have 25: "\<forall>l \<in> set projects. precedence (cl_source l) = 25" using pr project_layer_precedence by blast
  then have "sorted (map (precedence \<circ> cl_source) projects)" by (intro sorted_const) auto
  with 25 base_layers_shape [OF base] show ?thesis
    by (auto simp: st sorted_append split: option.splits)
qed

section \<open>Trust\<close>

definition is_project :: "config_layer_entry \<Rightarrow> bool" where
  "is_project l \<longleftrightarrow> (\<exists>f. cl_source l = Layer_Project f)"

lemma effective_append:
  "effective_config (xs @ ys) = foldl (\<lambda>merged layer. if is_enabled layer then merge_toml_values merged (cl_config layer) else merged)
     (effective_config xs) ys"
  by (simp add: effective_config_def)

lemma merge_empty: "merge_toml_values (TTable t) (TTable []) = TTable t"
  by simp

lemma merge_table: "\<exists>t. c = TTable t \<Longrightarrow> \<exists>t. m = TTable t \<Longrightarrow> \<exists>t. merge_toml_values m c = TTable t"
  by auto

definition silent :: "config_layer_entry \<Rightarrow> bool" where
  "silent l \<longleftrightarrow> (is_enabled l \<longrightarrow> cl_config l = TTable [])"

text \<open>Dropping layers that say nothing does not change the effective configuration, as long as
  what is below them is a table.\<close>

lemma foldl_silent:
  assumes "\<forall>l \<in> set ys. silent l"
  shows "foldl (\<lambda>merged layer. if is_enabled layer then merge_toml_values merged (cl_config layer) else merged)
     (TTable t) ys = TTable t"
  using assms by (induction ys) (auto simp: silent_def)


section \<open>Reading the layers from above\<close>

definition project_at :: "string \<Rightarrow> int \<Rightarrow> config_layer_entry" where
  "project_at dir n = \<lparr>cl_source = Layer_Project dir, cl_config = TTable [(''n'', TInteger n)],
     cl_disabled_reason = None, cl_version = []\<rparr>"

text \<open>Reading the layers from above does not give the order in which they win: the layers of
  two nested projects have the same precedence, the sort is stable, and the outer project,
  which loses, is listed before the inner one, which wins.\<close>

theorem nested_projects_listed_backwards:
  "layers_high_to_low [project_at outer 1, project_at inner 2] = [project_at outer 1, project_at inner 2]
   \<and> node_at (effective_config [project_at outer 1, project_at inner 2]) [''n''] = Some (Leaf (TInteger 2))"
  by (simp add: layers_high_to_low_def project_at_def effective_config_def is_enabled_def)

section \<open>The properties at work\<close>

text \<open>A user without a configuration in a project that marks itself as trusted.\<close>

definition demo_project :: toml_value where
  "demo_project = TTable [(''approval'', TString ''never''), (''projects'', TTable [(''/w/p'', TString ''trusted'')])]"

definition demo_into :: "toml_value \<Rightarrow> string + config" where
  "demo_into v = Inr \<lparr>cfg_projects =
       (case v of TTable t \<Rightarrow>
          (case hm_get t ''projects'' of
             Some (TTable ps) \<Rightarrow> map (\<lambda>(k, l). (k, if l = TString ''trusted'' then Some Trusted else None)) ps
           | _ \<Rightarrow> [])
        | _ \<Rightarrow> []),
     cfg_cwd = [], cfg_config_layer_stack = None\<rparr>"

definition demo_env :: "unit config_env" where
  "demo_env = \<lparr>
     ce_read_to_string = (\<lambda>f. if f = ''/w/p/.cokra/config.toml'' then Contents ''project'' else Not_Found),
     ce_is_dir = (\<lambda>f. if f \<in> {''/w/p/.git'', ''/w/p/.cokra'', ''/w/p''} then Some True else None),
     ce_canonicalize = Inr, ce_current_dir = Inr ''/w/p'', ce_git_common_dir = (\<lambda>_. Some ''.git''),
     ce_from_str = (\<lambda>_. Inr demo_project),
     ce_default = Inr (TTable [(''approval'', TString ''ask'')]), ce_try_into = demo_into,
     ce_parse_f64 = (\<lambda>_. None), ce_finish = (\<lambda>_. [])\<rparr>"

definition demo_loader :: config_loader where
  "demo_loader = \<lparr>cl_global_dir = ''/home/u/.cokra'', cl_cwd = None\<rparr>"

definition demo_load :: "(string \<times> string) list \<Rightarrow> string + config \<times> config_layer_entry list" where
  "demo_load = load_with_cli_overrides_and_stack demo_env demo_loader"

theorem layers_by_precedence_witness:
  "\<exists>cfg stack. demo_load [(''n'', ''1'')] = Inr (cfg, stack) \<and> length stack = 5
     \<and> sorted (map (precedence \<circ> cl_source) stack)"
proof -
  have "case demo_load [(''n'', ''1'')] of Inr (cfg, stack) \<Rightarrow> length stack = 5 | Inl _ \<Rightarrow> False" by code_simp
  then obtain cfg stack where "demo_load [(''n'', ''1'')] = Inr (cfg, stack)" "length stack = 5"
    by (auto split: sum.splits)
  with layers_by_precedence [of demo_env demo_loader "[(''n'', ''1'')]" cfg stack] show ?thesis
    by (auto simp: demo_load_def)
qed


section \<open>The type of a configuration\<close>

text \<open>
  The type of a configuration: every layer that the loader makes, and their merge, is a table without
  repeated keys, at every depth, if the TOML parser gives such tables. What is known of the effective
  configuration of such layers then holds of every load.
\<close>

definition typed_table :: "toml_value \<Rightarrow> bool" where
  "typed_table v \<longleftrightarrow> wf_toml v \<and> (\<exists>t. v = TTable t)"

lemma wf_merge:
  "wf_toml base \<Longrightarrow> wf_toml overlay \<Longrightarrow> wf_toml (merge_toml_values base overlay)"
  "wf_toml (TTable entries) \<Longrightarrow> \<forall>(k, v) \<in> set over. wf_toml v \<Longrightarrow> wf_toml (TTable (merge_entries entries over))"
proof (induction base overlay and entries over rule: merge_toml_values_merge_entries.induct)
  case (4 base_tbl k v_overlay overlay_tbl)
  have "wf_toml (case hm_get base_tbl k of Some v_base \<Rightarrow> merge_toml_values v_base v_overlay | None \<Rightarrow> v_overlay)"
    using 4(1,3,4) wf_toml_get [OF 4(3)] by (auto split: option.split)
  from wf_toml_insert [OF 4(3) this] show ?case using 4(2,4) by simp
qed auto

lemma typed_merge: "typed_table base \<Longrightarrow> typed_table overlay \<Longrightarrow> typed_table (merge_toml_values base overlay)"
  using wf_merge(1) by (auto simp: typed_table_def simp del: wf_toml.simps)

lemma typed_empty: "typed_table (TTable [])"
  by (simp add: typed_table_def)

lemma typed_effective: "list_all (\<lambda>l. typed_table (cl_config l)) layers \<Longrightarrow> typed_table (effective_config layers)"
  by (induction layers rule: rev_induct) (auto simp: effective_config_def typed_empty typed_merge)

lemma typed_set: "typed_table root \<Longrightarrow> wf_toml v \<Longrightarrow> typed_table (set_dotted_key root key v)"
  using wf_set_segments [of root v "key_segments key"]
  by (cases "(key_segments key, v, root)" rule: set_segments.cases) (auto simp: typed_table_def set_dotted_key_def simp del: wf_toml.simps)

lemma typed_build: "typed_table (build_cli_overrides_layer f os)"
  by (induction os rule: rev_induct) (auto simp: build_cli_overrides_layer_def typed_empty wf_override intro!: typed_set)

lemma typed_required:
  assumes "\<And>s v. ce_from_str env s = Inr v \<Longrightarrow> typed_table v"
    and "load_required_toml_layer env file (new_layer finish source) = Inr l"
  shows "typed_table (cl_config l)"
  using assms by (auto simp: load_required_toml_layer_def new_layer_def typed_empty split: if_splits read_result.splits sum.splits)

lemma typed_project:
  assumes "\<And>s v. ce_from_str env s = Inr v \<Longrightarrow> typed_table v" and "project_layer_of env ctx home dir = Inr (Some l)"
  shows "typed_table (cl_config l)"
  using assms
  by (auto simp: project_layer_of_def project_layer_entry_def Let_def typed_empty new_layer_def new_disabled_layer_def
      split: if_splits read_result.splits sum.splits option.splits)

lemma typed_projects:
  assumes "\<And>s v. ce_from_str env s = Inr v \<Longrightarrow> typed_table v"
  shows "project_layers_loop env ctx home dirs layers = Inr out \<Longrightarrow> list_all (\<lambda>l. typed_table (cl_config l)) layers
    \<Longrightarrow> list_all (\<lambda>l. typed_table (cl_config l)) out"
proof (induction dirs arbitrary: layers)
  case (Cons dir dirs)
  show ?case
  proof (cases "project_layer_of env ctx home dir")
    case (Inr r)
    then show ?thesis
      using Cons.prems Cons.IH [of layers] Cons.IH [of "layers @ [the r]"] typed_project [where env = env and ctx = ctx and home = home and dir = dir and l = "the r", OF assms]
      by (cases r) simp_all
  qed (use Cons.prems in simp)
qed simp

text \<open>C40. The loader builds typed layers from a parser that gives tables without repeated keys, and what it
  loads is at every path what the highest enabled layer says.\<close>

theorem loaded_config_typed:
  assumes parsed: "\<And>s v. ce_from_str env s = Inr v \<Longrightarrow> typed_table v" and default: "\<And>v. ce_default env = Inr v \<Longrightarrow> typed_table v"
    and load: "load_with_cli_overrides_and_stack env loader overrides = Inr (cfg, stack)"
  shows "list_all (\<lambda>l. typed_table (cl_config l)) stack \<and> typed_table (effective_config stack)
    \<and> node_at (effective_config stack) p = resolve (rev (enabled_configs stack)) p"
proof -
  obtain layers ctx cwd projects where base: "base_layers env loader = Inr layers"
    and p: "project_layers_loop env ctx (canonicalize_or env (cl_global_dir loader)) (project_dirs cwd (pt_project_root ctx)) [] = Inr projects"
    and st: "stack = layers @ projects @ (case session_flags_layer env overrides of
        None \<Rightarrow> [] | Some f \<Rightarrow> [new_layer (ce_finish env) Layer_SessionFlags f])"
    using load by (auto simp: load_with_cli_overrides_and_stack_def load_project_layers_def Let_def split: sum.splits)
  have "list_all (\<lambda>l. typed_table (cl_config l)) layers"
    using base default typed_required [where env = env, OF parsed]
    by (auto simp: base_layers_def Let_def new_layer_def [of _ Layer_Default] split: sum.splits)
  moreover have "list_all (\<lambda>l. typed_table (cl_config l)) projects" using typed_projects [OF parsed p] by simp
  ultimately have all: "list_all (\<lambda>l. typed_table (cl_config l)) stack"
    by (auto simp: st session_flags_layer_def new_layer_def typed_build)
  then have "\<forall>l \<in> set stack. wf_toml (cl_config l)" by (auto simp: list_all_iff typed_table_def)
  from all typed_effective [OF all] node_effective [OF this] show ?thesis by blast
qed

theorem loaded_config_typed_witness:
  "\<exists>cfg stack. demo_load [(''n'', ''1'')] = Inr (cfg, stack) \<and> typed_table (effective_config stack)
     \<and> node_at (effective_config stack) [''n''] = resolve (rev (enabled_configs stack)) [''n'']"
proof -
  have "case demo_load [(''n'', ''1'')] of Inr (cfg, stack) \<Rightarrow> length stack = 5 | Inl _ \<Rightarrow> False" by code_simp
  then obtain cfg stack where load: "demo_load [(''n'', ''1'')] = Inr (cfg, stack)" by (auto split: sum.splits)
  have "typed_table demo_project" "typed_table (TTable [(''approval'', TString ''ask'')])"
    by (simp_all add: typed_table_def demo_project_def)
  then show ?thesis
    using loaded_config_typed [of demo_env demo_loader "[(''n'', ''1'')]" cfg stack "[''n'']"] load
    by (auto simp: demo_load_def demo_env_def)
qed

end
