(* ===== verification/RustFind.thy ===== *)
theory RustFind
  imports RustStr
begin

text \<open>
  Searching in texts: \<open>str::find\<close>, \<open>split_once\<close>, \<open>matches\<close> and \<open>replace\<close> with a pattern that is
  not empty, and the number of characters of a UTF-8 text.
\<close>

section \<open>The first occurrence\<close>

fun str_find :: "string \<Rightarrow> string \<Rightarrow> nat option" where
  "str_find p [] = (if p = [] then Some 0 else None)"
| "str_find p (c # s) = (if starts_with p (c # s) then Some 0 else map_option Suc (str_find p s))"

definition str_split_once :: "string \<Rightarrow> string \<Rightarrow> (string \<times> string) option" where
  "str_split_once p s = map_option (\<lambda>i. (take i s, drop (i + length p) s)) (str_find p s)"

lemma str_find_Some:
  "str_find p s = Some i \<longleftrightarrow> i \<le> length s \<and> starts_with p (drop i s) \<and> (\<forall>j < i. \<not> starts_with p (drop j s))"
proof (induction s arbitrary: i)
  case Nil
  show ?case by (auto simp: starts_with_iff)
next
  case (Cons c s)
  show ?case
  proof (cases i)
    case 0
    then show ?thesis by auto
  next
    case (Suc i')
    have "(\<forall>j < Suc i'. \<not> starts_with p (drop j (c # s))) \<longleftrightarrow>
        \<not> starts_with p (c # s) \<and> (\<forall>j < i'. \<not> starts_with p (drop j s))"
      by (auto simp: less_Suc_eq_0_disj)
    then show ?thesis using Cons.IH [of i'] by (auto simp: Suc)
  qed
qed

lemma str_find_None: "str_find p s = None \<longleftrightarrow> (\<forall>j \<le> length s. \<not> starts_with p (drop j s))"
proof (induction s)
  case (Cons c s)
  have "(\<forall>j \<le> length (c # s). \<not> starts_with p (drop j (c # s))) \<longleftrightarrow>
      \<not> starts_with p (c # s) \<and> (\<forall>j \<le> length s. \<not> starts_with p (drop j s))"
    by (metis Suc_le_mono drop0 drop_Suc_Cons length_Cons not0_implies_Suc le0)
  then show ?case using Cons by auto
qed (auto simp: starts_with_iff)

lemma split_once_None: "str_split_once p s = None \<longleftrightarrow> (\<forall>j \<le> length s. \<not> starts_with p (drop j s))"
  by (simp add: str_split_once_def str_find_None)

lemma split_once_Some:
  "str_split_once p s = Some (x, y) \<longleftrightarrow> s = x @ p @ y \<and> (\<forall>j < length x. \<not> starts_with p (drop j s))"
proof
  assume "str_split_once p s = Some (x, y)"
  then obtain i where i: "str_find p s = Some i" and x: "x = take i s" and y: "y = drop (i + length p) s"
    by (auto simp: str_split_once_def)
  then have "i \<le> length s" "starts_with p (drop i s)" "\<forall>j < i. \<not> starts_with p (drop j s)"
    by (simp_all add: str_find_Some)
  moreover then have "drop i s = p @ drop (i + length p) s"
    by (auto simp: starts_with_iff) (metis add.commute append_eq_conv_conj drop_drop)
  ultimately show "s = x @ p @ y \<and> (\<forall>j < length x. \<not> starts_with p (drop j s))"
    using x y by (metis append_take_drop_id length_take min.absorb2)
next
  assume "s = x @ p @ y \<and> (\<forall>j < length x. \<not> starts_with p (drop j s))"
  then have "str_find p s = Some (length x)" by (auto simp: str_find_Some starts_with_iff)
  with \<open>s = x @ p @ y \<and> _\<close> show "str_split_once p s = Some (x, y)" by (simp add: str_split_once_def)
qed

lemma split_once_lengths: "str_split_once p s = Some (x, y) \<Longrightarrow> length s = length x + length p + length y"
  by (simp add: split_once_Some)

lemma split_once_shorter: "str_split_once p s = Some (x, y) \<Longrightarrow> p \<noteq> [] \<Longrightarrow> length y < length s"
  using split_once_lengths [of p s x y] by simp

lemma starts_with_drop_append:
  "j + length p \<le> length a \<Longrightarrow> starts_with p (drop j (a @ b)) \<longleftrightarrow> starts_with p (drop j a)"
  by (simp add: starts_with_def)

text \<open>Text that is added behind the first occurrence does not change it; text before it that
  holds no start of an occurrence is passed over.\<close>

lemma split_once_append:
  assumes "str_split_once p a = Some (x, y)"
  shows "str_split_once p (a @ b) = Some (x, y @ b)"
proof -
  have a: "a = x @ p @ y" and no: "\<forall>j < length x. \<not> starts_with p (drop j a)"
    using assms unfolding split_once_Some by blast+
  have "\<not> starts_with p (drop j (a @ b))" if "j < length x" for j
    using starts_with_drop_append [of j p a b] no that a by simp
  then show ?thesis using a by (simp add: split_once_Some)
qed

lemma ends_with_tail: "length q \<le> length c \<Longrightarrow> ends_with q (z @ c) \<longleftrightarrow> ends_with q c"
  by (simp add: ends_with_def)

lemma split_once_skip:
  assumes "p \<noteq> []" and "\<forall>j < length a. \<not> starts_with p (drop j (a @ c))"
  shows "str_split_once p (a @ c) = map_option (\<lambda>(x, y). (a @ x, y)) (str_split_once p c)"
  using assms(2)
proof (induction a)
  case Nil
  show ?case by (cases "str_split_once p c") auto
next
  case (Cons d a)
  have "\<not> starts_with p ((d # a) @ c)" using Cons.prems by (metis drop0 length_greater_0_conv list.distinct(1))
  then have "str_find p ((d # a) @ c) = map_option Suc (str_find p (a @ c))" by simp
  moreover have "\<forall>j < length a. \<not> starts_with p (drop j (a @ c))" using Cons.prems by auto
  ultimately show ?case
    using Cons.IH by (auto simp: str_split_once_def option.map_comp o_def)
      (auto simp: map_option_case split: option.splits)
qed

section \<open>The part of a text that may be the start of an occurrence\<close>

definition suffix_len_matching_prefix :: "string \<Rightarrow> string \<Rightarrow> nat" where
  "suffix_len_matching_prefix haystack needle =
     (case find (\<lambda>len. ends_with (take len needle) haystack)
        (rev [1..<Suc (min (length needle - 1) (length haystack))]) of
        Some len \<Rightarrow> len
      | None \<Rightarrow> 0)"

lemma find_rev_upt_Some:
  "find P (rev [1..<n]) = Some l \<Longrightarrow> P l \<and> 1 \<le> l \<and> l < n \<and> (\<forall>m. l < m \<and> m < n \<longrightarrow> \<not> P m)"
  by (induction n) (auto split: if_splits simp: less_Suc_eq)

lemma find_rev_upt_None: "find P (rev [1..<n]) = None \<Longrightarrow> 1 \<le> m \<Longrightarrow> m < n \<Longrightarrow> \<not> P m"
  by (auto simp: find_None_iff)

lemma suffix_len:
  assumes "p \<noteq> []"
  shows "ends_with (take (suffix_len_matching_prefix s p) p) s"
    and "suffix_len_matching_prefix s p < length p" "suffix_len_matching_prefix s p \<le> length s"
    and "m < length p \<Longrightarrow> m \<le> length s \<Longrightarrow> ends_with (take m p) s \<Longrightarrow> m \<le> suffix_len_matching_prefix s p"
proof -
  let ?n = "Suc (min (length p - 1) (length s))" and ?P = "\<lambda>len. ends_with (take len p) s"
  have "?P (suffix_len_matching_prefix s p) \<and> suffix_len_matching_prefix s p < ?n
    \<and> (\<forall>m. suffix_len_matching_prefix s p < m \<and> m < ?n \<longrightarrow> \<not> ?P m)"
  proof (cases "find ?P (rev [1..<?n])")
    case None
    then show ?thesis
      using find_rev_upt_None [OF None] by (auto simp: suffix_len_matching_prefix_def ends_with_iff)
  next
    case (Some l)
    then show ?thesis using find_rev_upt_Some [OF Some] by (auto simp: suffix_len_matching_prefix_def)
  qed
  moreover have "k < ?n \<longleftrightarrow> k < length p \<and> k \<le> length s" for k
    using assms by (cases p) (auto simp: less_Suc_eq_le)
  ultimately show "ends_with (take (suffix_len_matching_prefix s p) p) s"
    "suffix_len_matching_prefix s p < length p" "suffix_len_matching_prefix s p \<le> length s"
    "m < length p \<Longrightarrow> m \<le> length s \<Longrightarrow> ends_with (take m p) s \<Longrightarrow> m \<le> suffix_len_matching_prefix s p"
    by (meson not_less)+
qed

text \<open>Keeping that part is enough: no occurrence, nor the start of one that later text
  completes, lies before it.\<close>

lemma no_start_before:
  assumes "p \<noteq> []" and "str_split_once p a = None" and "j < length a - suffix_len_matching_prefix a p"
  shows "\<not> starts_with p (drop j (a @ b))"
proof
  assume st: "starts_with p (drop j (a @ b))"
  show False
  proof (cases "j + length p \<le> length a")
    case True
    then show False using st starts_with_drop_append [of j p a b] assms(2) by (simp add: split_once_None)
  next
    case False
    let ?m = "length a - j"
    have "p = take (length p) (drop j a @ drop (j - length a) b)" using st by (simp add: starts_with_def)
    then have "take ?m p = drop j a" using False by (metis append_eq_conv_conj assms(3) length_drop less_diff_conv
          less_or_eq_imp_le nat_le_linear take_all take_take min_def add.commute le_diff_conv)
    then have "ends_with (take ?m p) a" by (metis append_take_drop_id ends_with_iff)
    then have "?m \<le> suffix_len_matching_prefix a p" using suffix_len(4) [OF assms(1)] False assms(3) by simp
    then show False using assms(3) by simp
  qed
qed

definition kept :: "string \<Rightarrow> string \<Rightarrow> string" where
  "kept p s = drop (length s - suffix_len_matching_prefix s p) s"

definition passed :: "string \<Rightarrow> string \<Rightarrow> string" where
  "passed p s = take (length s - suffix_len_matching_prefix s p) s"

lemma passed_kept [simp]: "passed p s @ kept p s = s"
  by (simp add: passed_def kept_def)

lemma split_once_kept:
  assumes "p \<noteq> []" and "str_split_once p a = None"
  shows "str_split_once p (a @ b) = map_option (\<lambda>(x, y). (passed p a @ x, y)) (str_split_once p (kept p a @ b))"
proof -
  have "\<forall>j < length (passed p a). \<not> starts_with p (drop j (passed p a @ kept p a @ b))"
    using no_start_before [OF assms, of _ b] by (simp add: passed_def kept_def flip: append.assoc)
  from split_once_skip [OF assms(1) this] show ?thesis by (simp flip: append.assoc)
qed

lemma kept_append:
  assumes p: "p \<noteq> []" and no: "str_split_once p a = None"
  shows "kept p (a @ b) = kept p (kept p a @ b)" "passed p (a @ b) = passed p a @ passed p (kept p a @ b)"
proof -
  let ?k = "suffix_len_matching_prefix"
  let ?c = "kept p a @ b"
  have len: "length ?c = ?k a p + length b" using suffix_len(3) [OF p, of a] by (simp add: kept_def)
  have ab: "a @ b = passed p a @ ?c" by (simp flip: append.assoc)
  have le: "?k ?c p \<le> ?k (a @ b) p"
  proof (rule suffix_len(4) [OF p suffix_len(2) [OF p]])
    show "?k ?c p \<le> length (a @ b)" using suffix_len(3) [OF p, of ?c] len suffix_len(3) [OF p, of a] by simp
    have "ends_with (take (?k ?c p) p) ?c" by (rule suffix_len(1) [OF p])
    then obtain r where "?c = r @ take (?k ?c p) p" unfolding ends_with_iff by blast
    then have "a @ b = (passed p a @ r) @ take (?k ?c p) p" using ab by (metis append.assoc)
    then show "ends_with (take (?k ?c p) p) (a @ b)" unfolding ends_with_iff by blast
  qed
  have "?k (a @ b) p \<le> length ?c"
  proof (rule ccontr)
    assume "\<not> ?k (a @ b) p \<le> length ?c"
    then have m: "?k (a @ b) p - length b > ?k a p" using len by simp
    let ?d = "drop (length (a @ b) - ?k (a @ b) p) a"
    have "take (?k (a @ b) p) p = drop (length (a @ b) - ?k (a @ b) p) (a @ b)"
      using suffix_len(1,2) [OF p, where s = "a @ b"] by (simp add: ends_with_def)
    also have "\<dots> = ?d @ b" using m by simp
    finally have "take (?k (a @ b) p - length b) (?d @ b) = take (?k (a @ b) p - length b) p"
      by (metis diff_le_self min.absorb1 take_take)
    moreover have "length ?d = ?k (a @ b) p - length b" using suffix_len(3) [OF p, of "a @ b"] m by simp
    ultimately have "take (?k (a @ b) p - length b) p = ?d" by (metis append_eq_conv_conj)
    then have "ends_with (take (?k (a @ b) p - length b) p) a" by (metis append_take_drop_id ends_with_iff)
    moreover have "?k (a @ b) p - length b < length p" "?k (a @ b) p - length b \<le> length a"
      using suffix_len(2,3) [OF p, of "a @ b"] by (simp_all add: less_imp_diff_less le_diff_conv)
    ultimately show False using suffix_len(4) [OF p, of "?k (a @ b) p - length b" a] m by simp
  qed
  moreover from this have "?k (a @ b) p \<le> ?k ?c p"
    using suffix_len(1-3) [OF p, of "a @ b"] suffix_len(4) [OF p, of "?k (a @ b) p" ?c]
      ends_with_tail [of "take (?k (a @ b) p) p" ?c "passed p a"]
    by (simp add: ab [symmetric])
  ultimately have k: "?k (a @ b) p = ?k ?c p" using le by simp
  have "length (a @ b) - ?k ?c p = length (passed p a) + (length ?c - ?k ?c p)"
    using suffix_len(3) [OF p, of ?c] arg_cong [OF ab, of length] by simp
  then show "kept p (a @ b) = kept p ?c" "passed p (a @ b) = passed p a @ passed p ?c"
    unfolding kept_def [of p "a @ b"] passed_def [of p "a @ b"] k
    by (simp_all only: ab drop_append take_append kept_def [of p ?c] passed_def [of p ?c]) simp_all
qed

section \<open>Numbers\<close>

definition USIZE_MAX :: nat where
  "USIZE_MAX = 2 ^ 64 - 1"

text \<open>\<open>chars().count()\<close>: the bytes that do not continue a character; \<open>usize::div_ceil\<close>.\<close>

definition char_count :: "string \<Rightarrow> nat" where
  "char_count s = length (filter (\<lambda>c. of_char c < (128 :: nat) \<or> of_char c \<ge> (192 :: nat)) s)"

definition div_ceil :: "nat \<Rightarrow> nat \<Rightarrow> nat" where
  "div_ceil a b = a div b + (if a mod b = 0 then 0 else 1)"

end
