(* ===== verification/TextCalls.thy ===== *)
theory TextCalls
  imports RustFind
begin

text \<open>
  Function calls that a model writes as text (\<open>core/src/turn/text_function_calls.rs\<close>): the
  parser of a whole answer, and the filter that hides the blocks of a streamed answer. A
  cursor into the text is the rest of the text. Rendering the arguments as JSON is a
  parameter.
\<close>

definition START_TAG :: string where
  "START_TAG = ''<function_calls>''"

definition END_TAG :: string where
  "END_TAG = ''</function_calls>''"

record function_call_event =
  fc_id :: string
  fc_call_type :: string
  fc_name :: string
  fc_arguments :: string
  fc_thought_signature :: "string option"

record parsed_text_function_calls =
  pt_visible_text :: string
  pt_calls :: "function_call_event list"

section \<open>Attributes and names\<close>

text \<open>The first position where \<open>P\<close> holds of the rest.\<close>

fun find_pos :: "(string \<Rightarrow> bool) \<Rightarrow> string \<Rightarrow> nat option" where
  "find_pos P [] = None"
| "find_pos P (c # s) = (if P (c # s) then Some 0 else map_option Suc (find_pos P s))"

definition at_whitespace :: "string \<Rightarrow> bool" where
  "at_whitespace s \<longleftrightarrow> leading_ws s \<noteq> None"

definition at_tag_end :: "string \<Rightarrow> bool" where
  "at_tag_end s \<longleftrightarrow> starts_with ''>'' s \<or> at_whitespace s"

definition cut_at :: "nat option \<Rightarrow> string \<Rightarrow> string" where
  "cut_at i s = (case i of Some n \<Rightarrow> take n s | None \<Rightarrow> s)"

definition is_ascii_alphanumeric :: "char \<Rightarrow> bool" where
  "is_ascii_alphanumeric c \<longleftrightarrow> is_ascii_digit c \<or> (CHR ''a'' \<le> c \<and> c \<le> CHR ''z'') \<or> (CHR ''A'' \<le> c \<and> c \<le> CHR ''Z'')"

definition sanitize_tool_name :: "string \<Rightarrow> string" where
  "sanitize_tool_name raw =
     (let s = trim raw; s = cut_at (str_find ''<'' s) s; s = cut_at (find_pos at_whitespace s) s
      in filter (\<lambda>ch. is_ascii_alphanumeric ch \<or> ch \<in> {CHR ''_'', CHR ''-'', CHR ''.''}) s)"

text \<open>The value behind \<open>key=\<close> and one kind of quote; without a closing quote up to the end of
  the tag or white space.\<close>

definition quoted_value :: "string \<Rightarrow> string \<Rightarrow> string \<Rightarrow> string option" where
  "quoted_value quote tag key =
     (case str_split_once (key @ ''='' @ quote) tag of
        None \<Rightarrow> None
      | Some (_, rest) \<Rightarrow>
          Some (case str_find quote rest of
              Some close \<Rightarrow> take close rest
            | None \<Rightarrow> cut_at (find_pos at_tag_end rest) rest))"

definition parse_attr_value :: "string \<Rightarrow> string \<Rightarrow> string option" where
  "parse_attr_value tag key =
     (case quoted_value [CHR 0x22] tag key of
        Some v \<Rightarrow> Some v
      | None \<Rightarrow> quoted_value [CHR 0x27] tag key)"

section \<open>Calls\<close>

text \<open>A tag that starts with the given text: what stands before it, the tag up to its \<open>>\<close>, and
  the rest. The first \<open>None\<close>: there is no such tag; the second: it does not end.\<close>

definition next_tag :: "string \<Rightarrow> string \<Rightarrow> (string \<times> string) option option" where
  "next_tag opening s =
     (case str_find opening s of
        None \<Rightarrow> None
      | Some rel \<Rightarrow>
          (let rest = drop rel s
           in Some (map_option (\<lambda>tag_end. (take (Suc tag_end) rest, drop (Suc tag_end) rest)) (str_find ''>'' rest))))"

lemma next_tag_shorter:
  assumes "next_tag opening s = Some (Some (tag, rest))"
  shows "length rest < length s"
proof -
  obtain rel te where rel: "str_find opening s = Some rel" and te: "str_find ''>'' (drop rel s) = Some te"
    and rest: "rest = drop (Suc te) (drop rel s)"
    using assms by (auto simp: next_tag_def Let_def split: option.splits)
  have "drop te (drop rel s) \<noteq> []" using te by (auto simp: str_find_Some starts_with_iff)
  then show ?thesis by (simp add: rest)
qed

function parse_parameters_from :: "string \<Rightarrow> (string \<times> string) list \<Rightarrow> (string \<times> string) list" where
  "parse_parameters_from body args =
     (case next_tag ''<parameter'' body of
        Some (Some (tag, rest)) \<Rightarrow>
          (let name = (case parse_attr_value tag ''name'' of Some n \<Rightarrow> n | None \<Rightarrow> [])
           in if name = [] then parse_parameters_from rest args
              else (case str_split_once ''</parameter>'' rest of
                  None \<Rightarrow> args
                | Some (value', rest') \<Rightarrow> parse_parameters_from rest' (hm_insert name (trim value') args)))
      | _ \<Rightarrow> args)"
  by pat_completeness auto
termination
  by (relation "measure (length \<circ> fst)") (auto dest!: next_tag_shorter split_once_lengths)

definition parse_parameters :: "string \<Rightarrow> (string \<times> string) list" where
  "parse_parameters body = parse_parameters_from body []"

definition rename_key :: "string \<Rightarrow> string \<Rightarrow> (string \<times> string) list \<Rightarrow> (string \<times> string) list" where
  "rename_key key alias raw =
     (if hm_get raw key = None
      then (case hm_get raw alias of None \<Rightarrow> raw | Some v \<Rightarrow> hm_insert key v (hm_remove alias raw))
      else raw)"

definition map_args_for_tool :: "string \<Rightarrow> (string \<times> string) list \<Rightarrow> (string \<times> string) list" where
  "map_args_for_tool tool_name raw =
     (if tool_name = ''spawn_agent'' then rename_key ''nickname'' ''name'' (rename_key ''task'' ''initial_task'' raw)
      else if tool_name = ''send_input'' then rename_key ''message'' ''input'' (rename_key ''agent_id'' ''agent'' raw)
      else if tool_name = ''close_agent'' then rename_key ''agent_id'' ''agent'' raw
      else if tool_name = ''wait'' then rename_key ''agent_ids'' ''agents'' raw
      else raw)"

definition text_call :: "((string \<times> string) list \<Rightarrow> string option) \<Rightarrow> nat \<Rightarrow> string \<Rightarrow> string \<Rightarrow> function_call_event" where
  "text_call to_json call_seq tool_name body =
     \<lparr>fc_id = ''text_call_'' @ show_nat call_seq, fc_call_type = ''function'', fc_name = tool_name,
      fc_arguments = (case to_json (map_args_for_tool tool_name (parse_parameters body)) of Some s \<Rightarrow> s | None \<Rightarrow> ''{}''),
      fc_thought_signature = None\<rparr>"

function parse_invoke_block ::
  "((string \<times> string) list \<Rightarrow> string option) \<Rightarrow> string \<Rightarrow> nat \<times> function_call_event list
     \<Rightarrow> nat \<times> function_call_event list" where
  "parse_invoke_block to_json block (call_seq, out) =
     (case next_tag ''<invoke'' block of
        Some (Some (invoke_tag, rest)) \<Rightarrow>
          (let tool_name = sanitize_tool_name (case parse_attr_value invoke_tag ''name'' of Some n \<Rightarrow> n | None \<Rightarrow> [])
           in if tool_name = [] then parse_invoke_block to_json rest (call_seq, out)
              else (case str_split_once ''</invoke>'' rest of
                  None \<Rightarrow> (call_seq, out)
                | Some (body, rest') \<Rightarrow>
                    parse_invoke_block to_json rest' (Suc call_seq, out @ [text_call to_json (Suc call_seq) tool_name body])))
      | _ \<Rightarrow> (call_seq, out))"
  by pat_completeness auto
termination
  by (relation "measure (\<lambda>(_, block, _). length block)") (auto dest!: next_tag_shorter split_once_lengths)

declare parse_parameters_from.simps [simp del] parse_invoke_block.simps [simp del]

section \<open>A whole answer\<close>

function parse_text_from ::
  "((string \<times> string) list \<Rightarrow> string option) \<Rightarrow> string \<Rightarrow> string \<Rightarrow> nat \<times> function_call_event list
     \<Rightarrow> parsed_text_function_calls" where
  "parse_text_from to_json input visible_text (call_seq, calls) =
     (case str_split_once START_TAG input of
        None \<Rightarrow> \<lparr>pt_visible_text = visible_text @ input, pt_calls = calls\<rparr>
      | Some (before, after) \<Rightarrow>
          (case str_split_once END_TAG after of
             None \<Rightarrow> \<lparr>pt_visible_text = visible_text @ before @ START_TAG @ after, pt_calls = calls\<rparr>
           | Some (block, rest) \<Rightarrow>
               parse_text_from to_json rest (visible_text @ before) (parse_invoke_block to_json block (call_seq, calls))))"
  by pat_completeness auto
termination
  by (relation "measure (\<lambda>(_, input, _). length input)")
    (auto dest!: split_once_lengths simp: START_TAG_def END_TAG_def)

declare parse_text_from.simps [simp del]

definition parse_text_function_calls ::
  "((string \<times> string) list \<Rightarrow> string option) \<Rightarrow> string \<Rightarrow> parsed_text_function_calls" where
  "parse_text_function_calls to_json input = parse_text_from to_json input [] (0, [])"

section \<open>The filter of a stream\<close>

record function_calls_text_filter =
  ff_in_block :: bool
  ff_buffer :: string

definition new_filter :: function_calls_text_filter where
  "new_filter = \<lparr>ff_in_block = False, ff_buffer = []\<rparr>"

function filter_loop :: "function_calls_text_filter \<Rightarrow> string \<Rightarrow> function_calls_text_filter \<times> string" where
  "filter_loop st emitted =
     (if \<not> ff_in_block st
      then (case str_split_once START_TAG (ff_buffer st) of
          Some (before, rest) \<Rightarrow> filter_loop \<lparr>ff_in_block = True, ff_buffer = rest\<rparr> (emitted @ before)
        | None \<Rightarrow>
            (let emit_end = length (ff_buffer st) - suffix_len_matching_prefix (ff_buffer st) START_TAG
             in (st\<lparr>ff_buffer := drop emit_end (ff_buffer st)\<rparr>, emitted @ take emit_end (ff_buffer st))))
      else (case str_split_once END_TAG (ff_buffer st) of
          Some (_, rest) \<Rightarrow> filter_loop \<lparr>ff_in_block = False, ff_buffer = rest\<rparr> emitted
        | None \<Rightarrow>
            (let keep = suffix_len_matching_prefix (ff_buffer st) END_TAG
             in (if keep < length (ff_buffer st)
                 then st\<lparr>ff_buffer := drop (length (ff_buffer st) - keep) (ff_buffer st)\<rparr> else st, emitted))))"
  by pat_completeness auto
termination
  by (relation "measure (\<lambda>(st, _). length (ff_buffer st))")
    (auto dest!: split_once_lengths simp: START_TAG_def END_TAG_def)

declare filter_loop.simps [simp del]

definition filter_visible :: "string \<Rightarrow> function_calls_text_filter \<Rightarrow> function_calls_text_filter \<times> string" where
  "filter_visible delta st =
     (if delta = [] then (st, []) else filter_loop (st\<lparr>ff_buffer := ff_buffer st @ delta\<rparr>) [])"

text \<open>The filter over the deltas of a stream, in order.\<close>

fun filter_stream :: "string list \<Rightarrow> function_calls_text_filter \<Rightarrow> function_calls_text_filter \<times> string" where
  "filter_stream [] st = (st, [])"
| "filter_stream (d # ds) st =
     (let (st1, e1) = filter_visible d st; (st2, e2) = filter_stream ds st1 in (st2, e1 @ e2))"

end
