(* ===== verification/TextFilter.thy ===== *)
theory TextFilter
  imports TextCalls
begin

text \<open>
  The filter of a stream shows the same text however the stream is cut into deltas, and what it
  shows is what the parser of the whole answer shows, up to the part it still holds back.
\<close>

section \<open>One step of the filter\<close>

abbreviation flt :: "bool \<Rightarrow> string \<Rightarrow> function_calls_text_filter" where
  "flt inside buf \<equiv> \<lparr>ff_in_block = inside, ff_buffer = buf\<rparr>"

lemma tags_nonempty [simp]: "START_TAG \<noteq> []" "END_TAG \<noteq> []"
  by (simp_all add: START_TAG_def END_TAG_def)

lemma filter_outside:
  "filter_loop (flt False buf) emitted =
     (case str_split_once START_TAG buf of
        Some (before, rest) \<Rightarrow> filter_loop (flt True rest) (emitted @ before)
      | None \<Rightarrow> (flt False (kept START_TAG buf), emitted @ passed START_TAG buf))"
  by (subst filter_loop.simps) (auto simp: kept_def passed_def Let_def split: option.split)

lemma filter_inside:
  "filter_loop (flt True buf) emitted =
     (case str_split_once END_TAG buf of
        Some (_, rest) \<Rightarrow> filter_loop (flt False rest) emitted
      | None \<Rightarrow> (flt True (kept END_TAG buf), emitted))"
  using suffix_len(3) [OF tags_nonempty(2), of buf]
  by (subst filter_loop.simps) (auto simp: kept_def Let_def split: option.split)

lemma filter_induct [case_names outside inside]:
  assumes "\<And>buf em. (\<And>before rest. str_split_once START_TAG buf = Some (before, rest) \<Longrightarrow> P True rest (em @ before)) \<Longrightarrow> P False buf em"
    and "\<And>buf em. (\<And>block rest. str_split_once END_TAG buf = Some (block, rest) \<Longrightarrow> P False rest em) \<Longrightarrow> P True buf em"
  shows "P inside buf em"
proof (induction "length buf" arbitrary: inside buf em rule: less_induct)
  case (less buf inside em)
  show ?case
  proof (cases inside)
    case True
    have "P True buf em" by (rule assms(2), rule less) (auto dest: split_once_shorter)
    with True show ?thesis by simp
  next
    case False
    have "P False buf em" by (rule assms(1), rule less) (auto dest: split_once_shorter)
    with False show ?thesis by simp
  qed
qed

lemma filter_acc: "filter_loop (flt inside buf) (x @ em) = map_prod id ((@) x) (filter_loop (flt inside buf) em)"
  by (induction inside buf em rule: filter_induct) (auto simp: filter_outside filter_inside split: option.split)

lemma filter_append:
  "filter_loop (flt inside (buf @ d)) em =
     (case filter_loop (flt inside buf) em of
        (st, em') \<Rightarrow> filter_loop (st\<lparr>ff_buffer := ff_buffer st @ d\<rparr>) em')"
proof (induction inside buf em rule: filter_induct)
  case (outside buf em)
  show ?case
  proof (cases "str_split_once START_TAG buf")
    case None
    then show ?thesis
      using split_once_kept [OF tags_nonempty(1) None, of d] kept_append [OF tags_nonempty(1) None, of d]
      by (auto simp: filter_outside split: option.split)
  next
    case (Some r)
    then obtain before rest where r: "str_split_once START_TAG buf = Some (before, rest)" by (cases r) auto
    then show ?thesis using outside [OF r] split_once_append [OF r, of d] by (simp add: filter_outside)
  qed
next
  case (inside buf em)
  show ?case
  proof (cases "str_split_once END_TAG buf")
    case None
    then show ?thesis
      using split_once_kept [OF tags_nonempty(2) None, of d] kept_append [OF tags_nonempty(2) None, of d]
      by (auto simp: filter_inside split: option.split)
  next
    case (Some r)
    then obtain block rest where r: "str_split_once END_TAG buf = Some (block, rest)" by (cases r) auto
    then show ?thesis using inside [OF r] split_once_append [OF r, of d] by (simp add: filter_inside)
  qed
qed

section \<open>Streams\<close>

text \<open>A filter that has shown all that it can.\<close>

definition settled :: "function_calls_text_filter \<Rightarrow> bool" where
  "settled st \<longleftrightarrow> filter_loop st [] = (st, [])"

lemma settled_after: "filter_loop (flt inside buf) em = (st, em') \<Longrightarrow> settled st"
proof -
  assume loop: "filter_loop (flt inside buf) em = (st, em')"
  then have "filter_loop st em' = (st, em')" using filter_append [of inside buf "[]" em] by simp
  moreover have "filter_loop st em' = map_prod id ((@) em') (filter_loop st [])"
    using filter_acc [of "ff_in_block st" "ff_buffer st" em' "[]"] by (cases st) simp
  ultimately show "settled st" by (cases "filter_loop st []") (simp add: settled_def)
qed

lemma settled_new: "settled new_filter"
  unfolding settled_def by code_simp

lemma filter_visible_settled:
  assumes "settled st"
  shows "filter_visible d st = filter_loop (st\<lparr>ff_buffer := ff_buffer st @ d\<rparr>) []"
  using assms by (auto simp: filter_visible_def settled_def)

lemma filter_stream_settled:
  assumes "settled st"
  shows "filter_stream ds st = filter_loop (st\<lparr>ff_buffer := ff_buffer st @ concat ds\<rparr>) []"
  using assms
proof (induction ds arbitrary: st)
  case (Cons d ds)
  obtain st1 e1 where one: "filter_loop (flt (ff_in_block st) (ff_buffer st @ d)) [] = (st1, e1)" by fastforce
  have "filter_loop (flt (ff_in_block st) ((ff_buffer st @ d) @ concat ds)) []
      = filter_loop (st1\<lparr>ff_buffer := ff_buffer st1 @ concat ds\<rparr>) e1"
    unfolding filter_append [of _ "ff_buffer st @ d"] one by simp
  also have "\<dots> = map_prod id ((@) e1) (filter_loop (st1\<lparr>ff_buffer := ff_buffer st1 @ concat ds\<rparr>) [])"
    using filter_acc [of "ff_in_block st1" "ff_buffer st1 @ concat ds" e1 "[]"] by (cases st1) simp
  also have "filter_loop (st1\<lparr>ff_buffer := ff_buffer st1 @ concat ds\<rparr>) [] = filter_stream ds st1"
    by (rule Cons.IH [OF settled_after [OF one], symmetric])
  finally show ?case
    using filter_visible_settled [OF Cons.prems, of d] one
    by (cases "filter_stream ds st1"; cases st) simp
qed (simp add: settled_def)

text \<open>The filter does not see how a stream is cut: it shows the same text and ends in the
  same state as when the whole text arrives at once, even where a tag is spread over several
  deltas.\<close>

theorem filter_ignores_chunks:
  "filter_stream deltas new_filter = filter_visible (concat deltas) new_filter"
  by (simp add: filter_stream_settled [OF settled_new] filter_visible_settled [OF settled_new])

section \<open>The filter and the parser\<close>

lemma filter_parses:
  "filter_loop (flt False input) shown = (st, e) \<Longrightarrow>
     (\<not> ff_in_block st \<longrightarrow> pt_visible_text (parse_text_from js input shown calls) = e @ ff_buffer st) \<and>
     (ff_in_block st \<longrightarrow> (\<exists>block. pt_visible_text (parse_text_from js input shown calls) = e @ START_TAG @ block
        \<and> str_split_once END_TAG block = None))"
proof (induction js input shown calls rule: parse_text_from.induct)
  case (1 js input shown call_seq calls)
  show ?case
  proof (cases "str_split_once START_TAG input")
    case None
    then show ?thesis using 1(2) by (subst (1 2) parse_text_from.simps) (auto simp: filter_outside)
  next
    case (Some r)
    then obtain before after where r: "str_split_once START_TAG input = Some (before, after)" by (cases r) auto
    show ?thesis
    proof (cases "str_split_once END_TAG after")
      case None
      then show ?thesis using 1(2) r
        by (subst (1 2) parse_text_from.simps) (auto simp: filter_outside filter_inside)
    next
      case (Some q)
      then obtain block rest where q: "str_split_once END_TAG after = Some (block, rest)" by (cases q) auto
      then show ?thesis using 1(1) [OF r refl q refl] 1(2) r
        by (subst (1 2) parse_text_from.simps) (auto simp: filter_outside filter_inside)
    qed
  qed
qed

text \<open>C17. When the stream ends outside a block, the parser shows what the filter has shown and the
  text that it still holds back; when it ends inside a block, the parser shows the block that
  never ends as text, and the filter has shown what stands before it.\<close>

theorem filter_agrees_with_parser:
  assumes "filter_stream deltas new_filter = (st, shown)"
  shows "(\<not> ff_in_block st \<longrightarrow> pt_visible_text (parse_text_function_calls js (concat deltas)) = shown @ ff_buffer st)
    \<and> (ff_in_block st \<longrightarrow> (\<exists>block. pt_visible_text (parse_text_function_calls js (concat deltas)) = shown @ START_TAG @ block
        \<and> str_split_once END_TAG block = None))"
proof -
  have "filter_loop (flt False (concat deltas)) [] = (st, shown)"
    using assms unfolding filter_stream_settled [OF settled_new] by (simp add: new_filter_def)
  from filter_parses [OF this, of js "(0, [])"] show ?thesis
    unfolding parse_text_function_calls_def .
qed

text \<open>An answer that ends with the start of a tag loses it: nothing flushes the filter at the end
  of the stream.\<close>

theorem filter_keeps_the_end:
  "snd (filter_stream [''a <''] new_filter) = ''a ''
   \<and> pt_visible_text (parse_text_function_calls js ''a <'') = ''a <''"
proof
  show shown: "snd (filter_stream [''a <''] new_filter) = ''a ''" by code_simp
  have "filter_loop (flt False ''a <'') [] = (flt False ''<'', ''a '')" by code_simp
  from filter_parses [OF this, of js "(0, [])"]
  show "pt_visible_text (parse_text_function_calls js ''a <'') = ''a <''"
    by (simp add: parse_text_function_calls_def)
qed

section \<open>The properties at work\<close>

theorem filter_agrees_with_parser_witness:
  "pt_visible_text (parse_text_function_calls (\<lambda>_. None) ''hello <function_calls>x</function_calls> bye'') = ''hello  bye''"
proof -
  have "filter_stream [''hello <functi'', ''on_calls>x</function_'', ''calls> bye''] new_filter = (flt False [], ''hello  bye'')"
    by code_simp
  from filter_agrees_with_parser [OF this, of "\<lambda>_. None"] show ?thesis by simp
qed

end
