(* ===== verification/Compaction.thy ===== *)
theory Compaction
  imports RustFind PatchParser
begin

text \<open>
  The compaction of a conversation (\<open>core/src/compaction/mod.rs\<close>): the estimate of tokens, the
  search for a place where a history may be cut, the plan, the prompt and the new history.
  The model that writes the summary and the parser of serde_json are parameters.
\<close>

section \<open>Messages\<close>

record tool_call_function =
  tf_name :: string
  tf_arguments :: string

record model_tool_call =
  mt_id :: string
  mt_call_type :: string
  mt_function :: tool_call_function

datatype message =
    Msg_System string
  | Msg_User string
  | Msg_Assistant "string option" "model_tool_call list option"
  | Msg_Tool string string

fun msg_text :: "message \<Rightarrow> string option" where
  "msg_text (Msg_System s) = Some s"
| "msg_text (Msg_User s) = Some s"
| "msg_text (Msg_Assistant content _) = content"
| "msg_text (Msg_Tool _ content) = Some content"

definition is_system :: "message \<Rightarrow> bool" where
  "is_system m \<longleftrightarrow> (case m of Msg_System _ \<Rightarrow> True | _ \<Rightarrow> False)"

definition estimate_message_tokens :: "message \<Rightarrow> nat" where
  "estimate_message_tokens msg =
     (let text_len = (case msg_text msg of None \<Rightarrow> 0 | Some s \<Rightarrow> char_count s)
      in if text_len = 0 then 1 else div_ceil text_len 4)"

definition estimate_messages_tokens :: "message list \<Rightarrow> nat" where
  "estimate_messages_tokens messages = sum_list (map estimate_message_tokens messages)"

section \<open>Summaries\<close>

definition SUMMARY_MARKER :: string where
  "SUMMARY_MARKER = ''[cokra-summary-v1]''"

definition is_summary_message :: "message \<Rightarrow> bool" where
  "is_summary_message m \<longleftrightarrow> (case m of Msg_User t \<Rightarrow> starts_with SUMMARY_MARKER t | _ \<Rightarrow> False)"

definition extract_summary_text :: "message \<Rightarrow> string option" where
  "extract_summary_text m =
     (case m of
        Msg_User t \<Rightarrow>
          if starts_with SUMMARY_MARKER t
          then Some (trim (dropWhile (\<lambda>c. c = LF) (drop (length SUMMARY_MARKER) t)))
          else None
      | _ \<Rightarrow> None)"

definition make_summary_message :: "string \<Rightarrow> message" where
  "make_summary_message summary = Msg_User (SUMMARY_MARKER @ [LF] @ trim summary)"

definition position :: "('a \<Rightarrow> bool) \<Rightarrow> 'a list \<Rightarrow> nat option" where
  "position P xs = find (\<lambda>i. P (xs ! i)) [0..<length xs]"

definition first_non_system_index :: "message list \<Rightarrow> nat option" where
  "first_non_system_index history = position (\<lambda>m. \<not> is_system m) history"

section \<open>Where a history may be cut\<close>

text \<open>From the end: whether the history may start here, and the tool results that still wait for
  their call.\<close>

definition call_ids :: "message \<Rightarrow> string set" where
  "call_ids m = (case m of Msg_Assistant _ (Some calls) \<Rightarrow> mt_id ` set calls | _ \<Rightarrow> {})"

fun valid_from :: "message list \<Rightarrow> bool list \<times> string set" where
  "valid_from [] = ([True], {})"
| "valid_from (m # ms) =
     (let (valid, unresolved) = valid_from ms
      in case m of
           Msg_Tool tool_call_id _ \<Rightarrow> (False # valid, insert tool_call_id unresolved)
         | Msg_Assistant _ _ \<Rightarrow>
             (let u = unresolved - call_ids m in ((u = {}) # valid, u))
         | _ \<Rightarrow> ((unresolved = {}) # valid, unresolved))"

definition compute_valid_kept_boundaries :: "message list \<Rightarrow> nat \<Rightarrow> bool list" where
  "compute_valid_kept_boundaries history boundary_start =
     replicate boundary_start False @ fst (valid_from (drop boundary_start history))"

fun suffix_sums :: "message list \<Rightarrow> nat list" where
  "suffix_sums [] = [0]"
| "suffix_sums (m # ms) = (let sums = suffix_sums ms in (hd sums + estimate_message_tokens m) # sums)"

definition abs_diff :: "nat \<Rightarrow> nat \<Rightarrow> nat" where
  "abs_diff a b = (if a < b then b - a else a - b)"

text \<open>The loop over the boundaries: the best one so far, its distance from the budget, its tokens.\<close>

definition better_boundary :: "bool list \<Rightarrow> nat list \<Rightarrow> nat \<Rightarrow> nat option \<times> nat \<times> nat \<Rightarrow> nat \<Rightarrow> nat option \<times> nat \<times> nat" where
  "better_boundary valid suffix_tokens keep_recent_tokens best boundary =
     (let (best_boundary, best_distance, best_tail_tokens) = best
      in if \<not> valid ! boundary then best
         else (let tail_tokens = suffix_tokens ! boundary; distance = abs_diff tail_tokens keep_recent_tokens
               in if distance < best_distance \<or> distance = best_distance \<and> tail_tokens > best_tail_tokens
                  then (Some boundary, distance, tail_tokens)
                  else best))"

definition find_safe_tail_start_index :: "message list \<Rightarrow> nat \<Rightarrow> nat \<Rightarrow> bool \<Rightarrow> nat option" where
  "find_safe_tail_start_index history boundary_start keep_recent_tokens allow_boundary_start =
     (if boundary_start > length history then None
      else if boundary_start = length history then Some (length history)
      else
        (let valid_boundaries = compute_valid_kept_boundaries history boundary_start;
             min_boundary = (if allow_boundary_start then boundary_start else boundary_start + 1)
         in if min_boundary > length history then None
            else
              (let suffix_tokens = replicate boundary_start 0 @ suffix_sums (drop boundary_start history)
               in if allow_boundary_start \<and> suffix_tokens ! boundary_start \<le> keep_recent_tokens then Some boundary_start
                  else if \<not> allow_boundary_start \<and> suffix_tokens ! boundary_start \<le> keep_recent_tokens then None
                  else fst (foldl (better_boundary valid_boundaries suffix_tokens keep_recent_tokens)
                    (None, USIZE_MAX, 0) [min_boundary..<Suc (length history)]))))"

section \<open>The files that a conversation touched\<close>

datatype json =
    J_Null
  | J_Bool bool
  | J_Number string
  | J_String string
  | J_Array "json list"
  | J_Object "(string \<times> json) list"

definition json_get :: "json \<Rightarrow> string \<Rightarrow> json option" where
  "json_get v key = (case v of J_Object o' \<Rightarrow> hm_get o' key | _ \<Rightarrow> None)"

definition json_as_str :: "json \<Rightarrow> string option" where
  "json_as_str v = (case v of J_String s \<Rightarrow> Some s | _ \<Rightarrow> None)"

definition string_field :: "json \<Rightarrow> string \<Rightarrow> string option" where
  "string_field v key = (case json_get v key of None \<Rightarrow> None | Some f \<Rightarrow> json_as_str f)"

definition string_array_field :: "json \<Rightarrow> string \<Rightarrow> string list" where
  "string_array_field v key =
     (case json_get v key of Some (J_Array items) \<Rightarrow> List.map_filter json_as_str items | _ \<Rightarrow> [])"

text \<open>The three ordered sets of paths; a \<open>BTreeSet\<close> is the sorted list of its elements.\<close>

record compaction_file_ops =
  cf_read_files :: "string list"
  cf_modified_files :: "string list"
  cf_deleted_files :: "string list"

definition add_read :: "string \<Rightarrow> compaction_file_ops \<Rightarrow> compaction_file_ops" where
  "add_read path ops = ops\<lparr>cf_read_files := insort_insert path (cf_read_files ops)\<rparr>"

definition add_modified :: "string \<Rightarrow> compaction_file_ops \<Rightarrow> compaction_file_ops" where
  "add_modified path ops = ops\<lparr>cf_modified_files := insort_insert path (cf_modified_files ops)\<rparr>"

definition add_deleted :: "string \<Rightarrow> compaction_file_ops \<Rightarrow> compaction_file_ops" where
  "add_deleted path ops = ops\<lparr>cf_deleted_files := insort_insert path (cf_deleted_files ops)\<rparr>"

definition add_field :: "(string \<Rightarrow> compaction_file_ops \<Rightarrow> compaction_file_ops) \<Rightarrow> json \<Rightarrow> string
    \<Rightarrow> compaction_file_ops \<Rightarrow> compaction_file_ops" where
  "add_field add arguments key ops = (case string_field arguments key of None \<Rightarrow> ops | Some path \<Rightarrow> add path ops)"

fun add_hunk :: "hunk \<Rightarrow> compaction_file_ops \<Rightarrow> compaction_file_ops" where
  "add_hunk (AddFile path _) ops = add_modified path ops"
| "add_hunk (DeleteFile path) ops = add_deleted path ops"
| "add_hunk (UpdateFile path move_path _) ops =
     (let ops1 = add_modified path ops in case move_path of None \<Rightarrow> ops1 | Some dest \<Rightarrow> add_modified dest ops1)"

definition extract_file_ops_from_call ::
  "(string \<Rightarrow> json option) \<Rightarrow> model_tool_call \<Rightarrow> compaction_file_ops \<Rightarrow> compaction_file_ops" where
  "extract_file_ops_from_call from_str call ops =
     (case from_str (tf_arguments (mt_function call)) of
        None \<Rightarrow> ops
      | Some arguments \<Rightarrow>
          (let name = tf_name (mt_function call)
           in if name = ''read_file'' then add_field add_read arguments ''file_path'' ops
              else if name = ''read_many_files'' then fold add_read (string_array_field arguments ''paths'') ops
              else if name = ''view_image'' then add_field add_read arguments ''path'' ops
              else if name = ''write_file'' \<or> name = ''edit_file'' then add_field add_modified arguments ''file_path'' ops
              else if name = ''apply_patch''
              then (case string_field arguments ''patch'' of
                  None \<Rightarrow> ops
                | Some patch \<Rightarrow> (case parse_patch patch of
                    Inl _ \<Rightarrow> ops
                  | Inr parsed_patch \<Rightarrow> fold add_hunk (pp_hunks parsed_patch) ops))
              else ops))"

definition extract_file_ops :: "(string \<Rightarrow> json option) \<Rightarrow> message list \<Rightarrow> compaction_file_ops" where
  "extract_file_ops from_str messages =
     fold (\<lambda>m ops. case m of
         Msg_Assistant _ (Some calls) \<Rightarrow> fold (extract_file_ops_from_call from_str) calls ops
       | _ \<Rightarrow> ops) messages \<lparr>cf_read_files = [], cf_modified_files = [], cf_deleted_files = []\<rparr>"

section \<open>The plan\<close>

record compaction_settings =
  cs_enabled :: bool
  cs_reserve_tokens :: nat
  cs_keep_recent_tokens :: nat
  cs_max_summary_tokens :: nat
  cs_prompt_override :: "string option"

definition default_compaction_settings :: compaction_settings where
  "default_compaction_settings = \<lparr>cs_enabled = True, cs_reserve_tokens = 16000, cs_keep_recent_tokens = 32000,
     cs_max_summary_tokens = 2048, cs_prompt_override = None\<rparr>"

record compaction_plan =
  cp_first_kept_index :: nat
  cp_messages_to_summarize :: "message list"
  cp_kept_messages :: "message list"
  cp_previous_summary :: "string option"
  cp_file_ops :: compaction_file_ops
  cp_tokens_before_est :: nat
  cp_tokens_after_est :: nat

definition plain_messages :: "message list \<Rightarrow> message list" where
  "plain_messages ms = filter (\<lambda>m. \<not> is_system m \<and> \<not> is_summary_message m) ms"

definition last_summary_index :: "message list \<Rightarrow> nat \<Rightarrow> nat option" where
  "last_summary_index history first_non_system =
     find (\<lambda>i. is_summary_message (history ! i)) (rev [first_non_system..<length history])"

definition previous_summary_of :: "message list \<Rightarrow> nat option \<Rightarrow> string option" where
  "previous_summary_of history index =
     (case index of
        None \<Rightarrow> None
      | Some i \<Rightarrow> (case extract_summary_text (history ! i) of
          Some summary \<Rightarrow> if summary = [] then None else Some summary
        | None \<Rightarrow> None))"

definition prepare_compaction ::
  "(string \<Rightarrow> json option) \<Rightarrow> message list \<Rightarrow> compaction_settings \<Rightarrow> compaction_plan option" where
  "prepare_compaction from_str history settings =
     (if \<not> cs_enabled settings then None
      else (case first_non_system_index history of
        None \<Rightarrow> None
      | Some first_non_system \<Rightarrow>
          (let previous_summary_index = last_summary_index history first_non_system;
               previous_summary = previous_summary_of history previous_summary_index;
               boundary_start = (case previous_summary_index of None \<Rightarrow> first_non_system | Some i \<Rightarrow> i + 1)
           in if boundary_start \<ge> length history then None
              else (case find_safe_tail_start_index history boundary_start (cs_keep_recent_tokens settings) False of
                None \<Rightarrow> None
              | Some first_kept_index \<Rightarrow>
                  if first_kept_index \<le> boundary_start \<or> first_kept_index > length history then None
                  else
                    (let messages_to_summarize = plain_messages (drop boundary_start (take first_kept_index history))
                     in if messages_to_summarize = [] then None
                        else
                          (let kept_messages = plain_messages (drop first_kept_index history)
                           in Some \<lparr>cp_first_kept_index = first_kept_index,
                                cp_messages_to_summarize = messages_to_summarize,
                                cp_kept_messages = kept_messages,
                                cp_previous_summary = previous_summary,
                                cp_file_ops = extract_file_ops from_str messages_to_summarize,
                                cp_tokens_before_est = estimate_messages_tokens history,
                                cp_tokens_after_est = estimate_messages_tokens (filter is_system history)
                                  + cs_max_summary_tokens settings + estimate_messages_tokens kept_messages\<rparr>))))))"

section \<open>The prompt\<close>

definition SUMMARIZATION_SYSTEM_PROMPT :: string where
  "SUMMARIZATION_SYSTEM_PROMPT = ''You produce structured context checkpoint summaries for an agentic coding session. Do not continue the conversation. Preserve exact file paths, function names, requirements, and unresolved issues.''"

definition SUMMARIZATION_PROMPT :: string where
  "SUMMARIZATION_PROMPT = join [LF] [
     ''The messages above are a conversation to summarize. Create a structured context checkpoint summary that another LLM will use to continue the work.'',
     [],
     ''Use this EXACT format:'',
     [],
     ''## Goal'',
     ''[What the user is trying to accomplish]'',
     [],
     ''## Constraints'',
     ''- [Constraints, requirements, or preferences]'',
     ''- [(none) if there are no explicit constraints]'',
     [],
     ''## Progress'',
     ''### Done'',
     ''- [Completed work]'',
     [],
     ''### In Progress'',
     ''- [Current work]'',
     [],
     ''### Blocked'',
     ''- [Current blockers]'',
     [],
     ''## Next'',
     ''1. [Ordered next step]'',
     [],
     ''## Context'',
     ''- [Critical context needed to continue]'',
     ''- [Include file operations as '' @ [CHR 0x22] @ ''Files read: ...'' @ [CHR 0x22] @ '' and '' @ [CHR 0x22] @ ''Files modified: ...'' @ [CHR 0x22] @ '']'',
     [],
     ''Keep the summary concise, factual, and continuation-ready.'']"

definition UPDATE_SUMMARIZATION_PROMPT :: string where
  "UPDATE_SUMMARIZATION_PROMPT = join [LF] [
     ''The messages above are NEW conversation messages to incorporate into the existing summary provided in <previous-summary> tags.'',
     [],
     ''Update the structured summary while preserving important prior context.'',
     [],
     ''Rules:'',
     ''- Preserve still-relevant information from the previous summary.'',
     ''- Move completed work from In Progress to Done when appropriate.'',
     ''- Update Next so it reflects the latest state.'',
     ''- Preserve exact file paths, function names, requirements, and unresolved issues.'',
     [],
     ''Use this EXACT format:'',
     [],
     ''## Goal'',
     ''[What the user is trying to accomplish]'',
     [],
     ''## Constraints'',
     ''- [Constraints, requirements, or preferences]'',
     ''- [(none) if there are no explicit constraints]'',
     [],
     ''## Progress'',
     ''### Done'',
     ''- [Completed work]'',
     [],
     ''### In Progress'',
     ''- [Current work]'',
     [],
     ''### Blocked'',
     ''- [Current blockers]'',
     [],
     ''## Next'',
     ''1. [Ordered next step]'',
     [],
     ''## Context'',
     ''- [Critical context needed to continue]'',
     ''- [Include file operations as '' @ [CHR 0x22] @ ''Files read: ...'' @ [CHR 0x22] @ '' and '' @ [CHR 0x22] @ ''Files modified: ...'' @ [CHR 0x22] @ '']'',
     [],
     ''Keep the summary concise, factual, and continuation-ready.'']"

definition message_role :: "message \<Rightarrow> string" where
  "message_role m =
     (case m of
        Msg_System _ \<Rightarrow> ''system''
      | Msg_User _ \<Rightarrow> ''user''
      | Msg_Assistant _ _ \<Rightarrow> ''assistant''
      | Msg_Tool _ _ \<Rightarrow> ''tool'')"

definition render_tool_call :: "model_tool_call \<Rightarrow> string" where
  "render_tool_call call =
     [LF] @ ''<tool-call id='' @ [CHR 0x22] @ mt_id call @ [CHR 0x22] @ '' name='' @ [CHR 0x22]
       @ tf_name (mt_function call) @ [CHR 0x22] @ ''>'' @ tf_arguments (mt_function call) @ ''</tool-call>''"

definition serialize_body :: "message \<Rightarrow> string" where
  "serialize_body m =
     (case m of
        Msg_System t \<Rightarrow> [LF] @ trim t
      | Msg_User t \<Rightarrow> [LF] @ trim t
      | Msg_Assistant content tool_calls \<Rightarrow>
          (case content of None \<Rightarrow> [] | Some c \<Rightarrow> if trim c = [] then [] else [LF] @ trim c)
          @ (case tool_calls of None \<Rightarrow> [] | Some calls \<Rightarrow> concat (map render_tool_call calls))
      | Msg_Tool tool_call_id content \<Rightarrow>
          [LF] @ ''<tool-result id='' @ [CHR 0x22] @ tool_call_id @ [CHR 0x22] @ ''>'' @ trim content @ ''</tool-result>'')"

definition serialize_messages :: "message list \<Rightarrow> string" where
  "serialize_messages messages =
     concat (map (\<lambda>(index, m). (if index > 0 then [LF, LF] else [])
       @ ''['' @ show_nat (index + 1) @ ''] '' @ message_role m @ serialize_body m) (enumerate 0 messages))"

definition render_paths :: "string list \<Rightarrow> string" where
  "render_paths paths = (if paths = [] then ''(none)'' else join '', '' paths)"

definition render_file_ops :: "compaction_file_ops \<Rightarrow> string" where
  "render_file_ops ops =
     ''Files read: '' @ render_paths (cf_read_files ops) @ [LF] @ ''Files modified: '' @ render_paths (cf_modified_files ops)
       @ [LF] @ ''Files deleted: '' @ render_paths (cf_deleted_files ops)"

definition build_compaction_prompt :: "compaction_plan \<Rightarrow> compaction_settings \<Rightarrow> string" where
  "build_compaction_prompt plan settings =
     ''<conversation>'' @ [LF] @ serialize_messages (cp_messages_to_summarize plan) @ [LF] @ ''</conversation>'' @ [LF]
     @ (case cp_previous_summary plan of
          None \<Rightarrow> []
        | Some previous_summary \<Rightarrow>
            [LF] @ ''<previous-summary>'' @ [LF] @ previous_summary @ [LF] @ ''</previous-summary>'' @ [LF])
     @ [LF] @ ''<file-operations>'' @ [LF] @ render_file_ops (cp_file_ops plan) @ [LF] @ ''</file-operations>'' @ [LF]
     @ [LF] @ (if cp_previous_summary plan \<noteq> None then UPDATE_SUMMARIZATION_PROMPT else SUMMARIZATION_PROMPT)
     @ (case cs_prompt_override settings of
          None \<Rightarrow> []
        | Some override_prompt \<Rightarrow>
            if trim override_prompt = [] then []
            else [LF, LF] @ ''Additional focus for this summary:'' @ [LF] @ trim override_prompt)"

section \<open>Running the compaction\<close>

record usage =
  us_input_tokens :: nat
  us_output_tokens :: nat
  us_total_tokens :: nat

text \<open>The errors of a model; those of reqwest and serde_json are their texts.\<close>

datatype model_error =
    AuthError string
  | InvalidRequest string
  | InvalidResponse string
  | ApiError string
  | RateLimited string
  | NetworkError string
  | JsonError string
  | ProviderNotFound string
  | NoDefaultProvider
  | Model_ToolNotFound string
  | Model_ToolError string
  | StreamError string
  | Model_Timeout string
  | ContextLimitExceeded string
  | InvalidCredentials string
  | OAuthError string

text \<open>The model: its name, the messages and the limit of the answer give the texts of the choices.\<close>

type_synonym chat_model = "string \<Rightarrow> message list \<Rightarrow> nat \<Rightarrow> model_error + string option list \<times> usage"

definition run_compaction ::
  "chat_model \<Rightarrow> string \<Rightarrow> compaction_plan \<Rightarrow> compaction_settings \<Rightarrow> model_error + string \<times> usage" where
  "run_compaction chat model plan settings =
     (case chat model [Msg_System SUMMARIZATION_SYSTEM_PROMPT, Msg_User (build_compaction_prompt plan settings)]
             (min (cs_max_summary_tokens settings) (2 ^ 32 - 1)) of
        Inl e \<Rightarrow> Inl e
      | Inr (choices, us) \<Rightarrow>
          (case List.map_filter id choices of
             t # _ \<Rightarrow>
               if trim t = [] then Inl (InvalidResponse ''compaction summary response did not contain text'')
               else Inr (trim t, us)
           | [] \<Rightarrow> Inl (InvalidResponse ''compaction summary response did not contain text'')))"

definition apply_compaction :: "message list \<Rightarrow> string \<Rightarrow> compaction_plan \<Rightarrow> message list" where
  "apply_compaction history summary plan =
     filter is_system history @ [make_summary_message summary] @ cp_kept_messages plan"

record applied_compaction_result =
  ac_summary :: string
  ac_usage :: usage
  ac_compacted_history :: "message list"
  ac_tokens_before_est :: nat
  ac_tokens_after_est :: nat

definition compact_history_with_summary ::
  "(string \<Rightarrow> json option) \<Rightarrow> chat_model \<Rightarrow> string \<Rightarrow> message list \<Rightarrow> compaction_settings
     \<Rightarrow> model_error + applied_compaction_result option" where
  "compact_history_with_summary from_str chat model history settings =
     (case prepare_compaction from_str history settings of
        None \<Rightarrow> Inr None
      | Some plan \<Rightarrow>
          (case run_compaction chat model plan settings of
             Inl e \<Rightarrow> Inl e
           | Inr (summary, us) \<Rightarrow>
               Inr (Some \<lparr>ac_summary = summary, ac_usage = us,
                 ac_compacted_history = apply_compaction history summary plan,
                 ac_tokens_before_est = cp_tokens_before_est plan,
                 ac_tokens_after_est = cp_tokens_after_est plan\<rparr>)))"

end
