(* ===== verification/CompactionSafety.thy ===== *)
theory CompactionSafety
  imports Compaction
begin

text \<open>
  What a compaction keeps: no tool result without its call, no message lost between the summary
  and the tail, the cut that comes nearest to the budget, and a summary that the next
  compaction finds again.
\<close>

section \<open>Tool results and their calls\<close>

text \<open>Every tool result stands behind a call with its id, where the calls of \<open>S\<close> have been made.\<close>

fun answered :: "string set \<Rightarrow> message list \<Rightarrow> bool" where
  "answered S [] = True"
| "answered S (m # ms) \<longleftrightarrow> (case m of Msg_Tool tool_call_id _ \<Rightarrow> tool_call_id \<in> S | _ \<Rightarrow> True) \<and> answered (S \<union> call_ids m) ms"

abbreviation paired :: "message list \<Rightarrow> bool" where
  "paired \<equiv> answered {}"

lemma unresolved_answered: "answered S ms \<longleftrightarrow> snd (valid_from ms) \<subseteq> S"
  by (induction ms arbitrary: S) (auto simp: call_ids_def split: message.splits option.splits prod.splits)

lemma length_valid_from [simp]: "length (fst (valid_from ms)) = Suc (length ms)"
  by (induction ms) (auto simp: Let_def split: message.splits prod.splits)

lemma valid_from_nth: "i \<le> length ms \<Longrightarrow> fst (valid_from ms) ! i \<longleftrightarrow> snd (valid_from (drop i ms)) = {}"
proof (induction ms arbitrary: i)
  case (Cons m ms)
  show ?case
  proof (cases i)
    case 0
    then show ?thesis by (auto simp: Let_def split: message.splits prod.splits)
  next
    case (Suc j)
    then have "fst (valid_from (m # ms)) ! i = fst (valid_from ms) ! j"
      by (auto simp: Let_def split: message.splits prod.splits)
    then show ?thesis using Cons Suc by simp
  qed
qed simp

lemma valid_boundary:
  assumes "boundary_start \<le> i" "i \<le> length history"
  shows "compute_valid_kept_boundaries history boundary_start ! i \<longleftrightarrow> paired (drop i history)"
proof -
  have "compute_valid_kept_boundaries history boundary_start ! i
      = fst (valid_from (drop boundary_start history)) ! (i - boundary_start)"
    using assms by (simp add: compute_valid_kept_boundaries_def nth_append)
  also have "\<dots> = (snd (valid_from (drop i history)) = {})"
    using assms by (subst valid_from_nth) auto
  finally show ?thesis by (simp add: unresolved_answered)
qed

lemma answered_filter:
  "answered S ms \<Longrightarrow> \<forall>m \<in> set ms. \<not> P m \<longrightarrow> call_ids m = {} \<Longrightarrow> answered S (filter P ms)"
  by (induction ms arbitrary: S) auto

lemma call_ids_plain: "is_system m \<or> is_summary_message m \<Longrightarrow> call_ids m = {}"
  by (auto simp: is_system_def is_summary_message_def call_ids_def split: message.splits)

lemma answered_no_tools:
  "\<forall>m \<in> set ms. is_system m \<or> is_summary_message m \<Longrightarrow> answered S (ms @ ns) \<longleftrightarrow> answered S ns"
  by (induction ms arbitrary: S)
    (auto simp: call_ids_plain is_system_def is_summary_message_def split: message.splits)

section \<open>The search for a cut\<close>

lemma suffix_sums_nth: "i \<le> length ms \<Longrightarrow> suffix_sums ms ! i = estimate_messages_tokens (drop i ms)"
proof (induction ms arbitrary: i)
  case (Cons m ms)
  have "hd (suffix_sums ms) = suffix_sums ms ! 0" by (cases ms) (auto simp: Let_def)
  with Cons show ?case by (cases i) (auto simp: estimate_messages_tokens_def Let_def)
qed (simp add: estimate_messages_tokens_def)

lemma suffix_tokens_nth:
  "boundary_start \<le> i \<Longrightarrow> i \<le> length history \<Longrightarrow>
     (replicate boundary_start 0 @ suffix_sums (drop boundary_start history)) ! i
       = estimate_messages_tokens (drop i history)"
  by (simp add: nth_append suffix_sums_nth)

text \<open>The loop keeps the nearest valid boundary, and of two at the same distance the longer tail.\<close>

definition nearest :: "bool list \<Rightarrow> nat list \<Rightarrow> nat \<Rightarrow> nat set \<Rightarrow> nat option \<times> nat \<times> nat \<Rightarrow> bool" where
  "nearest valid sums keep seen best \<longleftrightarrow>
     (case best of
        (None, d, t) \<Rightarrow> d = USIZE_MAX \<and> t = 0
      | (Some b, d, t) \<Rightarrow> b \<in> seen \<and> valid ! b \<and> d = abs_diff (sums ! b) keep \<and> t = sums ! b
          \<and> (\<forall>b' \<in> seen. valid ! b' \<longrightarrow> d \<le> abs_diff (sums ! b') keep
              \<and> (abs_diff (sums ! b') keep = d \<longrightarrow> sums ! b' \<le> t)))
     \<and> (fst best = None \<longrightarrow> (\<forall>b' \<in> seen. valid ! b' \<longrightarrow> USIZE_MAX \<le> abs_diff (sums ! b') keep
        \<and> (abs_diff (sums ! b') keep = USIZE_MAX \<longrightarrow> sums ! b' = 0)))"

lemma nearest_step:
  "nearest valid sums keep seen best \<Longrightarrow>
     nearest valid sums keep (insert b seen) (better_boundary valid sums keep best b)"
  by (cases best; cases "fst best") (auto simp: nearest_def better_boundary_def Let_def)

lemma nearest_loop:
  "nearest valid sums keep seen best \<Longrightarrow>
     nearest valid sums keep (seen \<union> set bs) (foldl (better_boundary valid sums keep) best bs)"
proof (induction bs arbitrary: seen best)
  case (Cons b bs)
  from Cons.IH [OF nearest_step [OF Cons.prems]] show ?case by simp
qed simp

definition cut_distance :: "message list \<Rightarrow> nat \<Rightarrow> nat \<Rightarrow> nat" where
  "cut_distance history keep b = abs_diff (estimate_messages_tokens (drop b history)) keep"

lemma find_safe_cut:
  assumes "find_safe_tail_start_index history bs keep allow = Some b"
  shows "b = bs \<and> (allow \<or> bs = length history) \<and> (bs < length history \<longrightarrow> estimate_messages_tokens (drop bs history) \<le> keep)
    \<or> bs \<le> b \<and> b \<le> length history \<and> (\<not> allow \<longrightarrow> bs < b) \<and> paired (drop b history)
      \<and> (\<forall>b'. (if allow then bs else bs + 1) \<le> b' \<and> b' \<le> length history \<and> paired (drop b' history)
           \<longrightarrow> cut_distance history keep b \<le> cut_distance history keep b')"
proof (cases "bs = length history")
  case True
  then show ?thesis using assms by (auto simp: find_safe_tail_start_index_def split: if_splits)
next
  case False
  then have lt: "bs < length history" using assms by (auto simp: find_safe_tail_start_index_def split: if_splits)
  let ?v = "compute_valid_kept_boundaries history bs" and ?s = "replicate bs 0 @ suffix_sums (drop bs history)"
  let ?min = "if allow then bs else bs + 1"
  let ?loop = "foldl (better_boundary ?v ?s keep) (None, USIZE_MAX, 0) [?min..<Suc (length history)]"
  have s_bs: "?s ! bs = estimate_messages_tokens (drop bs history)" by (rule suffix_tokens_nth) (use lt in auto)
  show ?thesis
  proof (cases "allow \<and> ?s ! bs \<le> keep")
    case True
    then have "b = bs" using assms lt by (auto simp: find_safe_tail_start_index_def Let_def)
    with True s_bs show ?thesis by auto
  next
    case no: False
    have loop: "fst ?loop = Some b"
      using assms lt no by (auto simp: find_safe_tail_start_index_def Let_def split: if_splits)
    have "nearest ?v ?s keep ({} \<union> set [?min..<Suc (length history)]) ?loop"
      by (rule nearest_loop) (simp add: nearest_def)
    then have b: "?min \<le> b" "b \<le> length history" "?v ! b"
      and best: "\<And>b'. ?min \<le> b' \<Longrightarrow> b' \<le> length history \<Longrightarrow> ?v ! b' \<Longrightarrow> abs_diff (?s ! b) keep \<le> abs_diff (?s ! b') keep"
      using loop by (auto simp: nearest_def less_Suc_eq_le split: prod.splits option.splits)
    have le: "bs \<le> b" "\<not> allow \<longrightarrow> bs < b" using b(1) by (auto split: if_splits)
    have "cut_distance history keep b \<le> cut_distance history keep b'"
      if "?min \<le> b'" "b' \<le> length history" "paired (drop b' history)" for b'
    proof -
      have "bs \<le> b'" using that(1) by (auto split: if_splits)
      then show ?thesis
        using best [OF that(1,2)] that(2,3) valid_boundary [of bs b' history] suffix_tokens_nth [of bs b' history]
          suffix_tokens_nth [of bs b history] le(1) b(2)
        by (simp add: cut_distance_def)
    qed
    then show ?thesis using le b(2,3) valid_boundary [OF le(1) b(2)] by blast
  qed
qed

lemma find_safe_some:
  assumes "bs \<le> length history" "keep < USIZE_MAX"
  shows "find_safe_tail_start_index history bs keep True \<noteq> None"
proof (cases "bs = length history")
  case False
  let ?v = "compute_valid_kept_boundaries history bs" and ?s = "replicate bs 0 @ suffix_sums (drop bs history)"
  let ?loop = "foldl (better_boundary ?v ?s keep) (None, USIZE_MAX, 0) [bs..<Suc (length history)]"
  have near: "nearest ?v ?s keep ({} \<union> set [bs..<Suc (length history)]) ?loop"
    by (rule nearest_loop) (simp add: nearest_def)
  have "?v ! length history" using valid_boundary [OF assms(1) order_refl] by simp
  moreover have "abs_diff (?s ! length history) keep = keep"
    using suffix_tokens_nth [OF assms(1) order_refl] by (simp add: estimate_messages_tokens_def abs_diff_def)
  moreover have "fst ?loop = None \<Longrightarrow> ?v ! length history \<longrightarrow> USIZE_MAX \<le> abs_diff (?s ! length history) keep"
    using near assms(1) unfolding nearest_def by (auto simp del: upt_Suc)
  ultimately have "fst ?loop \<noteq> None" using assms(2) by (metis leD)
  then show ?thesis using assms(1) False by (simp add: find_safe_tail_start_index_def Let_def del: upt_Suc)
qed (simp add: find_safe_tail_start_index_def)

text \<open>The cut is the best one: a place where no tool result is separated from its call, and
  among those (behind the boundary) one where the estimate of the tail comes nearest to the
  budget.\<close>

theorem cut_is_nearest:
  assumes "find_safe_tail_start_index history boundary_start keep False = Some b"
    and "boundary_start < length history"
  shows "boundary_start < b \<and> b \<le> length history \<and> paired (drop b history)
    \<and> (\<forall>b'. boundary_start < b' \<and> b' \<le> length history \<and> paired (drop b' history)
         \<longrightarrow> cut_distance history keep b \<le> cut_distance history keep b')"
  using find_safe_cut [OF assms(1)] assms(2) by (auto simp: Suc_le_eq)

section \<open>The plan\<close>

definition boundary_of :: "message list \<Rightarrow> nat \<Rightarrow> nat" where
  "boundary_of history first_non_system =
     (case last_summary_index history first_non_system of None \<Rightarrow> first_non_system | Some i \<Rightarrow> i + 1)"

lemma prepare_plan:
  assumes "prepare_compaction from_str history settings = Some plan"
  obtains f k where "first_non_system_index history = Some f" "boundary_of history f < k" "k \<le> length history"
    "paired (drop k history)"
    "cp_messages_to_summarize plan = plain_messages (drop (boundary_of history f) (take k history))"
    "cp_messages_to_summarize plan \<noteq> []"
    "cp_kept_messages plan = plain_messages (drop k history)"
    "cp_previous_summary plan = previous_summary_of history (last_summary_index history f)"
proof -
  obtain f where f: "first_non_system_index history = Some f"
    using assms by (auto simp: prepare_compaction_def split: if_splits option.splits)
  let ?b = "boundary_of history f"
  obtain k where k: "find_safe_tail_start_index history ?b (cs_keep_recent_tokens settings) False = Some k"
    using assms f by (auto simp: prepare_compaction_def boundary_of_def Let_def split: if_splits option.splits)
  have "?b < length history"
    using assms f by (auto simp: prepare_compaction_def boundary_of_def Let_def split: if_splits option.splits)
  with find_safe_cut [OF k] have "?b < k \<and> k \<le> length history \<and> paired (drop k history)" by auto
  moreover have "cp_messages_to_summarize plan = plain_messages (drop ?b (take k history))
      \<and> cp_messages_to_summarize plan \<noteq> [] \<and> cp_kept_messages plan = plain_messages (drop k history)
      \<and> cp_previous_summary plan = previous_summary_of history (last_summary_index history f)"
    using assms f k by (auto simp: prepare_compaction_def boundary_of_def [symmetric] Let_def split: if_splits)
  ultimately show ?thesis using that f by blast
qed

lemma paired_plain: "paired ms \<Longrightarrow> paired (plain_messages ms)"
  unfolding plain_messages_def by (rule answered_filter) (auto simp: call_ids_plain)

lemma apply_compaction_paired:
  assumes "prepare_compaction from_str history settings = Some plan"
  shows "paired (apply_compaction history summary plan)"
proof -
  obtain k where k: "paired (drop k history)" "cp_kept_messages plan = plain_messages (drop k history)"
    by (rule prepare_plan [OF assms])
  have "\<forall>m \<in> set (filter is_system history @ [make_summary_message summary]). is_system m \<or> is_summary_message m"
    by (auto simp: make_summary_message_def is_summary_message_def)
  from answered_no_tools [OF this] show ?thesis
    using paired_plain [OF k(1)] k(2) by (simp add: apply_compaction_def)
qed

text \<open>Whatever the history, in the compacted history every tool result stands behind the call
  that it answers, so a provider that insists on it accepts the request.\<close>

theorem compaction_keeps_pairs:
  assumes "prepare_compaction from_str history settings = Some plan"
  shows "paired (apply_compaction history summary plan)"
  using assms by (rule apply_compaction_paired)

lemma compaction_loses_nothing':
  assumes "prepare_compaction from_str history settings = Some plan"
    and "first_non_system_index history = Some f"
  shows "cp_messages_to_summarize plan @ cp_kept_messages plan = plain_messages (drop (boundary_of history f) history)
    \<and> cp_messages_to_summarize plan \<noteq> []"
proof -
  obtain k where k: "boundary_of history f < k" "k \<le> length history"
    "cp_messages_to_summarize plan = plain_messages (drop (boundary_of history f) (take k history))"
    "cp_messages_to_summarize plan \<noteq> []" "cp_kept_messages plan = plain_messages (drop k history)"
    by (rule prepare_plan [OF assms(1)]) (use assms(2) in auto)
  have "drop (boundary_of history f) (take k history) @ drop k history = drop (boundary_of history f) (take k history @ drop k history)"
    using k(1,2) by (simp only: drop_append) simp
  then have "plain_messages (drop (boundary_of history f) (take k history)) @ plain_messages (drop k history)
      = plain_messages (drop (boundary_of history f) history)"
    unfolding plain_messages_def filter_append [symmetric] by simp
  with k show ?thesis by simp
qed

text \<open>Nothing between the previous summary and the end is lost: the messages that are summarised
  and those that are kept are, in order, all messages there but the system messages.\<close>

theorem compaction_loses_nothing:
  assumes "prepare_compaction from_str history settings = Some plan"
    and "first_non_system_index history = Some f"
  shows "cp_messages_to_summarize plan @ cp_kept_messages plan = plain_messages (drop (boundary_of history f) history)
    \<and> cp_messages_to_summarize plan \<noteq> []"
  by (rule compaction_loses_nothing' [OF assms])

section \<open>Compacting again\<close>

lemma trim_newline: "trim (dropWhile (\<lambda>c. c = LF) (LF # trim s)) = trim s"
proof -
  have ws: "leading_ws (LF # r) \<noteq> None" for r
    by (auto simp: leading_ws_None ws_utf8_def)
  have "dropWhile (\<lambda>c. c = LF) (trim s) = trim s"
  proof (cases "trim s")
    case (Cons c r)
    then have "c \<noteq> LF" using ws [of r] trim_leading [of s] by auto
    then show ?thesis using Cons by simp
  qed simp
  then show ?thesis by simp
qed

lemma extract_make: "extract_summary_text (make_summary_message s) = Some (trim s)"
  using trim_newline [of s] by (simp add: extract_summary_text_def make_summary_message_def)

lemma make_is_summary: "is_summary_message (make_summary_message s)" "\<not> is_system (make_summary_message s)"
  by (auto simp: is_summary_message_def make_summary_message_def is_system_def)

lemma find_upt_first:
  "n < m \<Longrightarrow> P n \<Longrightarrow> \<forall>i < n. \<not> P i \<Longrightarrow> find P [0..<m] = Some n"
  by (auto simp: find_Some_iff intro!: exI [of _ n])

lemma find_upt_index: "find P [0..<m] = Some n \<Longrightarrow> n < m \<and> P n \<and> (\<forall>i < n. \<not> P i)"
  by (auto simp: find_Some_iff)

lemma find_rev_upt_last:
  "a \<le> n \<Longrightarrow> n < m \<Longrightarrow> P n \<Longrightarrow> \<forall>i. n < i \<and> i < m \<longrightarrow> \<not> P i \<Longrightarrow> find P (rev [a..<m]) = Some n"
  by (auto simp: find_Some_iff rev_nth intro!: exI [of _ "m - 1 - n"])

lemma first_non_system_append:
  "\<forall>m \<in> set sys. is_system m \<Longrightarrow> \<not> is_system x \<Longrightarrow> first_non_system_index (sys @ x # rest) = Some (length sys)"
  unfolding first_non_system_index_def position_def by (rule find_upt_first) (auto simp: nth_append)

lemma last_summary_append:
  assumes "is_summary_message x" "\<forall>m \<in> set rest. \<not> is_summary_message m"
  shows "last_summary_index (sys @ x # rest) (length sys) = Some (length sys)"
  unfolding last_summary_index_def
  using assms by (intro find_rev_upt_last) (auto simp: nth_append nth_Cons split: nat.split)

text \<open>A compaction continues the one before: after a compaction and new messages, the next plan
  starts from the summary that was written, and it covers exactly the messages that were kept
  and the new ones.\<close>

theorem compaction_continues:
  assumes plan: "prepare_compaction from_str history settings = Some plan"
    and new: "\<forall>m \<in> set new. \<not> is_summary_message m"
    and again: "prepare_compaction from_str (apply_compaction history summary plan @ new) settings' = Some plan'"
  shows "cp_previous_summary plan' = (if trim summary = [] then None else Some (trim summary))
    \<and> cp_messages_to_summarize plan' @ cp_kept_messages plan' = cp_kept_messages plan @ plain_messages new"
proof -
  let ?sys = "filter is_system history" and ?x = "make_summary_message summary"
  let ?rest = "cp_kept_messages plan @ new"
  have h: "apply_compaction history summary plan @ new = ?sys @ ?x # ?rest" by (simp add: apply_compaction_def)
  have kept: "plain_messages (cp_kept_messages plan) = cp_kept_messages plan"
    and kept_no: "\<forall>m \<in> set (cp_kept_messages plan). \<not> is_summary_message m"
    by (rule prepare_plan [OF plan]; simp add: plain_messages_def)+
  have first: "first_non_system_index (?sys @ ?x # ?rest) = Some (length ?sys)"
    by (rule first_non_system_append) (auto simp: make_is_summary)
  have last: "last_summary_index (?sys @ ?x # ?rest) (length ?sys) = Some (length ?sys)"
    by (rule last_summary_append) (use new kept_no make_is_summary in auto)
  have bound: "boundary_of (?sys @ ?x # ?rest) (length ?sys) = Suc (length ?sys)"
    by (simp add: boundary_of_def last)
  obtain f where f: "first_non_system_index (?sys @ ?x # ?rest) = Some f"
    and prev: "cp_previous_summary plan' = previous_summary_of (?sys @ ?x # ?rest) (last_summary_index (?sys @ ?x # ?rest) f)"
    by (rule prepare_plan [OF again [unfolded h]])
  have "cp_messages_to_summarize plan' @ cp_kept_messages plan' = plain_messages ?rest"
    using compaction_loses_nothing' [OF again [unfolded h] first] by (simp add: bound)
  moreover have "cp_previous_summary plan' = (if trim summary = [] then None else Some (trim summary))"
  proof -
    have "f = length ?sys" using f first by simp
    then show ?thesis using prev last by (simp add: previous_summary_of_def extract_make)
  qed
  ultimately show ?thesis using kept unfolding plain_messages_def filter_append by argo
qed

section \<open>A message that looks like a summary\<close>

text \<open>A user who starts a message with the marker of the summaries makes the compaction forget
  everything before it: it is neither summarised nor kept.\<close>

theorem marker_forgets:
  assumes "prepare_compaction from_str (before @ Msg_User (SUMMARY_MARKER @ t) # after) settings = Some plan"
    and "\<forall>m \<in> set after. \<not> is_summary_message m"
  shows "cp_messages_to_summarize plan @ cp_kept_messages plan = plain_messages after"
proof -
  let ?x = "Msg_User (SUMMARY_MARKER @ t)" and ?h = "before @ Msg_User (SUMMARY_MARKER @ t) # after"
  have x: "is_summary_message ?x" "\<not> is_system ?x" by (simp_all add: is_summary_message_def is_system_def)
  obtain f where f: "first_non_system_index ?h = Some f" by (rule prepare_plan [OF assms(1)])
  have "f \<le> length before"
  proof (rule ccontr)
    assume "\<not> f \<le> length before"
    moreover have "\<forall>i < f. is_system (?h ! i)"
      using find_upt_index [OF f [unfolded first_non_system_index_def position_def]] by blast
    ultimately show False using x(2) by (metis nat_le_linear nle_le nth_append_length order_le_less)
  qed
  then have "last_summary_index ?h f = Some (length before)"
    unfolding last_summary_index_def using assms(2) x(1)
    by (intro find_rev_upt_last) (auto simp: nth_append nth_Cons split: nat.split)
  then show ?thesis
    using compaction_loses_nothing' [OF assms(1) f] by (simp add: boundary_of_def)
qed

section \<open>The properties at work\<close>

definition demo_call :: model_tool_call where
  "demo_call = \<lparr>mt_id = ''c1'', mt_call_type = ''function'',
     mt_function = \<lparr>tf_name = ''read_file'', tf_arguments = ''{}''\<rparr>\<rparr>"

definition demo_history :: "message list" where
  "demo_history = [Msg_System ''s'', Msg_User ''q'', Msg_Assistant None (Some [demo_call]), Msg_Tool ''c1'' ''text'', Msg_User ''go'']"

definition demo_settings :: compaction_settings where
  "demo_settings = default_compaction_settings\<lparr>cs_keep_recent_tokens := 2\<rparr>"

lemma usize_one: "Suc 0 < USIZE_MAX" "0 < USIZE_MAX"
  by (simp_all add: USIZE_MAX_def)

lemma demo_tokens:
  "estimate_message_tokens (Msg_User ''q'') = 1" "estimate_message_tokens (Msg_Assistant None (Some [demo_call])) = 1"
  "estimate_message_tokens (Msg_Tool ''c1'' ''text'') = 1" "estimate_message_tokens (Msg_User ''go'') = 1"
  by code_simp+

lemma demo_ids: "call_ids (Msg_Assistant None (Some [demo_call])) = {''c1''}"
  by (simp add: call_ids_def demo_call_def)

lemma demo_cut: "find_safe_tail_start_index demo_history 1 2 False = Some 2"
  by (simp add: find_safe_tail_start_index_def demo_history_def demo_tokens compute_valid_kept_boundaries_def
      better_boundary_def Let_def abs_diff_def usize_one upt_rec demo_ids)

lemma demo_history_start: "first_non_system_index demo_history = Some 1" "last_summary_index demo_history 1 = None"
  by code_simp+

lemma demo_plan:
  "\<exists>plan. prepare_compaction (\<lambda>_. None) demo_history demo_settings = Some plan
     \<and> cp_messages_to_summarize plan = [Msg_User ''q''] \<and> cp_kept_messages plan = drop 2 demo_history"
proof -
  have "plain_messages (drop 1 (take 2 demo_history)) = [Msg_User ''q'']"
    "plain_messages (drop 2 demo_history) = drop 2 demo_history" by code_simp+
  moreover have "cs_enabled demo_settings" "cs_keep_recent_tokens demo_settings = 2" "length demo_history = 5"
    by (simp_all add: demo_settings_def default_compaction_settings_def demo_history_def)
  ultimately show ?thesis
    using demo_history_start demo_cut by (simp add: prepare_compaction_def Let_def)
qed

theorem cut_is_nearest_witness:
  "cut_distance demo_history 2 2 \<le> cut_distance demo_history 2 4 \<and> paired (drop 2 demo_history)"
  using cut_is_nearest [OF demo_cut] by (auto simp: demo_history_def)

theorem compaction_keeps_pairs_witness:
  "\<exists>plan. prepare_compaction (\<lambda>_. None) demo_history demo_settings = Some plan
     \<and> paired (apply_compaction demo_history ''did it'' plan) \<and> cp_kept_messages plan = drop 2 demo_history"
  using demo_plan compaction_keeps_pairs by blast

theorem compaction_loses_nothing_witness:
  "\<exists>plan. prepare_compaction (\<lambda>_. None) demo_history demo_settings = Some plan
     \<and> cp_messages_to_summarize plan @ cp_kept_messages plan = plain_messages (drop (boundary_of demo_history 1) demo_history)"
  using demo_plan compaction_loses_nothing [OF _ demo_history_start(1)] by blast

definition demo_again :: "message list" where
  "demo_again = [Msg_System ''s'', make_summary_message ''did it'', Msg_Assistant None (Some [demo_call]),
     Msg_Tool ''c1'' ''text'', Msg_User ''go'', Msg_User ''q'']"

lemma demo_cut_again: "find_safe_tail_start_index demo_again 2 2 False = Some 4"
  by (simp add: find_safe_tail_start_index_def demo_again_def demo_tokens compute_valid_kept_boundaries_def
      better_boundary_def Let_def abs_diff_def usize_one upt_rec demo_ids numeral_2_eq_2)

theorem compaction_continues_witness:
  "\<exists>plan plan'. prepare_compaction (\<lambda>_. None) demo_history demo_settings = Some plan
     \<and> prepare_compaction (\<lambda>_. None) (apply_compaction demo_history ''did it'' plan @ [Msg_User ''q'']) demo_settings = Some plan'
     \<and> cp_previous_summary plan' = Some ''did it''"
proof -
  obtain plan where plan: "prepare_compaction (\<lambda>_. None) demo_history demo_settings = Some plan"
    and kept: "cp_kept_messages plan = drop 2 demo_history"
    using demo_plan by blast
  have eval: "filter is_system demo_history = [Msg_System ''s'']" "trim ''did it'' = ''did it''"
    "first_non_system_index demo_again = Some 1" "last_summary_index demo_again 1 = Some 1"
    "plain_messages (drop 2 (take 4 demo_again)) \<noteq> []"
    by code_simp+
  have again: "apply_compaction demo_history ''did it'' plan @ [Msg_User ''q''] = demo_again"
    by (simp add: apply_compaction_def kept eval) (simp add: demo_history_def demo_again_def)
  have "cs_enabled demo_settings" "cs_keep_recent_tokens demo_settings = 2" "length demo_again = 6"
    by (simp_all add: demo_settings_def default_compaction_settings_def demo_again_def)
  then obtain plan' where plan': "prepare_compaction (\<lambda>_. None) demo_again demo_settings = Some plan'"
    using eval demo_cut_again by (simp add: prepare_compaction_def Let_def numeral_2_eq_2)
  have "cp_previous_summary plan' = Some ''did it''"
    using compaction_continues [OF plan _ plan' [folded again]] by (simp add: is_summary_message_def SUMMARY_MARKER_def eval)
  with plan plan' again show ?thesis by auto
qed

definition demo_marked :: "message list" where
  "demo_marked = [Msg_User ''q''] @ Msg_User (SUMMARY_MARKER @ ''!'') # [Msg_User ''go'', Msg_User ''q'']"

theorem marker_forgets_witness:
  "\<exists>plan. prepare_compaction (\<lambda>_. None) demo_marked (demo_settings\<lparr>cs_keep_recent_tokens := 1\<rparr>) = Some plan
     \<and> cp_messages_to_summarize plan @ cp_kept_messages plan = [Msg_User ''go'', Msg_User ''q'']"
proof -
  have "find_safe_tail_start_index demo_marked 2 1 False = Some 3"
    by (simp add: find_safe_tail_start_index_def demo_marked_def demo_tokens compute_valid_kept_boundaries_def
        better_boundary_def Let_def abs_diff_def usize_one upt_rec numeral_2_eq_2)
  moreover have eval: "first_non_system_index demo_marked = Some 0" "last_summary_index demo_marked 0 = Some 1"
    "plain_messages (drop 2 (take 3 demo_marked)) \<noteq> []" "plain_messages [Msg_User ''go'', Msg_User ''q''] = [Msg_User ''go'', Msg_User ''q'']"
    by code_simp+
  moreover have "cs_enabled demo_settings" "length demo_marked = 4"
    by (simp_all add: demo_settings_def default_compaction_settings_def demo_marked_def)
  ultimately obtain plan where
    plan: "prepare_compaction (\<lambda>_. None) demo_marked (demo_settings\<lparr>cs_keep_recent_tokens := 1\<rparr>) = Some plan"
    by (simp add: prepare_compaction_def Let_def numeral_2_eq_2)
  from marker_forgets [OF plan [unfolded demo_marked_def]] eval plan show ?thesis
    by (simp add: is_summary_message_def SUMMARY_MARKER_def)
qed

end
