(* ===== verification/SessionHistory.thy ===== *)
theory SessionHistory
  imports CompactionSafety
begin

text \<open>
  The history of a session and its active turn (\<open>core/src/session/mod.rs\<close>): the parts of the
  history that are sent to a model, cutting it down to a number of tokens, and the inputs that
  steer a running turn. The locks make every operation one step on the state.
\<close>

section \<open>Parts of the history\<close>

definition get_history :: "message list \<Rightarrow> nat \<Rightarrow> message list" where
  "get_history history limit =
     (if length history \<le> limit then history else drop (length history - limit) history)"

definition get_history_for_prompt :: "message list \<Rightarrow> nat \<Rightarrow> message list" where
  "get_history_for_prompt history max_tokens =
     (if max_tokens = 0 then filter is_system history
      else (case first_non_system_index history of
          None \<Rightarrow> filter is_system history
        | Some boundary_start \<Rightarrow>
            (let first_kept_index = (case find_safe_tail_start_index history boundary_start max_tokens True of
                   Some k \<Rightarrow> k
                 | None \<Rightarrow> boundary_start)
             in filter is_system history @ filter (\<lambda>m. \<not> is_system m) (drop first_kept_index history))))"

definition compact_history_to_token_target :: "nat \<Rightarrow> message list \<Rightarrow> message list" where
  "compact_history_to_token_target target_total_tokens history =
     (let system_tokens = estimate_messages_tokens (filter is_system history)
      in case first_non_system_index history of
           None \<Rightarrow> history
         | Some boundary_start \<Rightarrow>
             (let allowed_non_system_tokens = target_total_tokens - system_tokens
              in if allowed_non_system_tokens = 0 then filter is_system history
                 else (case find_safe_tail_start_index history boundary_start allowed_non_system_tokens True of
                     None \<Rightarrow> history
                   | Some first_kept_index \<Rightarrow>
                       if first_kept_index \<le> boundary_start then history
                       else filter is_system history @ filter (\<lambda>m. \<not> is_system m) (drop first_kept_index history))))"

section \<open>The active turn\<close>

record 'i active_turn_state =
  at_turn_id :: "string option"
  at_pending_inputs :: "'i list list"

datatype steer_input_error = NoActiveTurn | TurnMismatch string string

definition begin_turn :: "string \<Rightarrow> 'i active_turn_state \<Rightarrow> 'i active_turn_state" where
  "begin_turn turn_id st =
     (if at_turn_id st = Some turn_id then st
      else st\<lparr>at_turn_id := Some turn_id, at_pending_inputs := []\<rparr>)"

definition end_turn :: "string \<Rightarrow> 'i active_turn_state \<Rightarrow> 'i active_turn_state" where
  "end_turn turn_id st =
     (if at_turn_id st = Some turn_id then st\<lparr>at_turn_id := None, at_pending_inputs := []\<rparr> else st)"

definition steer_input ::
  "string option \<Rightarrow> 'i list \<Rightarrow> 'i active_turn_state \<Rightarrow> (steer_input_error + unit) \<times> 'i active_turn_state" where
  "steer_input expected_turn_id items st =
     (case at_turn_id st of
        None \<Rightarrow> (Inl NoActiveTurn, st)
      | Some active_turn_id \<Rightarrow>
          (case expected_turn_id of
             Some expected \<Rightarrow>
               if expected \<noteq> active_turn_id then (Inl (TurnMismatch expected active_turn_id), st)
               else (Inr (), st\<lparr>at_pending_inputs := at_pending_inputs st @ [items]\<rparr>)
           | None \<Rightarrow> (Inr (), st\<lparr>at_pending_inputs := at_pending_inputs st @ [items]\<rparr>)))"

definition take_pending_inputs :: "'i active_turn_state \<Rightarrow> 'i list list \<times> 'i active_turn_state" where
  "take_pending_inputs st = (at_pending_inputs st, st\<lparr>at_pending_inputs := []\<rparr>)"

record model_switch_state =
  ms_current_model :: "string option"
  ms_previous_model :: "string option"
  ms_switched_at :: "int option"

definition track_model_selection :: "int \<Rightarrow> string \<Rightarrow> model_switch_state \<Rightarrow> model_switch_state" where
  "track_model_selection now model st =
     (case ms_current_model st of
        None \<Rightarrow> st\<lparr>ms_current_model := Some model, ms_previous_model := None, ms_switched_at := None\<rparr>
      | Some current \<Rightarrow>
          if current = model then st
          else st\<lparr>ms_previous_model := ms_current_model st, ms_current_model := Some model, ms_switched_at := Some now\<rparr>)"

text \<open>The steps of a session on its turn: the inputs that are accepted and not yet taken always
  belong to the active turn.\<close>

inductive turn_step :: "'i active_turn_state \<Rightarrow> 'i active_turn_state \<Rightarrow> bool" where
  begin_t: "turn_step st (begin_turn t st)"
| end_t: "turn_step st (end_turn t st)"
| steer: "turn_step st (snd (steer_input expected items st))"
| take_t: "turn_step st (snd (take_pending_inputs st))"

lemma turn_step_inputs:
  "turn_step st st' \<Longrightarrow> at_pending_inputs st \<noteq> [] \<longrightarrow> at_turn_id st \<noteq> None \<Longrightarrow>
     at_pending_inputs st' \<noteq> [] \<longrightarrow> at_turn_id st' \<noteq> None"
  by (induction rule: turn_step.induct)
    (auto simp: begin_turn_def end_turn_def steer_input_def take_pending_inputs_def split: option.splits)

lemma turn_inputs_active:
  "turn_step\<^sup>*\<^sup>* \<lparr>at_turn_id = None, at_pending_inputs = []\<rparr> st \<Longrightarrow>
     at_pending_inputs st \<noteq> [] \<longrightarrow> at_turn_id st \<noteq> None"
  by (induction rule: rtranclp_induct) (auto dest: turn_step_inputs)

section \<open>What is sent to the model\<close>

lemma systems_before_boundary:
  assumes "first_non_system_index history = Some b"
  shows "\<forall>m \<in> set (take b history). is_system m" "b < length history"
  using find_upt_index [OF assms [unfolded first_non_system_index_def position_def]]
  by (auto simp: in_set_conv_nth)

lemma paired_tail:
  assumes "paired history" and "first_non_system_index history = Some b"
    and "k = b \<or> paired (drop k history)"
  shows "paired (filter is_system history @ filter (\<lambda>m. \<not> is_system m) (drop k history))"
proof -
  have "paired (drop b history) = paired (take b history @ drop b history)"
    using answered_no_tools [of "take b history" "{}" "drop b history"] systems_before_boundary [OF assms(2)] by blast
  then have "paired (drop k history)" using assms(1,3) by auto
  then have "paired (filter (\<lambda>m. \<not> is_system m) (drop k history))"
    by (rule answered_filter) (auto simp: call_ids_plain)
  then show ?thesis using answered_no_tools [of "filter is_system history"] by simp
qed

lemma safe_tail_paired:
  assumes "find_safe_tail_start_index history b n True = Some k"
  shows "k = b \<or> paired (drop k history)"
  using find_safe_cut [OF assms] by auto

lemma paired_systems: "paired (filter is_system history)"
  using answered_no_tools [of "filter is_system history" "{}" "[]"] by simp

text \<open>A history in which every tool result stands behind its call is cut to a budget without
  separating the two.\<close>

theorem history_cuts_keep_pairs:
  assumes "paired history"
  shows "paired (get_history_for_prompt history max_tokens)
    \<and> paired (compact_history_to_token_target target history)"
proof -
  have cut: "paired (filter is_system history @ filter (\<lambda>m. \<not> is_system m) (drop k history))"
    if "first_non_system_index history = Some b"
      and "find_safe_tail_start_index history b n True = Some k \<or> k = b" for b n k
    using paired_tail [OF assms that(1)] that(2) safe_tail_paired by blast
  show ?thesis
    using assms paired_systems
    by (auto simp: get_history_for_prompt_def compact_history_to_token_target_def Let_def intro: cut split: option.split)
qed

lemma tokens_filter: "estimate_messages_tokens (filter P ms) \<le> estimate_messages_tokens ms"
  by (induction ms) (auto simp: estimate_messages_tokens_def)

lemma safe_tail_bound:
  assumes "find_safe_tail_start_index history b n True = Some k"
  shows "estimate_messages_tokens (drop k history) \<le> 2 * n"
  using find_safe_cut [OF assms]
proof
  assume "k = b \<and> (True \<or> b = length history) \<and> (b < length history \<longrightarrow> estimate_messages_tokens (drop b history) \<le> n)"
  then show ?thesis
    using assms by (cases "b < length history")
      (auto simp: find_safe_tail_start_index_def estimate_messages_tokens_def split: if_splits)
next
  assume r: "b \<le> k \<and> k \<le> length history \<and> (\<not> True \<longrightarrow> b < k) \<and> paired (drop k history)
      \<and> (\<forall>b'. (if True then b else b + 1) \<le> b' \<and> b' \<le> length history \<and> paired (drop b' history)
           \<longrightarrow> cut_distance history n k \<le> cut_distance history n b')"
  then have "cut_distance history n k \<le> cut_distance history n (length history)" by auto
  then show ?thesis by (simp add: cut_distance_def abs_diff_def estimate_messages_tokens_def split: if_splits)
qed

text \<open>C16. What is sent to the model besides the system messages is estimated at no more than twice
  the budget; it can exceed the budget, because the nearest cut may lie on its far side.\<close>

theorem prompt_within_twice_budget:
  assumes "max_tokens < USIZE_MAX"
  shows "estimate_messages_tokens (filter (\<lambda>m. \<not> is_system m) (get_history_for_prompt history max_tokens)) \<le> 2 * max_tokens
    \<and> filter is_system (get_history_for_prompt history max_tokens) = filter is_system history"
proof -
  have none: "filter (\<lambda>m. \<not> is_system m) (filter is_system history) = []"
    "filter is_system (filter (\<lambda>m. \<not> is_system m) ms) = []" for ms
    by (auto simp: filter_empty_conv)
  show ?thesis
  proof (cases "first_non_system_index history")
    case None
    then show ?thesis by (simp add: get_history_for_prompt_def none estimate_messages_tokens_def)
  next
    case (Some b)
    then have "b < length history" by (rule systems_before_boundary)
    with find_safe_some [of b history max_tokens] assms obtain k where k: "find_safe_tail_start_index history b max_tokens True = Some k" by auto
    have "estimate_messages_tokens (filter (\<lambda>m. \<not> is_system m) (drop k history)) \<le> 2 * max_tokens"
      using tokens_filter [of "\<lambda>m. \<not> is_system m" "drop k history"] safe_tail_bound [OF k] by linarith
    then show ?thesis
      by (simp add: get_history_for_prompt_def Some k none estimate_messages_tokens_def)
  qed
qed

definition long_question :: "message list" where
  "long_question = [Msg_User ''a question'', Msg_User ''go'']"

text \<open>A budget of three tokens lets four through, and cutting the history down to three tokens
  leaves it as it is.\<close>

lemma budget_is_missed:
  "get_history_for_prompt long_question 3 = long_question
   \<and> compact_history_to_token_target 3 long_question = long_question
   \<and> estimate_messages_tokens long_question = 4"
proof -
  have est: "estimate_message_tokens (Msg_User ''a question'') = 3" "estimate_message_tokens (Msg_User ''go'') = 1"
    by code_simp+
  have max: "Suc 0 < USIZE_MAX" by (simp add: USIZE_MAX_def)
  have first: "first_non_system_index long_question = Some 0" by code_simp
  have "find_safe_tail_start_index long_question 0 3 True = Some 0"
    by (simp add: find_safe_tail_start_index_def long_question_def est compute_valid_kept_boundaries_def
        better_boundary_def abs_diff_def max upt_rec numeral_2_eq_2)
  with first show ?thesis
    by (simp add: get_history_for_prompt_def compact_history_to_token_target_def long_question_def
        estimate_messages_tokens_def est is_system_def)
qed

definition tool_round :: "message list" where
  "tool_round = [Msg_User ''q'', Msg_Assistant None (Some [\<lparr>mt_id = ''c1'', mt_call_type = ''function'',
     mt_function = \<lparr>tf_name = ''read_file'', tf_arguments = ''{}''\<rparr>\<rparr>]), Msg_Tool ''c1'' ''text'']"

text \<open>The history by number of messages, which the executor uses when the model has no limit of
  tokens, can start with a tool result whose call is cut off.\<close>

theorem get_history_splits_pair:
  "paired tool_round \<and> \<not> paired (get_history tool_round 1) \<and> length (get_history tool_round 1) = 1"
  by code_simp

section \<open>The properties at work\<close>

theorem history_cuts_keep_pairs_witness:
  "paired (get_history_for_prompt tool_round 1) \<and> paired (compact_history_to_token_target 1 tool_round)"
proof -
  have "paired tool_round" by code_simp
  then show ?thesis by (rule history_cuts_keep_pairs)
qed

theorem prompt_within_twice_budget_witness:
  "estimate_messages_tokens (filter (\<lambda>m. \<not> is_system m) (get_history_for_prompt long_question 3)) \<le> 6"
  using prompt_within_twice_budget [of 3 long_question] by (simp add: USIZE_MAX_def)

end
