(* ===== verification/NetworkAuthorize.thy ===== *)
theory NetworkAuthorize
  imports NetworkAttempts
begin

text \<open>
  Authorising a URL (\<open>authorize_http_url\<close> of \<open>core/src/tools/network_approval.rs\<close>): the rules on
  domains, the hosts that the user has approved or denied, and the prompt that is shared by
  all calls for one host. Each lock of the service is taken on its own, so the calls are
  tasks that take one locked step at a time, in any order, and may be dropped between two
  steps (\<open>tokio::select!\<close> in \<open>tools/parallel.rs\<close>). Parsing the URL is a parameter.
\<close>

section \<open>Hosts and rules\<close>

record host_approval_key =
  hk_host :: string
  hk_protocol :: string
  hk_port :: nat

definition trim_end_dots :: "string \<Rightarrow> string" where
  "trim_end_dots s = rev (dropWhile (\<lambda>c. c = CHR ''.'') (rev s))"

definition normalize_domain :: "string \<Rightarrow> string" where
  "normalize_domain domain = to_ascii_lowercase (trim_end_dots (trim domain))"

definition host_approval_key_of :: "string \<Rightarrow> string \<Rightarrow> nat \<Rightarrow> host_approval_key" where
  "host_approval_key_of host protocol port =
     \<lparr>hk_host = normalize_domain host, hk_protocol = to_ascii_lowercase protocol, hk_port = port\<rparr>"

definition host_matches_any :: "string \<Rightarrow> string list \<Rightarrow> bool" where
  "host_matches_any host patterns \<longleftrightarrow>
     (let host = normalize_domain host
      in list_ex (\<lambda>pattern. let pattern = normalize_domain pattern
           in host = pattern \<or> ends_with (''.'' @ pattern) host) patterns)"

definition allows_network_prompt :: "ask_for_approval \<Rightarrow> bool" where
  "allows_network_prompt policy \<longleftrightarrow> policy \<noteq> Never"

text \<open>What a call reads of its runtime.\<close>

record net_runtime =
  nr_approval_policy :: ask_for_approval
  nr_has_managed_network_requirements :: bool
  nr_allowed_domains :: "string list"
  nr_denied_domains :: "string list"
  nr_default_allowed_domains :: "string list"
  nr_network_attempt_id :: "string option"

record parsed_url =
  pu_host :: "string option"
  pu_scheme :: string
  pu_port :: "nat option"

definition key_of_url :: "(string \<Rightarrow> string + parsed_url) \<Rightarrow> string \<Rightarrow> string + host_approval_key" where
  "key_of_url parse url =
     (case parse url of
        Inl err \<Rightarrow> Inl (''invalid url: '' @ err)
      | Inr parsed \<Rightarrow>
          (case pu_host parsed of
             None \<Rightarrow> Inl ''url is missing a host''
           | Some host \<Rightarrow>
               (case pu_port parsed of
                  None \<Rightarrow> Inl ''url is missing a port''
                | Some port \<Rightarrow> Inr (host_approval_key_of host (to_ascii_lowercase (pu_scheme parsed)) port))))"

section \<open>The service\<close>

datatype pending_approval_decision = AllowOnce | AllowForSession | Deny

record network_audit_event =
  na_timestamp :: string
  na_host :: string
  na_protocol :: string
  na_port :: nat
  na_decision :: string
  na_reason :: "string option"

text \<open>A pending approval is shared by reference: its address in the list of decisions.\<close>

record network_service =
  ns_attempts :: attempts
  ns_pending :: "(host_approval_key, nat) hashmap"
  ns_decisions :: "pending_approval_decision option list"
  ns_approved :: "host_approval_key list"
  ns_denied :: "host_approval_key list"
  ns_audit_log :: "network_audit_event list"

definition empty_service :: network_service where
  "empty_service = \<lparr>ns_attempts = [], ns_pending = [], ns_decisions = [], ns_approved = [], ns_denied = [],
     ns_audit_log = []\<rparr>"

definition push_audit_event :: "network_audit_event \<Rightarrow> network_service \<Rightarrow> network_service" where
  "push_audit_event event sv =
     (let audit_log = ns_audit_log sv @ [event]
      in sv\<lparr>ns_audit_log := (if length audit_log > 200 then drop (length audit_log - 200) audit_log else audit_log)\<rparr>)"

definition recent_network_audit_events :: "nat \<Rightarrow> network_service \<Rightarrow> network_audit_event list" where
  "recent_network_audit_events limit sv = rev (take (max limit 1) (rev (ns_audit_log sv)))"

definition record_network_audit_event ::
  "string \<Rightarrow> host_approval_key \<Rightarrow> string \<Rightarrow> string option \<Rightarrow> network_service \<Rightarrow> network_service" where
  "record_network_audit_event now key decision reason =
     push_audit_event \<lparr>na_timestamp = now, na_host = hk_host key, na_protocol = hk_protocol key,
       na_port = hk_port key, na_decision = decision, na_reason = reason\<rparr>"

definition record_runtime_outcome :: "net_runtime \<Rightarrow> network_approval_outcome \<Rightarrow> network_service \<Rightarrow> network_service" where
  "record_runtime_outcome rt outcome sv =
     (case nr_network_attempt_id rt of
        None \<Rightarrow> sv
      | Some attempt_id \<Rightarrow> sv\<lparr>ns_attempts := set_outcome attempt_id outcome (ns_attempts sv)\<rparr>)"

definition get_or_create_pending_approval ::
  "host_approval_key \<Rightarrow> network_service \<Rightarrow> (nat \<times> bool) \<times> network_service" where
  "get_or_create_pending_approval key sv =
     (case hm_get (ns_pending sv) key of
        Some existing \<Rightarrow> ((existing, False), sv)
      | None \<Rightarrow>
          (let created = length (ns_decisions sv)
           in ((created, True), sv\<lparr>ns_decisions := ns_decisions sv @ [None],
                ns_pending := hm_insert key created (ns_pending sv)\<rparr>)))"

definition url_text :: "host_approval_key \<Rightarrow> string" where
  "url_text key = hk_protocol key @ ''://'' @ hk_host key @ '':'' @ show_nat (hk_port key)"

definition network_access_to :: "host_approval_key \<Rightarrow> string" where
  "network_access_to key = ''Network access to '' @ [CHR 0x22] @ url_text key @ [CHR 0x22]"

definition resolve_pending_decision :: "host_approval_key \<Rightarrow> pending_approval_decision \<Rightarrow> string + unit" where
  "resolve_pending_decision key decision =
     (if decision = Deny then Inl (network_access_to key @ '' was rejected by the user.'') else Inr ())"

section \<open>A call\<close>

text \<open>Where a call stands. \<open>Storing\<close> is before the first and \<open>Stored\<close> before the second of the two
  sets is changed; \<open>Finished\<close> carries the pending approval that it went through.\<close>

datatype net_pc =
    Started
  | Check_Approved
  | Get_Pending
  | Waiting nat
  | Asking nat
  | Storing pending_approval_decision nat
  | Stored pending_approval_decision nat
  | Publishing pending_approval_decision nat
  | Removing pending_approval_decision nat
  | Check_Denied
  | Finished "nat option" "string + unit"
  | Dropped

definition deny_by_policy ::
  "string \<Rightarrow> net_runtime \<Rightarrow> host_approval_key \<Rightarrow> string \<Rightarrow> network_service \<Rightarrow> net_pc \<times> network_service" where
  "deny_by_policy now rt key reason sv =
     (Finished None (Inl reason),
      record_runtime_outcome rt (DeniedByPolicy reason) (record_network_audit_event now key ''policy_denied'' (Some reason) sv))"

definition decision_of_review :: "review_decision \<Rightarrow> pending_approval_decision" where
  "decision_of_review d = (case d of Approved \<Rightarrow> AllowOnce | Always \<Rightarrow> AllowForSession | Denied \<Rightarrow> Deny)"

definition audit_text :: "pending_approval_decision \<Rightarrow> string" where
  "audit_text d = (case d of AllowOnce \<Rightarrow> ''allow_once'' | AllowForSession \<Rightarrow> ''allow_session'' | Deny \<Rightarrow> ''deny'')"

text \<open>One locked step of a call: \<open>now\<close> is the time and \<open>review\<close> the answer of the user, if the step
  needs them; \<open>None\<close> while the call waits for a decision.\<close>

fun task_step :: "string \<Rightarrow> review_decision \<Rightarrow> net_runtime \<Rightarrow> host_approval_key \<Rightarrow> net_pc \<Rightarrow> network_service
    \<Rightarrow> (net_pc \<times> network_service) option" where
  "task_step now review rt key Started sv = Some (
     if host_matches_any (hk_host key) (nr_denied_domains rt)
     then deny_by_policy now rt key (network_access_to key @ '' was blocked by denied_domains policy.'') sv
     else if host_matches_any (hk_host key) (nr_allowed_domains rt)
       \<or> host_matches_any (hk_host key) (nr_default_allowed_domains rt)
     then (Finished None (Inr ()), sv)
     else (Check_Denied, sv))"
| "task_step now review rt key Check_Denied sv = Some (
     if key \<in> set (ns_denied sv)
     then (Finished None (Inl (network_access_to key @ '' was rejected by the user.'')),
       record_runtime_outcome rt DeniedByUser sv)
     else (Check_Approved, sv))"
| "task_step now review rt key Check_Approved sv = Some (
     if key \<in> set (ns_approved sv) then (Finished None (Inr ()), sv)
     else if \<not> nr_has_managed_network_requirements rt \<and> nr_allowed_domains rt = [] then (Finished None (Inr ()), sv)
     else if \<not> allows_network_prompt (nr_approval_policy rt)
     then deny_by_policy now rt key (network_access_to key @ '' is blocked by approval policy.'') sv
     else (Get_Pending, sv))"
| "task_step now review rt key Get_Pending sv = Some (
     case get_or_create_pending_approval key sv of
       ((pending, is_owner), sv1) \<Rightarrow> (if is_owner then Asking pending else Waiting pending, sv1))"
| "task_step now review rt key (Waiting p) sv =
     (case ns_decisions sv ! p of
        None \<Rightarrow> None
      | Some decision \<Rightarrow> Some (Finished (Some p) (resolve_pending_decision key decision), sv))"
| "task_step now review rt key (Asking p) sv = Some (
     let resolved = decision_of_review review;
         sv1 = record_network_audit_event now key (audit_text resolved) None sv
     in (if resolved = AllowOnce then Publishing resolved p else Storing resolved p, sv1))"
| "task_step now review rt key (Storing d p) sv = Some (Stored d p,
     if d = AllowForSession then sv\<lparr>ns_denied := removeAll key (ns_denied sv)\<rparr>
     else sv\<lparr>ns_approved := removeAll key (ns_approved sv)\<rparr>)"
| "task_step now review rt key (Stored d p) sv = Some (Publishing d p,
     if d = AllowForSession then sv\<lparr>ns_approved := List.insert key (ns_approved sv)\<rparr>
     else record_runtime_outcome rt DeniedByUser (sv\<lparr>ns_denied := List.insert key (ns_denied sv)\<rparr>))"
| "task_step now review rt key (Publishing d p) sv = Some (Removing d p,
     sv\<lparr>ns_decisions := (ns_decisions sv)[p := Some d]\<rparr>)"
| "task_step now review rt key (Removing d p) sv = Some (Finished (Some p) (resolve_pending_decision key d),
     sv\<lparr>ns_pending := hm_remove key (ns_pending sv)\<rparr>)"
| "task_step now review rt key (Finished p r) sv = None"
| "task_step now review rt key Dropped sv = None"

section \<open>Calls side by side\<close>

record net_task =
  nt_runtime :: net_runtime
  nt_key :: host_approval_key
  nt_pc :: net_pc

record net_run =
  nn_service :: network_service
  nn_tasks :: "net_task list"

definition net_start :: "net_run \<Rightarrow> bool" where
  "net_start s \<longleftrightarrow> nn_service s = empty_service \<and> nn_tasks s = []"

definition advance :: "nat \<Rightarrow> net_pc \<Rightarrow> network_service \<Rightarrow> net_run \<Rightarrow> net_run" where
  "advance i pc sv s = \<lparr>nn_service = sv, nn_tasks = (nn_tasks s)[i := (nn_tasks s ! i)\<lparr>nt_pc := pc\<rparr>]\<rparr>"

fun done_pc :: "net_pc \<Rightarrow> bool" where
  "done_pc (Finished _ _) = True"
| "done_pc Dropped = True"
| "done_pc _ = False"

text \<open>A new call, a locked step of a call, and, where \<open>drops\<close> allows it, a call that is dropped.\<close>

inductive net_step :: "bool \<Rightarrow> net_run \<Rightarrow> net_run \<Rightarrow> bool" for drops :: bool where
  arrive: "net_step drops s (s\<lparr>nn_tasks := nn_tasks s @ [\<lparr>nt_runtime = rt, nt_key = key, nt_pc = Started\<rparr>]\<rparr>)"
| run: "i < length (nn_tasks s) \<Longrightarrow> t = nn_tasks s ! i \<Longrightarrow>
    task_step now review (nt_runtime t) (nt_key t) (nt_pc t) (nn_service s) = Some (pc, sv) \<Longrightarrow>
    net_step drops s (advance i pc sv s)"
| drop_task: "drops \<Longrightarrow> i < length (nn_tasks s) \<Longrightarrow> \<not> done_pc (nt_pc (nn_tasks s ! i)) \<Longrightarrow>
    net_step drops s (advance i Dropped (nn_service s) s)"

inductive_cases net_stepE: "net_step drops s s'"

end
