(* ===== verification/NetworkConsent.thy ===== *)
theory NetworkConsent
  imports NetworkAuthorize
begin

text \<open>
  What holds of the network service under every interleaving of the calls: no host is approved
  and denied, one call at a time asks about a host, and all calls that went through one prompt
  got its answer. And what a dropped call leaves behind.
\<close>

section \<open>The owner of a prompt\<close>

fun owner_of :: "net_pc \<Rightarrow> nat option" where
  "owner_of (Asking p) = Some p"
| "owner_of (Storing d p) = Some p"
| "owner_of (Stored d p) = Some p"
| "owner_of (Publishing d p) = Some p"
| "owner_of (Removing d p) = Some p"
| "owner_of _ = None"

abbreviation pending_at :: "network_service \<Rightarrow> host_approval_key \<Rightarrow> nat option" where
  "pending_at sv key \<equiv> hm_get (ns_pending sv) key"

text \<open>What holds of a call where it stands.\<close>

definition task_ok :: "network_service \<Rightarrow> net_task \<Rightarrow> bool" where
  "task_ok sv t \<longleftrightarrow>
     (case nt_pc t of
        Waiting p \<Rightarrow> p < length (ns_decisions sv)
      | Asking p \<Rightarrow> pending_at sv (nt_key t) = Some p \<and> ns_decisions sv ! p = None
      | Storing d p \<Rightarrow> pending_at sv (nt_key t) = Some p \<and> ns_decisions sv ! p = None \<and> d \<noteq> AllowOnce
      | Stored d p \<Rightarrow> pending_at sv (nt_key t) = Some p \<and> ns_decisions sv ! p = None \<and> d \<noteq> AllowOnce
          \<and> (d = AllowForSession \<longrightarrow> nt_key t \<notin> set (ns_denied sv)) \<and> (d = Deny \<longrightarrow> nt_key t \<notin> set (ns_approved sv))
      | Publishing d p \<Rightarrow> pending_at sv (nt_key t) = Some p \<and> ns_decisions sv ! p = None
      | Removing d p \<Rightarrow> pending_at sv (nt_key t) = Some p \<and> ns_decisions sv ! p = Some d
      | Finished (Some p) r \<Rightarrow> p < length (ns_decisions sv)
          \<and> (\<exists>d. ns_decisions sv ! p = Some d \<and> r = resolve_pending_decision (nt_key t) d)
      | _ \<Rightarrow> True)"

definition service_ok :: "network_service \<Rightarrow> bool" where
  "service_ok sv \<longleftrightarrow>
     (\<forall>k p. pending_at sv k = Some p \<longrightarrow> p < length (ns_decisions sv))
     \<and> (\<forall>k k' p. pending_at sv k = Some p \<longrightarrow> pending_at sv k' = Some p \<longrightarrow> k = k')
     \<and> set (ns_approved sv) \<inter> set (ns_denied sv) = {}"

text \<open>What a step of a call leaves alone: the decisions of the prompts that it does not own, and
  everything about the other hosts.\<close>

definition frame :: "net_task \<Rightarrow> network_service \<Rightarrow> network_service \<Rightarrow> bool" where
  "frame t sv sv' \<longleftrightarrow>
     length (ns_decisions sv) \<le> length (ns_decisions sv')
     \<and> (\<forall>q < length (ns_decisions sv). owner_of (nt_pc t) \<noteq> Some q \<or> ns_decisions sv ! q \<noteq> None
          \<longrightarrow> ns_decisions sv' ! q = ns_decisions sv ! q)
     \<and> (\<forall>k. k \<noteq> nt_key t \<longrightarrow> pending_at sv' k = pending_at sv k
          \<and> (k \<in> set (ns_approved sv') \<longleftrightarrow> k \<in> set (ns_approved sv)) \<and> (k \<in> set (ns_denied sv') \<longleftrightarrow> k \<in> set (ns_denied sv)))
     \<and> (owner_of (nt_pc t) = None \<longrightarrow> ns_approved sv' = ns_approved sv \<and> ns_denied sv' = ns_denied sv)"

lemma service_simps [simp]:
  "ns_pending (push_audit_event e sv) = ns_pending sv" "ns_decisions (push_audit_event e sv) = ns_decisions sv"
  "ns_approved (push_audit_event e sv) = ns_approved sv" "ns_denied (push_audit_event e sv) = ns_denied sv"
  "ns_pending (record_network_audit_event now k d r sv) = ns_pending sv"
  "ns_decisions (record_network_audit_event now k d r sv) = ns_decisions sv"
  "ns_approved (record_network_audit_event now k d r sv) = ns_approved sv"
  "ns_denied (record_network_audit_event now k d r sv) = ns_denied sv"
  "ns_pending (record_runtime_outcome rt out sv) = ns_pending sv"
  "ns_decisions (record_runtime_outcome rt out sv) = ns_decisions sv"
  "ns_approved (record_runtime_outcome rt out sv) = ns_approved sv"
  "ns_denied (record_runtime_outcome rt out sv) = ns_denied sv"
  by (simp_all add: push_audit_event_def Let_def record_network_audit_event_def record_runtime_outcome_def
      split: option.split)

lemmas step_defs = task_ok_def service_ok_def frame_def deny_by_policy_def get_or_create_pending_approval_def

text \<open>Whether the call becomes, stays or stops being the owner.\<close>

definition owner_change :: "net_task \<Rightarrow> network_service \<Rightarrow> net_pc \<Rightarrow> network_service \<Rightarrow> bool" where
  "owner_change t sv pc sv' \<longleftrightarrow>
     (owner_of pc = owner_of (nt_pc t) \<and> pending_at sv' (nt_key t) = pending_at sv (nt_key t))
     \<or> (owner_of pc = None \<and> (owner_of (nt_pc t) \<noteq> None \<and> pending_at sv' (nt_key t) = None))
     \<or> (owner_of (nt_pc t) = None \<and> pending_at sv (nt_key t) = None \<and> owner_of pc = Some (length (ns_decisions sv))
        \<and> pending_at sv' (nt_key t) = Some (length (ns_decisions sv)))"

lemma task_step_ok:
  assumes "task_step now review (nt_runtime t) (nt_key t) (nt_pc t) sv = Some (pc, sv')"
    and "task_ok sv t" and "service_ok sv"
  shows "task_ok sv' (t\<lparr>nt_pc := pc\<rparr>) \<and> service_ok sv' \<and> frame t sv sv' \<and> owner_change t sv pc sv'"
proof (cases "nt_pc t")
  case Get_Pending
  show ?thesis
  proof (cases "pending_at sv (nt_key t)")
    case None
    then have sv': "pc = Asking (length (ns_decisions sv))"
      "sv' = sv\<lparr>ns_decisions := ns_decisions sv @ [None], ns_pending := hm_insert (nt_key t) (length (ns_decisions sv)) (ns_pending sv)\<rparr>"
      using assms(1) Get_Pending by (auto simp: get_or_create_pending_approval_def Let_def)
    have old: "pending_at sv k = Some p \<Longrightarrow> p < length (ns_decisions sv)" for k p
      using assms(3) by (simp add: service_ok_def)
    have "service_ok sv'"
      using assms(3) unfolding service_ok_def sv' by (auto simp: get_hm_insert dest!: old intro: less_SucI)
    then show ?thesis
      using Get_Pending None by (auto simp: sv' task_ok_def frame_def owner_change_def get_hm_insert nth_append)
  next
    case (Some p)
    then show ?thesis
      using assms Get_Pending
      by (auto simp: task_ok_def frame_def owner_change_def service_ok_def get_or_create_pending_approval_def)
  qed
next
  case (Asking p)
  then show ?thesis
    using assms by (auto simp: step_defs owner_change_def Let_def decision_of_review_def split: review_decision.splits)
next
  case (Storing d p)
  then show ?thesis using assms by (cases d) (auto simp: step_defs owner_change_def)
next
  case (Stored d p)
  then show ?thesis using assms by (cases d) (auto simp: step_defs owner_change_def)
next
  case (Publishing d p)
  then show ?thesis
    using assms by (auto simp: step_defs owner_change_def nth_list_update)
next
  case (Removing d p)
  then have sv': "sv' = sv\<lparr>ns_pending := hm_remove (nt_key t) (ns_pending sv)\<rparr>"
    "pc = Finished (Some p) (resolve_pending_decision (nt_key t) d)"
    using assms(1) by simp_all
  then show ?thesis
    using assms Removing by (auto simp: step_defs owner_change_def get_hm_remove split: if_splits)
next
  case (Waiting p)
  then show ?thesis using assms by (auto simp: step_defs owner_change_def split: option.splits)
qed (use assms in \<open>auto simp: step_defs owner_change_def split: if_splits\<close>)

text \<open>Another call keeps its place, unless it owns the same prompt.\<close>

lemma other_task_ok:
  assumes "frame t sv sv'" "task_ok sv t" "task_ok sv u" "service_ok sv"
    and own: "owner_of (nt_pc t) \<noteq> None \<longrightarrow> owner_of (nt_pc u) \<noteq> owner_of (nt_pc t)"
    and new: "owner_of (nt_pc t) = None \<longrightarrow> pending_at sv (nt_key t) \<noteq> None \<longrightarrow> pending_at sv' (nt_key t) = pending_at sv (nt_key t)"
  shows "task_ok sv' u"
proof (cases "owner_of (nt_pc u)")
  case None
  then show ?thesis
    using assms(1,3) by (cases "nt_pc u") (auto simp: task_ok_def frame_def split: option.splits)
next
  case (Some p)
  have u: "pending_at sv (nt_key u) = Some p" using assms(3) Some by (cases "nt_pc u") (auto simp: task_ok_def)
  then have p: "p < length (ns_decisions sv)" using assms(4) by (simp add: service_ok_def)
  have np: "owner_of (nt_pc t) \<noteq> Some p" using own Some by auto
  have t: "owner_of (nt_pc t) = Some q \<Longrightarrow> pending_at sv (nt_key t) = Some q" for q
    using assms(2) by (cases "nt_pc t") (auto simp: task_ok_def)
  have dec: "ns_decisions sv' ! p = ns_decisions sv ! p" using assms(1) p np by (simp add: frame_def)
  show ?thesis
  proof (cases "nt_key u = nt_key t")
    case True
    then have "owner_of (nt_pc t) = None" using t u np by (cases "owner_of (nt_pc t)") auto
    with assms(1,3) dec u True new Some show ?thesis
      by (cases "nt_pc u") (auto simp: task_ok_def frame_def)
  next
    case False
    then show ?thesis using assms(1,3) dec Some by (cases "nt_pc u") (auto simp: task_ok_def frame_def)
  qed
qed

section \<open>All calls\<close>

definition net_inv :: "net_run \<Rightarrow> bool" where
  "net_inv s \<longleftrightarrow> service_ok (nn_service s) \<and> (\<forall>t \<in> set (nn_tasks s). task_ok (nn_service s) t)
     \<and> (\<forall>i < length (nn_tasks s). \<forall>j < length (nn_tasks s). i \<noteq> j \<longrightarrow> owner_of (nt_pc (nn_tasks s ! i)) \<noteq> None
          \<longrightarrow> owner_of (nt_pc (nn_tasks s ! i)) \<noteq> owner_of (nt_pc (nn_tasks s ! j)))"

lemma net_inv_run:
  assumes inv: "net_inv s" and i: "i < length (nn_tasks s)" and t: "t = nn_tasks s ! i"
    and ok: "task_ok sv (t\<lparr>nt_pc := pc\<rparr>)" "service_ok sv" "frame t (nn_service s) sv" "owner_change t (nn_service s) pc sv"
  shows "net_inv (advance i pc sv s)"
proof -
  let ?ts = "nn_tasks s"
  have task: "task_ok (nn_service s) (?ts ! j)" if "j < length ?ts" for j
    using inv that by (simp add: net_inv_def)
  have svc: "service_ok (nn_service s)" using inv by (simp add: net_inv_def)
  have single: "owner_of (nt_pc (?ts ! a)) \<noteq> owner_of (nt_pc (?ts ! b))"
    if "a < length ?ts" "b < length ?ts" "a \<noteq> b" "owner_of (nt_pc (?ts ! a)) \<noteq> None" for a b
    using inv that by (simp add: net_inv_def)
  have own_lt: "owner_of (nt_pc (?ts ! j)) \<noteq> Some (length (ns_decisions (nn_service s)))" if "j < length ?ts" for j
  proof
    assume "owner_of (nt_pc (?ts ! j)) = Some (length (ns_decisions (nn_service s)))"
    then have "pending_at (nn_service s) (nt_key (?ts ! j)) = Some (length (ns_decisions (nn_service s)))"
      using task [OF that] by (cases "nt_pc (?ts ! j)") (auto simp: task_ok_def)
    then show False using svc by (auto simp: service_ok_def)
  qed
  have other: "task_ok sv (?ts ! j)" if "j < length ?ts" "j \<noteq> i" for j
  proof (rule other_task_ok [OF ok(3) _ task [OF that(1)] svc])
    show "task_ok (nn_service s) t" using task [OF i] t by simp
    show "owner_of (nt_pc t) \<noteq> None \<longrightarrow> owner_of (nt_pc (?ts ! j)) \<noteq> owner_of (nt_pc t)"
      using single [OF i that(1)] that(2) t by metis
    show "owner_of (nt_pc t) = None \<longrightarrow> pending_at (nn_service s) (nt_key t) \<noteq> None \<longrightarrow>
        pending_at sv (nt_key t) = pending_at (nn_service s) (nt_key t)"
      using ok(4) by (auto simp: owner_change_def)
  qed
  have "\<forall>u \<in> set (?ts[i := t\<lparr>nt_pc := pc\<rparr>]). task_ok sv u"
  proof
    fix u
    assume "u \<in> set (?ts[i := t\<lparr>nt_pc := pc\<rparr>])"
    then obtain a where "a < length ?ts" "u = ?ts[i := t\<lparr>nt_pc := pc\<rparr>] ! a" by (auto simp: in_set_conv_nth)
    then show "task_ok sv u" using ok(1) other [of a] by (cases "a = i") auto
  qed
  moreover have "owner_of (nt_pc (?ts[i := t\<lparr>nt_pc := pc\<rparr>] ! a)) \<noteq> owner_of (nt_pc (?ts[i := t\<lparr>nt_pc := pc\<rparr>] ! b))"
    if "a < length ?ts" "b < length ?ts" "a \<noteq> b" "owner_of (nt_pc (?ts[i := t\<lparr>nt_pc := pc\<rparr>] ! a)) \<noteq> None" for a b
  proof -
    have upd: "owner_of (nt_pc (?ts[i := t\<lparr>nt_pc := pc\<rparr>] ! j)) = (if j = i then owner_of pc else owner_of (nt_pc (?ts ! j)))"
      if "j < length ?ts" for j
      using that by (cases "j = i") auto
    have pc: "owner_of pc = None \<or> owner_of pc = owner_of (nt_pc (?ts ! i)) \<or> owner_of pc = Some (length (ns_decisions (nn_service s)))"
      using ok(4) t by (auto simp: owner_change_def)
    have new: "owner_of pc \<noteq> None \<Longrightarrow> j < length ?ts \<Longrightarrow> j \<noteq> i \<Longrightarrow> owner_of pc \<noteq> owner_of (nt_pc (?ts ! j))" for j
      using pc single [OF i, of j] own_lt [of j] by metis
    show ?thesis
      using new [of a] new [of b] single [OF that(1-3)] that upd [OF that(1)] upd [OF that(2)] by (metis (full_types))
  qed
  ultimately show ?thesis using ok(2) t by (simp add: net_inv_def advance_def)
qed

lemma net_inv_step: "net_step drops s s' \<Longrightarrow> net_inv s \<Longrightarrow> net_inv s'"
proof (induction rule: net_step.induct)
  case (arrive s rt key)
  then show ?case by (auto simp: net_inv_def task_ok_def nth_append less_Suc_eq)
next
  case (run i s t now review pc sv)
  have "task_ok (nn_service s) t" "service_ok (nn_service s)" using run by (auto simp: net_inv_def)
  from task_step_ok [OF run(3) this] run(1,2) show ?case
    using net_inv_run [OF run(4), of i t] by blast
next
  case (drop_task i s)
  let ?ts = "nn_tasks s" and ?ts' = "(nn_tasks s)[i := (nn_tasks s ! i)\<lparr>nt_pc := Dropped\<rparr>]"
  have "task_ok (nn_service s) ((nn_tasks s ! i)\<lparr>nt_pc := Dropped\<rparr>)" by (simp add: task_ok_def)
  then have "\<forall>u \<in> set ?ts'. task_ok (nn_service s) u"
    using drop_task(4) set_update_subset_insert [of ?ts i] unfolding net_inv_def by blast
  moreover have "owner_of (nt_pc (?ts' ! j)) = (if j = i then None else owner_of (nt_pc (?ts ! j)))"
    if "j < length ?ts" for j
    using that by (cases "j = i") auto
  ultimately show ?case
    using drop_task(4) unfolding net_inv_def advance_def by (simp; metis)
qed

lemma net_inv_start: "net_start s \<Longrightarrow> net_inv s"
  by (auto simp: net_start_def net_inv_def service_ok_def empty_service_def)

interpretation network: machine net_start "net_step drops" net_inv
  by unfold_locales (auto intro: net_inv_start net_inv_step)

section \<open>Consent\<close>

lemma owner_pending: "task_ok sv t \<Longrightarrow> owner_of (nt_pc t) = Some p \<Longrightarrow> pending_at sv (nt_key t) = Some p"
  by (cases "nt_pc t") (auto simp: task_ok_def)

text \<open>C18. Under every interleaving of calls, dropped ones included, no host is both approved and
  denied for the session, and at most one call at a time owns the prompt for a host.\<close>

theorem network_sets_disjoint:
  assumes "net_start s0" and "(net_step drops)\<^sup>*\<^sup>* s0 s"
  shows "set (ns_approved (nn_service s)) \<inter> set (ns_denied (nn_service s)) = {}
    \<and> (\<forall>i < length (nn_tasks s). \<forall>j < length (nn_tasks s). i \<noteq> j \<longrightarrow> owner_of (nt_pc (nn_tasks s ! i)) \<noteq> None
         \<longrightarrow> owner_of (nt_pc (nn_tasks s ! j)) \<noteq> None \<longrightarrow> nt_key (nn_tasks s ! i) \<noteq> nt_key (nn_tasks s ! j))"
proof -
  have inv: "net_inv s" by (rule network.inv_reachable [OF assms])
  have "nt_key (nn_tasks s ! i) \<noteq> nt_key (nn_tasks s ! j)"
    if "i < length (nn_tasks s)" "j < length (nn_tasks s)" "i \<noteq> j" "owner_of (nt_pc (nn_tasks s ! i)) \<noteq> None"
      "owner_of (nt_pc (nn_tasks s ! j)) \<noteq> None" for i j
  proof
    assume "nt_key (nn_tasks s ! i) = nt_key (nn_tasks s ! j)"
    moreover have "task_ok (nn_service s) (nn_tasks s ! i)" "task_ok (nn_service s) (nn_tasks s ! j)"
      using inv that(1,2) by (auto simp: net_inv_def)
    moreover from that(4,5) obtain p q where "owner_of (nt_pc (nn_tasks s ! i)) = Some p" "owner_of (nt_pc (nn_tasks s ! j)) = Some q"
      by auto
    ultimately have "owner_of (nt_pc (nn_tasks s ! i)) = owner_of (nt_pc (nn_tasks s ! j))"
      using owner_pending [of "nn_service s" "nn_tasks s ! i" p] owner_pending [of "nn_service s" "nn_tasks s ! j" q] by simp
    moreover have "owner_of (nt_pc (nn_tasks s ! i)) \<noteq> owner_of (nt_pc (nn_tasks s ! j))"
      using inv that(1-4) by (simp add: net_inv_def)
    ultimately show False by blast
  qed
  with inv show ?thesis by (auto simp: net_inv_def service_ok_def)
qed

text \<open>All calls that went through one prompt got one answer: the answer of the user to it.\<close>

theorem prompt_has_one_answer:
  assumes "net_start s0" and "(net_step drops)\<^sup>*\<^sup>* s0 s"
    and "t \<in> set (nn_tasks s)" "nt_pc t = Finished (Some p) r"
    and "u \<in> set (nn_tasks s)" "nt_pc u = Finished (Some p) r'"
  shows "\<exists>d. r = resolve_pending_decision (nt_key t) d \<and> r' = resolve_pending_decision (nt_key u) d
    \<and> (isl r \<longleftrightarrow> isl r')"
proof -
  have "net_inv s" by (rule network.inv_reachable [OF assms(1,2)])
  then have "task_ok (nn_service s) t" "task_ok (nn_service s) u" using assms(3,5) by (auto simp: net_inv_def)
  with assms(4,6) obtain d where "r = resolve_pending_decision (nt_key t) d" "r' = resolve_pending_decision (nt_key u) d"
    by (auto simp: task_ok_def)
  then show ?thesis by (intro exI [of _ d]) (simp add: resolve_pending_decision_def)
qed

section \<open>Progress\<close>

text \<open>Without dropped calls, every prompt has its owner.\<close>

definition prompts_owned :: "net_run \<Rightarrow> bool" where
  "prompts_owned s \<longleftrightarrow> net_inv s
     \<and> (\<forall>p < length (ns_decisions (nn_service s)). ns_decisions (nn_service s) ! p = None \<longrightarrow>
          (\<exists>i < length (nn_tasks s). owner_of (nt_pc (nn_tasks s ! i)) = Some p))"

lemma owner_keeps:
  assumes "task_step now review rt key pc sv = Some (pc', sv')" and "owner_of pc = Some p" "p < length (ns_decisions sv)"
  shows "owner_of pc' = Some p \<or> ns_decisions sv' ! p \<noteq> None \<or> (\<exists>d. pc = Removing d p)"
  using assms by (cases pc) (auto simp: Let_def)

lemma new_prompt_owned:
  assumes "task_step now review rt key pc sv = Some (pc', sv')" and "length (ns_decisions sv) < length (ns_decisions sv')"
  shows "owner_of pc' = Some (length (ns_decisions sv)) \<and> length (ns_decisions sv') = Suc (length (ns_decisions sv))"
  using assms
  by (cases pc) (auto simp: Let_def deny_by_policy_def get_or_create_pending_approval_def split: if_splits option.splits)

lemma prompts_owned_step: "net_step False s s' \<Longrightarrow> prompts_owned s \<Longrightarrow> prompts_owned s'"
proof (induction rule: net_step.induct)
  case (arrive s rt key)
  then have "net_inv (s\<lparr>nn_tasks := nn_tasks s @ [\<lparr>nt_runtime = rt, nt_key = key, nt_pc = Started\<rparr>]\<rparr>)"
    using net_inv_step [OF net_step.arrive [of False]] by (auto simp: prompts_owned_def)
  moreover have "\<exists>i < length (nn_tasks s @ [x]). owner_of (nt_pc ((nn_tasks s @ [x]) ! i)) = Some p"
    if "\<exists>i < length (nn_tasks s). owner_of (nt_pc (nn_tasks s ! i)) = Some p" for p x
  proof -
    from that obtain i where "i < length (nn_tasks s)" "owner_of (nt_pc (nn_tasks s ! i)) = Some p" by blast
    then show ?thesis by (intro exI [of _ i]) (simp add: nth_append)
  qed
  ultimately show ?case using arrive unfolding prompts_owned_def by (simp del: length_append)
next
  case (run i s t now review pc sv)
  let ?dec = "ns_decisions (nn_service s)"
  have inv: "net_inv s" using run(4) by (simp add: prompts_owned_def)
  have ok: "task_ok (nn_service s) t" "service_ok (nn_service s)" using inv run(1,2) by (auto simp: net_inv_def)
  note step = task_step_ok [OF run(3) ok]
  have "net_inv (advance i pc sv s)" using net_inv_step [OF net_step.run [of i s t now review pc sv False]] run inv by blast
  moreover have "\<exists>j < length (nn_tasks s). owner_of (nt_pc (nn_tasks (advance i pc sv s) ! j)) = Some p"
    if p: "p < length (ns_decisions sv)" "ns_decisions sv ! p = None" for p
  proof (cases "p < length ?dec")
    case True
    then have "?dec ! p = None" using step p(2) by (auto simp: frame_def)
    then obtain j where j: "j < length (nn_tasks s)" "owner_of (nt_pc (nn_tasks s ! j)) = Some p"
      using run(4) True by (auto simp: prompts_owned_def)
    show ?thesis
    proof (cases "j = i")
      case True
      have "\<not> (\<exists>d. nt_pc t = Removing d p)" using ok(1) \<open>?dec ! p = None\<close> by (auto simp: task_ok_def)
      then have "owner_of pc = Some p"
        using owner_keeps [OF run(3), of p] j(2) True run(2) p(2) \<open>p < length ?dec\<close> by auto
      then show ?thesis using j(1) True by (intro exI [of _ i]) (simp add: advance_def)
    next
      case False
      then show ?thesis using j by (intro exI [of _ j]) (simp add: advance_def)
    qed
  next
    case False
    then have "owner_of pc = Some p" using new_prompt_owned [OF run(3)] p(1) by auto
    then show ?thesis using run(1) by (intro exI [of _ i]) (simp add: advance_def)
  qed
  ultimately show ?case by (simp add: prompts_owned_def advance_def)
qed simp

lemma prompts_owned_start: "net_start s \<Longrightarrow> prompts_owned s"
  using net_inv_start [of s] by (simp add: prompts_owned_def net_start_def empty_service_def)

interpretation network_live: machine net_start "net_step False" prompts_owned
  by unfold_locales (rule prompts_owned_start, assumption, rule prompts_owned_step)

text \<open>C19. As long as no call is dropped, nothing gets stuck: a call that waits for an answer can
  either go on at once, or the call that owns the prompt is still running and has a next step.\<close>

theorem waiting_is_answered:
  assumes "net_start s0" and "(net_step False)\<^sup>*\<^sup>* s0 s"
    and "t \<in> set (nn_tasks s)" "nt_pc t = Waiting p"
  shows "task_step now review (nt_runtime t) (nt_key t) (nt_pc t) (nn_service s) \<noteq> None
    \<or> (\<exists>u \<in> set (nn_tasks s). owner_of (nt_pc u) = Some p
         \<and> task_step now review (nt_runtime u) (nt_key u) (nt_pc u) (nn_service s) \<noteq> None)"
proof -
  have owned: "prompts_owned s" by (rule network_live.inv_reachable [OF assms(1,2)])
  then have "p < length (ns_decisions (nn_service s))"
    using assms(3,4) by (auto simp: prompts_owned_def net_inv_def task_ok_def split: net_pc.splits)
  show ?thesis
  proof (cases "ns_decisions (nn_service s) ! p")
    case None
    with owned \<open>p < _\<close> obtain i where i: "i < length (nn_tasks s)" "owner_of (nt_pc (nn_tasks s ! i)) = Some p"
      by (auto simp: prompts_owned_def)
    then have "task_step now review (nt_runtime (nn_tasks s ! i)) (nt_key (nn_tasks s ! i)) (nt_pc (nn_tasks s ! i)) (nn_service s) \<noteq> None"
      by (cases "nt_pc (nn_tasks s ! i)") auto
    with i show ?thesis using nth_mem by blast
  next
    case (Some d)
    then show ?thesis using assms(4) by simp
  qed
qed

section \<open>A dropped call\<close>

text \<open>A prompt without an owner and without an answer.\<close>

definition orphaned :: "host_approval_key \<Rightarrow> nat \<Rightarrow> net_run \<Rightarrow> bool" where
  "orphaned key p s \<longleftrightarrow> net_inv s \<and> pending_at (nn_service s) key = Some p \<and> ns_decisions (nn_service s) ! p = None
     \<and> (\<forall>t \<in> set (nn_tasks s). owner_of (nt_pc t) \<noteq> Some p)"

lemma orphaned_step: "net_step drops s s' \<Longrightarrow> orphaned key p s \<Longrightarrow> orphaned key p s'"
proof (induction rule: net_step.induct)
  case (arrive s rt k)
  then show ?case
    using net_inv_step [OF net_step.arrive [of drops]] by (auto simp: orphaned_def)
next
  case (run i s t now review pc sv)
  have inv: "net_inv s" using run(4) by (simp add: orphaned_def)
  have mem: "t \<in> set (nn_tasks s)" using run(1,2) by simp
  have ok: "task_ok (nn_service s) t" "service_ok (nn_service s)" using inv mem by (auto simp: net_inv_def)
  note step = task_step_ok [OF run(3) ok]
  have p: "p < length (ns_decisions (nn_service s))" "pending_at (nn_service s) key = Some p"
    using run(4) ok(2) by (auto simp: orphaned_def service_ok_def)
  have no: "owner_of (nt_pc t) \<noteq> Some p" using run(4) mem by (simp add: orphaned_def)
  have key: "nt_key t = key \<Longrightarrow> owner_of (nt_pc t) = None"
    using owner_pending [OF ok(1)] p(2) no by (cases "owner_of (nt_pc t)") auto
  have "pending_at sv key = Some p"
    using step p(2) key by (cases "nt_key t = key") (auto simp: frame_def owner_change_def)
  moreover have "ns_decisions sv ! p = None" using step p(1) no run(4) by (auto simp: frame_def orphaned_def)
  moreover have "owner_of pc \<noteq> Some p" using step no p(1) by (auto simp: owner_change_def)
  moreover have "net_inv (advance i pc sv s)" using net_inv_step [OF net_step.run [of i s t now review pc sv drops]] run inv by blast
  ultimately show ?case
    using run(4) by (auto simp: orphaned_def advance_def dest!: set_update_subset_insert [THEN subsetD])
next
  case (drop_task i s)
  then have "net_inv (advance i Dropped (nn_service s) s)"
    using net_inv_step [OF net_step.drop_task] by (auto simp: orphaned_def)
  with drop_task show ?case
    by (auto simp: orphaned_def advance_def dest!: set_update_subset_insert [THEN subsetD])
qed

lemma orphaned_stays: "(net_step drops)\<^sup>*\<^sup>* s s' \<Longrightarrow> orphaned key p s \<Longrightarrow> orphaned key p s'"
  by (induction rule: rtranclp_induct) (auto intro: orphaned_step)

text \<open>A call that is dropped while its prompt is open blocks the host for good: the prompt stays
  registered without an owner, and from then on, whatever happens, every call for the host that
  gets to the prompt waits for an answer that nobody gives.\<close>

theorem dropped_prompt_blocks_host:
  assumes "net_start s0" and "(net_step drops)\<^sup>*\<^sup>* s0 s" and "i < length (nn_tasks s)"
    and "nt_pc (nn_tasks s ! i) = Asking p"
    and "(net_step drops)\<^sup>*\<^sup>* (advance i Dropped (nn_service s) s) s'"
    and "t \<in> set (nn_tasks s')" "nt_key t = nt_key (nn_tasks s ! i)"
  shows "(nt_pc t = Get_Pending \<longrightarrow>
      task_step now review (nt_runtime t) (nt_key t) (nt_pc t) (nn_service s') = Some (Waiting p, nn_service s'))
    \<and> (nt_pc t = Waiting p \<longrightarrow> task_step now review (nt_runtime t) (nt_key t) (nt_pc t) (nn_service s') = None)"
proof -
  let ?key = "nt_key (nn_tasks s ! i)"
  have inv: "net_inv s" by (rule network.inv_reachable [OF assms(1,2)])
  have "task_ok (nn_service s) (nn_tasks s ! i)" using inv assms(3) by (auto simp: net_inv_def)
  then have pend: "pending_at (nn_service s) ?key = Some p" "ns_decisions (nn_service s) ! p = None"
    using assms(4) by (auto simp: task_ok_def)
  have "net_step True s (advance i Dropped (nn_service s) s)"
    by (rule net_step.drop_task) (use assms(3,4) in auto)
  from net_inv_step [OF this inv] have "net_inv (advance i Dropped (nn_service s) s)" .
  moreover have "owner_of (nt_pc u) \<noteq> Some p" if u: "u \<in> set (nn_tasks (advance i Dropped (nn_service s) s))" for u
  proof -
    obtain j where j: "j < length (nn_tasks s)" "u = (nn_tasks s)[i := (nn_tasks s ! i)\<lparr>nt_pc := Dropped\<rparr>] ! j"
      using u by (auto simp: in_set_conv_nth advance_def)
    have "j \<noteq> i \<Longrightarrow> owner_of (nt_pc (nn_tasks s ! i)) \<noteq> owner_of (nt_pc (nn_tasks s ! j))"
      using inv j(1) assms(3,4) unfolding net_inv_def by (metis option.discI owner_of.simps(1))
    then show ?thesis using j assms(3,4) by (cases "j = i") auto
  qed
  ultimately have "orphaned ?key p (advance i Dropped (nn_service s) s)"
    using pend by (auto simp: orphaned_def advance_def)
  from orphaned_stays [OF assms(5) this] show ?thesis
    using assms(7) by (auto simp: orphaned_def get_or_create_pending_approval_def)
qed

section \<open>The properties at work\<close>

text \<open>A schedule: which call steps next, and what the user answers if it asks.\<close>

fun net_play :: "(nat \<times> review_decision) list \<Rightarrow> net_run \<Rightarrow> net_run" where
  "net_play [] s = s"
| "net_play ((i, review) # sched) s =
     (if i < length (nn_tasks s)
      then (case task_step [] review (nt_runtime (nn_tasks s ! i)) (nt_key (nn_tasks s ! i)) (nt_pc (nn_tasks s ! i)) (nn_service s) of
          Some (pc, sv) \<Rightarrow> net_play sched (advance i pc sv s)
        | None \<Rightarrow> net_play sched s)
      else net_play sched s)"

lemma net_play_reaches: "(net_step drops)\<^sup>*\<^sup>* s (net_play sched s)"
proof (induction sched s rule: net_play.induct)
  case (2 i review sched s)
  show ?case
  proof (cases "i < length (nn_tasks s)")
    case True
    show ?thesis
    proof (cases "task_step [] review (nt_runtime (nn_tasks s ! i)) (nt_key (nn_tasks s ! i)) (nt_pc (nn_tasks s ! i)) (nn_service s)")
      case None
      then show ?thesis using 2(1) [OF True None] None True by simp
    next
      case (Some r)
      obtain pc sv where r: "r = (pc, sv)" by (cases r)
      have "net_step drops s (advance i pc sv s)"
        by (rule net_step.run [OF True refl]) (use Some r in simp)
      then show ?thesis using 2(2) [OF True Some r [symmetric]] Some r True by (simp add: converse_rtranclp_into_rtranclp)
    qed
  next
    case False
    then show ?thesis using 2(3) by simp
  qed
qed simp

definition demo_runtime :: net_runtime where
  "demo_runtime = \<lparr>nr_approval_policy = OnRequest, nr_has_managed_network_requirements = True,
     nr_allowed_domains = [], nr_denied_domains = [], nr_default_allowed_domains = [], nr_network_attempt_id = None\<rparr>"

definition demo_key :: host_approval_key where
  "demo_key = host_approval_key_of ''Docs.Example.com.'' ''HTTPS'' 443"

definition demo_calls :: net_run where
  "demo_calls = \<lparr>nn_service = empty_service, nn_tasks =
     [\<lparr>nt_runtime = demo_runtime, nt_key = demo_key, nt_pc = Started\<rparr>,
      \<lparr>nt_runtime = demo_runtime, nt_key = demo_key, nt_pc = Started\<rparr>]\<rparr>"

lemma demo_calls_reached: "(net_step drops)\<^sup>*\<^sup>* \<lparr>nn_service = empty_service, nn_tasks = []\<rparr> demo_calls"
proof -
  have "net_step drops s (s\<lparr>nn_tasks := nn_tasks s @ [\<lparr>nt_runtime = demo_runtime, nt_key = demo_key, nt_pc = Started\<rparr>]\<rparr>)" for s
    by (rule net_step.arrive)
  from this [of "\<lparr>nn_service = empty_service, nn_tasks = []\<rparr>"]
    this [of "\<lparr>nn_service = empty_service, nn_tasks = [\<lparr>nt_runtime = demo_runtime, nt_key = demo_key, nt_pc = Started\<rparr>]\<rparr>"]
  show ?thesis by (simp add: demo_calls_def)
qed

lemma demo_start: "net_start \<lparr>nn_service = empty_service, nn_tasks = []\<rparr>"
  by (simp add: net_start_def)

text \<open>Both calls get to the prompt; the first one asks, the second waits.\<close>

definition demo_asked :: net_run where
  "demo_asked = net_play (map (\<lambda>i. (i, Always)) [0, 1, 0, 1, 0, 1, 0, 1]) demo_calls"

definition demo_answered :: net_run where
  "demo_answered = net_play (map (\<lambda>i. (i, Always)) [0, 0, 0, 0, 0, 1]) demo_asked"

lemma demo_reached:
  "(net_step drops)\<^sup>*\<^sup>* \<lparr>nn_service = empty_service, nn_tasks = []\<rparr> demo_asked"
  "(net_step drops)\<^sup>*\<^sup>* \<lparr>nn_service = empty_service, nn_tasks = []\<rparr> demo_answered"
  unfolding demo_answered_def demo_asked_def
  by (blast intro: rtranclp_trans net_play_reaches demo_calls_reached)+

theorem network_sets_disjoint_witness:
  "ns_approved (nn_service demo_answered) = [demo_key]
   \<and> set (ns_approved (nn_service demo_answered)) \<inter> set (ns_denied (nn_service demo_answered)) = {}"
proof -
  have "ns_approved (nn_service demo_answered) = [demo_key]" by code_simp
  then show ?thesis
    using conjunct1 [OF network_sets_disjoint [OF demo_start demo_reached(2)]] by simp
qed

theorem prompt_has_one_answer_witness:
  "\<exists>r r'. map nt_pc (nn_tasks demo_answered) = [Finished (Some 0) r, Finished (Some 0) r'] \<and> (isl r \<longleftrightarrow> isl r')"
proof -
  have pcs: "map nt_pc (nn_tasks demo_answered) = [Finished (Some 0) (Inr ()), Finished (Some 0) (Inr ())]"
    by code_simp
  then obtain t u where "nn_tasks demo_answered = [t, u]"
    "nt_pc t = Finished (Some 0) (Inr ())" "nt_pc u = Finished (Some 0) (Inr ())"
    by (auto simp: map_eq_Cons_conv)
  with prompt_has_one_answer [OF demo_start demo_reached(2), of t 0 "Inr ()" u "Inr ()"] pcs show ?thesis by auto
qed

theorem waiting_is_answered_witness:
  "\<exists>u \<in> set (nn_tasks demo_asked). owner_of (nt_pc u) = Some 0
     \<and> task_step [] Denied (nt_runtime u) (nt_key u) (nt_pc u) (nn_service demo_asked) \<noteq> None"
proof -
  have pcs: "map nt_pc (nn_tasks demo_asked) = [Asking 0, Waiting 0]"
    and dec: "ns_decisions (nn_service demo_asked) = [None]" by code_simp+
  from pcs obtain t u where "nn_tasks demo_asked = [t, u]" "nt_pc u = Waiting 0" by (auto simp: map_eq_Cons_conv)
  with waiting_is_answered [OF demo_start demo_reached(1), of u 0 "[]" Denied] dec show ?thesis by auto
qed

theorem dropped_prompt_blocks_host_witness:
  "\<exists>u \<in> set (nn_tasks demo_asked). nt_pc u = Waiting 0 \<and> u \<in> set (nn_tasks (advance 0 Dropped (nn_service demo_asked) demo_asked))
     \<and> task_step [] Approved (nt_runtime u) (nt_key u) (nt_pc u)
         (nn_service (advance 0 Dropped (nn_service demo_asked) demo_asked)) = None"
proof -
  have "map nt_pc (nn_tasks demo_asked) = [Asking 0, Waiting 0]" "map nt_key (nn_tasks demo_asked) = [demo_key, demo_key]"
    by code_simp+
  then obtain t u where ts: "nn_tasks demo_asked = [t, u]" "nt_pc t = Asking 0" "nt_pc u = Waiting 0"
    and keys: "nt_key t = demo_key" "nt_key u = demo_key"
    by (auto simp: map_eq_Cons_conv)
  then have "u \<in> set (nn_tasks (advance 0 Dropped (nn_service demo_asked) demo_asked))" by (simp add: advance_def)
  with dropped_prompt_blocks_host [OF demo_start demo_reached(1), where i = 0 and p = 0 and t = u
      and s' = "advance 0 Dropped (nn_service demo_asked) demo_asked" and now = "[]" and review = Approved] ts keys
  show ?thesis by auto
qed

end
