(* ===== verification/AgentWake.thy ===== *)
theory AgentWake
  imports TeamSnapshot
begin

text \<open>
  A spawned agent and its wake queue (\<open>ManagedAgentHandle\<close>, \<open>schedule_turn\<close>, \<open>close_agent\<close>
  and the loop of \<open>launch_spawned_agent\<close> in \<open>core/src/agent/team_runtime.rs\<close>): its state with
  the three generation counters, the queue of wakes, the channel of commands, and the loop that
  takes one command after the other. A turn of the model is a result that the environment
  gives; the events that announce a state are not modelled.

  Here the operations follow each other, each one as a whole; a turn takes as long as it
  likes and operations come in between. \<open>AgentRace\<close> splits them into their atomic steps.
\<close>

section \<open>State\<close>

record managed_agent_state =
  ma_lifecycle :: collab_agent_lifecycle
  ma_turn_outcome :: collab_turn_outcome
  ma_last_turn_summary :: "string option"
  ma_attention_reason :: "string option"
  ma_pending_wake_count :: nat
  ma_scheduled_generation :: u64
  ma_inflight_generation :: u64
  ma_settled_generation :: u64

definition default_agent_state :: managed_agent_state where
  "default_agent_state = \<lparr>ma_lifecycle = LC_PendingInit, ma_turn_outcome = TO_NoneYet, ma_last_turn_summary = None,
     ma_attention_reason = None, ma_pending_wake_count = 0, ma_scheduled_generation = 0,
     ma_inflight_generation = 0, ma_settled_generation = 0\<rparr>"

definition wait_state :: "managed_agent_state \<Rightarrow> collab_agent_wait_state" where
  "wait_state ma = \<lparr>cw_lifecycle = ma_lifecycle ma, cw_turn_outcome = ma_turn_outcome ma,
     cw_last_turn_summary = ma_last_turn_summary ma, cw_attention_reason = ma_attention_reason ma,
     cw_pending_wake_count = ma_pending_wake_count ma\<rparr>"

datatype wake_reason = UserInput | TaskAssigned string | TaskHandedOff string | ReviewRequested string | MailboxUnread

record wake_request =
  wq_message :: string
  wq_reason :: wake_reason

datatype child_command = UserTurn string | Shutdown_Command

text \<open>\<open>ah_open\<close>: the loop still holds the receiving end of the channel.\<close>

record managed_agent_handle =
  ah_state :: managed_agent_state
  ah_wake_queue :: "wake_request list"
  ah_commands :: "child_command list"
  ah_open :: bool

section \<open>Operations of the handle\<close>

definition update_state :: "(managed_agent_state \<Rightarrow> managed_agent_state) \<Rightarrow> managed_agent_handle \<Rightarrow> managed_agent_handle" where
  "update_state mutator h = h\<lparr>ah_state := mutator (ah_state h)\<rparr>"

definition enqueue_wake :: "wake_request \<Rightarrow> managed_agent_handle \<Rightarrow> nat \<times> managed_agent_handle" where
  "enqueue_wake request h =
     (let queue = ah_wake_queue h @ [request]; queue_len = length queue
      in (queue_len, update_state (\<lambda>ma. ma\<lparr>ma_pending_wake_count := queue_len\<rparr>) (h\<lparr>ah_wake_queue := queue\<rparr>)))"

definition dequeue_wake :: "managed_agent_handle \<Rightarrow> wake_request option \<times> managed_agent_handle" where
  "dequeue_wake h =
     (case ah_wake_queue h of
        [] \<Rightarrow> (None, h)
      | request # queue \<Rightarrow> (Some request,
          update_state (\<lambda>ma. ma\<lparr>ma_pending_wake_count := length queue\<rparr>) (h\<lparr>ah_wake_queue := queue\<rparr>)))"

definition clear_wakes :: "managed_agent_handle \<Rightarrow> managed_agent_handle" where
  "clear_wakes h = update_state (\<lambda>ma. ma\<lparr>ma_pending_wake_count := 0\<rparr>) (h\<lparr>ah_wake_queue := []\<rparr>)"

text \<open>Sending waits while the channel is full; \<open>channel_never_fills\<close> shows that it never is.\<close>

definition CHILD_COMMAND_CHANNEL_CAPACITY :: nat where "CHILD_COMMAND_CHANNEL_CAPACITY = 32"

definition send_command :: "child_command \<Rightarrow> managed_agent_handle \<Rightarrow> (string + unit) \<times> managed_agent_handle" where
  "send_command command h =
     (if ah_open h then (Inr (), h\<lparr>ah_commands := ah_commands h @ [command]\<rparr>)
      else (Inl ''agent loop terminated'', h))"

definition clear_attention :: "managed_agent_state \<Rightarrow> managed_agent_state" where
  "clear_attention ma = ma\<lparr>ma_attention_reason := None\<rparr>"

definition note_attention :: "string \<Rightarrow> managed_agent_state \<Rightarrow> managed_agent_state" where
  "note_attention reason ma = ma\<lparr>ma_attention_reason := Some reason\<rparr>"

section \<open>Scheduling a turn\<close>

definition start_generation :: "managed_agent_state \<Rightarrow> managed_agent_state" where
  "start_generation ma =
     (let scheduled = saturating_add (ma_scheduled_generation ma) 1
      in ma\<lparr>ma_scheduled_generation := scheduled, ma_inflight_generation := scheduled,
           ma_lifecycle := LC_Busy, ma_turn_outcome := TO_NoneYet\<rparr>)"

definition queue_generation :: "nat \<Rightarrow> managed_agent_state \<Rightarrow> managed_agent_state" where
  "queue_generation queue_len ma =
     ma\<lparr>ma_scheduled_generation := saturating_add (ma_scheduled_generation ma) 1,
        ma_pending_wake_count := queue_len\<rparr>"

definition fail_state :: "string \<Rightarrow> managed_agent_state \<Rightarrow> managed_agent_state" where
  "fail_state err ma =
     ma\<lparr>ma_lifecycle := LC_Error, ma_turn_outcome := TO_Errored, ma_last_turn_summary := Some err,
        ma_attention_reason := Some err, ma_settled_generation := ma_scheduled_generation ma\<rparr>"

definition schedule_on ::
  "string \<Rightarrow> string \<Rightarrow> wake_reason \<Rightarrow> managed_agent_handle \<Rightarrow> (string + unit) \<times> managed_agent_handle" where
  "schedule_on agent_id message reason h0 =
     (let h = update_state clear_attention h0 in
      case ma_lifecycle (ah_state h) of
        LC_Ready \<Rightarrow>
          (case send_command (UserTurn message) (update_state start_generation h) of
             (Inr _, h1) \<Rightarrow> (Inr (), h1)
           | (Inl err, h1) \<Rightarrow> (Inl err, update_state (fail_state err) (clear_wakes h1)))
      | LC_Error \<Rightarrow> (Inl (''agent '' @ agent_id @ '' is in an error state and cannot accept new work''), h)
      | LC_Shutdown \<Rightarrow> (Inl (''agent '' @ agent_id @ '' is not available''), h)
      | LC_NotFound \<Rightarrow> (Inl (''agent '' @ agent_id @ '' is not available''), h)
      | _ \<Rightarrow>
          (let (queue_len, h1) = enqueue_wake \<lparr>wq_message = message, wq_reason = reason\<rparr> h
           in (Inr (), update_state (queue_generation queue_len) h1)))"

definition schedule_turn ::
  "string \<Rightarrow> string \<Rightarrow> wake_reason \<Rightarrow> (string, managed_agent_handle) hashmap
     \<Rightarrow> (string + unit) \<times> (string, managed_agent_handle) hashmap" where
  "schedule_turn agent_id message reason handles =
     (case hm_get handles agent_id of
        None \<Rightarrow> (Inl (''agent not found: '' @ agent_id), handles)
      | Some h \<Rightarrow> (let (result, h') = schedule_on agent_id message reason h
                   in (result, hm_modify agent_id (\<lambda>_. h') handles)))"

section \<open>The loop of the agent\<close>

definition begin_turn_state :: "managed_agent_state \<Rightarrow> managed_agent_state" where
  "begin_turn_state ma = ma\<lparr>ma_lifecycle := LC_Busy, ma_attention_reason := None, ma_turn_outcome := TO_NoneYet\<rparr>"

definition turn_ok_state :: "string \<Rightarrow> managed_agent_state \<Rightarrow> managed_agent_state" where
  "turn_ok_state content ma =
     ma\<lparr>ma_lifecycle := LC_Ready, ma_turn_outcome := TO_Succeeded,
        ma_last_turn_summary := (if trim content = [] then None else Some content),
        ma_attention_reason := None, ma_settled_generation := ma_inflight_generation ma\<rparr>"

definition next_turn_state :: "managed_agent_state \<Rightarrow> managed_agent_state" where
  "next_turn_state ma =
     ma\<lparr>ma_lifecycle := LC_Busy, ma_inflight_generation := saturating_add (ma_settled_generation ma) 1,
        ma_turn_outcome := TO_NoneYet\<rparr>"

definition shutdown_state :: "managed_agent_state \<Rightarrow> managed_agent_state" where
  "shutdown_state ma = ma\<lparr>ma_lifecycle := LC_Shutdown, ma_pending_wake_count := 0, ma_attention_reason := None\<rparr>"

definition finish_turn_ok :: "string \<Rightarrow> managed_agent_handle \<Rightarrow> managed_agent_handle" where
  "finish_turn_ok content h =
     (let h1 = update_state (turn_ok_state content) h in
      case dequeue_wake h1 of
        (None, h2) \<Rightarrow> h2
      | (Some next_wake, h2) \<Rightarrow>
          (case send_command (UserTurn (wq_message next_wake)) (update_state next_turn_state h2) of
             (Inr _, h3) \<Rightarrow> h3
           | (Inl _, h3) \<Rightarrow> update_state (fail_state ''agent loop terminated while dispatching queued work'')
               (clear_wakes h3)))"

definition finish_turn_err :: "string \<Rightarrow> managed_agent_handle \<Rightarrow> managed_agent_handle" where
  "finish_turn_err err h = update_state (fail_state err) (clear_wakes h)"

text \<open>The loop ends and drops its end of the channel with whatever is left in it.\<close>

definition stop_loop :: "managed_agent_handle \<Rightarrow> managed_agent_handle" where
  "stop_loop h = (update_state shutdown_state h)\<lparr>ah_open := False, ah_commands := []\<rparr>"

definition launched :: "string \<Rightarrow> managed_agent_handle" where
  "launched initial_message =
     snd (send_command (UserTurn initial_message)
       (update_state (\<lambda>ma. ma\<lparr>ma_scheduled_generation := 1, ma_inflight_generation := 1,
            ma_lifecycle := LC_Busy, ma_turn_outcome := TO_NoneYet\<rparr>)
          \<lparr>ah_state = default_agent_state\<lparr>ma_lifecycle := LC_Ready\<rparr>, ah_wake_queue = [],
           ah_commands = [], ah_open = True\<rparr>))"

definition close_handle :: "managed_agent_handle \<Rightarrow> managed_agent_handle" where
  "close_handle h = snd (send_command Shutdown_Command (clear_wakes (update_state shutdown_state h)))"

section \<open>Waiting for an agent\<close>

text \<open>From \<open>core/src/tools/handlers/wait.rs\<close>: a waiter notes the generation that is scheduled when
  it starts, and returns at the first state that satisfies it, or at its deadline.\<close>

definition MIN_WAIT_TIMEOUT_MS :: int where "MIN_WAIT_TIMEOUT_MS = 10000"
definition DEFAULT_WAIT_TIMEOUT_MS :: int where "DEFAULT_WAIT_TIMEOUT_MS = 120000"
definition MAX_WAIT_TIMEOUT_MS :: int where "MAX_WAIT_TIMEOUT_MS = 3600000"

definition normalize_timeout_ms :: "int option \<Rightarrow> int" where
  "normalize_timeout_ms v =
     (let timeout_ms = (case v of Some t \<Rightarrow> t | None \<Rightarrow> DEFAULT_WAIT_TIMEOUT_MS)
      in max MIN_WAIT_TIMEOUT_MS (min MAX_WAIT_TIMEOUT_MS timeout_ms))"

definition wait_target_generation :: "string \<Rightarrow> (string, managed_agent_handle) hashmap \<Rightarrow> u64 option" where
  "wait_target_generation agent_id handles =
     map_option (\<lambda>h. ma_scheduled_generation (ah_state h)) (hm_get handles agent_id)"

definition is_wait_satisfied :: "managed_agent_state \<Rightarrow> u64 \<Rightarrow> bool" where
  "is_wait_satisfied ma target_generation \<longleftrightarrow>
     target_generation \<le> ma_settled_generation ma \<and> \<not> ma_lifecycle ma \<in> {LC_PendingInit, LC_Busy}"

section \<open>The life of an agent\<close>

datatype loop_phase = Loop_Waiting | Loop_In_Turn | Loop_Ended

text \<open>\<open>ar_registered\<close>: the handle is in the table of the runtime. The three last fields only
  record what happened: the messages that were accepted, those whose turn began, and the
  number of turns that ended.\<close>

record agent_run =
  ar_handle :: managed_agent_handle
  ar_phase :: loop_phase
  ar_registered :: bool
  ar_accepted :: "string list"
  ar_begun :: "string list"
  ar_ended :: nat

definition agent_launched :: "string \<Rightarrow> agent_run" where
  "agent_launched initial_message = \<lparr>ar_handle = launched initial_message, ar_phase = Loop_Waiting,
     ar_registered = True, ar_accepted = [initial_message], ar_begun = [], ar_ended = 0\<rparr>"

inductive agent_step :: "agent_run \<Rightarrow> agent_run \<Rightarrow> bool" where
  scheduled: "ar_registered s \<Longrightarrow> schedule_on agent_id message reason (ar_handle s) = (Inr (), h) \<Longrightarrow>
    agent_step s (s\<lparr>ar_handle := h, ar_accepted := ar_accepted s @ [message]\<rparr>)"
| refused: "ar_registered s \<Longrightarrow> schedule_on agent_id message reason (ar_handle s) = (Inl err, h) \<Longrightarrow>
    agent_step s (s\<lparr>ar_handle := h\<rparr>)"
| noted: "ar_registered s \<Longrightarrow> agent_step s (s\<lparr>ar_handle := update_state (note_attention reason) (ar_handle s)\<rparr>)"
| begins: "ar_phase s = Loop_Waiting \<Longrightarrow> ah_commands (ar_handle s) = UserTurn message # rest \<Longrightarrow>
    agent_step s (s\<lparr>ar_handle := update_state begin_turn_state ((ar_handle s)\<lparr>ah_commands := rest\<rparr>),
      ar_phase := Loop_In_Turn, ar_begun := ar_begun s @ [message]\<rparr>)"
| succeeds: "ar_phase s = Loop_In_Turn \<Longrightarrow>
    agent_step s (s\<lparr>ar_handle := finish_turn_ok content (ar_handle s), ar_phase := Loop_Waiting, ar_ended := Suc (ar_ended s)\<rparr>)"
| fails: "ar_phase s = Loop_In_Turn \<Longrightarrow>
    agent_step s (s\<lparr>ar_handle := finish_turn_err err (ar_handle s), ar_phase := Loop_Waiting, ar_ended := Suc (ar_ended s)\<rparr>)"
| ends: "ar_phase s = Loop_Waiting \<Longrightarrow> ah_commands (ar_handle s) = Shutdown_Command # rest \<Longrightarrow>
    agent_step s (s\<lparr>ar_handle := stop_loop (ar_handle s), ar_phase := Loop_Ended\<rparr>)"
| closed: "ar_registered s \<Longrightarrow>
    agent_step s (s\<lparr>ar_handle := close_handle (ar_handle s), ar_registered := False\<rparr>)"

end
