(* ===== verification/AgentQueue.thy ===== *)
theory AgentQueue
  imports AgentWake "HOL-Library.Sublist"
begin

text \<open>
  What holds of a spawned agent when its operations follow each other: accepted messages run
  once each and in the order in which they were accepted, no wake waits while the agent rests,
  and a waiter returns exactly when everything that was accepted before it has ended.
\<close>

section \<open>Generations\<close>

text \<open>The counters saturate; up to there they count.\<close>

definition sat_count :: "nat \<Rightarrow> u64" where
  "sat_count n = of_nat (min n (2 ^ 64 - 1))"

lemma unat_sat_count: "unat (sat_count n) = min n (2 ^ 64 - 1)"
  by (simp add: sat_count_def unat_of_nat)

lemma sat_count_Suc: "saturating_add (sat_count n) 1 = sat_count (Suc n)"
  by (simp add: word_unat_eq_iff unat_saturating_add unat_sat_count)

lemma sat_count_0: "sat_count 0 = 0" "sat_count (Suc 0) = 1"
  by (simp_all add: sat_count_def)

lemma sat_count_le: "m \<le> n \<Longrightarrow> sat_count m \<le> sat_count n"
  by (simp add: word_le_nat_alt unat_sat_count)

section \<open>The invariant\<close>

definition turn_messages :: "child_command list \<Rightarrow> string list" where
  "turn_messages cs = concat (map (\<lambda>c. case c of UserTurn m \<Rightarrow> [m] | Shutdown_Command \<Rightarrow> []) cs)"

lemma turn_messages_simps [simp]:
  "turn_messages [] = []" "turn_messages (UserTurn m # cs) = m # turn_messages cs"
  "turn_messages (Shutdown_Command # cs) = turn_messages cs" "turn_messages (cs @ ds) = turn_messages cs @ turn_messages ds"
  by (simp_all add: turn_messages_def)

definition waiting_messages :: "managed_agent_handle \<Rightarrow> string list" where
  "waiting_messages h = turn_messages (ah_commands h) @ map wq_message (ah_wake_queue h)"

definition resting :: "agent_run \<Rightarrow> bool" where
  "resting s \<longleftrightarrow> ar_phase s = Loop_Waiting \<and> ah_commands (ar_handle s) = [] \<and> ah_wake_queue (ar_handle s) = []"

definition ready_ok :: "agent_run \<Rightarrow> bool" where
  "ready_ok s \<longleftrightarrow> resting s \<and> ar_begun s = ar_accepted s \<and> ar_ended s = length (ar_accepted s)
     \<and> ma_settled_generation (ah_state (ar_handle s)) = sat_count (length (ar_accepted s))
     \<and> ma_scheduled_generation (ah_state (ar_handle s)) = sat_count (length (ar_accepted s))"

definition busy_ok :: "agent_run \<Rightarrow> bool" where
  "busy_ok s \<longleftrightarrow> ar_accepted s = ar_begun s @ waiting_messages (ar_handle s)
     \<and> ma_scheduled_generation (ah_state (ar_handle s)) = sat_count (length (ar_accepted s))
     \<and> ma_settled_generation (ah_state (ar_handle s)) = sat_count (ar_ended s)
     \<and> (ar_phase s = Loop_Waiting \<and> (\<exists>m. ah_commands (ar_handle s) = [UserTurn m]) \<and> ar_ended s = length (ar_begun s)
          \<and> ma_inflight_generation (ah_state (ar_handle s)) = sat_count (Suc (length (ar_begun s)))
        \<or> ar_phase s = Loop_In_Turn \<and> ah_commands (ar_handle s) = [] \<and> Suc (ar_ended s) = length (ar_begun s)
          \<and> ma_inflight_generation (ah_state (ar_handle s)) = sat_count (length (ar_begun s)))"

definition error_ok :: "agent_run \<Rightarrow> bool" where
  "error_ok s \<longleftrightarrow> resting s \<and> prefix (ar_begun s) (ar_accepted s)
     \<and> ma_scheduled_generation (ah_state (ar_handle s)) = sat_count (length (ar_accepted s))
     \<and> ma_settled_generation (ah_state (ar_handle s)) = ma_scheduled_generation (ah_state (ar_handle s))"

definition closed_ok :: "agent_run \<Rightarrow> bool" where
  "closed_ok s \<longleftrightarrow> ah_wake_queue (ar_handle s) = [] \<and> length (ah_commands (ar_handle s)) \<le> 2
     \<and> prefix (ar_begun s @ turn_messages (ah_commands (ar_handle s))) (ar_accepted s)
     \<and> (ar_phase s = Loop_Ended \<longleftrightarrow> \<not> ah_open (ar_handle s))"

definition agent_inv :: "agent_run \<Rightarrow> bool" where
  "agent_inv s \<longleftrightarrow>
     (if ar_registered s
      then ah_open (ar_handle s) \<and> ma_pending_wake_count (ah_state (ar_handle s)) = length (ah_wake_queue (ar_handle s))
        \<and> (case ma_lifecycle (ah_state (ar_handle s)) of
             LC_Ready \<Rightarrow> ready_ok s | LC_Busy \<Rightarrow> busy_ok s | LC_Error \<Rightarrow> error_ok s | _ \<Rightarrow> False)
      else closed_ok s)"

lemmas agent_ok_defs = agent_inv_def ready_ok_def busy_ok_def error_ok_def closed_ok_def resting_def waiting_messages_def

lemmas agent_op_defs = schedule_on_def update_state_def send_command_def clear_wakes_def enqueue_wake_def dequeue_wake_def
  clear_attention_def note_attention_def start_generation_def queue_generation_def fail_state_def begin_turn_state_def
  turn_ok_state_def next_turn_state_def shutdown_state_def finish_turn_ok_def finish_turn_err_def stop_loop_def
  close_handle_def Let_def

lemma launched_inv: "agent_inv (agent_launched m)"
  by (simp add: agent_ok_defs agent_launched_def launched_def default_agent_state_def update_state_def send_command_def
      sat_count_0)

lemma agent_step_inv: "agent_step s t \<Longrightarrow> agent_inv s \<Longrightarrow> agent_inv t"
proof (induction rule: agent_step.induct)
  case (scheduled s agent_id message reason h)
  then show ?case
    by (cases "ma_lifecycle (ah_state (ar_handle s))")
      (auto simp: agent_ok_defs agent_op_defs sat_count_Suc)
next
  case (refused s agent_id message reason err h)
  then show ?case
    by (cases "ma_lifecycle (ah_state (ar_handle s))") (auto simp add: agent_ok_defs agent_op_defs)
next
  case (noted s reason)
  then show ?case
    by (cases "ma_lifecycle (ah_state (ar_handle s))") (simp_all add: agent_ok_defs agent_op_defs)
next
  case (begins s message rest)
  then show ?case
    by (cases "ar_registered s"; cases "ma_lifecycle (ah_state (ar_handle s))") (auto simp: agent_ok_defs agent_op_defs)
next
  case (succeeds s content)
  then show ?case
    by (cases "ar_registered s"; cases "ma_lifecycle (ah_state (ar_handle s))"; cases "ah_wake_queue (ar_handle s)")
      (auto simp: agent_ok_defs agent_op_defs sat_count_Suc)
next
  case (fails s err)
  then show ?case
    by (cases "ar_registered s"; cases "ma_lifecycle (ah_state (ar_handle s))") (auto simp: agent_ok_defs agent_op_defs)
next
  case (ends s rest)
  then show ?case
    by (cases "ar_registered s"; cases "ma_lifecycle (ah_state (ar_handle s))") (auto simp: agent_ok_defs agent_op_defs dest: append_prefixD)
next
  case (closed s)
  then show ?case
    by (cases "ma_lifecycle (ah_state (ar_handle s))") (auto simp: agent_ok_defs agent_op_defs)
qed

interpretation agent: machine "\<lambda>s. \<exists>m. s = agent_launched m" agent_step agent_inv
  by unfold_locales (auto intro: launched_inv agent_step_inv)

section \<open>Order and completeness\<close>

lemma closed_begun: "agent_inv s \<Longrightarrow> prefix (ar_begun s) (ar_accepted s)"
  by (cases "ar_registered s"; cases "ma_lifecycle (ah_state (ar_handle s))")
    (auto simp: agent_ok_defs dest: append_prefixD)


text \<open>The steps of the loop alone, when every turn succeeds.\<close>

inductive loop_step :: "agent_run \<Rightarrow> agent_run \<Rightarrow> bool" where
  loop_begins: "ar_phase s = Loop_Waiting \<Longrightarrow> ah_commands (ar_handle s) = UserTurn message # rest \<Longrightarrow>
    loop_step s (s\<lparr>ar_handle := update_state begin_turn_state ((ar_handle s)\<lparr>ah_commands := rest\<rparr>),
      ar_phase := Loop_In_Turn, ar_begun := ar_begun s @ [message]\<rparr>)"
| loop_succeeds: "ar_phase s = Loop_In_Turn \<Longrightarrow>
    loop_step s (s\<lparr>ar_handle := finish_turn_ok content (ar_handle s), ar_phase := Loop_Waiting, ar_ended := Suc (ar_ended s)\<rparr>)"

inductive_cases loop_stepE: "loop_step s t"

lemma loop_step_agent: "loop_step s t \<Longrightarrow> agent_step s t \<and> ar_accepted t = ar_accepted s \<and> ar_registered t = ar_registered s"
  by (auto elim!: loop_stepE intro: begins succeeds)

definition healthy :: "agent_run \<Rightarrow> bool" where
  "healthy s \<longleftrightarrow> agent_inv s \<and> ar_registered s \<and> ma_lifecycle (ah_state (ar_handle s)) \<in> {LC_Ready, LC_Busy}"

definition work_left :: "agent_run \<Rightarrow> nat" where
  "work_left s = 2 * (length (ar_accepted s) - length (ar_begun s)) + (if ar_phase s = Loop_In_Turn then 1 else 0)"

lemma begin_healthy:
  assumes "healthy s" "ar_phase s = Loop_Waiting" "ah_commands (ar_handle s) = UserTurn m # rest"
  shows "\<exists>t. loop_step s t \<and> healthy t \<and> work_left t < work_left s"
proof (intro exI conjI)
  let ?t = "s\<lparr>ar_handle := update_state begin_turn_state ((ar_handle s)\<lparr>ah_commands := rest\<rparr>),
      ar_phase := Loop_In_Turn, ar_begun := ar_begun s @ [m]\<rparr>"
  show "loop_step s ?t" using assms(2,3) by (rule loop_begins)
  then have "agent_inv ?t" using assms(1) agent_step_inv loop_step_agent by (auto simp: healthy_def)
  then show "healthy ?t" using assms(1) by (simp add: healthy_def update_state_def begin_turn_state_def)
  have "ar_accepted s = ar_begun s @ waiting_messages (ar_handle s)"
    using assms(1,3) by (auto simp: healthy_def agent_ok_defs)
  then show "work_left ?t < work_left s" using assms(2,3) by (simp add: work_left_def waiting_messages_def)
qed

lemma succeed_healthy:
  assumes "healthy s" "ar_phase s = Loop_In_Turn"
  shows "\<exists>t. loop_step s t \<and> healthy t \<and> work_left t < work_left s"
proof (intro exI conjI)
  let ?t = "s\<lparr>ar_handle := finish_turn_ok [] (ar_handle s), ar_phase := Loop_Waiting, ar_ended := Suc (ar_ended s)\<rparr>"
  show "loop_step s ?t" using assms(2) by (rule loop_succeeds)
  then have "agent_inv ?t" using assms(1) agent_step_inv loop_step_agent by (auto simp: healthy_def)
  moreover have "ah_open (ar_handle s)" using assms(1) by (auto simp: healthy_def agent_ok_defs)
  then have "ma_lifecycle (ah_state (finish_turn_ok [] (ar_handle s))) \<in> {LC_Ready, LC_Busy}"
    by (simp add: agent_op_defs split: list.split)
  ultimately show "healthy ?t" using assms(1) by (simp add: healthy_def)
  show "work_left ?t < work_left s" using assms(2) by (simp add: work_left_def)
qed

lemma healthy_cases:
  assumes "healthy s"
  obtains (ready) "ma_lifecycle (ah_state (ar_handle s)) = LC_Ready" "ar_begun s = ar_accepted s" "ar_ended s = length (ar_accepted s)"
    | (takes) m rest where "ar_phase s = Loop_Waiting" "ah_commands (ar_handle s) = UserTurn m # rest"
    | (in_turn) "ar_phase s = Loop_In_Turn"
  using assms by (auto simp: healthy_def agent_ok_defs)


section \<open>Waiting\<close>

lemma step_accepted: "agent_step s t \<Longrightarrow> prefix (ar_accepted s) (ar_accepted t)"
  by (induction rule: agent_step.induct) auto

lemma steps_accepted: "agent_step\<^sup>*\<^sup>* s t \<Longrightarrow> prefix (ar_accepted s) (ar_accepted t)"
  by (induction rule: rtranclp_induct) (auto dest: step_accepted intro: prefix_order.trans)

lemma scheduled_count:
  "agent_inv s \<Longrightarrow> ar_registered s \<Longrightarrow> ma_scheduled_generation (ah_state (ar_handle s)) = sat_count (length (ar_accepted s))"
  by (cases "ma_lifecycle (ah_state (ar_handle s))") (auto simp: agent_ok_defs)

text \<open>A waiter that starts in one state is satisfied in a later state of the open agent exactly
  when the agent is ready or has failed there; and if it is ready, then every message that was
  accepted before the waiter started has begun and its turn has ended.\<close>

theorem waiter_returns_when_done:
  assumes "agent_step\<^sup>*\<^sup>* (agent_launched first) s" and "agent_step\<^sup>*\<^sup>* s t" and "ar_registered s" and "ar_registered t"
  shows "(is_wait_satisfied (ah_state (ar_handle t)) (ma_scheduled_generation (ah_state (ar_handle s)))
      \<longleftrightarrow> ma_lifecycle (ah_state (ar_handle t)) \<in> {LC_Ready, LC_Error})
    \<and> (ma_lifecycle (ah_state (ar_handle t)) = LC_Ready \<longrightarrow>
        prefix (ar_accepted s) (ar_begun t) \<and> length (ar_accepted s) \<le> ar_ended t)"
proof -
  have inv: "agent_inv s" "agent_inv t"
    using agent.inv_reachable [OF _ assms(1)] agent.inv_reachable [OF _ rtranclp_trans [OF assms(1,2)]] by blast+
  have pre: "prefix (ar_accepted s) (ar_accepted t)" by (rule steps_accepted [OF assms(2)])
  then have le: "sat_count (length (ar_accepted s)) \<le> sat_count (length (ar_accepted t))"
    by (intro sat_count_le prefix_length_le)
  show ?thesis
    using inv(2) assms(4) pre le scheduled_count [OF inv(1) assms(3)] prefix_length_le [OF pre]
    by (cases "ma_lifecycle (ah_state (ar_handle t))") (auto simp: is_wait_satisfied_def agent_ok_defs)
qed

section \<open>Witnesses\<close>

text \<open>An agent that is launched, is given a second message while its first turn runs, and is
  asked about then.\<close>

definition demo_turn :: agent_run where
  "demo_turn = \<lparr>ar_handle = update_state begin_turn_state ((launched ''one'')\<lparr>ah_commands := []\<rparr>),
     ar_phase = Loop_In_Turn, ar_registered = True, ar_accepted = [''one''], ar_begun = [''one''], ar_ended = 0\<rparr>"

definition demo_queued :: agent_run where
  "demo_queued = demo_turn\<lparr>ar_handle := snd (schedule_on ''a'' ''two'' UserInput (ar_handle demo_turn)),
     ar_accepted := [''one'', ''two'']\<rparr>"

lemma demo_queued_reached: "agent_step\<^sup>*\<^sup>* (agent_launched ''one'') demo_queued"
proof -
  have "agent_step (agent_launched ''one'') demo_turn"
    using begins [of "agent_launched ''one''" "''one''" "[]"]
    by (simp add: agent_launched_def demo_turn_def launched_def send_command_def update_state_def)
  moreover have "agent_step demo_turn demo_queued"
    using scheduled [of demo_turn "''a''" "''two''" UserInput "ar_handle demo_queued"]
    by (simp add: demo_turn_def demo_queued_def launched_def default_agent_state_def agent_op_defs)
  ultimately show ?thesis by (meson r_into_rtranclp rtranclp_trans)
qed

lemma demo_queued_state: "ar_registered demo_queued" "ma_lifecycle (ah_state (ar_handle demo_queued)) = LC_Busy"
  "ar_accepted demo_queued = [''one'', ''two'']"
  by (simp_all add: demo_turn_def demo_queued_def launched_def default_agent_state_def agent_op_defs)



theorem waiter_returns_when_done_witness:
  "\<not> is_wait_satisfied (ah_state (ar_handle demo_queued)) (ma_scheduled_generation (ah_state (ar_handle demo_queued)))"
  using waiter_returns_when_done [OF demo_queued_reached rtranclp.rtrancl_refl demo_queued_state(1,1)]
  by (simp add: demo_queued_state)

end
