(* ===== verification/AgentRace.thy ===== *)
theory AgentRace
  imports AgentQueue "HOL-Library.Multiset"
begin

text \<open>
  The same agent with its operations split where other threads can come in between. The state
  of an agent is a \<open>watch\<close> channel: \<open>update_state\<close> reads it and sends the changed copy, two
  steps; the queue of wakes has a lock of its own. Calls of \<open>schedule_turn\<close> and the loop of the
  agent take one such step at a time, in any order. Closing is left out: the handle stays
  in the table.
\<close>

section \<open>The steps of a call\<close>

text \<open>Where a call of \<open>schedule_turn\<close> stands; a state in it is the copy that it has read.\<close>

datatype caller_pc =
  C_Attention | C_Attention_Write managed_agent_state
| C_Look
| C_Start | C_Start_Write managed_agent_state | C_Send
| C_Push | C_Count nat | C_Count_Write nat managed_agent_state
| C_Generation nat | C_Generation_Write nat managed_agent_state
| C_Done | C_Refused

definition write_state :: "managed_agent_state \<Rightarrow> managed_agent_handle \<Rightarrow> managed_agent_handle" where
  "write_state ma h = h\<lparr>ah_state := ma\<rparr>"

definition set_pending :: "nat \<Rightarrow> managed_agent_state \<Rightarrow> managed_agent_state" where
  "set_pending n ma = ma\<lparr>ma_pending_wake_count := n\<rparr>"

definition push_wake :: "wake_request \<Rightarrow> managed_agent_handle \<Rightarrow> managed_agent_handle" where
  "push_wake request h = h\<lparr>ah_wake_queue := ah_wake_queue h @ [request]\<rparr>"

definition try_send :: "child_command \<Rightarrow> managed_agent_handle \<Rightarrow> managed_agent_handle option" where
  "try_send command h =
     (if length (ah_commands h) < CHILD_COMMAND_CHANNEL_CAPACITY
      then Some (h\<lparr>ah_commands := ah_commands h @ [command]\<rparr>) else None)"

fun caller_step :: "wake_request \<Rightarrow> caller_pc \<Rightarrow> managed_agent_handle \<Rightarrow> (caller_pc \<times> managed_agent_handle) option" where
  "caller_step w C_Attention h = Some (C_Attention_Write (ah_state h), h)"
| "caller_step w (C_Attention_Write ma) h = Some (C_Look, write_state (clear_attention ma) h)"
| "caller_step w C_Look h =
     Some (case ma_lifecycle (ah_state h) of
        LC_Ready \<Rightarrow> C_Start | LC_PendingInit \<Rightarrow> C_Push | LC_Busy \<Rightarrow> C_Push | _ \<Rightarrow> C_Refused, h)"
| "caller_step w C_Start h = Some (C_Start_Write (ah_state h), h)"
| "caller_step w (C_Start_Write ma) h = Some (C_Send, write_state (start_generation ma) h)"
| "caller_step w C_Send h = map_option (\<lambda>h'. (C_Done, h')) (try_send (UserTurn (wq_message w)) h)"
| "caller_step w C_Push h = Some (C_Count (length (ah_wake_queue h) + 1), push_wake w h)"
| "caller_step w (C_Count n) h = Some (C_Count_Write n (ah_state h), h)"
| "caller_step w (C_Count_Write n ma) h = Some (C_Generation n, write_state (set_pending n ma) h)"
| "caller_step w (C_Generation n) h = Some (C_Generation_Write n (ah_state h), h)"
| "caller_step w (C_Generation_Write n ma) h = Some (C_Done, write_state (queue_generation n ma) h)"
| "caller_step w C_Done h = None"
| "caller_step w C_Refused h = None"

section \<open>The steps of the loop\<close>

datatype loop_pc =
  L_Recv | L_Begin | L_Begin_Write managed_agent_state | L_In_Turn
| L_Ok string | L_Ok_Write string managed_agent_state
| L_Dequeue | L_Dequeued wake_request nat | L_Dequeued_Write wake_request nat managed_agent_state
| L_Next wake_request | L_Next_Write wake_request managed_agent_state | L_Send wake_request
| L_Clear string | L_Cleared string | L_Cleared_Write string managed_agent_state
| L_Fail string | L_Fail_Write string managed_agent_state

text \<open>\<open>outcome\<close> is the result of the turn, read in \<open>L_In_Turn\<close> only.\<close>

fun loop_pc_step :: "string + string \<Rightarrow> loop_pc \<Rightarrow> managed_agent_handle \<Rightarrow> (loop_pc \<times> managed_agent_handle) option" where
  "loop_pc_step outcome L_Recv h =
     (case ah_commands h of UserTurn m # rest \<Rightarrow> Some (L_Begin, h\<lparr>ah_commands := rest\<rparr>) | _ \<Rightarrow> None)"
| "loop_pc_step outcome L_Begin h = Some (L_Begin_Write (ah_state h), h)"
| "loop_pc_step outcome (L_Begin_Write ma) h = Some (L_In_Turn, write_state (begin_turn_state ma) h)"
| "loop_pc_step outcome L_In_Turn h = Some (case outcome of Inr content \<Rightarrow> L_Ok content | Inl err \<Rightarrow> L_Clear err, h)"
| "loop_pc_step outcome (L_Ok content) h = Some (L_Ok_Write content (ah_state h), h)"
| "loop_pc_step outcome (L_Ok_Write content ma) h = Some (L_Dequeue, write_state (turn_ok_state content ma) h)"
| "loop_pc_step outcome L_Dequeue h =
     (case ah_wake_queue h of
        [] \<Rightarrow> Some (L_Recv, h)
      | w # queue \<Rightarrow> Some (L_Dequeued w (length queue), h\<lparr>ah_wake_queue := queue\<rparr>))"
| "loop_pc_step outcome (L_Dequeued w n) h = Some (L_Dequeued_Write w n (ah_state h), h)"
| "loop_pc_step outcome (L_Dequeued_Write w n ma) h = Some (L_Next w, write_state (set_pending n ma) h)"
| "loop_pc_step outcome (L_Next w) h = Some (L_Next_Write w (ah_state h), h)"
| "loop_pc_step outcome (L_Next_Write w ma) h = Some (L_Send w, write_state (next_turn_state ma) h)"
| "loop_pc_step outcome (L_Send w) h = map_option (\<lambda>h'. (L_Recv, h')) (try_send (UserTurn (wq_message w)) h)"
| "loop_pc_step outcome (L_Clear err) h = Some (L_Cleared err, h\<lparr>ah_wake_queue := []\<rparr>)"
| "loop_pc_step outcome (L_Cleared err) h = Some (L_Cleared_Write err (ah_state h), h)"
| "loop_pc_step outcome (L_Cleared_Write err ma) h = Some (L_Fail err, write_state (set_pending 0 ma) h)"
| "loop_pc_step outcome (L_Fail err) h = Some (L_Fail_Write err (ah_state h), h)"
| "loop_pc_step outcome (L_Fail_Write err ma) h = Some (L_Recv, write_state (fail_state err ma) h)"

section \<open>All threads together\<close>

text \<open>\<open>rc_begun\<close> and \<open>rc_dropped\<close> record the messages that the loop took and those that a failed
  turn threw out of the queue.\<close>

record agent_race =
  rc_handle :: managed_agent_handle
  rc_loop :: loop_pc
  rc_callers :: "(wake_request \<times> caller_pc) list"
  rc_begun :: "string list"
  rc_dropped :: "string list"

definition race_launched :: "string \<Rightarrow> agent_race" where
  "race_launched m = \<lparr>rc_handle = launched m, rc_loop = L_Recv, rc_callers = [], rc_begun = [], rc_dropped = []\<rparr>"

definition taken_by :: "loop_pc \<Rightarrow> managed_agent_handle \<Rightarrow> string list" where
  "taken_by pc h = (if pc = L_Recv then turn_messages (take 1 (ah_commands h)) else [])"

definition dropped_by :: "loop_pc \<Rightarrow> managed_agent_handle \<Rightarrow> string list" where
  "dropped_by pc h = (case pc of L_Clear _ \<Rightarrow> map wq_message (ah_wake_queue h) | _ \<Rightarrow> [])"

inductive race_step :: "agent_race \<Rightarrow> agent_race \<Rightarrow> bool" where
  arrives: "race_step s (s\<lparr>rc_callers := rc_callers s @ [(w, C_Attention)]\<rparr>)"
| calls: "i < length (rc_callers s) \<Longrightarrow> rc_callers s ! i = (w, pc) \<Longrightarrow>
    caller_step w pc (rc_handle s) = Some (pc', h) \<Longrightarrow>
    race_step s (s\<lparr>rc_handle := h, rc_callers := (rc_callers s)[i := (w, pc')]\<rparr>)"
| loops: "loop_pc_step outcome (rc_loop s) (rc_handle s) = Some (pc', h) \<Longrightarrow>
    race_step s (s\<lparr>rc_handle := h, rc_loop := pc',
      rc_begun := rc_begun s @ taken_by (rc_loop s) (rc_handle s),
      rc_dropped := rc_dropped s @ dropped_by (rc_loop s) (rc_handle s)\<rparr>)"

section \<open>A call that nobody disturbs\<close>

fun run_caller :: "nat \<Rightarrow> wake_request \<Rightarrow> caller_pc \<Rightarrow> managed_agent_handle \<Rightarrow> caller_pc \<times> managed_agent_handle" where
  "run_caller 0 w pc h = (pc, h)"
| "run_caller (Suc n) w pc h = (case caller_step w pc h of None \<Rightarrow> (pc, h) | Some (pc', h') \<Rightarrow> run_caller n w pc' h')"

fun run_loop :: "nat \<Rightarrow> string + string \<Rightarrow> loop_pc \<Rightarrow> managed_agent_handle \<Rightarrow> loop_pc \<times> managed_agent_handle" where
  "run_loop 0 outcome pc h = (pc, h)"
| "run_loop (Suc n) outcome pc h = (if pc = L_Recv then (pc, h) else
     (case loop_pc_step outcome pc h of None \<Rightarrow> (pc, h) | Some (pc', h') \<Rightarrow> run_loop n outcome pc' h'))"

text \<open>Alone, the steps of a call do what \<open>schedule_on\<close> does, and the steps of the loop after a turn
  do what \<open>finish_turn_ok\<close> and \<open>finish_turn_err\<close> do, while the channel is open and not full.\<close>

theorem undisturbed_steps_are_atomic:
  assumes "ah_open h" and "length (ah_commands h) < CHILD_COMMAND_CHANNEL_CAPACITY"
  shows "run_caller 12 \<lparr>wq_message = message, wq_reason = reason\<rparr> C_Attention h
      = (case schedule_on agent_id message reason h of (Inr _, h') \<Rightarrow> (C_Done, h') | (Inl _, h') \<Rightarrow> (C_Refused, h'))
    \<and> run_loop 12 (Inr content) L_In_Turn h = (L_Recv, finish_turn_ok content h)
    \<and> run_loop 12 (Inl err) L_In_Turn h = (L_Recv, finish_turn_err err h)"
proof (intro conjI)
  show "run_caller 12 \<lparr>wq_message = message, wq_reason = reason\<rparr> C_Attention h
      = (case schedule_on agent_id message reason h of (Inr _, h') \<Rightarrow> (C_Done, h') | (Inl _, h') \<Rightarrow> (C_Refused, h'))"
    using assms
    by (cases "ma_lifecycle (ah_state h)")
      (simp_all add: eval_nat_numeral agent_op_defs write_state_def set_pending_def push_wake_def try_send_def)
  show "run_loop 12 (Inr content) L_In_Turn h = (L_Recv, finish_turn_ok content h)"
    using assms
    by (cases "ah_wake_queue h")
      (simp_all add: eval_nat_numeral agent_op_defs write_state_def set_pending_def try_send_def)
  show "run_loop 12 (Inl err) L_In_Turn h = (L_Recv, finish_turn_err err h)"
    by (simp add: eval_nat_numeral agent_op_defs write_state_def set_pending_def)
qed

section \<open>No message is lost or doubled\<close>

definition caller_placed :: "wake_request \<times> caller_pc \<Rightarrow> string list" where
  "caller_placed c = (case snd c of
      C_Count _ \<Rightarrow> [wq_message (fst c)] | C_Count_Write _ _ \<Rightarrow> [wq_message (fst c)]
    | C_Generation _ \<Rightarrow> [wq_message (fst c)] | C_Generation_Write _ _ \<Rightarrow> [wq_message (fst c)]
    | C_Done \<Rightarrow> [wq_message (fst c)] | _ \<Rightarrow> [])"

definition in_hand :: "loop_pc \<Rightarrow> string list" where
  "in_hand pc = (case pc of L_Dequeued w _ \<Rightarrow> [wq_message w] | L_Dequeued_Write w _ _ \<Rightarrow> [wq_message w]
    | L_Next w \<Rightarrow> [wq_message w] | L_Next_Write w _ \<Rightarrow> [wq_message w] | L_Send w \<Rightarrow> [wq_message w] | _ \<Rightarrow> [])"

definition placed_by :: "(wake_request \<times> caller_pc) list \<Rightarrow> string multiset" where
  "placed_by callers = sum_list (map (\<lambda>c. mset (caller_placed c)) callers)"

definition whereabouts :: "agent_race \<Rightarrow> string multiset" where
  "whereabouts s = mset (rc_begun s) + mset (in_hand (rc_loop s)) + mset (waiting_messages (rc_handle s)) + mset (rc_dropped s)"

definition conserved :: "string \<Rightarrow> agent_race \<Rightarrow> bool" where
  "conserved first s \<longleftrightarrow> add_mset first (placed_by (rc_callers s)) = whereabouts s"

lemma placed_by_update:
  assumes "i < length cs" "cs ! i = (w, pc)"
  shows "placed_by (cs[i := (w, pc')]) + mset (caller_placed (w, pc)) = placed_by cs + mset (caller_placed (w, pc'))"
  using assms by (induction cs arbitrary: i) (auto simp: placed_by_def nth_Cons split: nat.splits)

lemma waiting_simps [simp]:
  "ah_commands (write_state ma h) = ah_commands h" "ah_wake_queue (write_state ma h) = ah_wake_queue h"
  by (simp_all add: write_state_def)

lemma caller_step_places:
  "caller_step w pc h = Some (pc', h') \<Longrightarrow>
     mset (waiting_messages h') + mset (caller_placed (w, pc)) = mset (waiting_messages h) + mset (caller_placed (w, pc'))"
  by (cases pc) (auto simp: waiting_messages_def caller_placed_def push_wake_def try_send_def split: if_splits
      collab_agent_lifecycle.splits)

lemma loop_step_places:
  "loop_pc_step outcome pc h = Some (pc', h') \<Longrightarrow>
     mset (taken_by pc h) + mset (dropped_by pc h) + mset (in_hand pc') + mset (waiting_messages h')
       = mset (in_hand pc) + mset (waiting_messages h)"
  by (cases pc) (auto simp: waiting_messages_def in_hand_def taken_by_def dropped_by_def try_send_def split: if_splits
      list.splits child_command.splits sum.splits)

lemma race_step_conserves: "race_step s t \<Longrightarrow> conserved first s \<Longrightarrow> conserved first t"
proof (induction rule: race_step.induct)
  case (arrives s w)
  then show ?case by (simp add: conserved_def placed_by_def caller_placed_def whereabouts_def)
next
  case (calls i s w pc pc' h)
  have 1: "add_mset first (placed_by ((rc_callers s)[i := (w, pc')])) + mset (caller_placed (w, pc))
      = whereabouts s + mset (caller_placed (w, pc'))"
    using calls(4) placed_by_update [OF calls(1,2), of pc'] by (simp add: conserved_def)
  have 2: "mset (waiting_messages h) + mset (caller_placed (w, pc))
      = mset (waiting_messages (rc_handle s)) + mset (caller_placed (w, pc'))"
    by (rule caller_step_places [OF calls(3)])
  define A where "A = add_mset first (placed_by ((rc_callers s)[i := (w, pc')]))"
  define B where "B = mset (rc_begun s) + mset (in_hand (rc_loop s)) + mset (rc_dropped s)"
  have "A + mset (caller_placed (w, pc)) = B + (mset (waiting_messages h) + mset (caller_placed (w, pc)))"
    unfolding 2 using 1 by (simp add: A_def B_def whereabouts_def ac_simps)
  then have "A = B + mset (waiting_messages h)" by (simp only: add.assoc [symmetric] add_right_cancel)
  then show ?case by (simp add: conserved_def whereabouts_def A_def B_def ac_simps)
next
  case (loops outcome s pc' h)
  have "whereabouts (s\<lparr>rc_handle := h, rc_loop := pc',
      rc_begun := rc_begun s @ taken_by (rc_loop s) (rc_handle s),
      rc_dropped := rc_dropped s @ dropped_by (rc_loop s) (rc_handle s)\<rparr>) = whereabouts s"
    using loop_step_places [OF loops(1)] by (simp add: whereabouts_def ac_simps)
  with loops(2) show ?case by (simp add: conserved_def)
qed

lemma conserved_launched: "conserved first (race_launched first)"
  by (simp add: conserved_def race_launched_def launched_def placed_by_def whereabouts_def in_hand_def
      waiting_messages_def send_command_def update_state_def)

interpretation race: machine "(=) (race_launched first)" race_step "conserved first" for first
  by unfold_locales (auto intro: race_step_conserves conserved_launched)

text \<open>C22. However the threads interleave, every message that a call has put into the queue or into the
  channel is in exactly one place: its turn has begun, the loop holds it, it waits, or a failed
  turn has thrown it away.\<close>

theorem no_wake_lost_or_doubled:
  assumes "race_step\<^sup>*\<^sup>* (race_launched first) s"
  shows "add_mset first (sum_list (map (\<lambda>c. mset (caller_placed c)) (rc_callers s)))
    = mset (rc_begun s) + mset (in_hand (rc_loop s)) + mset (turn_messages (ah_commands (rc_handle s)))
      + mset (map wq_message (ah_wake_queue (rc_handle s))) + mset (rc_dropped s)"
  using race.inv_reachable [OF refl assms]
  by (simp add: conserved_def placed_by_def whereabouts_def waiting_messages_def ac_simps)

section \<open>What the interleaving breaks\<close>

datatype race_move = Arrive wake_request | Call nat | Loop "string + string"

fun apply_move :: "race_move \<Rightarrow> agent_race \<Rightarrow> agent_race option" where
  "apply_move (Arrive w) s = Some (s\<lparr>rc_callers := rc_callers s @ [(w, C_Attention)]\<rparr>)"
| "apply_move (Call i) s =
     (if i < length (rc_callers s)
      then (case rc_callers s ! i of (w, pc) \<Rightarrow>
        map_option (\<lambda>(pc', h). s\<lparr>rc_handle := h, rc_callers := (rc_callers s)[i := (w, pc')]\<rparr>) (caller_step w pc (rc_handle s)))
      else None)"
| "apply_move (Loop outcome) s =
     map_option (\<lambda>(pc', h). s\<lparr>rc_handle := h, rc_loop := pc',
         rc_begun := rc_begun s @ taken_by (rc_loop s) (rc_handle s),
         rc_dropped := rc_dropped s @ dropped_by (rc_loop s) (rc_handle s)\<rparr>)
       (loop_pc_step outcome (rc_loop s) (rc_handle s))"

fun run_moves :: "race_move list \<Rightarrow> agent_race \<Rightarrow> agent_race option" where
  "run_moves [] s = Some s"
| "run_moves (m # ms) s = (case apply_move m s of None \<Rightarrow> None | Some t \<Rightarrow> run_moves ms t)"

lemma race_move_step: "apply_move m s = Some t \<Longrightarrow> race_step s t"
  by (cases m) (auto split: if_splits prod.splits intro: arrives calls loops)

lemma run_moves_steps: "run_moves ms s = Some t \<Longrightarrow> race_step\<^sup>*\<^sup>* s t"
  by (induction ms arbitrary: s) (auto split: option.splits dest: race_move_step intro: converse_rtranclp_into_rtranclp)

definition wake_two :: wake_request where
  "wake_two = \<lparr>wq_message = ''two'', wq_reason = UserInput\<rparr>"

text \<open>The loop finds the queue empty after the call has seen the agent busy and before the call
  has put its wake into the queue.\<close>

definition left_behind_moves :: "race_move list" where
  "left_behind_moves = replicate 3 (Loop (Inr [])) @ [Arrive wake_two] @ replicate 3 (Call 0)
     @ replicate 4 (Loop (Inr [])) @ replicate 5 (Call 0)"

text \<open>The call reads the state while the first turn runs, and sends its copy after the loop has run
  both turns and has come to rest.\<close>

definition stale_write_moves :: "race_move list" where
  "stale_write_moves = replicate 3 (Loop (Inr [])) @ [Arrive wake_two] @ replicate 7 (Call 0)
     @ replicate 16 (Loop (Inr [])) @ [Call 0]"

lemma reached_by_moves:
  assumes "map_option P (run_moves ms s) = Some True"
  obtains t where "race_step\<^sup>*\<^sup>* s t" "P t"
  using assms run_moves_steps by (cases "run_moves ms s") auto

text \<open>A wake can be left behind: all calls have returned, the agent says that it is ready, its loop
  has nothing to take and cannot take a step, and the accepted message still lies in the queue.
  It stays there until some other call starts a turn; who waits for it waits until the deadline.\<close>

theorem wake_left_behind:
  "\<exists>s. race_step\<^sup>*\<^sup>* (race_launched ''one'') s \<and> ma_lifecycle (ah_state (rc_handle s)) = LC_Ready
     \<and> ah_wake_queue (rc_handle s) = [wake_two] \<and> (\<forall>outcome. loop_pc_step outcome (rc_loop s) (rc_handle s) = None)
     \<and> map snd (rc_callers s) = [C_Done]
     \<and> \<not> is_wait_satisfied (ah_state (rc_handle s)) (ma_scheduled_generation (ah_state (rc_handle s)))"
proof -
  let ?P = "\<lambda>s. rc_loop s = L_Recv \<and> ah_commands (rc_handle s) = [] \<and> map snd (rc_callers s) = [C_Done]
      \<and> ah_wake_queue (rc_handle s) = [wake_two] \<and> ma_lifecycle (ah_state (rc_handle s)) = LC_Ready
      \<and> \<not> ma_scheduled_generation (ah_state (rc_handle s)) \<le> ma_settled_generation (ah_state (rc_handle s))"
  have "map_option ?P (run_moves left_behind_moves (race_launched ''one'')) = Some True" by code_simp
  then obtain s where "race_step\<^sup>*\<^sup>* (race_launched ''one'') s" "?P s" by (rule reached_by_moves)
  then show ?thesis by (intro exI [of _ s]) (auto simp: is_wait_satisfied_def)
qed

text \<open>An agent that says it is busy although its loop rests, while no call still holds a state
  in which it was not busy.\<close>

definition caller_locked :: "caller_pc \<Rightarrow> bool" where
  "caller_locked pc = (case pc of
      C_Attention_Write ma \<Rightarrow> ma_lifecycle ma = LC_Busy
    | C_Count_Write _ ma \<Rightarrow> ma_lifecycle ma = LC_Busy
    | C_Generation_Write _ ma \<Rightarrow> ma_lifecycle ma = LC_Busy
    | C_Start \<Rightarrow> False | C_Start_Write _ \<Rightarrow> False | C_Send \<Rightarrow> False | _ \<Rightarrow> True)"

definition locked :: "agent_race \<Rightarrow> bool" where
  "locked s \<longleftrightarrow> ma_lifecycle (ah_state (rc_handle s)) = LC_Busy \<and> rc_loop s = L_Recv
     \<and> ah_commands (rc_handle s) = [] \<and> (\<forall>c \<in> set (rc_callers s). caller_locked (snd c))"

lemma caller_step_locked:
  "caller_step w pc h = Some (pc', h') \<Longrightarrow> caller_locked pc \<Longrightarrow> ma_lifecycle (ah_state h) = LC_Busy \<Longrightarrow>
     caller_locked pc' \<and> ma_lifecycle (ah_state h') = LC_Busy \<and> ah_commands h' = ah_commands h"
  by (cases pc) (auto simp: caller_locked_def write_state_def clear_attention_def set_pending_def push_wake_def
      queue_generation_def)

lemma race_step_locked: "race_step s t \<Longrightarrow> locked s \<Longrightarrow> locked t \<and> rc_begun t = rc_begun s"
proof (induction rule: race_step.induct)
  case (arrives s w)
  then show ?case by (auto simp: locked_def caller_locked_def)
next
  case (calls i s w pc pc' h)
  then have "caller_locked pc" unfolding locked_def by (metis nth_mem snd_conv)
  with caller_step_locked [OF calls(3)] calls(4)
  have "caller_locked pc' \<and> ma_lifecycle (ah_state h) = LC_Busy \<and> ah_commands h = []" by (simp add: locked_def)
  with calls(4) show ?case by (auto simp: locked_def dest!: set_update_subset_insert [THEN subsetD])
next
  case (loops outcome s pc' h)
  then show ?case by (simp add: locked_def)
qed

lemma race_steps_locked: "race_step\<^sup>*\<^sup>* s t \<Longrightarrow> locked s \<Longrightarrow> locked t \<and> rc_begun t = rc_begun s"
  by (induction rule: rtranclp_induct) (auto dest: race_step_locked)

text \<open>An agent can be locked for good: a call that sends a state it read earlier marks the resting
  agent as busy. From then on, however many calls come and whatever they and the loop do, every
  wake goes to the queue and no turn ever begins.\<close>

theorem stale_write_locks_agent:
  "\<exists>s. race_step\<^sup>*\<^sup>* (race_launched ''one'') s \<and> rc_begun s = [''one'', ''two'']
     \<and> (\<forall>t. race_step\<^sup>*\<^sup>* s t \<longrightarrow> rc_begun t = [''one'', ''two''] \<and> ma_lifecycle (ah_state (rc_handle t)) = LC_Busy
          \<and> ah_commands (rc_handle t) = [])"
proof -
  let ?P = "\<lambda>s. rc_loop s = L_Recv \<and> ah_commands (rc_handle s) = [] \<and> map snd (rc_callers s) = [C_Done]
      \<and> rc_begun s = [''one'', ''two''] \<and> ma_lifecycle (ah_state (rc_handle s)) = LC_Busy"
  have "map_option ?P (run_moves stale_write_moves (race_launched ''one'')) = Some True" by code_simp
  then obtain s where s: "race_step\<^sup>*\<^sup>* (race_launched ''one'') s" "?P s" by (rule reached_by_moves)
  then have "locked s" by (auto simp: locked_def caller_locked_def)
  with s race_steps_locked show ?thesis unfolding locked_def by metis
qed

section \<open>Witnesses\<close>

theorem undisturbed_steps_are_atomic_witness:
  "run_loop 12 (Inr ''done'') L_In_Turn (launched ''one'') = (L_Recv, finish_turn_ok ''done'' (launched ''one''))"
  using undisturbed_steps_are_atomic [of "launched ''one''" "''m''" UserInput "''a''" "''done''" "''e''"]
  by (simp add: launched_def send_command_def update_state_def CHILD_COMMAND_CHANNEL_CAPACITY_def)

theorem no_wake_lost_or_doubled_witness:
  "turn_messages (ah_commands (rc_handle (race_launched ''one''))) = [''one'']"
  using no_wake_lost_or_doubled [OF rtranclp.rtrancl_refl, of "''one''"]
  by (simp add: race_launched_def launched_def send_command_def update_state_def in_hand_def)

theorem stale_write_locks_agent_witness:
  "\<exists>s. race_step\<^sup>*\<^sup>* (race_launched ''one'') s \<and> rc_begun s = [''one'', ''two''] \<and> ah_commands (rc_handle s) = []"
  using stale_write_locks_agent by (metis rtranclp.rtrancl_refl)

end
