(* ===== verification/WorkflowRuns.thy ===== *)
theory WorkflowRuns
  imports TeamSnapshot RustFind
begin

text \<open>
  The workflow runs of a team (module \<open>team_runs\<close> of \<open>core/src/agent/team_runtime.rs\<close>): the run
  that collects the ad hoc plans of a thread, the run that a submitted plan opens, the decision
  on a plan, and what claiming a task of a run does to it. The data stand in \<open>TeamSnapshot\<close>.

  A label of more than 48 bytes is cut after 45 bytes with \<open>String::truncate\<close>, which panics
  inside a character. An operation that may panic returns \<open>None\<close> together with the state
  it leaves; the lock is taken again by the next operation, whatever happened to this one.
\<close>

section \<open>State\<close>

record team_run_state =
  rs_runs :: "(string, workflow_run) hashmap"

definition empty_run_state :: team_run_state where
  "empty_run_state = \<lparr>rs_runs = []\<rparr>"

definition AD_HOC_PLAN_WORKFLOW :: string where "AD_HOC_PLAN_WORKFLOW = ''ad_hoc_plan''"
definition TEAM_PLAN_WORKFLOW :: string where "TEAM_PLAN_WORKFLOW = ''team_plan''"

definition default_approval :: workflow_approval_state where
  "default_approval = \<lparr>wa_status = Approval_NotRequested, wa_requested_by_thread_id = None,
     wa_reviewer_thread_id = None, wa_note = None, wa_updated_at = 0\<rparr>"

section \<open>Labels\<close>

text \<open>\<open>str::is_char_boundary\<close> on the bytes of a string, and \<open>String::truncate\<close>.\<close>

definition is_char_boundary :: "string \<Rightarrow> nat \<Rightarrow> bool" where
  "is_char_boundary s n \<longleftrightarrow> n = 0 \<or> n = length s
     \<or> (n < length s \<and> (of_char (s ! n) < (128 :: nat) \<or> of_char (s ! n) \<ge> (192 :: nat)))"

definition truncate :: "nat \<Rightarrow> string \<Rightarrow> string option" where
  "truncate n s = (if length s < n then Some s else if is_char_boundary s n then Some (take n s) else None)"

definition humanize_artifact_label :: "string \<Rightarrow> string \<Rightarrow> string option" where
  "humanize_artifact_label text fallback =
     (let trimmed = trim text in
      if trimmed = [] then Some fallback
      else
        (let label = trim (case str_lines trimmed of l # _ \<Rightarrow> l | [] \<Rightarrow> trimmed) in
         if 48 < length label then map_option (\<lambda>cut. cut @ ''...'') (truncate 45 label)
         else Some label))"

section \<open>Reading\<close>

definition run_snapshot :: "string \<Rightarrow> team_run_state \<Rightarrow> workflow_runtime_snapshot" where
  "run_snapshot root_thread_id st =
     \<lparr>wx_root_thread_id = root_thread_id,
      wx_runs = sort_key (\<lambda>run. (wr_created_at run, wr_id run)) (hm_values (rs_runs st))\<rparr>"

definition requires_approval :: "string \<Rightarrow> team_run_state \<Rightarrow> bool" where
  "requires_approval thread_id st \<longleftrightarrow>
     list_ex (\<lambda>run. wa_status (wr_approval run) \<in> {Approval_Pending, Approval_Rejected})
       (filter (\<lambda>run. wr_owner_thread_id run = thread_id) (hm_values (rs_runs st)))"

definition open_run :: "string \<Rightarrow> string \<Rightarrow> workflow_run \<Rightarrow> bool" where
  "open_run owner_thread_id workflow_name run \<longleftrightarrow>
     wr_owner_thread_id run = owner_thread_id \<and> wr_workflow_name run = workflow_name
     \<and> \<not> wr_status run \<in> {Run_Completed, Run_Failed, Run_Canceled}"

text \<open>\<open>max_by_key\<close> gives the last of the greatest elements in the order of iteration.\<close>

definition max_by_updated_at :: "workflow_run list \<Rightarrow> workflow_run option" where
  "max_by_updated_at runs =
     (case runs of [] \<Rightarrow> None
      | r # rs \<Rightarrow> Some (foldl (\<lambda>best run. if wr_updated_at best \<le> wr_updated_at run then run else best) r rs))"

definition find_latest_open_run :: "string \<Rightarrow> string \<Rightarrow> team_run_state \<Rightarrow> string option" where
  "find_latest_open_run owner_thread_id workflow_name st =
     map_option wr_id (max_by_updated_at (filter (open_run owner_thread_id workflow_name) (hm_values (rs_runs st))))"

section \<open>Writing\<close>

fun upsert_step :: "workflow_step_state \<Rightarrow> workflow_step_state list \<Rightarrow> workflow_step_state list" where
  "upsert_step next_step [] = [next_step]"
| "upsert_step next_step (step # steps) =
     (if ws_id step = ws_id next_step then next_step # steps else step # upsert_step next_step steps)"

text \<open>\<open>iter_mut().find(..)\<close> followed by an update of the step that was found.\<close>

fun modify_step :: "string \<Rightarrow> (workflow_step_state \<Rightarrow> workflow_step_state) \<Rightarrow> workflow_step_state list
    \<Rightarrow> workflow_step_state list" where
  "modify_step step_id f [] = []"
| "modify_step step_id f (step # steps) =
     (if ws_id step = step_id then f step # steps else step # modify_step step_id f steps)"

definition resume_token :: "string \<Rightarrow> string \<Rightarrow> string" where
  "resume_token owner_thread_id run_id = ''workflow://'' @ owner_thread_id @ ''/'' @ run_id"

definition ad_hoc_run :: "env \<Rightarrow> string \<Rightarrow> workflow_run" where
  "ad_hoc_run e owner_thread_id =
     \<lparr>wr_id = env_uuid e 0, wr_workflow_name = AD_HOC_PLAN_WORKFLOW, wr_title = ''Ad hoc plan'',
      wr_owner_thread_id = owner_thread_id, wr_status = Run_Active, wr_resume_token = None,
      wr_current_step_id = None, wr_steps = [], wr_artifacts = [], wr_approval = default_approval,
      wr_created_at = env_clock e 0, wr_updated_at = env_clock e 0\<rparr>"

definition plan_step :: "int \<Rightarrow> string \<Rightarrow> workflow_step_state" where
  "plan_step now owner_thread_id =
     \<lparr>ws_id = ''plan'', ws_title = ''Capture plan'',
      ws_details = Some ''Record an ad hoc plan item emitted by the agent.'',
      ws_status = Step_Completed, ws_assigned_thread_id = Some owner_thread_id, ws_updated_at = now\<rparr>"

definition capture_plan :: "int \<Rightarrow> string \<Rightarrow> workflow_run \<Rightarrow> workflow_run" where
  "capture_plan now owner_thread_id run =
     run\<lparr>wr_steps := upsert_step (plan_step now owner_thread_id) (wr_steps run),
         wr_status := Run_Active, wr_current_step_id := Some ''plan'',
         wr_resume_token := Some (resume_token owner_thread_id (wr_id run)), wr_updated_at := now\<rparr>"

definition push_artifact :: "workflow_artifact \<Rightarrow> workflow_run \<Rightarrow> workflow_run" where
  "push_artifact artifact run = run\<lparr>wr_artifacts := wr_artifacts run @ [artifact]\<rparr>"

text \<open>The clock is read for a new run and then for the step; a panic leaves the captured step.\<close>

definition record_ad_hoc_plan ::
  "env \<Rightarrow> string \<Rightarrow> string \<Rightarrow> team_run_state \<Rightarrow> workflow_run option \<times> team_run_state" where
  "record_ad_hoc_plan e owner_thread_id text st =
     (let (run_id, runs) =
            (case find_latest_open_run owner_thread_id AD_HOC_PLAN_WORKFLOW st of
               Some run_id \<Rightarrow> (run_id, rs_runs st)
             | None \<Rightarrow> (env_uuid e 0, hm_insert (env_uuid e 0) (ad_hoc_run e owner_thread_id) (rs_runs st)));
          now = env_clock e 1;
          captured = hm_modify run_id (capture_plan now owner_thread_id) runs
      in case humanize_artifact_label text ''Plan item'' of
           None \<Rightarrow> (None, st\<lparr>rs_runs := captured\<rparr>)
         | Some label \<Rightarrow>
             (let artifact = \<lparr>wf_id = env_uuid e 1, wf_kind = ''plan_text'', wf_label = label, wf_content = text,
                    wf_created_by_thread_id = Some owner_thread_id, wf_created_at = now\<rparr>;
                  runs' = hm_modify run_id (push_artifact artifact) captured
              in (hm_get runs' run_id, st\<lparr>rs_runs := runs'\<rparr>)))"

definition team_plan_step :: "int \<Rightarrow> string \<Rightarrow> bool \<Rightarrow> nat \<Rightarrow> string \<Rightarrow> workflow_step_state" where
  "team_plan_step now author_thread_id needs_approval index step =
     \<lparr>ws_id = ''step-'' @ show_nat (index + 1), ws_title = step, ws_details = None,
      ws_status = (if index = 0 \<and> \<not> needs_approval then Step_InProgress
                   else if needs_approval then Step_Blocked else Step_Pending),
      ws_assigned_thread_id = Some author_thread_id, ws_updated_at = now\<rparr>"

definition team_plan_steps :: "int \<Rightarrow> string \<Rightarrow> bool \<Rightarrow> string list \<Rightarrow> workflow_step_state list" where
  "team_plan_steps now author_thread_id needs_approval steps =
     map (\<lambda>(index, step). team_plan_step now author_thread_id needs_approval index step) (List.enumerate 0 steps)"

definition team_plan_approval :: "int \<Rightarrow> string \<Rightarrow> bool \<Rightarrow> workflow_approval_state" where
  "team_plan_approval now author_thread_id needs_approval =
     \<lparr>wa_status = (if needs_approval then Approval_Pending else Approval_Approved),
      wa_requested_by_thread_id = (if needs_approval then Some author_thread_id else None),
      wa_reviewer_thread_id = None, wa_note = None, wa_updated_at = now\<rparr>"

text \<open>The label is made before the run is stored, so a panic leaves the state as it was.\<close>

definition create_run_for_team_plan ::
  "env \<Rightarrow> string \<Rightarrow> string \<Rightarrow> string list \<Rightarrow> bool \<Rightarrow> team_run_state \<Rightarrow> workflow_run option \<times> team_run_state" where
  "create_run_for_team_plan e author_thread_id summary steps needs_approval st =
     (let now = env_clock e 0; run_id = env_uuid e 0;
          workflow_steps = team_plan_steps now author_thread_id needs_approval steps
      in case humanize_artifact_label summary ''Team plan'' of
           None \<Rightarrow> (None, st)
         | Some label \<Rightarrow>
             (let run = \<lparr>wr_id = run_id, wr_workflow_name = TEAM_PLAN_WORKFLOW, wr_title = summary,
                    wr_owner_thread_id = author_thread_id,
                    wr_status = (if needs_approval then Run_WaitingApproval else Run_Active),
                    wr_resume_token = Some (resume_token author_thread_id run_id),
                    wr_current_step_id = map_option ws_id (case workflow_steps of s # _ \<Rightarrow> Some s | [] \<Rightarrow> None),
                    wr_steps = workflow_steps,
                    wr_artifacts = [\<lparr>wf_id = env_uuid e 1, wf_kind = ''team_plan_summary'', wf_label = label,
                      wf_content = summary, wf_created_by_thread_id = Some author_thread_id, wf_created_at = now\<rparr>],
                    wr_approval = team_plan_approval now author_thread_id needs_approval,
                    wr_created_at = now, wr_updated_at = now\<rparr>
              in (Some run, st\<lparr>rs_runs := hm_insert run_id run (rs_runs st)\<rparr>)))"

fun approval_of_plan :: "team_plan_status \<Rightarrow> workflow_approval_status" where
  "approval_of_plan Plan_Approved = Approval_Approved"
| "approval_of_plan Plan_Rejected = Approval_Rejected"
| "approval_of_plan Plan_PendingApproval = Approval_Pending"
| "approval_of_plan Plan_Draft = Approval_NotRequested"

fun run_status_of_plan :: "team_plan_status \<Rightarrow> workflow_run_status" where
  "run_status_of_plan Plan_Approved = Run_Active"
| "run_status_of_plan Plan_Rejected = Run_Failed"
| "run_status_of_plan Plan_PendingApproval = Run_WaitingApproval"
| "run_status_of_plan Plan_Draft = Run_Pending"

definition start_first_step :: "int \<Rightarrow> workflow_run \<Rightarrow> workflow_run" where
  "start_first_step now run =
     (case wr_steps run of
        [] \<Rightarrow> run
      | first # rest \<Rightarrow> run\<lparr>wr_steps := first\<lparr>ws_status := Step_InProgress, ws_updated_at := now\<rparr> # rest,
          wr_current_step_id := Some (ws_id first)\<rparr>)"

definition block_step :: "int \<Rightarrow> workflow_step_state \<Rightarrow> workflow_step_state" where
  "block_step now step =
     (if ws_status step \<in> {Step_Completed, Step_Skipped} then step
      else step\<lparr>ws_status := Step_Blocked, ws_updated_at := now\<rparr>)"

definition apply_decision :: "int \<Rightarrow> team_plan \<Rightarrow> workflow_run \<Rightarrow> workflow_run" where
  "apply_decision now plan run =
     (let run1 = run\<lparr>wr_approval := (wr_approval run)\<lparr>wa_status := approval_of_plan (tp_status plan),
            wa_reviewer_thread_id := tp_reviewer_thread_id plan, wa_note := tp_review_note plan,
            wa_updated_at := now\<rparr>, wr_status := run_status_of_plan (tp_status plan)\<rparr>;
          run2 = (if tp_status plan = Plan_Approved then start_first_step now run1
                  else if tp_status plan = Plan_Rejected then run1\<lparr>wr_steps := map (block_step now) (wr_steps run1)\<rparr>
                  else run1)
      in run2\<lparr>wr_updated_at := now\<rparr>)"

text \<open>\<open>get_mut\<close> with the early return of \<open>?\<close>, and the copy of the run that is returned.\<close>

definition with_run ::
  "string \<Rightarrow> (workflow_run \<Rightarrow> workflow_run) \<Rightarrow> team_run_state \<Rightarrow> workflow_run option \<times> team_run_state" where
  "with_run run_id f st =
     (case hm_get (rs_runs st) run_id of
        None \<Rightarrow> (None, st)
      | Some run \<Rightarrow> (Some (f run), st\<lparr>rs_runs := hm_modify run_id f (rs_runs st)\<rparr>))"

definition sync_plan_decision ::
  "env \<Rightarrow> team_plan \<Rightarrow> team_run_state \<Rightarrow> workflow_run option \<times> team_run_state" where
  "sync_plan_decision e plan st =
     (case tp_workflow_run_id plan of
        None \<Rightarrow> (None, st)
      | Some workflow_run_id \<Rightarrow> with_run workflow_run_id (apply_decision (env_clock e 0) plan) st)"

definition step_fields :: "int \<Rightarrow> workflow_step_status \<Rightarrow> string option \<Rightarrow> string option
    \<Rightarrow> workflow_step_state \<Rightarrow> workflow_step_state" where
  "step_fields now status assigned_thread_id details step =
     step\<lparr>ws_status := status,
       ws_assigned_thread_id := (case assigned_thread_id of Some a \<Rightarrow> Some a | None \<Rightarrow> ws_assigned_thread_id step),
       ws_details := (case details of Some d \<Rightarrow> Some d | None \<Rightarrow> ws_details step),
       ws_updated_at := now\<rparr>"

definition update_step ::
  "env \<Rightarrow> string \<Rightarrow> string \<Rightarrow> workflow_step_status \<Rightarrow> string option \<Rightarrow> string option \<Rightarrow> team_run_state
     \<Rightarrow> workflow_run option \<times> team_run_state" where
  "update_step e run_id step_id status assigned_thread_id details st =
     (case hm_get (rs_runs st) run_id of
        None \<Rightarrow> (None, st)
      | Some run \<Rightarrow>
          if find (\<lambda>step. ws_id step = step_id) (wr_steps run) = None then (None, st)
          else with_run run_id (\<lambda>run. run\<lparr>
                 wr_steps := modify_step step_id (step_fields (env_clock e 0) status assigned_thread_id details) (wr_steps run),
                 wr_current_step_id := Some step_id, wr_updated_at := env_clock e 0\<rparr>) st)"

definition append_artifact ::
  "env \<Rightarrow> string \<Rightarrow> string \<Rightarrow> string \<Rightarrow> string \<Rightarrow> string option \<Rightarrow> team_run_state
     \<Rightarrow> workflow_run option \<times> team_run_state" where
  "append_artifact e run_id kind label content created_by_thread_id st =
     with_run run_id (\<lambda>run. (push_artifact
       \<lparr>wf_id = env_uuid e 0, wf_kind = kind, wf_label = label, wf_content = content,
        wf_created_by_thread_id = created_by_thread_id, wf_created_at = env_clock e 0\<rparr> run)
         \<lparr>wr_updated_at := env_clock e 0\<rparr>) st"

definition set_run_status ::
  "env \<Rightarrow> string \<Rightarrow> workflow_run_status \<Rightarrow> string option \<Rightarrow> string option \<Rightarrow> team_run_state
     \<Rightarrow> workflow_run option \<times> team_run_state" where
  "set_run_status e run_id status current_step_id token st =
     with_run run_id (\<lambda>run. run\<lparr>wr_status := status,
       wr_current_step_id := (case current_step_id of Some s \<Rightarrow> Some s | None \<Rightarrow> wr_current_step_id run),
       wr_resume_token := (case token of Some t \<Rightarrow> Some t | None \<Rightarrow> wr_resume_token run),
       wr_updated_at := env_clock e 0\<rparr>) st"

definition claim_step :: "int \<Rightarrow> string \<Rightarrow> workflow_step_state \<Rightarrow> workflow_step_state" where
  "claim_step now claimer_thread_id step =
     step\<lparr>ws_assigned_thread_id := Some claimer_thread_id,
       ws_status := (if ws_status step \<in> {Step_Pending, Step_Blocked} then Step_InProgress else ws_status step),
       ws_updated_at := now\<rparr>"

definition claim_run :: "int \<Rightarrow> string \<Rightarrow> string \<Rightarrow> workflow_run \<Rightarrow> workflow_run" where
  "claim_run now task_id claimer_thread_id run =
     (let run1 = run\<lparr>wr_owner_thread_id := claimer_thread_id,
            wr_resume_token := Some (''workflow://task/'' @ task_id @ ''/'' @ claimer_thread_id),
            wr_status := Run_Active, wr_updated_at := now\<rparr>
      in case wr_current_step_id run1 of
           None \<Rightarrow> run1
         | Some current_step_id \<Rightarrow>
             run1\<lparr>wr_steps := modify_step current_step_id (claim_step now claimer_thread_id) (wr_steps run1)\<rparr>)"

definition note_task_claim ::
  "env \<Rightarrow> team_task \<Rightarrow> string \<Rightarrow> team_run_state \<Rightarrow> workflow_run option \<times> team_run_state" where
  "note_task_claim e t claimer_thread_id st =
     (case tn_workflow_run_id t of
        None \<Rightarrow> (None, st)
      | Some workflow_run_id \<Rightarrow> with_run workflow_run_id (claim_run (env_clock e 0) (tn_id t) claimer_thread_id) st)"

definition clear_runs :: "team_run_state \<Rightarrow> team_run_state" where
  "clear_runs st = st\<lparr>rs_runs := []\<rparr>"

end
