(* ===== verification/WorkflowGate.thy ===== *)
theory WorkflowGate
  imports WorkflowRuns
begin

text \<open>
  What holds of the workflow runs: every run is kept under its own identifier with distinct
  steps, its current step is one of them, and a run that waits for approval has an open
  approval; what a round of approval does to the gate of the author; and what a claim of a
  task does to it.
\<close>

section \<open>Single operations\<close>

named_theorems run_simps

lemma get_with_run [run_simps]:
  "hm_get (rs_runs (snd (with_run run_id f st))) k
    = (if k = run_id then map_option f (hm_get (rs_runs st) k) else hm_get (rs_runs st) k)"
  by (simp add: with_run_def get_hm_modify split: option.split)

lemma wf_with_run [simp]: "hm_wf (rs_runs (snd (with_run run_id f st))) = hm_wf (rs_runs st)"
  by (simp add: with_run_def split: option.split)

lemma fst_with_run [run_simps]: "fst (with_run run_id f st) = map_option f (hm_get (rs_runs st) run_id)"
  by (simp add: with_run_def split: option.split)

lemma requires_approval_iff:
  assumes "hm_wf (rs_runs st)"
  shows "requires_approval t st \<longleftrightarrow> (\<exists>k run. hm_get (rs_runs st) k = Some run \<and> wr_owner_thread_id run = t
    \<and> wa_status (wr_approval run) \<in> {Approval_Pending, Approval_Rejected})"
  using assms by (force simp: requires_approval_def list_ex_iff map_of_eq_Some_iff)

lemma ids_step_fields [simp]: "ws_id (step_fields now status a d s) = ws_id s"
  by (simp add: step_fields_def)

lemma ids_claim_step [simp]: "ws_id (claim_step now c s) = ws_id s"
  by (simp add: claim_step_def)

section \<open>Every reachable state\<close>

definition step_ids :: "workflow_step_state list \<Rightarrow> string list" where
  "step_ids steps = map ws_id steps"

definition run_ok :: "workflow_run \<Rightarrow> bool" where
  "run_ok run \<longleftrightarrow> distinct (step_ids (wr_steps run))
     \<and> (\<forall>s. wr_current_step_id run = Some s \<longrightarrow> s \<in> set (step_ids (wr_steps run)))
     \<and> (wr_status run = Run_WaitingApproval \<longrightarrow> wa_status (wr_approval run) = Approval_Pending)"

definition runs_ok :: "team_run_state \<Rightarrow> bool" where
  "runs_ok st \<longleftrightarrow> hm_wf (rs_runs st)
     \<and> (\<forall>k run. hm_get (rs_runs st) k = Some run \<longrightarrow> wr_id run = k \<and> run_ok run)"

lemma ids_upsert [simp]:
  "step_ids (upsert_step s steps) = step_ids steps @ (if ws_id s \<in> set (step_ids steps) then [] else [ws_id s])"
  by (induction steps) (auto simp: step_ids_def)

lemma ids_modify: "(\<And>s. ws_id (f s) = ws_id s) \<Longrightarrow> step_ids (modify_step i f steps) = step_ids steps"
  by (induction steps) (auto simp: step_ids_def)

lemma id_block_step [simp]: "ws_id (block_step now s) = ws_id s"
  by (simp add: block_step_def)

lemma ids_block_step [simp]: "step_ids (map (block_step now) steps) = step_ids steps"
  by (induction steps) (auto simp: block_step_def step_ids_def)

lemma ids_Cons [simp]: "step_ids [] = []" "step_ids (s # steps) = ws_id s # step_ids steps"
  by (simp_all add: step_ids_def)

lemma in_step_ids: "s \<in> set steps \<Longrightarrow> ws_id s \<in> set (step_ids steps)"
  by (simp add: step_ids_def)

text \<open>The operations that the program calls, in any order; \<open>set_run_status\<close> has no caller, and
  it stores any step identifier it is given. The identifiers of new runs are fresh.\<close>

inductive run_op :: "team_run_state \<Rightarrow> team_run_state \<Rightarrow> bool" where
  record_plan: "env_uuid e 0 \<notin> set (hm_keys (rs_runs st)) \<Longrightarrow> run_op st (snd (record_ad_hoc_plan e owner txt st))"
| create_run: "env_uuid e 0 \<notin> set (hm_keys (rs_runs st)) \<Longrightarrow>
    run_op st (snd (create_run_for_team_plan e author summary steps needs_approval st))"
| sync_decision: "run_op st (snd (sync_plan_decision e plan st))"
| claim_task: "run_op st (snd (note_task_claim e t claimer st))"
| step_update: "run_op st (snd (update_step e run_id step_id status assigned details st))"
| add_artifact: "run_op st (snd (append_artifact e run_id kind label content creator st))"
| clear_all: "run_op st (clear_runs st)"

lemma runs_ok_with_run:
  assumes "runs_ok st"
    and "\<And>run. hm_get (rs_runs st) run_id = Some run \<Longrightarrow> run_ok run \<Longrightarrow> wr_id (f run) = wr_id run \<and> run_ok (f run)"
  shows "runs_ok (snd (with_run run_id f st))"
  using assms by (auto simp: runs_ok_def run_simps)

lemma runs_ok_modify:
  assumes "runs_ok (st\<lparr>rs_runs := m\<rparr>)"
    and "\<And>run. hm_get m run_id = Some run \<Longrightarrow> run_ok run \<Longrightarrow> wr_id (f run) = wr_id run \<and> run_ok (f run)"
  shows "runs_ok (st\<lparr>rs_runs := hm_modify run_id f m\<rparr>)"
  using assms by (auto simp: runs_ok_def get_hm_modify)

lemma runs_ok_insert:
  "runs_ok st \<Longrightarrow> run_ok run \<Longrightarrow> wr_id run = k \<Longrightarrow> runs_ok (st\<lparr>rs_runs := hm_insert k run (rs_runs st)\<rparr>)"
  by (auto simp: runs_ok_def get_hm_insert)

lemma run_ok_capture: "run_ok run \<Longrightarrow> run_ok (capture_plan now owner run)"
  by (auto simp: run_ok_def capture_plan_def plan_step_def)

lemma run_ok_push: "run_ok (push_artifact a run) = run_ok run" "wr_id (push_artifact a run) = wr_id run"
  by (simp_all add: run_ok_def push_artifact_def)

lemma run_ok_decision: "run_ok run \<Longrightarrow> run_ok (apply_decision now plan run) \<and> wr_id (apply_decision now plan run) = wr_id run"
  by (cases "tp_status plan"; cases "wr_steps run")
    (auto simp: run_ok_def apply_decision_def start_first_step_def Let_def)

lemma run_ok_claim: "run_ok run \<Longrightarrow> run_ok (claim_run now t c run) \<and> wr_id (claim_run now t c run) = wr_id run"
  by (auto simp: run_ok_def claim_run_def Let_def ids_modify split: option.split)

lemma show_nat_digits: "show_nat n \<noteq> []"
  by (subst show_nat.simps) simp

lemma digit_char_inj: "a < 10 \<Longrightarrow> b < 10 \<Longrightarrow> digit_char a = digit_char b \<Longrightarrow> a = b"
  by (auto simp: digit_char_def take_bit_nat_eq_self dest: arg_cong [where f = "of_char :: char \<Rightarrow> nat"])

lemma show_nat_inj: "show_nat m = show_nat n \<Longrightarrow> m = n"
proof (induction m arbitrary: n rule: show_nat.induct)
  case (1 m)
  have last_digit: "last (show_nat k) = digit_char (k mod 10)" "butlast (show_nat k) = (if k < 10 then [] else show_nat (k div 10))" for k
    by (subst show_nat.simps, simp)+
  have "digit_char (m mod 10) = digit_char (n mod 10)" using 1(2) last_digit(1) by metis
  then have mods: "m mod 10 = n mod 10" by (rule digit_char_inj [rotated 2]) simp_all
  have bl: "(if m < 10 then [] else show_nat (m div 10)) = (if n < 10 then [] else show_nat (n div 10))"
    using 1(2) last_digit(2) by metis
  show ?case
  proof (cases "m < 10")
    case True
    with bl show_nat_digits have "n < 10" by (metis (full_types))
    with True mods show ?thesis by simp
  next
    case False
    with bl show_nat_digits have "\<not> n < 10" by (metis (full_types))
    with False bl 1(1) have "m div 10 = n div 10" by simp
    with mods show ?thesis by (metis mod_div_mult_eq)
  qed
qed

lemma ids_team_plan_steps:
  "step_ids (team_plan_steps now author b steps) = map (\<lambda>i. ''step-'' @ show_nat (i + 1)) [0..<length steps]"
  by (rule nth_equalityI) (simp_all add: step_ids_def team_plan_steps_def team_plan_step_def nth_enumerate_eq)

lemma distinct_team_plan_steps: "distinct (step_ids (team_plan_steps now author b steps))"
  unfolding ids_team_plan_steps by (auto simp: distinct_map inj_on_def dest: show_nat_inj)

lemma run_op_ok: "run_op st st' \<Longrightarrow> runs_ok st \<Longrightarrow> runs_ok st'"
proof (induction rule: run_op.induct)
  case (record_plan e st owner content)
  have new: "run_ok (ad_hoc_run e owner)" "wr_id (ad_hoc_run e owner) = env_uuid e 0"
    by (simp_all add: run_ok_def ad_hoc_run_def)
  have base: "runs_ok (st\<lparr>rs_runs := case find_latest_open_run owner AD_HOC_PLAN_WORKFLOW st of
      Some i \<Rightarrow> rs_runs st | None \<Rightarrow> hm_insert (env_uuid e 0) (ad_hoc_run e owner) (rs_runs st)\<rparr>)"
    using record_plan runs_ok_insert [OF record_plan(2) new] by (simp split: option.split)
  have cap: "wr_id (capture_plan now owner run) = wr_id run" for now run by (simp add: capture_plan_def)
  show ?case
    using base
    by (auto simp: record_ad_hoc_plan_def Let_def run_ok_push run_ok_capture cap intro!: runs_ok_modify
        split: option.split prod.split)
next
  case (create_run e st author summary steps needs_approval)
  show ?case
  proof (cases "humanize_artifact_label summary ''Team plan''")
    case None
    with create_run show ?thesis by (simp add: create_run_for_team_plan_def Let_def)
  next
    case (Some label)
    let ?steps = "team_plan_steps (env_clock e 0) author needs_approval steps"
    have "map_option ws_id (case ?steps of s # _ \<Rightarrow> Some s | [] \<Rightarrow> None) = Some s \<Longrightarrow> s \<in> set (step_ids ?steps)" for s
      by (cases ?steps) auto
    with create_run Some distinct_team_plan_steps [of "env_clock e 0" author needs_approval steps] show ?thesis
      by (auto simp: create_run_for_team_plan_def Let_def run_ok_def team_plan_approval_def
          intro!: runs_ok_insert)
  qed
next
  case (sync_decision st e plan)
  then show ?case by (simp add: sync_plan_decision_def runs_ok_with_run run_ok_decision split: option.split)
next
  case (claim_task st e t claimer)
  then show ?case by (simp add: note_task_claim_def runs_ok_with_run run_ok_claim split: option.split)
next
  case (step_update st e run_id step_id status assigned details)
  then show ?case
    by (auto simp: update_step_def find_None_iff run_ok_def ids_modify in_step_ids intro!: runs_ok_with_run split: option.split)
next
  case (add_artifact st e run_id kind label content creator)
  then show ?case by (auto simp: append_artifact_def run_ok_def push_artifact_def intro!: runs_ok_with_run)
next
  case (clear_all st)
  then show ?case by (simp add: runs_ok_def clear_runs_def)
qed

interpretation runs: machine "(=) empty_run_state" run_op runs_ok
proof unfold_locales
  fix s assume "empty_run_state = s"
  then show "runs_ok s" by (auto simp: runs_ok_def empty_run_state_def)
qed (rule run_op_ok)


text \<open>In every reachable state each run is kept under its own identifier, its steps have distinct
  identifiers, the current step is one of them, and a run that waits for approval has an open
  approval request.\<close>

theorem runs_stay_consistent:
  assumes "run_op\<^sup>*\<^sup>* empty_run_state st" and "hm_get (rs_runs st) k = Some run"
  shows "wr_id run = k \<and> distinct (map ws_id (wr_steps run))
    \<and> (\<forall>i. wr_current_step_id run = Some i \<longrightarrow> (\<exists>s \<in> set (wr_steps run). ws_id s = i))
    \<and> (wr_status run = Run_WaitingApproval \<longrightarrow> requires_approval (wr_owner_thread_id run) st)"
proof -
  have ok: "runs_ok st" using runs.inv_reachable [OF refl assms(1)] .
  then have "hm_wf (rs_runs st)" "wr_id run = k" "run_ok run" using assms(2) by (auto simp: runs_ok_def)
  then show ?thesis using assms(2)
    by (auto simp: requires_approval_iff run_ok_def step_ids_def)
qed

lemma runs_ok_wf: "runs_ok st \<Longrightarrow> hm_wf (rs_runs st)"
  by (simp add: runs_ok_def)

section \<open>A round of approval\<close>

definition gating :: "string \<Rightarrow> workflow_run \<Rightarrow> bool" where
  "gating t run \<longleftrightarrow> wr_owner_thread_id run = t
     \<and> wa_status (wr_approval run) \<in> {Approval_Pending, Approval_Rejected}"

lemma requires_approval_gating:
  "hm_wf (rs_runs st) \<Longrightarrow> requires_approval t st \<longleftrightarrow> (\<exists>k run. hm_get (rs_runs st) k = Some run \<and> gating t run)"
  by (simp add: requires_approval_iff gating_def)

lemma created_run:
  assumes "create_run_for_team_plan e author summary steps True st = (Some run, st1)"
  shows "rs_runs st1 = hm_insert (env_uuid e 0) run (rs_runs st)" "wr_id run = env_uuid e 0"
    "wr_owner_thread_id run = author" "wa_status (wr_approval run) = Approval_Pending"
    "wr_steps run = team_plan_steps (env_clock e 0) author True steps" "wr_status run = Run_WaitingApproval"
  using assms
  by (auto simp: create_run_for_team_plan_def team_plan_approval_def Let_def split: option.splits)

lemma decided_run:
  "wr_owner_thread_id (apply_decision now plan run) = wr_owner_thread_id run"
  "wa_status (wr_approval (apply_decision now plan run)) = approval_of_plan (tp_status plan)"
  by (cases "wr_steps run"; simp add: apply_decision_def start_first_step_def Let_def)+

lemma new_step_status: "map ws_status (team_plan_steps now author True steps) = replicate (length steps) Step_Blocked"
  by (rule nth_equalityI) (simp_all add: team_plan_steps_def team_plan_step_def nth_enumerate_eq)

lemma decided_steps:
  assumes "map ws_status (wr_steps run) = replicate n Step_Blocked"
  shows "tp_status plan = Plan_Approved \<Longrightarrow> map ws_status (wr_steps (apply_decision now plan run))
      = (if n = 0 then [] else Step_InProgress # replicate (n - 1) Step_Blocked)"
    "tp_status plan = Plan_Rejected \<Longrightarrow> map ws_status (wr_steps (apply_decision now plan run)) = replicate n Step_Blocked"
proof -
  show "tp_status plan = Plan_Approved \<Longrightarrow> map ws_status (wr_steps (apply_decision now plan run))
      = (if n = 0 then [] else Step_InProgress # replicate (n - 1) Step_Blocked)"
    using assms by (cases n; cases "wr_steps run") (auto simp: apply_decision_def start_first_step_def Let_def)
  have "ws_status s = Step_Blocked \<Longrightarrow> ws_status (block_step now s) = Step_Blocked" for s
    by (simp add: block_step_def)
  moreover have "\<forall>s \<in> set (wr_steps run). ws_status s = Step_Blocked"
    using assms by (metis in_set_replicate in_set_conv_nth length_map nth_map nth_mem)
  ultimately have "map ws_status (map (block_step now) (wr_steps run)) = map ws_status (wr_steps run)" by simp
  then show "tp_status plan = Plan_Rejected \<Longrightarrow> map ws_status (wr_steps (apply_decision now plan run)) = replicate n Step_Blocked"
    using assms by (simp add: apply_decision_def Let_def)
qed

text \<open>A plan that needs approval gates its author until it is decided: approval puts the gate
  back to what it was, and starts the first step; rejection keeps it. The steps after the
  first one stay blocked in both cases. Other threads and other runs see none of it.\<close>

theorem approval_round:
  assumes "runs_ok st" and "env_uuid e 0 \<notin> set (hm_keys (rs_runs st))"
    and create: "create_run_for_team_plan e author summary steps True st = (Some run, st1)"
    and plan: "tp_workflow_run_id plan = Some (wr_id run)" "tp_status plan \<in> {Plan_Approved, Plan_Rejected}"
    and sync: "sync_plan_decision e' plan st1 = (decided, st2)"
  shows "requires_approval author st1
    \<and> (\<forall>t. requires_approval t st2 \<longleftrightarrow> requires_approval t st \<or> t = author \<and> tp_status plan = Plan_Rejected)
    \<and> map_option (map ws_status \<circ> wr_steps) decided = Some
        (if tp_status plan = Plan_Rejected then replicate (length steps) Step_Blocked
         else if steps = [] then [] else Step_InProgress # replicate (length steps - 1) Step_Blocked)
    \<and> (\<forall>k. k \<noteq> wr_id run \<longrightarrow> hm_get (rs_runs st2) k = hm_get (rs_runs st) k)"
proof -
  note run = created_run [OF create]
  let ?d = "apply_decision (env_clock e' 0) plan"
  have wf: "hm_wf (rs_runs st)" "hm_wf (rs_runs st1)" using assms(1) run(1) by (auto simp: runs_ok_wf)
  have with_st2: "(decided, st2) = with_run (wr_id run) ?d st1"
    using sync plan(1) by (simp add: sync_plan_decision_def)
  have st2: "st2 = snd (with_run (wr_id run) ?d st1)" "decided = fst (with_run (wr_id run) ?d st1)"
    using with_st2 by (metis snd_conv, metis fst_conv)
  have get1: "hm_get (rs_runs st1) k = (if k = wr_id run then Some run else hm_get (rs_runs st) k)" for k
    by (simp add: run(1,2) get_hm_insert)
  have get2: "hm_get (rs_runs st2) k = (if k = wr_id run then Some (?d run) else hm_get (rs_runs st) k)" for k
    by (simp add: st2 run_simps get1)
  have fresh: "hm_get (rs_runs st) (wr_id run) = None"
    using assms(2) run(2) by (auto simp: map_of_eq_None_iff)
  have g1: "gating author run" using run by (simp add: gating_def)
  have g2: "gating t (?d run) \<longleftrightarrow> t = author \<and> tp_status plan = Plan_Rejected" for t
    using run(3) plan(2) by (auto simp: gating_def decided_run)
  have wf2: "hm_wf (rs_runs st2)" using wf(2) by (simp add: st2)
  have "requires_approval author st1" using g1 get1 wf(2) requires_approval_gating by metis
  moreover have "requires_approval t st2 \<longleftrightarrow> requires_approval t st \<or> t = author \<and> tp_status plan = Plan_Rejected" for t
    unfolding requires_approval_gating [OF wf2] requires_approval_gating [OF wf(1)] get2 using g2 fresh
    by (metis option.distinct(1) option.inject)
  moreover have "decided = Some (?d run)" by (simp add: st2 run_simps get1)
  moreover have "map ws_status (wr_steps (?d run)) = (if tp_status plan = Plan_Rejected then replicate (length steps) Step_Blocked
         else if steps = [] then [] else Step_InProgress # replicate (length steps - 1) Step_Blocked)"
    using decided_steps [OF new_step_status [of "env_clock e 0" author steps, folded run(5)], where plan = plan] plan(2) by auto
  ultimately show ?thesis using get2 by auto
qed

section \<open>Claiming a task of a run\<close>

lemma claimed_run:
  "wr_owner_thread_id (claim_run now t c run) = c" "wr_approval (claim_run now t c run) = wr_approval run"
  "wr_status (claim_run now t c run) = Run_Active" "wr_current_step_id (claim_run now t c run) = wr_current_step_id run"
  by (simp_all add: claim_run_def Let_def split: option.split)

lemma modified_step:
  assumes "distinct (step_ids steps)" "s \<in> set steps" "ws_id s = i" "\<And>s. ws_id (f s) = ws_id s"
  shows "f s \<in> set (modify_step i f steps)"
  using assms by (induction steps) (auto simp: step_ids_def)

lemma claimed_step:
  assumes "run_ok run" and "wr_current_step_id run = Some i"
  obtains s where "s \<in> set (wr_steps run)" "ws_id s = i" "claim_step now c s \<in> set (wr_steps (claim_run now t c run))"
proof -
  obtain s where s: "s \<in> set (wr_steps run)" "ws_id s = i"
    using assms by (auto simp: run_ok_def step_ids_def)
  have "claim_step now c s \<in> set (modify_step i (claim_step now c) (wr_steps run))"
    using modified_step [OF _ s] assms(1) by (simp add: run_ok_def)
  with s assms(2) show thesis by (intro that) (simp_all add: claim_run_def Let_def)
qed

text \<open>Claiming a task of a run whose approval is open or was refused starts it all the same: the
  run becomes active and its blocked current step goes in progress. The gate moves with the
  run: the claimer now needs the approval, the author no longer does because of this run.\<close>

theorem claim_takes_gate:
  assumes ok: "runs_ok st" and task: "tn_workflow_run_id t = Some k" and run: "hm_get (rs_runs st) k = Some run"
    and pending: "wa_status (wr_approval run) \<in> {Approval_Pending, Approval_Rejected}"
    and claim: "note_task_claim e t claimer st = (r, st')"
  shows "requires_approval claimer st'
    \<and> (\<forall>u. u \<noteq> claimer \<longrightarrow> (requires_approval u st' \<longleftrightarrow>
         (\<exists>j other. j \<noteq> k \<and> hm_get (rs_runs st) j = Some other \<and> gating u other)))
    \<and> (\<exists>run'. r = Some run' \<and> hm_get (rs_runs st') k = Some run' \<and> wr_status run' = Run_Active
         \<and> wr_approval run' = wr_approval run
         \<and> (\<forall>i. wr_current_step_id run = Some i \<longrightarrow> (\<exists>s \<in> set (wr_steps run'). ws_id s = i
              \<and> ws_assigned_thread_id s = Some claimer \<and> ws_status s \<notin> {Step_Pending, Step_Blocked})))"
proof -
  let ?c = "claim_run (env_clock e 0) (tn_id t) claimer"
  have "(r, st') = with_run k ?c st" using claim task by (simp add: note_task_claim_def)
  then have st': "st' = snd (with_run k ?c st)" and r: "r = fst (with_run k ?c st)"
    by (metis snd_conv, metis fst_conv)
  have get': "hm_get (rs_runs st') j = (if j = k then Some (?c run) else hm_get (rs_runs st) j)" for j
    by (simp add: st' run_simps run)
  have wf: "hm_wf (rs_runs st')" using ok by (simp add: st' runs_ok_wf)
  have g: "gating u (?c run) \<longleftrightarrow> u = claimer" for u using pending by (auto simp: gating_def claimed_run)
  have "requires_approval claimer st'" unfolding requires_approval_gating [OF wf] using get' g by metis
  moreover have "requires_approval u st' \<longleftrightarrow> (\<exists>j other. j \<noteq> k \<and> hm_get (rs_runs st) j = Some other \<and> gating u other)"
    if "u \<noteq> claimer" for u
    unfolding requires_approval_gating [OF wf] get' using g that by (metis option.inject)
  moreover have "\<exists>s \<in> set (wr_steps (?c run)). ws_id s = i \<and> ws_assigned_thread_id s = Some claimer
      \<and> ws_status s \<notin> {Step_Pending, Step_Blocked}" if "wr_current_step_id run = Some i" for i
  proof -
    have "run_ok run" using ok run by (simp add: runs_ok_def)
    from claimed_step [OF this that, of "env_clock e 0" claimer "tn_id t"] obtain s
      where "ws_id s = i" "claim_step (env_clock e 0) claimer s \<in> set (wr_steps (?c run))" .
    then show ?thesis by (intro bexI [of _ "claim_step (env_clock e 0) claimer s"]) (simp_all add: claim_step_def)
  qed
  ultimately show ?thesis using get' by (simp add: r run_simps run claimed_run)
qed

section \<open>Ad hoc plans\<close>

lemma max_by_updated_at_Some:
  assumes "max_by_updated_at runs = Some m"
  shows "m \<in> set runs \<and> (\<forall>run \<in> set runs. wr_updated_at run \<le> wr_updated_at m)"
proof -
  have fold: "let m = foldl (\<lambda>best run. if wr_updated_at best \<le> wr_updated_at run then run else best) r rs
      in m \<in> insert r (set rs) \<and> (\<forall>run \<in> insert r (set rs). wr_updated_at run \<le> wr_updated_at m)" for r rs
  proof (induction rs arbitrary: r)
    case (Cons a rs)
    from Cons.IH [of "if wr_updated_at r \<le> wr_updated_at a then a else r"] show ?case
      by (force simp: Let_def)
  qed simp
  with assms show ?thesis by (cases runs) (auto simp: max_by_updated_at_def Let_def)
qed

lemma latest_open_run:
  assumes ok: "runs_ok st" and "find_latest_open_run owner name st = Some k"
  obtains run where "hm_get (rs_runs st) k = Some run" "open_run owner name run"
    "\<forall>j other. hm_get (rs_runs st) j = Some other \<longrightarrow> open_run owner name other \<longrightarrow> wr_updated_at other \<le> wr_updated_at run"
proof -
  let ?runs = "filter (open_run owner name) (hm_values (rs_runs st))"
  obtain m where m: "max_by_updated_at ?runs = Some m" "wr_id m = k"
    using assms(2) by (auto simp: find_latest_open_run_def)
  from max_by_updated_at_Some [OF m(1)]
  have inm: "m \<in> set ?runs" and maxm: "\<forall>run \<in> set ?runs. wr_updated_at run \<le> wr_updated_at m" by blast+
  from inm obtain j where "(j, m) \<in> set (rs_runs st)" by auto
  with ok have "hm_get (rs_runs st) j = Some m" "j = k"
    using m(2) by (auto simp: runs_ok_def map_of_eq_Some_iff)
  moreover have "\<forall>j other. hm_get (rs_runs st) j = Some other \<longrightarrow> open_run owner name other \<longrightarrow> wr_updated_at other \<le> wr_updated_at m"
    using maxm by (auto dest!: map_of_SomeD)
  ultimately show thesis using inm that [of m] by simp
qed

lemma no_open_run:
  assumes "runs_ok st" "find_latest_open_run owner name st = None" "hm_get (rs_runs st) k = Some run"
  shows "\<not> open_run owner name run"
proof
  assume "open_run owner name run"
  then have "run \<in> set (filter (open_run owner name) (hm_values (rs_runs st)))"
    using assms(3) by (force dest: map_of_SomeD)
  then show False using assms(2)
    by (cases "filter (open_run owner name) (hm_values (rs_runs st))") (auto simp: find_latest_open_run_def max_by_updated_at_def)
qed

text \<open>An ad hoc plan goes to the open ad hoc run of its owner that was updated last, or to a
  new one if there is none; there it is one artifact more, behind those that were recorded
  before. No other run changes.\<close>

theorem ad_hoc_plan_collects:
  assumes ok: "runs_ok st" and "record_ad_hoc_plan e owner content st = (Some run', st')"
  shows "\<exists>label. humanize_artifact_label content ''Plan item'' = Some label
    \<and> hm_get (rs_runs st') (wr_id run') = Some run' \<and> open_run owner AD_HOC_PLAN_WORKFLOW run'
    \<and> (\<forall>k. k \<noteq> wr_id run' \<longrightarrow> hm_get (rs_runs st') k = hm_get (rs_runs st) k)
    \<and> ((\<exists>run. hm_get (rs_runs st) (wr_id run') = Some run \<and> open_run owner AD_HOC_PLAN_WORKFLOW run
          \<and> map wf_content (wr_artifacts run') = map wf_content (wr_artifacts run) @ [content]
          \<and> (\<forall>k other. hm_get (rs_runs st) k = Some other \<longrightarrow> open_run owner AD_HOC_PLAN_WORKFLOW other
               \<longrightarrow> wr_updated_at other \<le> wr_updated_at run))
       \<or> (\<forall>k other. hm_get (rs_runs st) k = Some other \<longrightarrow> \<not> open_run owner AD_HOC_PLAN_WORKFLOW other)
          \<and> wr_id run' = env_uuid e 0 \<and> map wf_content (wr_artifacts run') = [content])"
proof -
  let ?cap = "capture_plan (env_clock e 1) owner"
  let ?runs = "\<lambda>k. if find_latest_open_run owner AD_HOC_PLAN_WORKFLOW st = None
      then hm_insert k (ad_hoc_run e owner) (rs_runs st) else rs_runs st"
  obtain label k where label: "humanize_artifact_label content ''Plan item'' = Some label"
    and k: "k = (case find_latest_open_run owner AD_HOC_PLAN_WORKFLOW st of Some k \<Rightarrow> k | None \<Rightarrow> env_uuid e 0)"
    using assms(2) by (auto simp: record_ad_hoc_plan_def Let_def split: option.splits)
  define art where "art = push_artifact \<lparr>wf_id = env_uuid e 1, wf_kind = ''plan_text'', wf_label = label, wf_content = content,
      wf_created_by_thread_id = Some owner, wf_created_at = env_clock e 1\<rparr>"
  have res: "Some run' = map_option (art \<circ> ?cap) (hm_get (?runs k) k)"
      "hm_get (rs_runs st') j = (if j = k then Some run' else hm_get (rs_runs st) j)" for j
    using assms(2) label k
    by (auto simp: record_ad_hoc_plan_def Let_def art_def get_hm_modify get_hm_insert option.map_comp split: option.splits)
  have art: "wr_id (art (?cap run)) = wr_id run" "map wf_content (wr_artifacts (art (?cap run))) = map wf_content (wr_artifacts run) @ [content]"
    "open_run owner AD_HOC_PLAN_WORKFLOW run \<Longrightarrow> open_run owner AD_HOC_PLAN_WORKFLOW (art (?cap run))" for run
    by (simp_all add: art_def push_artifact_def capture_plan_def open_run_def)
  show ?thesis
  proof (cases "find_latest_open_run owner AD_HOC_PLAN_WORKFLOW st")
    case None
    then have new: "run' = art (?cap (ad_hoc_run e owner))" and k': "k = env_uuid e 0"
      using res(1) k by (simp_all add: get_hm_insert)
    have "wr_id run' = k" "map wf_content (wr_artifacts run') = [content]" "open_run owner AD_HOC_PLAN_WORKFLOW run'"
      unfolding new k' using art(1,2) [of "ad_hoc_run e owner"] art(3) [of "ad_hoc_run e owner"]
      by (simp_all add: ad_hoc_run_def open_run_def)
    with label res(2) k' no_open_run [OF ok None] show ?thesis by metis
  next
    case (Some k0)
    with k have "find_latest_open_run owner AD_HOC_PLAN_WORKFLOW st = Some k" by simp
    from latest_open_run [OF ok this] obtain run where run: "hm_get (rs_runs st) k = Some run"
      "open_run owner AD_HOC_PLAN_WORKFLOW run"
      "\<forall>j other. hm_get (rs_runs st) j = Some other \<longrightarrow> open_run owner AD_HOC_PLAN_WORKFLOW other \<longrightarrow> wr_updated_at other \<le> wr_updated_at run" .
    have run': "run' = art (?cap run)" using res(1) Some run(1) by simp
    have "wr_id run' = k" unfolding run' art(1) using run(1) ok by (simp add: runs_ok_def)
    with label res(2) run art(2,3) [of run] show ?thesis unfolding run' by metis
  qed
qed

section \<open>Labels\<close>

lemma trim_start_suffix: "\<exists>l. s = l @ trim_start s"
proof (induction s rule: trim_start.induct)
  case (1 s)
  show ?case
  proof (cases "leading_ws s")
    case (Some w)
    with 1 obtain l where "drop (length w) s = l @ trim_start (drop (length w) s)" by blast
    with Some have "s = (take (length w) s @ l) @ trim_start s"
      by (metis append.assoc append_take_drop_id option.simps(5) trim_start.simps)
    then show ?thesis by blast
  qed (simp add: trim_start_id)
qed

lemma set_trim: "set (trim s) \<subseteq> set s"
proof -
  obtain l where "s = l @ trim_start s" using trim_start_suffix by blast
  then have "set (trim_start s) \<subseteq> set s" by (metis Un_upper2 set_append)
  moreover obtain r where "trim_start s = trim s @ r"
    using trim_end_prefix [of "trim_start s"] unfolding trim_def by blast
  then have "set (trim s) \<subseteq> set (trim_start s)" by (metis Un_upper1 set_append)
  ultimately show ?thesis by (rule order.trans [rotated])
qed

lemma set_chomp: "set (chomp l) \<subseteq> set l"
proof -
  have sub: "strip_suffix p s = Some r \<Longrightarrow> set r \<subseteq> set s" for p s r
    by (auto simp: strip_suffix_def split: if_splits dest: in_set_takeD)
  show ?thesis
  proof (cases "strip_suffix [LF] l")
    case (Some m)
    then have "set m \<subseteq> set l" by (rule sub)
    then show ?thesis
      using order.trans [OF sub, of "[CR]" m] by (cases "strip_suffix [CR] m") (simp_all only: chomp_def Some option.case)
  qed (simp only: chomp_def option.case)
qed

lemma set_line: "l \<in> set (str_lines s) \<Longrightarrow> set l \<subseteq> set s"
proof -
  assume "l \<in> set (str_lines s)"
  then obtain m where m: "m \<in> set (split_inclusive s)" "l = chomp m" by (auto simp: str_lines_def)
  then have "set m \<subseteq> set (concat (split_inclusive s))" by auto
  then have "set m \<subseteq> set s" by (simp only: concat_split_inclusive)
  with m(2) set_chomp [of m] show ?thesis by (metis order.trans)
qed

text \<open>The text of the label: the first line of the text, without the white space around it.\<close>

definition label_text :: "string \<Rightarrow> string" where
  "label_text content = trim (case str_lines (trim content) of l # _ \<Rightarrow> l | [] \<Rightarrow> trim content)"

lemma set_label_text: "set (label_text content) \<subseteq> set content"
proof -
  have "set (case str_lines (trim content) of l # _ \<Rightarrow> l | [] \<Rightarrow> trim content) \<subseteq> set (trim content)"
    using set_line [of _ "trim content"] by (cases "str_lines (trim content)") auto
  then show ?thesis using set_trim unfolding label_text_def by (meson order.trans)
qed

lemma ascii_label:
  assumes "\<forall>c \<in> set content. of_char c < (128 :: nat)" and "length fallback \<le> 48"
  shows "\<exists>l. humanize_artifact_label content fallback = Some l \<and> length l \<le> 48"
proof -
  have "48 < length (label_text content) \<Longrightarrow> is_char_boundary (label_text content) 45"
    using assms(1) set_label_text [of content] nth_mem [of 45 "label_text content"]
    by (auto simp: is_char_boundary_def subset_iff)
  with assms(2) show ?thesis
    by (auto simp: humanize_artifact_label_def Let_def truncate_def label_text_def [symmetric])
qed

text \<open>Text in ASCII is always recorded, under a label of at most 48 bytes. Other text need not be:
  when the 45th byte of its first line is inside a character, cutting the label panics, and
  neither the ad hoc plan nor the run of a submitted plan is recorded.\<close>

theorem plan_labels:
  assumes "\<forall>c \<in> set content. of_char c < (128 :: nat)" and "runs_ok st"
  shows "(\<exists>run. fst (record_ad_hoc_plan e owner content st) = Some run \<and> wr_artifacts run \<noteq> []
            \<and> length (wf_label (last (wr_artifacts run))) \<le> 48)
    \<and> (\<exists>run. fst (create_run_for_team_plan e owner content steps needs st) = Some run)
    \<and> (let cut = replicate 44 CHR ''a'' @ [CHR 0xC3, CHR 0xA9] @ ''bcd''
        in fst (record_ad_hoc_plan e owner cut st) = None
           \<and> create_run_for_team_plan e owner cut steps needs st = (None, st))"
proof -
  let ?cut = "replicate 44 CHR ''a'' @ [CHR 0xC3, CHR 0xA9] @ ''bcd''"
  obtain l where l: "humanize_artifact_label content ''Plan item'' = Some l" "length l \<le> 48"
    using ascii_label [OF assms(1), of "''Plan item''"] by auto
  obtain l' where l': "humanize_artifact_label content ''Team plan'' = Some l'"
    using ascii_label [OF assms(1), of "''Team plan''"] by auto
  have cut: "humanize_artifact_label ?cut ''Plan item'' = None" "humanize_artifact_label ?cut ''Team plan'' = None"
    by code_simp+
  have "\<exists>run. fst (record_ad_hoc_plan e owner content st) = Some run \<and> wr_artifacts run \<noteq> []
      \<and> wf_label (last (wr_artifacts run)) = l"
  proof (cases "find_latest_open_run owner AD_HOC_PLAN_WORKFLOW st")
    case None
    with l show ?thesis
      by (simp add: record_ad_hoc_plan_def Let_def get_hm_modify get_hm_insert push_artifact_def)
  next
    case (Some k)
    from latest_open_run [OF assms(2) this] obtain run where "hm_get (rs_runs st) k = Some run" .
    with l Some show ?thesis
      by (simp add: record_ad_hoc_plan_def Let_def get_hm_modify push_artifact_def)
  qed
  moreover have "fst (create_run_for_team_plan e owner content steps needs st) \<noteq> None"
    using l' by (simp add: create_run_for_team_plan_def Let_def)
  moreover have "fst (record_ad_hoc_plan e owner ?cut st) = None"
    "create_run_for_team_plan e owner ?cut steps needs st = (None, st)"
    using cut by (simp_all add: record_ad_hoc_plan_def create_run_for_team_plan_def Let_def split: prod.split)
  ultimately show ?thesis using l(2) by (auto simp: Let_def)
qed

section \<open>Witnesses\<close>

definition demo_created :: "workflow_run option \<times> team_run_state" where
  "demo_created = create_run_for_team_plan demo_env ''ann'' ''Ship'' [''Build'', ''Deploy''] True empty_run_state"

definition demo_plan :: "team_plan_status \<Rightarrow> team_plan" where
  "demo_plan status = \<lparr>tp_id = ''p'', tp_author_thread_id = ''ann'', tp_summary = ''Ship'', tp_steps = [''Build'', ''Deploy''],
     tp_status = status, tp_requires_approval = True, tp_reviewer_thread_id = Some ''root'', tp_review_note = None,
     tp_workflow_run_id = Some ''u'', tp_created_at = 0, tp_updated_at = 0\<rparr>"

lemma demo_created:
  obtains run where "demo_created = (Some run, snd demo_created)" "wr_id run = ''u''"
proof -
  have "map_option wr_id (fst demo_created) = Some ''u''" by code_simp
  then obtain run where "fst demo_created = Some run" "wr_id run = ''u''" by auto
  then show thesis by (intro that) (simp_all add: prod_eq_iff)
qed

lemma runs_ok_empty: "runs_ok empty_run_state"
  by (simp add: runs_ok_def empty_run_state_def)

theorem approval_round_witness:
  "requires_approval ''ann'' (snd demo_created)
   \<and> \<not> requires_approval ''ann'' (snd (sync_plan_decision demo_env (demo_plan Plan_Approved) (snd demo_created)))
   \<and> requires_approval ''ann'' (snd (sync_plan_decision demo_env (demo_plan Plan_Rejected) (snd demo_created)))"
proof -
  obtain run where run: "demo_created = (Some run, snd demo_created)" "wr_id run = ''u''" by (rule demo_created)
  have empty: "\<not> requires_approval t empty_run_state" "hm_keys (rs_runs empty_run_state) = []" for t
    by (simp_all add: requires_approval_def empty_run_state_def)
  have round: "requires_approval ''ann'' (snd demo_created) \<and>
      (requires_approval ''ann'' (snd (sync_plan_decision demo_env (demo_plan status) (snd demo_created))) \<longleftrightarrow> status = Plan_Rejected)"
    if "status \<in> {Plan_Approved, Plan_Rejected}" for status
    using approval_round [OF runs_ok_empty _ run(1) [unfolded demo_created_def], where plan = "demo_plan status"
        and e' = demo_env and decided = "fst (sync_plan_decision demo_env (demo_plan status) (snd demo_created))"
        and ?st2.0 = "snd (sync_plan_decision demo_env (demo_plan status) (snd demo_created))"]
      that run(2) empty by (simp add: demo_plan_def demo_created_def)
  from round [of Plan_Approved] round [of Plan_Rejected] show ?thesis by simp
qed

definition demo_claimed :: "workflow_run option \<times> team_run_state" where
  "demo_claimed = note_task_claim demo_env (new_task ''t'' 0 ''Build'' None None None (Some ''u'') [] False) ''bob'' (snd demo_created)"

lemma created_ok: "runs_ok (snd demo_created)"
  unfolding demo_created_def
  by (rule run_op_ok [OF create_run runs_ok_empty]) (simp add: empty_run_state_def)

theorem claim_takes_gate_witness:
  "requires_approval ''bob'' (snd demo_claimed) \<and> \<not> requires_approval ''ann'' (snd demo_claimed)"
proof -
  obtain run where run: "demo_created = (Some run, snd demo_created)" "wr_id run = ''u''" by (rule demo_created)
  from created_run [OF run(1) [unfolded demo_created_def]] run(2)
  have get: "hm_get (rs_runs (snd demo_created)) ''u'' = Some run"
    and all: "hm_get (rs_runs (snd demo_created)) j = Some other \<Longrightarrow> j = ''u''" for j other
    by (auto simp: demo_created_def empty_run_state_def split: if_splits)
  from created_run(4) [OF run(1) [unfolded demo_created_def]]
  have pend: "wa_status (wr_approval run) \<in> {Approval_Pending, Approval_Rejected}" by simp
  show ?thesis
    using claim_takes_gate [OF created_ok _ get pend, of "new_task ''t'' 0 ''Build'' None None None (Some ''u'') [] False"
        demo_env "''bob''" "fst demo_claimed" "snd demo_claimed"] all
    by (simp add: demo_claimed_def new_task_def) blast
qed

lemma demo_label: "humanize_artifact_label ''Look'' ''Plan item'' = Some ''Look''"
  by code_simp

theorem ad_hoc_plan_collects_witness:
  "\<exists>run. fst (record_ad_hoc_plan demo_env ''ann'' ''Look'' empty_run_state) = Some run
     \<and> map wf_content (wr_artifacts run) = [''Look'']"
proof -
  have "fst (record_ad_hoc_plan demo_env ''ann'' ''Look'' empty_run_state) \<noteq> None"
    by (simp add: record_ad_hoc_plan_def demo_label empty_run_state_def find_latest_open_run_def
        max_by_updated_at_def Let_def hm_modify_def)
  then obtain run where run: "record_ad_hoc_plan demo_env ''ann'' ''Look'' empty_run_state
      = (Some run, snd (record_ad_hoc_plan demo_env ''ann'' ''Look'' empty_run_state))"
    by (cases "record_ad_hoc_plan demo_env ''ann'' ''Look'' empty_run_state") auto
  from ad_hoc_plan_collects [OF runs_ok_empty run] have "map wf_content (wr_artifacts run) = [''Look'']"
    by (simp add: empty_run_state_def)
  with run show ?thesis by (metis fst_conv)
qed

theorem plan_labels_witness:
  "\<exists>run. fst (create_run_for_team_plan demo_env ''ann'' ''Ship'' [] False empty_run_state) = Some run"
  using plan_labels [OF _ runs_ok_empty, of "''Ship''" demo_env "''ann''" "[]" False] by simp

theorem runs_stay_consistent_witness:
  "\<exists>run. hm_get (rs_runs (snd demo_created)) ''u'' = Some run \<and> distinct (map ws_id (wr_steps run))"
proof -
  obtain run where run: "demo_created = (Some run, snd demo_created)" "wr_id run = ''u''" by (rule demo_created)
  from created_run [OF run(1) [unfolded demo_created_def]] run(2)
  have get: "hm_get (rs_runs (snd demo_created)) ''u'' = Some run" by (simp add: demo_created_def empty_run_state_def)
  have "run_op empty_run_state (snd demo_created)"
    unfolding demo_created_def by (rule create_run) (simp add: empty_run_state_def)
  then have "run_op\<^sup>*\<^sup>* empty_run_state (snd demo_created)" by blast
  from runs_stay_consistent [OF this get] get show ?thesis by blast
qed

end
