(* ===== verification/TeamRuntime.thy ===== *)
theory TeamRuntime
  imports TeamSnapshot WorkflowGate AgentWake AgentControl ToolGate
begin

text \<open>
  The runtime of a team (\<open>TeamRuntime\<close> of \<open>core/src/agent/team_runtime.rs\<close>): the operations
  that the tools call. Each one checks what the team may do, runs the operation of the team's
  state, keeps the workflow runs in step, saves what it changed, publishes the version of the
  mailbox and wakes the agents concerned.

  Operations follow each other. The team's state and the runs have their own readings of the
  clock and of the generator of identifiers, \<open>e\<close> and \<open>e'\<close>. \<open>sv i\<close> tells whether the \<open>i\<close>-th save
  of an operation succeeds; the code ignores a failure. The database (\<open>state/src/database.rs\<close>, a
  table of JSON values) is a map from keys to what was saved.
\<close>

section \<open>State\<close>

datatype stored_value = Stored_Team team_state | Stored_Runs team_run_state

record team_runtime_state =
  rt_root_thread_id :: string
  rt_cwd :: string
  rt_threads :: thread_registry
  rt_handles :: "(string, managed_agent_handle) hashmap"
  rt_team :: team_state
  rt_runs :: team_run_state
  rt_mailbox_version :: u64
  rt_db :: "(string, stored_value) hashmap"

definition scoped_store_key :: "string \<Rightarrow> string \<Rightarrow> string" where
  "scoped_store_key scope base_key = scope @ ''::'' @ base_key"

definition team_store_key :: "team_runtime_state \<Rightarrow> string" where
  "team_store_key rt = scoped_store_key ''team'' (rt_cwd rt)"

definition run_store_key :: "team_runtime_state \<Rightarrow> string" where
  "run_store_key rt = scoped_store_key ''workflow'' (rt_cwd rt)"

section \<open>Saving and loading\<close>

definition save_json :: "string \<Rightarrow> stored_value \<Rightarrow> bool \<Rightarrow> team_runtime_state \<Rightarrow> team_runtime_state" where
  "save_json key v ok rt = (if ok then rt\<lparr>rt_db := hm_insert key v (rt_db rt)\<rparr> else rt)"

definition persist_team_state :: "bool \<Rightarrow> team_runtime_state \<Rightarrow> team_runtime_state" where
  "persist_team_state ok rt = save_json (team_store_key rt) (Stored_Team (rt_team rt)) ok rt"

definition persist_run_state :: "bool \<Rightarrow> team_runtime_state \<Rightarrow> team_runtime_state" where
  "persist_run_state ok rt = save_json (run_store_key rt) (Stored_Runs (rt_runs rt)) ok rt"

definition persist_states :: "(nat \<Rightarrow> bool) \<Rightarrow> team_runtime_state \<Rightarrow> team_runtime_state" where
  "persist_states sv rt = persist_run_state (sv 1) (persist_team_state (sv 0) rt)"

definition publish_mailbox_version :: "team_runtime_state \<Rightarrow> team_runtime_state" where
  "publish_mailbox_version rt =
     (if rt_mailbox_version rt \<noteq> mailbox_version (rt_team rt)
      then rt\<lparr>rt_mailbox_version := mailbox_version (rt_team rt)\<rparr> else rt)"

definition persist_team_state_and_publish_mailbox :: "bool \<Rightarrow> team_runtime_state \<Rightarrow> team_runtime_state" where
  "persist_team_state_and_publish_mailbox ok rt = publish_mailbox_version (persist_team_state ok rt)"

text \<open>A payload of the other kind does not decode.\<close>

definition load_team :: "string \<Rightarrow> (string, stored_value) hashmap \<Rightarrow> string + team_state option" where
  "load_team key db = (case hm_get db key of None \<Rightarrow> Inr None | Some (Stored_Team st) \<Rightarrow> Inr (Some st)
     | Some (Stored_Runs _) \<Rightarrow> Inl ''failed to decode stored team state'')"

definition load_runs :: "string \<Rightarrow> (string, stored_value) hashmap \<Rightarrow> string + team_run_state option" where
  "load_runs key db = (case hm_get db key of None \<Rightarrow> Inr None | Some (Stored_Runs st) \<Rightarrow> Inr (Some st)
     | Some (Stored_Team _) \<Rightarrow> Inl ''failed to decode stored team state'')"

definition load_persisted_team :: "(string, stored_value) hashmap \<Rightarrow> string \<Rightarrow> string option \<Rightarrow> string + team_state option" where
  "load_persisted_team db primary_key legacy_key =
     (case load_team primary_key db of
        Inl err \<Rightarrow> Inl err
      | Inr (Some st) \<Rightarrow> Inr (Some st)
      | Inr None \<Rightarrow> (case legacy_key of Some key \<Rightarrow> load_team key db | None \<Rightarrow> Inr None))"

definition register_team_runtime ::
  "(string, stored_value) hashmap \<Rightarrow> string \<Rightarrow> string \<Rightarrow> thread_registry \<Rightarrow> string + team_runtime_state" where
  "register_team_runtime db cwd root_thread_id threads =
     (case load_persisted_team db (scoped_store_key ''team'' cwd) (Some cwd) of
        Inl err \<Rightarrow> Inl err
      | Inr persisted \<Rightarrow>
          (case load_runs (scoped_store_key ''workflow'' cwd) db of
             Inl err \<Rightarrow> Inl err
           | Inr run_state \<Rightarrow> Inr
               \<lparr>rt_root_thread_id = root_thread_id, rt_cwd = cwd, rt_threads = threads, rt_handles = [],
                rt_team = (case persisted of Some st \<Rightarrow> st | None \<Rightarrow> empty_team_state),
                rt_runs = (case run_state of Some st \<Rightarrow> st | None \<Rightarrow> empty_run_state),
                rt_mailbox_version = (case persisted of Some st \<Rightarrow> mailbox_version st | None \<Rightarrow> 0),
                rt_db = db\<rparr>))"

section \<open>Threads and selectors\<close>

definition is_root_thread :: "team_runtime_state \<Rightarrow> string \<Rightarrow> bool" where
  "is_root_thread rt thread_id \<longleftrightarrow> rt_root_thread_id rt = thread_id"

definition find_thread_info :: "team_runtime_state \<Rightarrow> string \<Rightarrow> thread_info option" where
  "find_thread_info rt thread_id =
     (if rt_root_thread_id rt = thread_id then get_thread (rt_root_thread_id rt) (rt_threads rt)
      else Option.bind (find (\<lambda>c. c = thread_id) (list_thread_ids (rt_threads rt)))
             (\<lambda>c. get_thread c (rt_threads rt)))"

definition handles_thread :: "team_runtime_state \<Rightarrow> string \<Rightarrow> bool" where
  "handles_thread rt thread_id \<longleftrightarrow> find_thread_info rt thread_id \<noteq> None"

definition list_spawned_agent_ids :: "team_runtime_state \<Rightarrow> string list" where
  "list_spawned_agent_ids rt = hm_keys (rt_handles rt)"

definition handle_for :: "team_runtime_state \<Rightarrow> string \<Rightarrow> managed_agent_handle option" where
  "handle_for rt agent_id = hm_get (rt_handles rt) agent_id"

definition resolve_thread_id :: "team_runtime_state \<Rightarrow> string \<Rightarrow> string option" where
  "resolve_thread_id rt thread_id =
     (if rt_root_thread_id rt = thread_id then Some (rt_root_thread_id rt)
      else find (\<lambda>c. c = thread_id) (list_thread_ids (rt_threads rt)))"

definition nickname_matches :: "team_runtime_state \<Rightarrow> string \<Rightarrow> string list" where
  "nickname_matches rt selector =
     map ti_thread_id (filter (\<lambda>info. ti_nickname info = Some selector)
       (List.map_filter (\<lambda>t. get_thread t (rt_threads rt)) (list_thread_ids (rt_threads rt))))"

definition resolve_agent_selector_strict :: "team_runtime_state \<Rightarrow> string \<Rightarrow> string + string" where
  "resolve_agent_selector_strict rt selector0 =
     (let selector1 = trim selector0 in
      if selector1 = [] then Inl ''selector cannot be empty''
      else
        (let selector = (case strip_prefix ''@'' selector1 of Some s \<Rightarrow> s | None \<Rightarrow> selector1) in
         if resolve_thread_id rt selector \<noteq> None then Inr selector
         else if selector = ''main'' then Inr (rt_root_thread_id rt)
         else (case nickname_matches rt selector of
             [thread_id] \<Rightarrow> Inr thread_id
           | [] \<Rightarrow> Inl (''agent not found: '' @ selector)
           | matches \<Rightarrow> Inl (''selector '' @ selector @ '' is ambiguous; matching thread ids: '' @ join '', '' matches))))"

definition resolve_agent_selector :: "team_runtime_state \<Rightarrow> string \<Rightarrow> string option" where
  "resolve_agent_selector rt selector = (case resolve_agent_selector_strict rt selector of Inr t \<Rightarrow> Some t | Inl _ \<Rightarrow> None)"

text \<open>The state of the root thread, from the status of its control object.\<close>

fun lifecycle_of_status :: "agent_status \<Rightarrow> collab_agent_lifecycle" where
  "lifecycle_of_status AgentControl.PendingInit = LC_PendingInit"
| "lifecycle_of_status Initializing = LC_PendingInit"
| "lifecycle_of_status Ready = LC_Ready"
| "lifecycle_of_status Busy = LC_Busy"
| "lifecycle_of_status (Error err) = LC_Error"
| "lifecycle_of_status Shutdown = LC_Shutdown"

definition root_wait_state :: "agent_status \<Rightarrow> collab_agent_wait_state" where
  "root_wait_state status = \<lparr>cw_lifecycle = lifecycle_of_status status, cw_turn_outcome = TO_NoneYet,
     cw_last_turn_summary = None, cw_attention_reason = None, cw_pending_wake_count = 0\<rparr>"

section \<open>The scope policy\<close>

definition normalize_scope_requests :: "team_runtime_state \<Rightarrow> scope_request list \<Rightarrow> scope_request list" where
  "normalize_scope_requests rt scopes =
     map (\<lambda>scope. scope\<lparr>sr_path := normalize_scope_path (rt_cwd rt) (sr_kind scope) (sr_path scope)\<rparr>) scopes"

definition has_spawned_teammates :: "team_runtime_state \<Rightarrow> bool" where
  "has_spawned_teammates rt \<longleftrightarrow> list_ex (\<lambda>t. t \<noteq> rt_root_thread_id rt) (list_thread_ids (rt_threads rt))"

definition is_repo_root_directory_write_scope :: "team_runtime_state \<Rightarrow> scope_request \<Rightarrow> bool" where
  "is_repo_root_directory_write_scope rt scope \<longleftrightarrow>
     sr_kind scope = Scope_Directory \<and> sr_access scope = Access_ExclusiveWrite \<and> sr_path scope = rt_cwd rt"

definition SCOPE_POLICY_ERROR :: string where
  "SCOPE_POLICY_ERROR = ''@main cannot claim or stage a repo-root exclusive-write directory scope while teammates exist; assign the task to a teammate or set scope_policy_override=true''"

definition validate_task_scope_policy ::
  "team_runtime_state \<Rightarrow> string option \<Rightarrow> scope_request list \<Rightarrow> bool \<Rightarrow> string + unit" where
  "validate_task_scope_policy rt primary_owner_thread_id requested_scopes scope_policy_override =
     (if scope_policy_override \<or> \<not> has_spawned_teammates rt then Inr ()
      else if \<not> (case primary_owner_thread_id of None \<Rightarrow> True | Some t \<Rightarrow> is_root_thread rt t) then Inr ()
      else if list_ex (is_repo_root_directory_write_scope rt) requested_scopes then Inl SCOPE_POLICY_ERROR
      else Inr ())"

definition validate_claim_scope_policy :: "team_runtime_state \<Rightarrow> string \<Rightarrow> team_task \<Rightarrow> string + unit" where
  "validate_claim_scope_policy rt claimer_thread_id t =
     validate_task_scope_policy rt (Some claimer_thread_id) (tn_requested_scopes t) (tn_scope_policy_override t)"

section \<open>Waking\<close>

definition wake_message :: "wake_reason \<Rightarrow> string" where
  "wake_message reason = (case reason of
     UserInput \<Rightarrow> ''You have new coordinator input. Process it now and continue the team workflow.''
   | TaskAssigned task_id \<Rightarrow> ''You have a newly assigned team task ('' @ task_id
       @ ''). Check team_status, claim it if ready, and continue.''
   | TaskHandedOff task_id \<Rightarrow> ''A team task ('' @ task_id
       @ '') was handed off to you. Check team_status, claim or continue it, and report progress through team tools.''
   | ReviewRequested task_id \<Rightarrow> ''A review task ('' @ task_id
       @ '') is waiting for you. Check team_status, review the handoff, and record the result.''
   | MailboxUnread \<Rightarrow>
       ''You have unread team mailbox messages. Read your team messages and act on any newly assigned work.'')"

definition wake :: "string \<Rightarrow> wake_reason \<Rightarrow> team_runtime_state \<Rightarrow> team_runtime_state" where
  "wake agent_id reason rt =
     rt\<lparr>rt_handles := snd (schedule_turn agent_id (wake_message reason) reason (rt_handles rt))\<rparr>"

definition nudge_task_participants :: "team_task \<Rightarrow> team_runtime_state \<Rightarrow> team_runtime_state" where
  "nudge_task_participants t rt =
     (if tn_ready_state t = Ready_Blocked then rt
      else if tn_status t = Task_Review then
        (case tn_reviewer_thread_id t of Some r \<Rightarrow> wake r (ReviewRequested (tn_id t)) rt | None \<Rightarrow> rt)
      else (case tn_assignee_thread_id t of
          Some a \<Rightarrow> if tn_status t \<notin> {Task_Completed, Task_Failed, Task_Canceled}
                    then wake a (TaskAssigned (tn_id t)) rt else rt
        | None \<Rightarrow> rt))"

definition nudge_message_recipients :: "team_message \<Rightarrow> team_runtime_state \<Rightarrow> team_runtime_state" where
  "nudge_message_recipients m rt =
     (case tm_recipient_thread_id m of
        Some recipient \<Rightarrow> wake recipient MailboxUnread rt
      | None \<Rightarrow>
          if tm_kind m \<in> {Msg_Broadcast, Msg_Channel}
          then foldl (\<lambda>r agent_id. if agent_id = tm_sender_thread_id m then r else wake agent_id MailboxUnread r)
                 rt (list_spawned_agent_ids rt)
          else rt)"

definition note_attention_on :: "string \<Rightarrow> string \<Rightarrow> team_runtime_state \<Rightarrow> team_runtime_state" where
  "note_attention_on thread_id reason rt =
     rt\<lparr>rt_handles := hm_modify thread_id (update_state (note_attention reason)) (rt_handles rt)\<rparr>"

definition clear_attention_on :: "string \<Rightarrow> team_runtime_state \<Rightarrow> team_runtime_state" where
  "clear_attention_on thread_id rt =
     rt\<lparr>rt_handles := hm_modify thread_id (update_state clear_attention) (rt_handles rt)\<rparr>"

section \<open>Tasks\<close>

text \<open>\<open>on_team\<close> runs an operation of the team's state under its lock.\<close>

definition on_team :: "(team_state \<Rightarrow> 'a \<times> team_state) \<Rightarrow> team_runtime_state \<Rightarrow> 'a \<times> team_runtime_state" where
  "on_team f rt = (fst (f (rt_team rt)), rt\<lparr>rt_team := snd (f (rt_team rt))\<rparr>)"

definition on_runs :: "(team_run_state \<Rightarrow> 'a \<times> team_run_state) \<Rightarrow> team_runtime_state \<Rightarrow> 'a \<times> team_runtime_state" where
  "on_runs f rt = (fst (f (rt_runs rt)), rt\<lparr>rt_runs := snd (f (rt_runs rt))\<rparr>)"

definition note_claim :: "env \<Rightarrow> team_task \<Rightarrow> string \<Rightarrow> team_runtime_state \<Rightarrow> team_runtime_state" where
  "note_claim e' t claimer_thread_id rt = snd (on_runs (note_task_claim e' t claimer_thread_id) rt)"

text \<open>The claim that follows an update of a task: its assignee, while the task is in one of the
  given states.\<close>

definition note_if_claimed :: "env \<Rightarrow> team_task_status set \<Rightarrow> team_task option \<Rightarrow> team_runtime_state \<Rightarrow> team_runtime_state" where
  "note_if_claimed e' states result rt =
     (case result of
        None \<Rightarrow> rt
      | Some t \<Rightarrow> (case tn_assignee_thread_id t of
            Some a \<Rightarrow> if tn_status t \<in> states then note_claim e' t a rt else rt
          | None \<Rightarrow> rt))"

definition runtime_create_task ::
  "env \<Rightarrow> env \<Rightarrow> (nat \<Rightarrow> bool) \<Rightarrow> string \<Rightarrow> string option \<Rightarrow> string option \<Rightarrow> string option \<Rightarrow> string option
     \<Rightarrow> scope_request list \<Rightarrow> string option \<Rightarrow> bool \<Rightarrow> team_runtime_state \<Rightarrow> (string + team_task option) \<times> team_runtime_state" where
  "runtime_create_task e e' sv title details owner_thread_id assignee_thread_id workflow_run_id scopes
     blocking_reason scope_policy_override rt =
     (let requested_scopes = normalize_scope_requests rt scopes in
      case validate_task_scope_policy rt (case assignee_thread_id of Some a \<Rightarrow> Some a | None \<Rightarrow> owner_thread_id)
             requested_scopes scope_policy_override of
        Inl err \<Rightarrow> (Inl err, rt)
      | Inr _ \<Rightarrow>
          (let (result, rt1) = on_team (create_task e title details owner_thread_id assignee_thread_id workflow_run_id
                 requested_scopes blocking_reason scope_policy_override) rt;
               rt2 = (case (assignee_thread_id, result) of
                   (Some a, Some t) \<Rightarrow> if tn_status t = Task_InProgress then note_claim e' t a rt1 else rt1
                 | _ \<Rightarrow> rt1);
               rt3 = persist_states sv rt2;
               rt4 = (case result of
                   None \<Rightarrow> rt3
                 | Some t \<Rightarrow> (case tn_assignee_thread_id t of
                       Some a \<Rightarrow> if tn_ready_state t \<noteq> Ready_Blocked then wake a (TaskAssigned (tn_id t)) rt3 else rt3
                     | None \<Rightarrow> rt3))
           in (Inr result, rt4)))"

text \<open>\<open>Some None\<close> clears a field of the task; the check of the policy then looks at the old value.\<close>

definition effective_thread :: "string option option \<Rightarrow> string option \<Rightarrow> string option" where
  "effective_thread change current = (case change of Some (Some t) \<Rightarrow> Some t | _ \<Rightarrow> current)"

definition runtime_update_task ::
  "env \<Rightarrow> env \<Rightarrow> (nat \<Rightarrow> bool) \<Rightarrow> string \<Rightarrow> task_patch \<Rightarrow> team_runtime_state
     \<Rightarrow> (string + team_task option) \<times> team_runtime_state" where
  "runtime_update_task e e' sv task_id patch0 rt =
     (let patch = patch0\<lparr>up_requested_scopes := map_option (normalize_scope_requests rt) (up_requested_scopes patch0),
            up_granted_scopes := map_option (normalize_scope_requests rt) (up_granted_scopes patch0)\<rparr>;
          check = (case task task_id (rt_team rt) of
              None \<Rightarrow> Inr ()
            | Some current \<Rightarrow>
                (let effective_owner = effective_thread (up_owner_thread_id patch) (tn_owner_thread_id current);
                     effective_assignee = effective_thread (up_assignee_thread_id patch) (tn_assignee_thread_id current);
                     effective_scopes = (case up_requested_scopes patch of Some s \<Rightarrow> s | None \<Rightarrow> tn_requested_scopes current);
                     effective_override = (case up_scope_policy_override patch of Some b \<Rightarrow> b
                       | None \<Rightarrow> tn_scope_policy_override current)
                 in validate_task_scope_policy rt
                      (case effective_assignee of Some a \<Rightarrow> Some a | None \<Rightarrow> effective_owner)
                      effective_scopes effective_override))
      in case check of
           Inl err \<Rightarrow> (Inl err, rt)
         | Inr _ \<Rightarrow>
             (let (result, rt1) = on_team (update_task e task_id patch) rt;
                  rt3 = persist_states sv (note_if_claimed e' {Task_InProgress} result rt1)
              in (Inr result, (case result of None \<Rightarrow> rt3 | Some t \<Rightarrow> nudge_task_participants t rt3))))"

definition assigned_to_other :: "string \<Rightarrow> string \<Rightarrow> team_runtime_state \<Rightarrow> bool" where
  "assigned_to_other task_id assignee_thread_id rt \<longleftrightarrow>
     (case task task_id (rt_team rt) of
        None \<Rightarrow> False
      | Some t \<Rightarrow> (case tn_assignee_thread_id t of None \<Rightarrow> False | Some a \<Rightarrow> a \<noteq> assignee_thread_id))"

definition runtime_assign_task ::
  "env \<Rightarrow> env \<Rightarrow> (nat \<Rightarrow> bool) \<Rightarrow> string \<Rightarrow> string \<Rightarrow> string option \<Rightarrow> bool \<Rightarrow> team_runtime_state
     \<Rightarrow> team_task option \<times> team_runtime_state" where
  "runtime_assign_task e e' sv task_id assignee_thread_id nt override_assignee rt =
     (if \<not> override_assignee \<and> assigned_to_other task_id assignee_thread_id rt then (None, rt)
      else
        (let (result, rt1) = on_team (assign_task e task_id assignee_thread_id nt) rt;
             rt3 = persist_states sv (note_if_claimed e' {Task_InProgress} result rt1)
         in (result, (case result of None \<Rightarrow> rt3 | Some t \<Rightarrow> nudge_task_participants t rt3))))"

definition runtime_handoff_task ::
  "env \<Rightarrow> env \<Rightarrow> (nat \<Rightarrow> bool) \<Rightarrow> string \<Rightarrow> string \<Rightarrow> string option \<Rightarrow> bool \<Rightarrow> team_runtime_state
     \<Rightarrow> team_task option \<times> team_runtime_state" where
  "runtime_handoff_task e e' sv task_id to_thread_id nt review_mode rt =
     (let (result, rt1) = on_team (handoff_task e task_id to_thread_id nt review_mode) rt;
          rt3 = persist_states sv (note_if_claimed e' {Task_InProgress, Task_Review} result rt1)
      in (result, (case result of
             None \<Rightarrow> rt3
           | Some t \<Rightarrow> (case tn_assignee_thread_id t of
                 Some a \<Rightarrow> wake a (if review_mode then ReviewRequested (tn_id t) else TaskHandedOff (tn_id t)) rt3
               | None \<Rightarrow> rt3))))"

text \<open>\<open>claim\<close> is \<open>claim_task\<close> or \<open>claim_ready_task\<close> of the team's state.\<close>

definition runtime_claim_with ::
  "(string \<Rightarrow> string \<Rightarrow> string option \<Rightarrow> team_state \<Rightarrow> team_task option \<times> team_state)
     \<Rightarrow> env \<Rightarrow> (nat \<Rightarrow> bool) \<Rightarrow> string \<Rightarrow> string \<Rightarrow> string option \<Rightarrow> team_runtime_state
     \<Rightarrow> (string + team_task option) \<times> team_runtime_state" where
  "runtime_claim_with claim e' sv task_id claimer_thread_id nt rt =
     (case (case task task_id (rt_team rt) of None \<Rightarrow> Inr () | Some t \<Rightarrow> validate_claim_scope_policy rt claimer_thread_id t) of
        Inl err \<Rightarrow> (Inl err, rt)
      | Inr _ \<Rightarrow>
          (let (result, rt1) = on_team (claim task_id claimer_thread_id nt) rt;
               rt2 = (case result of None \<Rightarrow> rt1 | Some t \<Rightarrow> note_claim e' t claimer_thread_id rt1)
           in (Inr result, persist_states sv rt2)))"

definition runtime_claim_task ::
  "env \<Rightarrow> env \<Rightarrow> (nat \<Rightarrow> bool) \<Rightarrow> string \<Rightarrow> string \<Rightarrow> string option \<Rightarrow> team_runtime_state
     \<Rightarrow> (string + team_task option) \<times> team_runtime_state" where
  "runtime_claim_task e = runtime_claim_with (claim_task e)"

definition runtime_claim_ready_task ::
  "env \<Rightarrow> env \<Rightarrow> (nat \<Rightarrow> bool) \<Rightarrow> string \<Rightarrow> string \<Rightarrow> string option \<Rightarrow> team_runtime_state
     \<Rightarrow> (string + team_task option) \<times> team_runtime_state" where
  "runtime_claim_ready_task e = runtime_claim_with (claim_ready_task e)"

definition runtime_list_ready_tasks ::
  "env \<Rightarrow> string \<Rightarrow> team_runtime_state \<Rightarrow> team_task list \<times> team_runtime_state" where
  "runtime_list_ready_tasks e claimer_thread_id = on_team (list_ready_tasks e claimer_thread_id)"

text \<open>The candidates in the order of the list; the \<open>i\<close>-th attempt has the readings \<open>es i\<close>.\<close>

fun claim_first ::
  "(nat \<Rightarrow> env) \<Rightarrow> string \<Rightarrow> team_task list \<Rightarrow> team_runtime_state \<Rightarrow> team_task option \<times> team_runtime_state" where
  "claim_first es claimer_thread_id [] rt = (None, rt)"
| "claim_first es claimer_thread_id (candidate # candidates) rt =
     (case validate_claim_scope_policy rt claimer_thread_id candidate of
        Inl _ \<Rightarrow> claim_first (\<lambda>i. es (Suc i)) claimer_thread_id candidates rt
      | Inr _ \<Rightarrow>
          (case on_team (claim_ready_task (es 0) (tn_id candidate) claimer_thread_id None) rt of
             (Some t, rt1) \<Rightarrow> (Some t, rt1)
           | (None, rt1) \<Rightarrow> claim_first (\<lambda>i. es (Suc i)) claimer_thread_id candidates rt1))"

definition runtime_claim_next_task ::
  "env \<Rightarrow> (nat \<Rightarrow> env) \<Rightarrow> env \<Rightarrow> (nat \<Rightarrow> bool) \<Rightarrow> string \<Rightarrow> team_runtime_state \<Rightarrow> team_task option \<times> team_runtime_state" where
  "runtime_claim_next_task e es e' sv claimer_thread_id rt =
     (let (ready_tasks, rt0) = on_team (list_ready_tasks e claimer_thread_id) rt;
          (result, rt1) = claim_first es claimer_thread_id ready_tasks rt0;
          rt2 = (case result of None \<Rightarrow> rt1 | Some t \<Rightarrow> note_claim e' t claimer_thread_id rt1)
      in (result, persist_states sv rt2))"

text \<open>\<open>add_task_dependency\<close>, \<open>remove_task_dependency\<close>, \<open>block_task\<close>, \<open>unblock_task\<close> and
  \<open>release_task_leases\<close> of the runtime are all the operation of the team's state and a save.\<close>

definition saved_team_op ::
  "(team_state \<Rightarrow> 'a \<times> team_state) \<Rightarrow> (nat \<Rightarrow> bool) \<Rightarrow> team_runtime_state \<Rightarrow> 'a \<times> team_runtime_state" where
  "saved_team_op f sv rt = (let (result, rt1) = on_team f rt in (result, persist_states sv rt1))"

definition runtime_add_task_dependency where
  "runtime_add_task_dependency e task_id dependency_task_id reason = saved_team_op (add_task_dependency e task_id dependency_task_id reason)"

definition runtime_remove_task_dependency where
  "runtime_remove_task_dependency e task_id dependency_task_id = saved_team_op (remove_task_dependency e task_id dependency_task_id)"

definition runtime_block_task where
  "runtime_block_task e task_id reason = saved_team_op (block_task e task_id reason)"

definition runtime_unblock_task where
  "runtime_unblock_task e task_id blocker_id = saved_team_op (unblock_task e task_id blocker_id)"

definition runtime_release_task_leases where
  "runtime_release_task_leases e task_id = saved_team_op (release_task_leases e task_id)"

definition runtime_force_release_lease ::
  "env \<Rightarrow> (nat \<Rightarrow> bool) \<Rightarrow> string \<Rightarrow> string \<Rightarrow> team_runtime_state \<Rightarrow> (string + ownership_lease) \<times> team_runtime_state" where
  "runtime_force_release_lease e sv actor_thread_id lease_id rt =
     (if \<not> is_root_thread rt actor_thread_id then (Inl ''only @main can force release ownership leases'', rt)
      else (case on_team (force_release_lease e lease_id) rt of
          (None, rt1) \<Rightarrow> (Inl (''unknown lease id: '' @ lease_id), rt1)
        | (Some lease, rt1) \<Rightarrow> (Inr lease, persist_states sv rt1)))"

section \<open>Plans\<close>

text \<open>A panic inside the lock of the runs ends the call before the team's state is reached.\<close>

definition runtime_submit_plan ::
  "env \<Rightarrow> env \<Rightarrow> (nat \<Rightarrow> bool) \<Rightarrow> string \<Rightarrow> string \<Rightarrow> string list \<Rightarrow> bool \<Rightarrow> team_runtime_state
     \<Rightarrow> team_plan option \<times> team_runtime_state" where
  "runtime_submit_plan e e' sv author_thread_id summary steps needs_approval rt =
     (case on_runs (create_run_for_team_plan e' author_thread_id summary steps needs_approval) rt of
        (None, rt1) \<Rightarrow> (None, rt1)
      | (Some run, rt1) \<Rightarrow>
          (let (plan, rt2) = on_team (submit_plan e author_thread_id summary steps needs_approval (Some (wr_id run))) rt1
           in (Some plan, persist_states sv rt2)))"

definition runtime_decide_plan ::
  "env \<Rightarrow> env \<Rightarrow> (nat \<Rightarrow> bool) \<Rightarrow> string \<Rightarrow> string \<Rightarrow> bool \<Rightarrow> string option \<Rightarrow> team_runtime_state
     \<Rightarrow> team_plan option \<times> team_runtime_state" where
  "runtime_decide_plan e e' sv plan_id reviewer_thread_id approved nt rt =
     (let (plan, rt1) = on_team (decide_plan e plan_id reviewer_thread_id approved nt) rt;
          rt2 = (case plan of None \<Rightarrow> rt1 | Some p \<Rightarrow> snd (on_runs (sync_plan_decision e' p) rt1))
      in (plan, persist_states sv rt2))"

definition runtime_requires_plan_approval :: "string \<Rightarrow> team_runtime_state \<Rightarrow> bool" where
  "runtime_requires_plan_approval thread_id rt \<longleftrightarrow>
     requires_plan_approval thread_id (rt_team rt) \<or> requires_approval thread_id (rt_runs rt)"

definition record_plan_artifact ::
  "env \<Rightarrow> (nat \<Rightarrow> bool) \<Rightarrow> string \<Rightarrow> string \<Rightarrow> team_runtime_state \<Rightarrow> workflow_run option \<times> team_runtime_state" where
  "record_plan_artifact e' sv thread_id content rt =
     (case on_runs (record_ad_hoc_plan e' thread_id content) rt of
        (None, rt1) \<Rightarrow> (None, rt1)
      | (Some run, rt1) \<Rightarrow> (Some run, persist_run_state (sv 0) rt1))"

section \<open>Messages\<close>

definition mail_op ::
  "(team_state \<Rightarrow> 'a \<times> team_state) \<Rightarrow> (nat \<Rightarrow> bool) \<Rightarrow> team_runtime_state \<Rightarrow> 'a \<times> team_runtime_state" where
  "mail_op f sv rt = (let (result, rt1) = on_team f rt in (result, persist_team_state_and_publish_mailbox (sv 0) rt1))"

definition runtime_post_message ::
  "env \<Rightarrow> (nat \<Rightarrow> bool) \<Rightarrow> post_args \<Rightarrow> team_runtime_state \<Rightarrow> team_message \<times> team_runtime_state" where
  "runtime_post_message e sv args rt =
     (let (m, rt1) = mail_op (post_message e args) sv rt in (m, nudge_message_recipients m rt1))"

definition runtime_peek_messages where
  "runtime_peek_messages e reader_thread_id unread_only = mail_op (peek_messages e reader_thread_id unread_only)"

definition runtime_read_messages where
  "runtime_read_messages e reader_thread_id unread_only = mail_op (read_messages e reader_thread_id unread_only)"

definition runtime_claim_queue_messages where
  "runtime_claim_queue_messages e claimer_thread_id queue_name limit = mail_op (claim_queue_messages e claimer_thread_id queue_name limit)"

definition runtime_ack_message where
  "runtime_ack_message e acker_thread_id message_id = mail_op (ack_message e acker_thread_id message_id)"

text \<open>Watching an inbox: \<open>changes\<close> are the states of the runtime at which the waiting call wakes up
  before its deadline, \<open>last_state\<close> is the state at the deadline.\<close>

definition watch_inbox ::
  "env \<Rightarrow> (nat \<Rightarrow> bool) \<Rightarrow> string \<Rightarrow> u64 option \<Rightarrow> bool \<Rightarrow> team_runtime_state list \<Rightarrow> team_runtime_state
     \<Rightarrow> team_runtime_state \<Rightarrow> (u64 \<times> team_message list \<times> bool) \<times> team_runtime_state" where
  "watch_inbox e sv reader_thread_id after_version0 unread_only changes last_state rt =
     (let after_version = (case after_version0 of Some v \<Rightarrow> v | None \<Rightarrow> 0);
          answer = (\<lambda>r. let (messages, r') = runtime_peek_messages e reader_thread_id unread_only sv r
            in ((mailbox_version (rt_team r'), messages, False), r'))
      in if after_version < mailbox_version (rt_team rt) then answer rt
         else if after_version < rt_mailbox_version rt then answer rt
         else (case find (\<lambda>r. after_version < rt_mailbox_version r) changes of
             None \<Rightarrow> ((mailbox_version (rt_team last_state), [], True), last_state)
           | Some r \<Rightarrow> answer r))"

definition watch_timeout_ms :: "u64 option \<Rightarrow> u64" where
  "watch_timeout_ms timeout_ms = max 1000 (min 3600000 (case timeout_ms of Some t \<Rightarrow> t | None \<Rightarrow> 30000))"

section \<open>Leases, agents, the end\<close>

definition active_lease_owner_ids :: "team_runtime_state \<Rightarrow> string set" where
  "active_lease_owner_ids rt = set (rt_root_thread_id rt # map fst (filter (\<lambda>(_, h).
     ma_lifecycle (ah_state h) \<notin> {LC_Shutdown, LC_NotFound}) (rt_handles rt)))"

definition maintain_leases_inline :: "env \<Rightarrow> team_runtime_state \<Rightarrow> nat \<times> team_runtime_state" where
  "maintain_leases_inline e rt =
     (let (removed, rt1) = on_team (cleanup_stale_leases (later 1 e) (active_lease_owner_ids rt)
            (env_clock e 0 - LEASE_STALE_AFTER_SECS)) rt
      in (length removed, rt1))"

definition runtime_maintain_leases :: "env \<Rightarrow> (nat \<Rightarrow> bool) \<Rightarrow> team_runtime_state \<Rightarrow> team_runtime_state" where
  "runtime_maintain_leases e sv rt =
     (let (n, rt1) = maintain_leases_inline e rt in if n > 0 then persist_team_state (sv 0) rt1 else rt1)"

definition thread_status :: "agent_status \<Rightarrow> team_runtime_state \<Rightarrow> thread_info \<Rightarrow> string \<times> collab_agent_wait_state" where
  "thread_status root_status rt thread =
     (ti_thread_id thread,
      if ti_thread_id thread = rt_root_thread_id rt then root_wait_state root_status
      else (case handle_for rt (ti_thread_id thread) of
          Some h \<Rightarrow> wait_state (ah_state h)
        | None \<Rightarrow> default_wait_state\<lparr>cw_lifecycle := LC_NotFound\<rparr>))"

definition snapshot_thread_of :: "thread_info \<Rightarrow> snapshot_thread" where
  "snapshot_thread_of info = \<lparr>sn_thread_id = ti_thread_id info, sn_nickname = ti_nickname info, sn_role = ti_role info,
     sn_task = ti_task info, sn_depth = unat (ti_depth info)\<rparr>"

definition runtime_snapshot :: "env \<Rightarrow> agent_status \<Rightarrow> team_runtime_state \<Rightarrow> team_snapshot \<times> team_runtime_state" where
  "runtime_snapshot e root_status rt0 =
     (let rt = snd (maintain_leases_inline e rt0);
          threads = List.map_filter (\<lambda>t. get_thread t (rt_threads rt)) (list_thread_ids (rt_threads rt));
          statuses = foldl (\<lambda>m (t, s). hm_insert t s m) [] (map (thread_status root_status rt) threads)
      in on_team (snapshot (later 3 e) (rt_root_thread_id rt) (map snapshot_thread_of threads) statuses
           (Some (run_snapshot (rt_root_thread_id rt) (rt_runs rt)))) rt)"

definition runtime_clear_state :: "(nat \<Rightarrow> bool) \<Rightarrow> team_runtime_state \<Rightarrow> team_runtime_state" where
  "runtime_clear_state sv rt =
     (let rt1 = publish_mailbox_version (rt\<lparr>rt_team := clear (rt_team rt), rt_runs := clear_runs (rt_runs rt)\<rparr>);
          drop = (\<lambda>ok key db. if ok then hm_remove key db else db)
      in rt1\<lparr>rt_db := drop (sv 2) (rt_cwd rt) (drop (sv 1) (run_store_key rt) (drop (sv 0) (team_store_key rt) (rt_db rt)))\<rparr>)"

definition send_input :: "string \<Rightarrow> string \<Rightarrow> team_runtime_state \<Rightarrow> (string + unit) \<times> team_runtime_state" where
  "send_input agent_id message rt =
     (let (result, handles) = schedule_turn agent_id message UserInput (rt_handles rt)
      in (result, rt\<lparr>rt_handles := handles\<rparr>))"

text \<open>The handle that is closed (\<open>close_handle\<close> of \<open>AgentWake\<close>) leaves the table at once.
  \<open>agent_control.shutdown_spawned_agent\<close> removes the thread; its guards are those of
  \<open>AgentGuards\<close>. When it fails, the leases stay.\<close>

definition runtime_close_agent ::
  "env \<Rightarrow> (nat \<Rightarrow> bool) \<Rightarrow> string + thread_registry \<Rightarrow> string \<Rightarrow> team_runtime_state
     \<Rightarrow> (string + collab_agent_lifecycle) \<times> team_runtime_state" where
  "runtime_close_agent e sv shut agent_id rt =
     (case hm_get (rt_handles rt) agent_id of
        None \<Rightarrow> (Inr LC_NotFound, rt)
      | Some h \<Rightarrow>
          (let rt1 = rt\<lparr>rt_handles := hm_remove agent_id (rt_handles rt)\<rparr> in
           case shut of
             Inl err \<Rightarrow> (Inl err, rt1)
           | Inr threads \<Rightarrow>
               (let (released, rt2) = on_team (release_thread_leases e agent_id) (rt1\<lparr>rt_threads := threads\<rparr>)
                in (Inr LC_Shutdown, if released > 0 then persist_states sv rt2 else rt2))))"

end
