(* ===== verification/RuntimeState.thy ===== *)
theory RuntimeState
  imports TeamRuntime
begin

text \<open>
  What holds of the runtime of a team under any sequence of its operations: the version that is
  published is the version of the mailbox, a plan and its workflow run agree on the decision,
  and a restart finds what was saved.
\<close>

section \<open>What the parts of an operation leave alone\<close>

lemma save_simps [simp]:
  "rt_team (persist_states sv rt) = rt_team rt" "rt_runs (persist_states sv rt) = rt_runs rt"
  "rt_mailbox_version (persist_states sv rt) = rt_mailbox_version rt"
  "rt_team (persist_team_state ok rt) = rt_team rt" "rt_runs (persist_team_state ok rt) = rt_runs rt"
  "rt_mailbox_version (persist_team_state ok rt) = rt_mailbox_version rt"
  "rt_team (persist_run_state ok rt) = rt_team rt" "rt_runs (persist_run_state ok rt) = rt_runs rt"
  "rt_mailbox_version (persist_run_state ok rt) = rt_mailbox_version rt"
  by (simp_all add: persist_states_def persist_team_state_def persist_run_state_def save_json_def)

lemma publish_simps [simp]:
  "rt_team (publish_mailbox_version rt) = rt_team rt" "rt_runs (publish_mailbox_version rt) = rt_runs rt"
  "rt_mailbox_version (publish_mailbox_version rt) = ts_mailbox_version (rt_team rt)"
  by (auto simp: publish_mailbox_version_def mailbox_version_def)

lemma wake_simps [simp]:
  "rt_team (wake a r rt) = rt_team rt" "rt_runs (wake a r rt) = rt_runs rt"
  "rt_mailbox_version (wake a r rt) = rt_mailbox_version rt" "rt_db (wake a r rt) = rt_db rt"
  "rt_cwd (wake a r rt) = rt_cwd rt"
  by (simp_all add: wake_def)

lemma nudge_task_simps [simp]:
  "rt_team (nudge_task_participants t rt) = rt_team rt" "rt_runs (nudge_task_participants t rt) = rt_runs rt"
  "rt_mailbox_version (nudge_task_participants t rt) = rt_mailbox_version rt"
  "rt_db (nudge_task_participants t rt) = rt_db rt" "rt_cwd (nudge_task_participants t rt) = rt_cwd rt"
  by (simp_all add: nudge_task_participants_def split: option.split)

lemma nudge_message_simps [simp]:
  "rt_team (nudge_message_recipients m rt) = rt_team rt" "rt_runs (nudge_message_recipients m rt) = rt_runs rt"
  "rt_mailbox_version (nudge_message_recipients m rt) = rt_mailbox_version rt"
  "rt_db (nudge_message_recipients m rt) = rt_db rt" "rt_cwd (nudge_message_recipients m rt) = rt_cwd rt"
proof -
  define f where "f = (\<lambda>r agent_id. if agent_id = tm_sender_thread_id m then r else wake agent_id MailboxUnread r)"
  have "rt_team (foldl f r ids) = rt_team r \<and> rt_runs (foldl f r ids) = rt_runs r
      \<and> rt_mailbox_version (foldl f r ids) = rt_mailbox_version r \<and> rt_db (foldl f r ids) = rt_db r
      \<and> rt_cwd (foldl f r ids) = rt_cwd r" for r ids
    by (induction ids arbitrary: r) (simp_all add: f_def)
  then show "rt_team (nudge_message_recipients m rt) = rt_team rt" "rt_runs (nudge_message_recipients m rt) = rt_runs rt"
    "rt_mailbox_version (nudge_message_recipients m rt) = rt_mailbox_version rt"
    "rt_db (nudge_message_recipients m rt) = rt_db rt" "rt_cwd (nudge_message_recipients m rt) = rt_cwd rt"
    by (simp_all add: nudge_message_recipients_def f_def [symmetric] split: option.split)
qed

lemma on_simps [simp]:
  "rt_team (snd (on_team f rt)) = snd (f (rt_team rt))" "rt_runs (snd (on_team f rt)) = rt_runs rt"
  "rt_mailbox_version (snd (on_team f rt)) = rt_mailbox_version rt" "fst (on_team f rt) = fst (f (rt_team rt))"
  "rt_team (snd (on_runs g rt)) = rt_team rt" "rt_runs (snd (on_runs g rt)) = snd (g (rt_runs rt))"
  "rt_mailbox_version (snd (on_runs g rt)) = rt_mailbox_version rt" "fst (on_runs g rt) = fst (g (rt_runs rt))"
  "rt_db (snd (on_team f rt)) = rt_db rt" "rt_db (snd (on_runs g rt)) = rt_db rt"
  "rt_cwd (snd (on_team f rt)) = rt_cwd rt" "rt_cwd (snd (on_runs g rt)) = rt_cwd rt"
  by (simp_all add: on_team_def on_runs_def)

section \<open>Plans and runs\<close>

definition keeps_approvals :: "(string, workflow_run) hashmap \<Rightarrow> (string, workflow_run) hashmap \<Rightarrow> bool" where
  "keeps_approvals m m' \<longleftrightarrow> (\<forall>k run. hm_get m k = Some run \<longrightarrow>
     (\<exists>run'. hm_get m' k = Some run' \<and> wr_approval run' = wr_approval run))"

lemma keeps_approvals_refl [simp]: "keeps_approvals m m"
  by (simp add: keeps_approvals_def)

lemma keeps_approvals_trans [trans]: "keeps_approvals m m1 \<Longrightarrow> keeps_approvals m1 m2 \<Longrightarrow> keeps_approvals m m2"
  unfolding keeps_approvals_def by metis

lemma claim_keeps_approvals: "keeps_approvals (rs_runs rs) (rs_runs (snd (note_task_claim e t c rs)))"
  by (auto simp: keeps_approvals_def note_task_claim_def run_simps claimed_run split: option.split)

lemma modify_keeps_approvals:
  "(\<And>run. wr_approval (f run) = wr_approval run) \<Longrightarrow> keeps_approvals m (hm_modify k f m)"
  by (simp add: keeps_approvals_def get_hm_modify)

lemma capture_keeps_approvals: "keeps_approvals m (hm_modify k (capture_plan now owner) m)"
  by (rule modify_keeps_approvals) (simp add: capture_plan_def)

lemma push_keeps_approvals: "keeps_approvals m (hm_modify k (push_artifact a) m)"
  by (rule modify_keeps_approvals) (simp add: push_artifact_def)

lemma insert_keeps_approvals: "hm_get m k = None \<Longrightarrow> keeps_approvals m (hm_insert k run m)"
  by (simp add: keeps_approvals_def get_hm_insert)

definition run_to_record :: "env \<Rightarrow> string \<Rightarrow> team_run_state \<Rightarrow> string \<times> (string, workflow_run) hashmap" where
  "run_to_record e owner rs = (case find_latest_open_run owner AD_HOC_PLAN_WORKFLOW rs of
      Some run_id \<Rightarrow> (run_id, rs_runs rs)
    | None \<Rightarrow> (env_uuid e 0, hm_insert (env_uuid e 0) (ad_hoc_run e owner) (rs_runs rs)))"

lemma record_runs:
  fixes e owner content rs
  defines "k \<equiv> fst (run_to_record e owner rs)" and "m \<equiv> snd (run_to_record e owner rs)"
  obtains "rs_runs (snd (record_ad_hoc_plan e owner content rs)) = hm_modify k (capture_plan (env_clock e 1) owner) m"
    | a where "rs_runs (snd (record_ad_hoc_plan e owner content rs))
        = hm_modify k (push_artifact a) (hm_modify k (capture_plan (env_clock e 1) owner) m)"
proof -
  have km: "run_to_record e owner rs = (k, m)" by (simp add: k_def m_def)
  note eq = record_ad_hoc_plan_def [of e owner content rs, folded run_to_record_def, unfolded km Let_def prod.case]
  show thesis
  proof (cases "humanize_artifact_label content ''Plan item''")
    case None
    show thesis by (rule that(1)) (simp only: eq None option.case snd_conv, simp)
  next
    case (Some label)
    show thesis by (rule that(2)) (simp only: eq Some option.case snd_conv, simp)
  qed
qed

lemma record_keeps_approvals:
  assumes "env_uuid e 0 \<notin> set (hm_keys (rs_runs rs))"
  shows "keeps_approvals (rs_runs rs) (rs_runs (snd (record_ad_hoc_plan e owner content rs)))"
proof -
  let ?k = "fst (run_to_record e owner rs)" and ?m = "snd (run_to_record e owner rs)"
  have "hm_get (rs_runs rs) (env_uuid e 0) = None" using assms by (simp add: map_of_eq_None_iff)
  then have base: "keeps_approvals (rs_runs rs) ?m"
    by (simp add: run_to_record_def insert_keeps_approvals split: option.split)
  have captured: "keeps_approvals (rs_runs rs) (hm_modify ?k (capture_plan now owner) ?m)" for now
    by (rule keeps_approvals_trans [OF base capture_keeps_approvals])
  show ?thesis
  proof (cases rule: record_runs [of e owner content rs])
    case 1
    then show ?thesis by (simp only: captured)
  next
    case (2 a)
    show ?thesis unfolding 2 by (rule keeps_approvals_trans [OF captured push_keeps_approvals])
  qed
qed

definition linked :: "(string, team_plan) hashmap \<Rightarrow> team_run_state \<Rightarrow> bool" where
  "linked plans rs \<longleftrightarrow>
     (\<forall>k p r. hm_get plans k = Some p \<longrightarrow> tp_workflow_run_id p = Some r \<longrightarrow>
        (\<exists>run. hm_get (rs_runs rs) r = Some run \<and> wa_status (wr_approval run) = approval_of_plan (tp_status p)))
     \<and> (\<forall>k j p q. hm_get plans k = Some p \<longrightarrow> hm_get plans j = Some q \<longrightarrow> tp_workflow_run_id p \<noteq> None \<longrightarrow>
          tp_workflow_run_id p = tp_workflow_run_id q \<longrightarrow> k = j)"

lemma linked_runs: "linked plans rs \<Longrightarrow> keeps_approvals (rs_runs rs) (rs_runs rs') \<Longrightarrow> linked plans rs'"
  unfolding linked_def keeps_approvals_def
  by (intro conjI allI impI) (metis, blast)

lemma submit_linked:
  assumes ok: "linked plans rs" and fresh: "env_uuid e 0 \<notin> set (hm_keys plans)" "env_uuid e' 0 \<notin> set (hm_keys (rs_runs rs))"
    and run: "create_run_for_team_plan e' au su steps needs rs = (Some run, rs')"
    and p: "tp_workflow_run_id p = Some (wr_id run)" "tp_status p = (if needs then Plan_PendingApproval else Plan_Approved)"
  shows "linked (hm_insert (env_uuid e 0) p plans) rs'"
proof -
  have r: "wr_id run = env_uuid e' 0" "rs_runs rs' = hm_insert (env_uuid e' 0) run (rs_runs rs)"
    "wa_status (wr_approval run) = (if needs then Approval_Pending else Approval_Approved)"
    using run by (auto simp: create_run_for_team_plan_def team_plan_approval_def Let_def split: option.splits)
  have "hm_get (rs_runs rs) (wr_id run) = None" "hm_get plans (env_uuid e 0) = None"
    using fresh r(1) by (auto simp: map_of_eq_None_iff)
  then have "tp_workflow_run_id q \<noteq> Some (wr_id run)" if "hm_get plans k = Some q" for k q
    using ok that unfolding linked_def by (metis option.distinct(1))
  with ok p r show ?thesis
    unfolding linked_def by (simp add: get_hm_insert) (metis option.inject)
qed

lemma decide_linked:
  assumes ok: "linked plans rs" and p: "hm_get plans k = Some p"
    and plans': "\<And>j. hm_get plans' j = (if j = k then Some q else hm_get plans j)"
    and q: "tp_workflow_run_id q = tp_workflow_run_id p"
  shows "linked plans' (snd (sync_plan_decision e q rs))"
proof (cases "tp_workflow_run_id q")
  case None
  then show ?thesis using ok q plans' by (auto simp: linked_def sync_plan_decision_def split: if_splits)
next
  case (Some r)
  then have others: "tp_workflow_run_id p' \<noteq> Some r" if "hm_get plans j = Some p'" "j \<noteq> k" for j p'
    using ok p q that unfolding linked_def by (metis option.distinct(1))
  obtain run where run: "hm_get (rs_runs rs) r = Some run" using ok p q Some unfolding linked_def by metis
  have get': "hm_get (rs_runs (snd (sync_plan_decision e q rs))) j
      = (if j = r then Some (apply_decision (env_clock e 0) q run) else hm_get (rs_runs rs) j)" for j
    using Some run by (simp add: sync_plan_decision_def run_simps)
  show ?thesis
    unfolding linked_def
  proof (intro conjI allI impI)
    fix j p' r' assume j: "hm_get plans' j = Some p'" "tp_workflow_run_id p' = Some r'"
    show "\<exists>run. hm_get (rs_runs (snd (sync_plan_decision e q rs))) r' = Some run
        \<and> wa_status (wr_approval run) = approval_of_plan (tp_status p')"
    proof (cases "j = k")
      case True
      then have "p' = q" using j(1) plans' by simp
      with j(2) Some show ?thesis by (simp add: get' decided_run)
    next
      case False
      with j(1) plans' have "hm_get plans j = Some p'" by simp
      moreover from others [OF this False] j(2) have "r' \<noteq> r" by auto
      ultimately show ?thesis using ok j(2) unfolding linked_def get' by metis
    qed
  next
    fix i j p' q' assume "hm_get plans' i = Some p'" "hm_get plans' j = Some q'" "tp_workflow_run_id p' \<noteq> None"
      "tp_workflow_run_id p' = tp_workflow_run_id q'"
    then show "i = j" using ok p q unfolding linked_def plans' by (metis option.inject)
  qed
qed

section \<open>Every reachable state\<close>

definition rt_inv :: "team_runtime_state \<Rightarrow> bool" where
  "rt_inv rt \<longleftrightarrow> rt_mailbox_version rt = ts_mailbox_version (rt_team rt)
     \<and> linked (ts_plans (rt_team rt)) (rt_runs rt) \<and> runs_ok (rt_runs rt)"

text \<open>What an operation on the board may do: nothing to the mail and the plans, and at most a claim
  to the runs.\<close>

definition board_op :: "team_runtime_state \<Rightarrow> team_runtime_state \<Rightarrow> bool" where
  "board_op rt rt' \<longleftrightarrow> keeps_mail (rt_team rt) (rt_team rt') \<and> rt_mailbox_version rt' = rt_mailbox_version rt
     \<and> (rt_runs rt' = rt_runs rt \<or> (\<exists>e t c. rt_runs rt' = snd (note_task_claim e t c (rt_runs rt))))"

lemma board_op_inv: "board_op rt rt' \<Longrightarrow> rt_inv rt \<Longrightarrow> rt_inv rt'"
  using linked_runs [OF _ claim_keeps_approvals] run_op_ok [OF claim_task]
  by (auto simp: board_op_def rt_inv_def keeps_mail_def)

lemma board_simps [simp]:
  "board_op rt (persist_states sv r) = board_op rt r" "board_op rt (wake a w r) = board_op rt r"
  "board_op rt (nudge_task_participants t r) = board_op rt r" "board_op rt rt"
  by (simp_all add: board_op_def)

lemma board_on_team: "keeps_mail (rt_team rt) (snd (f (rt_team rt))) \<Longrightarrow> board_op rt (snd (on_team f rt))"
  by (simp add: board_op_def)

lemma board_note_claim: "board_op rt r \<Longrightarrow> rt_runs r = rt_runs rt \<Longrightarrow> board_op rt (note_claim e t c r)"
  by (auto simp: board_op_def note_claim_def)

lemma board_note_if_claimed: "board_op rt r \<Longrightarrow> rt_runs r = rt_runs rt \<Longrightarrow> board_op rt (note_if_claimed e S x r)"
  by (simp add: note_if_claimed_def board_note_claim split: option.split)

lemmas board_rules = board_on_team board_note_claim board_note_if_claimed

lemma create_board: "board_op rt (snd (runtime_create_task e e' sv ti de ow asg run scopes br ov rt))"
  by (simp add: runtime_create_task_def Let_def prod.case_eq_if board_rules keeps_create split: sum.split option.split)

lemma update_board: "board_op rt (snd (runtime_update_task e e' sv k patch rt))"
  by (simp add: runtime_update_task_def Let_def prod.case_eq_if board_rules keeps_update split: sum.split option.split)

lemma assign_board: "board_op rt (snd (runtime_assign_task e e' sv k a nt ov rt))"
  by (simp add: runtime_assign_task_def Let_def prod.case_eq_if board_rules keeps_assign split: option.split)

lemma handoff_board: "board_op rt (snd (runtime_handoff_task e e' sv k dst nt review rt))"
  by (simp add: runtime_handoff_task_def Let_def prod.case_eq_if board_rules keeps_handoff split: option.split)

lemma claim_with_board:
  assumes "\<And>k c n st. keeps_mail st (snd (claim k c n st))"
  shows "board_op rt (snd (runtime_claim_with claim e' sv k c nt rt))"
  using assms by (simp add: runtime_claim_with_def Let_def prod.case_eq_if board_rules split: sum.split option.split)

lemma claim_first_board:
  "keeps_mail (rt_team rt) (rt_team (snd (claim_first es c ts rt))) \<and> rt_runs (snd (claim_first es c ts rt)) = rt_runs rt
   \<and> rt_mailbox_version (snd (claim_first es c ts rt)) = rt_mailbox_version rt"
proof (induction ts arbitrary: es rt)
  case (Cons t ts)
  let ?op = "on_team (claim_ready_task (es 0) (tn_id t) c None) rt"
  have keep: "keeps_mail (rt_team rt) (rt_team (snd ?op))" by simp
  show ?case
  proof (cases "validate_claim_scope_policy rt c t")
    case (Inl err)
    with Cons.IH show ?thesis by simp
  next
    case (Inr u)
    show ?thesis
    proof (cases "fst ?op")
      case None
      then have eq: "claim_first es c (t # ts) rt = claim_first (\<lambda>i. es (Suc i)) c ts (snd ?op)"
        using Inr by (simp add: prod.case_eq_if)
      note IH = Cons.IH [where rt = "snd ?op" and es = "\<lambda>i. es (Suc i)"]
      from keeps_mail_trans [OF keep conjunct1 [OF IH]] IH show ?thesis unfolding eq by simp
    next
      case (Some v)
      then have "claim_first es c (t # ts) rt = (Some v, snd ?op)" using Inr by (simp add: prod.case_eq_if)
      with keep show ?thesis by simp
    qed
  qed
qed simp

lemma claim_next_board: "board_op rt (snd (runtime_claim_next_task e es e' sv c rt))"
proof -
  let ?l = "on_team (list_ready_tasks e c) rt"
  have "keeps_mail (rt_team rt) (rt_team (snd ?l))" by simp
  then have "board_op rt (snd (claim_first es c (fst ?l) (snd ?l)))"
    using claim_first_board [of "snd ?l" es c "fst ?l"] unfolding board_op_def
    by (metis keeps_mail_trans on_simps(2,3))
  moreover have "rt_runs (snd (claim_first es c (fst ?l) (snd ?l))) = rt_runs rt"
    using claim_first_board [of "snd ?l" es c "fst ?l"] by simp
  ultimately show ?thesis
    by (simp add: runtime_claim_next_task_def Let_def prod.case_eq_if board_note_claim split: option.split)
qed

lemma saved_board: "(\<And>st. keeps_mail st (snd (f st))) \<Longrightarrow> board_op rt (snd (saved_team_op f sv rt))"
  by (simp add: board_op_def saved_team_op_def Let_def prod.case_eq_if)

lemma force_board: "board_op rt (snd (runtime_force_release_lease e sv actor l rt))"
  by (simp add: board_op_def runtime_force_release_lease_def Let_def prod.case_eq_if keeps_releases split: option.split)

lemma maintain_board: "board_op rt (snd (maintain_leases_inline e rt))"
  by (simp add: board_op_def maintain_leases_inline_def Let_def prod.case_eq_if)

lemma maintain_saved_board: "board_op rt (runtime_maintain_leases e sv rt)"
  using maintain_board [of rt e] by (simp add: board_op_def runtime_maintain_leases_def Let_def prod.case_eq_if)

lemma snapshot_board: "board_op rt (snd (runtime_snapshot e status rt))"
  using maintain_board [of rt e] by (simp add: board_op_def runtime_snapshot_def snapshot_def Let_def)

lemma close_board: "board_op rt (snd (runtime_close_agent e sv shut a rt))"
  by (simp add: board_op_def runtime_close_agent_def Let_def prod.case_eq_if split: option.split sum.split)

text \<open>The operations in any order. The identifiers of new plans and runs are fresh; a plan whose
  run cannot be recorded (\<open>plan_labels\<close>) leaves the runtime as it is, an ad hoc plan leaves
  its captured step.\<close>

inductive runtime_step :: "team_runtime_state \<Rightarrow> team_runtime_state \<Rightarrow> bool" where
  rt_create: "runtime_step rt (snd (runtime_create_task e e' sv ti de ow asg run scopes br ov rt))"
| rt_update: "runtime_step rt (snd (runtime_update_task e e' sv k patch rt))"
| rt_assign: "runtime_step rt (snd (runtime_assign_task e e' sv k a nt ov rt))"
| rt_handoff: "runtime_step rt (snd (runtime_handoff_task e e' sv k dst nt review rt))"
| rt_claim: "runtime_step rt (snd (runtime_claim_task e e' sv k c nt rt))"
| rt_claim_ready: "runtime_step rt (snd (runtime_claim_ready_task e e' sv k c nt rt))"
| rt_claim_next: "runtime_step rt (snd (runtime_claim_next_task e es e' sv c rt))"
| rt_list_ready: "runtime_step rt (snd (runtime_list_ready_tasks e c rt))"
| rt_add_dependency: "runtime_step rt (snd (runtime_add_task_dependency e k d reason sv rt))"
| rt_remove_dependency: "runtime_step rt (snd (runtime_remove_task_dependency e k d sv rt))"
| rt_block: "runtime_step rt (snd (runtime_block_task e k reason' sv rt))"
| rt_unblock: "runtime_step rt (snd (runtime_unblock_task e k blocker sv rt))"
| rt_release: "runtime_step rt (snd (runtime_release_task_leases e k sv rt))"
| rt_force_release: "runtime_step rt (snd (runtime_force_release_lease e sv actor l rt))"
| rt_maintain: "runtime_step rt (runtime_maintain_leases e sv rt)"
| rt_snapshot: "runtime_step rt (snd (runtime_snapshot e status rt))"
| rt_close: "runtime_step rt (snd (runtime_close_agent e sv shut a rt))"
| rt_submit: "env_uuid e 0 \<notin> set (hm_keys (ts_plans (rt_team rt))) \<Longrightarrow> env_uuid e' 0 \<notin> set (hm_keys (rs_runs (rt_runs rt)))
    \<Longrightarrow> runtime_step rt (snd (runtime_submit_plan e e' sv au su steps needs rt))"
| rt_decide: "runtime_step rt (snd (runtime_decide_plan e e' sv pid rv ok nt rt))"
| rt_record: "env_uuid e' 0 \<notin> set (hm_keys (rs_runs (rt_runs rt)))
    \<Longrightarrow> runtime_step rt (snd (record_plan_artifact e' sv th content rt))"
| rt_post: "runtime_step rt (snd (runtime_post_message e sv args rt))"
| rt_peek: "runtime_step rt (snd (runtime_peek_messages e r unread sv rt))"
| rt_read: "runtime_step rt (snd (runtime_read_messages e r unread sv rt))"
| rt_claim_queue: "runtime_step rt (snd (runtime_claim_queue_messages e c q n sv rt))"
| rt_ack: "runtime_step rt (snd (runtime_ack_message e a mid sv rt))"
| rt_clear: "runtime_step rt (runtime_clear_state sv rt)"
| rt_input: "runtime_step rt (snd (send_input a m rt))"
| rt_note: "runtime_step rt (note_attention_on a reason' rt)"
| rt_unnote: "runtime_step rt (clear_attention_on a rt)"

lemma mail_op_inv: "(\<And>st. ts_plans (snd (f st)) = ts_plans st) \<Longrightarrow> rt_inv rt \<Longrightarrow> rt_inv (snd (mail_op f sv rt))"
  by (simp add: rt_inv_def mail_op_def Let_def prod.case_eq_if persist_team_state_and_publish_mailbox_def)

lemma rt_inv_nudge [simp]: "rt_inv (nudge_message_recipients m rt) = rt_inv rt"
  by (simp add: rt_inv_def)

lemma plans_read [simp]: "ts_plans (snd (peek_messages e r u st)) = ts_plans st" "ts_plans (snd (read_messages e r u st)) = ts_plans st"
  by (simp_all add: peek_messages_def read_messages_def)

lemma submit_inv:
  assumes "rt_inv rt" and "env_uuid e 0 \<notin> set (hm_keys (ts_plans (rt_team rt)))" and "env_uuid e' 0 \<notin> set (hm_keys (rs_runs (rt_runs rt)))"
  shows "rt_inv (snd (runtime_submit_plan e e' sv au su steps needs rt))"
proof -
  obtain r rs where create: "create_run_for_team_plan e' au su steps needs (rt_runs rt) = (r, rs)" by fastforce
  have ok: "runs_ok rs" using run_op_ok [OF create_run [OF assms(3)], of au su steps needs] assms(1) create by (simp add: rt_inv_def)
  show ?thesis
  proof (cases r)
    case None
    then have "rs = rt_runs rt" using create by (auto simp: create_run_for_team_plan_def Let_def split: option.splits)
    with None create assms(1) show ?thesis by (simp add: runtime_submit_plan_def on_runs_def rt_inv_def)
  next
    case (Some run)
    let ?p = "fst (submit_plan e au su steps needs (Some (wr_id run)) (rt_team rt))"
    have p: "tp_workflow_run_id ?p = Some (wr_id run)" "tp_status ?p = (if needs then Plan_PendingApproval else Plan_Approved)"
      by (simp_all add: submit_plan_def Let_def)
    have "linked (hm_insert (env_uuid e 0) ?p (ts_plans (rt_team rt))) rs"
      using submit_linked [OF _ assms(2,3) create [unfolded Some] p] assms(1) by (simp add: rt_inv_def)
    with ok assms(1) create Some show ?thesis
      by (simp add: runtime_submit_plan_def on_runs_def on_team_def rt_inv_def prod.case_eq_if Let_def plans_submit)
  qed
qed

lemma decide_inv:
  assumes "rt_inv rt"
  shows "rt_inv (snd (runtime_decide_plan e e' sv pid rv ok nt rt))"
proof (cases "hm_get (ts_plans (rt_team rt)) pid")
  case None
  with assms show ?thesis
    by (simp add: runtime_decide_plan_def on_team_def decide_plan_def rt_inv_def)
next
  case (Some p)
  let ?q = "decide_fields (env_clock e 0) rv ok nt p"
  let ?st = "snd (decide_plan e pid rv ok nt (rt_team rt))"
  have "linked (ts_plans ?st) (snd (sync_plan_decision e' ?q (rt_runs rt)))"
    using assms Some by (intro decide_linked [of "ts_plans (rt_team rt)" "rt_runs rt" pid p])
      (auto simp: rt_inv_def get_decide decide_fields_def)
  moreover have "runs_ok (snd (sync_plan_decision e' ?q (rt_runs rt)))"
    using assms run_op_ok [OF sync_decision] by (simp add: rt_inv_def)
  ultimately show ?thesis using assms Some
    by (simp add: runtime_decide_plan_def rt_inv_def prod.case_eq_if Let_def get_decide)
qed

lemma record_inv:
  assumes "rt_inv rt" and "env_uuid e' 0 \<notin> set (hm_keys (rs_runs (rt_runs rt)))"
  shows "rt_inv (snd (record_plan_artifact e' sv th content rt))"
  using assms linked_runs [OF _ record_keeps_approvals [OF assms(2)]] run_op_ok [OF record_plan [OF assms(2)]]
  by (simp add: record_plan_artifact_def rt_inv_def prod.case_eq_if split: option.split)

lemma runtime_step_inv: "runtime_step rt rt' \<Longrightarrow> rt_inv rt \<Longrightarrow> rt_inv rt'"
proof (induction rule: runtime_step.induct)
  case (rt_clear rt sv)
  then show ?case
    by (simp add: runtime_clear_state_def rt_inv_def Let_def linked_def runs_ok_def clear_def clear_runs_def)
next
  case (rt_input rt a m)
  then show ?case by (simp add: send_input_def rt_inv_def Let_def prod.case_eq_if)
next
  case (rt_note rt a reason')
  then show ?case by (simp add: note_attention_on_def rt_inv_def)
next
  case (rt_unnote rt a)
  then show ?case by (simp add: clear_attention_on_def rt_inv_def)
qed (auto simp: runtime_claim_task_def runtime_claim_ready_task_def runtime_list_ready_tasks_def
    runtime_add_task_dependency_def runtime_remove_task_dependency_def runtime_block_task_def runtime_unblock_task_def
    runtime_release_task_leases_def runtime_post_message_def runtime_peek_messages_def runtime_read_messages_def
    runtime_claim_queue_messages_def runtime_ack_message_def Let_def prod.case_eq_if
    intro!: submit_inv decide_inv record_inv mail_op_inv
      board_op_inv [OF create_board] board_op_inv [OF update_board] board_op_inv [OF assign_board]
      board_op_inv [OF handoff_board] board_op_inv [OF claim_with_board] board_op_inv [OF claim_next_board]
      board_op_inv [OF board_on_team] board_op_inv [OF saved_board] board_op_inv [OF force_board]
      board_op_inv [OF maintain_saved_board] board_op_inv [OF snapshot_board] board_op_inv [OF close_board]
      keeps_dependency keeps_block keeps_releases)

end
