(* ===== verification/RuntimeProps.thy ===== *)
theory RuntimeProps
  imports RuntimeState
begin

text \<open>
  The promises of the runtime of a team: plans and runs agree, watchers of an inbox miss nothing
  until the state is cleared, a restart finds what was saved, the root thread does not claim the
  whole repository next to its teammates, and selectors name one known thread.
\<close>

section \<open>Plans and runs\<close>

definition fresh_runtime :: "team_runtime_state \<Rightarrow> bool" where
  "fresh_runtime rt \<longleftrightarrow> rt_team rt = empty_team_state \<and> rt_runs rt = empty_run_state \<and> rt_mailbox_version rt = 0"

lemma fresh_inv: "fresh_runtime rt \<Longrightarrow> rt_inv rt"
  by (simp add: fresh_runtime_def rt_inv_def empty_team_state_def empty_run_state_def linked_def runs_ok_def)

interpretation runtime: machine fresh_runtime runtime_step rt_inv
  by unfold_locales (auto intro: fresh_inv runtime_step_inv)


section \<open>Watching an inbox\<close>

text \<open>A watcher of an inbox misses nothing: when it times out, no state that it could see had a
  mailbox of a newer version than the one it asked for, since the published version is the
  version of the mailbox in every reachable state.\<close>

theorem watcher_misses_nothing:
  assumes "fresh_runtime rt0" and "runtime_step\<^sup>*\<^sup>* rt0 rt" and "\<forall>r \<in> set changes. runtime_step\<^sup>*\<^sup>* rt0 r"
    and "watch_inbox e sv reader (Some v) unread changes last_state rt = ((w, ms, True), rt')"
  shows "ms = [] \<and> (\<forall>r \<in> insert rt (set changes). rt_mailbox_version r = mailbox_version (rt_team r) \<and> mailbox_version (rt_team r) \<le> v)"
proof -
  have same: "rt_mailbox_version r = mailbox_version (rt_team r)" if "runtime_step\<^sup>*\<^sup>* rt0 r" for r
    using runtime.inv_reachable [OF assms(1) that] by (simp add: rt_inv_def mailbox_version_def)
  have old: "\<not> v < mailbox_version (rt_team rt)" "find (\<lambda>r. v < rt_mailbox_version r) changes = None" "ms = []"
    using assms(4) by (auto simp: watch_inbox_def Let_def prod.case_eq_if split: if_splits option.splits)
  have "\<not> v < rt_mailbox_version r" if "r \<in> set changes" for r
    using old(2) that by (auto simp: find_None_iff)
  with same assms(2,3) old(1,3) show ?thesis by (auto simp: not_less)
qed

text \<open>Clearing the team sets the version back to zero. A watcher that has seen version one or later
  does not see the first message after that: it is in its inbox, unread, and the watcher times
  out with nothing.\<close>

theorem clear_hides_message:
  assumes "1 \<le> v" and "pa_recipient_thread_id args = Some reader" and "pa_sender_thread_id args \<noteq> reader"
  shows "let rt1 = snd (runtime_post_message e sv args (runtime_clear_state sv rt)) in
    watch_inbox e' sv reader (Some v) True [rt1] rt1 (runtime_clear_state sv rt) = ((1, [], True), rt1)
    \<and> length (ts_messages (rt_team rt1)) = 1
    \<and> (\<forall>m \<in> set (ts_messages (rt_team rt1)). is_visible_to reader m \<and> reader \<notin> set (sm_seen_by m))"
proof -
  let ?rt = "runtime_clear_state sv rt" and ?rt1 = "snd (runtime_post_message e sv args (runtime_clear_state sv rt))"
  have clear: "rt_team ?rt = empty_team_state" "rt_mailbox_version ?rt = 0"
    by (simp_all add: runtime_clear_state_def Let_def clear_is_empty empty_team_state_def)
  have team: "rt_team ?rt1 = snd (post_message e args empty_team_state)" "rt_mailbox_version ?rt1 = ts_mailbox_version (rt_team ?rt1)"
    by (simp_all add: runtime_post_message_def mail_op_def Let_def prod.case_eq_if persist_team_state_and_publish_mailbox_def clear)
  have post: "snd (post_message e args empty_team_state)
      = bump_mailbox_version (empty_team_state\<lparr>ts_messages := [stored_of e args]\<rparr>)"
    by (simp add: post_message_def expire_messages_def empty_team_state_def Let_def)
  have version: "ts_mailbox_version (rt_team ?rt1) = 1"
    unfolding team(1) post by (simp add: bump_mailbox_version_def empty_team_state_def saturating_add_def)
  have "\<not> v < 1" using assms(1) by (simp only: not_less)
  moreover have "\<not> v < 0" by simp
  ultimately have "watch_inbox e' sv reader (Some v) True [?rt1] ?rt1 ?rt = ((1, [], True), ?rt1)"
    using team(2) version by (simp add: watch_inbox_def clear mailbox_version_def empty_team_state_def Let_def)
  moreover have "ts_messages (rt_team ?rt1) = [stored_of e args]"
    unfolding team(1) post by (simp add: bump_mailbox_version_def)
  ultimately show ?thesis using assms(2,3) by (simp add: Let_def stored_of_def is_visible_to_def)
qed

section \<open>Restarts\<close>

definition restores :: "team_runtime_state \<Rightarrow> bool" where
  "restores rt \<longleftrightarrow> (\<forall>root threads. \<exists>rt0. register_team_runtime (rt_db rt) (rt_cwd rt) root threads = Inr rt0
     \<and> rt_team rt0 = rt_team rt \<and> rt_runs rt0 = rt_runs rt \<and> rt_mailbox_version rt0 = mailbox_version (rt_team rt))"

definition team_saved :: "team_runtime_state \<Rightarrow> bool" where
  "team_saved rt \<longleftrightarrow> hm_get (rt_db rt) (team_store_key rt) = Some (Stored_Team (rt_team rt))
     \<or> hm_get (rt_db rt) (team_store_key rt) = None \<and> hm_get (rt_db rt) (rt_cwd rt) = None \<and> rt_team rt = empty_team_state"

definition runs_saved :: "team_runtime_state \<Rightarrow> bool" where
  "runs_saved rt \<longleftrightarrow> hm_get (rt_db rt) (run_store_key rt) = Some (Stored_Runs (rt_runs rt))
     \<or> hm_get (rt_db rt) (run_store_key rt) = None \<and> rt_runs rt = empty_run_state"

definition saved :: "team_runtime_state \<Rightarrow> bool" where
  "saved rt \<longleftrightarrow> team_saved rt \<and> runs_saved rt"

lemma saved_restores: "saved rt \<Longrightarrow> restores rt"
  by (auto simp: restores_def saved_def team_saved_def runs_saved_def register_team_runtime_def load_persisted_team_def
      load_team_def load_runs_def team_store_key_def run_store_key_def mailbox_version_def empty_team_state_def)

lemma keys_differ [simp]: "run_store_key rt \<noteq> team_store_key rt" "team_store_key rt \<noteq> rt_cwd rt" "run_store_key rt \<noteq> rt_cwd rt"
proof -
  show "run_store_key rt \<noteq> team_store_key rt" by (simp add: run_store_key_def team_store_key_def scoped_store_key_def)
  have "length (team_store_key rt) \<noteq> length (rt_cwd rt)" "length (run_store_key rt) \<noteq> length (rt_cwd rt)"
    by (simp_all add: run_store_key_def team_store_key_def scoped_store_key_def)
  then show "team_store_key rt \<noteq> rt_cwd rt" "run_store_key rt \<noteq> rt_cwd rt" by metis+
qed

lemma keys_cong: "rt_cwd rt = rt_cwd rt' \<Longrightarrow> team_store_key rt = team_store_key rt' \<and> run_store_key rt = run_store_key rt'"
  by (simp add: run_store_key_def team_store_key_def)

lemma cwd_simps [simp]: "rt_cwd (persist_states sv rt) = rt_cwd rt" "rt_cwd (persist_team_state ok rt) = rt_cwd rt"
  "rt_cwd (persist_run_state ok rt) = rt_cwd rt" "rt_cwd (publish_mailbox_version rt) = rt_cwd rt"
  "rt_db (publish_mailbox_version rt) = rt_db rt"
  by (simp_all add: persist_states_def persist_team_state_def persist_run_state_def save_json_def publish_mailbox_version_def)

text \<open>What is saved of a state depends on its team, its runs, its directory and the database.\<close>

lemma saved_cong:
  assumes "rt_team rt' = rt_team rt" "rt_runs rt' = rt_runs rt" "rt_cwd rt' = rt_cwd rt" "rt_db rt' = rt_db rt"
  shows "saved rt' = saved rt"
  using assms keys_cong [OF assms(3)] by (simp add: saved_def team_saved_def runs_saved_def)

lemma saved_wake [simp]: "saved (wake a w rt) = saved rt" "saved (nudge_task_participants t rt) = saved rt"
  "saved (nudge_message_recipients m rt) = saved rt" "saved (publish_mailbox_version rt) = saved rt"
  by (rule saved_cong; simp)+

lemma saved_persist [simp]: "saved (persist_states (\<lambda>_. True) rt)"
  by (simp add: saved_def team_saved_def runs_saved_def persist_states_def persist_run_state_def persist_team_state_def
      save_json_def team_store_key_def run_store_key_def scoped_store_key_def get_hm_insert)

lemma keys_db [simp]: "team_store_key (rt\<lparr>rt_db := d\<rparr>) = team_store_key rt" "run_store_key (rt\<lparr>rt_db := d\<rparr>) = run_store_key rt"
  by (simp_all add: team_store_key_def run_store_key_def)

lemma runs_saved_persist_team:
  assumes "saved rt" "rt_runs r = rt_runs rt" "rt_db r = rt_db rt" "rt_cwd r = rt_cwd rt"
  shows "saved (persist_team_state True r)"
proof -
  have k: "run_store_key r = run_store_key rt" using keys_cong [OF assms(4)] by blast
  have "runs_saved r" using assms(1) unfolding saved_def runs_saved_def k assms(2,3) by blast
  then show ?thesis
    by (simp add: saved_def team_saved_def runs_saved_def persist_team_state_def save_json_def get_hm_insert)
qed

lemma team_saved_persist_runs:
  assumes "saved rt" "rt_team r = rt_team rt" "rt_db r = rt_db rt" "rt_cwd r = rt_cwd rt"
  shows "saved (persist_run_state True r)"
proof -
  have k: "team_store_key r = team_store_key rt" using keys_cong [OF assms(4)] by blast
  have "team_saved r" using assms(1) unfolding saved_def team_saved_def k assms(2-4) by blast
  then show ?thesis
    using keys_differ(1) [of r, symmetric] keys_differ(3) [of r, symmetric]
    by (simp add: saved_def team_saved_def runs_saved_def persist_run_state_def save_json_def get_hm_insert)
qed

lemma saved_mail_op: "saved rt \<Longrightarrow> saved (snd (mail_op f (\<lambda>_. True) rt))"
  using runs_saved_persist_team [of rt "snd (on_team f rt)"]
  by (simp add: mail_op_def Let_def prod.case_eq_if persist_team_state_and_publish_mailbox_def)

text \<open>The operations that save what they change, when every save succeeds. The others show the
  board as it is now without saving it: \<open>list_ready_tasks\<close>, \<open>snapshot\<close>; or panic.\<close>

abbreviation saves :: "nat \<Rightarrow> bool" where "saves \<equiv> \<lambda>_. True"

inductive saving_step :: "team_runtime_state \<Rightarrow> team_runtime_state \<Rightarrow> bool" where
  "saving_step rt (snd (runtime_create_task e e' saves ti de ow asg run scopes br ov rt))"
| "saving_step rt (snd (runtime_update_task e e' saves k patch rt))"
| "saving_step rt (snd (runtime_assign_task e e' saves k a nt ov rt))"
| "saving_step rt (snd (runtime_handoff_task e e' saves k dst nt review rt))"
| "saving_step rt (snd (runtime_claim_task e e' saves k c nt rt))"
| "saving_step rt (snd (runtime_claim_ready_task e e' saves k c nt rt))"
| "saving_step rt (snd (runtime_claim_next_task e es e' saves c rt))"
| "saving_step rt (snd (runtime_add_task_dependency e k d reason saves rt))"
| "saving_step rt (snd (runtime_remove_task_dependency e k d saves rt))"
| "saving_step rt (snd (runtime_block_task e k reason' saves rt))"
| "saving_step rt (snd (runtime_unblock_task e k blocker saves rt))"
| "saving_step rt (snd (runtime_release_task_leases e k saves rt))"
| "saving_step rt (snd (runtime_submit_plan e e' saves au su steps needs rt))"
| "saving_step rt (snd (runtime_decide_plan e e' saves pid rv ok nt rt))"
| "fst (record_ad_hoc_plan e' th content (rt_runs rt)) \<noteq> None \<Longrightarrow> saving_step rt (snd (record_plan_artifact e' saves th content rt))"
| "saving_step rt (snd (runtime_post_message e saves args rt))"
| "saving_step rt (snd (runtime_peek_messages e r unread saves rt))"
| "saving_step rt (snd (runtime_read_messages e r unread saves rt))"
| "saving_step rt (snd (runtime_claim_queue_messages e c q n saves rt))"
| "saving_step rt (snd (runtime_ack_message e a mid saves rt))"
| "saving_step rt (runtime_clear_state saves rt)"

lemma saved_claim_with: "saved rt \<Longrightarrow> saved (snd (runtime_claim_with claim e' saves k c nt rt))"
  by (simp add: runtime_claim_with_def Let_def prod.case_eq_if split: sum.split)

lemma saved_record:
  assumes "saved rt" and "fst (record_ad_hoc_plan e' th content (rt_runs rt)) \<noteq> None"
  shows "saved (snd (record_plan_artifact e' saves th content rt))"
  using assms team_saved_persist_runs [of rt "snd (on_runs (record_ad_hoc_plan e' th content) rt)"]
  by (auto simp: record_plan_artifact_def prod.case_eq_if split: option.split)

lemma saved_submit: "saved rt \<Longrightarrow> saved (snd (runtime_submit_plan e e' saves au su steps needs rt))"
proof (cases "humanize_artifact_label su ''Team plan''")
  case None
  assume "saved rt"
  with None show ?thesis
    by (simp add: runtime_submit_plan_def create_run_for_team_plan_def on_runs_def Let_def)
next
  case (Some label)
  then show ?thesis
    by (simp add: runtime_submit_plan_def create_run_for_team_plan_def on_runs_def Let_def prod.case_eq_if)
qed

lemma saved_clear: "saved (runtime_clear_state saves rt)"
  by (simp add: runtime_clear_state_def Let_def saved_def team_saved_def runs_saved_def get_hm_remove clear_is_empty
      clear_runs_def empty_run_state_def publish_mailbox_version_def team_store_key_def run_store_key_def)

lemma saving_step_saved: "saving_step rt rt' \<Longrightarrow> saved rt \<Longrightarrow> saved rt'"
proof (induction rule: saving_step.induct)
  case (1 rt e e' ti de ow asg run scopes br ov)
  then show ?case
    by (simp add: runtime_create_task_def Let_def prod.case_eq_if split: sum.split option.split)
qed (auto simp: runtime_update_task_def runtime_assign_task_def runtime_handoff_task_def runtime_claim_task_def
    runtime_claim_ready_task_def runtime_claim_next_task_def runtime_add_task_dependency_def
    runtime_remove_task_dependency_def runtime_block_task_def runtime_unblock_task_def runtime_release_task_leases_def
    saved_team_op_def runtime_decide_plan_def runtime_post_message_def runtime_peek_messages_def runtime_read_messages_def
    runtime_claim_queue_messages_def runtime_ack_message_def Let_def prod.case_eq_if
    saved_claim_with saved_mail_op saved_record saved_submit saved_clear split: sum.split option.split)

interpretation saving: machine "\<lambda>rt. fresh_runtime rt \<and> rt_db rt = []" saving_step saved
proof unfold_locales
  fix rt assume "fresh_runtime rt \<and> rt_db rt = []"
  then show "saved rt" by (simp add: saved_def team_saved_def runs_saved_def fresh_runtime_def)
qed (rule saving_step_saved)

text \<open>When every save succeeds, a restart after any sequence of the operations that save brings back
  the team, the workflow runs and the version of the mailbox as they were, whatever the new root
  thread is.\<close>

theorem restart_restores:
  assumes "fresh_runtime rt0" and "rt_db rt0 = []" and "saving_step\<^sup>*\<^sup>* rt0 rt"
  shows "\<exists>rt1. register_team_runtime (rt_db rt) (rt_cwd rt) root threads = Inr rt1
    \<and> rt_team rt1 = rt_team rt \<and> rt_runs rt1 = rt_runs rt \<and> rt_mailbox_version rt1 = mailbox_version (rt_team rt)"
  using saved_restores [OF saving.inv_reachable [OF _ assms(3)]] assms(1,2) unfolding restores_def by blast

section \<open>The scope policy\<close>

text \<open>A task that asks to write the whole directory of the repository, without the override.\<close>

definition takes_repo :: "team_runtime_state \<Rightarrow> team_task \<Rightarrow> bool" where
  "takes_repo rt t \<longleftrightarrow> \<not> tn_scope_policy_override t
     \<and> list_ex (is_repo_root_directory_write_scope rt) (tn_requested_scopes t)"

lemma claim_policy_iff:
  "validate_claim_scope_policy rt c t = Inr () \<longleftrightarrow>
     \<not> (has_spawned_teammates rt \<and> c = rt_root_thread_id rt \<and> takes_repo rt t)"
  by (auto simp: validate_claim_scope_policy_def validate_task_scope_policy_def is_root_thread_def takes_repo_def)

text \<open>Next to teammates the root thread never claims the whole repository: such a claim is an error
  that leaves everything as it is, and \<open>claim_next_task\<close> passes over such tasks. Everybody else,
  and everybody when there are no teammates, claims as the team's state decides.\<close>

theorem root_never_claims_repo:
  assumes "task k (rt_team rt) = Some t"
  shows "runtime_claim_task e e' sv k c nt rt =
      (if has_spawned_teammates rt \<and> c = rt_root_thread_id rt \<and> takes_repo rt t then (Inl SCOPE_POLICY_ERROR, rt)
       else (Inr (fst (claim_task e k c nt (rt_team rt))),
             persist_states sv (case fst (claim_task e k c nt (rt_team rt)) of
                 None \<Rightarrow> rt\<lparr>rt_team := snd (claim_task e k c nt (rt_team rt))\<rparr>
               | Some u \<Rightarrow> note_claim e' u c (rt\<lparr>rt_team := snd (claim_task e k c nt (rt_team rt))\<rparr>))))
    \<and> (has_spawned_teammates rt \<longrightarrow> (\<forall>candidates u. list_all (takes_repo rt) candidates \<longrightarrow>
         claim_first es (rt_root_thread_id rt) candidates rt = (None, rt)))"
proof (intro conjI impI allI)
  have "validate_claim_scope_policy rt c t =
      (if has_spawned_teammates rt \<and> c = rt_root_thread_id rt \<and> takes_repo rt t then Inl SCOPE_POLICY_ERROR else Inr ())"
    by (auto simp: validate_claim_scope_policy_def validate_task_scope_policy_def is_root_thread_def takes_repo_def)
  then show "runtime_claim_task e e' sv k c nt rt =
      (if has_spawned_teammates rt \<and> c = rt_root_thread_id rt \<and> takes_repo rt t then (Inl SCOPE_POLICY_ERROR, rt)
       else (Inr (fst (claim_task e k c nt (rt_team rt))),
             persist_states sv (case fst (claim_task e k c nt (rt_team rt)) of
                 None \<Rightarrow> rt\<lparr>rt_team := snd (claim_task e k c nt (rt_team rt))\<rparr>
               | Some u \<Rightarrow> note_claim e' u c (rt\<lparr>rt_team := snd (claim_task e k c nt (rt_team rt))\<rparr>))))"
    using assms by (simp add: runtime_claim_task_def runtime_claim_with_def on_team_def Let_def)
  fix candidates assume "has_spawned_teammates rt" "list_all (takes_repo rt) candidates"
  then show "claim_first es (rt_root_thread_id rt) candidates rt = (None, rt)"
  proof (induction candidates arbitrary: es)
    case (Cons u us)
    then have "validate_claim_scope_policy rt (rt_root_thread_id rt) u \<noteq> Inr ()" by (simp add: claim_policy_iff)
    then obtain err where "validate_claim_scope_policy rt (rt_root_thread_id rt) u = Inl err"
      by (cases "validate_claim_scope_policy rt (rt_root_thread_id rt) u") auto
    with Cons show ?case by simp
  qed simp
qed

section \<open>A team to look at\<close>

definition demo_thread :: "string \<Rightarrow> string \<Rightarrow> thread_info" where
  "demo_thread k nick = \<lparr>ti_thread_id = k, ti_parent_thread_id = None, ti_depth = 0, ti_nickname = Some nick,
     ti_role = ''r'', ti_task = ''t'', ti_created_at = 0\<rparr>"

definition demo_team :: team_runtime_state where
  "demo_team = \<lparr>rt_root_thread_id = ''r'', rt_cwd = ''/w'',
     rt_threads = [(''r'', demo_thread ''r'' ''boss''), (''t'', demo_thread ''t'' ''ann'')], rt_handles = [],
     rt_team = empty_team_state, rt_runs = empty_run_state, rt_mailbox_version = 0, rt_db = []\<rparr>"

definition repo_scope :: scope_request where
  "repo_scope = \<lparr>sr_kind = Scope_Directory, sr_path = ''.'', sr_access = Access_ExclusiveWrite, sr_reason = None\<rparr>"

definition demo_given :: team_runtime_state where
  "demo_given = snd (runtime_create_task demo_env demo_env saves ''all'' None None (Some ''t'') None [repo_scope] None False demo_team)"

text \<open>The policy looks at claims, new tasks and updates only. Handing the task of a teammate over to
  the root thread is not checked: the root thread then holds the exclusive lease on the whole
  repository, although it could not have created or claimed such a task.\<close>

theorem handoff_skips_policy:
  "let handed = snd (runtime_handoff_task (demo_env_at 5) demo_env saves ''u'' ''r'' None False demo_given) in
    has_spawned_teammates handed
    \<and> fst (runtime_create_task demo_env demo_env saves ''all'' None None (Some ''r'') None [repo_scope] None False demo_team)
        = Inl SCOPE_POLICY_ERROR
    \<and> map (\<lambda>l. (ol_owner_thread_id l, os_kind (ol_scope l), os_path (ol_scope l), ol_access l))
        (hm_values (ts_ownership_leases (rt_team handed))) = [(rt_root_thread_id handed, Scope_Directory, rt_cwd handed, Access_ExclusiveWrite)]"
  by code_simp

section \<open>Selectors\<close>

definition known_thread :: "team_runtime_state \<Rightarrow> string \<Rightarrow> bool" where
  "known_thread rt x \<longleftrightarrow> x = rt_root_thread_id rt \<or> hm_get (rt_threads rt) x \<noteq> None"

definition nicknamed :: "team_runtime_state \<Rightarrow> string \<Rightarrow> string set" where
  "nicknamed rt x = {t. \<exists>info. hm_get (rt_threads rt) t = Some info \<and> ti_nickname info = Some x}"

definition selector_name :: "string \<Rightarrow> string" where
  "selector_name s = (case strip_prefix ''@'' (trim s) of Some x \<Rightarrow> x | None \<Rightarrow> trim s)"

lemma find_same: "find (\<lambda>c. c = x) xs = None \<longleftrightarrow> x \<notin> set xs"
  by (induction xs) auto

lemma resolve_known: "resolve_thread_id rt x \<noteq> None \<longleftrightarrow> known_thread rt x"
  by (simp add: resolve_thread_id_def known_thread_def list_thread_ids_def find_same map_of_eq_None_iff del: not_None_eq)

lemma set_found: "set (List.map_filter f xs) = {y. \<exists>x \<in> set xs. f x = Some y}"
  by (induction xs) (auto simp: List.map_filter_def)

lemma nickname_matches:
  assumes "hm_wf (rt_threads rt)" "\<And>k info. hm_get (rt_threads rt) k = Some info \<Longrightarrow> ti_thread_id info = k"
  shows "distinct (nickname_matches rt x) \<and> set (nickname_matches rt x) = nicknamed rt x"
proof -
  let ?infos = "List.map_filter (\<lambda>t. get_thread t (rt_threads rt)) (list_thread_ids (rt_threads rt))"
  have ids: "map ti_thread_id ?infos = hm_keys (rt_threads rt)"
  proof -
    have "map ti_thread_id (List.map_filter (\<lambda>t. hm_get (rt_threads rt) t) ks) = ks"
      if "set ks \<subseteq> set (hm_keys (rt_threads rt))" for ks
      using that
    proof (induction ks)
      case (Cons k ks)
      then obtain info where "hm_get (rt_threads rt) k = Some info" using keys_get [of k] by auto
      with Cons assms(2) show ?case by (simp add: List.map_filter_def)
    qed (simp add: List.map_filter_def)
    then show ?thesis by (simp add: get_thread_def list_thread_ids_def)
  qed
  then have "distinct (map ti_thread_id ?infos)" using assms(1) by simp
  then have "distinct (nickname_matches rt x)"
    unfolding nickname_matches_def by (rule distinct_map_filter)
  moreover have "set (nickname_matches rt x) = nicknamed rt x"
  proof -
    have "set ?infos = {info. \<exists>t. hm_get (rt_threads rt) t = Some info}"
      unfolding set_found get_thread_def list_thread_ids_def by (metis get_in_keys image_set)
    then show ?thesis unfolding nickname_matches_def nicknamed_def using assms(2) by (auto simp: image_iff)
  qed
  ultimately show ?thesis by blast
qed

text \<open>A selector stands for the thread with that identifier, else for the root thread if it is
  \<open>main\<close>, else for the one thread with that nickname; in every other case it is an error.\<close>

theorem selector_resolution:
  assumes "hm_wf (rt_threads rt)" and "\<And>k info. hm_get (rt_threads rt) k = Some info \<Longrightarrow> ti_thread_id info = k"
  shows "resolve_agent_selector_strict rt s = Inr t \<longleftrightarrow> trim s \<noteq> [] \<and>
    (if known_thread rt (selector_name s) then t = selector_name s
     else if selector_name s = ''main'' then t = rt_root_thread_id rt
     else nicknamed rt (selector_name s) = {t})"
proof -
  note m = nickname_matches [OF assms, of "selector_name s"]
  have one: "nicknamed rt (selector_name s) = {t} \<longleftrightarrow> nickname_matches rt (selector_name s) = [t]"
  proof
    assume "nicknamed rt (selector_name s) = {t}"
    with m show "nickname_matches rt (selector_name s) = [t]"
      by (cases "nickname_matches rt (selector_name s)" rule: remdups_adj.cases) auto
  qed (use m in simp)
  show ?thesis
    unfolding one resolve_agent_selector_strict_def Let_def selector_name_def [symmetric] resolve_known
    by (auto split: list.splits)
qed

section \<open>Witnesses\<close>

lemma demo_team_fresh: "fresh_runtime demo_team" "rt_db demo_team = []"
  by (simp_all add: fresh_runtime_def demo_team_def)

theorem selector_resolution_witness: "resolve_agent_selector_strict demo_team ''@ann'' = Inr ''t''"
proof -
  have "selector_name ''@ann'' = ''ann''" "trim ''@ann'' \<noteq> []" by code_simp+
  moreover have "nicknamed demo_team ''ann'' = {''t''}"
    by (auto simp: nicknamed_def demo_team_def demo_thread_def split: if_splits)
  moreover have "\<not> known_thread demo_team ''ann''" "hm_wf (rt_threads demo_team)"
    "\<And>k info. hm_get (rt_threads demo_team) k = Some info \<Longrightarrow> ti_thread_id info = k"
    by (auto simp: known_thread_def demo_team_def demo_thread_def split: if_splits)
  ultimately show ?thesis using selector_resolution [of demo_team "''@ann''" "''t''"] by simp
qed

definition demo_submitted :: team_runtime_state where
  "demo_submitted = snd (runtime_submit_plan demo_env demo_env saves ''t'' ''Ship'' [''Build''] True demo_team)"

lemma demo_submitted_reached: "runtime_step\<^sup>*\<^sup>* demo_team demo_submitted" "saving_step\<^sup>*\<^sup>* demo_team demo_submitted"
  unfolding demo_submitted_def
  by (auto intro!: r_into_rtranclp rt_submit saving_step.intros simp: demo_team_def empty_team_state_def empty_run_state_def)


theorem restart_restores_witness:
  "\<exists>rt. register_team_runtime (rt_db demo_submitted) ''/w'' ''new root'' [] = Inr rt \<and> rt_runs rt = rt_runs demo_submitted"
proof -
  have "rt_cwd demo_submitted = ''/w''" by code_simp
  with restart_restores [OF demo_team_fresh demo_submitted_reached(2), of "''new root''" "[]"] show ?thesis by auto
qed

theorem watcher_misses_nothing_witness:
  "mailbox_version (rt_team demo_team) \<le> 0"
  using watcher_misses_nothing [OF demo_team_fresh(1) rtranclp.rtrancl_refl, of "[]" demo_env saves "''t''" 0 True demo_team 0 "[]" demo_team]
  by (simp add: watch_inbox_def demo_team_def mailbox_version_def empty_team_state_def)

definition demo_post :: post_args where
  "demo_post = \<lparr>pa_sender_thread_id = ''r'', pa_recipient_thread_id = Some ''t'', pa_kind = Msg_Direct, pa_route_key = None,
     pa_delivery_mode = Delivery_DurableMail, pa_priority = Prio_Normal, pa_correlation_id = None, pa_task_id = None,
     pa_message = ''hi'', pa_expires_at = None\<rparr>"

theorem clear_hides_message_witness:
  "length (ts_messages (rt_team (snd (runtime_post_message demo_env saves demo_post (runtime_clear_state saves demo_team))))) = 1"
  using clear_hides_message [of 1 demo_post "''t''" demo_env saves demo_team demo_env]
  by (simp add: demo_post_def Let_def)

theorem root_never_claims_repo_witness:
  "fst (runtime_claim_task demo_env demo_env saves ''u'' ''r'' None demo_given) = Inl SCOPE_POLICY_ERROR"
proof -
  have "map_option (takes_repo demo_given) (task ''u'' (rt_team demo_given)) = Some True" by code_simp
  then obtain t where t: "task ''u'' (rt_team demo_given) = Some t" "takes_repo demo_given t" by auto
  have "has_spawned_teammates demo_given" "rt_root_thread_id demo_given = ''r''" by code_simp+
  with root_never_claims_repo [OF t(1), of demo_env demo_env saves "''r''" None "\<lambda>_. demo_env"] t(2) show ?thesis by simp
qed

end
