(* ===== verification/Truncate.thy ===== *)
theory Truncate
  imports RustFind
begin

text \<open>
  Cutting a text for the model (\<open>core/src/truncate.rs\<close>): by lines or by estimated tokens, the
  middle of the text is left out. A budget is scaled in double precision; the product of two
  such numbers is rounded to 53 bits, to the even one of two equally near.
\<close>

section \<open>The characters of a text\<close>

text \<open>\<open>chars()\<close>: a byte and the bytes that continue it.\<close>

definition continues_char :: "char \<Rightarrow> bool" where
  "continues_char c \<longleftrightarrow> (128 :: nat) \<le> of_char c \<and> of_char c < (192 :: nat)"

function chars_of :: "string \<Rightarrow> string list" where
  "chars_of [] = []"
| "chars_of (c # s) = (c # takeWhile continues_char s) # chars_of (dropWhile continues_char s)"
  by pat_completeness auto
termination
  by (relation "measure length") (auto simp: le_imp_less_Suc length_dropWhile_le)

lemma concat_chars_of [simp]: "concat (chars_of s) = s"
  by (induction s rule: chars_of.induct) auto

definition char_groups :: "string list \<Rightarrow> bool" where
  "char_groups cs \<longleftrightarrow> (\<forall>g \<in> set cs. g \<noteq> [] \<and> (\<forall>c \<in> set (tl g). continues_char c))
     \<and> (\<forall>g \<in> set (tl cs). \<not> continues_char (hd g))"

lemma hd_concat: "cs \<noteq> [] \<Longrightarrow> hd cs \<noteq> [] \<Longrightarrow> hd (concat cs) = hd (hd cs)"
  by (cases cs) auto

lemma char_groups_chars: "char_groups (chars_of s)"
proof (induction s rule: chars_of.induct)
  case (2 c s)
  let ?r = "dropWhile continues_char s"
  have "\<not> continues_char (hd (hd (chars_of ?r)))" if "chars_of ?r \<noteq> []"
  proof -
    have "hd (chars_of ?r) \<noteq> []" using 2 that by (auto simp: char_groups_def)
    then have "hd ?r = hd (hd (chars_of ?r))" using hd_concat [OF that] by simp
    moreover have "?r \<noteq> []" using that by (metis chars_of.simps(1))
    ultimately show ?thesis using hd_dropWhile [of continues_char s] by simp
  qed
  with 2 show ?case
    by (cases "chars_of ?r") (auto simp: char_groups_def dest: set_takeWhileD)
qed (simp add: char_groups_def)

lemma takeWhile_group: "\<forall>c \<in> set g. P c \<Longrightarrow> r = [] \<or> \<not> P (hd r) \<Longrightarrow> takeWhile P (g @ r) = g \<and> dropWhile P (g @ r) = r"
  by (induction g) (cases r; auto)+

lemma chars_of_concat: "char_groups cs \<Longrightarrow> chars_of (concat cs) = cs"
proof (induction cs)
  case (Cons g cs)
  obtain c g' where g: "g = c # g'" using Cons.prems by (cases g) (auto simp: char_groups_def)
  have groups: "char_groups cs" using Cons.prems by (cases cs) (auto simp: char_groups_def)
  have "concat cs = [] \<or> \<not> continues_char (hd (concat cs))"
    using Cons.prems hd_concat [of cs] by (cases cs) (auto simp: char_groups_def)
  with takeWhile_group [of g' continues_char "concat cs"] Cons.prems g
  have "takeWhile continues_char (g' @ concat cs) = g'" "dropWhile continues_char (g' @ concat cs) = concat cs"
    by (auto simp: char_groups_def)
  then show ?case using Cons.IH [OF groups] g by simp
qed simp

lemma char_groups_ends:
  assumes "char_groups cs" and "m \<le> k"
  shows "char_groups (take m cs @ drop k cs)"
proof (cases "m = 0")
  case True
  then show ?thesis
    using assms by (auto simp: char_groups_def tl_drop dest: in_set_dropD)
next
  case False
  then obtain m' where m: "m = Suc m'" by (cases m) auto
  show ?thesis
  proof (cases cs)
    case (Cons g gs)
    have "set (drop k cs) \<subseteq> set gs" using assms(2) m Cons set_drop_subset [of "k - 1" gs] by (cases k) auto
    then show ?thesis using assms(1) m Cons by (auto simp: char_groups_def dest: in_set_takeD)
  qed (simp add: char_groups_def)
qed

section \<open>Budgets\<close>

datatype truncation_policy = Lines nat | Tokens nat | No_Truncation

definition DEFAULT_TOOL_OUTPUT_TOKENS :: nat where
  "DEFAULT_TOOL_OUTPUT_TOKENS = 16384"

text \<open>A finite double that is not negative: \<open>m / 2 ^ s\<close> with \<open>m < 2 ^ 53\<close>, rounded up to a power of
  two of its size.\<close>

fun excess_bits :: "nat \<Rightarrow> nat" where
  "excess_bits n = (if n < 2 ^ 53 then 0 else Suc (excess_bits (n div 2)))"

declare excess_bits.simps [simp del]

definition round_half_even :: "nat \<Rightarrow> nat \<Rightarrow> nat" where
  "round_half_even n d =
     (let q = n div d; r = n mod d
      in if 2 * r > d \<or> (2 * r = d \<and> odd q) then (q + 1) * d else q * d)"

definition round53 :: "nat \<Rightarrow> nat" where
  "round53 n = round_half_even n (2 ^ excess_bits n)"

definition f64_of_usize :: "nat \<Rightarrow> nat \<times> nat" where
  "f64_of_usize n = (round53 n, 0)"

definition f64_mult :: "nat \<times> nat \<Rightarrow> nat \<times> nat \<Rightarrow> nat \<times> nat" where
  "f64_mult x y = (round53 (fst x * fst y), snd x + snd y)"

definition ceil_as_usize :: "nat \<times> nat \<Rightarrow> nat" where
  "ceil_as_usize x = min (div_ceil (fst x) (2 ^ snd x)) USIZE_MAX"

definition mul_policy :: "truncation_policy \<Rightarrow> nat \<times> nat \<Rightarrow> truncation_policy" where
  "mul_policy policy multiplier =
     (case policy of
        Lines n \<Rightarrow> Lines (ceil_as_usize (f64_mult (f64_of_usize n) multiplier))
      | Tokens n \<Rightarrow> Tokens (ceil_as_usize (f64_mult (f64_of_usize n) multiplier))
      | No_Truncation \<Rightarrow> No_Truncation)"

text \<open>The double nearest to 1.2.\<close>

definition f64_1_2 :: "nat \<times> nat" where
  "f64_1_2 = (5404319552844595, 52)"

section \<open>Cutting\<close>

definition truncate_lines :: "string \<Rightarrow> nat \<Rightarrow> bool \<Rightarrow> string" where
  "truncate_lines t max_lines include_marker =
     (if max_lines = 0 then []
      else
        (let lines = str_lines t
         in if length lines \<le> max_lines then t
            else
              (let head = max_lines div 2; tail = max_lines - head; omitted = length lines - (head + tail);
                   out = join [LF] (take head lines);
                   out = (if include_marker
                     then (if out \<noteq> [] then out @ [LF] else out)
                       @ ''... ('' @ show_nat omitted @ '' lines omitted) ...''
                     else out);
                   kept = drop (length lines - tail) lines;
                   out = (if kept \<noteq> []
                     then (if out \<noteq> [] then out @ [LF] else out) @ join [LF] kept
                     else out)
               in if ends_with [LF] t \<and> \<not> ends_with [LF] out then out @ [LF] else out)))"

definition estimate_tokens :: "string \<Rightarrow> nat" where
  "estimate_tokens t =
     (let chars = length (chars_of t) in if chars = 0 then 0 else max (div_ceil chars 4) 1)"

definition sat_usize :: "nat \<Rightarrow> nat" where
  "sat_usize n = min n USIZE_MAX"

definition truncate_tokens :: "string \<Rightarrow> nat \<Rightarrow> bool \<Rightarrow> string" where
  "truncate_tokens t max_tokens include_marker =
     (if max_tokens = 0 then []
      else
        (let estimated = estimate_tokens t
         in if estimated \<le> max_tokens then t
            else
              (let max_chars = sat_usize (max_tokens * 4)
               in if max_chars = 0 then []
                  else
                    (let chars = chars_of t
                     in if length chars \<le> max_chars then t
                        else
                          (let head_chars = max_chars div 2; tail_chars = max_chars - head_chars;
                               head = concat (take head_chars chars);
                               tail = concat (drop (length chars - tail_chars) chars);
                               omitted_chars = length chars - (head_chars + tail_chars);
                               omitted_tokens = estimated - max_tokens
                           in if include_marker
                              then head @ [LF] @ ''... (~'' @ show_nat omitted_tokens @ '' tokens / ''
                                @ show_nat omitted_chars @ '' chars omitted) ...'' @ [LF] @ tail
                              else head @ tail)))))"

definition truncate_with :: "bool \<Rightarrow> string \<Rightarrow> truncation_policy \<Rightarrow> string" where
  "truncate_with include_marker t policy =
     (case policy of
        No_Truncation \<Rightarrow> t
      | Lines max_lines \<Rightarrow> truncate_lines t max_lines include_marker
      | Tokens max_tokens \<Rightarrow> truncate_tokens t max_tokens include_marker)"

definition formatted_truncate_text :: "string \<Rightarrow> truncation_policy \<Rightarrow> string" where
  "formatted_truncate_text = truncate_with True"

definition truncate_text :: "string \<Rightarrow> truncation_policy \<Rightarrow> string" where
  "truncate_text = truncate_with False"

section \<open>What is kept\<close>

lemma estimate_le: "estimate_tokens t \<le> n \<longleftrightarrow> length (chars_of t) \<le> 4 * n"
proof -
  have "div_ceil m 4 \<le> n \<longleftrightarrow> m \<le> 4 * n" for m
    by (auto simp: div_ceil_def) presburger+
  moreover have "m \<noteq> 0 \<Longrightarrow> 1 \<le> div_ceil m 4" for m
    by (auto simp: div_ceil_def)
  ultimately show ?thesis
    by (cases "n = 0") (auto simp: estimate_tokens_def Let_def)
qed

lemma truncate_tokens_chars:
  assumes "n * 4 \<le> USIZE_MAX" and "4 * n < length (chars_of t)"
  shows "chars_of (truncate_tokens t n False)
    = take (2 * n) (chars_of t) @ drop (length (chars_of t) - 2 * n) (chars_of t)"
proof (cases "n = 0")
  case False
  have "sat_usize (n * 4) = 4 * n" using assms(1) by (simp add: sat_usize_def)
  then have "truncate_tokens t n False
      = concat (take (2 * n) (chars_of t) @ drop (length (chars_of t) - 2 * n) (chars_of t))"
    using False assms(2) by (simp add: truncate_tokens_def estimate_le Let_def mult.commute)
  moreover have "char_groups (take (2 * n) (chars_of t) @ drop (length (chars_of t) - 2 * n) (chars_of t))"
    using assms(2) by (intro char_groups_ends char_groups_chars) simp
  ultimately show ?thesis by (simp add: chars_of_concat del: concat_append)
qed (simp add: truncate_tokens_def)

lemma truncate_tokens_short: "length (chars_of t) \<le> 4 * n \<Longrightarrow> truncate_tokens t n marker = t"
proof -
  assume short: "length (chars_of t) \<le> 4 * n"
  show ?thesis
  proof (cases "n = 0")
    case True
    then have "chars_of t = []" using short by simp
    then have "t = []" using concat_chars_of [of t] by simp
    then show ?thesis using True by (simp add: truncate_tokens_def)
  next
    case False
    then show ?thesis using short by (simp add: truncate_tokens_def estimate_le Let_def)
  qed
qed

text \<open>A text that is cut by tokens is estimated within the budget; it is the beginning and the end
  of the original, and cutting it again changes nothing.\<close>

lemma truncation_fits:
  assumes "n * 4 \<le> USIZE_MAX"
  shows "estimate_tokens (truncate_text t (Tokens n)) \<le> n
    \<and> (\<exists>a b c. t = a @ b @ c \<and> truncate_text t (Tokens n) = a @ c)
    \<and> truncate_text (truncate_text t (Tokens n)) (Tokens n) = truncate_text t (Tokens n)"
proof (cases "length (chars_of t) \<le> 4 * n")
  case True
  then have "truncate_text t (Tokens n) = t"
    by (simp add: truncate_text_def truncate_with_def truncate_tokens_short)
  moreover have "\<exists>a b c. t = a @ b @ c \<and> t = a @ c"
    by (intro exI [of _ "[]"] exI [of _ t]) simp
  ultimately show ?thesis using True by (simp add: estimate_le)
next
  case False
  let ?cs = "chars_of t" and ?out = "truncate_text t (Tokens n)"
  let ?k = "length ?cs - 2 * n"
  have out: "chars_of ?out = take (2 * n) ?cs @ drop ?k ?cs"
    using truncate_tokens_chars [OF assms, of t] False by (simp add: truncate_text_def truncate_with_def)
  then have small: "length (chars_of ?out) \<le> 4 * n" using False by simp
  have "t = concat (take (2 * n) ?cs) @ concat (take (?k - 2 * n) (drop (2 * n) ?cs)) @ concat (drop ?k ?cs)"
  proof -
    have "drop ?k ?cs = drop (?k - 2 * n) (drop (2 * n) ?cs)" using False by simp
    then have "?cs = take (2 * n) ?cs @ take (?k - 2 * n) (drop (2 * n) ?cs) @ drop ?k ?cs"
      by (metis append_take_drop_id)
    then show ?thesis using arg_cong [of _ _ concat] concat_chars_of by (metis concat_append)
  qed
  moreover have "?out = concat (take (2 * n) ?cs) @ concat (drop ?k ?cs)"
    using arg_cong [OF out, of concat] by simp
  ultimately show ?thesis
    using small by (auto simp: estimate_le truncate_text_def truncate_with_def truncate_tokens_short)
qed

lemma truncation_fits_example:
  "estimate_tokens (truncate_text ''abcdefghij'' (Tokens 1)) \<le> 1
   \<and> truncate_text ''abcdefghij'' (Tokens 1) = ''abij''"
proof
  show "estimate_tokens (truncate_text ''abcdefghij'' (Tokens 1)) \<le> 1"
    using truncation_fits [of 1 "''abcdefghij''"] by (simp add: USIZE_MAX_def)
  have "sat_usize (1 * 4) = 4" by (simp add: sat_usize_def USIZE_MAX_def)
  moreover have "estimate_tokens ''abcdefghij'' = 3" "chars_of ''abcdefghij'' = map (\<lambda>c. [c]) ''abcdefghij''" by code_simp+
  ultimately show "truncate_text ''abcdefghij'' (Tokens 1) = ''abij''"
    by (simp add: truncate_text_def truncate_with_def truncate_tokens_def)
qed

section \<open>The scaled budget\<close>

lemma excess_bits_bounds:
  "n < 2 ^ (53 + excess_bits n) \<and> (excess_bits n = 0 \<or> 2 ^ (52 + excess_bits n) \<le> n)"
proof (induction n rule: excess_bits.induct)
  case (1 n)
  show ?case
  proof (cases "n < 2 ^ 53")
    case True
    then show ?thesis by (simp add: excess_bits.simps)
  next
    case False
    let ?k = "excess_bits (n div 2)"
    have k: "excess_bits n = Suc ?k" using False by (subst excess_bits.simps) simp
    have "n div 2 < 2 ^ (53 + ?k)" "?k = 0 \<or> 2 ^ (52 + ?k) \<le> n div 2" using 1 False by blast+
    then have "n < 2 * 2 ^ (53 + ?k)" "?k = 0 \<or> 2 * 2 ^ (52 + ?k) \<le> n" by linarith+
    with False show ?thesis by (auto simp: k power_add)
  qed
qed

lemma round_half_even_near: "0 < d \<Longrightarrow> 2 * n \<le> 2 * round_half_even n d + d \<and> 2 * round_half_even n d \<le> 2 * n + d"
proof -
  assume "0 < d"
  moreover obtain x y where "n = x + y" "n div d * d = x" "n mod d = y" by (metis div_mult_mod_eq)
  ultimately show ?thesis
    using mod_less_divisor [of d n] by (auto simp: round_half_even_def Let_def)
qed

lemma round_half_even_1 [simp]: "round_half_even n (Suc 0) = n" "round_half_even n 1 = n"
  by (simp_all add: round_half_even_def)

lemma round_half_even_below:
  assumes "n + q = m * d" and "2 * q < d"
  shows "round_half_even n d = m * d"
proof (cases "q = 0")
  case True
  then show ?thesis using assms by (simp add: round_half_even_def)
next
  case False
  then obtain m' where m: "m = Suc m'" using assms by (cases m) auto
  then have n: "n = m' * d + (d - q)" using assms by simp
  have "n div d = m'" using False assms(2) n by (intro div_nat_eqI) (auto simp: mult.commute)
  moreover from this have "n mod d = d - q" using n by (metis add_diff_cancel_left' minus_div_mult_eq_mod)
  moreover have "d < 2 * (d - q)" using assms(2) by simp
  ultimately show ?thesis by (simp add: round_half_even_def m Let_def)
qed

lemma round53_exact: "n < 2 ^ 53 \<Longrightarrow> round53 n = n"
  by (simp add: round53_def excess_bits.simps)

lemma div_ceil_eq: "m * d < R \<Longrightarrow> R \<le> (m + 1) * d \<Longrightarrow> div_ceil R d = m + 1"
proof -
  assume R: "m * d < R" "R \<le> (m + 1) * d"
  show ?thesis
  proof (cases "R = (m + 1) * d")
    case True
    moreover have "0 < d" using R by (cases d) simp_all
    ultimately show ?thesis by (simp only: div_ceil_def) simp
  next
    case False
    then have "R = m * d + (R - m * d)" "R - m * d < d" "0 < R - m * d" using R by auto
    then have "R div d = m" "R mod d \<noteq> 0" by (metis div_mult_self3 div_less add.right_neutral gr_implies_not0,
        metis mod_mult_self3 mod_less less_irrefl)
    then show ?thesis by (simp add: div_ceil_def)
  qed
qed

lemma scaled_1_2:
  assumes n: "n < 2 ^ 50"
  shows "div_ceil (round53 (n * 5404319552844595)) (2 ^ 52) = (6 * n + 4) div 5"
proof -
  define p where "p = n * 5404319552844595"
  define d :: nat where "d = 2 ^ excess_bits p"
  define q where "q = n div 5"
  define r where "r = n mod 5"
  have nqr: "n = 5 * q + r" "r < 5" by (simp_all add: q_def r_def)
  have two52: "(2 :: nat) ^ 52 = 4503599627370496" by simp
  have d0: "0 < d" by (simp add: d_def)
  have upper: "p < 9007199254740992 * d" and lower: "d = 1 \<or> 4503599627370496 * d \<le> p"
    using excess_bits_bounds [of p] by (auto simp: d_def power_add)
  have small: "d = 1 \<or> 5 * d \<le> 6 * n" using lower by (auto simp: p_def)
  have answer: "(6 * n + 4) div 5 = (if r = 0 then 6 * q else 6 * q + r + 1)"
  proof -
    have "6 * n + 4 = 5 * (6 * q) + (6 * r + 4)" using nqr by simp
    then have "(6 * n + 4) div 5 = 6 * q + (6 * r + 4) div 5" by simp
    moreover have "r = 0 \<or> r = 1 \<or> r = 2 \<or> r = 3 \<or> r = 4" using nqr(2) by linarith
    ultimately show ?thesis by auto
  qed
  show ?thesis
  proof (cases "r = 0")
    case True
    have "excess_bits p \<le> 52"
    proof (rule ccontr)
      assume "\<not> excess_bits p \<le> 52"
      then have "(2 :: nat) ^ 53 \<le> d" unfolding d_def by (intro power_increasing) auto
      then show False using small n by auto
    qed
    then have "(2 :: nat) ^ 52 = 2 ^ (52 - excess_bits p) * d"
      by (simp add: d_def flip: power_add)
    then have "p + q = (6 * q * 2 ^ (52 - excess_bits p)) * d"
      using nqr True by (simp add: p_def mult.assoc two52)
    moreover have "2 * q < d" using upper nqr True by (simp add: p_def)
    ultimately have "round53 p = p + q"
      unfolding round53_def d_def [symmetric] by (subst round_half_even_below) simp_all
    moreover have "p + q = 6 * q * 4503599627370496" using nqr True by (simp add: p_def)
    ultimately show ?thesis
      using True by (simp add: answer div_ceil_def flip: p_def)
  next
    case False
    let ?R = "round53 p"
    have near: "d = 1 \<and> ?R = p \<or> d \<noteq> 1 \<and> 2 * p \<le> 2 * ?R + d \<and> 2 * ?R \<le> 2 * p + d"
      using round_half_even_near [OF d0, of p] unfolding round53_def d_def [symmetric]
      by (cases "d = 1") simp_all
    have five: "5 * p + n = 5 * (6 * q + r) * 4503599627370496 + r * 4503599627370496"
      using nqr by (simp add: p_def algebra_simps)
    have "(6 * q + r) * 4503599627370496 < ?R" and "?R \<le> (6 * q + r + 1) * 4503599627370496"
      using near small five False nqr(2) n by auto
    then have "div_ceil ?R 4503599627370496 = 6 * q + r + 1" by (rule div_ceil_eq)
    then show ?thesis using False by (simp add: answer flip: p_def)
  qed
qed

lemma scaled_policy:
  assumes "n < 2 ^ 50"
  shows "mul_policy (Tokens n) f64_1_2 = Tokens ((6 * n + 4) div 5)
    \<and> mul_policy (Lines n) f64_1_2 = Lines ((6 * n + 4) div 5)"
proof -
  have "(6 * n + 4) div 5 \<le> USIZE_MAX" using assms by (simp add: USIZE_MAX_def)
  then show ?thesis
    using assms scaled_1_2 [OF assms]
    by (simp add: mul_policy_def ceil_as_usize_def f64_mult_def f64_of_usize_def f64_1_2_def round53_exact)
qed

text \<open>The budget of a tool's output, 1.2 times the configured one in double precision, is the exact
  value rounded up for every budget below \<open>2 ^ 50\<close>.\<close>

theorem budget_scaled_exactly:
  assumes "n < 2 ^ 50"
  shows "mul_policy (Tokens n) f64_1_2 = Tokens ((6 * n + 4) div 5)
    \<and> mul_policy (Lines n) f64_1_2 = Lines ((6 * n + 4) div 5)"
  using assms by (rule scaled_policy)

theorem budget_scaled_exactly_witness:
  "mul_policy (Tokens DEFAULT_TOOL_OUTPUT_TOKENS) f64_1_2 = Tokens 19661"
  using budget_scaled_exactly [of DEFAULT_TOOL_OUTPUT_TOKENS] by (simp add: DEFAULT_TOOL_OUTPUT_TOKENS_def)

section \<open>Lines\<close>

definition kept_lines :: "string \<Rightarrow> nat \<Rightarrow> string list" where
  "kept_lines t n = take (n div 2) (str_lines t) @ drop (length (str_lines t) - (n - n div 2)) (str_lines t)"

lemma join_append: "xs \<noteq> [] \<Longrightarrow> ys \<noteq> [] \<Longrightarrow> join sep (xs @ ys) = join sep xs @ sep @ join sep ys"
proof (induction xs)
  case (Cons x xs)
  then show ?case by (cases xs; cases ys) auto
qed simp

lemma join_Nil_iff: "join [c] ls = [] \<longleftrightarrow> ls = [] \<or> ls = [[]]"
proof (cases ls)
  case (Cons x xs)
  then show ?thesis by (cases xs) auto
qed simp

text \<open>Cutting by lines keeps the first and the last lines, unless the first part is one empty line,
  whose line feed is lost.\<close>

lemma lines_kept:
  assumes "n < length (str_lines t)" and "take (n div 2) (str_lines t) \<noteq> [[]]"
  shows "truncate_text t (Lines n) \<in> (if n = 0 then {[]} else {join [LF] (kept_lines t n), join [LF] (kept_lines t n) @ [LF]})"
proof (cases "n = 0")
  case True
  then show ?thesis by (simp add: truncate_text_def truncate_with_def truncate_lines_def)
next
  case False
  let ?h = "take (n div 2) (str_lines t)" and ?k = "drop (length (str_lines t) - (n - n div 2)) (str_lines t)"
  have k: "?k \<noteq> []" using assms(1) False by simp
  have "(if join [LF] ?h \<noteq> [] then join [LF] ?h @ [LF] else join [LF] ?h) @ join [LF] ?k = join [LF] (kept_lines t n)"
    using assms(2) k join_append [of ?h ?k "[LF]"] by (auto simp: kept_lines_def join_Nil_iff)
  then show ?thesis
    using False assms(1) k by (simp add: truncate_text_def truncate_with_def truncate_lines_def Let_def)
qed

lemma first_line_lost: "truncate_text (LF # ''b'' @ [LF] @ ''c'') (Lines 2) = ''c'' \<and> kept_lines (LF # ''b'' @ [LF] @ ''c'') 2 = [[], ''c'']"
  by code_simp

end
