(* ===== verification/TurnModel.thy ===== *)
theory TurnModel
  imports TextFilter SessionHistory Truncate
begin

text \<open>
  The state on which a turn of a session runs, and one sampling request with its retries
  (\<open>core/src/turn/sse_executor.rs\<close>, \<open>core/src/session/mod.rs\<close>, \<open>core/src/turn/response_items.rs\<close>).

  The outside world is an argument: what a request to the model answers, event by event, when the
  turn is cancelled, and how many events the client still takes. The events of a turn all
  carry the identifiers of the thread and of the turn, which are left out, as are the debug texts of
  errors, the provider's signature of a call and the text that displays a command.
\<close>

section \<open>Steps that may fail\<close>

definition give :: "'a \<Rightarrow> 's \<Rightarrow> ('e + 'a) \<times> 's" where
  "give x s = (Inr x, s)"

definition failing :: "'e \<Rightarrow> 's \<Rightarrow> ('e + 'a) \<times> 's" where
  "failing e s = (Inl e, s)"

definition change :: "('s \<Rightarrow> 's) \<Rightarrow> 's \<Rightarrow> ('e + unit) \<times> 's" where
  "change f s = (Inr (), f s)"

definition try_do :: "('s \<Rightarrow> ('e + 'a) \<times> 's) \<Rightarrow> ('a \<Rightarrow> 's \<Rightarrow> ('e + 'b) \<times> 's) \<Rightarrow> 's \<Rightarrow> ('e + 'b) \<times> 's" where
  "try_do m k s = (case m s of (Inl e, s1) \<Rightarrow> (Inl e, s1) | (Inr x, s1) \<Rightarrow> k x s1)"

primrec for_each :: "('a \<Rightarrow> 's \<Rightarrow> ('e + unit) \<times> 's) \<Rightarrow> 'a list \<Rightarrow> 's \<Rightarrow> ('e + unit) \<times> 's" where
  "for_each f [] = give ()"
| "for_each f (x # xs) = try_do (f x) (\<lambda>_. for_each f xs)"

text \<open>Where \<open>P\<close> holds before a step, \<open>Q\<close> holds of its result and the new state, and \<open>E\<close> of the
  error and the state that a failure leaves.\<close>

definition outcome :: "('s \<Rightarrow> bool) \<Rightarrow> ('s \<Rightarrow> ('e + 'a) \<times> 's) \<Rightarrow> ('a \<Rightarrow> 's \<Rightarrow> bool) \<Rightarrow> ('e \<Rightarrow> 's \<Rightarrow> bool) \<Rightarrow> bool" where
  "outcome P m Q E \<longleftrightarrow> (\<forall>s. P s \<longrightarrow> (case m s of (Inl e, s') \<Rightarrow> E e s' | (Inr x, s') \<Rightarrow> Q x s'))"

named_theorems outcome_rules \<open>the outcome of steps\<close>

lemma outcome_give [outcome_rules]: "(\<And>s. P s \<Longrightarrow> Q x s) \<Longrightarrow> outcome P (give x) Q E"
  by (simp add: outcome_def give_def)

lemma outcome_failing [outcome_rules]: "(\<And>s. P s \<Longrightarrow> E e s) \<Longrightarrow> outcome P (failing e) Q E"
  by (simp add: outcome_def failing_def)

lemma outcome_change [outcome_rules]: "(\<And>s. P s \<Longrightarrow> Q () (f s)) \<Longrightarrow> outcome P (change f) Q E"
  by (simp add: outcome_def change_def)

lemma outcome_try [outcome_rules]:
  "outcome P m R E \<Longrightarrow> (\<And>x. outcome (R x) (k x) Q E) \<Longrightarrow> outcome P (try_do m k) Q E"
  by (fastforce simp: outcome_def try_do_def split: prod.splits sum.splits)

lemma outcome_if [outcome_rules]:
  "(b \<Longrightarrow> outcome P m Q E) \<Longrightarrow> (\<not> b \<Longrightarrow> outcome P n Q E) \<Longrightarrow> outcome P (if b then m else n) Q E"
  by simp

lemma outcome_for_each [outcome_rules]:
  "(\<And>x. x \<in> set xs \<Longrightarrow> outcome P (f x) (\<lambda>_. P) E) \<Longrightarrow> outcome P (for_each f xs) (\<lambda>_. P) E"
  by (induction xs) (auto intro!: outcome_give intro: outcome_try)

lemma outcome_weaken:
  "outcome P m Q E \<Longrightarrow> (\<And>s. P' s \<Longrightarrow> P s) \<Longrightarrow> (\<And>x s. Q x s \<Longrightarrow> Q' x s) \<Longrightarrow> (\<And>e s. E e s \<Longrightarrow> E' e s)
     \<Longrightarrow> outcome P' m Q' E'"
  by (fastforce simp: outcome_def split: prod.splits sum.splits)

lemma outcome_assuming: "(Q \<Longrightarrow> outcome P m R E) \<Longrightarrow> outcome (\<lambda>s. P s \<and> Q) m R E"
  by (auto simp: outcome_def)

lemma outcomeD: "outcome P m Q E \<Longrightarrow> P s \<Longrightarrow> case m s of (Inl e, s') \<Rightarrow> E e s' | (Inr x, s') \<Rightarrow> Q x s'"
  by (simp add: outcome_def)

lemma outcomeI: "(\<And>s. P s \<Longrightarrow> case m s of (Inl e, s') \<Rightarrow> E e s' | (Inr x, s') \<Rightarrow> Q x s') \<Longrightarrow> outcome P m Q E"
  by (simp add: outcome_def)

lemma outcome_Inl: "outcome P m Q E \<Longrightarrow> P s \<Longrightarrow> m s = (Inl e, s') \<Longrightarrow> E e s'"
  by (fastforce simp: outcome_def)

lemma outcome_Inr: "outcome P m Q E \<Longrightarrow> P s \<Longrightarrow> m s = (Inr x, s') \<Longrightarrow> Q x s'"
  by (fastforce simp: outcome_def)

lemma outcome_any: "outcome P m (\<lambda>_. I) (\<lambda>_. I) \<Longrightarrow> P s \<Longrightarrow> m s = (r, s') \<Longrightarrow> I s'"
  by (cases r) (auto dest: outcome_Inl outcome_Inr)

section \<open>Inputs, response items, errors\<close>

datatype user_input =
    UI_Text string
  | UI_Image string
  | UI_LocalImage string
  | UI_Skill string string
  | UI_Mention string string

definition user_message :: "user_input list \<Rightarrow> string" where
  "user_message content = join [LF] (List.map_filter (\<lambda>i. case i of UI_Text s \<Rightarrow> Some s | _ \<Rightarrow> None) content)"

datatype response_item =
    RI_Message string string
  | RI_FunctionCall string string string
  | RI_FunctionCallOutput string string bool

fun from_model_message :: "message \<Rightarrow> response_item" where
  "from_model_message (Msg_System content) = RI_Message ''system'' content"
| "from_model_message (Msg_User content) = RI_Message ''user'' content"
| "from_model_message (Msg_Assistant content _) = RI_Message ''assistant'' (case content of None \<Rightarrow> [] | Some c \<Rightarrow> c)"
| "from_model_message (Msg_Tool tool_call_id content) = RI_FunctionCallOutput tool_call_id content False"

definition from_function_call_event :: "function_call_event \<Rightarrow> response_item" where
  "from_function_call_event call = RI_FunctionCall (fc_id call) (fc_name call) (fc_arguments call)"

datatype turn_error =
    TE_Model model_error
  | TE_Tool string
  | TE_ToolNotFound string
  | TE_Session string
  | TE_ContextWindowExceeded
  | TE_Aborted
  | TE_Stream string
  | TE_Fatal string

definition is_retryable :: "turn_error \<Rightarrow> bool" where
  "is_retryable e \<longleftrightarrow> (case e of TE_Stream _ \<Rightarrow> True | _ \<Rightarrow> False)"

definition map_stream_model_error :: "model_error \<Rightarrow> turn_error" where
  "map_stream_model_error err = (case err of StreamError msg \<Rightarrow> TE_Stream msg | _ \<Rightarrow> TE_Model err)"

definition contains_context_overflow_hint :: "string \<Rightarrow> bool" where
  "contains_context_overflow_hint msg =
     list_ex (\<lambda>needle. str_contains needle (to_ascii_lowercase msg))
       [''context length'', ''maximum context'', ''context window'', ''too long'', ''too many tokens'',
        ''maximum number of tokens'', ''prompt is too long'', ''context_limit_exceeded'']"

definition is_context_overflow_error :: "turn_error \<Rightarrow> bool" where
  "is_context_overflow_error err =
     (case err of
        TE_ContextWindowExceeded \<Rightarrow> True
      | TE_Model (ContextLimitExceeded _) \<Rightarrow> True
      | TE_Model (ApiError msg) \<Rightarrow> contains_context_overflow_hint msg
      | TE_Model (InvalidRequest msg) \<Rightarrow> contains_context_overflow_hint msg
      | TE_Model (StreamError msg) \<Rightarrow> contains_context_overflow_hint msg
      | TE_Stream msg \<Rightarrow> contains_context_overflow_hint msg
      | _ \<Rightarrow> False)"

definition backoff :: "nat \<Rightarrow> nat" where
  "backoff retries = max (2 ^ (min retries 5 - 1)) 1"

section \<open>The session and its client\<close>

datatype compaction_reason = Overflow | Threshold | Manual

datatype turn_event =
    TurnStarted
  | TurnCompleted
  | TurnErrored turn_error
  | TurnAborted string
  | Ev_Error turn_error
  | UserItemStarted "user_input list"
  | UserItemCompleted "user_input list"
  | AgentItemStarted string
  | AgentItemCompleted string "string list"
  | ContentDelta string string
  | TokenCount int int int int int
  | Ev_Warning string
  | ContextCompacted compaction_reason nat nat
  | ExecCommandBegin string string

record token_usage_state =
  tu_input_tokens :: "64 word"
  tu_output_tokens :: "64 word"
  tu_total_tokens :: "64 word"

record session =
  ss_history :: "message list"
  ss_response_history :: "response_item list"
  ss_turn :: "user_input active_turn_state"
  ss_usage :: token_usage_state
  ss_events :: "turn_event list"

definition append_message :: "message \<Rightarrow> session \<Rightarrow> session" where
  "append_message msg s = s\<lparr>ss_history := ss_history s @ [msg]\<rparr>"

definition append_response_items :: "response_item list \<Rightarrow> session \<Rightarrow> session" where
  "append_response_items items s = s\<lparr>ss_response_history := ss_response_history s @ items\<rparr>"

definition replace_history :: "message list \<Rightarrow> session \<Rightarrow> session" where
  "replace_history messages s = s\<lparr>ss_history := messages\<rparr>"

definition emit_event :: "turn_event \<Rightarrow> session \<Rightarrow> session" where
  "emit_event ev s = s\<lparr>ss_events := ss_events s @ [ev]\<rparr>"

definition set_token_usage :: "usage \<Rightarrow> session \<Rightarrow> session" where
  "set_token_usage us s = s\<lparr>ss_usage := \<lparr>tu_input_tokens = of_nat (us_input_tokens us),
     tu_output_tokens = of_nat (us_output_tokens us), tu_total_tokens = of_nat (us_total_tokens us)\<rparr>\<rparr>"

definition update_token_usage :: "usage \<Rightarrow> session \<Rightarrow> session" where
  "update_token_usage us s = s\<lparr>ss_usage := \<lparr>tu_input_tokens = tu_input_tokens (ss_usage s) + of_nat (us_input_tokens us),
     tu_output_tokens = tu_output_tokens (ss_usage s) + of_nat (us_output_tokens us),
     tu_total_tokens = tu_total_tokens (ss_usage s) + of_nat (us_total_tokens us)\<rparr>\<rparr>"

text \<open>
  The world of a turn: the session, how many events the client's channel still takes before it is
  closed (\<open>None\<close>: it stays open), the messages of the requests that were sent, and the steering
  inputs that were accepted.
\<close>

record turn_world =
  tw_session :: session
  tw_room :: "nat option"
  tw_requests :: "message list list"
  tw_accepted :: "user_input list list"

abbreviation on_session :: "(session \<Rightarrow> session) \<Rightarrow> turn_world \<Rightarrow> turn_world" where
  "on_session f w \<equiv> w\<lparr>tw_session := f (tw_session w)\<rparr>"

abbreviation tw_history :: "turn_world \<Rightarrow> message list" where
  "tw_history w \<equiv> ss_history (tw_session w)"

definition send_event :: "turn_event \<Rightarrow> turn_world \<Rightarrow> (turn_error + unit) \<times> turn_world" where
  "send_event ev w =
     (let w1 = on_session (emit_event ev) w
      in case tw_room w of
           None \<Rightarrow> (Inr (), w1)
         | Some 0 \<Rightarrow> (Inl (TE_Session ''failed to send event: channel closed''), w1)
         | Some (Suc n) \<Rightarrow> (Inr (), w1\<lparr>tw_room := Some n\<rparr>))"

text \<open>A message goes into both histories.\<close>

definition record_message :: "message \<Rightarrow> turn_world \<Rightarrow> turn_world" where
  "record_message msg w =
     on_session (append_response_items [from_model_message msg]) (on_session (append_message msg) w)"

section \<open>One request\<close>

record response_token_usage =
  ru_input_tokens :: int
  ru_cached_input_tokens :: int
  ru_output_tokens :: int
  ru_reasoning_output_tokens :: int
  ru_total_tokens :: int

datatype response_event =
    RE_ContentDelta string
  | RE_FunctionCall function_call_event
  | RE_Completed "response_token_usage option"
  | RE_EndTurn
  | RE_Error string
  | RE_Other

text \<open>What the stream gives when it is polled; a list that is at its end is a stream that is.\<close>

datatype poll = Poll_Cancelled | Poll_Item "model_error + response_event"

text \<open>The conversion \<open>as u32\<close> of a count that is not negative.\<close>

definition as_u32 :: "int \<Rightarrow> nat" where
  "as_u32 i = nat (max i 0 mod 2 ^ 32)"

definition count_tokens :: "response_token_usage \<Rightarrow> turn_world \<Rightarrow> (turn_error + unit) \<times> turn_world" where
  "count_tokens us = try_do
     (change (on_session (set_token_usage \<lparr>us_input_tokens = as_u32 (ru_input_tokens us),
        us_output_tokens = as_u32 (ru_output_tokens us), us_total_tokens = as_u32 (ru_total_tokens us)\<rparr>)))
     (\<lambda>_. send_event (TokenCount (max (ru_input_tokens us) 0) (max (ru_cached_input_tokens us) 0)
        (max (ru_output_tokens us) 0) (max (ru_reasoning_output_tokens us) 0) (max (ru_total_tokens us) 0)))"

record sampling_result =
  sr_assistant_delta :: string
  sr_function_calls :: "function_call_event list"

fun read_stream :: "string \<Rightarrow> poll list \<Rightarrow> string \<Rightarrow> function_call_event list \<Rightarrow> function_calls_text_filter
    \<Rightarrow> turn_world \<Rightarrow> (turn_error + sampling_result) \<times> turn_world" where
  "read_stream item_id [] delta calls flt' =
     give \<lparr>sr_assistant_delta = delta, sr_function_calls = calls\<rparr>"
| "read_stream item_id (p # ps) delta calls flt' =
     (case p of
        Poll_Cancelled \<Rightarrow> failing TE_Aborted
      | Poll_Item (Inl err) \<Rightarrow> failing (map_stream_model_error err)
      | Poll_Item (Inr ev) \<Rightarrow>
          (case ev of
             RE_ContentDelta t \<Rightarrow>
               if t = [] then read_stream item_id ps delta calls flt'
               else
                 (let (flt1, visible) = filter_visible t flt'
                  in if visible = [] then read_stream item_id ps (delta @ t) calls flt1
                     else try_do (send_event (ContentDelta item_id visible))
                       (\<lambda>_. read_stream item_id ps (delta @ t) calls flt1))
           | RE_FunctionCall call \<Rightarrow> read_stream item_id ps delta (calls @ [call]) flt'
           | RE_Completed None \<Rightarrow> read_stream item_id ps delta calls flt'
           | RE_Completed (Some us) \<Rightarrow> try_do (count_tokens us) (\<lambda>_. read_stream item_id ps delta calls flt')
           | RE_EndTurn \<Rightarrow> give \<lparr>sr_assistant_delta = delta, sr_function_calls = calls\<rparr>
           | RE_Error msg \<Rightarrow> failing (TE_Model (StreamError msg))
           | RE_Other \<Rightarrow> read_stream item_id ps delta calls flt'))"

text \<open>What an attempt meets: the look-up of the model's runtime, the opening of the stream, its polls.\<close>

record attempt =
  at_runtime_info :: "model_error option"
  at_stream :: "model_error + poll list"

definition try_run_sampling_request ::
  "attempt \<Rightarrow> string \<Rightarrow> message list \<Rightarrow> turn_world \<Rightarrow> (turn_error + sampling_result) \<times> turn_world" where
  "try_run_sampling_request a item_id messages =
     (case at_runtime_info a of
        Some err \<Rightarrow> failing (TE_Model err)
      | None \<Rightarrow> try_do (change (\<lambda>w. w\<lparr>tw_requests := tw_requests w @ [messages]\<rparr>))
          (\<lambda>_. case at_stream a of
             Inl err \<Rightarrow> failing (map_stream_model_error err)
           | Inr polls \<Rightarrow> read_stream item_id polls [] [] new_filter))"

section \<open>Compaction within a turn\<close>

record turn_config =
  tc_model :: string
  tc_system_prompt :: "string option"
  tc_enable_tools :: bool
  tc_cwd :: string
  tc_tool_output_truncation :: truncation_policy
  tc_context_window_limit :: "nat option"
  tc_compaction :: compaction_settings

text \<open>The parameters of a turn: the parser of serde_json, its error a text, the rendering of
  arguments that were written as text, and the model that summarises.\<close>

record turn_lib =
  tl_from_str :: "string \<Rightarrow> string + json"
  tl_to_json :: "(string \<times> string) list \<Rightarrow> string option"
  tl_chat :: chat_model

definition json_of :: "turn_lib \<Rightarrow> string \<Rightarrow> json option" where
  "json_of lib s = (case tl_from_str lib s of Inl _ \<Rightarrow> None | Inr v \<Rightarrow> Some v)"

definition rebuild_messages_from_session :: "turn_config \<Rightarrow> message list \<Rightarrow> session \<Rightarrow> message list" where
  "rebuild_messages_from_session cfg prompt_prefix s =
     (if prompt_prefix = [] then (case tc_system_prompt cfg of None \<Rightarrow> [] | Some p \<Rightarrow> [Msg_System p]) else prompt_prefix)
     @ (case tc_context_window_limit cfg of
          Some context_limit \<Rightarrow> get_history_for_prompt (ss_history s) context_limit
        | None \<Rightarrow> get_history (ss_history s) 100)"

text \<open>The result is the new messages, if there are any.\<close>

definition compact_messages :: "turn_lib \<Rightarrow> turn_config \<Rightarrow> message list \<Rightarrow> message list \<Rightarrow> compaction_reason
    \<Rightarrow> turn_world \<Rightarrow> (turn_error + message list option) \<times> turn_world" where
  "compact_messages lib cfg prompt_prefix messages reason w =
     (if \<not> cs_enabled (tc_compaction cfg) then (Inr None, w)
      else
        (let history = tw_history w
         in if prepare_compaction (json_of lib) history (tc_compaction cfg) = None then (Inr None, w)
            else (case compact_history_with_summary (json_of lib) (tl_chat lib) (tc_model cfg) history (tc_compaction cfg) of
                Inl err \<Rightarrow> (Inl (TE_Model err), w)
              | Inr None \<Rightarrow> (Inr None, w)
              | Inr (Some compaction) \<Rightarrow>
                  (let w1 = on_session (update_token_usage (ac_usage compaction)) w;
                       w2 = on_session (replace_history (ac_compacted_history compaction)) w1;
                       rebuilt = rebuild_messages_from_session cfg prompt_prefix (tw_session w2)
                   in try_do (send_event (ContextCompacted reason (estimate_messages_tokens messages)
                          (estimate_messages_tokens rebuilt)))
                        (\<lambda>_. give (Some rebuilt)) w2))))"

definition maybe_run_auto_compact ::
  "turn_lib \<Rightarrow> turn_config \<Rightarrow> message list \<Rightarrow> message list \<Rightarrow> turn_world \<Rightarrow> (turn_error + message list) \<times> turn_world" where
  "maybe_run_auto_compact lib cfg prompt_prefix messages =
     (if \<not> cs_enabled (tc_compaction cfg) then give messages
      else case tc_context_window_limit cfg of
        None \<Rightarrow> give messages
      | Some limit \<Rightarrow>
          (let threshold = limit - cs_reserve_tokens (tc_compaction cfg)
           in if threshold = 0 \<or> estimate_messages_tokens messages < threshold then give messages
              else try_do (compact_messages lib cfg prompt_prefix messages Threshold)
                (\<lambda>rebuilt. give (case rebuilt of None \<Rightarrow> messages | Some ms \<Rightarrow> ms))))"

section \<open>Retries\<close>

definition max_retries :: nat where "max_retries = 3"

definition max_overflow_retries :: nat where "max_overflow_retries = 2"

text \<open>The attempts from the \<open>i\<close>-th on; the result carries the messages, which a compaction
  replaces.\<close>

function sampling_loop :: "turn_lib \<Rightarrow> turn_config \<Rightarrow> message list \<Rightarrow> string \<Rightarrow> (nat \<Rightarrow> attempt) \<Rightarrow> nat \<Rightarrow> nat \<Rightarrow> nat
    \<Rightarrow> message list \<Rightarrow> turn_world \<Rightarrow> (turn_error + sampling_result \<times> message list) \<times> turn_world" where
  "sampling_loop lib cfg prompt_prefix item_id attempts i retries overflow_retries messages w =
     (case try_run_sampling_request (attempts i) item_id messages w of
        (Inr output, w1) \<Rightarrow> (Inr (output, messages), w1)
      | (Inl err, w1) \<Rightarrow>
          if is_context_overflow_error err \<and> overflow_retries < max_overflow_retries
          then (case compact_messages lib cfg prompt_prefix messages Overflow w1 of
              (Inl e, w2) \<Rightarrow> (Inl e, w2)
            | (Inr None, w2) \<Rightarrow> (Inl err, w2)
            | (Inr (Some rebuilt), w2) \<Rightarrow>
                sampling_loop lib cfg prompt_prefix item_id attempts (i + 1) 0 (overflow_retries + 1) rebuilt w2)
          else if is_retryable err \<and> retries < max_retries
          then (case send_event (Ev_Warning (''Reconnecting... '' @ show_nat (retries + 1) @ ''/'' @ show_nat max_retries)) w1 of
              (Inl e, w2) \<Rightarrow> (Inl e, w2)
            | (Inr _, w2) \<Rightarrow>
                sampling_loop lib cfg prompt_prefix item_id attempts (i + 1) (retries + 1) overflow_retries messages w2)
          else (Inl err, w1))"
  by pat_completeness auto
termination
  by (relation "measures [\<lambda>(_, _, _, _, _, _, _, ov, _, _). max_overflow_retries - ov,
      \<lambda>(_, _, _, _, _, _, r, _, _, _). max_retries - r]") auto

declare sampling_loop.simps [simp del]

definition run_sampling_request :: "turn_lib \<Rightarrow> turn_config \<Rightarrow> message list \<Rightarrow> string \<Rightarrow> (nat \<Rightarrow> attempt)
    \<Rightarrow> message list \<Rightarrow> turn_world \<Rightarrow> (turn_error + sampling_result \<times> message list) \<times> turn_world" where
  "run_sampling_request lib cfg prompt_prefix item_id attempts messages =
     sampling_loop lib cfg prompt_prefix item_id attempts 0 0 0 messages"

end
