(* ===== verification/TurnRounds.thy ===== *)
theory TurnRounds
  imports TurnModel
begin

text \<open>
  The rounds of a turn (\<open>SseTurnExecutor::run_sse_interaction\<close> of \<open>core/src/turn/sse_executor.rs\<close>) and the
  turn around them (\<open>TurnExecutor::run_turn_with_id\<close> of \<open>core/src/turn/executor.rs\<close>). A round takes
  the steering inputs, asks the model, runs the tools that it called and records what they answered;
  a round without calls ends the turn.
\<close>

section \<open>Tools\<close>

datatype function_call_error =
    FCE_InvalidArguments string
  | FCE_ToolNotFound string
  | FCE_PermissionDenied string
  | FCE_Validation string
  | FCE_RespondToModel string
  | FCE_Fatal string
  | FCE_Execution string
  | FCE_Other string

definition is_fatal :: "function_call_error \<Rightarrow> bool" where
  "is_fatal e \<longleftrightarrow> (case e of FCE_Fatal _ \<Rightarrow> True | _ \<Rightarrow> False)"

fun fce_message :: "function_call_error \<Rightarrow> string" where
  "fce_message (FCE_InvalidArguments msg) = msg"
| "fce_message (FCE_ToolNotFound msg) = msg"
| "fce_message (FCE_PermissionDenied msg) = msg"
| "fce_message (FCE_Validation msg) = msg"
| "fce_message (FCE_RespondToModel msg) = msg"
| "fce_message (FCE_Fatal msg) = msg"
| "fce_message (FCE_Execution msg) = msg"
| "fce_message (FCE_Other msg) = msg"

text \<open>The result of an MCP call is its rendering by serde_json, or the message of its error.\<close>

datatype tool_output =
    Out_Function string string "bool option"
  | Out_Mcp string "string + string"

definition output_error :: "string \<Rightarrow> tool_output" where
  "output_error content = Out_Function [] content (Some False)"

fun with_id :: "string \<Rightarrow> tool_output \<Rightarrow> tool_output" where
  "with_id id' (Out_Function _ body success) = Out_Function id' body success"
| "with_id id' (Out_Mcp _ r) = Out_Mcp id' r"

fun output_id :: "tool_output \<Rightarrow> string" where
  "output_id (Out_Function id' _ _) = id'"
| "output_id (Out_Mcp id' _) = id'"

fun text_content :: "tool_output \<Rightarrow> string" where
  "text_content (Out_Function _ body _) = body"
| "text_content (Out_Mcp _ (Inl msg)) = msg"
| "text_content (Out_Mcp _ (Inr rendered)) = rendered"

fun output_is_error :: "tool_output \<Rightarrow> bool" where
  "output_is_error (Out_Function _ _ success) \<longleftrightarrow> success = Some False"
| "output_is_error (Out_Mcp _ r) \<longleftrightarrow> (case r of Inl _ \<Rightarrow> True | Inr _ \<Rightarrow> False)"

text \<open>What the execution of one call meets: the look-up of the model's runtime, and what the tool
  runtime answers; a call that is cancelled answers with a fatal error.\<close>

record tool_reply =
  tr_runtime_info :: "model_error option"
  tr_answer :: "function_call_error + tool_output"

definition execute_tool_call :: "turn_lib \<Rightarrow> tool_reply \<Rightarrow> function_call_event \<Rightarrow> turn_error + string \<times> tool_output" where
  "execute_tool_call lib reply call =
     (case tl_from_str lib (fc_arguments call) of
        Inl err \<Rightarrow> Inr (fc_id call, with_id (fc_id call) (output_error (''invalid tool arguments: '' @ err)))
      | Inr _ \<Rightarrow>
          (case tr_runtime_info reply of
             Some err \<Rightarrow> Inl (TE_Model err)
           | None \<Rightarrow>
               (case tr_answer reply of
                  Inr output \<Rightarrow> Inr (fc_id call, if output_id output = [] then with_id (fc_id call) output else output)
                | Inl err \<Rightarrow>
                    if is_fatal err then Inl (TE_Fatal (fce_message err))
                    else Inr (fc_id call, with_id (fc_id call) (output_error (fce_message err))))))"

definition to_model_tool_call :: "function_call_event \<Rightarrow> model_tool_call" where
  "to_model_tool_call call = \<lparr>mt_id = fc_id call, mt_call_type = fc_call_type call,
     mt_function = \<lparr>tf_name = fc_name call, tf_arguments = fc_arguments call\<rparr>\<rparr>"

definition should_emit_exec_events :: "string \<Rightarrow> bool" where
  "should_emit_exec_events tool_name \<longleftrightarrow>
     tool_name \<notin> set [''spawn_agent'', ''send_input'', ''wait'', ''close_agent'', ''cleanup_team'', ''team_status'',
       ''ack_team_message'', ''watch_team_inbox'', ''send_team_message'', ''send_team_nudge'', ''read_team_messages'',
       ''create_team_task'', ''update_team_task'', ''assign_team_task'', ''claim_team_task'', ''claim_ready_task'',
       ''list_ready_tasks'', ''claim_next_team_task'', ''claim_team_messages'', ''add_task_dependency'',
       ''remove_task_dependency'', ''block_task'', ''unblock_task'', ''release_task_leases'', ''force_release_lease'',
       ''handoff_team_task'', ''submit_team_plan'', ''approve_team_plan'']"

definition begin_call :: "function_call_event \<Rightarrow> turn_world \<Rightarrow> (turn_error + unit) \<times> turn_world" where
  "begin_call call =
     (if should_emit_exec_events (fc_name call) then send_event (ExecCommandBegin (fc_id call) (fc_name call))
      else give ())"

text \<open>The message for one answer, and recording it.\<close>

definition tool_message :: "turn_config \<Rightarrow> string \<Rightarrow> tool_output \<Rightarrow> message" where
  "tool_message cfg call_id output =
     Msg_Tool (if output_id output = [] then call_id else output_id output)
       (truncate_text (text_content output) (mul_policy (tc_tool_output_truncation cfg) f64_1_2))"

definition record_tool_output :: "turn_config \<Rightarrow> string \<Rightarrow> tool_output \<Rightarrow> turn_world \<Rightarrow> turn_world" where
  "record_tool_output cfg call_id output w =
     (let tool_msg = tool_message cfg call_id output
      in on_session (append_response_items [RI_FunctionCallOutput call_id
             (case msg_text tool_msg of Some t \<Rightarrow> t | None \<Rightarrow> []) (output_is_error output)])
           (on_session (append_message tool_msg) w))"

text \<open>The answers are recorded in the order of the calls, whichever tool ends first; the messages
  grow with the history.\<close>

fun run_tool_calls :: "turn_lib \<Rightarrow> turn_config \<Rightarrow> (nat \<Rightarrow> function_call_event \<Rightarrow> tool_reply) \<Rightarrow> nat \<Rightarrow> function_call_event list \<Rightarrow> message list
    \<Rightarrow> turn_world \<Rightarrow> (turn_error + message list) \<times> turn_world" where
  "run_tool_calls lib cfg replies i [] messages = give messages"
| "run_tool_calls lib cfg replies i (call # calls) messages =
     (case execute_tool_call lib (replies i call) call of
        Inl err \<Rightarrow> failing err
      | Inr (call_id, output) \<Rightarrow>
          try_do (change (record_tool_output cfg call_id output))
            (\<lambda>_. run_tool_calls lib cfg replies (i + 1) calls (messages @ [tool_message cfg call_id output])))"

section \<open>Steering\<close>

text \<open>Inputs that arrive while the turn runs, in order.\<close>

fun steer_all :: "(string option \<times> user_input list) list \<Rightarrow> turn_world \<Rightarrow> turn_world" where
  "steer_all [] w = w"
| "steer_all ((expected, items) # rest) w =
     (case steer_input expected items (ss_turn (tw_session w)) of
        (Inl _, _) \<Rightarrow> steer_all rest w
      | (Inr _, t) \<Rightarrow>
          steer_all rest (on_session (\<lambda>s. s\<lparr>ss_turn := t\<rparr>) (w\<lparr>tw_accepted := tw_accepted w @ [items]\<rparr>)))"

fun take_inputs :: "user_input list list \<Rightarrow> message list \<Rightarrow> turn_world \<Rightarrow> (turn_error + message list) \<times> turn_world" where
  "take_inputs [] messages = give messages"
| "take_inputs (items # rest) messages =
     try_do (send_event (UserItemStarted items))
       (\<lambda>_. try_do (change (record_message (Msg_User (user_message items))))
         (\<lambda>_. try_do (send_event (UserItemCompleted items))
           (\<lambda>_. take_inputs rest (messages @ [Msg_User (user_message items)]))))"

definition drain_inputs :: "message list \<Rightarrow> turn_world \<Rightarrow> (turn_error + message list) \<times> turn_world" where
  "drain_inputs messages w =
     (let (inputs, t) = take_pending_inputs (ss_turn (tw_session w))
      in take_inputs inputs messages (on_session (\<lambda>s. s\<lparr>ss_turn := t\<rparr>) w))"

section \<open>A round\<close>

text \<open>What a round meets: whether the turn was cancelled before it, the inputs that arrive before
  and after it looks for them, the identifier of its item, the attempts and the tools.\<close>

record round_env =
  rd_cancelled :: bool
  rd_steers :: "(string option \<times> user_input list) list"
  rd_late_steers :: "(string option \<times> user_input list) list"
  rd_item_id :: string
  rd_attempts :: "nat \<Rightarrow> attempt"
  rd_replies :: "nat \<Rightarrow> function_call_event \<Rightarrow> tool_reply"

definition nonempty :: "'a list \<Rightarrow> 'a list option" where
  "nonempty xs = (if xs = [] then None else Some xs)"

text \<open>Calls that the model wrote as text.\<close>

definition calls_of_answer :: "turn_lib \<Rightarrow> turn_config \<Rightarrow> sampling_result \<Rightarrow> sampling_result" where
  "calls_of_answer lib cfg r =
     (if sr_function_calls r = [] \<and> tc_enable_tools cfg \<and> str_contains START_TAG (sr_assistant_delta r)
      then (let parsed = parse_text_function_calls (tl_to_json lib) (sr_assistant_delta r)
            in if pt_calls parsed \<noteq> []
               then \<lparr>sr_assistant_delta = pt_visible_text parsed, sr_function_calls = pt_calls parsed\<rparr> else r)
      else r)"

definition assistant_message :: "sampling_result \<Rightarrow> message" where
  "assistant_message r = Msg_Assistant (nonempty (sr_assistant_delta r))
     (map_option (map to_model_tool_call) (nonempty (sr_function_calls r)))"

definition item_content :: "string \<Rightarrow> string list" where
  "item_content t = (if t = [] then [] else [t])"

datatype round_result = Turn_Finished string | Turn_Goes_On string "message list"

definition answer_round :: "turn_lib \<Rightarrow> turn_config \<Rightarrow> round_env \<Rightarrow> string \<Rightarrow> message list \<Rightarrow> sampling_result
    \<Rightarrow> turn_world \<Rightarrow> (turn_error + round_result) \<times> turn_world" where
  "answer_round lib cfg rd final_content messages r =
     (let final_content = final_content @ sr_assistant_delta r;
          calls = sr_function_calls r;
          messages = messages @ [assistant_message r]
      in try_do (change (record_message (assistant_message r))) (\<lambda>_.
         try_do (change (on_session (append_response_items (map from_function_call_event calls)))) (\<lambda>_.
         if calls = []
         then try_do (send_event (AgentItemCompleted (rd_item_id rd) (item_content final_content)))
                (\<lambda>_. give (Turn_Finished final_content))
         else
           try_do (for_each begin_call calls) (\<lambda>_.
           try_do (run_tool_calls lib cfg (rd_replies rd) 0 calls messages) (\<lambda>messages.
           try_do (send_event (AgentItemCompleted (rd_item_id rd) (item_content (sr_assistant_delta r)))) (\<lambda>_.
           give (Turn_Goes_On final_content messages)))))))"

definition sse_round :: "turn_lib \<Rightarrow> turn_config \<Rightarrow> message list \<Rightarrow> round_env \<Rightarrow> string \<Rightarrow> message list
    \<Rightarrow> turn_world \<Rightarrow> (turn_error + round_result) \<times> turn_world" where
  "sse_round lib cfg prompt_prefix rd final_content messages =
     (if rd_cancelled rd then failing TE_Aborted
      else
        try_do (change (steer_all (rd_steers rd))) (\<lambda>_.
        try_do (drain_inputs messages) (\<lambda>messages.
        try_do (maybe_run_auto_compact lib cfg prompt_prefix messages) (\<lambda>messages.
        try_do (send_event (AgentItemStarted (rd_item_id rd))) (\<lambda>_.
        try_do (run_sampling_request lib cfg prompt_prefix (rd_item_id rd) (rd_attempts rd) messages) (\<lambda>(r, messages).
        try_do (change (steer_all (rd_late_steers rd))) (\<lambda>_.
        answer_round lib cfg rd final_content messages (calls_of_answer lib cfg r))))))))"

text \<open>The loop; \<open>None\<close> means that the turn still runs after these rounds.\<close>

fun run_rounds :: "turn_lib \<Rightarrow> turn_config \<Rightarrow> message list \<Rightarrow> round_env list \<Rightarrow> string \<Rightarrow> message list
    \<Rightarrow> turn_world \<Rightarrow> (turn_error + string) option \<times> turn_world" where
  "run_rounds lib cfg prompt_prefix [] final_content messages w = (None, w)"
| "run_rounds lib cfg prompt_prefix (rd # rds) final_content messages w =
     (case sse_round lib cfg prompt_prefix rd final_content messages w of
        (Inl err, w1) \<Rightarrow> (Some (Inl err), w1)
      | (Inr (Turn_Finished content), w1) \<Rightarrow> (Some (Inr content), w1)
      | (Inr (Turn_Goes_On content messages1), w1) \<Rightarrow> run_rounds lib cfg prompt_prefix rds content messages1 w1)"

section \<open>A turn\<close>

text \<open>The parts of the prompt that other components write: the digest of a team, the summary of the
  tools, the context found in the workspace, the skills that the input names. The second and third
  may fail.\<close>

record prompt_parts =
  pr_digest :: "string option"
  pr_tool_summary :: "model_error + string option"
  pr_auto_context :: "string + string option"
  pr_injections :: "string option"

definition env_context :: "turn_config \<Rightarrow> string" where
  "env_context cfg = ''<environment_context>'' @ [LF] @ ''  <cwd>'' @ tc_cwd cfg @ ''</cwd>'' @ [LF] @ ''</environment_context>''"

definition opt_user :: "string option \<Rightarrow> message list" where
  "opt_user t = (case t of None \<Rightarrow> [] | Some s \<Rightarrow> [Msg_User s])"

text \<open>The prefix and all the messages.\<close>

definition build_messages :: "turn_config \<Rightarrow> prompt_parts \<Rightarrow> string \<Rightarrow> turn_world
    \<Rightarrow> (turn_error + message list \<times> message list) \<times> turn_world" where
  "build_messages cfg parts content w =
     (let prefix_messages = (case tc_system_prompt cfg of None \<Rightarrow> [] | Some p \<Rightarrow> [Msg_System p])
            @ [Msg_User (env_context cfg)] @ opt_user (pr_digest parts)
      in case pr_tool_summary parts of
           Inl err \<Rightarrow> (Inl (TE_Model err), w)
         | Inr summary \<Rightarrow>
             (case pr_auto_context parts of
                Inl err \<Rightarrow> (Inl (TE_Session err), w)
              | Inr context' \<Rightarrow>
                  (let prefix_messages = prefix_messages @ opt_user summary @ opt_user context' @ opt_user (pr_injections parts);
                       history = (case tc_context_window_limit cfg of
                           Some limit \<Rightarrow> get_history_for_prompt (tw_history w) limit
                         | None \<Rightarrow> get_history (tw_history w) 100)
                   in (Inr (prefix_messages, prefix_messages @ history @ [Msg_User content]), w))))"

text \<open>What is told to the client at the end, and the result.\<close>

definition conclude :: "turn_error + string \<Rightarrow> turn_world \<Rightarrow> (turn_error + string) \<times> turn_world" where
  "conclude r =
     (case r of
        Inr content \<Rightarrow> try_do (send_event TurnCompleted) (\<lambda>_. give content)
      | Inl TE_Aborted \<Rightarrow> try_do (send_event (TurnAborted ''turn aborted'')) (\<lambda>_. failing TE_Aborted)
      | Inl err \<Rightarrow> try_do (send_event (Ev_Error err)) (\<lambda>_.
          try_do (send_event (TurnErrored err)) (\<lambda>_. failing err)))"

definition run_turn_body :: "turn_lib \<Rightarrow> turn_config \<Rightarrow> prompt_parts \<Rightarrow> round_env list \<Rightarrow> string
    \<Rightarrow> turn_world \<Rightarrow> (turn_error + string) option \<times> turn_world" where
  "run_turn_body lib cfg parts rds content w =
     (case send_event TurnStarted w of
        (Inl err, w1) \<Rightarrow> (Some (Inl err), w1)
      | (Inr _, w1) \<Rightarrow>
          (case build_messages cfg parts content w1 of
             (Inl err, w2) \<Rightarrow> (Some (Inl err), w2)
           | (Inr (prefix_messages, messages), w2) \<Rightarrow>
               (case run_rounds lib cfg prefix_messages rds [] messages (record_message (Msg_User content) w2) of
                  (None, w3) \<Rightarrow> (None, w3)
                | (Some r, w3) \<Rightarrow> (let (r', w4) = conclude r w3 in (Some r', w4)))))"

definition run_turn_with_id :: "turn_lib \<Rightarrow> turn_config \<Rightarrow> prompt_parts \<Rightarrow> round_env list \<Rightarrow> string \<Rightarrow> string
    \<Rightarrow> turn_world \<Rightarrow> (turn_error + string) option \<times> turn_world" where
  "run_turn_with_id lib cfg parts rds content turn_id w =
     (case run_turn_body lib cfg parts rds content (on_session (\<lambda>s. s\<lparr>ss_turn := begin_turn turn_id (ss_turn s)\<rparr>) w) of
        (None, w1) \<Rightarrow> (None, w1)
      | (Some r, w1) \<Rightarrow> (Some r, on_session (\<lambda>s. s\<lparr>ss_turn := end_turn turn_id (ss_turn s)\<rparr>) w1))"

end
