(* ===== verification/SessionLoop.thy ===== *)
theory SessionLoop
  imports TurnRounds PendingApprovals AgentControl
begin

text \<open>
  The loop that takes the submissions of a client (\<open>submission_loop\<close> and
  \<open>run_turn_with_interrupt\<close> of \<open>core/src/cokra.rs\<close>). While a turn runs, the loop selects between the
  turn and the next submission: answers to prompts, steering and interrupts are handled at once,
  everything else waits in a queue until the turn is over.

  What the select finds is a list of inputs: a part of the turn that ran, the turn's result, or a
  submission. A list that is used up is a loop that waits. The events of the loop go to a channel
  whose failures it ignores; the identifiers of events, items and of the thread are left out.
\<close>

section \<open>The configuration of the turns\<close>

datatype approval_mode = Mode_Ask | Mode_Auto | Mode_Never

datatype sandbox_mode = Strict | Permissive | Sandbox_DangerFullAccess

record loop_settings =
  ls_provider :: string
  ls_model :: string
  ls_max_threads :: nat
  ls_approval :: approval_mode
  ls_sandbox :: sandbox_mode
  ls_network_access :: bool
  ls_cwd :: string

record loop_config = turn_config +
  tc_approval_policy :: ask_for_approval
  tc_sandbox_policy :: sandbox_policy
  tc_has_managed_network_requirements :: bool
  tc_allowed_domains :: "string list"
  tc_denied_domains :: "string list"

definition resolve_model_id :: "string \<Rightarrow> string \<Rightarrow> string" where
  "resolve_model_id provider model =
     (if provider = [] \<or> model = [] then model
      else if starts_with (provider @ ''/'') model then model
      else provider @ ''/'' @ model)"

definition map_approval_policy :: "loop_settings \<Rightarrow> ask_for_approval" where
  "map_approval_policy st = (case ls_approval st of Mode_Ask \<Rightarrow> OnRequest | Mode_Auto \<Rightarrow> UnlessTrusted | Mode_Never \<Rightarrow> Never)"

definition map_sandbox_policy :: "loop_settings \<Rightarrow> sandbox_policy" where
  "map_sandbox_policy st = (case ls_sandbox st of
      Strict \<Rightarrow> ReadOnly FullAccess
    | Permissive \<Rightarrow> WorkspaceWrite [ls_cwd st] FullAccess (ls_network_access st) False False
    | Sandbox_DangerFullAccess \<Rightarrow> DangerFullAccess)"

text \<open>The texts \<open>base\<close> and \<open>team_suffix\<close> are files of the repository.\<close>

definition build_turn_config :: "string \<Rightarrow> string \<Rightarrow> loop_settings \<Rightarrow> loop_config" where
  "build_turn_config base team_suffix st =
     \<lparr>tc_model = resolve_model_id (trim (ls_provider st)) (trim (ls_model st)),
      tc_system_prompt = Some (base @ (if ls_max_threads st > 1 then team_suffix else [])),
      tc_enable_tools = True, tc_cwd = ls_cwd st, tc_tool_output_truncation = Tokens DEFAULT_TOOL_OUTPUT_TOKENS,
      tc_context_window_limit = None, tc_compaction = default_compaction_settings,
      tc_approval_policy = map_approval_policy st, tc_sandbox_policy = map_sandbox_policy st,
      tc_has_managed_network_requirements = ls_network_access st, tc_allowed_domains = [], tc_denied_domains = []\<rparr>"

section \<open>Submissions and events\<close>

type_synonym input_response = "(string, string list) hashmap"

text \<open>The fields of \<open>UserTurn\<close> that the loop does not read are the directory, the two policies
  and the options of the model.\<close>

datatype op =
    Op_ConfigureSession string ask_for_approval sandbox_policy string
  | Op_Interrupt
  | Op_Compact
  | Op_CleanBackgroundTerminals
  | Op_UserInput "user_input list"
  | Op_SteerInput "string option" "user_input list"
  | Op_UserTurn "user_input list" string ask_for_approval sandbox_policy string
  | Op_OverrideTurnContext "string option" "ask_for_approval option" "sandbox_policy option" "string option"
  | Op_ExecApproval string "string option" review_decision
  | Op_UserInputAnswer string input_response
  | Op_SetThreadName string
  | Op_Undo nat
  | Op_Shutdown
  | Op_ListModels

record submission =
  sub_id :: string
  sub_op :: op

text \<open>A warning has the turn, the text and the error whose display follows the text.\<close>

datatype loop_event =
    LE_ItemStarted string "user_input list"
  | LE_ItemCompleted string "user_input list"
  | LE_UserMessage string "user_input list"
  | LE_SessionConfigured string ask_for_approval sandbox_policy "nat option" "string option" "int option"
  | LE_Warning string string "model_error option"
  | LE_ContextCompacted string compaction_reason nat nat
  | LE_TurnAborted string string
  | LE_ShutdownComplete

definition legacy_events_for :: "loop_event \<Rightarrow> loop_event list" where
  "legacy_events_for ev = (case ev of LE_ItemCompleted turn_id items \<Rightarrow> [LE_UserMessage turn_id items] | _ \<Rightarrow> [])"

section \<open>The world of the loop\<close>

text \<open>The prompts of a session: those for approvals and those for answers of the user. What is sent
  on the channel of a question is an answer, or nothing more (\<open>None\<close>) when its sender is dropped.\<close>

record session_inputs =
  si_pending :: "nat pending_approvals_state"
  si_answers :: "nat \<Rightarrow> input_response option list"
  si_next :: nat

definition request_user_input :: "string \<Rightarrow> string \<Rightarrow> session_inputs \<Rightarrow> session_inputs" where
  "request_user_input request_id turn_id s =
     s\<lparr>si_pending := snd (inputs_insert request_id turn_id (si_next s) (si_pending s)), si_next := Suc (si_next s)\<rparr>"

definition answer_input :: "input_response option \<Rightarrow> nat \<Rightarrow> session_inputs \<Rightarrow> session_inputs" where
  "answer_input r c s = s\<lparr>si_answers := (si_answers s)(c := r # si_answers s c)\<rparr>"

definition notify_user_input :: "string \<Rightarrow> input_response \<Rightarrow> session_inputs \<Rightarrow> bool \<times> session_inputs" where
  "notify_user_input request_id response s =
     (case inputs_remove request_id (si_pending s) of
        (None, pending) \<Rightarrow> (False, s\<lparr>si_pending := pending\<rparr>)
      | (Some c, pending) \<Rightarrow> (True, answer_input (Some response) c (s\<lparr>si_pending := pending\<rparr>)))"

definition clear_pending_user_inputs_for_turn :: "string \<Rightarrow> session_inputs \<Rightarrow> nat \<times> session_inputs" where
  "clear_pending_user_inputs_for_turn turn_id s =
     (case inputs_clear_turn turn_id (si_pending s) of (pending_txs, pending) \<Rightarrow>
        (length pending_txs, fold (answer_input None) pending_txs (s\<lparr>si_pending := pending\<rparr>)))"

record prompt_books =
  pb_approvals :: session_prompts
  pb_inputs :: session_inputs

text \<open>
  The session and its prompts, the prompts of the team's agents (\<open>None\<close> when the thread has no
  team; the order is that of the hash map), the models that were selected, the agent's status and
  configuration, and the loop's own variables. Kept for the theorems only: what has arrived, what
  the loop has taken up, and the turns that ran, each with its text and its configuration.
\<close>

record loop_world =
  lw_session :: session
  lw_books :: prompt_books
  lw_team :: "prompt_books list option"
  lw_switch :: model_switch_state
  lw_status :: status_cell
  lw_agent_config :: loop_config
  lw_config :: loop_config
  lw_queue :: "submission list"
  lw_closed :: bool
  lw_events :: "loop_event list"
  lw_arrived :: "submission list"
  lw_taken :: "submission list"
  lw_turns :: "(string \<times> string \<times> loop_config) list"

definition loop_emit :: "loop_event \<Rightarrow> loop_world \<Rightarrow> loop_world" where
  "loop_emit ev w = w\<lparr>lw_events := lw_events w @ ev # legacy_events_for ev\<rparr>"

definition warn :: "string \<Rightarrow> string \<Rightarrow> loop_world \<Rightarrow> loop_world" where
  "warn turn_id message' = loop_emit (LE_Warning turn_id message' None)"

definition in_session :: "(session \<Rightarrow> session) \<Rightarrow> loop_world \<Rightarrow> loop_world" where
  "in_session f w = w\<lparr>lw_session := f (lw_session w)\<rparr>"

definition in_turn_state :: "(user_input active_turn_state \<Rightarrow> user_input active_turn_state) \<Rightarrow> loop_world \<Rightarrow> loop_world" where
  "in_turn_state f = in_session (\<lambda>s. s\<lparr>ss_turn := f (ss_turn s)\<rparr>)"

abbreviation lw_turn :: "loop_world \<Rightarrow> user_input active_turn_state" where
  "lw_turn w \<equiv> ss_turn (lw_session w)"

section \<open>Answers to prompts\<close>

fun first_notified :: "('b \<Rightarrow> bool \<times> 'b) \<Rightarrow> 'b list \<Rightarrow> bool \<times> 'b list" where
  "first_notified f [] = (False, [])"
| "first_notified f (b # bs) =
     (case f b of
        (True, b') \<Rightarrow> (True, b' # bs)
      | (False, b') \<Rightarrow> (case first_notified f bs of (r, bs') \<Rightarrow> (r, b' # bs')))"

text \<open>The session's own prompts are asked first, then those of the team.\<close>

definition deliver :: "(prompt_books \<Rightarrow> bool \<times> prompt_books) \<Rightarrow> loop_world \<Rightarrow> bool \<times> loop_world" where
  "deliver f w =
     (case f (lw_books w) of
        (True, books) \<Rightarrow> (True, w\<lparr>lw_books := books\<rparr>)
      | (False, books) \<Rightarrow>
          (case lw_team w of
             None \<Rightarrow> (False, w\<lparr>lw_books := books\<rparr>)
           | Some team \<Rightarrow> (case first_notified f team of
               (notified, team') \<Rightarrow> (notified, w\<lparr>lw_books := books, lw_team := Some team'\<rparr>))))"

definition approval_to :: "string \<Rightarrow> review_decision \<Rightarrow> prompt_books \<Rightarrow> bool \<times> prompt_books" where
  "approval_to id' decision b =
     (case notify_exec_approval id' decision (pb_approvals b) of (r, p) \<Rightarrow> (r, b\<lparr>pb_approvals := p\<rparr>))"

definition answer_to :: "string \<Rightarrow> input_response \<Rightarrow> prompt_books \<Rightarrow> bool \<times> prompt_books" where
  "answer_to id' response b =
     (case notify_user_input id' response (pb_inputs b) of (r, p) \<Rightarrow> (r, b\<lparr>pb_inputs := p\<rparr>))"

text \<open>The three operations that are handled in the same way within and between turns; \<open>here\<close> is the
  turn, or the submission when there is none.\<close>

definition exec_approval :: "string \<Rightarrow> string \<Rightarrow> string option \<Rightarrow> review_decision \<Rightarrow> loop_world \<Rightarrow> loop_world" where
  "exec_approval here id' turn_id decision w =
     (case deliver (approval_to id' decision) w of
        (True, w1) \<Rightarrow> w1
      | (False, w1) \<Rightarrow> warn (case turn_id of Some t \<Rightarrow> t | None \<Rightarrow> here)
          (''no pending approval found for id: '' @ id') w1)"

definition user_input_answer :: "string \<Rightarrow> string \<Rightarrow> input_response \<Rightarrow> loop_world \<Rightarrow> loop_world" where
  "user_input_answer here id' response w =
     (case deliver (answer_to id' response) w of
        (True, w1) \<Rightarrow> w1
      | (False, w1) \<Rightarrow> warn here (''no pending user input found for id: '' @ id') w1)"

definition steer_rejected :: "string \<Rightarrow> string option \<Rightarrow> steer_input_error \<Rightarrow> loop_world \<Rightarrow> loop_world" where
  "steer_rejected here expected err =
     (case err of
        NoActiveTurn \<Rightarrow> warn (case expected of Some t \<Rightarrow> t | None \<Rightarrow> here) ''no active turn available for steering input''
      | TurnMismatch expected' active \<Rightarrow> warn active
          (''steering input rejected: expected turn '' @ expected' @ '', active turn is '' @ active))"

definition steer :: "string \<Rightarrow> string option \<Rightarrow> user_input list \<Rightarrow> loop_world \<Rightarrow> loop_world" where
  "steer here expected items w =
     (case steer_input expected items (lw_turn w) of
        (Inl err, _) \<Rightarrow> steer_rejected here expected err w
      | (Inr _, t) \<Rightarrow> in_turn_state (\<lambda>_. t) w)"

definition clear_prompts :: "string \<Rightarrow> loop_world \<Rightarrow> loop_world" where
  "clear_prompts turn_id w =
     w\<lparr>lw_books := \<lparr>pb_approvals = snd (clear_pending_approvals_for_turn turn_id (pb_approvals (lw_books w))),
       pb_inputs = snd (clear_pending_user_inputs_for_turn turn_id (pb_inputs (lw_books w)))\<rparr>\<rparr>"

section \<open>Compaction between turns\<close>

text \<open>The window of a model in the catalogue, and the clock at the \<open>n\<close>-th submission.\<close>

record loop_lib = turn_lib +
  ll_context_window :: "string \<Rightarrow> nat option"
  ll_now :: "nat \<Rightarrow> int"

definition loop_chat :: "loop_lib \<Rightarrow> string \<Rightarrow> message list \<Rightarrow> compaction_settings
    \<Rightarrow> model_error + applied_compaction_result option" where
  "loop_chat lib model history settings =
     compact_history_with_summary (json_of (turn_lib.truncate lib)) (tl_chat lib) model history settings"

definition compacted :: "string \<Rightarrow> compaction_reason \<Rightarrow> nat \<Rightarrow> applied_compaction_result \<Rightarrow> loop_world \<Rightarrow> loop_world" where
  "compacted turn_id reason before' result w =
     loop_emit (LE_ContextCompacted turn_id reason before' (ac_tokens_after_est result))
       (in_session (replace_history (ac_compacted_history result))
         (in_session (update_token_usage (ac_usage result)) w))"

definition run_manual_compaction :: "loop_lib \<Rightarrow> string \<Rightarrow> loop_world \<Rightarrow> loop_world" where
  "run_manual_compaction lib turn_id w =
     (let cfg = lw_config w; history = ss_history (lw_session w)
      in if \<not> cs_enabled (tc_compaction cfg) then warn turn_id ''context compaction is disabled'' w
         else (case loop_chat lib (tc_model cfg) history (tc_compaction cfg) of
             Inr (Some result) \<Rightarrow> compacted turn_id Manual (estimate_messages_tokens history) result w
           | Inr None \<Rightarrow> warn turn_id ''nothing to compact'' w
           | Inl err \<Rightarrow> loop_emit (LE_Warning turn_id ''context compaction failed: '' (Some err)) w))"

definition maybe_compact_before_model_switch ::
  "loop_lib \<Rightarrow> string \<Rightarrow> nat option \<Rightarrow> string \<Rightarrow> loop_world \<Rightarrow> loop_world" where
  "maybe_compact_before_model_switch lib previous_model previous_limit turn_id w =
     (let cfg = lw_config w; history = ss_history (lw_session w)
      in if \<not> cs_enabled (tc_compaction cfg) then w
         else case (previous_limit, tc_context_window_limit cfg) of
           (Some previous, Some next') \<Rightarrow>
             (let threshold = next' - cs_reserve_tokens (tc_compaction cfg)
              in if previous \<le> next' \<or> threshold = 0 \<or> estimate_messages_tokens history < threshold then w
                 else (case loop_chat lib previous_model history (tc_compaction cfg) of
                     Inr (Some result) \<Rightarrow> compacted turn_id Threshold (estimate_messages_tokens history) result w
                   | Inr None \<Rightarrow> w
                   | Inl err \<Rightarrow> loop_emit (LE_Warning turn_id ''model-switch compaction failed: '' (Some err)) w))
         | _ \<Rightarrow> w)"

section \<open>Changing the configuration\<close>

definition sync_turn_context_window_limit :: "loop_lib \<Rightarrow> loop_config \<Rightarrow> loop_config" where
  "sync_turn_context_window_limit lib cfg = cfg\<lparr>tc_context_window_limit := ll_context_window lib (tc_model cfg)\<rparr>"

definition session_configured :: "loop_world \<Rightarrow> loop_world" where
  "session_configured w =
     (let cfg = lw_config w
      in loop_emit (LE_SessionConfigured (tc_model cfg) (tc_approval_policy cfg) (tc_sandbox_policy cfg)
           (tc_context_window_limit cfg) (ms_previous_model (lw_switch w)) (ms_switched_at (lw_switch w))) w)"

text \<open>The new configuration is looked up in the catalogue, the history is made to fit, the agent is
  told and the model is recorded.\<close>

definition reconfigure :: "loop_lib \<Rightarrow> string \<Rightarrow> (loop_config \<Rightarrow> loop_config) \<Rightarrow> loop_world \<Rightarrow> loop_world" where
  "reconfigure lib turn_id f w =
     (let previous = lw_config w;
          w1 = w\<lparr>lw_config := sync_turn_context_window_limit lib (f previous)\<rparr>;
          w2 = maybe_compact_before_model_switch lib (tc_model previous) (tc_context_window_limit previous) turn_id w1;
          w3 = w2\<lparr>lw_agent_config := lw_config w2\<rparr>
      in w3\<lparr>lw_switch := track_model_selection (ll_now lib (length (lw_taken w3))) (tc_model (lw_config w3)) (lw_switch w3)\<rparr>)"

section \<open>A turn and what arrives during it\<close>

text \<open>What a turn does to the state that it shares with the loop.\<close>

datatype turn_action =
    Asks_Approval string
  | Asks_User string
  | Takes_Inputs
  | Records message

datatype loop_input =
    Turn_Acts turn_action
  | Turn_Returns "string + unit"
  | Arrives "submission option"

text \<open>\<open>process_turn\<close> begins when it is polled for the first time.\<close>

definition first_poll :: "string \<Rightarrow> string \<Rightarrow> bool \<Rightarrow> loop_world \<Rightarrow> loop_world" where
  "first_poll turn_id message' polled w =
     (if polled then w
      else in_turn_state (SessionHistory.begin_turn turn_id)
        (w\<lparr>lw_status := AgentControl.begin_turn (lw_status w),
           lw_turns := lw_turns w @ [(turn_id, message', lw_agent_config w)]\<rparr>))"

definition turn_acts :: "string \<Rightarrow> turn_action \<Rightarrow> loop_world \<Rightarrow> loop_world" where
  "turn_acts turn_id a w =
     (case a of
        Asks_Approval i \<Rightarrow> w\<lparr>lw_books := (lw_books w)\<lparr>pb_approvals := request_exec_approval i turn_id (pb_approvals (lw_books w))\<rparr>\<rparr>
      | Asks_User i \<Rightarrow> w\<lparr>lw_books := (lw_books w)\<lparr>pb_inputs := request_user_input i turn_id (pb_inputs (lw_books w))\<rparr>\<rparr>
      | Takes_Inputs \<Rightarrow> in_turn_state (\<lambda>t. snd (take_pending_inputs t)) w
      | Records m \<Rightarrow> in_session (append_message m) w)"

definition turn_returns :: "string \<Rightarrow> string + unit \<Rightarrow> loop_world \<Rightarrow> loop_world" where
  "turn_returns turn_id r w =
     (let w1 = in_turn_state (SessionHistory.end_turn turn_id) w
      in w1\<lparr>lw_status := snd (AgentControl.end_turn r (lw_status w1))\<rparr>)"

text \<open>A submission during a turn; the first component tells whether the select loop is left.\<close>

definition during_turn :: "string \<Rightarrow> submission \<Rightarrow> loop_world \<Rightarrow> bool \<times> loop_world" where
  "during_turn turn_id sub w =
     (case sub_op sub of
        Op_ExecApproval i op_turn_id decision \<Rightarrow> (False, exec_approval turn_id i op_turn_id decision w)
      | Op_UserInputAnswer i response \<Rightarrow> (False, user_input_answer turn_id i response w)
      | Op_SteerInput expected items \<Rightarrow> (False, steer turn_id expected items w)
      | Op_Interrupt \<Rightarrow> (True, loop_emit (LE_TurnAborted turn_id ''interrupted'') w)
      | Op_Shutdown \<Rightarrow> (True, loop_emit LE_ShutdownComplete w)
      | _ \<Rightarrow> (False, w\<lparr>lw_queue := lw_queue w @ [sub]\<rparr>))"

definition arrive :: "submission \<Rightarrow> loop_world \<Rightarrow> loop_world" where
  "arrive sub w = w\<lparr>lw_arrived := lw_arrived w @ [sub]\<rparr>"

text \<open>A channel that is closed stays closed.\<close>

definition received :: "submission option \<Rightarrow> loop_world \<Rightarrow> submission option" where
  "received m w = (if lw_closed w then None else m)"

fun select_loop :: "string \<Rightarrow> string \<Rightarrow> bool \<Rightarrow> loop_input list \<Rightarrow> loop_world \<Rightarrow> bool \<times> loop_input list \<times> loop_world" where
  "select_loop turn_id message' polled [] w = (False, [], w)"
| "select_loop turn_id message' polled (Turn_Acts a # is) w =
     select_loop turn_id message' True is (turn_acts turn_id a (first_poll turn_id message' polled w))"
| "select_loop turn_id message' polled (Turn_Returns r # is) w =
     (True, is, clear_prompts turn_id (turn_returns turn_id r (first_poll turn_id message' polled w)))"
| "select_loop turn_id message' polled (Arrives m # is) w =
     (case received m w of
        None \<Rightarrow> (True, is, clear_prompts turn_id (w\<lparr>lw_closed := True\<rparr>))
      | Some sub \<Rightarrow>
          (case during_turn turn_id sub (arrive sub w) of
             (True, w1) \<Rightarrow> (True, is, clear_prompts turn_id w1)
           | (False, w1) \<Rightarrow> select_loop turn_id message' polled is w1))"

definition run_turn_with_interrupt :: "string \<Rightarrow> string \<Rightarrow> loop_input list \<Rightarrow> loop_world
    \<Rightarrow> bool \<times> loop_input list \<times> loop_world" where
  "run_turn_with_interrupt turn_id message' is w =
     (if trim message' = [] then (True, is, warn turn_id ''empty input ignored'' w)
      else (case select_loop turn_id message' False is (in_turn_state (SessionHistory.begin_turn turn_id) w) of
          (True, is', w1) \<Rightarrow> (True, is', in_turn_state (SessionHistory.end_turn turn_id) w1)
        | (False, is', w1) \<Rightarrow> (False, is', w1)))"

section \<open>The loop\<close>

definition announce_input :: "string \<Rightarrow> user_input list \<Rightarrow> loop_world \<Rightarrow> loop_world" where
  "announce_input turn_id items w = loop_emit (LE_ItemCompleted turn_id items) (loop_emit (LE_ItemStarted turn_id items) w)"

definition or_else :: "'a \<Rightarrow> 'a option \<Rightarrow> 'a" where
  "or_else x m = (case m of None \<Rightarrow> x | Some y \<Rightarrow> y)"

text \<open>What becomes of the loop: it goes on, it waits inside a turn, it is over.\<close>

datatype submission_phase = Waiting | In_Turn string | Over

definition user_turn :: "string \<Rightarrow> user_input list \<Rightarrow> loop_input list \<Rightarrow> loop_world
    \<Rightarrow> submission_phase \<times> loop_input list \<times> loop_world" where
  "user_turn turn_id items is w =
     (case run_turn_with_interrupt turn_id (user_message items) is w of
        (over, is', w1) \<Rightarrow> (if over then Waiting else In_Turn turn_id, is', w1))"

definition handle_submission :: "loop_lib \<Rightarrow> submission \<Rightarrow> loop_input list \<Rightarrow> loop_world
    \<Rightarrow> submission_phase \<times> loop_input list \<times> loop_world" where
  "handle_submission lib sub is w =
     (let i = sub_id sub
      in case sub_op sub of
        Op_ConfigureSession cwd approval_policy sandbox_policy model \<Rightarrow>
          (Waiting, is, session_configured (reconfigure lib i (\<lambda>c. c\<lparr>tc_model := model,
             tc_approval_policy := approval_policy, tc_sandbox_policy := sandbox_policy, tc_cwd := cwd\<rparr>) w))
      | Op_OverrideTurnContext cwd approval_policy sandbox_policy model \<Rightarrow>
          (Waiting, is, session_configured (reconfigure lib i (\<lambda>c. c\<lparr>tc_model := or_else (tc_model c) model,
             tc_approval_policy := or_else (tc_approval_policy c) approval_policy,
             tc_sandbox_policy := or_else (tc_sandbox_policy c) sandbox_policy,
             tc_cwd := or_else (tc_cwd c) cwd\<rparr>) w))
      | Op_UserInput items \<Rightarrow> user_turn i items is (announce_input i items w)
      | Op_UserTurn items _ _ _ model \<Rightarrow>
          (let w1 = reconfigure lib i (\<lambda>c. c\<lparr>tc_model := model\<rparr>) (announce_input i items w);
               model_changed = (tc_model (lw_config w) \<noteq> tc_model (lw_config w1)
                 \<or> tc_context_window_limit (lw_config w) \<noteq> tc_context_window_limit (lw_config w1));
               w2 = (if model_changed then session_configured w1 else w1)
           in user_turn i items is w2)
      | Op_SteerInput expected items \<Rightarrow> (Waiting, is, steer i expected items w)
      | Op_ExecApproval j turn_id decision \<Rightarrow> (Waiting, is, exec_approval i j turn_id decision w)
      | Op_UserInputAnswer j response \<Rightarrow> (Waiting, is, user_input_answer i j response w)
      | Op_Compact \<Rightarrow> (Waiting, is, run_manual_compaction lib i w)
      | Op_Interrupt \<Rightarrow> (Waiting, is, loop_emit (LE_TurnAborted i ''no active turn'') w)
      | Op_Shutdown \<Rightarrow> (Over, is, loop_emit LE_ShutdownComplete w)
      | _ \<Rightarrow> (Waiting, is, warn i ''operation not implemented in phase 1 loop'' w))"

definition take_up :: "submission \<Rightarrow> loop_world \<Rightarrow> loop_world" where
  "take_up sub w = w\<lparr>lw_taken := lw_taken w @ [sub]\<rparr>"

text \<open>A turn moves what arrives into the queue or handles it: the work that is left does not grow.\<close>

lemma queue_of_steps [simp]:
  "lw_queue (loop_emit ev w) = lw_queue w" "lw_queue (warn t m w) = lw_queue w" "lw_queue (in_session f w) = lw_queue w"
  "lw_queue (in_turn_state g w) = lw_queue w" "lw_queue (clear_prompts t w) = lw_queue w"
  "lw_queue (arrive sub w) = lw_queue w" "lw_queue (take_up sub w) = lw_queue w"
  "lw_queue (first_poll t m b w) = lw_queue w" "lw_queue (turn_returns t r w) = lw_queue w"
  "lw_queue (turn_acts t a w) = lw_queue w" "lw_queue (announce_input t items w) = lw_queue w"
  "lw_queue (session_configured w) = lw_queue w" "lw_queue (steer_rejected t e err w) = lw_queue w"
  by (simp_all add: loop_emit_def warn_def in_session_def in_turn_state_def clear_prompts_def arrive_def take_up_def
      first_poll_def turn_returns_def turn_acts_def announce_input_def session_configured_def steer_rejected_def Let_def
      split: turn_action.split steer_input_error.split)

lemma queue_deliver: "lw_queue (snd (deliver f w)) = lw_queue w"
  by (simp add: deliver_def split: prod.split bool.split option.split)

lemma queue_of_answers [simp]:
  "lw_queue (exec_approval t i o' d w) = lw_queue w" "lw_queue (user_input_answer t i r w) = lw_queue w"
  "lw_queue (steer t e items w) = lw_queue w"
  using queue_deliver [of "approval_to i d" w] queue_deliver [of "answer_to i r" w]
  by (auto simp: exec_approval_def user_input_answer_def steer_def split: prod.split bool.split sum.split)

lemma queue_of_compaction [simp]:
  "lw_queue (compacted t reason n r w) = lw_queue w" "lw_queue (run_manual_compaction lib t w) = lw_queue w"
  "lw_queue (maybe_compact_before_model_switch lib m l t w) = lw_queue w" "lw_queue (reconfigure lib t f w) = lw_queue w"
  by (simp_all add: compacted_def run_manual_compaction_def maybe_compact_before_model_switch_def reconfigure_def Let_def
      split: sum.split option.split)

lemma during_turn_queue: "during_turn t sub w = (b, w1) \<Longrightarrow> length (lw_queue w1) \<le> Suc (length (lw_queue w))"
  by (auto simp: during_turn_def split: op.splits)

lemma select_loop_work:
  "select_loop t m b is w = (over, is', w') \<Longrightarrow> length is' + length (lw_queue w') \<le> length is + length (lw_queue w)"
  by (induction t m b "is" w rule: select_loop.induct)
    (fastforce split: option.splits prod.splits bool.splits dest: during_turn_queue)+

lemma handle_submission_work:
  "handle_submission lib sub is w = (ph, is', w') \<Longrightarrow> length is' + length (lw_queue w') \<le> length is + length (lw_queue w)"
  by (auto simp: handle_submission_def user_turn_def run_turn_with_interrupt_def Let_def
      split: op.splits prod.splits bool.splits if_splits dest!: select_loop_work)

function submission_loop :: "loop_lib \<Rightarrow> loop_input list \<Rightarrow> loop_world \<Rightarrow> submission_phase \<times> loop_world" where
  "submission_loop lib is w =
     (case lw_queue w of
        sub # queue \<Rightarrow>
          (case handle_submission lib sub is (take_up sub (w\<lparr>lw_queue := queue\<rparr>)) of
             (Waiting, is', w1) \<Rightarrow> submission_loop lib is' w1
           | (ph, is', w1) \<Rightarrow> (ph, w1))
      | [] \<Rightarrow>
          (case is of
             [] \<Rightarrow> (if lw_closed w then Over else Waiting, w)
           | Arrives m # is' \<Rightarrow>
               (case received m w of
                  None \<Rightarrow> (Over, w\<lparr>lw_closed := True\<rparr>)
                | Some sub \<Rightarrow>
                    (case handle_submission lib sub is' (take_up sub (arrive sub w)) of
                       (Waiting, is'', w1) \<Rightarrow> submission_loop lib is'' w1
                     | (ph, is'', w1) \<Rightarrow> (ph, w1)))
           | Turn_Acts _ # is' \<Rightarrow> submission_loop lib is' w
           | Turn_Returns _ # is' \<Rightarrow> submission_loop lib is' w))"
  by pat_completeness auto
termination
  by (relation "measure (\<lambda>(_, is, w). length is + length (lw_queue w))") (auto dest!: handle_submission_work [OF sym])

declare submission_loop.simps [simp del]

section \<open>The start\<close>

definition new_session :: session where
  "new_session = \<lparr>ss_history = [], ss_response_history = [], ss_turn = \<lparr>at_turn_id = None, at_pending_inputs = []\<rparr>,
     ss_usage = \<lparr>tu_input_tokens = 0, tu_output_tokens = 0, tu_total_tokens = 0\<rparr>, ss_events = []\<rparr>"

definition new_books :: prompt_books where
  "new_books = \<lparr>pb_approvals = fresh_session,
     pb_inputs = \<lparr>si_pending = no_pending, si_answers = (\<lambda>_. []), si_next = 0\<rparr>\<rparr>"

text \<open>What \<open>spawn_with_model_client\<close> hands to the loop, with the configuration that the loop builds.\<close>

definition start_loop :: "loop_lib \<Rightarrow> string \<Rightarrow> string \<Rightarrow> loop_settings \<Rightarrow> prompt_books list option \<Rightarrow> loop_world" where
  "start_loop lib base team_suffix st team =
     (let cfg = sync_turn_context_window_limit lib (build_turn_config base team_suffix st)
      in session_configured
        \<lparr>lw_session = new_session, lw_books = new_books, lw_team = team,
         lw_switch = track_model_selection (ll_now lib 0) (tc_model cfg)
           \<lparr>ms_current_model = None, ms_previous_model = None, ms_switched_at = None\<rparr>,
         lw_status = start_agent new_status_cell, lw_agent_config = cfg, lw_config = cfg,
         lw_queue = [], lw_closed = False, lw_events = [], lw_arrived = [], lw_taken = [], lw_turns = []\<rparr>)"

end
