(* ===== verification/LoopInvariant.thy ===== *)
theory LoopInvariant
  imports SessionLoop
begin

text \<open>
  A property of the states between turns, with what it becomes while a submission is handled and
  while a turn runs, is kept by the whole loop: the locale \<open>loop_invariant\<close> proves it once, and the
  theories that follow interpret it.
\<close>

text \<open>What is handled of a submission before its turn begins, if it begins one.\<close>

definition before_turn :: "loop_lib \<Rightarrow> submission \<Rightarrow> loop_world \<Rightarrow> (user_input list \<times> loop_world) option" where
  "before_turn lib sub w =
     (let i = sub_id sub
      in case sub_op sub of
        Op_UserInput items \<Rightarrow> Some (items, announce_input i items w)
      | Op_UserTurn items _ _ _ model \<Rightarrow>
          (let w1 = reconfigure lib i (\<lambda>c. c\<lparr>tc_model := model\<rparr>) (announce_input i items w)
           in Some (items,
             if tc_model (lw_config w) \<noteq> tc_model (lw_config w1)
               \<or> tc_context_window_limit (lw_config w) \<noteq> tc_context_window_limit (lw_config w1)
             then session_configured w1 else w1))
      | _ \<Rightarrow> None)"

lemma handle_turn:
  "before_turn lib sub w = Some (items, w1) \<Longrightarrow> handle_submission lib sub is w = user_turn (sub_id sub) items is w1"
  by (auto simp: before_turn_def handle_submission_def Let_def split: op.splits)

lemma handle_plain:
  "before_turn lib sub w = None \<Longrightarrow> handle_submission lib sub is w = (ph, is', w') \<Longrightarrow>
     is' = is \<and> (ph = Waiting \<or> ph = Over) \<and> handle_submission lib sub js w = (ph, js, w')"
  by (auto simp: before_turn_def handle_submission_def Let_def split: op.splits)

section \<open>One iteration\<close>

lemma loop_from_queue:
  "lw_queue w = sub # q \<Longrightarrow> handle_submission lib sub is (take_up sub (w\<lparr>lw_queue := q\<rparr>)) = (ph, is', w1)
    \<Longrightarrow> submission_loop lib is w = (if ph = Waiting then submission_loop lib is' w1 else (ph, w1))"
  by (cases ph) (simp_all add: submission_loop.simps [of lib "is" w])

lemma loop_from_channel:
  "lw_queue w = [] \<Longrightarrow> received m w = Some sub
    \<Longrightarrow> handle_submission lib sub is (take_up sub (arrive sub w)) = (ph, is', w1)
    \<Longrightarrow> submission_loop lib (Arrives m # is) w = (if ph = Waiting then submission_loop lib is' w1 else (ph, w1))"
  by (cases ph) (simp_all add: submission_loop.simps [of lib "Arrives m # is" w])

lemma loop_hung_up:
  "lw_queue w = [] \<Longrightarrow> received m w = None \<Longrightarrow> submission_loop lib (Arrives m # is) w = (Over, w\<lparr>lw_closed := True\<rparr>)"
  by (simp add: submission_loop.simps [of lib "Arrives m # is" w])

lemma loop_waits: "lw_queue w = [] \<Longrightarrow> submission_loop lib [] w = (if lw_closed w then Over else Waiting, w)"
  by (simp add: submission_loop.simps [of lib "[]" w])

lemma loop_skips:
  "lw_queue w = [] \<Longrightarrow> submission_loop lib (Turn_Acts a # is) w = submission_loop lib is w"
  "lw_queue w = [] \<Longrightarrow> submission_loop lib (Turn_Returns r # is) w = submission_loop lib is w"
  by (simp_all add: submission_loop.simps [of lib "_ # _" w])

section \<open>What the loop keeps\<close>

locale loop_invariant =
  fixes lib :: loop_lib
    and idle :: "loop_world \<Rightarrow> bool"
    and taken :: "submission \<Rightarrow> loop_world \<Rightarrow> bool"
    and busy :: "string \<Rightarrow> string \<Rightarrow> bool \<Rightarrow> loop_world \<Rightarrow> bool"
    and left :: "string \<Rightarrow> loop_world \<Rightarrow> bool"
  assumes from_queue: "idle w \<Longrightarrow> lw_queue w = sub # q \<Longrightarrow> taken sub (take_up sub (w\<lparr>lw_queue := q\<rparr>))"
    and from_channel: "idle w \<Longrightarrow> lw_queue w = [] \<Longrightarrow> taken sub (take_up sub (arrive sub w))"
    and plain: "taken sub w \<Longrightarrow> before_turn lib sub w = None \<Longrightarrow> idle (snd (snd (handle_submission lib sub is w)))"
    and blank: "taken sub w \<Longrightarrow> before_turn lib sub w = Some (items, w1) \<Longrightarrow> trim (user_message items) = []
      \<Longrightarrow> idle (warn (sub_id sub) ''empty input ignored'' w1)"
    and turn_begins: "taken sub w \<Longrightarrow> before_turn lib sub w = Some (items, w1) \<Longrightarrow> trim (user_message items) \<noteq> []
      \<Longrightarrow> busy (sub_id sub) (user_message items) False (in_turn_state (SessionHistory.begin_turn (sub_id sub)) w1)"
    and polled: "busy t m b w \<Longrightarrow> busy t m True (first_poll t m b w)"
    and acts: "busy t m True w \<Longrightarrow> busy t m True (turn_acts t a w)"
    and returned: "busy t m True w \<Longrightarrow> left t (turn_returns t r w)"
    and handled: "busy t m b w \<Longrightarrow> during_turn t sub (arrive sub w) = (False, w1) \<Longrightarrow> busy t m b w1"
    and broken: "busy t m b w \<Longrightarrow> during_turn t sub (arrive sub w) = (True, w1) \<Longrightarrow> left t w1"
    and hung_up: "busy t m b w \<Longrightarrow> left t (w\<lparr>lw_closed := True\<rparr>)"
    and turn_ends: "left t w \<Longrightarrow> idle (in_turn_state (SessionHistory.end_turn t) (clear_prompts t w))"
    and closed: "idle w \<Longrightarrow> idle (w\<lparr>lw_closed := True\<rparr>)"
begin

lemma select:
  "busy t m b w \<Longrightarrow> select_loop t m b is w = (over, is', w') \<Longrightarrow>
     if over then idle (in_turn_state (SessionHistory.end_turn t) w') else \<exists>b. busy t m b w'"
proof (induction t m b "is" w rule: select_loop.induct)
  case (1 t m b w)
  then show ?case by auto
next
  case (2 t m b a "is" w)
  then show ?case using acts [OF polled [OF 2(2)]] by simp
next
  case (3 t m b r "is" w)
  then show ?case using turn_ends [OF returned [OF polled [OF 3(1)]]] by auto
next
  case (4 t m b x "is" w)
  show ?case
  proof (cases "received x w")
    case None
    then show ?thesis using 4(3) turn_ends [OF hung_up [OF 4(2)]] by auto
  next
    case (Some sub)
    show ?thesis
    proof (cases "during_turn t sub (arrive sub w)")
      case (Pair stop w1)
      show ?thesis
      proof (cases stop)
        case True
        then show ?thesis using 4(3) Some Pair turn_ends [OF broken [OF 4(2)]] by auto
      next
        case False
        then show ?thesis using 4(1) [OF Some Pair [symmetric]] 4(3) Some Pair handled [OF 4(2)] by auto
      qed
    qed
  qed
qed

definition settled :: "submission_phase \<Rightarrow> loop_world \<Rightarrow> bool" where
  "settled ph w \<longleftrightarrow> (case ph of In_Turn t \<Rightarrow> \<exists>m b. busy t m b w | _ \<Rightarrow> idle w)"

lemma handle:
  assumes "taken sub w" and "handle_submission lib sub is w = (ph, is', w')"
  shows "settled ph w'"
proof (cases "before_turn lib sub w")
  case None
  have "ph = Waiting \<or> ph = Over" using handle_plain [OF None assms(2)] by blast
  then show ?thesis using plain [OF assms(1) None, of "is"] assms(2) by (auto simp: settled_def)
next
  case (Some p)
  obtain items w1 where p: "p = (items, w1)" by fastforce
  let ?w = "in_turn_state (SessionHistory.begin_turn (sub_id sub)) w1"
  show ?thesis
  proof (cases "trim (user_message items) = []")
    case True
    then show ?thesis
      using blank [OF assms(1) Some [unfolded p] True] handle_turn [OF Some [unfolded p], of "is"] assms(2)
      by (auto simp: user_turn_def run_turn_with_interrupt_def settled_def)
  next
    case False
    obtain over js w2 where sel: "select_loop (sub_id sub) (user_message items) False is ?w = (over, js, w2)"
      by (metis prod_cases3)
    from select [OF turn_begins [OF assms(1) Some [unfolded p] False] sel] show ?thesis
      using handle_turn [OF Some [unfolded p], of "is"] assms(2) sel False
      by (cases over) (auto simp: user_turn_def run_turn_with_interrupt_def settled_def)
  qed
qed

lemma loop_keeps: "lib' = lib \<Longrightarrow> idle w \<Longrightarrow> submission_loop lib' is w = (ph, w') \<Longrightarrow> settled ph w'"
proof (induction lib' "is" w arbitrary: ph w' rule: submission_loop.induct)
  case (1 lib' "is" w)
  note IH = "1.IH" and eq = "1.prems"(3) and idle = "1.prems"(2) and lib = "1.prems"(1)
  show ?case
  proof (cases "lw_queue w")
    case (Cons sub q)
    obtain ph1 is1 w1 where h: "handle_submission lib' sub is (take_up sub (w\<lparr>lw_queue := q\<rparr>)) = (ph1, is1, w1)"
      by (metis prod_cases3)
    from handle [OF from_queue [OF idle Cons] h [unfolded lib]] have ok: "settled ph1 w1" .
    show ?thesis using IH(4) [OF Cons h [symmetric] _ refl lib] ok eq loop_from_queue [OF Cons h]
      by (cases "ph1 = Waiting") (auto simp: settled_def)
  next
    case Nil
    show ?thesis
    proof (cases "is")
      case Nil
      then show ?thesis using eq idle loop_waits [OF \<open>lw_queue w = []\<close>, of lib'] by (auto simp: settled_def)
    next
      case (Cons i rest)
      show ?thesis
      proof (cases i)
        case (Turn_Acts a)
        then show ?thesis using IH(1) [OF Nil Cons Turn_Acts lib idle] eq Cons loop_skips [OF Nil] by simp
      next
        case (Turn_Returns r)
        then show ?thesis using IH(2) [OF Nil Cons Turn_Returns lib idle] eq Cons loop_skips [OF Nil] by simp
      next
        case (Arrives m)
        show ?thesis
        proof (cases "received m w")
          case None
          then show ?thesis using eq Cons Arrives closed [OF idle] loop_hung_up [OF Nil None] by (auto simp: settled_def)
        next
          case (Some sub)
          obtain ph1 is1 w1 where h: "handle_submission lib' sub rest (take_up sub (arrive sub w)) = (ph1, is1, w1)"
            by (metis prod_cases3)
          from handle [OF from_channel [OF idle Nil] h [unfolded lib]] have ok: "settled ph1 w1" .
          show ?thesis using IH(3) [OF Nil Cons Arrives Some h [symmetric] _ refl lib] ok eq
              loop_from_channel [OF Nil Some h] Cons Arrives
            by (cases "ph1 = Waiting") (auto simp: settled_def)
        qed
      qed
    qed
  qed
qed

end

end
