(* ===== verification/LoopOrder.thy ===== *)
theory LoopOrder
  imports LoopInvariant "HOL-Library.Sublist"
begin

text \<open>
  The order in which submissions are taken up, and the configuration under which turns run.
\<close>

section \<open>Order\<close>

text \<open>The submissions that are not handled at once when they arrive during a turn.\<close>

definition deferred :: "submission \<Rightarrow> bool" where
  "deferred sub \<longleftrightarrow> (case sub_op sub of
      Op_ExecApproval _ _ _ \<Rightarrow> False | Op_UserInputAnswer _ _ \<Rightarrow> False | Op_SteerInput _ _ \<Rightarrow> False
    | Op_Interrupt \<Rightarrow> False | Op_Shutdown \<Rightarrow> False | _ \<Rightarrow> True)"

definition orderly :: "loop_world \<Rightarrow> bool" where
  "orderly w \<longleftrightarrow> filter deferred (lw_taken w) @ lw_queue w = filter deferred (lw_arrived w)"

lemma log_of_steps [simp]:
  "lw_arrived (loop_emit ev w) = lw_arrived w" "lw_taken (loop_emit ev w) = lw_taken w"
  "lw_arrived (warn t m w) = lw_arrived w" "lw_taken (warn t m w) = lw_taken w"
  "lw_arrived (in_session f w) = lw_arrived w" "lw_taken (in_session f w) = lw_taken w"
  "lw_arrived (in_turn_state g w) = lw_arrived w" "lw_taken (in_turn_state g w) = lw_taken w"
  "lw_arrived (clear_prompts t w) = lw_arrived w" "lw_taken (clear_prompts t w) = lw_taken w"
  "lw_arrived (first_poll t m b w) = lw_arrived w" "lw_taken (first_poll t m b w) = lw_taken w"
  "lw_arrived (turn_returns t r w) = lw_arrived w" "lw_taken (turn_returns t r w) = lw_taken w"
  "lw_arrived (turn_acts t a w) = lw_arrived w" "lw_taken (turn_acts t a w) = lw_taken w"
  "lw_arrived (announce_input t items w) = lw_arrived w" "lw_taken (announce_input t items w) = lw_taken w"
  "lw_arrived (session_configured w) = lw_arrived w" "lw_taken (session_configured w) = lw_taken w"
  "lw_arrived (steer_rejected t e err w) = lw_arrived w" "lw_taken (steer_rejected t e err w) = lw_taken w"
  by (simp_all add: loop_emit_def warn_def in_session_def in_turn_state_def clear_prompts_def
      first_poll_def turn_returns_def turn_acts_def announce_input_def session_configured_def steer_rejected_def Let_def
      split: turn_action.split steer_input_error.split)

lemma log_deliver: "lw_arrived (snd (deliver f w)) = lw_arrived w \<and> lw_taken (snd (deliver f w)) = lw_taken w"
  by (simp add: deliver_def split: prod.split bool.split option.split)

lemma log_of_answers [simp]:
  "lw_arrived (exec_approval t i o' d w) = lw_arrived w" "lw_taken (exec_approval t i o' d w) = lw_taken w"
  "lw_arrived (user_input_answer t i r w) = lw_arrived w" "lw_taken (user_input_answer t i r w) = lw_taken w"
  "lw_arrived (steer t e items w) = lw_arrived w" "lw_taken (steer t e items w) = lw_taken w"
  using log_deliver [of "approval_to i d" w] log_deliver [of "answer_to i r" w]
  by (auto simp: exec_approval_def user_input_answer_def steer_def split: prod.split bool.split sum.split)

lemma log_of_compaction [simp]:
  "lw_arrived (compacted t reason n r w) = lw_arrived w" "lw_taken (compacted t reason n r w) = lw_taken w"
  "lw_arrived (run_manual_compaction lib t w) = lw_arrived w" "lw_taken (run_manual_compaction lib t w) = lw_taken w"
  "lw_arrived (maybe_compact_before_model_switch lib m l t w) = lw_arrived w"
  "lw_taken (maybe_compact_before_model_switch lib m l t w) = lw_taken w"
  "lw_arrived (reconfigure lib t f w) = lw_arrived w" "lw_taken (reconfigure lib t f w) = lw_taken w"
  by (simp_all add: compacted_def run_manual_compaction_def maybe_compact_before_model_switch_def reconfigure_def Let_def
      split: sum.split option.split)

lemma log_plain:
  "before_turn lib sub w = None \<Longrightarrow> lw_arrived (snd (snd (handle_submission lib sub is w))) = lw_arrived w
     \<and> lw_taken (snd (snd (handle_submission lib sub is w))) = lw_taken w
     \<and> lw_queue (snd (snd (handle_submission lib sub is w))) = lw_queue w"
  by (auto simp: before_turn_def handle_submission_def Let_def split: op.splits)

lemma log_before_turn:
  "before_turn lib sub w = Some (items, w1) \<Longrightarrow> lw_arrived w1 = lw_arrived w \<and> lw_taken w1 = lw_taken w \<and> lw_queue w1 = lw_queue w"
  by (auto simp: before_turn_def Let_def split: op.splits if_splits)

lemma orderly_cong:
  "lw_arrived w1 = lw_arrived w \<Longrightarrow> lw_taken w1 = lw_taken w \<Longrightarrow> lw_queue w1 = lw_queue w \<Longrightarrow> orderly w1 = orderly w"
  by (simp add: orderly_def)

definition all_deferred :: "loop_world \<Rightarrow> bool" where
  "all_deferred w \<longleftrightarrow> orderly w \<and> list_all deferred (lw_queue w)"

lemma all_deferred_during:
  assumes "all_deferred w" and "during_turn t sub (arrive sub w) = (b, w1)"
  shows "all_deferred w1"
proof (cases "deferred sub")
  case True
  then have "w1 = (arrive sub w)\<lparr>lw_queue := lw_queue w @ [sub]\<rparr>"
    using assms(2) by (cases "sub_op sub") (auto simp: during_turn_def deferred_def)
  with True assms(1) show ?thesis by (auto simp: all_deferred_def orderly_def arrive_def)
next
  case False
  then have "lw_queue w1 = lw_queue w \<and> lw_taken w1 = lw_taken w \<and> lw_arrived w1 = lw_arrived w @ [sub]"
    using assms(2) by (cases "sub_op sub") (auto simp: during_turn_def deferred_def arrive_def)
  with False assms(1) show ?thesis by (simp add: all_deferred_def orderly_def)
qed

interpretation order: loop_invariant lib all_deferred "\<lambda>_. all_deferred" "\<lambda>_ _ _. all_deferred" "\<lambda>_. all_deferred"
proof (unfold_locales, goal_cases)
  case (1 w sub q)
  then show ?case by (simp add: all_deferred_def orderly_def take_up_def)
next
  case (2 w sub)
  then show ?case by (simp add: all_deferred_def orderly_def take_up_def arrive_def)
next
  case (3 sub w "is")
  then show ?case using log_plain [OF 3(2), of "is"] by (simp add: all_deferred_def orderly_def)
next
  case (4 sub w items w1)
  then show ?case using log_before_turn [OF 4(2)] by (simp add: all_deferred_def orderly_def)
next
  case (5 sub w items w1)
  then show ?case using log_before_turn [OF 5(2)] by (simp add: all_deferred_def orderly_def)
next
  case (9 t m b w sub w1)
  then show ?case by (rule all_deferred_during)
next
  case (10 t m b w sub w1)
  then show ?case by (rule all_deferred_during)
qed (simp_all add: all_deferred_def orderly_def)

section \<open>Configuration\<close>

text \<open>What a submission makes of the configuration, and the turns that submissions ask for.\<close>

definition configured :: "loop_lib \<Rightarrow> submission \<Rightarrow> loop_config \<Rightarrow> loop_config" where
  "configured lib sub c = (case sub_op sub of
      Op_ConfigureSession cwd approval sandbox model \<Rightarrow> sync_turn_context_window_limit lib
        (c\<lparr>tc_model := model, tc_approval_policy := approval, tc_sandbox_policy := sandbox, tc_cwd := cwd\<rparr>)
    | Op_OverrideTurnContext cwd approval sandbox model \<Rightarrow> sync_turn_context_window_limit lib
        (c\<lparr>tc_model := or_else (tc_model c) model, tc_approval_policy := or_else (tc_approval_policy c) approval,
           tc_sandbox_policy := or_else (tc_sandbox_policy c) sandbox, tc_cwd := or_else (tc_cwd c) cwd\<rparr>)
    | Op_UserTurn _ _ _ _ model \<Rightarrow> sync_turn_context_window_limit lib (c\<lparr>tc_model := model\<rparr>)
    | _ \<Rightarrow> c)"

definition turn_text :: "submission \<Rightarrow> string option" where
  "turn_text sub = (case sub_op sub of
      Op_UserInput items \<Rightarrow> Some (user_message items)
    | Op_UserTurn items _ _ _ _ \<Rightarrow> Some (user_message items)
    | _ \<Rightarrow> None)"

definition turn_asked :: "submission \<Rightarrow> loop_config \<Rightarrow> (string \<times> string \<times> loop_config) list" where
  "turn_asked sub c = (case turn_text sub of
      Some t \<Rightarrow> if trim t = [] then [] else [(sub_id sub, t, c)]
    | None \<Rightarrow> [])"

definition configuration :: "loop_lib \<Rightarrow> loop_config \<Rightarrow> submission list \<Rightarrow> loop_config" where
  "configuration lib c subs = fold (configured lib) subs c"

fun turns_asked :: "loop_lib \<Rightarrow> loop_config \<Rightarrow> submission list \<Rightarrow> (string \<times> string \<times> loop_config) list" where
  "turns_asked lib c [] = []"
| "turns_asked lib c (sub # subs) = turn_asked sub (configured lib sub c) @ turns_asked lib (configured lib sub c) subs"

lemma turns_asked_snoc:
  "turns_asked lib c (subs @ [sub]) = turns_asked lib c subs @ turn_asked sub (configuration lib c (subs @ [sub]))"
  by (induction subs arbitrary: c) (simp_all add: configuration_def)

lemma configuration_snoc: "configuration lib c (subs @ [sub]) = configured lib sub (configuration lib c subs)"
  by (simp add: configuration_def)

definition settings_of :: "loop_world \<Rightarrow> loop_config \<times> loop_config \<times> (string \<times> string \<times> loop_config) list" where
  "settings_of w = (lw_config w, lw_agent_config w, lw_turns w)"

lemma settings_of_steps [simp]:
  "settings_of (loop_emit ev w) = settings_of w" "settings_of (warn t m w) = settings_of w"
  "settings_of (in_session f w) = settings_of w" "settings_of (in_turn_state g w) = settings_of w"
  "settings_of (clear_prompts t w) = settings_of w" "settings_of (turn_returns t r w) = settings_of w"
  "settings_of (turn_acts t a w) = settings_of w" "settings_of (announce_input t items w) = settings_of w"
  "settings_of (session_configured w) = settings_of w" "settings_of (steer_rejected t e err w) = settings_of w"
  "settings_of (arrive sub w) = settings_of w" "settings_of (take_up sub w) = settings_of w"
  "settings_of (w\<lparr>lw_queue := q\<rparr>) = settings_of w" "settings_of (w\<lparr>lw_closed := True\<rparr>) = settings_of w"
  by (simp_all add: settings_of_def loop_emit_def warn_def in_session_def in_turn_state_def clear_prompts_def arrive_def
      take_up_def turn_returns_def turn_acts_def announce_input_def session_configured_def steer_rejected_def Let_def
      split: turn_action.split steer_input_error.split)

lemma settings_deliver: "settings_of (snd (deliver f w)) = settings_of w"
  by (simp add: settings_of_def deliver_def split: prod.split bool.split option.split)

lemma settings_of_answers [simp]:
  "settings_of (exec_approval t i o' d w) = settings_of w" "settings_of (user_input_answer t i r w) = settings_of w"
  "settings_of (steer t e items w) = settings_of w"
  using settings_deliver [of "approval_to i d" w] settings_deliver [of "answer_to i r" w]
  by (auto simp: exec_approval_def user_input_answer_def steer_def split: prod.split bool.split sum.split)

lemma settings_of_compaction [simp]:
  "settings_of (compacted t reason n r w) = settings_of w" "settings_of (run_manual_compaction lib t w) = settings_of w"
  "settings_of (maybe_compact_before_model_switch lib m l t w) = settings_of w"
  by (simp_all add: compacted_def run_manual_compaction_def maybe_compact_before_model_switch_def Let_def
      split: sum.split option.split)

lemma settings_reconfigure:
  "settings_of (reconfigure lib t f w) =
     (let c = sync_turn_context_window_limit lib (f (lw_config w)) in (c, c, lw_turns w))"
proof -
  let ?w = "maybe_compact_before_model_switch lib (tc_model (lw_config w)) (tc_context_window_limit (lw_config w)) t
     (w\<lparr>lw_config := sync_turn_context_window_limit lib (f (lw_config w))\<rparr>)"
  have "settings_of ?w = settings_of (w\<lparr>lw_config := sync_turn_context_window_limit lib (f (lw_config w))\<rparr>)" by simp
  then show ?thesis by (simp add: settings_of_def reconfigure_def Let_def)
qed

lemma settings_during: "during_turn t sub w = (b, w1) \<Longrightarrow> settings_of w1 = settings_of w"
  by (auto simp: during_turn_def split: op.splits)

lemma settings_plain:
  assumes "before_turn lib sub w = None" and "settings_of w = (c, c, ts)"
  shows "settings_of (snd (snd (handle_submission lib sub is w))) = (configured lib sub c, configured lib sub c, ts)
     \<and> turn_text sub = None"
proof -
  have [simp]: "lw_config w = c" "lw_turns w = ts" using assms(2) by (simp_all add: settings_of_def)
  show ?thesis using assms
    by (cases "sub_op sub") (auto simp: before_turn_def handle_submission_def Let_def settings_reconfigure configured_def turn_text_def)
qed

lemma settings_before_turn:
  assumes "before_turn lib sub w = Some (items, w1)" and "settings_of w = (c, c, ts)"
  shows "settings_of w1 = (configured lib sub c, configured lib sub c, ts) \<and> turn_text sub = Some (user_message items)"
proof -
  have [simp]: "lw_config w = c" "lw_turns w = ts" using assms(2) by (simp_all add: settings_of_def)
  have "lw_config (announce_input i items w) = c" "lw_turns (announce_input i items w) = ts" for i items
    by (simp_all add: announce_input_def loop_emit_def)
  then show ?thesis using assms
    by (cases "sub_op sub")
      (auto simp: before_turn_def Let_def settings_reconfigure configured_def turn_text_def split: if_splits)
qed

definition follows :: "loop_lib \<Rightarrow> loop_config \<Rightarrow> loop_world \<Rightarrow> bool" where
  "follows lib c w \<longleftrightarrow> (\<exists>ts. settings_of w = (configuration lib c (lw_taken w), configuration lib c (lw_taken w), ts)
     \<and> subseq ts (turns_asked lib c (lw_taken w)))"

definition follows_taken :: "loop_lib \<Rightarrow> loop_config \<Rightarrow> submission \<Rightarrow> loop_world \<Rightarrow> bool" where
  "follows_taken lib c sub w \<longleftrightarrow> (\<exists>subs ts. lw_taken w = subs @ [sub]
     \<and> settings_of w = (configuration lib c subs, configuration lib c subs, ts)
     \<and> subseq ts (turns_asked lib c subs))"

definition follows_turn :: "loop_lib \<Rightarrow> loop_config \<Rightarrow> string \<Rightarrow> string \<Rightarrow> bool \<Rightarrow> loop_world \<Rightarrow> bool" where
  "follows_turn lib c t m polled w \<longleftrightarrow> (\<exists>ts.
     settings_of w = (configuration lib c (lw_taken w), configuration lib c (lw_taken w), ts)
     \<and> subseq (ts @ (if polled then [] else [(t, m, configuration lib c (lw_taken w))])) (turns_asked lib c (lw_taken w)))"

lemma subseq_beginning: "subseq (xs @ ys) zs \<Longrightarrow> subseq xs zs"
  by (rule subseq_order.order_trans [of xs "xs @ ys"]) (auto intro: list_emb_prefix)

lemma follows_turn_leaves: "follows_turn lib c t m b w \<Longrightarrow> settings_of w1 = settings_of w \<Longrightarrow> lw_taken w1 = lw_taken w \<Longrightarrow> follows lib c w1"
  by (auto simp: follows_turn_def follows_def dest: subseq_beginning)

lemma follows_turn_cong: "settings_of w1 = settings_of w \<Longrightarrow> lw_taken w1 = lw_taken w \<Longrightarrow> follows_turn lib c t m b w1 = follows_turn lib c t m b w"
  by (simp add: follows_turn_def)

lemma follows_cong: "settings_of w1 = settings_of w \<Longrightarrow> lw_taken w1 = lw_taken w \<Longrightarrow> follows lib c w1 = follows lib c w"
  by (simp add: follows_def)

lemma taken_during: "during_turn t sub (arrive sub' w) = (b, w1) \<Longrightarrow> lw_taken w1 = lw_taken w"
  by (auto simp: during_turn_def arrive_def split: op.splits)

interpretation config: loop_invariant lib "follows lib c" "follows_taken lib c" "follows_turn lib c" "\<lambda>_. follows lib c"
proof (unfold_locales, goal_cases)
  case (1 w sub q)
  then show ?case by (auto simp: follows_def follows_taken_def take_up_def settings_of_def)
next
  case (2 w sub)
  then show ?case by (auto simp: follows_def follows_taken_def take_up_def arrive_def settings_of_def)
next
  case (3 sub w "is")
  then obtain subs ts where w: "lw_taken w = subs @ [sub]" "subseq ts (turns_asked lib c subs)"
    "settings_of w = (configuration lib c subs, configuration lib c subs, ts)"
    by (auto simp: follows_taken_def)
  with settings_plain [OF 3(2) w(3), of "is"] log_plain [OF 3(2), of "is"] show ?case
    by (auto simp: follows_def configuration_snoc turns_asked_snoc turn_asked_def)
next
  case (4 sub w items w1)
  then obtain subs ts where w: "lw_taken w = subs @ [sub]" "subseq ts (turns_asked lib c subs)"
    "settings_of w = (configuration lib c subs, configuration lib c subs, ts)"
    by (auto simp: follows_taken_def)
  with settings_before_turn [OF 4(2) w(3)] log_before_turn [OF 4(2)] 4(3) show ?case
    by (auto simp: follows_def configuration_snoc turns_asked_snoc turn_asked_def)
next
  case (5 sub w items w1)
  then obtain subs ts where w: "lw_taken w = subs @ [sub]" "subseq ts (turns_asked lib c subs)"
    "settings_of w = (configuration lib c subs, configuration lib c subs, ts)"
    by (auto simp: follows_taken_def)
  with settings_before_turn [OF 5(2) w(3)] log_before_turn [OF 5(2)] 5(3) show ?case
    by (auto simp: follows_turn_def configuration_snoc turns_asked_snoc turn_asked_def intro!: list_emb_append_mono)
next
  case (6 t m b w)
  then show ?case by (auto simp: follows_turn_def first_poll_def settings_of_def in_turn_state_def in_session_def)
next
  case (9 t m b w sub w1)
  then show ?case using follows_turn_cong [of w1 w lib c t m b] settings_during [OF 9(2)] taken_during [OF 9(2)] by simp
next
  case (10 t m b w sub w1)
  then show ?case using follows_turn_leaves [OF 10(1), of w1] settings_during [OF 10(2)] taken_during [OF 10(2)] by simp
next
  case (7 t m w a)
  then show ?case by (subst follows_turn_cong) simp_all
next
  case (8 t m w r)
  then show ?case by (rule follows_turn_leaves) simp_all
next
  case (11 t m b w)
  then show ?case by (rule follows_turn_leaves) simp_all
next
  case (12 t w)
  then show ?case by (subst follows_cong) simp_all
next
  case (13 w)
  then show ?case by (subst follows_cong) simp_all
qed

section \<open>Prompts\<close>

text \<open>
  Prompts do not outlive their turn: between turns no turn is active, no input waits, no approval
  and no question waits, and every approval that was asked for has exactly one answer.
\<close>

section \<open>Whose prompts wait\<close>

definition waiting_for :: "string set \<Rightarrow> 'tx pending_approvals_state \<Rightarrow> bool" where
  "waiting_for T st \<longleftrightarrow> (\<exists>A. registry_rep st A \<and> (\<forall>i t c. A i = Some (t, c) \<longrightarrow> t \<in> T))"

lemma waiting_insert:
  assumes "waiting_for T st" and "t \<in> T"
  shows "waiting_for T (snd (pending_insert i t c st))"
proof -
  obtain A where A: "registry_rep st A" "\<forall>i t c. A i = Some (t, c) \<longrightarrow> t \<in> T"
    using assms(1) unfolding waiting_for_def by blast
  have "registry_rep (snd (pending_insert i t c st)) (A(i \<mapsto> (t, c)))"
    using prompts.rep_ins [OF A(1), of i t c] by (cases "pending_insert i t c st") simp
  moreover have "\<forall>j u d. (A(i \<mapsto> (t, c))) j = Some (u, d) \<longrightarrow> u \<in> T" using A(2) assms(2) by auto
  ultimately show ?thesis unfolding waiting_for_def by blast
qed

lemma waiting_remove:
  assumes "waiting_for T st"
  shows "waiting_for T (snd (pending_remove i st))"
proof -
  obtain A where A: "registry_rep st A" "\<forall>i t c. A i = Some (t, c) \<longrightarrow> t \<in> T"
    using assms unfolding waiting_for_def by blast
  have "registry_rep (snd (pending_remove i st)) (A(i := None))"
    using prompts.rep_rem [OF A(1), of i] by (cases "pending_remove i st") simp
  moreover have "\<forall>j u d. (A(i := None)) j = Some (u, d) \<longrightarrow> u \<in> T" using A(2) by auto
  ultimately show ?thesis unfolding waiting_for_def by blast
qed

lemma waiting_clear: "waiting_for {t} st \<Longrightarrow> waiting_for {} (snd (pending_clear_turn t st))"
proof -
  assume "waiting_for {t} st"
  then obtain A where A: "registry_rep st A" "\<forall>i t' c. A i = Some (t', c) \<longrightarrow> t' = t" by (auto simp: waiting_for_def)
  have "registry_rep (snd (pending_clear_turn t st)) (without_turn t A)"
    using prompts.rep_clr [OF A(1), of t] by (metis prod.collapse)
  then show ?thesis using A(2) unfolding waiting_for_def by (metis without_turn_Some)
qed

lemma waiting_mono: "waiting_for T st \<Longrightarrow> T \<subseteq> U \<Longrightarrow> waiting_for U st"
  unfolding waiting_for_def by blast

lemma waiting_no_pending [simp]: "waiting_for T no_pending"
  unfolding waiting_for_def using prompts.rep_none by force

lemma waiting_none: "waiting_for {} st \<Longrightarrow> registry_rep st Map.empty \<and> pa_by_id st = []"
proof -
  assume "waiting_for {} st"
  then obtain A where A: "registry_rep st A" "\<forall>i t c. A i \<noteq> Some (t, c)" unfolding waiting_for_def by blast
  then have "A = Map.empty" by (metis not_None_eq prod.collapse ext)
  with A(1) have rep: "registry_rep st Map.empty" by simp
  then have "map_of (pa_by_id st) = Map.empty" by (intro ext) (simp add: registry_rep_def)
  with rep show ?thesis by simp
qed

section \<open>The prompts of the session\<close>

definition books_wait :: "string set \<Rightarrow> prompt_books \<Rightarrow> bool" where
  "books_wait T b \<longleftrightarrow> session_inv (pb_approvals b) \<and> waiting_for T (ss_pending (pb_approvals b))
     \<and> waiting_for T (si_pending (pb_inputs b))"

lemma pending_foldl_send [simp]: "ss_pending (foldl (\<lambda>s c. send c d s) s cs) = ss_pending s"
  by (induction cs arbitrary: s) auto

lemma pending_answers [simp]: "si_pending (answer_input r c s) = si_pending s"
  "si_pending (fold (answer_input r) cs s) = si_pending s"
  by (simp add: answer_input_def) (induction cs arbitrary: s; simp add: answer_input_def)

lemma pending_of_session:
  "ss_pending (request_exec_approval i t s) = snd (pending_insert i t (ss_next s) (ss_pending s))"
  "ss_pending (snd (notify_exec_approval i d s)) = snd (pending_remove i (ss_pending s))"
  "ss_pending (snd (clear_pending_approvals_for_turn t s)) = snd (pending_clear_turn t (ss_pending s))"
  by (simp_all add: request_exec_approval_def notify_exec_approval_def clear_pending_approvals_for_turn_def Let_def
      split: prod.split option.split)

lemma pending_of_inputs:
  "si_pending (request_user_input i t s') = snd (pending_insert i t (si_next s') (si_pending s'))"
  "si_pending (snd (notify_user_input i r s')) = snd (pending_remove i (si_pending s'))"
  "si_pending (snd (clear_pending_user_inputs_for_turn t s')) = snd (pending_clear_turn t (si_pending s'))"
  by (simp_all add: request_user_input_def notify_user_input_def clear_pending_user_inputs_for_turn_def
      inputs_insert_def inputs_remove_def inputs_clear_turn_def split: prod.split option.split)

lemma books_approval: "books_wait T b \<Longrightarrow> books_wait T (snd (approval_to i d b))"
  using session_step_inv [OF step_notify, of "pb_approvals b" i d]
  by (auto simp: books_wait_def approval_to_def pending_of_session [symmetric] split: prod.split
      dest: waiting_remove [of _ "ss_pending (pb_approvals b)" i])
    (metis pending_of_session(2) snd_conv waiting_remove)

lemma books_answer: "books_wait T b \<Longrightarrow> books_wait T (snd (answer_to i r b))"
  unfolding books_wait_def answer_to_def
  by (auto split: prod.split) (metis pending_of_inputs(2) snd_conv waiting_remove)

lemma books_ask:
  "books_wait T b \<Longrightarrow> t \<in> T \<Longrightarrow> books_wait T (b\<lparr>pb_approvals := request_exec_approval i t (pb_approvals b)\<rparr>)"
  "books_wait T b \<Longrightarrow> t \<in> T \<Longrightarrow> books_wait T (b\<lparr>pb_inputs := request_user_input i t (pb_inputs b)\<rparr>)"
  by (auto simp: books_wait_def pending_of_session pending_of_inputs waiting_insert intro: session_step_inv step_request)

lemma books_clear:
  "books_wait {t} b \<Longrightarrow> books_wait {} \<lparr>pb_approvals = snd (clear_pending_approvals_for_turn t (pb_approvals b)),
     pb_inputs = snd (clear_pending_user_inputs_for_turn t (pb_inputs b))\<rparr>"
  by (auto simp: books_wait_def pending_of_session pending_of_inputs waiting_clear intro: session_step_inv step_clear_turn)

lemma books_mono: "books_wait T b \<Longrightarrow> T \<subseteq> U \<Longrightarrow> books_wait U b"
  by (auto simp: books_wait_def intro: waiting_mono)

lemma deliver_books: "(\<And>b. books_wait T b \<Longrightarrow> books_wait T (snd (f b))) \<Longrightarrow> books_wait T (lw_books w)
    \<Longrightarrow> books_wait T (lw_books (snd (deliver f w)))"
  by (force simp: deliver_def split: prod.split bool.split option.split)

section \<open>What the loop holds\<close>

definition holds_of :: "loop_world \<Rightarrow> user_input active_turn_state \<times> prompt_books" where
  "holds_of w = (lw_turn w, lw_books w)"

lemma holds_of_steps [simp]:
  "holds_of (loop_emit ev w) = holds_of w" "holds_of (warn t m w) = holds_of w"
  "holds_of (in_turn_state g w) = (g (lw_turn w), lw_books w)"
  "holds_of (announce_input t items w) = holds_of w" "holds_of (session_configured w) = holds_of w"
  "holds_of (steer_rejected t e err w) = holds_of w" "holds_of (arrive sub w) = holds_of w"
  "holds_of (take_up sub w) = holds_of w" "holds_of (w\<lparr>lw_queue := q\<rparr>) = holds_of w"
  "holds_of (w\<lparr>lw_closed := True\<rparr>) = holds_of w"
  by (simp_all add: holds_of_def loop_emit_def warn_def in_session_def in_turn_state_def arrive_def
      take_up_def announce_input_def session_configured_def steer_rejected_def Let_def split: steer_input_error.split)

lemma holds_of_compaction [simp]:
  "holds_of (compacted t reason n r w) = holds_of w" "holds_of (run_manual_compaction lib t w) = holds_of w"
  "holds_of (maybe_compact_before_model_switch lib m l t w) = holds_of w"
  by (simp_all add: compacted_def run_manual_compaction_def maybe_compact_before_model_switch_def Let_def holds_of_def
      loop_emit_def in_session_def replace_history_def update_token_usage_def warn_def split: sum.split option.split)

lemma holds_of_reconfigure [simp]: "holds_of (reconfigure lib t f w) = holds_of w"
proof -
  let ?w = "maybe_compact_before_model_switch lib (tc_model (lw_config w)) (tc_context_window_limit (lw_config w)) t
     (w\<lparr>lw_config := sync_turn_context_window_limit lib (f (lw_config w))\<rparr>)"
  have "holds_of ?w = holds_of (w\<lparr>lw_config := sync_turn_context_window_limit lib (f (lw_config w))\<rparr>)" by simp
  then show ?thesis by (simp add: holds_of_def reconfigure_def Let_def)
qed

definition nothing_held :: "user_input active_turn_state \<times> prompt_books \<Rightarrow> bool" where
  "nothing_held h \<longleftrightarrow> fst h = \<lparr>at_turn_id = None, at_pending_inputs = []\<rparr> \<and> books_wait {} (snd h)"

definition held_by_turn :: "string \<Rightarrow> user_input active_turn_state \<times> prompt_books \<Rightarrow> bool" where
  "held_by_turn t h \<longleftrightarrow> at_turn_id (fst h) = Some t \<and> books_wait {t} (snd h)"

definition held_at_end :: "string \<Rightarrow> user_input active_turn_state \<times> prompt_books \<Rightarrow> bool" where
  "held_at_end t h \<longleftrightarrow> (at_turn_id (fst h) = Some t \<or> fst h = \<lparr>at_turn_id = None, at_pending_inputs = []\<rparr>) \<and> books_wait {t} (snd h)"

lemma turn_deliver: "lw_turn (snd (deliver f w)) = lw_turn w"
  by (simp add: deliver_def split: prod.split bool.split option.split)

lemma books_of_warn [simp]: "lw_books (warn t m w) = lw_books w" "lw_turn (warn t m w) = lw_turn w"
  by (simp_all add: warn_def loop_emit_def)

lemma answers_keep:
  "lw_turn (exec_approval t i o' d w) = lw_turn w" "lw_turn (user_input_answer t i r w) = lw_turn w"
  "books_wait T (lw_books w) \<Longrightarrow> books_wait T (lw_books (exec_approval t i o' d w))"
  "books_wait T (lw_books w) \<Longrightarrow> books_wait T (lw_books (user_input_answer t i r w))"
  using deliver_books [where f = "approval_to i d" and w = w and T = T, OF books_approval]
    turn_deliver [of "approval_to i d" w]
    deliver_books [where f = "answer_to i r" and w = w and T = T, OF books_answer] turn_deliver [of "answer_to i r" w]
  by (auto simp: exec_approval_def user_input_answer_def split: prod.splits bool.splits)

lemma steer_keeps:
  "lw_books (steer t e items w) = lw_books w" "at_turn_id (lw_turn (steer t e items w)) = at_turn_id (lw_turn w)"
  "at_turn_id (lw_turn w) = None \<Longrightarrow> lw_turn (steer t e items w) = lw_turn w"
  by (auto simp: steer_def steer_input_def in_turn_state_def in_session_def steer_rejected_def split: option.splits)

lemma nothing_held_answers:
  "nothing_held (holds_of w) \<Longrightarrow> nothing_held (holds_of (exec_approval t i o' d w))"
  "nothing_held (holds_of w) \<Longrightarrow> nothing_held (holds_of (user_input_answer t i r w))"
  "nothing_held (holds_of w) \<Longrightarrow> nothing_held (holds_of (steer t e items w))"
  by (auto simp: nothing_held_def holds_of_def answers_keep steer_keeps)

lemma held_by_turn_answers:
  "held_by_turn u (holds_of w) \<Longrightarrow> held_by_turn u (holds_of (exec_approval t i o' d w))"
  "held_by_turn u (holds_of w) \<Longrightarrow> held_by_turn u (holds_of (user_input_answer t i r w))"
  "held_by_turn u (holds_of w) \<Longrightarrow> held_by_turn u (holds_of (steer t e items w))"
  by (auto simp: held_by_turn_def holds_of_def answers_keep steer_keeps)

lemma plain_holds:
  "before_turn lib sub w = None \<Longrightarrow> nothing_held (holds_of w)
    \<Longrightarrow> nothing_held (holds_of (snd (snd (handle_submission lib sub is w))))"
  by (auto simp: before_turn_def handle_submission_def Let_def nothing_held_answers split: op.splits)

lemma before_turn_holds:
  "before_turn lib sub w = Some (items, w1) \<Longrightarrow> holds_of w1 = holds_of w"
  by (auto simp: before_turn_def Let_def split: op.splits if_splits)

lemma during_holds:
  "held_by_turn t (holds_of w) \<Longrightarrow> during_turn t sub (arrive sub w) = (b, w1) \<Longrightarrow> held_by_turn t (holds_of w1)"
  by (auto simp: during_turn_def held_by_turn_answers split: op.splits)

lemma held_by_turn_end: "held_by_turn t h \<Longrightarrow> held_at_end t h"
  by (simp add: held_by_turn_def held_at_end_def)

interpretation prompts_held: loop_invariant lib "\<lambda>w. nothing_held (holds_of w)" "\<lambda>_ w. nothing_held (holds_of w)"
  "\<lambda>t _ _ w. held_by_turn t (holds_of w)" "\<lambda>t w. held_at_end t (holds_of w)"
proof (unfold_locales, goal_cases)
  case (3 sub w "is")
  then show ?case by (intro plain_holds)
next
  case (4 sub w items w1)
  then show ?case by (simp add: before_turn_holds)
next
  case (5 sub w items w1)
  then have "nothing_held (holds_of w1)" by (simp add: before_turn_holds)
  then show ?case
    by (auto simp: nothing_held_def holds_of_def held_by_turn_def SessionHistory.begin_turn_def in_turn_state_def in_session_def
        intro: books_mono)
next
  case (6 t m b w)
  then show ?case
    by (auto simp: first_poll_def holds_of_def held_by_turn_def SessionHistory.begin_turn_def in_turn_state_def in_session_def)
next
  case (7 t m w a)
  then show ?case
    by (cases a) (auto simp: turn_acts_def holds_of_def held_by_turn_def books_ask in_turn_state_def in_session_def
        take_pending_inputs_def append_message_def)
next
  case (8 t m w r)
  then show ?case
    by (auto simp: turn_returns_def Let_def holds_of_def held_by_turn_def held_at_end_def in_turn_state_def in_session_def
        SessionHistory.end_turn_def)
next
  case (9 t m b w sub w1)
  then show ?case by (rule during_holds)
next
  case (10 t m b w sub w1)
  then show ?case by (intro held_by_turn_end) (rule during_holds)
next
  case (11 t m b w)
  then show ?case by (simp add: held_by_turn_end)
next
  case (12 t w)
  then show ?case
    by (cases "lw_turn w") (auto simp: nothing_held_def holds_of_def held_at_end_def clear_prompts_def SessionHistory.end_turn_def in_turn_state_def
        in_session_def books_clear)
qed simp_all

end
