(* ===== verification/LoopProps.thy ===== *)
theory LoopProps
  imports LoopOrder
begin

text \<open>
  What the loop of submissions promises from its start: the order in which it works, what it holds
  between turns, the configuration of its turns, how prompts are answered while a turn runs, and
  what interrupting and shutting down do.
\<close>

section \<open>The start\<close>

lemma start_simps [simp]:
  "lw_queue (start_loop lib base sfx st team) = []" "lw_arrived (start_loop lib base sfx st team) = []"
  "lw_taken (start_loop lib base sfx st team) = []" "lw_turns (start_loop lib base sfx st team) = []"
  "lw_closed (start_loop lib base sfx st team) = False"
  "lw_turn (start_loop lib base sfx st team) = \<lparr>at_turn_id = None, at_pending_inputs = []\<rparr>"
  "lw_books (start_loop lib base sfx st team) = new_books"
  "sc_status (lw_status (start_loop lib base sfx st team)) = Ready"
  by (simp_all add: start_loop_def session_configured_def loop_emit_def Let_def new_session_def start_agent_def
      transition_def new_status_cell_def can_transition_to_def)

lemma start_settings:
  "settings_of (start_loop lib base sfx st team) =
     (let c = sync_turn_context_window_limit lib (build_turn_config base sfx st) in (c, c, []))"
  by (simp add: start_loop_def session_configured_def loop_emit_def Let_def settings_of_def)

lemma loop_waits_empty: "submission_loop lib is w = (Waiting, w') \<Longrightarrow> lw_queue w' = []"
proof (induction lib "is" w arbitrary: w' rule: submission_loop.induct)
  case (1 lib "is" w)
  show ?case
  proof (cases "lw_queue w")
    case (Cons sub q)
    obtain ph is1 w1 where h: "handle_submission lib sub is (take_up sub (w\<lparr>lw_queue := q\<rparr>)) = (ph, is1, w1)"
      by (metis prod_cases3)
    then show ?thesis using "1.IH"(4) [OF Cons h [symmetric] _ refl] "1.prems" loop_from_queue [OF Cons h]
      by (cases "ph = Waiting") auto
  next
    case queue: Nil
    show ?thesis
    proof (cases "is")
      case (Cons i rest)
      show ?thesis
      proof (cases i)
        case (Arrives m)
        show ?thesis
        proof (cases "received m w")
          case None
          then show ?thesis using "1.prems" Cons Arrives loop_hung_up [OF queue None] by simp
        next
          case (Some sub)
          obtain ph is1 w1 where h: "handle_submission lib sub rest (take_up sub (arrive sub w)) = (ph, is1, w1)"
            by (metis prod_cases3)
          show ?thesis using "1.IH"(3) [OF queue Cons Arrives Some h [symmetric] _ refl] "1.prems"
              loop_from_channel [OF queue Some h] Cons Arrives
            by (cases "ph = Waiting") auto
        qed
      qed (use "1.IH"(1,2) [OF queue Cons] "1.prems" Cons loop_skips [OF queue] in auto)
    qed (use "1.prems" loop_waits [OF queue, of lib] queue in \<open>auto split: if_splits\<close>)
  qed
qed

text \<open>C31. Whatever arrives and whatever the turns do, the submissions that are not handled at once are
  taken up in the order in which they arrived, none is lost and none is taken twice; those that are
  still to come are in the queue, which is empty when the loop waits.\<close>

theorem submissions_in_order:
  "case submission_loop lib is (start_loop lib base sfx st team) of (ph, w) \<Rightarrow>
     filter deferred (lw_taken w) @ lw_queue w = filter deferred (lw_arrived w)
       \<and> list_all deferred (lw_queue w) \<and> (case ph of Waiting \<Rightarrow> lw_queue w = [] | _ \<Rightarrow> True)"
proof (cases "submission_loop lib is (start_loop lib base sfx st team)")
  case (Pair ph w)
  have "all_deferred (start_loop lib base sfx st team)" by (simp add: all_deferred_def orderly_def)
  from order.loop_keeps [OF refl this Pair] have "all_deferred w"
    by (auto simp: order.settled_def split: submission_phase.splits)
  with loop_waits_empty [of lib "is" _ w] Pair show ?thesis
    by (auto simp: all_deferred_def orderly_def split: submission_phase.split)
qed

text \<open>C32. Between turns nothing is left of a turn.\<close>

theorem idle_loop_holds_nothing:
  "case submission_loop lib is (start_loop lib base sfx st team) of (ph, w) \<Rightarrow>
     case ph of
       In_Turn t \<Rightarrow> at_turn_id (lw_turn w) = Some t
     | _ \<Rightarrow> lw_turn w = \<lparr>at_turn_id = None, at_pending_inputs = []\<rparr>
         \<and> pa_by_id (ss_pending (pb_approvals (lw_books w))) = []
         \<and> pa_by_id (si_pending (pb_inputs (lw_books w))) = []
         \<and> list_all (\<lambda>c. length (ss_answers (pb_approvals (lw_books w)) c) = 1)
             [0..<ss_next (pb_approvals (lw_books w))]"
proof (cases "submission_loop lib is (start_loop lib base sfx st team)")
  case (Pair ph w)
  have "nothing_held (holds_of (start_loop lib base sfx st team))"
    by (simp add: nothing_held_def holds_of_def books_wait_def new_books_def fresh_session_inv) (simp add: fresh_session_def)
  note settled = prompts_held.loop_keeps [OF refl this Pair, unfolded prompts_held.settled_def,
      unfolded nothing_held_def held_by_turn_def holds_of_def fst_conv snd_conv]
  have none: "pa_by_id (ss_pending (pb_approvals b)) = [] \<and> pa_by_id (si_pending (pb_inputs b)) = []
     \<and> (\<forall>c < ss_next (pb_approvals b). length (ss_answers (pb_approvals b) c) = 1)" if b: "books_wait {} b" for b
  proof -
    have none: "pa_by_id (ss_pending (pb_approvals b)) = []" "pa_by_id (si_pending (pb_inputs b)) = []"
      using b waiting_none by (auto simp: books_wait_def)
    obtain A where A: "registry_rep (ss_pending (pb_approvals b)) A"
      "channels_ok A (ss_next (pb_approvals b)) (ss_answers (pb_approvals b))"
      using b by (auto simp: books_wait_def session_inv_def)
    then have "\<not> holds A i c" for i c using none(1) by (auto simp: registry_rep_def holds_def dest: spec [of _ i])
    with A(2) none show ?thesis by (auto simp: channels_ok_def)
  qed
  show ?thesis
  proof (cases ph)
    case (In_Turn t)
    then show ?thesis using settled Pair by auto
  next
    case Waiting
    then show ?thesis using settled none [of "lw_books w"] Pair by (simp add: list_all_iff)
  next
    case Over
    then show ?thesis using settled none [of "lw_books w"] Pair by (simp add: list_all_iff)
  qed
qed

text \<open>C33. The configuration is what the submissions made of it, in the order in which they were taken
  up, and the turns that ran are among those that were asked for, in that order, each with the
  configuration of its place.\<close>


theorem turns_follow_submissions:
  "case submission_loop lib is (start_loop lib base sfx st team) of (ph, w) \<Rightarrow>
     (let c = sync_turn_context_window_limit lib (build_turn_config base sfx st)
      in lw_config w = configuration lib c (lw_taken w) \<and> lw_agent_config w = lw_config w
         \<and> subseq (lw_turns w) (turns_asked lib c (lw_taken w)))"
proof (cases "submission_loop lib is (start_loop lib base sfx st team)")
  case (Pair ph w)
  let ?c = "sync_turn_context_window_limit lib (build_turn_config base sfx st)"
  have "follows lib ?c (start_loop lib base sfx st team)"
    by (simp add: follows_def start_settings configuration_def Let_def)
  note settled = config.loop_keeps [OF refl this Pair, unfolded config.settled_def,
      unfolded follows_def follows_turn_def settings_of_def]
  show ?thesis using settled Pair
    by (cases ph) (auto simp: Let_def dest: subseq_beginning)
qed

section \<open>While a turn runs\<close>

text \<open>An approval reaches the prompt of a running turn at once, whatever waits in the queue.\<close>

theorem approval_reaches_turn:
  assumes "hm_get (pa_by_id (ss_pending (pb_approvals (lw_books w)))) i = Some c"
    and "sub_op sub = Op_ExecApproval i turn decision"
  shows "case during_turn t sub w of (left, w') \<Rightarrow>
     \<not> left \<and> lw_queue w' = lw_queue w \<and> lw_events w' = lw_events w
     \<and> ss_answers (pb_approvals (lw_books w')) c = decision # ss_answers (pb_approvals (lw_books w)) c
     \<and> hm_get (pa_by_id (ss_pending (pb_approvals (lw_books w')))) i = None"
  using assms
  by (simp add: during_turn_def exec_approval_def deliver_def approval_to_def notify_exec_approval_def
      pending_remove_def get_hm_remove Let_def)

text \<open>Interrupting a turn that has begun leaves the agent busy, and what the turn has recorded in the
  history.\<close>

definition turn_parts :: "turn_action list \<Rightarrow> loop_input list" where
  "turn_parts = map Turn_Acts"

lemma status_of_steps [simp]:
  "lw_status (loop_emit ev w) = lw_status w" "lw_status (in_turn_state g w) = lw_status w"
  "lw_status (clear_prompts t w) = lw_status w" "lw_status (turn_acts t a w) = lw_status w"
  "lw_status (announce_input t items w) = lw_status w" "lw_status (arrive sub w) = lw_status w"
  "lw_status (take_up sub w) = lw_status w" "lw_status (w\<lparr>lw_closed := x\<rparr>) = lw_status w"
  by (simp_all add: loop_emit_def in_session_def in_turn_state_def clear_prompts_def arrive_def
      take_up_def turn_acts_def announce_input_def split: turn_action.split)

lemma closed_of_steps [simp]:
  "lw_closed (loop_emit ev w) = lw_closed w" "lw_closed (in_turn_state g w) = lw_closed w"
  "lw_closed (turn_acts t a w) = lw_closed w" "lw_closed (first_poll t m b w) = lw_closed w"
  "lw_closed (announce_input t items w) = lw_closed w" "lw_closed (arrive sub w) = lw_closed w"
  "lw_closed (take_up sub w) = lw_closed w" "lw_closed (clear_prompts t w) = lw_closed w"
  by (simp_all add: loop_emit_def in_session_def in_turn_state_def arrive_def clear_prompts_def
      take_up_def turn_acts_def first_poll_def announce_input_def split: turn_action.split)

lemma interrupted_select:
  assumes "sub_op stop = Op_Interrupt" and "\<not> lw_closed w" and "lw_queue w = []"
    and "polled \<longrightarrow> sc_status (lw_status w) = Busy" and "sc_status (lw_status w) \<in> {Ready, Busy}" and "polled \<or> acts \<noteq> []"
  shows "\<exists>w'. select_loop t m polled (turn_parts acts @ [Arrives (Some stop)]) w = (True, [], w')
     \<and> sc_status (lw_status w') = Busy \<and> \<not> lw_closed w' \<and> lw_queue w' = []"
  using assms
proof (induction acts arbitrary: w polled)
  case Nil
  then show ?case by (simp add: turn_parts_def received_def during_turn_def)
next
  case (Cons a acts)
  let ?w = "turn_acts t a (first_poll t m polled w)"
  have "sc_status (lw_status ?w) = Busy" using Cons.prems
    by (auto simp: first_poll_def AgentControl.begin_turn_def transition_def can_transition_to_def)
  with Cons.IH [of ?w True] Cons.prems show ?case by (simp add: turn_parts_def)
qed

theorem interrupt_leaves_agent_busy:
  assumes "sub_op sub = Op_UserInput items" and "trim (user_message items) \<noteq> []"
    and "sub_op stop = Op_Interrupt" and "acts \<noteq> []"
  shows "case submission_loop lib (Arrives (Some sub) # turn_parts acts @ [Arrives (Some stop)])
       (start_loop lib base sfx st team) of (ph, w) \<Rightarrow> ph = Waiting \<and> sc_status (lw_status w) = Busy"
proof -
  let ?s = "start_loop lib base sfx st team"
  let ?w = "in_turn_state (SessionHistory.begin_turn (sub_id sub)) (announce_input (sub_id sub) items (take_up sub (arrive sub ?s)))"
  obtain w' where w': "select_loop (sub_id sub) (user_message items) False (turn_parts acts @ [Arrives (Some stop)]) ?w = (True, [], w')"
    "sc_status (lw_status w') = Busy" "\<not> lw_closed w'" "lw_queue w' = []"
    using interrupted_select [OF assms(3), of ?w False acts "sub_id sub" "user_message items"] assms(4) by auto
  have "handle_submission lib sub (turn_parts acts @ [Arrives (Some stop)]) (take_up sub (arrive sub ?s))
      = (Waiting, [], in_turn_state (SessionHistory.end_turn (sub_id sub)) w')"
    using assms(1,2) w'(1) by (simp add: handle_submission_def user_turn_def run_turn_with_interrupt_def Let_def)
  from loop_from_channel [OF _ _ this, of "Some sub"] w' show ?thesis
    by (simp add: received_def loop_waits)
qed

section \<open>Shutting down\<close>

text \<open>A shutdown that arrives while a turn runs announces that it is complete and only ends the turn:
  an input that waited in the queue is taken up next and its turn runs.\<close>

theorem shutdown_in_turn_goes_on:
  assumes "sub_op first' = Op_UserInput items" and "trim (user_message items) \<noteq> []"
    and "sub_op second' = Op_UserInput items'" and "trim (user_message items') \<noteq> []"
    and "sub_op down = Op_Shutdown"
  shows "case submission_loop lib [Arrives (Some first'), Arrives (Some second'), Arrives (Some down)]
       (start_loop lib base sfx st team) of (ph, w) \<Rightarrow>
     ph = In_Turn (sub_id second') \<and> LE_ShutdownComplete \<in> set (lw_events w)"
proof -
  let ?s = "start_loop lib base sfx st team"
  let ?w = "in_turn_state (SessionHistory.begin_turn (sub_id first')) (announce_input (sub_id first') items (take_up first' (arrive first' ?s)))"
  define w1 where "w1 = arrive down ((arrive second' ?w)\<lparr>lw_queue := [second']\<rparr>)"
  define w2 where "w2 = in_turn_state (SessionHistory.end_turn (sub_id first'))
    (clear_prompts (sub_id first') (loop_emit LE_ShutdownComplete w1))"
  have stopped: "handle_submission lib first' [Arrives (Some second'), Arrives (Some down)] (take_up first' (arrive first' ?s)) = (Waiting, [], w2)"
    using assms by (simp add: handle_submission_def user_turn_def run_turn_with_interrupt_def Let_def received_def
        during_turn_def w2_def w1_def arrive_def)
  have queue: "lw_queue w2 = [second']" by (simp add: w2_def w1_def)
  have said: "LE_ShutdownComplete \<in> set (lw_events w2)"
    by (simp add: w2_def in_turn_state_def in_session_def clear_prompts_def loop_emit_def)
  define w3 where "w3 = in_turn_state (SessionHistory.begin_turn (sub_id second'))
    (announce_input (sub_id second') items' (take_up second' (w2\<lparr>lw_queue := []\<rparr>)))"
  have next_turn: "handle_submission lib second' [] (take_up second' (w2\<lparr>lw_queue := []\<rparr>)) = (In_Turn (sub_id second'), [], w3)"
    using assms by (simp add: handle_submission_def user_turn_def run_turn_with_interrupt_def Let_def w3_def)
  have "LE_ShutdownComplete \<in> set (lw_events w3)"
    using said by (simp add: w3_def in_turn_state_def in_session_def announce_input_def loop_emit_def take_up_def)
  with loop_from_channel [OF _ _ stopped, of "Some first'"] loop_from_queue [OF queue next_turn] show ?thesis
    by (simp add: received_def)
qed

end
