(* ===== verification/TurnInvariant.thy ===== *)
theory TurnInvariant
  imports TurnRounds
begin

text \<open>
  The steps of a round up to the answer of the model keep every property of the history that user
  messages and compactions keep: the interface \<open>history_invariant\<close>, with which the theories on turns
  follow such a property through sampling, retries and rounds.
\<close>

section \<open>Steps that leave the messages alone\<close>

text \<open>Steps that change neither the history nor the requests.\<close>

definition same_messages :: "turn_world \<Rightarrow> turn_world \<Rightarrow> bool" where
  "same_messages w w' \<longleftrightarrow> tw_history w' = tw_history w \<and> tw_requests w' = tw_requests w"

lemma history_of_steps [simp]:
  "ss_history (emit_event ev s) = ss_history s" "ss_history (append_response_items items s) = ss_history s"
  "ss_history (append_message m s) = ss_history s @ [m]" "ss_history (set_token_usage us s) = ss_history s"
  "ss_history (update_token_usage us s) = ss_history s" "ss_history (replace_history h s) = h"
  by (simp_all add: emit_event_def append_response_items_def append_message_def set_token_usage_def
      update_token_usage_def replace_history_def)

lemma send_event_same: "same_messages w (snd (send_event ev w))"
  by (auto simp: send_event_def same_messages_def Let_def split: option.split nat.split)

lemma outcome_send:
  assumes "\<And>w w'. P w \<Longrightarrow> same_messages w w' \<Longrightarrow> P w'"
  shows "outcome P (send_event ev) (\<lambda>_. P) (\<lambda>_. P)"
proof (rule outcomeI)
  fix w assume "P w"
  then have "P (snd (send_event ev w))" by (rule assms) (rule send_event_same)
  then show "case send_event ev w of (Inl e, s') \<Rightarrow> P s' | (Inr x, s') \<Rightarrow> P s'"
    by (cases "send_event ev w") (auto split: sum.split)
qed

lemma steer_all_same: "same_messages w (steer_all sts w)"
proof (induction sts w rule: steer_all.induct)
  case (2 expected items rest w)
  then show ?case by (auto simp: same_messages_def split: prod.splits sum.splits)
qed (simp add: same_messages_def)

lemma history_record [simp]:
  "tw_history (record_message m w) = tw_history w @ [m]" "tw_requests (record_message m w) = tw_requests w"
  "tw_history (record_tool_output cfg i out w) = tw_history w @ [tool_message cfg i out]"
  "tw_requests (record_tool_output cfg i out w) = tw_requests w"
  by (simp_all add: record_message_def record_tool_output_def Let_def)

text \<open>Reading a stream only sends events and counts tokens.\<close>

lemma read_stream_keeps:
  assumes "\<And>w w'. P w \<Longrightarrow> same_messages w w' \<Longrightarrow> P w'"
  shows "outcome P (read_stream item_id ps delta calls flt') (\<lambda>_. P) (\<lambda>_. P)"
proof (induction ps arbitrary: delta calls flt')
  case Nil
  show ?case by (auto intro: outcome_give)
next
  case (Cons p ps)
  have count: "outcome P (count_tokens us) (\<lambda>_. P) (\<lambda>_. P)" for us
    unfolding count_tokens_def
    by (rule outcome_try [where R = "\<lambda>_. P"], rule outcome_change, erule assms)
      (auto simp: same_messages_def intro: outcome_send assms)
  show ?case
    using Cons.IH
    by (auto split: poll.split sum.split response_event.split option.split prod.split
        intro!: outcome_failing outcome_give outcome_try [OF count] outcome_try [OF outcome_send [OF assms]])
qed


section \<open>A property of histories\<close>

text \<open>A round keeps \<open>I\<close>, and \<open>M\<close> holds of the messages with which the next one starts.\<close>

definition round_keeps :: "(turn_world \<Rightarrow> bool) \<Rightarrow> (message list \<Rightarrow> bool) \<Rightarrow> (turn_error \<Rightarrow> turn_world \<Rightarrow> bool)
    \<Rightarrow> (turn_world \<Rightarrow> (turn_error + round_result) \<times> turn_world) \<Rightarrow> bool" where
  "round_keeps I M E m \<longleftrightarrow> outcome I m (\<lambda>res w. I w \<and> (\<forall>c ms'. res = Turn_Goes_On c ms' \<longrightarrow> M ms')) E"

text \<open>\<open>I\<close> is the property of the world, \<open>M\<close> what holds of the messages that are sent, \<open>proper\<close> what the
  prefix of the prompt and the configuration must satisfy for it.\<close>

locale history_invariant =
  fixes I :: "turn_world \<Rightarrow> bool" and M :: "message list \<Rightarrow> bool" and proper :: "message list \<Rightarrow> turn_config \<Rightarrow> bool"
  assumes same: "same_messages w w' \<Longrightarrow> I w \<Longrightarrow> I w'"
    and user: "I w \<Longrightarrow> I (record_message (Msg_User t) w)"
    and user_sent: "M ms \<Longrightarrow> M (ms @ [Msg_User t])"
    and request: "I w \<Longrightarrow> M ms \<Longrightarrow> I (w\<lparr>tw_requests := tw_requests w @ [ms]\<rparr>)"
    and compacted: "I w \<Longrightarrow> compact_history_with_summary from_str chat model (tw_history w) settings = Inr (Some r) \<Longrightarrow>
      I (on_session (replace_history (ac_compacted_history r)) w)"
    and rebuilt: "I w \<Longrightarrow> proper prompt_prefix cfg \<Longrightarrow> M (rebuild_messages_from_session cfg prompt_prefix (tw_session w))"
begin

lemma send: "outcome I (send_event ev) (\<lambda>_. I) (\<lambda>_. I)"
  by (rule outcome_send) (rule same)

lemma steer: "outcome I (change (steer_all sts)) (\<lambda>_. I) (\<lambda>_. I)"
  by (rule outcome_change) (rule same [OF steer_all_same])

lemma taken: "M ms \<Longrightarrow> outcome I (take_inputs inputs ms) (\<lambda>ms' w. I w \<and> M ms') (\<lambda>_. I)"
proof (induction inputs arbitrary: ms)
  case (Cons items rest)
  show ?case
    unfolding take_inputs.simps
    by (intro outcome_try [where R = "\<lambda>_. I"] send outcome_change user Cons.IH user_sent Cons.prems)
qed (auto intro: outcome_give)

lemma drained:
  assumes "M ms"
  shows "outcome I (drain_inputs ms) (\<lambda>ms' w. I w \<and> M ms') (\<lambda>_. I)"
proof (rule outcomeI)
  fix w assume w: "I w"
  have "I (on_session (\<lambda>s. s\<lparr>ss_turn := t\<rparr>) w)" for t
    by (rule same [OF _ w]) (simp add: same_messages_def)
  from outcomeD [OF taken [OF assms] this]
  show "case drain_inputs ms w of (Inl e, s') \<Rightarrow> I s' | (Inr x, s') \<Rightarrow> I s' \<and> M x"
    by (simp add: drain_inputs_def take_pending_inputs_def)
qed

lemma compact:
  assumes "proper prompt_prefix cfg"
  shows "outcome I (compact_messages lib cfg prompt_prefix ms reason)
    (\<lambda>r w. I w \<and> (\<forall>ms'. r = Some ms' \<longrightarrow> M ms')) (\<lambda>_. I)"
proof (rule outcomeI)
  fix w assume w: "I w"
  show "case compact_messages lib cfg prompt_prefix ms reason w of (Inl e, s') \<Rightarrow> I s'
      | (Inr r, s') \<Rightarrow> I s' \<and> (\<forall>ms'. r = Some ms' \<longrightarrow> M ms')"
  proof (cases "compact_history_with_summary (json_of lib) (tl_chat lib) (tc_model cfg) (tw_history w) (tc_compaction cfg)")
    case (Inr r)
    show ?thesis
    proof (cases r)
      case (Some c)
      define w1 where "w1 = on_session (update_token_usage (ac_usage c)) w"
      define w2 where "w2 = on_session (replace_history (ac_compacted_history c)) w1"
      have "I w1" by (rule same [OF _ w]) (simp add: w1_def same_messages_def)
      moreover have "tw_history w1 = tw_history w" by (simp add: w1_def)
      ultimately have w2: "I w2" unfolding w2_def using Inr Some by (intro compacted) auto
      from rebuilt [OF w2 assms]
      have "outcome I (try_do (send_event ev) (\<lambda>_. give (Some (rebuild_messages_from_session cfg prompt_prefix (tw_session w2)))))
          (\<lambda>r w. I w \<and> (\<forall>ms'. r = Some ms' \<longrightarrow> M ms')) (\<lambda>_. I)" for ev
        by (intro outcome_try [OF send] outcome_give) auto
      from outcomeD [OF this w2] show ?thesis
        using w Some Inr by (auto simp: compact_messages_def Let_def w2_def w1_def)
    qed (use Inr w in \<open>auto simp: compact_messages_def Let_def\<close>)
  qed (use w in \<open>auto simp: compact_messages_def Let_def\<close>)
qed

lemma auto_compact:
  assumes "proper prompt_prefix cfg" and "M ms"
  shows "outcome I (maybe_run_auto_compact lib cfg prompt_prefix ms) (\<lambda>ms' w. I w \<and> M ms') (\<lambda>_. I)"
  using assms(2) unfolding maybe_run_auto_compact_def
  by (auto simp: Let_def split: option.split intro!: outcome_if outcome_give outcome_try [OF compact [OF assms(1)]])

lemma try_run:
  assumes "M ms"
  shows "outcome I (try_run_sampling_request a item_id ms) (\<lambda>_. I) (\<lambda>_. I)"
proof (cases "at_runtime_info a")
  case None
  show ?thesis
    unfolding try_run_sampling_request_def None option.simps
    by (auto split: sum.split intro!: outcome_failing read_stream_keeps request assms
        outcome_try [where R = "\<lambda>_. I", OF outcome_change] elim: same)
qed (auto simp: try_run_sampling_request_def intro: outcome_failing)

lemma sampling:
  "proper prompt_prefix cfg \<Longrightarrow> M ms \<Longrightarrow> I w \<Longrightarrow>
    case sampling_loop lib cfg prompt_prefix item_id attempts i r ov ms w of
      (Inl e, w') \<Rightarrow> I w' | (Inr (out, ms'), w') \<Rightarrow> I w' \<and> M ms'"
proof (induction lib cfg prompt_prefix item_id attempts i r ov ms w rule: sampling_loop.induct)
  case (1 lib cfg prompt_prefix item_id attempts i r ov ms w)
  note prems = 1(3-5)
  obtain res w1 where try': "try_run_sampling_request (attempts i) item_id ms w = (res, w1)" by fastforce
  have w1: "I w1" by (rule outcome_any [OF try_run [OF prems(2)] prems(3) try'])
  show ?case
  proof (cases res)
    case (Inr out)
    then show ?thesis using w1 try' prems(2) by (subst sampling_loop.simps) simp
  next
    case (Inl err)
    obtain res2 w2 where comp: "compact_messages lib cfg prompt_prefix ms Overflow w1 = (res2, w2)" by fastforce
    have c: "I w2 \<and> (\<forall>ms'. res2 = Inr (Some ms') \<longrightarrow> M ms')"
      using outcome_Inl [OF compact [OF prems(1)] w1] outcome_Inr [OF compact [OF prems(1)] w1] comp
      by (cases res2) auto
    let ?ev = "Ev_Warning (''Reconnecting... '' @ show_nat (r + 1) @ ''/'' @ show_nat max_retries)"
    obtain res3 w3 where warn: "send_event ?ev w1 = (res3, w3)" by fastforce
    have s: "I w3" by (rule outcome_any [OF send w1 warn])
    show ?thesis
      using 1(1,2) try' Inl comp c warn s w1 prems
      by (subst sampling_loop.simps) (auto split: sum.splits option.splits)
  qed
qed

lemma request_kept:
  assumes "proper prompt_prefix cfg" and "M ms"
  shows "outcome I (run_sampling_request lib cfg prompt_prefix item_id attempts ms) (\<lambda>x w. I w \<and> M (snd x)) (\<lambda>_. I)"
proof (rule outcomeI)
  fix w assume "I w"
  from sampling [OF assms this] show "case run_sampling_request lib cfg prompt_prefix item_id attempts ms w of
      (Inl e, s') \<Rightarrow> I s' | (Inr x, s') \<Rightarrow> I s' \<and> M (snd x)"
    unfolding run_sampling_request_def by (fastforce split: prod.splits sum.splits)
qed

text \<open>A round: what is left to show is how the answer is treated.\<close>

lemma round:
  assumes answer: "\<And>r ms. M ms \<Longrightarrow> round_keeps I M E (answer_round lib cfg rd content ms r)"
    and E: "\<And>e w. I w \<Longrightarrow> E e w" and "proper prompt_prefix cfg" and "M ms"
  shows "round_keeps I M E (sse_round lib cfg prompt_prefix rd content ms)"
proof -
  note weaken = outcome_weaken [OF _ _ _ E]
  show ?thesis
    unfolding sse_round_def round_keeps_def
    by (intro outcome_if outcome_failing E, assumption,
        rule outcome_try [OF weaken [OF steer]], assumption, assumption, assumption,
        rule outcome_try [OF weaken [OF drained [OF assms(4)]]], assumption, assumption, assumption, rule outcome_assuming,
        rule outcome_try [OF weaken [OF auto_compact [OF assms(3)]]], assumption, assumption, assumption, assumption, rule outcome_assuming,
        rule outcome_try [OF weaken [OF send]], assumption, assumption, assumption,
        rule outcome_try [OF weaken [OF request_kept [OF assms(3)]]], assumption, assumption, assumption, assumption, rule outcome_assuming)
      (auto intro!: outcome_try [where R = "\<lambda>_. I", OF weaken [OF steer]] answer [unfolded round_keeps_def])
qed

lemma rounds:
  assumes answer: "\<And>rd r ms content. rd \<in> set rds \<Longrightarrow> M ms \<Longrightarrow> round_keeps I M E (answer_round lib cfg rd content ms r)"
    and E: "\<And>e w. I w \<Longrightarrow> E e w" and proper: "proper prompt_prefix cfg"
  shows "M ms \<Longrightarrow> I w \<Longrightarrow>
    (case run_rounds lib cfg prompt_prefix rds content ms w of (Some (Inl e), w') \<Rightarrow> E e w' | (_, w') \<Rightarrow> I w')"
  using answer
proof (induction rds arbitrary: content ms w)
  case (Cons rd rds)
  have r: "outcome I (sse_round lib cfg prompt_prefix rd content ms)
      (\<lambda>res w. I w \<and> (\<forall>c ms'. res = Turn_Goes_On c ms' \<longrightarrow> M ms')) E"
    unfolding round_keeps_def [symmetric] by (rule round [OF Cons.prems(3) E proper Cons.prems(1)]) simp_all
  obtain res w1 where run: "sse_round lib cfg prompt_prefix rd content ms w = (res, w1)" by fastforce
  show ?case
  proof (cases res)
    case (Inl e)
    then show ?thesis using outcome_Inl [OF r Cons.prems(2)] run by simp
  next
    case (Inr x)
    then have x: "I w1 \<and> (\<forall>c ms'. x = Turn_Goes_On c ms' \<longrightarrow> M ms')" using outcome_Inr [OF r Cons.prems(2)] run by simp
    show ?thesis
    proof (cases x)
      case (Turn_Goes_On c ms')
      with x have "M ms'" "I w1" by auto
      from Cons.IH [OF this Cons.prems(3)] show ?thesis using run Inr Turn_Goes_On by simp
    qed (use run Inr x in simp)
  qed
qed simp

text \<open>A whole turn; what is left of the invariant after an error is \<open>F\<close>.\<close>

lemma turn:
  assumes answer: "\<And>rd r ms content. rd \<in> set rds \<Longrightarrow> M ms \<Longrightarrow> round_keeps I M (\<lambda>_. F) (answer_round lib cfg rd content ms r)"
    and F: "\<And>w. I w \<Longrightarrow> F w" "\<And>w w'. same_messages w w' \<Longrightarrow> F w \<Longrightarrow> F w'"
    and built: "\<And>w prompt_prefix ms w'. I w \<Longrightarrow> build_messages cfg parts content w = (Inr (prompt_prefix, ms), w') \<Longrightarrow>
      proper prompt_prefix cfg \<and> M ms"
    and "I w"
  shows "case run_turn_with_id lib cfg parts rds content turn_id w of (Some (Inl e), w') \<Rightarrow> F w' | (_, w') \<Rightarrow> I w'"
proof -
  have on_turn: "same_messages w (on_session (\<lambda>s. s\<lparr>ss_turn := f (ss_turn s)\<rparr>) w)" for w f
    by (simp add: same_messages_def)
  define w0 where "w0 = on_session (\<lambda>s. s\<lparr>ss_turn := begin_turn turn_id (ss_turn s)\<rparr>) w"
  have w0: "I w0" using same [OF on_turn assms(5)] by (simp add: w0_def)
  obtain r1 w1 where begun: "send_event TurnStarted w0 = (r1, w1)" by fastforce
  have w1: "I w1" by (rule outcome_any [OF send w0 begun])
  obtain r2 w2 where build: "build_messages cfg parts content w1 = (r2, w2)" by fastforce
  have w2: "w2 = w1" using build by (auto simp: build_messages_def Let_def split: sum.splits)
  have body: "case run_turn_body lib cfg parts rds content w0 of (Some (Inl e), w') \<Rightarrow> F w' | (_, w') \<Rightarrow> I w'"
  proof (cases r1)
    case (Inr u)
    show ?thesis
    proof (cases r2)
      case (Inr p)
      obtain prompt_prefix ms where p: "p = (prompt_prefix, ms)" by (cases p)
      define w3 where "w3 = record_message (Msg_User content) w1"
      obtain r4 w4 where run: "run_rounds lib cfg prompt_prefix rds [] ms w3 = (r4, w4)" by fastforce
      have "proper prompt_prefix cfg \<and> M ms" using built [OF w1] build Inr p by blast
      moreover have "I w3" unfolding w3_def by (rule user [OF w1])
      ultimately have "case run_rounds lib cfg prompt_prefix rds [] ms w3 of (Some (Inl e), w') \<Rightarrow> F w' | (_, w') \<Rightarrow> I w'"
        using F(1) by (intro rounds [OF answer]) auto
      then have w4: "case r4 of Some (Inl e) \<Rightarrow> F w4 | _ \<Rightarrow> I w4" using run by (auto split: option.splits sum.splits)
      have body: "run_turn_body lib cfg parts rds content w0
          = (case r4 of None \<Rightarrow> (None, w4) | Some r \<Rightarrow> (let (r', w5) = conclude r w4 in (Some r', w5)))"
        using begun build \<open>r1 = Inr u\<close> Inr p w2 run by (simp add: run_turn_body_def w3_def)
      have ends: "outcome I (conclude (Inr c)) (\<lambda>_. I) (\<lambda>_. F)" for c
        unfolding conclude_def sum.case
        by (rule outcome_try [where R = "\<lambda>_. I", OF outcome_weaken [OF send _ _ F(1)]]) (auto intro: outcome_give)
      have sent: "outcome F (send_event ev) (\<lambda>_. F) (\<lambda>_. F)" for ev
        by (rule outcome_send) (rule F(2))
      have fails: "outcome F (conclude (Inl e)) (\<lambda>_ _. False) (\<lambda>_. F)" for e
        by (auto simp: conclude_def split: turn_error.split intro!: outcome_try [OF sent] outcome_failing)
      show ?thesis
      proof (cases r4)
        case (Some r)
        obtain r5 w5 where conc: "conclude r w4 = (r5, w5)" by fastforce
        show ?thesis
        proof (cases r)
          case (Inl e)
          then have w4: "F w4" using w4 Some by simp
          show ?thesis
            using outcome_Inl [OF fails w4, of e] outcome_Inr [OF fails w4, of e] conc Inl
            by (cases r5) (auto simp: body Some)
        next
          case (Inr c)
          then have w4: "I w4" using w4 Some by simp
          show ?thesis
            using outcome_Inl [OF ends w4, of c] outcome_Inr [OF ends w4, of c] conc Inr
            by (cases r5) (auto simp: body Some)
        qed
      qed (use w4 body in simp)
    qed (use w1 w2 F(1) begun build Inr in \<open>simp add: run_turn_body_def\<close>)
  qed (use w1 F(1) begun in \<open>simp add: run_turn_body_def\<close>)
  obtain r w' where run: "run_turn_body lib cfg parts rds content w0 = (r, w')" by fastforce
  have turn: "run_turn_with_id lib cfg parts rds content turn_id w
      = (r, case r of None \<Rightarrow> w' | Some _ \<Rightarrow> on_session (\<lambda>s. s\<lparr>ss_turn := end_turn turn_id (ss_turn s)\<rparr>) w')"
    using run by (auto simp: run_turn_with_id_def w0_def split: option.split)
  show ?thesis
    using body unfolding turn run by (auto split: option.splits sum.splits intro: same [OF on_turn] F(2) [OF on_turn])
qed

end

end
