(* ===== verification/TurnEvents.thy ===== *)
theory TurnEvents
  imports TurnInvariant
begin

text \<open>
  What a client that listens sees of a turn: one event that concludes it, the steering inputs in the
  order in which they were accepted, and the answer of the model as the filter shows it.
\<close>

section \<open>Steps that only add events\<close>

definition adds :: "(turn_event \<Rightarrow> bool) \<Rightarrow> turn_world \<Rightarrow> turn_world \<Rightarrow> bool" where
  "adds A w w' \<longleftrightarrow> (tw_room w = None \<longrightarrow> tw_room w' = None
     \<and> ss_turn (tw_session w') = ss_turn (tw_session w) \<and> tw_accepted w' = tw_accepted w
     \<and> (\<exists>evs. ss_events (tw_session w') = ss_events (tw_session w) @ evs \<and> list_all A evs))"

lemma adds_refl [simp]: "adds A w w"
  by (simp add: adds_def)

lemma adds_trans: "adds A w w1 \<Longrightarrow> adds A w1 w2 \<Longrightarrow> adds A w w2"
  unfolding adds_def by (metis append.assoc list_all_append)

lemma adds_send: "A ev \<Longrightarrow> adds A w (snd (send_event ev w))"
  by (auto simp: adds_def send_event_def emit_event_def Let_def split: option.split)

lemma adds_session: "(\<And>s. ss_turn (f s) = ss_turn s \<and> ss_events (f s) = ss_events s) \<Longrightarrow> adds A w (on_session f w)"
  by (simp add: adds_def)

lemma events_of_steps [simp]:
  "ss_events (append_message m s) = ss_events s" "ss_events (append_response_items items s) = ss_events s"
  "ss_events (replace_history h s) = ss_events s" "ss_events (set_token_usage us s) = ss_events s"
  "ss_events (update_token_usage us s) = ss_events s" "ss_turn (append_message m s) = ss_turn s"
  "ss_turn (append_response_items items s) = ss_turn s" "ss_turn (replace_history h s) = ss_turn s"
  "ss_turn (set_token_usage us s) = ss_turn s" "ss_turn (update_token_usage us s) = ss_turn s"
  by (simp_all add: append_message_def append_response_items_def replace_history_def set_token_usage_def
      update_token_usage_def)

lemma adds_try:
  assumes "\<And>w. adds A w (snd (m w))" and "\<And>x w. adds A w (snd (k x w))"
  shows "adds A w (snd (try_do m k w))"
proof -
  obtain r w1 where m: "m w = (r, w1)" by fastforce
  then have w1: "adds A w w1" using assms(1) [of w] by simp
  show ?thesis
  proof (cases r)
    case (Inr x)
    then show ?thesis using adds_trans [OF w1 assms(2) [of w1 x]] m by (simp add: try_do_def)
  qed (use m w1 in \<open>simp add: try_do_def\<close>)
qed

lemma adds_change: "(\<And>w. adds A w (f w)) \<Longrightarrow> adds A w (snd (change f w))"
  by (simp add: change_def)

lemma adds_ends [simp]: "adds A w (snd (give x w))" "adds A w (snd (failing e w))"
  by (simp_all add: give_def failing_def)

lemma adds_for_each: "(\<And>x w. adds A w (snd (f x w))) \<Longrightarrow> adds A w (snd (for_each f xs w))"
  by (induction xs arbitrary: w) (auto intro: adds_try)

text \<open>The events that belong to the answer of the model.\<close>

fun inner :: "turn_event \<Rightarrow> bool" where
  "inner (AgentItemStarted _) = True"
| "inner (AgentItemCompleted _ _) = True"
| "inner (ContentDelta _ _) = True"
| "inner (TokenCount _ _ _ _ _) = True"
| "inner (Ev_Warning _) = True"
| "inner (ContextCompacted _ _ _) = True"
| "inner (ExecCommandBegin _ _) = True"
| "inner _ = False"

lemmas adds_steps = adds_try adds_send adds_change adds_for_each

lemma adds_stream: "adds inner w (snd (read_stream item_id ps delta calls flt' w))"
proof (induction ps arbitrary: delta calls flt' w)
  case (Cons p ps)
  have count: "adds inner w (snd (count_tokens us w))" for us w
    unfolding count_tokens_def by (intro adds_steps adds_session) simp_all
  show ?case
    using Cons by (auto split: poll.split sum.split response_event.split option.split prod.split intro!: adds_try count adds_send)
qed simp

lemma adds_try_run: "adds inner w (snd (try_run_sampling_request a item_id ms w))"
proof (cases "at_runtime_info a")
  case None
  have "adds inner w (w\<lparr>tw_requests := reqs\<rparr>)" for w reqs by (simp add: adds_def)
  then show ?thesis
    unfolding try_run_sampling_request_def None option.simps
    by (intro adds_try adds_change) (auto split: sum.split intro: adds_stream)
qed (simp add: try_run_sampling_request_def)

lemma adds_compact: "adds inner w (snd (compact_messages lib cfg prompt_prefix ms reason w))"
proof -
  have "adds inner w (on_session (\<lambda>s. replace_history h (update_token_usage us s)) w)" for h us
    by (rule adds_session) simp
  note made = adds_trans [OF this]
  show ?thesis
    by (auto simp: compact_messages_def Let_def split: sum.split option.split intro!: made adds_try adds_send)
qed

lemma adds_auto_compact: "adds inner w (snd (maybe_run_auto_compact lib cfg prompt_prefix ms w))"
  by (auto simp: maybe_run_auto_compact_def Let_def split: option.split intro!: adds_try adds_compact)

lemma adds_sampling: "adds inner w (snd (sampling_loop lib cfg prompt_prefix item_id attempts i r ov ms w))"
proof (induction lib cfg prompt_prefix item_id attempts i r ov ms w rule: sampling_loop.induct)
  case (1 lib cfg prompt_prefix item_id attempts i r ov ms w)
  obtain res w1 where try': "try_run_sampling_request (attempts i) item_id ms w = (res, w1)" by fastforce
  have w1: "adds inner w w1" using adds_try_run [of w "attempts i" item_id ms] try' by simp
  obtain res2 w2 where comp: "compact_messages lib cfg prompt_prefix ms Overflow w1 = (res2, w2)" by fastforce
  have w2: "adds inner w w2" using adds_trans [OF w1 adds_compact] comp by (metis snd_conv)
  let ?ev = "Ev_Warning (''Reconnecting... '' @ show_nat (r + 1) @ ''/'' @ show_nat max_retries)"
  obtain res3 w3 where warn: "send_event ?ev w1 = (res3, w3)" by fastforce
  have w3: "adds inner w w3" using adds_trans [OF w1 adds_send, of ?ev] warn by simp
  show ?case
    using 1 try' comp warn w1 adds_trans [OF w2] adds_trans [OF w3] w2 w3
    by (subst sampling_loop.simps) (auto split: sum.split option.split)
qed

lemma adds_request: "adds inner w (snd (run_sampling_request lib cfg prompt_prefix item_id attempts ms w))"
  by (simp add: run_sampling_request_def adds_sampling)

lemma adds_tools: "adds inner w (snd (run_tool_calls lib cfg replies i calls ms w))"
proof (induction calls arbitrary: i ms w)
  case (Cons call calls)
  have "adds inner w (record_tool_output cfg call_id out w)" for w call_id out
    using adds_session [of "\<lambda>s. append_response_items items (append_message m s)" inner w for items m]
    by (simp add: record_tool_output_def Let_def)
  then show ?case using Cons by (auto split: sum.split prod.split intro!: adds_try adds_change)
qed simp

lemma adds_answer: "adds inner w (snd (answer_round lib cfg rd c ms r w))"
proof -
  have rec: "adds inner w (record_message m w)" for w m
    using adds_session [of "\<lambda>s. append_response_items items (append_message m s)" inner w for items]
    by (simp add: record_message_def)
  have items: "adds inner w (on_session (append_response_items items) w)" for w items by (rule adds_session) simp
  have begins: "adds inner w (snd (begin_call call w))" for w call
    by (simp add: begin_call_def adds_send)
  show ?thesis
    unfolding answer_round_def Let_def by (auto intro!: adds_steps rec items begins adds_tools)
qed

section \<open>Inputs and conclusions\<close>

definition shown_inputs :: "turn_event list \<Rightarrow> user_input list list" where
  "shown_inputs evs = List.map_filter (\<lambda>e. case e of UserItemCompleted items \<Rightarrow> Some items | _ \<Rightarrow> None) evs"

text \<open>The events that begin a turn or end it.\<close>

fun control :: "turn_event \<Rightarrow> bool" where
  "control TurnStarted = True"
| "control TurnCompleted = True"
| "control (TurnErrored _) = True"
| "control (TurnAborted _) = True"
| "control (Ev_Error _) = True"
| "control _ = False"

lemma shown_append [simp]: "shown_inputs (xs @ ys) = shown_inputs xs @ shown_inputs ys"
  by (simp add: shown_inputs_def List.map_filter_def)

lemma shown_inner: "list_all inner evs \<Longrightarrow> shown_inputs evs = []"
  by (induction evs) (auto simp: shown_inputs_def List.map_filter_simps split: turn_event.split)

lemma control_inner: "list_all inner evs \<Longrightarrow> list_all (\<lambda>e. \<not> control e) evs"
  by (induction evs) (auto elim!: inner.elims)

text \<open>The accepted inputs are those that were shown, and those that wait.\<close>

definition balanced :: "turn_world \<Rightarrow> bool" where
  "balanced w \<longleftrightarrow> tw_accepted w = shown_inputs (ss_events (tw_session w)) @ at_pending_inputs (ss_turn (tw_session w))"

definition running :: "bool \<Rightarrow> turn_event list \<Rightarrow> turn_world \<Rightarrow> bool" where
  "running b base w \<longleftrightarrow> tw_room w = None \<and> (b \<longrightarrow> balanced w)
     \<and> (\<exists>evs. ss_events (tw_session w) = base @ evs \<and> list_all (\<lambda>e. \<not> control e) evs)"

lemma running_adds: "adds inner w w' \<Longrightarrow> running b base w \<Longrightarrow> running b base w'"
  by (auto simp: adds_def running_def balanced_def shown_inner control_inner)

lemma running_step: "(\<And>w. adds inner w (snd (m w))) \<Longrightarrow> outcome (running b base) m (\<lambda>_. running b base) (\<lambda>_. running b base)"
  by (rule outcomeI) (metis (no_types, lifting) running_adds case_prod_beta' old.sum.simps(5,6) prod.collapse sum.exhaust_sel)

lemma running_steer: "running b base w \<Longrightarrow> running b base (steer_all sts w)"
proof (induction sts w rule: steer_all.induct)
  case (2 expected items rest w)
  obtain res t where st: "steer_input expected items (ss_turn (tw_session w)) = (res, t)" by fastforce
  show ?case
  proof (cases res)
    case (Inr u)
    then have "at_pending_inputs t = at_pending_inputs (ss_turn (tw_session w)) @ [items]"
      using st by (auto simp: steer_input_def split: option.splits if_splits)
    then have "running b base (on_session (\<lambda>s. s\<lparr>ss_turn := t\<rparr>) (w\<lparr>tw_accepted := tw_accepted w @ [items]\<rparr>))"
      using 2(3) by (auto simp: running_def balanced_def)
    then show ?thesis using 2(2) [OF st [symmetric]] Inr st by simp
  qed (use 2(1) [OF st [symmetric]] 2(3) st in simp)
qed simp

lemma take_inputs_run:
  "tw_room w = None \<Longrightarrow> \<exists>ms' w'. take_inputs inputs ms w = (Inr ms', w') \<and> tw_room w' = None
     \<and> ss_turn (tw_session w') = ss_turn (tw_session w) \<and> tw_accepted w' = tw_accepted w
     \<and> (\<exists>evs. ss_events (tw_session w') = ss_events (tw_session w) @ evs \<and> shown_inputs evs = inputs
          \<and> list_all (\<lambda>e. \<not> control e) evs)"
proof (induction inputs arbitrary: ms w)
  case Nil
  then show ?case by (auto simp: give_def shown_inputs_def intro: exI [of _ "[]"])
next
  case (Cons items rest)
  let ?rec = "record_message (Msg_User (user_message items))"
  define w1 where "w1 = on_session (emit_event (UserItemStarted items)) w"
  define w2 where "w2 = on_session (emit_event (UserItemCompleted items)) (?rec w1)"
  have w2: "tw_room w2 = None" "ss_turn (tw_session w2) = ss_turn (tw_session w)" "tw_accepted w2 = tw_accepted w"
    "ss_events (tw_session w2) = ss_events (tw_session w) @ [UserItemStarted items, UserItemCompleted items]"
    using Cons.prems by (simp_all add: w2_def w1_def record_message_def emit_event_def)
  have run: "take_inputs (items # rest) ms w = take_inputs rest (ms @ [Msg_User (user_message items)]) w2"
    using Cons.prems by (simp add: try_do_def send_event_def change_def w1_def w2_def record_message_def)
  from Cons.IH [OF w2(1)] obtain ms' w' evs where
    "take_inputs rest (ms @ [Msg_User (user_message items)]) w2 = (Inr ms', w')" "tw_room w' = None"
    "ss_turn (tw_session w') = ss_turn (tw_session w)" "tw_accepted w' = tw_accepted w"
    "ss_events (tw_session w') = ss_events (tw_session w2) @ evs" "shown_inputs evs = rest" "list_all (\<lambda>e. \<not> control e) evs"
    using w2 by metis
  then show ?case
    unfolding run by (intro exI [of _ ms'] exI [of _ w']) (auto simp: w2(4) shown_inputs_def List.map_filter_simps
      intro!: exI [of _ "[UserItemStarted items, UserItemCompleted items] @ evs"])
qed

lemma running_drain: "outcome (running b base) (drain_inputs ms) (\<lambda>_. running b base) (\<lambda>_. running b base)"
proof (rule outcomeI)
  fix w assume w: "running b base w"
  define inputs where "inputs = at_pending_inputs (ss_turn (tw_session w))"
  define w1 where "w1 = on_session (\<lambda>s. s\<lparr>ss_turn := (ss_turn s)\<lparr>at_pending_inputs := []\<rparr>\<rparr>) w"
  have w1: "tw_room w1 = None" using w by (simp add: running_def w1_def)
  from take_inputs_run [OF this] obtain ms' w' evs where
    run: "take_inputs inputs ms w1 = (Inr ms', w')" and w': "tw_room w' = None"
    "ss_turn (tw_session w') = ss_turn (tw_session w1)" "tw_accepted w' = tw_accepted w1"
    "ss_events (tw_session w') = ss_events (tw_session w1) @ evs" "shown_inputs evs = inputs" "list_all (\<lambda>e. \<not> control e) evs"
    by metis
  have "running b base w'"
    using w w' by (auto simp: running_def balanced_def w1_def inputs_def)
  moreover have "drain_inputs ms w = (Inr ms', w')"
    using run by (simp add: drain_inputs_def take_pending_inputs_def inputs_def w1_def)
  ultimately show "case drain_inputs ms w of (Inl e, s') \<Rightarrow> running b base s' | (Inr x, s') \<Rightarrow> running b base s'" by simp
qed

lemma running_round:
  "outcome (running b base) (sse_round lib cfg prompt_prefix rd c ms) (\<lambda>_. running b base) (\<lambda>_. running b base)"
proof -
  have steer: "outcome (running b base) (change (steer_all sts)) (\<lambda>_. running b base) (\<lambda>_. running b base)" for sts
    by (rule outcome_change) (rule running_steer)
  show ?thesis
    unfolding sse_round_def
    by (intro outcome_if outcome_failing, assumption, rule outcome_try [OF steer], rule outcome_try [OF running_drain],
        rule outcome_try [OF running_step [OF adds_auto_compact]],
        rule outcome_try [OF running_step [OF adds_send]], simp,
        rule outcome_try [OF running_step [OF adds_request]])
      (auto intro: outcome_try [OF steer running_step [OF adds_answer]])
qed

lemma running_rounds: "running b base w \<Longrightarrow> running b base (snd (run_rounds lib cfg prompt_prefix rds c ms w))"
proof (induction rds arbitrary: c ms w)
  case (Cons rd rds)
  obtain res w1 where run: "sse_round lib cfg prompt_prefix rd c ms w = (res, w1)" by fastforce
  have "running b base w1" by (rule outcome_any [OF running_round Cons.prems run])
  then show ?case using Cons.IH run by (auto split: sum.split round_result.split)
qed simp

text \<open>C29. A client that listens is shown every steering input that was accepted while the rounds ran, once
  and in order, before the next request, or it still waits when they end.\<close>

theorem inputs_shown_in_order:
  assumes "tw_room w = None" and "balanced w" and "run_rounds lib cfg prompt_prefix rds c ms w = (r, w')"
  shows "tw_accepted w' = shown_inputs (ss_events (tw_session w')) @ at_pending_inputs (ss_turn (tw_session w'))"
proof -
  have "running True (ss_events (tw_session w)) w" using assms(1,2) by (simp add: running_def)
  from running_rounds [OF this] assms(3) have "balanced w'" by (metis running_def snd_conv)
  then show ?thesis by (simp add: balanced_def)
qed

fun conclusion :: "turn_error + string \<Rightarrow> turn_event list" where
  "conclusion (Inr _) = [TurnCompleted]"
| "conclusion (Inl TE_Aborted) = [TurnAborted ''turn aborted'']"
| "conclusion (Inl err) = [Ev_Error err, TurnErrored err]"

lemma conclude_run:
  assumes "tw_room w = None"
  shows "conclude r w = (r, on_session (\<lambda>s. s\<lparr>ss_events := ss_events s @ conclusion r\<rparr>) w)"
  using assms
  by (cases r rule: conclusion.cases)
    (simp_all add: conclude_def try_do_def send_event_def emit_event_def give_def failing_def)

text \<open>A turn that is finished has shown its answer last.\<close>

lemma outcome_any_try: "(\<And>x. outcome (\<lambda>_. True) (k x) Q (\<lambda>_ _. True)) \<Longrightarrow> outcome (\<lambda>_. True) (try_do m k) Q (\<lambda>_ _. True)"
  by (rule outcome_try [where R = "\<lambda>_ _. True"]) (simp_all add: outcome_def split: prod.split sum.split)

definition item_closes :: "round_result \<Rightarrow> turn_world \<Rightarrow> bool" where
  "item_closes r w \<longleftrightarrow> (case r of
      Turn_Finished c \<Rightarrow> (\<exists>es i. ss_events (tw_session w) = es @ [AgentItemCompleted i (item_content c)])
    | Turn_Goes_On _ _ \<Rightarrow> True)"

lemma item_closes_answer: "outcome (\<lambda>_. True) (answer_round lib cfg rd c ms r) item_closes (\<lambda>_ _. True)"
proof -
  have goes_on: "outcome (\<lambda>_. True) (give (Turn_Goes_On c ms)) item_closes (\<lambda>_ _. True)" for c ms
    by (simp add: outcome_def give_def item_closes_def)
  have finished: "outcome (\<lambda>_. True) (try_do (send_event (AgentItemCompleted i (item_content c))) (\<lambda>_. give (Turn_Finished c)))
      item_closes (\<lambda>_ _. True)" for i c
    by (auto simp: outcome_def try_do_def give_def item_closes_def send_event_def emit_event_def Let_def
        split: option.splits nat.splits)
  show ?thesis
    unfolding answer_round_def Let_def
    by (rule outcome_any_try, rule outcome_any_try, rule outcome_if, rule finished,
        rule outcome_any_try, rule outcome_any_try, rule outcome_any_try, rule goes_on)
qed

lemma item_closes_round: "outcome (\<lambda>_. True) (sse_round lib cfg prompt_prefix rd c ms) item_closes (\<lambda>_ _. True)"
  unfolding sse_round_def
  by (rule outcome_if, simp add: outcome_def failing_def, rule outcome_any_try, rule outcome_any_try, rule outcome_any_try,
      rule outcome_any_try, rule outcome_any_try, split prod.split)
    (intro allI impI outcome_any_try item_closes_answer)

lemma finished_rounds:
  "run_rounds lib cfg prompt_prefix rds c ms w = (Some (Inr content), w') \<Longrightarrow>
     \<exists>es i. ss_events (tw_session w') = es @ [AgentItemCompleted i (item_content content)]"
proof (induction rds arbitrary: c ms w)
  case (Cons rd rds)
  obtain res w1 where run: "sse_round lib cfg prompt_prefix rd c ms w = (res, w1)" by fastforce
  show ?case
  proof (cases res)
    case (Inr r)
    then have "item_closes r w1" using outcome_Inr [OF item_closes_round _ run [unfolded Inr]] by simp
    then show ?thesis using Cons run Inr by (cases r) (auto simp: item_closes_def)
  qed (use Cons.prems run in simp)
qed simp

lemma turn_runs:
  assumes "tw_room w = None" and "pr_tool_summary parts = Inr summary" and "pr_auto_context parts = Inr context'"
    and "run_turn_with_id lib cfg parts rds content turn_id w = (Some r, w')"
  shows "\<exists>mid. ss_events (tw_session w') = ss_events (tw_session w) @ TurnStarted # mid @ conclusion r
    \<and> list_all (\<lambda>e. \<not> control e) mid
    \<and> (\<forall>answer. r = Inr answer \<longrightarrow> (\<exists>es i. TurnStarted # mid = es @ [AgentItemCompleted i (item_content answer)]))"
proof -
  define w0 where "w0 = on_session (\<lambda>s. s\<lparr>ss_turn := begin_turn turn_id (ss_turn s)\<rparr>) w"
  define w1 where "w1 = on_session (emit_event TurnStarted) w0"
  have begun: "send_event TurnStarted w0 = (Inr (), w1)"
    using assms(1) by (simp add: send_event_def w1_def w0_def)
  obtain prompt_prefix ms where build: "build_messages cfg parts content w1 = (Inr (prompt_prefix, ms), w1)"
    using assms(2,3) by (simp add: build_messages_def Let_def)
  define w2 where "w2 = record_message (Msg_User content) w1"
  have w2: "running False (ss_events (tw_session w) @ [TurnStarted]) w2"
    using assms(1) by (simp add: running_def w2_def record_message_def w1_def w0_def emit_event_def)
  obtain r3 w3 where rounds: "run_rounds lib cfg prompt_prefix rds [] ms w2 = (r3, w3)" by fastforce
  have w3: "running False (ss_events (tw_session w) @ [TurnStarted]) w3" using running_rounds [OF w2] rounds by (metis snd_conv)
  have body: "run_turn_body lib cfg parts rds content w0
      = (case r3 of None \<Rightarrow> (None, w3) | Some r \<Rightarrow> (Some r, on_session (\<lambda>s. s\<lparr>ss_events := ss_events s @ conclusion r\<rparr>) w3))"
    using begun build rounds w3 by (auto simp: run_turn_body_def w2_def conclude_run running_def split: option.split)
  have r3: "r3 = Some r" and w': "ss_events (tw_session w') = ss_events (tw_session w3) @ conclusion r"
    using assms(4) body by (auto simp: run_turn_with_id_def w0_def split: option.splits)
  from w3 obtain mid where "ss_events (tw_session w3) = (ss_events (tw_session w) @ [TurnStarted]) @ mid"
    "list_all (\<lambda>e. \<not> control e) mid" unfolding running_def by blast
  moreover have "\<exists>es i. ss_events (tw_session w3) = es @ [AgentItemCompleted i (item_content answer)]" if "r = Inr answer" for answer
    using finished_rounds rounds r3 that by blast
  ultimately show ?thesis using w' by (auto simp: append_eq_append_conv2 append_eq_Cons_conv Cons_eq_append_conv)
qed

text \<open>C28. To a client that listens a turn whose prompt could be built is one \<open>TurnStarted\<close>, then events that
  neither begin nor end a turn, then what concludes it: its completion, its abortion, or the error
  and the completion with that error.\<close>

theorem turn_is_concluded:
  assumes "tw_room w = None" and "pr_tool_summary parts = Inr summary" and "pr_auto_context parts = Inr context'"
    and "run_turn_with_id lib cfg parts rds content turn_id w = (Some r, w')"
  shows "\<exists>mid. ss_events (tw_session w') = ss_events (tw_session w) @ TurnStarted # mid @ conclusion r
    \<and> list_all (\<lambda>e. \<not> control e) mid"
  using turn_runs [OF assms] by blast

section \<open>The answer as it is shown\<close>

definition live_text :: "turn_event list \<Rightarrow> string" where
  "live_text evs = concat (map (\<lambda>e. case e of ContentDelta _ t \<Rightarrow> t | _ \<Rightarrow> []) evs)"

lemma live_text_simps [simp]:
  "live_text [] = []" "live_text (xs @ ys) = live_text xs @ live_text ys"
  "live_text [ContentDelta i t] = t" "live_text [TokenCount a b c d e] = []"
  by (simp_all add: live_text_def)

lemma stream_shows:
  "tw_room w = None \<Longrightarrow> read_stream item_id ps delta calls flt' w = (Inr out, w') \<Longrightarrow>
     \<exists>ds. sr_assistant_delta out = delta @ concat ds
       \<and> live_text (ss_events (tw_session w')) = live_text (ss_events (tw_session w)) @ snd (filter_stream ds flt')"
proof (induction ps arbitrary: delta calls flt' w)
  case Nil
  then show ?case by (auto simp: give_def intro: exI [of _ "[]"])
next
  case (Cons p ps)
  show ?case
  proof (cases p)
    case (Poll_Item x)
    then obtain ev where p: "p = Poll_Item (Inr ev)" using Cons.prems by (cases x) (auto simp: failing_def)
    show ?thesis
    proof (cases ev)
      case (RE_ContentDelta t)
      show ?thesis
      proof (cases "t = []")
        case True
        then show ?thesis using Cons.IH [OF Cons.prems(1)] Cons.prems(2) p RE_ContentDelta by auto
      next
        case False
        obtain flt1 visible where f: "filter_visible t flt' = (flt1, visible)" by fastforce
        define w1 where "w1 = (if visible = [] then w else on_session (emit_event (ContentDelta item_id visible)) w)"
        have w1: "tw_room w1 = None" "live_text (ss_events (tw_session w1)) = live_text (ss_events (tw_session w)) @ visible"
          using Cons.prems(1) by (simp_all add: w1_def emit_event_def)
        have "read_stream item_id ps (delta @ t) calls flt1 w1 = (Inr out, w')"
          using Cons.prems p RE_ContentDelta False f by (auto simp: w1_def try_do_def send_event_def split: if_splits)
        from Cons.IH [OF w1(1) this] obtain ds where "sr_assistant_delta out = (delta @ t) @ concat ds"
          "live_text (ss_events (tw_session w')) = live_text (ss_events (tw_session w1)) @ snd (filter_stream ds flt1)" by blast
        then show ?thesis
          using f w1(2) by (intro exI [of _ "t # ds"]) (simp split: prod.split)
      qed
    next
      case (RE_Completed us)
      show ?thesis
      proof (cases us)
        case (Some u)
        obtain w1 where count: "count_tokens u w = (Inr (), w1)" and "tw_room w1 = None"
          "live_text (ss_events (tw_session w1)) = live_text (ss_events (tw_session w))"
          using Cons.prems(1) by (simp add: count_tokens_def try_do_def change_def send_event_def emit_event_def)
        then show ?thesis
          using Cons.IH [of w1] Cons.prems(2) p RE_Completed Some by (auto simp: try_do_def)
      qed (use Cons.IH Cons.prems p RE_Completed in auto)
    qed (use Cons.IH Cons.prems p in \<open>auto simp: give_def failing_def intro: exI [of _ "[]"]\<close>)
  qed (use Cons.prems in \<open>simp add: failing_def\<close>)
qed

text \<open>C30. When an attempt succeeds, the text that it showed as it streamed is the filtered text of the answer
  that is recorded, however the provider cut it into deltas.\<close>

theorem answer_shown_filtered:
  assumes "tw_room w = None" and "try_run_sampling_request a item_id ms w = (Inr out, w')"
  shows "live_text (ss_events (tw_session w'))
    = live_text (ss_events (tw_session w)) @ snd (filter_visible (sr_assistant_delta out) new_filter)"
proof -
  obtain polls where "read_stream item_id polls [] [] new_filter (w\<lparr>tw_requests := tw_requests w @ [ms]\<rparr>) = (Inr out, w')"
    using assms(2) by (auto simp: try_run_sampling_request_def try_do_def change_def failing_def split: option.splits sum.splits)
  from stream_shows [OF _ this] assms(1) show ?thesis
    by (auto simp: filter_stream_settled [OF settled_new] filter_visible_settled [OF settled_new])
qed

end
