(* ===== verification/ClientTurn.thy ===== *)
theory ClientTurn
  imports LoopInvariant TurnEvents
begin

text \<open>
  A client that runs one turn and waits for its answer (\<open>Cokra::run_turn\<close> and \<open>run_turn_stream\<close> of
  \<open>core/src/cokra.rs\<close>): it submits the input and reads the events of the session until one of them
  ends a turn.
\<close>

section \<open>Reading events\<close>

text \<open>What the client distinguishes; an item is the texts of the model's message.\<close>

datatype client_event =
    CE_Delta string
  | CE_AgentItem "string list"
  | CE_Complete bool
  | CE_Aborted string
  | CE_Error turn_error
  | CE_Other

datatype run_result = Run_Ok string bool | Run_Aborted string | Run_Error turn_error

text \<open>The result, \<open>None\<close> while the client still waits, and the events that are left.\<close>

fun await_turn :: "string \<Rightarrow> client_event list \<Rightarrow> run_result option \<times> client_event list" where
  "await_turn final_message [] = (None, [])"
| "await_turn final_message (CE_Delta delta # es) = await_turn (final_message @ delta) es"
| "await_turn final_message (CE_AgentItem content # es) =
     await_turn (if concat content = [] then final_message else concat content) es"
| "await_turn final_message (CE_Complete success # es) = (Some (Run_Ok final_message success), es)"
| "await_turn final_message (CE_Aborted reason # es) = (Some (Run_Aborted reason), es)"
| "await_turn final_message (CE_Error err # es) = (Some (Run_Error err), es)"
| "await_turn final_message (CE_Other # es) = await_turn final_message es"

record turn_state =
  ts_current_input :: "string option"
  ts_last_output :: "string option"
  ts_turns_executed :: u64

definition run_turn :: "string \<Rightarrow> client_event list \<Rightarrow> turn_state \<Rightarrow> run_result option \<times> client_event list \<times> turn_state" where
  "run_turn user_message' es s =
     (let s1 = s\<lparr>ts_current_input := Some user_message'\<rparr>
      in case await_turn [] es of
        (Some (Run_Ok final_message success), rest) \<Rightarrow>
          (Some (Run_Ok final_message success), rest,
           s1\<lparr>ts_turns_executed := ts_turns_executed s1 + 1, ts_last_output := Some final_message, ts_current_input := None\<rparr>)
      | (r, rest) \<Rightarrow> (r, rest, s1))"

datatype stream_event = Stream_Started | Stream_Delta string | Stream_Completed string bool | Stream_Failed run_result

definition run_turn_stream :: "string \<Rightarrow> client_event list \<Rightarrow> turn_state \<Rightarrow> stream_event list" where
  "run_turn_stream user_message' es s =
     Stream_Started # (case fst (run_turn user_message' es s) of
         None \<Rightarrow> []
       | Some (Run_Ok m success) \<Rightarrow> (if m = [] then [] else [Stream_Delta m]) @ [Stream_Completed m success]
       | Some r \<Rightarrow> [Stream_Failed r])"

text \<open>How the events of a turn and those of the loop look to the client, with the older event that
  follows an item; both come through the same channel.\<close>

fun client_of_turn :: "turn_event \<Rightarrow> client_event list" where
  "client_of_turn (ContentDelta _ t) = [CE_Delta t]"
| "client_of_turn (AgentItemCompleted _ parts) = CE_AgentItem parts # (if parts = [] then [] else [CE_Other])"
| "client_of_turn TurnCompleted = [CE_Complete True]"
| "client_of_turn (TurnErrored _) = [CE_Complete False]"
| "client_of_turn (TurnAborted reason) = [CE_Aborted reason]"
| "client_of_turn (Ev_Error err) = [CE_Error err]"
| "client_of_turn (UserItemCompleted _) = [CE_Other, CE_Other]"
| "client_of_turn _ = [CE_Other]"

fun client_of_loop :: "loop_event \<Rightarrow> client_event" where
  "client_of_loop (LE_TurnAborted _ reason) = CE_Aborted reason"
| "client_of_loop _ = CE_Other"

definition client_events :: "turn_event list \<Rightarrow> client_event list" where
  "client_events evs = concat (map client_of_turn evs)"

lemma client_events_simps [simp]:
  "client_events [] = []" "client_events (e # es) = client_of_turn e @ client_events es"
  "client_events (xs @ ys) = client_events xs @ client_events ys"
  by (simp_all add: client_events_def)

lemma await_item: "await_turn m (CE_AgentItem parts # (if parts = [] then [] else [CE_Other]) @ es) =
    await_turn (if concat parts = [] then m else concat parts) es"
  by simp

lemma await_passes: "list_all (\<lambda>e. \<not> control e) evs \<Longrightarrow> \<exists>m'. \<forall>es. await_turn m (client_events evs @ es) = await_turn m' es"
proof (induction evs arbitrary: m)
  case (Cons e evs)
  then obtain m1 where "\<forall>es. await_turn m (client_of_turn e @ es) = await_turn m1 es"
    by (cases e) (auto simp del: await_turn.simps(3) simp: await_item)
  with Cons show ?case by fastforce
qed auto

section \<open>What the client is answered\<close>

text \<open>C34. A client that listens receives the answer of a turn that ends well, and reads no further; the
  events are those of any thread, a spawned agent's as well as its own.\<close>

theorem run_turn_returns_answer:
  assumes "tw_room w = None" and "pr_tool_summary parts = Inr summary" and "pr_auto_context parts = Inr context'"
    and "run_turn_with_id lib cfg parts rds content turn_id w = (Some (Inr answer), w')" and "answer \<noteq> []"
    and "ss_events (tw_session w) = []"
  shows "await_turn m (client_events (ss_events (tw_session w')) @ rest) = (Some (Run_Ok answer True), rest)"
proof -
  obtain mid es i where evs: "ss_events (tw_session w') = TurnStarted # mid @ [TurnCompleted]"
    and mid: "list_all (\<lambda>e. \<not> control e) mid" and item: "TurnStarted # mid = es @ [AgentItemCompleted i (item_content answer)]"
    using turn_runs [OF assms(1-4)] assms(6) by auto
  from item obtain es' where es: "es = TurnStarted # es'" "mid = es' @ [AgentItemCompleted i [answer]]"
    using assms(5) by (cases es) (auto simp: item_content_def)
  obtain m' where "\<forall>js. await_turn m (client_events es' @ js) = await_turn m' js"
    using await_passes [of es' m] mid es(2) by auto
  then show ?thesis using assms(5) by (simp add: evs es)
qed

text \<open>A turn that fails leaves an event behind with which the next turn that the client runs seems to
  be over at once, without success and without text, while it has not even begun.\<close>

theorem failed_turn_spoils_next:
  assumes "tw_room w = None" and "pr_tool_summary parts = Inr summary" and "pr_auto_context parts = Inr context'"
    and "run_turn_with_id lib cfg parts rds content turn_id w = (Some (Inl err), w')" and "err \<noteq> TE_Aborted"
    and "ss_events (tw_session w) = []"
  shows "case run_turn content (client_events (ss_events (tw_session w')) @ upcoming) s of (r, rest, s') \<Rightarrow>
     r = Some (Run_Error err) \<and> fst (run_turn next_input rest s') = Some (Run_Ok [] False)
       \<and> fst (snd (run_turn next_input rest s')) = upcoming"
proof -
  obtain mid where evs: "ss_events (tw_session w') = TurnStarted # mid @ [Ev_Error err, TurnErrored err]"
    and mid: "list_all (\<lambda>e. \<not> control e) mid"
    using turn_runs [OF assms(1-4)] assms(5,6) by (cases err) auto
  obtain m' where "\<forall>js. await_turn [] (client_events mid @ js) = await_turn m' js"
    using await_passes [OF mid, of "[]"] by auto
  then have "await_turn [] (client_events (ss_events (tw_session w')) @ upcoming) = (Some (Run_Error err), CE_Complete False # upcoming)"
    by (simp add: evs)
  then show ?thesis by (simp add: run_turn_def Let_def)
qed

text \<open>A turn that is aborted is reported as such.\<close>

lemma aborted_turn_reported:
  assumes "tw_room w = None" and "pr_tool_summary parts = Inr summary" and "pr_auto_context parts = Inr context'"
    and "run_turn_with_id lib cfg parts rds content turn_id w = (Some (Inl TE_Aborted), w')"
    and "ss_events (tw_session w) = []"
  shows "await_turn m (client_events (ss_events (tw_session w')) @ upcoming) = (Some (Run_Aborted ''turn aborted''), upcoming)"
proof -
  obtain mid where evs: "ss_events (tw_session w') = TurnStarted # mid @ [TurnAborted ''turn aborted'']"
    and mid: "list_all (\<lambda>e. \<not> control e) mid"
    using turn_runs [OF assms(1-4)] assms(5) by auto
  obtain m' where "\<forall>js. await_turn m (client_events mid @ js) = await_turn m' js"
    using await_passes [OF mid, of m] by auto
  then show ?thesis by (simp add: evs)
qed

section \<open>Blank input\<close>

definition added_events :: "loop_world \<Rightarrow> loop_world \<Rightarrow> loop_event list" where
  "added_events w w' = drop (length (lw_events w)) (lw_events w')"

lemma quiet_await: "list_all (\<lambda>e. e = CE_Other) es \<Longrightarrow> await_turn m es = (None, [])"
  by (induction es) auto

definition quiet :: "loop_world \<Rightarrow> loop_world \<Rightarrow> bool" where
  "quiet w w' \<longleftrightarrow> (\<exists>evs. lw_events w' = lw_events w @ evs \<and> list_all (\<lambda>e. client_of_loop e = CE_Other) evs)"

lemma quiet_refl: "quiet w w" by (auto simp: quiet_def)

lemma quiet_trans: "quiet w w1 \<Longrightarrow> quiet w1 w2 \<Longrightarrow> quiet w w2"
  by (fastforce simp: quiet_def)

lemma quiet_emit: "client_of_loop ev = CE_Other \<Longrightarrow> quiet w (loop_emit ev w)"
  by (auto simp: quiet_def loop_emit_def legacy_events_for_def split: loop_event.split)

lemma quiet_same: "lw_events w' = lw_events w \<Longrightarrow> quiet w w'"
  by (simp add: quiet_def)

lemma quiet_compacted: "quiet w (compacted t reason n r w)"
  unfolding compacted_def by (rule quiet_trans [OF quiet_same quiet_emit]) (simp_all add: in_session_def)

lemma quiet_switch: "quiet w (maybe_compact_before_model_switch lib m l t w)"
  by (auto simp: maybe_compact_before_model_switch_def Let_def intro: quiet_refl quiet_compacted quiet_emit
      split: option.split sum.split)

lemma quiet_reconfigure: "quiet w (reconfigure lib t f w)"
proof -
  let ?w = "w\<lparr>lw_config := sync_turn_context_window_limit lib (f (lw_config w))\<rparr>"
  let ?w1 = "maybe_compact_before_model_switch lib (tc_model (lw_config w)) (tc_context_window_limit (lw_config w)) t ?w"
  have "quiet w ?w1" by (rule quiet_trans [OF quiet_same quiet_switch]) simp
  then show ?thesis by (simp add: reconfigure_def Let_def quiet_def)
qed

lemma quiet_before_turn: "before_turn lib sub w = Some (items, w1) \<Longrightarrow> quiet w w1"
proof -
  have ann: "quiet w (announce_input i items w)" for i items w
    unfolding announce_input_def by (rule quiet_trans [OF quiet_emit quiet_emit]) simp_all
  have conf: "quiet w (session_configured w)" for w
    by (simp add: session_configured_def Let_def quiet_emit)
  assume "before_turn lib sub w = Some (items, w1)"
  then show ?thesis
    by (auto simp: before_turn_def Let_def split: op.splits if_splits
        intro: ann quiet_trans [OF ann quiet_reconfigure] quiet_trans [OF quiet_trans [OF ann quiet_reconfigure] conf])
qed

text \<open>To an input without text the loop answers with a warning only, so that a client that runs a turn
  on it waits on.\<close>

theorem blank_input_never_answered:
  assumes "sub_op sub = Op_UserTurn items cwd approval sandbox model" and "trim (user_message items) = []"
  shows "case handle_submission lib sub ins w of (ph, is', w') \<Rightarrow>
     ph = Waiting \<and> is' = ins \<and> fst (run_turn (user_message items) (map client_of_loop (added_events w w')) s) = None"
proof -
  obtain w1 where w1: "before_turn lib sub w = Some (items, w1)"
    using assms(1) by (simp add: before_turn_def Let_def)
  let ?w = "warn (sub_id sub) ''empty input ignored'' w1"
  have "quiet w ?w"
    unfolding warn_def by (rule quiet_trans [OF quiet_before_turn [OF w1] quiet_emit]) simp
  then have "list_all (\<lambda>e. e = CE_Other) (map client_of_loop (added_events w ?w))"
    by (auto simp: quiet_def added_events_def list_all_iff)
  from quiet_await [OF this] have "fst (run_turn (user_message items) (map client_of_loop (added_events w ?w)) s) = None"
    by (simp add: run_turn_def Let_def)
  then show ?thesis using handle_turn [OF w1, of ins] assms(2)
    by (simp add: user_turn_def run_turn_with_interrupt_def)
qed

end
