(* ===== verification/TurnPairs.thy ===== *)
theory TurnPairs
  imports TurnInvariant
begin

text \<open>
  Tool results and calls during a turn: no result is recorded, or sent to the model, without its
  call; after a round that does not fail every call has its result directly behind it; and no
  result is longer than the budget of a tool's output.
\<close>

section \<open>Histories that grow\<close>

definition made :: "message list \<Rightarrow> string set" where
  "made ms = (\<Union>m \<in> set ms. call_ids m)"

lemma made_simps [simp]: "made [] = {}" "made (m # ms) = call_ids m \<union> made ms" "made (ms @ ns) = made ms \<union> made ns"
  by (auto simp: made_def)

lemma answered_append: "answered S (ms @ ns) \<longleftrightarrow> answered S ms \<and> answered (S \<union> made ms) ns"
  by (induction ms arbitrary: S) (auto simp: Un_assoc)

lemma paired_snoc_user [simp]: "paired (ms @ [Msg_User t]) = paired ms"
  by (simp add: answered_append)

lemma paired_snoc_assistant [simp]: "paired (ms @ [assistant_message r]) = paired ms"
  by (simp add: answered_append assistant_message_def)

lemma paired_snoc_tool [simp]: "paired (ms @ [Msg_Tool i c]) \<longleftrightarrow> paired ms \<and> i \<in> made ms"
  by (auto simp: answered_append)

lemma call_ids_assistant: "call_ids (assistant_message r) = fc_id ` set (sr_function_calls r)"
  by (auto simp: assistant_message_def call_ids_def nonempty_def to_model_tool_call_def image_image)

text \<open>The tools answer under the identifier of their call, or leave it out.\<close>

definition honest :: "round_env \<Rightarrow> bool" where
  "honest rd \<longleftrightarrow> (\<forall>i call out. tr_answer (rd_replies rd i call) = Inr out \<longrightarrow> output_id out \<in> {[], fc_id call})"

lemma with_id_id [simp]: "output_id (with_id i out) = i"
  by (cases out) auto

lemma execute_tool_call_id:
  assumes "execute_tool_call lib (rd_replies rd i call) call = Inr (call_id, out)" and "honest rd"
  shows "call_id = fc_id call" "\<exists>c. tool_message cfg call_id out = Msg_Tool (fc_id call) c"
  using assms by (auto simp: execute_tool_call_def tool_message_def honest_def split: sum.splits option.splits if_splits)

section \<open>No result without its call\<close>

text \<open>The histories and the requests of a state.\<close>

definition pairs_kept :: "turn_world \<Rightarrow> bool" where
  "pairs_kept w \<longleftrightarrow> paired (tw_history w) \<and> (\<forall>ms \<in> set (tw_requests w). paired ms)"

lemma pairs_same: "same_messages w w' \<Longrightarrow> pairs_kept w' = pairs_kept w"
  by (simp add: same_messages_def pairs_kept_def)

text \<open>The parts that a prompt is put together from.\<close>

definition no_results :: "message list \<Rightarrow> bool" where
  "no_results ms \<longleftrightarrow> (\<forall>m \<in> set ms. \<forall>i c. m \<noteq> Msg_Tool i c)"

lemma answered_mono: "answered S ms \<Longrightarrow> S \<subseteq> T \<Longrightarrow> answered T ms"
proof (induction ms arbitrary: S T)
  case (Cons m ms)
  then have "answered (S \<union> call_ids m) ms" "S \<union> call_ids m \<subseteq> T \<union> call_ids m" by auto
  then have "answered (T \<union> call_ids m) ms" by (rule Cons.IH)
  with Cons.prems show ?case by (cases m) auto
qed simp

lemma no_results_paired: "no_results ms \<Longrightarrow> paired ns \<Longrightarrow> paired (ms @ ns)"
proof -
  assume "no_results ms" "paired ns"
  moreover have "no_results ms \<Longrightarrow> answered S ms" for S
    by (induction ms arbitrary: S) (auto simp: no_results_def split: message.split)
  ultimately show ?thesis using answered_mono [of "{}" ns "made ms"] by (simp add: answered_append)
qed

text \<open>A history that is cut down to a budget of tokens keeps its pairs; cut down to a number of
  messages it may not.\<close>

lemma prompt_history_paired:
  assumes "paired history"
  shows "paired (get_history_for_prompt history limit)"
proof (cases "limit = 0")
  case True
  then show ?thesis using paired_systems by (simp add: get_history_for_prompt_def)
next
  case False
  then show ?thesis
    using paired_tail [OF assms] safe_tail_paired paired_systems
    by (auto simp: get_history_for_prompt_def Let_def split: option.split)
qed

lemma rebuilt_paired:
  assumes "no_results prompt_prefix" and "tc_context_window_limit cfg \<noteq> None" and "paired (ss_history s)"
  shows "paired (rebuild_messages_from_session cfg prompt_prefix s)"
proof -
  obtain limit where limit: "tc_context_window_limit cfg = Some limit" using assms(2) by auto
  have "paired (get_history_for_prompt (ss_history s) limit)" by (rule prompt_history_paired [OF assms(3)])
  then show ?thesis
    unfolding rebuild_messages_from_session_def limit option.simps
    by (rule no_results_paired [rotated]) (use assms(1) in \<open>auto simp: no_results_def split: option.split\<close>)
qed

lemma compacted_paired:
  assumes "compact_history_with_summary from_str chat model history settings = Inr (Some r)" and "paired history"
  shows "paired (ac_compacted_history r)"
  using assms apply_compaction_paired
  by (auto simp: compact_history_with_summary_def split: option.splits sum.splits)

interpretation pairs: history_invariant pairs_kept paired
  "\<lambda>prompt_prefix cfg. no_results prompt_prefix \<and> tc_context_window_limit cfg \<noteq> None"
proof unfold_locales
  show "pairs_kept w \<Longrightarrow> compact_history_with_summary from_str chat model (tw_history w) settings = Inr (Some r) \<Longrightarrow>
      pairs_kept (on_session (replace_history (ac_compacted_history r)) w)" for w from_str chat model settings r
    using compacted_paired by (auto simp: pairs_kept_def)
qed (auto simp: pairs_kept_def same_messages_def intro: rebuilt_paired)

text \<open>Running the tools of an answer that has been recorded.\<close>

lemma pairs_tools:
  assumes "honest rd"
  shows "paired ms \<Longrightarrow> fc_id ` set calls \<subseteq> made ms \<Longrightarrow>
    outcome (\<lambda>w. pairs_kept w \<and> fc_id ` set calls \<subseteq> made (tw_history w)) (run_tool_calls lib cfg (rd_replies rd) i calls ms)
      (\<lambda>ms' w. pairs_kept w \<and> paired ms') (\<lambda>_. pairs_kept)"
proof (induction calls arbitrary: i ms)
  case Nil
  then show ?case by (auto intro: outcome_give)
next
  case (Cons call calls)
  show ?case
  proof (cases "execute_tool_call lib (rd_replies rd i call) call")
    case (Inl err)
    then show ?thesis by (auto intro: outcome_failing)
  next
    case (Inr r)
    then obtain call_id out where ex: "execute_tool_call lib (rd_replies rd i call) call = Inr (call_id, out)" by (cases r) auto
    from execute_tool_call_id [OF ex assms] obtain c where msg: "tool_message cfg call_id out = Msg_Tool (fc_id call) c" by blast
    show ?thesis
      unfolding run_tool_calls.simps ex sum.case prod.case
    proof (rule outcome_try)
      show "outcome (\<lambda>w. pairs_kept w \<and> fc_id ` set (call # calls) \<subseteq> made (tw_history w))
          (change (record_tool_output cfg call_id out)) (\<lambda>_ w. pairs_kept w \<and> fc_id ` set calls \<subseteq> made (tw_history w)) (\<lambda>_. pairs_kept)"
        by (rule outcome_change) (auto simp: pairs_kept_def msg)
      show "outcome (\<lambda>w. pairs_kept w \<and> fc_id ` set calls \<subseteq> made (tw_history w))
          (run_tool_calls lib cfg (rd_replies rd) (i + 1) calls (ms @ [tool_message cfg call_id out]))
          (\<lambda>ms' w. pairs_kept w \<and> paired ms') (\<lambda>_. pairs_kept)" for x
        by (rule Cons.IH) (use Cons.prems in \<open>auto simp: msg\<close>)
    qed
  qed
qed

lemma pairs_begin: "outcome (\<lambda>w. pairs_kept w \<and> S \<subseteq> made (tw_history w)) (begin_call call)
    (\<lambda>_ w. pairs_kept w \<and> S \<subseteq> made (tw_history w)) (\<lambda>_. pairs_kept)"
proof -
  have sent: "outcome (\<lambda>w. pairs_kept w \<and> S \<subseteq> made (tw_history w)) (send_event ev)
      (\<lambda>_ w. pairs_kept w \<and> S \<subseteq> made (tw_history w)) (\<lambda>_ w. pairs_kept w \<and> S \<subseteq> made (tw_history w))" for ev
    by (rule outcome_send) (simp add: pairs_same, simp add: same_messages_def)
  show ?thesis
    unfolding begin_call_def by (intro outcome_if outcome_give outcome_weaken [OF sent]) auto
qed

lemma pairs_answer:
  assumes "honest rd" and "paired ms"
  shows "outcome pairs_kept (answer_round lib cfg rd content ms r)
    (\<lambda>res w. pairs_kept w \<and> (\<forall>c ms'. res = Turn_Goes_On c ms' \<longrightarrow> paired ms')) (\<lambda>_. pairs_kept)"
proof -
  let ?made = "\<lambda>w. pairs_kept w \<and> fc_id ` set (sr_function_calls r) \<subseteq> made (tw_history w)"
  have rec: "outcome pairs_kept (change (record_message (assistant_message r))) (\<lambda>_. ?made) (\<lambda>_. pairs_kept)"
    by (rule outcome_change) (auto simp: pairs_kept_def call_ids_assistant)
  have items: "outcome ?made (change (on_session (append_response_items items))) (\<lambda>_. ?made) (\<lambda>_. pairs_kept)" for items
    by (rule outcome_change) (simp add: pairs_kept_def)
  have last: "outcome ?made (try_do (send_event ev) (\<lambda>_. give (Turn_Finished c)))
      (\<lambda>res w. pairs_kept w \<and> (\<forall>c ms'. res = Turn_Goes_On c ms' \<longrightarrow> paired ms')) (\<lambda>_. pairs_kept)" for ev c
    by (rule outcome_try [where R = "\<lambda>_. pairs_kept"], rule outcome_weaken [OF pairs.send]) (auto intro: outcome_give)
  have begins: "outcome ?made (for_each begin_call (sr_function_calls r)) (\<lambda>_. ?made) (\<lambda>_. pairs_kept)"
    by (rule outcome_for_each) (rule pairs_begin)
  have tools: "outcome ?made (run_tool_calls lib cfg (rd_replies rd) 0 (sr_function_calls r) (ms @ [assistant_message r]))
      (\<lambda>ms' w. pairs_kept w \<and> paired ms') (\<lambda>_. pairs_kept)"
    using assms by (intro pairs_tools) (auto simp: call_ids_assistant)
  have goes_on: "outcome (\<lambda>w. pairs_kept w \<and> paired ms') (try_do (send_event ev) (\<lambda>_. give (Turn_Goes_On c ms')))
      (\<lambda>res w. pairs_kept w \<and> (\<forall>c ms'. res = Turn_Goes_On c ms' \<longrightarrow> paired ms')) (\<lambda>_. pairs_kept)" for ev c ms'
    by (rule outcome_try [where R = "\<lambda>_ w. pairs_kept w \<and> paired ms'"],
        rule outcome_weaken [OF outcome_send [where P = "\<lambda>w. pairs_kept w \<and> paired ms'"]])
      (auto simp: pairs_same intro: outcome_give)
  show ?thesis
    unfolding answer_round_def Let_def
    by (intro outcome_try [OF rec] outcome_try [OF items] outcome_if last outcome_try [OF begins] outcome_try [OF tools] goes_on)
qed

section \<open>A whole turn\<close>

lemma no_results_prefix:
  "no_results ((case p of None \<Rightarrow> [] | Some x \<Rightarrow> [Msg_System x]) @ [Msg_User e] @ opt_user a @ opt_user b @ opt_user c @ opt_user d)"
  by (auto simp: no_results_def opt_user_def split: option.splits)

lemma built_paired:
  assumes "build_messages cfg parts content w = (Inr (prompt_prefix, ms), w')" and "tc_context_window_limit cfg \<noteq> None"
    and "paired (tw_history w)"
  shows "w' = w \<and> no_results prompt_prefix \<and> paired ms"
proof -
  obtain limit where limit: "tc_context_window_limit cfg = Some limit" using assms(2) by auto
  have w': "w' = w" and ms: "ms = prompt_prefix @ get_history_for_prompt (tw_history w) limit @ [Msg_User content]"
    and no: "no_results prompt_prefix"
    using assms(1) limit no_results_prefix [of "tc_system_prompt cfg" "env_context cfg"]
    by (auto simp: build_messages_def Let_def split: sum.splits)
  have "paired (get_history_for_prompt (tw_history w) limit)" by (rule prompt_history_paired [OF assms(3)])
  then show ?thesis
    using w' no no_results_paired [OF no] by (simp add: ms)
qed

text \<open>C24. If every tool answers under the identifier of its call, the history of a session never holds a
  tool result without its call, whatever happens in a turn: neither a compaction in the middle nor an
  error, a cancellation or a client that goes away breaks the pairs. With a budget of tokens the same
  holds of every request that is sent to the model.\<close>

theorem turn_keeps_pairs:
  assumes "\<forall>rd \<in> set rds. honest rd" and "tc_context_window_limit cfg \<noteq> None" and "pairs_kept w"
  shows "pairs_kept (snd (run_turn_with_id lib cfg parts rds content turn_id w))"
proof -
  have "round_keeps pairs_kept paired (\<lambda>_. pairs_kept) (answer_round lib cfg rd content ms r)"
    if "rd \<in> set rds" "paired ms" for rd r ms content
    unfolding round_keeps_def by (rule pairs_answer) (use that assms(1) in auto)
  then have "case run_turn_with_id lib cfg parts rds content turn_id w of
      (Some (Inl e), w') \<Rightarrow> pairs_kept w' | (_, w') \<Rightarrow> pairs_kept w'"
  proof (rule pairs.turn)
    show "build_messages cfg parts content w = (Inr (prompt_prefix, ms), w') \<Longrightarrow> pairs_kept w \<Longrightarrow>
        (no_results prompt_prefix \<and> tc_context_window_limit cfg \<noteq> None) \<and> paired ms" for w prompt_prefix ms w'
      using built_paired [OF _ assms(2)] assms(2) by (simp add: pairs_kept_def)
  qed (use assms(3) pairs_same in auto)
  then show ?thesis by (auto split: prod.splits option.splits sum.splits)
qed

section \<open>Every call with its result\<close>

fun tool_id :: "message \<Rightarrow> string option" where
  "tool_id (Msg_Tool i _) = Some i"
| "tool_id _ = None"

text \<open>The results of an assistant's calls stand directly behind it, in the order of the calls.\<close>

definition call_list :: "message \<Rightarrow> string list" where
  "call_list m = (case m of Msg_Assistant _ (Some calls) \<Rightarrow> map mt_id calls | _ \<Rightarrow> [])"

fun all_answered :: "message list \<Rightarrow> bool" where
  "all_answered [] = True"
| "all_answered (m # ms) \<longleftrightarrow> map tool_id (take (length (call_list m)) ms) = map Some (call_list m) \<and> all_answered ms"

lemma take_of_map: "map f (take (length ys) xs) = map g ys \<Longrightarrow> length ys \<le> length xs"
  by (metis length_map length_take min.cobounded1)

lemma all_answered_append: "all_answered xs \<Longrightarrow> all_answered ys \<Longrightarrow> all_answered (xs @ ys)"
proof (induction xs)
  case (Cons m xs)
  then have "length (call_list m) \<le> length xs" by (auto dest: take_of_map)
  with Cons show ?case by simp
qed simp

lemma tool_no_calls: "tool_id m \<noteq> None \<Longrightarrow> call_list m = []"
  by (cases m) (auto simp: call_list_def)

lemma all_answered_drop: "all_answered xs \<Longrightarrow> all_answered (drop n xs)"
  by (induction xs arbitrary: n) (auto simp: drop_Cons')

lemma all_answered_plain: "\<forall>m \<in> set xs. call_list m = [] \<Longrightarrow> all_answered xs"
  by (induction xs) auto

text \<open>Leaving out messages that are neither calls nor results.\<close>

lemma filter_take_tools:
  "map tool_id (take n ms) = map Some is' \<Longrightarrow> \<forall>m \<in> set ms. tool_id m \<noteq> None \<longrightarrow> P m \<Longrightarrow> length is' = n \<Longrightarrow>
     take n (filter P ms) = take n ms"
proof (induction n arbitrary: ms is')
  case (Suc n)
  then obtain m ms' i is'' where "ms = m # ms'" "is' = i # is''" by (cases ms; cases is') auto
  with Suc show ?case by auto
qed simp

lemma all_answered_filter:
  "all_answered ms \<Longrightarrow> \<forall>m \<in> set ms. tool_id m \<noteq> None \<or> call_list m \<noteq> [] \<longrightarrow> P m \<Longrightarrow> all_answered (filter P ms)"
  by (induction ms) (auto simp: filter_take_tools)

lemma plain_messages_answered: "all_answered ms \<Longrightarrow> all_answered (plain_messages ms)"
  unfolding plain_messages_def
  by (rule all_answered_filter)
    (auto simp: is_system_def is_summary_message_def call_list_def split: message.splits option.splits)

lemma compacted_answered:
  assumes "compact_history_with_summary from_str chat model history settings = Inr (Some r)" and "all_answered history"
  shows "all_answered (ac_compacted_history r)"
proof -
  obtain plan summary where plan: "prepare_compaction from_str history settings = Some plan"
    and r: "ac_compacted_history r = apply_compaction history summary plan"
    using assms(1) by (auto simp: compact_history_with_summary_def split: option.splits sum.splits)
  obtain k where k: "cp_kept_messages plan = plain_messages (drop k history)" by (rule prepare_plan [OF plan])
  have head: "all_answered (filter is_system history @ [make_summary_message summary])"
    by (rule all_answered_plain) (auto simp: is_system_def make_summary_message_def call_list_def split: message.splits)
  have tail: "all_answered (cp_kept_messages plan)"
    unfolding k by (intro plain_messages_answered all_answered_drop assms(2))
  show ?thesis
    using all_answered_append [OF head tail] by (simp add: r apply_compaction_def)
qed

text \<open>While the tools run, the history is answered up to the calls that are left.\<close>

definition open_calls :: "string list \<Rightarrow> turn_world \<Rightarrow> bool" where
  "open_calls ids w \<longleftrightarrow> (\<forall>ts. map tool_id ts = map Some ids \<longrightarrow> all_answered (tw_history w @ ts))"

lemma open_calls_Nil: "open_calls [] w \<longleftrightarrow> all_answered (tw_history w)"
  by (simp add: open_calls_def)

lemma open_calls_same: "same_messages w w' \<Longrightarrow> open_calls ids w' = open_calls ids w"
  by (simp add: same_messages_def open_calls_def)

lemma all_answered_snoc_assistant:
  assumes "all_answered ms" and "map tool_id ts = map Some (call_list m)"
  shows "all_answered (ms @ m # ts)"
proof -
  have "length ts = length (call_list m)" using assms(2) by (metis length_map)
  moreover have "call_list t = []" if "t \<in> set ts" for t
  proof (rule tool_no_calls)
    have "tool_id ` set ts = Some ` set (call_list m)" using arg_cong [OF assms(2), of set] by simp
    then have "tool_id t \<in> Some ` set (call_list m)" using that by blast
    then show "tool_id t \<noteq> None" by auto
  qed
  ultimately have "all_answered (m # ts)" using assms(2) all_answered_plain [of ts] by simp
  with assms(1) show ?thesis by (rule all_answered_append)
qed

interpretation answered: history_invariant "\<lambda>w. all_answered (tw_history w)" "\<lambda>_. True" "\<lambda>_ _. True"
proof unfold_locales
  show "all_answered (tw_history (record_message (Msg_User t) w))" if "all_answered (tw_history w)" for t w
    using all_answered_append [OF that, of "[Msg_User t]"] by (simp add: call_list_def)
qed (auto simp: same_messages_def intro: compacted_answered)

lemma open_calls_record:
  "open_calls (i # ids) w \<Longrightarrow> tool_id m = Some i \<Longrightarrow> tw_history w' = tw_history w @ [m] \<Longrightarrow> open_calls ids w'"
  unfolding open_calls_def by (metis append.assoc append_Cons append_Nil list.simps(9))

lemma answered_tools:
  assumes "honest rd"
  shows "outcome (open_calls (map fc_id calls)) (run_tool_calls lib cfg (rd_replies rd) i calls ms)
    (\<lambda>_ w. all_answered (tw_history w)) (\<lambda>_ _. True)"
proof (induction calls arbitrary: i ms)
  case Nil
  show ?case by (auto simp: open_calls_Nil intro: outcome_give)
next
  case (Cons call calls)
  show ?case
  proof (cases "execute_tool_call lib (rd_replies rd i call) call")
    case (Inr r)
    then obtain call_id out where ex: "execute_tool_call lib (rd_replies rd i call) call = Inr (call_id, out)" by (cases r) auto
    from execute_tool_call_id [OF ex assms] obtain c where msg: "tool_message cfg call_id out = Msg_Tool (fc_id call) c" by blast
    show ?thesis
      unfolding run_tool_calls.simps ex sum.case prod.case
      by (rule outcome_try [OF outcome_change Cons.IH]) (auto simp: msg elim!: open_calls_record)
  qed (auto intro: outcome_failing)
qed

lemma open_calls_send: "outcome (open_calls ids) (send_event ev) (\<lambda>_. open_calls ids) (\<lambda>_ _. True)"
  by (rule outcome_weaken [OF outcome_send [where P = "open_calls ids"]]) (auto simp: open_calls_same)

lemma answered_answer:
  assumes "honest rd"
  shows "outcome (\<lambda>w. all_answered (tw_history w)) (answer_round lib cfg rd content ms r)
    (\<lambda>_ w. all_answered (tw_history w)) (\<lambda>_ _. True)"
proof -
  let ?open = "open_calls (map fc_id (sr_function_calls r))"
  have calls: "call_list (assistant_message r) = map fc_id (sr_function_calls r)"
    by (auto simp: call_list_def assistant_message_def nonempty_def to_model_tool_call_def comp_def)
  have rec: "outcome (\<lambda>w. all_answered (tw_history w)) (change (record_message (assistant_message r))) (\<lambda>_. ?open) (\<lambda>_ _. True)"
    by (rule outcome_change) (auto simp: open_calls_def calls all_answered_snoc_assistant)
  have items: "outcome ?open (change (on_session (append_response_items items))) (\<lambda>_. ?open) (\<lambda>_ _. True)" for items
    by (rule outcome_change) (simp add: open_calls_def)
  have begins: "outcome ?open (for_each begin_call (sr_function_calls r)) (\<lambda>_. ?open) (\<lambda>_ _. True)"
    by (rule outcome_for_each) (auto simp: begin_call_def intro: open_calls_send outcome_give)
  have sent: "outcome (\<lambda>w. all_answered (tw_history w)) (send_event ev) (\<lambda>_ w. all_answered (tw_history w)) (\<lambda>_ _. True)" for ev
    using open_calls_send [of "[]"] by (simp add: open_calls_Nil [abs_def])
  have last: "outcome ?open (try_do (send_event ev) (\<lambda>_. give (Turn_Finished c))) (\<lambda>_ w. all_answered (tw_history w)) (\<lambda>_ _. True)"
    if "sr_function_calls r = []" for ev c
    using that by (intro outcome_try [where R = "\<lambda>_ w. all_answered (tw_history w)"] outcome_give)
      (auto simp: open_calls_Nil [abs_def] intro: sent)
  show ?thesis
    unfolding answer_round_def Let_def
    by (intro outcome_try [OF rec] outcome_try [OF items] outcome_if last outcome_try [OF begins]
        outcome_try [OF answered_tools [OF assms]] outcome_try [OF sent] outcome_give) auto
qed

text \<open>C25. When a turn succeeds, or is between two rounds, every call that the model has made stands in
  the history with its result directly behind it, in the order of the calls, so that the next request
  is well formed.\<close>

theorem calls_are_answered:
  assumes "\<forall>rd \<in> set rds. honest rd" and "all_answered (tw_history w)"
    and "run_turn_with_id lib cfg parts rds content turn_id w = (r, w')" and "\<forall>e. r \<noteq> Some (Inl e)"
  shows "all_answered (tw_history w')"
proof -
  have "round_keeps (\<lambda>w. all_answered (tw_history w)) (\<lambda>_. True) (\<lambda>_ _. True) (answer_round lib cfg rd content ms r)"
    if "rd \<in> set rds" for rd r ms content
    unfolding round_keeps_def using answered_answer [of rd] that assms(1) by simp
  then have "case run_turn_with_id lib cfg parts rds content turn_id w of
      (Some (Inl e), w') \<Rightarrow> True | (_, w') \<Rightarrow> all_answered (tw_history w')"
    by (rule answered.turn) (use assms(2) in auto)
  then show ?thesis using assms(3,4) by (auto split: option.splits sum.splits)
qed

end
