(* ===== verification/TurnBounds.thy ===== *)
theory TurnBounds
  imports TurnInvariant "HOL-Library.Sublist"
begin

text \<open>
  What a turn is bounded by, and what the model is told: no tool result in the history is longer
  than the scaled budget, a sampling request is sent at most twelve times, and without
  compaction every request is the prompt followed by what has been recorded since.
\<close>

section \<open>The length of tool results\<close>

definition results_fit :: "nat \<Rightarrow> message list \<Rightarrow> bool" where
  "results_fit b ms \<longleftrightarrow> (\<forall>m \<in> set ms. case m of Msg_Tool _ c \<Rightarrow> estimate_tokens c \<le> b | _ \<Rightarrow> True)"

lemma results_fit_simps [simp]:
  "results_fit b []" "results_fit b (m # ms) \<longleftrightarrow> (case m of Msg_Tool _ c \<Rightarrow> estimate_tokens c \<le> b | _ \<Rightarrow> True) \<and> results_fit b ms"
  "results_fit b (ms @ ns) \<longleftrightarrow> results_fit b ms \<and> results_fit b ns"
  by (auto simp: results_fit_def)

lemma results_fit_subset: "results_fit b ms \<Longrightarrow> set ns \<subseteq> set ms \<Longrightarrow> results_fit b ns"
  by (auto simp: results_fit_def)

lemma compacted_fit:
  assumes "compact_history_with_summary from_str chat model history settings = Inr (Some r)" and "results_fit b history"
  shows "results_fit b (ac_compacted_history r)"
proof -
  obtain plan summary where plan: "prepare_compaction from_str history settings = Some plan"
    and r: "ac_compacted_history r = apply_compaction history summary plan"
    using assms(1) by (auto simp: compact_history_with_summary_def split: option.splits sum.splits)
  obtain k where k: "cp_kept_messages plan = plain_messages (drop k history)" by (rule prepare_plan [OF plan])
  have "set (cp_kept_messages plan) \<subseteq> set history" using set_drop_subset [of k history] by (auto simp: k plain_messages_def)
  moreover have "results_fit b (filter is_system history)" using assms(2) by (rule results_fit_subset) auto
  ultimately show ?thesis
    using results_fit_subset [OF assms(2)] by (auto simp: r apply_compaction_def make_summary_message_def)
qed

interpretation fits: history_invariant "\<lambda>w. results_fit b (tw_history w)" "\<lambda>_. True" "\<lambda>_ _. True" for b
  by unfold_locales (auto simp: same_messages_def intro: compacted_fit)

lemma fits_tools:
  assumes "\<And>call_id out. results_fit b [tool_message cfg call_id out]"
  shows "outcome (\<lambda>w. results_fit b (tw_history w)) (run_tool_calls lib cfg replies i calls ms)
    (\<lambda>_ w. results_fit b (tw_history w)) (\<lambda>_ w. results_fit b (tw_history w))"
proof (induction calls arbitrary: i ms)
  case (Cons call calls)
  show ?case
    using assms
    by (auto split: sum.split prod.split intro!: outcome_failing outcome_try [OF outcome_change Cons.IH])
qed (auto intro: outcome_give)

lemma fits_answer:
  assumes "\<And>call_id out. results_fit b [tool_message cfg call_id out]"
  shows "outcome (\<lambda>w. results_fit b (tw_history w)) (answer_round lib cfg rd content ms r)
    (\<lambda>_ w. results_fit b (tw_history w)) (\<lambda>_ w. results_fit b (tw_history w))"
proof -
  have rec: "outcome (\<lambda>w. results_fit b (tw_history w)) (change f) (\<lambda>_ w. results_fit b (tw_history w)) (\<lambda>_ w. results_fit b (tw_history w))"
    if "f = record_message (assistant_message r) \<or> f = on_session (append_response_items items)" for f items
    by (rule outcome_change) (use that in \<open>auto simp: assistant_message_def\<close>)
  have begins: "outcome (\<lambda>w. results_fit b (tw_history w)) (for_each begin_call calls)
      (\<lambda>_ w. results_fit b (tw_history w)) (\<lambda>_ w. results_fit b (tw_history w))" for calls
    by (rule outcome_for_each) (auto simp: begin_call_def intro: fits.send outcome_give)
  show ?thesis
    unfolding answer_round_def Let_def
    by (intro outcome_try [OF rec] outcome_if outcome_try [OF begins] outcome_try [OF fits_tools [OF assms]]
        outcome_try [OF fits.send] outcome_give) auto
qed

lemma scaled_message_fits:
  assumes "tc_tool_output_truncation cfg = Tokens n" and "n < 2 ^ 50"
  shows "results_fit ((6 * n + 4) div 5) [tool_message cfg call_id out]"
proof -
  have "(6 * n + 4) div 5 * 4 \<le> USIZE_MAX" using assms(2) by (simp add: USIZE_MAX_def)
  from truncation_fits [OF this] show ?thesis
    using scaled_policy [OF assms(2)] by (simp add: tool_message_def assms(1))
qed

text \<open>With a budget of \<open>n\<close> tokens for the output of a tool no result that a turn puts into the
  history is estimated at more than 1.2 times the budget, rounded up, however long the output was and
  however the turn ends.\<close>

theorem tool_results_fit_budget:
  assumes "tc_tool_output_truncation cfg = Tokens n" and "n < 2 ^ 50" and "results_fit ((6 * n + 4) div 5) (tw_history w)"
  shows "results_fit ((6 * n + 4) div 5) (tw_history (snd (run_turn_with_id lib cfg parts rds content turn_id w)))"
proof -
  let ?I = "\<lambda>w. results_fit ((6 * n + 4) div 5) (tw_history w)"
  have "round_keeps ?I (\<lambda>_. True) (\<lambda>_. ?I) (answer_round lib cfg rd content ms r)" for rd r ms content
    unfolding round_keeps_def using fits_answer [OF scaled_message_fits [OF assms(1,2)]] by simp
  then have "case run_turn_with_id lib cfg parts rds content turn_id w of (Some (Inl e), w') \<Rightarrow> ?I w' | (_, w') \<Rightarrow> ?I w'"
    by (rule fits.turn) (use assms(3) in \<open>auto simp: same_messages_def\<close>)
  then show ?thesis by (auto split: prod.splits option.splits sum.splits)
qed

section \<open>The number of requests\<close>

abbreviation sent :: "turn_world \<Rightarrow> nat" where
  "sent w \<equiv> length (tw_requests w)"

lemma sent_send_event: "sent (snd (send_event ev w)) = sent w"
  using send_event_same by (simp add: same_messages_def)

lemma sent_then_give: "sent (snd (try_do (send_event ev) (\<lambda>_. give x) w)) = sent w"
  using sent_send_event [of ev w] by (auto simp: try_do_def give_def split: prod.split sum.split)

lemma sent_compact: "sent (snd (compact_messages lib cfg prompt_prefix ms reason w)) = sent w"
  by (auto simp: compact_messages_def Let_def sent_then_give split: sum.split option.split)

lemma sent_try_run: "sent (snd (try_run_sampling_request a item_id ms w)) \<le> Suc (sent w)"
proof (cases "at_runtime_info a")
  case None
  let ?w = "w\<lparr>tw_requests := tw_requests w @ [ms]\<rparr>"
  have read: "outcome (\<lambda>w'. sent w' = Suc (sent w)) (read_stream item_id polls [] [] new_filter)
      (\<lambda>_ w'. sent w' = Suc (sent w)) (\<lambda>_ w'. sent w' = Suc (sent w))" for polls
    by (rule read_stream_keeps) (simp add: same_messages_def)
  have "sent (snd (read_stream item_id polls [] [] new_filter ?w)) = Suc (sent w)" for polls
  proof -
    obtain r w' where run: "read_stream item_id polls [] [] new_filter ?w = (r, w')" by fastforce
    have "sent w' = Suc (sent w)" by (rule outcome_any [OF read _ run]) simp
    with run show ?thesis by simp
  qed
  then show ?thesis
    by (cases "at_stream a") (auto simp: try_run_sampling_request_def None try_do_def change_def failing_def)
qed (simp add: try_run_sampling_request_def failing_def)

lemma sent_sampling:
  "ov \<le> max_overflow_retries \<Longrightarrow> r \<le> max_retries \<Longrightarrow>
    sent (snd (sampling_loop lib cfg prompt_prefix item_id attempts i r ov ms w))
      \<le> sent w + (max_overflow_retries - ov) * Suc max_retries + (max_retries - r) + 1"
proof (induction lib cfg prompt_prefix item_id attempts i r ov ms w rule: sampling_loop.induct)
  case (1 lib cfg prompt_prefix item_id attempts i r ov ms w)
  obtain res w1 where try': "try_run_sampling_request (attempts i) item_id ms w = (res, w1)" by fastforce
  have w1: "sent w1 \<le> Suc (sent w)" using sent_try_run [of "attempts i" item_id ms w] try' by simp
  show ?case
  proof (cases res)
    case (Inr out)
    then show ?thesis using w1 try' by (subst sampling_loop.simps) simp
  next
    case (Inl err)
    show ?thesis
    proof (cases "is_context_overflow_error err \<and> ov < max_overflow_retries")
      case True
      obtain res2 w2 where comp: "compact_messages lib cfg prompt_prefix ms Overflow w1 = (res2, w2)" by fastforce
      have w2: "sent w2 = sent w1" using sent_compact [of lib cfg prompt_prefix ms Overflow w1] comp by simp
      have left: "(max_overflow_retries - ov) * Suc max_retries
          = (max_overflow_retries - Suc ov) * Suc max_retries + Suc max_retries"
        using True by (metis Suc_diff_Suc add.commute mult_Suc)
      have "sent (snd (sampling_loop lib cfg prompt_prefix item_id attempts (i + 1) 0 (ov + 1) rebuilt w2))
          \<le> sent w2 + (max_overflow_retries - (ov + 1)) * Suc max_retries + (max_retries - 0) + 1"
        if "res2 = Inr (Some rebuilt)" for rebuilt
        using 1(1) [OF try' [symmetric] Inl True] comp that True by auto
      then show ?thesis
        using w1 w2 left try' Inl True comp by (subst sampling_loop.simps) (auto split: sum.split option.split)
    next
      case False
      show ?thesis
      proof (cases "is_retryable err \<and> r < max_retries")
        case True
        let ?ev = "Ev_Warning (''Reconnecting... '' @ show_nat (r + 1) @ ''/'' @ show_nat max_retries)"
        obtain res3 w3 where warn: "send_event ?ev w1 = (res3, w3)" by fastforce
        have w3: "sent w3 = sent w1" using sent_send_event [of ?ev w1] warn by simp
        have "sent (snd (sampling_loop lib cfg prompt_prefix item_id attempts (i + 1) (r + 1) ov ms w3))
            \<le> sent w3 + (max_overflow_retries - ov) * Suc max_retries + (max_retries - (r + 1)) + 1"
          if "res3 = Inr ()"
          using 1(2) [OF try' [symmetric] Inl False True] warn that True 1(3) by auto
        then show ?thesis
          using w1 w3 try' Inl False True warn by (subst sampling_loop.simps) (auto split: sum.split)
      next
        case no: False
        then show ?thesis using w1 try' Inl False by (subst sampling_loop.simps) auto
      qed
    qed
  qed
qed

text \<open>C27. A round asks the model at most twelve times: four attempts with the prompt as it is, and four
  after each of two compactions; then its error ends the turn.\<close>

theorem sampling_bounded:
  "sent (snd (run_sampling_request lib cfg prompt_prefix item_id attempts ms w)) \<le> sent w + 12"
  using sent_sampling [of 0 0 lib cfg prompt_prefix item_id attempts 0 ms w]
  by (simp add: run_sampling_request_def max_overflow_retries_def max_retries_def)

end
