(* ===== verification/TurnTold.thy ===== *)
theory TurnTold
  imports TurnInvariant "HOL-Library.Sublist"
begin

text \<open>
  What the model is told in a turn without compaction: the messages of the turn grow with the
  history, every request is the prompt followed by what had been recorded when it was sent, and the
  result of the turn is the text of the recorded answers.
\<close>

definition told :: "message list \<Rightarrow> turn_world \<Rightarrow> turn_world \<Rightarrow> bool" where
  "told m0 w0 w \<longleftrightarrow> (\<exists>recorded reqs. tw_history w = tw_history w0 @ recorded \<and> tw_requests w = tw_requests w0 @ reqs
     \<and> (\<forall>req \<in> set reqs. \<exists>known. prefix known recorded \<and> req = m0 @ known))"

fun assistant_text :: "message \<Rightarrow> string" where
  "assistant_text (Msg_Assistant (Some t) _) = t"
| "assistant_text _ = []"

definition in_step :: "message list \<Rightarrow> turn_world \<Rightarrow> string \<Rightarrow> message list \<Rightarrow> string \<Rightarrow> turn_world \<Rightarrow> bool" where
  "in_step m0 w0 c0 ms c w \<longleftrightarrow> told m0 w0 w \<and>
     (\<exists>recorded. tw_history w = tw_history w0 @ recorded \<and> ms = m0 @ recorded
        \<and> c = c0 @ concat (map assistant_text recorded))"

lemma told_same: "same_messages w w' \<Longrightarrow> told m0 w0 w \<Longrightarrow> told m0 w0 w'"
  by (simp add: told_def same_messages_def)

lemma in_step_same: "same_messages w w' \<Longrightarrow> in_step m0 w0 c0 ms c w \<Longrightarrow> in_step m0 w0 c0 ms c w'"
  by (auto simp: in_step_def told_same) (simp add: same_messages_def)

lemma in_step_told: "in_step m0 w0 c0 ms c w \<Longrightarrow> told m0 w0 w"
  by (simp add: in_step_def)

lemma told_record:
  assumes "told m0 w0 w" and "tw_history w' = tw_history w @ [m]" and "tw_requests w' = tw_requests w"
  shows "told m0 w0 w'"
proof -
  obtain recorded reqs where "tw_history w = tw_history w0 @ recorded" "tw_requests w = tw_requests w0 @ reqs"
    "\<forall>req \<in> set reqs. \<exists>known. prefix known recorded \<and> req = m0 @ known"
    using assms(1) unfolding told_def by blast
  with assms(2,3) show ?thesis
    unfolding told_def by (intro exI [of _ "recorded @ [m]"] exI [of _ reqs]) (auto intro: prefix_prefix)
qed

lemma in_step_record:
  assumes "in_step m0 w0 c0 ms c w" and "tw_history w' = tw_history w @ [m]" and "tw_requests w' = tw_requests w"
  shows "in_step m0 w0 c0 (ms @ [m]) (c @ assistant_text m) w'"
  using assms told_record [OF in_step_told [OF assms(1)] assms(2,3)] by (auto simp: in_step_def)

lemma in_step_request:
  assumes "in_step m0 w0 c0 ms c w"
  shows "in_step m0 w0 c0 ms c (w\<lparr>tw_requests := tw_requests w @ [ms]\<rparr>)"
proof -
  obtain recorded reqs where h: "tw_history w = tw_history w0 @ recorded" and r: "tw_requests w = tw_requests w0 @ reqs"
    and all: "\<forall>req \<in> set reqs. \<exists>known. prefix known recorded \<and> req = m0 @ known" and ms: "ms = m0 @ recorded"
    using assms unfolding in_step_def told_def by auto
  have "told m0 w0 (w\<lparr>tw_requests := tw_requests w @ [ms]\<rparr>)"
    unfolding told_def using h r all ms by (intro exI [of _ recorded] exI [of _ "reqs @ [ms]"]) auto
  then show ?thesis using assms by (simp add: in_step_def)
qed

lemma step_send: "outcome (in_step m0 w0 c0 ms c) (send_event ev) (\<lambda>_. in_step m0 w0 c0 ms c) (\<lambda>_. told m0 w0)"
  by (rule outcome_weaken [OF outcome_send [where P = "in_step m0 w0 c0 ms c"]]) (auto intro: in_step_same in_step_told)

lemma step_steer: "outcome (in_step m0 w0 c0 ms c) (change (steer_all sts)) (\<lambda>_. in_step m0 w0 c0 ms c) (\<lambda>_. told m0 w0)"
  by (rule outcome_change) (rule in_step_same [OF steer_all_same])

lemma step_take:
  "outcome (in_step m0 w0 c0 ms c) (take_inputs inputs ms) (\<lambda>ms'. in_step m0 w0 c0 ms' c) (\<lambda>_. told m0 w0)"
proof (induction inputs arbitrary: ms)
  case (Cons items rest)
  have rec: "outcome (in_step m0 w0 c0 ms c) (change (record_message (Msg_User t)))
      (\<lambda>_. in_step m0 w0 c0 (ms @ [Msg_User t]) c) (\<lambda>_. told m0 w0)" for t
    using in_step_record [of m0 w0 c0 ms c _ _ "Msg_User t"] by (intro outcome_change) simp
  show ?case
    unfolding take_inputs.simps
    by (rule outcome_try [OF step_send], rule outcome_try [OF rec], rule outcome_try [OF step_send Cons.IH])
qed (auto intro: outcome_give)

lemma step_drain:
  "outcome (in_step m0 w0 c0 ms c) (drain_inputs ms) (\<lambda>ms'. in_step m0 w0 c0 ms' c) (\<lambda>_. told m0 w0)"
proof (rule outcomeI)
  fix w assume w: "in_step m0 w0 c0 ms c w"
  have "in_step m0 w0 c0 ms c (on_session (\<lambda>s. s\<lparr>ss_turn := t\<rparr>) w)" for t
    by (rule in_step_same [OF _ w]) (simp add: same_messages_def)
  from outcomeD [OF step_take this]
  show "case drain_inputs ms w of (Inl e, s') \<Rightarrow> told m0 w0 s' | (Inr ms', s') \<Rightarrow> in_step m0 w0 c0 ms' c s'"
    by (simp add: drain_inputs_def take_pending_inputs_def)
qed

lemma step_try_run:
  "outcome (in_step m0 w0 c0 ms c) (try_run_sampling_request a item_id ms) (\<lambda>_. in_step m0 w0 c0 ms c) (\<lambda>_. in_step m0 w0 c0 ms c)"
proof (cases "at_runtime_info a")
  case None
  show ?thesis
    unfolding try_run_sampling_request_def None option.simps
    by (auto split: sum.split intro!: outcome_failing read_stream_keeps in_step_request
        outcome_try [where R = "\<lambda>_. in_step m0 w0 c0 ms c", OF outcome_change] elim: in_step_same)
qed (auto simp: try_run_sampling_request_def intro: outcome_failing)

text \<open>Without compaction an attempt is repeated with the same messages.\<close>

lemma step_sampling:
  "\<not> cs_enabled (tc_compaction cfg) \<Longrightarrow> in_step m0 w0 c0 ms c w \<Longrightarrow>
    case sampling_loop lib cfg prompt_prefix item_id attempts i r ov ms w of
      (Inl e, w') \<Rightarrow> told m0 w0 w' | (Inr (out, ms'), w') \<Rightarrow> ms' = ms \<and> in_step m0 w0 c0 ms c w'"
proof (induction lib cfg prompt_prefix item_id attempts i r ov ms w rule: sampling_loop.induct)
  case (1 lib cfg prompt_prefix item_id attempts i r ov ms w)
  obtain res w1 where try': "try_run_sampling_request (attempts i) item_id ms w = (res, w1)" by fastforce
  have w1: "in_step m0 w0 c0 ms c w1" by (rule outcome_any [OF step_try_run 1(4) try'])
  have off: "compact_messages lib cfg prompt_prefix ms Overflow w1 = (Inr None, w1)"
    using 1(3) by (simp add: compact_messages_def)
  show ?case
  proof (cases res)
    case (Inr out)
    then show ?thesis using w1 try' by (subst sampling_loop.simps) simp
  next
    case (Inl err)
    let ?ev = "Ev_Warning (''Reconnecting... '' @ show_nat (r + 1) @ ''/'' @ show_nat max_retries)"
    obtain res3 w3 where warn: "send_event ?ev w1 = (res3, w3)" by fastforce
    have w3: "case res3 of Inl e \<Rightarrow> told m0 w0 w3 | Inr _ \<Rightarrow> in_step m0 w0 c0 ms c w3"
      using outcome_Inl [OF step_send w1] outcome_Inr [OF step_send w1] warn by (cases res3) auto
    show ?thesis
      using 1(2) [OF try' [symmetric] Inl] 1(3) off try' Inl warn w3 in_step_told [OF w1]
      by (subst sampling_loop.simps) (auto split: sum.splits)
  qed
qed

lemma step_request:
  assumes "\<not> cs_enabled (tc_compaction cfg)"
  shows "outcome (in_step m0 w0 c0 ms c) (run_sampling_request lib cfg prompt_prefix item_id attempts ms)
    (\<lambda>x. in_step m0 w0 c0 (snd x) c) (\<lambda>_. told m0 w0)"
proof (rule outcomeI)
  fix w assume "in_step m0 w0 c0 ms c w"
  from step_sampling [OF assms this] show "case run_sampling_request lib cfg prompt_prefix item_id attempts ms w of
      (Inl e, s') \<Rightarrow> told m0 w0 s' | (Inr x, s') \<Rightarrow> in_step m0 w0 c0 (snd x) c s'"
    unfolding run_sampling_request_def by (fastforce split: prod.splits sum.splits)
qed

lemma step_tools:
  "outcome (in_step m0 w0 c0 ms c) (run_tool_calls lib cfg replies i calls ms) (\<lambda>ms'. in_step m0 w0 c0 ms' c) (\<lambda>_. told m0 w0)"
proof (induction calls arbitrary: i ms)
  case (Cons call calls)
  show ?case
  proof (cases "execute_tool_call lib (replies i call) call")
    case (Inr r)
    then obtain call_id out where ex: "execute_tool_call lib (replies i call) call = Inr (call_id, out)" by (cases r) auto
    have rec: "outcome (in_step m0 w0 c0 ms c) (change (record_tool_output cfg call_id out))
        (\<lambda>_. in_step m0 w0 c0 (ms @ [tool_message cfg call_id out]) c) (\<lambda>_. told m0 w0)"
      using in_step_record [of m0 w0 c0 ms c _ _ "tool_message cfg call_id out"]
      by (intro outcome_change) (simp add: tool_message_def)
    show ?thesis
      unfolding run_tool_calls.simps ex sum.case prod.case by (rule outcome_try [OF rec Cons.IH])
  qed (auto intro: outcome_failing in_step_told)
qed (auto intro: outcome_give)

abbreviation goes_in_step :: "message list \<Rightarrow> turn_world \<Rightarrow> string \<Rightarrow> round_result \<Rightarrow> turn_world \<Rightarrow> bool" where
  "goes_in_step m0 w0 c0 res w \<equiv> (case res of
     Turn_Finished c \<Rightarrow> \<exists>ms. in_step m0 w0 c0 ms c w | Turn_Goes_On c ms \<Rightarrow> in_step m0 w0 c0 ms c w)"

lemma step_answer:
  "outcome (in_step m0 w0 c0 ms c) (answer_round lib cfg rd c ms r) (goes_in_step m0 w0 c0) (\<lambda>_. told m0 w0)"
proof -
  let ?I = "in_step m0 w0 c0 (ms @ [assistant_message r]) (c @ sr_assistant_delta r)"
  have t: "assistant_text (assistant_message r) = sr_assistant_delta r"
    by (simp add: assistant_message_def nonempty_def)
  have rec: "outcome (in_step m0 w0 c0 ms c) (change (record_message (assistant_message r))) (\<lambda>_. ?I) (\<lambda>_. told m0 w0)"
    using in_step_record [of m0 w0 c0 ms c _ _ "assistant_message r"] by (intro outcome_change) (simp add: t)
  have items: "outcome ?I (change (on_session (append_response_items items))) (\<lambda>_. ?I) (\<lambda>_. told m0 w0)" for items
    by (rule outcome_change) (auto elim!: in_step_same [rotated] simp: same_messages_def)
  have begins: "outcome ?I (for_each begin_call calls) (\<lambda>_. ?I) (\<lambda>_. told m0 w0)" for calls
    by (rule outcome_for_each) (auto simp: begin_call_def intro: step_send outcome_give)
  show ?thesis
    unfolding answer_round_def Let_def
    by (intro outcome_try [OF rec] outcome_try [OF items] outcome_if outcome_try [OF begins] outcome_try [OF step_tools]
        outcome_try [OF step_send] outcome_give) auto
qed

lemma step_round:
  assumes "\<not> cs_enabled (tc_compaction cfg)"
  shows "outcome (in_step m0 w0 c0 ms c) (sse_round lib cfg prompt_prefix rd c ms) (goes_in_step m0 w0 c0) (\<lambda>_. told m0 w0)"
  unfolding sse_round_def maybe_run_auto_compact_def if_P [OF assms]
  by (intro outcome_if outcome_failing, erule in_step_told,
      rule outcome_try [OF step_steer], rule outcome_try [OF step_drain],
      rule outcome_try [OF outcome_give], assumption, rule outcome_try [OF step_send],
      rule outcome_try [OF step_request [OF assms]])
    (auto intro!: outcome_try [OF step_steer] step_answer)


end
