(* ===== verification/TurnDemo.thy ===== *)
theory TurnDemo
  imports TurnPairs TurnBounds TurnTold TurnEvents
begin

text \<open>
  Turns that run: a call and its answer, a tool that is cancelled, an input that comes late, an
  attempt that is repeated, a prompt that cannot be built. They are the witnesses of the theorems on
  turns, and show what the theorems leave open.
\<close>

section \<open>The demonstration\<close>

definition demo_turn_lib :: turn_lib where
  "demo_turn_lib = \<lparr>tl_from_str = (\<lambda>_. Inr J_Null), tl_to_json = (\<lambda>_. None), tl_chat = (\<lambda>_ _ _. Inl NoDefaultProvider)\<rparr>"

definition demo_turn_config :: turn_config where
  "demo_turn_config = \<lparr>tc_model = ''m'', tc_system_prompt = None, tc_enable_tools = True, tc_cwd = ''/w'',
     tc_tool_output_truncation = No_Truncation, tc_context_window_limit = Some 9,
     tc_compaction = \<lparr>cs_enabled = False, cs_reserve_tokens = 0, cs_keep_recent_tokens = 0, cs_max_summary_tokens = 0,
       cs_prompt_override = None\<rparr>\<rparr>"

definition quiet_parts :: prompt_parts where
  "quiet_parts = \<lparr>pr_digest = None, pr_tool_summary = Inr None, pr_auto_context = Inr None, pr_injections = None\<rparr>"

definition fresh_world :: turn_world where
  "fresh_world = \<lparr>tw_session = \<lparr>ss_history = [], ss_response_history = [],
       ss_turn = \<lparr>at_turn_id = None, at_pending_inputs = []\<rparr>,
       ss_usage = \<lparr>tu_input_tokens = 0, tu_output_tokens = 0, tu_total_tokens = 0\<rparr>, ss_events = []\<rparr>,
     tw_room = None, tw_requests = [], tw_accepted = []\<rparr>"

definition says :: "response_event list \<Rightarrow> attempt" where
  "says evs = \<lparr>at_runtime_info = None, at_stream = Inr (map (\<lambda>e. Poll_Item (Inr e)) evs)\<rparr>"

definition read_call :: function_call_event where
  "read_call = \<lparr>fc_id = ''c1'', fc_call_type = ''function'', fc_name = ''read_file'', fc_arguments = ''{}'', fc_thought_signature = None\<rparr>"

definition plain_round :: "string \<Rightarrow> response_event list \<Rightarrow> round_env" where
  "plain_round item_id evs = \<lparr>rd_cancelled = False, rd_steers = [], rd_late_steers = [], rd_item_id = item_id,
     rd_attempts = (\<lambda>_. says evs),
     rd_replies = (\<lambda>_ _. \<lparr>tr_runtime_info = None, tr_answer = Inr (Out_Function [] ''text'' (Some True))\<rparr>)\<rparr>"

definition call_round :: round_env where
  "call_round = plain_round ''i1'' [RE_ContentDelta ''I look. '', RE_FunctionCall read_call, RE_EndTurn]"

definition last_round :: round_env where
  "last_round = plain_round ''i2'' [RE_ContentDelta ''Do'', RE_ContentDelta ''ne.'']"

definition demo_turn :: "round_env list \<Rightarrow> (turn_error + string) option \<times> turn_world" where
  "demo_turn rds = run_turn_with_id demo_turn_lib demo_turn_config quiet_parts rds ''go'' ''t1'' fresh_world"

text \<open>To evaluate a turn whose outputs are not cut, the scaled budget is not computed.\<close>

lemma tool_message_uncut [code]:
  "tool_message cfg call_id out = Msg_Tool (if output_id out = [] then call_id else output_id out)
     (if tc_tool_output_truncation cfg = No_Truncation then text_content out
      else truncate_text (text_content out) (mul_policy (tc_tool_output_truncation cfg) f64_1_2))"
  by (simp add: tool_message_def truncate_text_def truncate_with_def mul_policy_def)

lemma demo_honest: "honest call_round" "honest last_round"
  by (simp_all add: honest_def call_round_def last_round_def plain_round_def)

lemma demo_limit: "tc_context_window_limit demo_turn_config \<noteq> None" "\<not> cs_enabled (tc_compaction demo_turn_config)"
  by (simp_all add: demo_turn_config_def)

lemma demo_result: "fst (demo_turn [call_round, last_round]) = Some (Inr ''I look. Done.'')"
  by code_simp

theorem turn_keeps_pairs_witness:
  "pairs_kept (snd (demo_turn [call_round, last_round]))"
  unfolding demo_turn_def
  by (rule turn_keeps_pairs) (use demo_honest demo_limit in \<open>auto simp: pairs_kept_def fresh_world_def\<close>)

theorem calls_are_answered_witness:
  "all_answered (tw_history (snd (demo_turn [call_round, last_round])))"
proof -
  obtain r w where run: "demo_turn [call_round, last_round] = (r, w)" by fastforce
  then have "r = Some (Inr ''I look. Done.'')" using demo_result by simp
  then show ?thesis
    using calls_are_answered [OF _ _ run [unfolded demo_turn_def]] demo_honest run by (simp add: fresh_world_def)
qed

text \<open>The last item repeats what the items before it have shown.\<close>

theorem last_item_repeats:
  "List.map_filter (\<lambda>e. case e of AgentItemCompleted i c \<Rightarrow> Some (i, c) | _ \<Rightarrow> None)
     (ss_events (tw_session (snd (demo_turn [call_round, last_round]))))
   = [(''i1'', [''I look. '']), (''i2'', [''I look. Done.''])]"
  by code_simp

section \<open>What is left open\<close>

text \<open>A call that is cancelled ends the turn as an error, not as an abortion, and leaves its call in the
  history without a result.\<close>

definition cancelled_round :: round_env where
  "cancelled_round = call_round\<lparr>rd_replies := (\<lambda>_ _. \<lparr>tr_runtime_info = None, tr_answer = Inl (FCE_Fatal ''tool call cancelled'')\<rparr>)\<rparr>"

theorem cancelled_call_stays_open:
  "fst (demo_turn [cancelled_round]) = Some (Inl (TE_Fatal ''tool call cancelled''))
   \<and> \<not> all_answered (tw_history (snd (demo_turn [cancelled_round])))
   \<and> \<not> list_ex (\<lambda>e. case e of TurnAborted _ \<Rightarrow> True | _ \<Rightarrow> False) (ss_events (tw_session (snd (demo_turn [cancelled_round]))))"
  by code_simp

text \<open>An input that is accepted while the last answer streams is dropped when the turn ends.\<close>

definition late_round :: round_env where
  "late_round = last_round\<lparr>rd_late_steers := [(Some ''t1'', [UI_Text ''wait''])]\<rparr>"

theorem late_input_is_dropped:
  "fst (demo_turn [late_round]) = Some (Inr ''Done.'')
   \<and> tw_accepted (snd (demo_turn [late_round])) = [[UI_Text ''wait'']]
   \<and> shown_inputs (ss_events (tw_session (snd (demo_turn [late_round])))) = []
   \<and> at_pending_inputs (ss_turn (tw_session (snd (demo_turn [late_round])))) = []"
  by code_simp

text \<open>An attempt that breaks off has shown text which the next one shows again.\<close>

definition broken_round :: round_env where
  "broken_round = last_round\<lparr>rd_attempts := (\<lambda>i. if i = 0
     then \<lparr>at_runtime_info = None, at_stream = Inr [Poll_Item (Inr (RE_ContentDelta ''Do'')), Poll_Item (Inl (StreamError ''reset''))]\<rparr>
     else says [RE_ContentDelta ''Done.''])\<rparr>"

theorem retry_repeats_text:
  "fst (demo_turn [broken_round]) = Some (Inr ''Done.'')
   \<and> live_text (ss_events (tw_session (snd (demo_turn [broken_round])))) = ''DoDone.''"
  by code_simp

text \<open>A turn whose prompt cannot be built ends without telling the client.\<close>

theorem failed_prompt_hides_turn:
  "let (r, w) = run_turn_with_id demo_turn_lib demo_turn_config
      (quiet_parts\<lparr>pr_tool_summary := Inl (ProviderNotFound ''p'')\<rparr>) [last_round] ''go'' ''t1'' fresh_world
   in r = Some (Inl (TE_Model (ProviderNotFound ''p''))) \<and> ss_events (tw_session w) = [TurnStarted]"
  by code_simp

text \<open>After three repetitions the error of the stream ends the turn.\<close>

definition dead_round :: round_env where
  "dead_round = last_round\<lparr>rd_attempts := (\<lambda>i. \<lparr>at_runtime_info = None, at_stream = Inl (StreamError ''reset'')\<rparr>)\<rparr>"

lemma gives_up_after_three_retries:
  "fst (demo_turn [dead_round]) = Some (Inl (TE_Stream ''reset'')) \<and> sent (snd (demo_turn [dead_round])) = 4"
  by code_simp

section \<open>The properties at work\<close>

theorem tool_results_fit_budget_witness:
  "results_fit 19661 (tw_history (snd (run_turn_with_id demo_turn_lib
     (demo_turn_config\<lparr>tc_tool_output_truncation := Tokens DEFAULT_TOOL_OUTPUT_TOKENS\<rparr>) quiet_parts
     [call_round, last_round] ''go'' ''t1'' fresh_world)))"
  using tool_results_fit_budget [of "demo_turn_config\<lparr>tc_tool_output_truncation := Tokens DEFAULT_TOOL_OUTPUT_TOKENS\<rparr>"
      DEFAULT_TOOL_OUTPUT_TOKENS fresh_world demo_turn_lib quiet_parts "[call_round, last_round]" "''go''" "''t1''"]
  by (simp add: DEFAULT_TOOL_OUTPUT_TOKENS_def fresh_world_def)


theorem inputs_shown_in_order_witness:
  "let w' = snd (run_rounds demo_turn_lib demo_turn_config [] [call_round, late_round] [] [] (fresh_world\<lparr>tw_session := (tw_session fresh_world)
       \<lparr>ss_turn := \<lparr>at_turn_id = Some ''t1'', at_pending_inputs = []\<rparr>\<rparr>\<rparr>))
   in tw_accepted w' = shown_inputs (ss_events (tw_session w')) @ at_pending_inputs (ss_turn (tw_session w'))"
  unfolding Let_def
  by (rule inputs_shown_in_order [OF _ _ prod.collapse [symmetric]])
    (simp_all add: fresh_world_def balanced_def shown_inputs_def List.map_filter_simps)

theorem turn_is_concluded_witness:
  "\<exists>mid. ss_events (tw_session (snd (demo_turn [call_round, last_round]))) = TurnStarted # mid @ [TurnCompleted]
     \<and> list_all (\<lambda>e. \<not> control e) mid"
proof -
  obtain w where run: "demo_turn [call_round, last_round] = (Some (Inr ''I look. Done.''), w)"
    using demo_result by (cases "demo_turn [call_round, last_round]") simp
  have "pr_tool_summary quiet_parts = Inr None" "pr_auto_context quiet_parts = Inr None" "tw_room fresh_world = None"
    by (simp_all add: quiet_parts_def fresh_world_def)
  from turn_is_concluded [OF this(3,1,2) run [unfolded demo_turn_def]] show ?thesis
    unfolding run by (simp add: fresh_world_def)
qed

theorem answer_shown_filtered_witness:
  "live_text (ss_events (tw_session (snd (try_run_sampling_request (says [RE_ContentDelta ''a <func'', RE_ContentDelta ''tion_calls>x'']) ''i'' [] fresh_world)))) = ''a ''"
proof -
  let ?run = "try_run_sampling_request (says [RE_ContentDelta ''a <func'', RE_ContentDelta ''tion_calls>x'']) ''i'' [] fresh_world"
  have "map_sum (\<lambda>_. ()) id (fst ?run) = Inr \<lparr>sr_assistant_delta = ''a <function_calls>x'', sr_function_calls = []\<rparr>" by code_simp
  then obtain w where run: "?run = (Inr \<lparr>sr_assistant_delta = ''a <function_calls>x'', sr_function_calls = []\<rparr>, w)"
    by (cases ?run; cases "fst ?run") auto
  have "snd (filter_visible ''a <function_calls>x'' new_filter) = ''a ''" by code_simp
  then show ?thesis
    using answer_shown_filtered [OF _ run] unfolding run by (simp add: fresh_world_def)
qed

end
