(* ===== verification/LoopDemo.thy ===== *)
theory LoopDemo
  imports LoopProps ClientTurn TurnDemo
begin

text \<open>
  Submissions and clients that run: the witnesses of the theorems on the loop and on the client of a
  turn, and what they leave open.
\<close>

section \<open>The demonstration\<close>

definition demo_loop_lib :: loop_lib where
  "demo_loop_lib = \<lparr>tl_from_str = (\<lambda>_. Inr J_Null), tl_to_json = (\<lambda>_. None), tl_chat = (\<lambda>_ _ _. Inl NoDefaultProvider),
     ll_context_window = (\<lambda>m. if m = ''p/small'' then Some 8 else Some 9), ll_now = (\<lambda>_. 7)\<rparr>"

definition demo_loop_settings :: loop_settings where
  "demo_loop_settings = \<lparr>ls_provider = ''p'', ls_model = ''m'', ls_max_threads = 1, ls_approval = Mode_Ask,
     ls_sandbox = Permissive, ls_network_access = False, ls_cwd = ''/w''\<rparr>"

text \<open>A loop at its start, without compaction.\<close>

definition demo_loop_config :: loop_config where
  "demo_loop_config = \<lparr>tc_model = ''p/m'', tc_system_prompt = None, tc_enable_tools = True, tc_cwd = ''/w'',
     tc_tool_output_truncation = No_Truncation, tc_context_window_limit = Some 9,
     tc_compaction = \<lparr>cs_enabled = False, cs_reserve_tokens = 0, cs_keep_recent_tokens = 0, cs_max_summary_tokens = 0,
       cs_prompt_override = None\<rparr>,
     tc_approval_policy = map_approval_policy demo_loop_settings, tc_sandbox_policy = map_sandbox_policy demo_loop_settings,
     tc_has_managed_network_requirements = False, tc_allowed_domains = [], tc_denied_domains = []\<rparr>"

definition demo_start :: loop_world where
  "demo_start = \<lparr>lw_session = new_session, lw_books = new_books, lw_team = None,
     lw_switch = \<lparr>ms_current_model = Some ''p/m'', ms_previous_model = None, ms_switched_at = None\<rparr>,
     lw_status = start_agent new_status_cell, lw_agent_config = demo_loop_config, lw_config = demo_loop_config,
     lw_queue = [], lw_closed = False, lw_events = [], lw_arrived = [], lw_taken = [], lw_turns = []\<rparr>"

definition says_user :: "string \<Rightarrow> string \<Rightarrow> submission" where
  "says_user i text' = \<lparr>sub_id = i, sub_op = Op_UserInput [UI_Text text']\<rparr>"

definition approves :: "string \<Rightarrow> string \<Rightarrow> submission" where
  "approves i prompt = \<lparr>sub_id = i, sub_op = Op_ExecApproval prompt None Approved\<rparr>"

definition asks_model :: "string \<Rightarrow> string \<Rightarrow> submission" where
  "asks_model i text' = \<lparr>sub_id = i, sub_op = Op_UserTurn [UI_Text text'] ''/'' Never (ReadOnly FullAccess) ''p/small''\<rparr>"

text \<open>A turn asks for an approval while another input waits; the approval overtakes the input. The
  prompt of the second turn is not answered before that turn ends, which denies it.\<close>

definition demo_inputs :: "loop_input list" where
  "demo_inputs = [Arrives (Some (says_user ''s1'' ''go'')), Turn_Acts (Asks_Approval ''a1''),
     Arrives (Some (says_user ''s2'' ''next'')), Arrives (Some (approves ''s3'' ''a1'')),
     Turn_Acts (Records (Msg_Assistant (Some ''did'') None)), Turn_Returns (Inr ()),
     Turn_Acts (Asks_Approval ''a2''), Turn_Returns (Inl ''error'')]"

definition demo_summary :: "submission_phase \<times> loop_world \<Rightarrow>
    submission_phase \<times> string list \<times> string list \<times> string list \<times> review_decision list list \<times> agent_status" where
  "demo_summary r = (case r of (ph, w) \<Rightarrow> (ph, map sub_id (lw_arrived w), map sub_id (lw_taken w), map fst (lw_turns w),
     map (ss_answers (pb_approvals (lw_books w))) [0..<2], sc_status (lw_status w)))"

theorem approval_overtakes_inputs:
  "demo_summary (submission_loop demo_loop_lib demo_inputs demo_start) =
     (Waiting, [''s1'', ''s2'', ''s3''], [''s1'', ''s2''], [''s1'', ''s2''], [[Approved], [Denied]], Error ''error'')"
  by code_simp

text \<open>A turn with its own directory and policies runs under those of the session.\<close>

theorem user_turn_keeps_policies:
  "map (\<lambda>(t, _, c). (t, tc_model c, tc_approval_policy c, tc_sandbox_policy c, tc_cwd c))
     (lw_turns (snd (submission_loop demo_loop_lib [Arrives (Some (asks_model ''s1'' ''go'')), Turn_Returns (Inr ())] demo_start)))
   = [(''s1'', ''p/small'', OnRequest, WorkspaceWrite [''/w''] FullAccess False False False, ''/w'')]"
  by code_simp

section \<open>The properties at work\<close>

theorem approval_reaches_turn_witness:
  "let w = turn_acts ''t'' (Asks_Approval ''a'') demo_start
   in case during_turn ''t'' (approves ''s'' ''a'') w of (left, w') \<Rightarrow>
     \<not> left \<and> lw_queue w' = [] \<and> ss_answers (pb_approvals (lw_books w')) 0 = [Approved]"
proof -
  let ?w = "turn_acts ''t'' (Asks_Approval ''a'') demo_start"
  have "hm_get (pa_by_id (ss_pending (pb_approvals (lw_books ?w)))) ''a'' = Some 0"
    "ss_answers (pb_approvals (lw_books ?w)) 0 = []" "lw_queue ?w = []" by code_simp+
  then show ?thesis
    using approval_reaches_turn [of ?w "''a''" 0 "approves ''s'' ''a''" None Approved "''t''"]
    by (auto simp: approves_def split: prod.splits)
qed

lemma says_user_simps [simp]: "sub_op (says_user i t) = Op_UserInput [UI_Text t]" "sub_id (says_user i t) = i"
  by (simp_all add: says_user_def)

lemma demo_texts: "trim (user_message [UI_Text ''go'']) = ''go''" "trim (user_message [UI_Text ''next'']) = ''next''"
  "trim (user_message [UI_Text '' '']) = []"
  by code_simp+

theorem interrupt_leaves_agent_busy_witness:
  "case submission_loop demo_loop_lib (Arrives (Some (says_user ''s1'' ''go'')) # turn_parts [Takes_Inputs]
      @ [Arrives (Some \<lparr>sub_id = ''s2'', sub_op = Op_Interrupt\<rparr>)]) (start_loop demo_loop_lib ''base'' ''team'' demo_loop_settings None)
   of (ph, w) \<Rightarrow> ph = Waiting \<and> sc_status (lw_status w) = Busy"
  by (rule interrupt_leaves_agent_busy [where items = "[UI_Text ''go'']"]) (simp_all add: demo_texts)

theorem shutdown_in_turn_goes_on_witness:
  "case submission_loop demo_loop_lib [Arrives (Some (says_user ''s1'' ''go'')), Arrives (Some (says_user ''s2'' ''next'')),
      Arrives (Some \<lparr>sub_id = ''s3'', sub_op = Op_Shutdown\<rparr>)] (start_loop demo_loop_lib ''base'' ''team'' demo_loop_settings None)
   of (ph, w) \<Rightarrow> ph = In_Turn ''s2'' \<and> LE_ShutdownComplete \<in> set (lw_events w)"
  using shutdown_in_turn_goes_on [of "says_user ''s1'' ''go''" "[UI_Text ''go'']" "says_user ''s2'' ''next''" "[UI_Text ''next'']"]
  by (simp add: demo_texts)

definition fresh_state :: turn_state where
  "fresh_state = \<lparr>ts_current_input = None, ts_last_output = None, ts_turns_executed = 0\<rparr>"

lemma demo_parts: "tw_room fresh_world = None" "pr_tool_summary quiet_parts = Inr None" "pr_auto_context quiet_parts = Inr None"
  "ss_events (tw_session fresh_world) = []"
  by (simp_all add: quiet_parts_def fresh_world_def)

theorem run_turn_returns_answer_witness:
  "await_turn [] (client_events (ss_events (tw_session (snd (demo_turn [call_round, last_round]))))) =
     (Some (Run_Ok ''I look. Done.'' True), [])"
proof -
  obtain w where run: "demo_turn [call_round, last_round] = (Some (Inr ''I look. Done.''), w)"
    using demo_result by (cases "demo_turn [call_round, last_round]") simp
  from run_turn_returns_answer [OF demo_parts(1-3) run [unfolded demo_turn_def] _ demo_parts(4), of "[]" "[]"] show ?thesis
    unfolding run by simp
qed

theorem failed_turn_spoils_next_witness:
  "case run_turn ''go'' (client_events (ss_events (tw_session (snd (demo_turn [dead_round]))))) fresh_state of (r, rest, s') \<Rightarrow>
     r = Some (Run_Error (TE_Stream ''reset'')) \<and> fst (run_turn ''again'' rest s') = Some (Run_Ok [] False)"
proof -
  obtain w where run: "demo_turn [dead_round] = (Some (Inl (TE_Stream ''reset'')), w)"
    using gives_up_after_three_retries by (cases "demo_turn [dead_round]") simp
  from failed_turn_spoils_next [OF demo_parts(1-3) run [unfolded demo_turn_def] _ demo_parts(4), where upcoming = "[]" and s = fresh_state
      and next_input = "''again''"]
  show ?thesis unfolding run by (auto split: prod.splits)
qed

text \<open>The completion of a spawned agent answers the client, although its own turn has only begun.\<close>

theorem child_answers_client:
  "fst (run_turn ''go'' (client_events ([TurnStarted] @ ss_events (tw_session (snd (demo_turn [last_round]))))) fresh_state)
     = Some (Run_Ok ''Done.'' True)"
proof -
  have "fst (await_turn [] (client_events ([TurnStarted] @ ss_events (tw_session (snd (demo_turn [last_round])))))) = Some (Run_Ok ''Done.'' True)"
    by code_simp
  then show ?thesis by (auto simp: run_turn_def Let_def split: prod.split option.split run_result.split)
qed

theorem blank_input_never_answered_witness:
  "fst (run_turn (user_message [UI_Text '' '']) (map client_of_loop (added_events demo_start (snd (snd (handle_submission demo_loop_lib
     \<lparr>sub_id = ''s'', sub_op = Op_UserTurn [UI_Text '' ''] [] Never DangerFullAccess ''p/small''\<rparr> [] demo_start))))) fresh_state) = None"
proof -
  let ?sub = "\<lparr>sub_id = ''s'', sub_op = Op_UserTurn [UI_Text '' ''] [] Never DangerFullAccess ''p/small''\<rparr>"
  have "sub_op ?sub = Op_UserTurn [UI_Text '' ''] [] Never DangerFullAccess ''p/small''" by simp
  note blank = blank_input_never_answered [OF this demo_texts(3), where lib = demo_loop_lib and w = demo_start and s = fresh_state and ins = "[]"]
  obtain ph is' w' where h: "handle_submission demo_loop_lib ?sub [] demo_start = (ph, is', w')"
    by (metis prod_cases3)
  have "fst (run_turn (user_message [UI_Text '' '']) (map client_of_loop (added_events demo_start w')) fresh_state) = None"
    using blank unfolding h by simp
  then show ?thesis unfolding h by simp
qed

end
