(* ===== verification/RustReplace.thy ===== *)
theory RustReplace
  imports RustFind RustStr
begin

text \<open>
  \<open>str::split\<close>, \<open>matches\<close>, \<open>replace\<close> and \<open>replacen\<close> with a pattern that is not empty, and the
  conversion of line ends.
\<close>

section \<open>Splitting and replacing\<close>

text \<open>The pieces of \<open>str::split\<close>, for a pattern that is not empty.\<close>

function str_pieces :: "string \<Rightarrow> string \<Rightarrow> string list" where
  "str_pieces p s =
     (if p = [] then [s]
      else case str_split_once p s of None \<Rightarrow> [s] | Some (a, b) \<Rightarrow> a # str_pieces p b)"
  by pat_completeness auto
termination
  by (relation "measure (\<lambda>(p, s). length s)") (auto dest: split_once_shorter)

declare str_pieces.simps [simp del]

definition match_count :: "string \<Rightarrow> string \<Rightarrow> nat" where
  "match_count p s = length (str_pieces p s) - 1"

definition str_replace :: "string \<Rightarrow> string \<Rightarrow> string \<Rightarrow> string" where
  "str_replace p r s = join r (str_pieces p s)"

definition str_replace_first :: "string \<Rightarrow> string \<Rightarrow> string \<Rightarrow> string" where
  "str_replace_first p r s = (case str_split_once p s of None \<Rightarrow> s | Some (a, b) \<Rightarrow> a @ r @ b)"

definition to_lf :: "string \<Rightarrow> string" where
  "to_lf s = str_replace [CR, LF] [LF] s"

definition to_crlf :: "string \<Rightarrow> string" where
  "to_crlf s = str_replace [LF] [CR, LF] s"

section \<open>Pieces\<close>

lemma pieces_None: "str_split_once p s = None \<Longrightarrow> str_pieces p s = [s]"
  by (subst str_pieces.simps) simp

lemma pieces_Some: "p \<noteq> [] \<Longrightarrow> str_split_once p s = Some (a, b) \<Longrightarrow> str_pieces p s = a # str_pieces p b"
  by (subst str_pieces.simps) simp

lemma pieces_nonempty [simp]: "str_pieces p s \<noteq> []"
  by (subst str_pieces.simps) (simp split: option.split)

lemma join_Cons: "xs \<noteq> [] \<Longrightarrow> join sep (x # xs) = x @ sep @ join sep xs"
  by (cases xs) auto

lemma join_pieces: "join p (str_pieces p s) = s"
proof (induction p s rule: str_pieces.induct)
  case (1 p s)
  show ?case
  proof (cases "p = [] \<or> str_split_once p s = None")
    case False
    then obtain a b where ab: "p \<noteq> []" "str_split_once p s = Some (a, b)" by auto
    have "join p (str_pieces p b) = b" using 1 ab by simp
    moreover have "s = a @ p @ b" using ab(2) by (simp add: split_once_Some)
    ultimately show ?thesis using pieces_Some [OF ab] by (simp add: join_Cons)
  qed (subst str_pieces.simps; auto)
qed

text \<open>No piece contains the pattern.\<close>

lemma pieces_free: "p \<noteq> [] \<Longrightarrow> x \<in> set (str_pieces p s) \<Longrightarrow> str_split_once p x = None"
proof (induction p s rule: str_pieces.induct)
  case (1 p s)
  show ?case
  proof (cases "str_split_once p s")
    case None
    then show ?thesis using 1(3) by (simp add: pieces_None)
  next
    case (Some ab)
    obtain a b where ab: "ab = (a, b)" by fastforce
    have first: "str_split_once p a = None"
    proof -
      have s: "s = a @ p @ b" "\<forall>j < length a. \<not> starts_with p (drop j s)" using Some ab by (auto simp: split_once_Some)
      have "\<not> starts_with p (drop j a)" if "j \<le> length a" for j
      proof (cases "j < length a")
        case True
        then show ?thesis using s by (auto simp: starts_with_iff)
      next
        case False
        then show ?thesis using that 1(2) by (simp add: starts_with_iff)
      qed
      then show ?thesis by (simp add: split_once_None)
    qed
    show ?thesis using 1(1) [OF 1(2) Some ab [symmetric]] 1(2,3) first by (auto simp: pieces_Some [OF 1(2) Some [unfolded ab]])
  qed
qed

lemma count_pieces: "length (str_pieces p s) = Suc (match_count p s)"
  by (cases "str_pieces p s") (auto simp: match_count_def)

lemma count_0: "p \<noteq> [] \<Longrightarrow> match_count p s = 0 \<longleftrightarrow> str_split_once p s = None"
proof -
  assume p: "p \<noteq> []"
  show ?thesis
  proof (cases "str_split_once p s")
    case (Some ab)
    then show ?thesis using p by (cases ab) (simp add: match_count_def pieces_Some)
  qed (simp add: match_count_def pieces_None)
qed

lemma count_1:
  assumes "p \<noteq> []" and "match_count p s = 1"
  obtains a b where "str_split_once p s = Some (a, b)" "str_pieces p s = [a, b]"
proof -
  obtain a b where ab: "str_split_once p s = Some (a, b)"
    using count_0 [OF assms(1), of s] assms(2) by (cases "str_split_once p s") auto
  then have "length (str_pieces p b) = 1" using assms by (simp add: match_count_def pieces_Some)
  then obtain x where "str_pieces p b = [x]" by (auto simp: length_Suc_conv)
  moreover have "x = b" using join_pieces [of p b] calculation by simp
  ultimately show thesis using that ab pieces_Some [OF assms(1) ab] by simp
qed

lemma replace_first_pieces:
  "p \<noteq> [] \<Longrightarrow> match_count p s = 1 \<Longrightarrow> str_replace_first p r s = str_replace p r s"
  by (erule (1) count_1) (simp add: str_replace_first_def str_replace_def)

section \<open>Line endings\<close>

lemma starts_at: "starts_with p (drop j s) \<Longrightarrow> x \<in> set p \<Longrightarrow> x \<in> set s"
  using set_drop_subset [of j s] by (auto simp: starts_with_iff)

lemma char_split: "str_split_once [c] s = Some (a, b) \<longleftrightarrow> s = a @ c # b \<and> c \<notin> set a"
proof -
  have "(\<forall>j < length a. \<not> starts_with [c] (drop j (a @ c # b))) \<longleftrightarrow> c \<notin> set a"
  proof
    assume none: "\<forall>j < length a. \<not> starts_with [c] (drop j (a @ c # b))"
    show "c \<notin> set a"
    proof
      assume "c \<in> set a"
      then obtain u v where "a = u @ c # v" by (meson split_list)
      with none show False by (auto simp: starts_with_iff dest: spec [of _ "length u"])
    qed
  next
    assume c: "c \<notin> set a"
    show "\<forall>j < length a. \<not> starts_with [c] (drop j (a @ c # b))"
    proof (intro allI impI)
      fix j assume "j < length a"
      then obtain y ys where y: "drop j a = y # ys" "y \<in> set a"
        by (metis Cons_nth_drop_Suc nth_mem)
      with c \<open>j < length a\<close> show "\<not> starts_with [c] (drop j (a @ c # b))" by (auto simp: starts_with_iff)
    qed
  qed
  then show ?thesis by (auto simp: split_once_Some)
qed

lemma char_split_None: "str_split_once [c] s = None \<longleftrightarrow> c \<notin> set s"
  by (metis char_split not_None_eq option.distinct(1) split_list_first surj_pair in_set_conv_decomp)

lemma to_crlf_char: "to_crlf s = concat (map (\<lambda>x. if x = LF then [CR, LF] else [x]) s)"
proof -
  have plain: "LF \<notin> set a \<Longrightarrow> concat (map (\<lambda>x. if x = LF then [CR, LF] else [x]) a) = a" for a
    by (induction a) auto
  have "p = [LF] \<Longrightarrow> join [CR, LF] (str_pieces p s) = concat (map (\<lambda>x. if x = LF then [CR, LF] else [x]) s)" for p
  proof (induction p s rule: str_pieces.induct)
    case (1 p s)
    show ?case
    proof (cases "str_split_once p s")
      case None
      then show ?thesis using 1(2) by (simp add: pieces_None char_split_None plain)
    next
      case (Some ab)
      obtain a b where ab: "ab = (a, b)" by fastforce
      have s: "s = a @ LF # b" "LF \<notin> set a" using Some ab 1(2) by (simp_all add: char_split)
      have "join [CR, LF] (str_pieces p b) = concat (map (\<lambda>x. if x = LF then [CR, LF] else [x]) b)"
        using 1(1) [OF _ Some ab [symmetric] 1(2)] 1(2) by simp
      moreover have "str_pieces p s = a # str_pieces p b" using pieces_Some [OF _ Some [unfolded ab]] 1(2) by simp
      ultimately show ?thesis by (simp add: join_Cons s plain)
    qed
  qed
  then show ?thesis by (simp add: to_crlf_def str_replace_def)
qed

lemma to_crlf_simps [simp]: "to_crlf [] = []" "to_crlf (s @ t) = to_crlf s @ to_crlf t"
  "to_crlf (x # s) = (if x = LF then [CR, LF] else [x]) @ to_crlf s"
  by (simp_all add: to_crlf_char)

lemma to_crlf_plain: "LF \<notin> set s \<Longrightarrow> to_crlf s = s"
  by (induction s) auto

lemma to_lf_plain: "CR \<notin> set s \<Longrightarrow> to_lf s = s"
proof -
  assume "CR \<notin> set s"
  then have "str_split_once [CR, LF] s = None" by (auto simp: split_once_None dest: starts_at [where x = CR])
  then show ?thesis by (simp add: to_lf_def str_replace_def pieces_None)
qed

lemma crlf_split:
  assumes "CR \<notin> set a"
  shows "str_split_once [CR, LF] (a @ CR # LF # b) = Some (a, b)"
proof -
  have "\<not> starts_with [CR, LF] (drop j (a @ CR # LF # b))" if "j < length a" for j
  proof -
    obtain y ys where "drop j a = y # ys" "y \<in> set a" using \<open>j < length a\<close> by (metis Cons_nth_drop_Suc nth_mem)
    with assms that show ?thesis by (auto simp: starts_with_iff)
  qed
  then show ?thesis by (simp add: split_once_Some)
qed

lemma to_lf_crlf: "CR \<notin> set s \<Longrightarrow> to_lf (to_crlf s) = s"
proof -
  have "p = [LF] \<Longrightarrow> CR \<notin> set s \<Longrightarrow> str_pieces [CR, LF] (to_crlf s) = str_pieces p s" for p
  proof (induction p s rule: str_pieces.induct)
    case (1 p s)
    show ?case
    proof (cases "str_split_once p s")
      case None
      then have "to_crlf s = s" using 1(2) by (simp add: char_split_None to_crlf_plain)
      moreover have "str_split_once [CR, LF] s = None" using 1(3) by (auto simp: split_once_None dest: starts_at [where x = CR])
      ultimately show ?thesis using None by (simp add: pieces_None)
    next
      case (Some ab)
      obtain a b where ab: "ab = (a, b)" by fastforce
      have s: "s = a @ LF # b" "LF \<notin> set a" using Some ab 1(2) by (simp_all add: char_split)
      have "str_pieces [CR, LF] (to_crlf b) = str_pieces p b"
        using 1(1) [OF _ Some ab [symmetric] 1(2)] 1(2,3) s by simp
      moreover have "to_crlf s = a @ CR # LF # to_crlf b" using s by (simp add: to_crlf_plain)
      ultimately show ?thesis using crlf_split [of a "to_crlf b"] 1(3) s pieces_Some [OF _ Some [unfolded ab]] 1(2)
        by (simp add: pieces_Some)
    qed
  qed
  moreover assume "CR \<notin> set s"
  ultimately show ?thesis by (simp add: to_lf_def str_replace_def join_pieces)
qed

lemma contains_crlf: "CR \<notin> set s \<Longrightarrow> str_contains [CR, LF] (to_crlf s) \<longleftrightarrow> LF \<in> set s"
proof
  assume "CR \<notin> set s" "str_contains [CR, LF] (to_crlf s)"
  then show "LF \<in> set s" by (metis append_Cons in_set_conv_decomp str_contains_iff to_crlf_plain)
next
  assume "LF \<in> set s"
  then obtain a b where "s = a @ LF # b" by (meson split_list)
  then show "str_contains [CR, LF] (to_crlf s)" by (auto simp: str_contains_iff)
qed

lemma contains_none: "CR \<notin> set s \<Longrightarrow> \<not> str_contains [CR, LF] s"
  by (auto simp: str_contains_iff)

section \<open>Replacing in parts\<close>

text \<open>A text that does not end with the beginning of an occurrence can be replaced on its own.\<close>

lemma join_append_pieces:
  "xs \<noteq> [] \<Longrightarrow> ys \<noteq> [] \<Longrightarrow> join sep (xs @ ys) = join sep xs @ sep @ join sep ys"
  by (induction xs rule: induct_list012) (auto simp: join_Cons)

lemma replace_None: "str_split_once p s = None \<Longrightarrow> str_replace p r s = s"
  by (simp add: str_replace_def pieces_None)

lemma replace_Some:
  "p \<noteq> [] \<Longrightarrow> str_split_once p s = Some (a, b) \<Longrightarrow> str_replace p r s = a @ r @ str_replace p r b"
  by (simp add: str_replace_def pieces_Some join_Cons)

lemma suffix_len_0: "p \<noteq> [] \<Longrightarrow> suffix_len_matching_prefix s p = 0 \<longleftrightarrow>
    (\<forall>m. 1 \<le> m \<and> m < length p \<and> m \<le> length s \<longrightarrow> \<not> ends_with (take m p) s)"
  using suffix_len(1-3) [of p s] suffix_len(4) [of p _ s]
  by (metis One_nat_def Suc_leI bot_nat_0.extremum_uniqueI not_one_le_zero zero_less_iff_neq_zero)

lemma suffix_len_0_tail:
  assumes "p \<noteq> []" and "suffix_len_matching_prefix (a @ p @ b) p = 0"
  shows "suffix_len_matching_prefix b p = 0"
  using assms(2) ends_with_tail [of "take _ p" b "a @ p"]
  by (auto simp: suffix_len_0 [OF assms(1)])

lemma replace_append:
  assumes "p \<noteq> []" and "suffix_len_matching_prefix x p = 0"
  shows "str_replace p r (x @ y) = str_replace p r x @ str_replace p r y"
  using assms(2)
proof (induction "length x" arbitrary: x rule: less_induct)
  case less
  show ?case
  proof (cases "str_split_once p x")
    case None
    have "passed p x = x" "kept p x = []" using less.prems by (simp_all add: passed_def kept_def)
    then have "str_split_once p (x @ y) = map_option (\<lambda>(u, v). (x @ u, v)) (str_split_once p y)"
      using split_once_kept [OF assms(1) None, of y] by simp
    then show ?thesis
      by (cases "str_split_once p y") (auto simp: replace_None None replace_Some [OF assms(1)])
  next
    case (Some ab)
    obtain a b where ab: "ab = (a, b)" by fastforce
    have x: "x = a @ p @ b" using Some ab by (simp add: split_once_Some)
    then have "length b < length x" "suffix_len_matching_prefix b p = 0"
      using assms(1) less.prems suffix_len_0_tail by auto
    from less.hyps [OF this] show ?thesis
      using replace_Some [OF assms(1) Some [unfolded ab]] replace_Some [OF assms(1) split_once_append [OF Some [unfolded ab], of y]]
      by simp
  qed
qed

lemma to_lf_append: "\<not> ends_with [CR] x \<Longrightarrow> to_lf (x @ y) = to_lf x @ to_lf y"
  unfolding to_lf_def by (rule replace_append) (auto simp: suffix_len_0 less_Suc_eq_le numeral_2_eq_2 le_Suc_eq)

section \<open>Decoding\<close>

text \<open>
  \<open>String::from_utf8_lossy\<close>: a text that is not well-formed UTF-8 becomes one in which every longest
  beginning of a character that goes no further, and every byte that begins none, is the character
  U+FFFD.
\<close>

definition byte :: "char \<Rightarrow> nat" where
  "byte c = of_char c"

definition continues :: "string \<Rightarrow> nat \<Rightarrow> bool" where
  "continues s i \<longleftrightarrow> i < length s \<and> 128 \<le> byte (s ! i) \<and> byte (s ! i) < 192"

definition second_byte_fits :: "nat \<Rightarrow> nat \<Rightarrow> bool" where
  "second_byte_fits b0 b1 \<longleftrightarrow>
     (if b0 = 224 then 160 \<le> b1 \<and> b1 < 192
      else if b0 = 237 then 128 \<le> b1 \<and> b1 < 160
      else if b0 = 240 then 144 \<le> b1 \<and> b1 < 192
      else if b0 = 244 then 128 \<le> b1 \<and> b1 < 144
      else 128 \<le> b1 \<and> b1 < 192)"

definition second_fits :: "string \<Rightarrow> bool" where
  "second_fits s \<longleftrightarrow> 1 < length s \<and> second_byte_fits (byte (s ! 0)) (byte (s ! 1))"

text \<open>The first character of a text that is not empty: whether it is well formed, and how many bytes
  it has or are to be replaced.\<close>

definition first_char :: "string \<Rightarrow> bool \<times> nat" where
  "first_char s =
     (let b = byte (hd s)
      in if b < 128 then (True, 1)
         else if 194 \<le> b \<and> b < 224 then (if second_fits s then (True, 2) else (False, 1))
         else if 224 \<le> b \<and> b < 240 then
           (if \<not> second_fits s then (False, 1) else if continues s 2 then (True, 3) else (False, 2))
         else if 240 \<le> b \<and> b < 245 then
           (if \<not> second_fits s then (False, 1) else if \<not> continues s 2 then (False, 2)
            else if continues s 3 then (True, 4) else (False, 3))
         else (False, 1))"

lemma first_char_pos: "0 < snd (first_char s)"
  by (simp add: first_char_def Let_def)

definition replacement_char :: string where
  "replacement_char = [CHR 0xEF, CHR 0xBF, CHR 0xBD]"

function from_utf8_lossy :: "string \<Rightarrow> string" where
  "from_utf8_lossy s =
     (if s = [] then []
      else case first_char s of (ok, n) \<Rightarrow> (if ok then take n s else replacement_char) @ from_utf8_lossy (drop n s))"
  by pat_completeness auto
termination
  by (relation "measure length") (auto simp: prod_eq_iff dest: arg_cong [where f = snd] intro!: Suc_lessI,
      metis diff_less first_char_pos length_greater_0_conv snd_conv)

declare from_utf8_lossy.simps [simp del]

text \<open>Well-formed texts are those that are not changed; whether a text is well formed.\<close>

function utf8_ok :: "string \<Rightarrow> bool" where
  "utf8_ok s = (if s = [] then True else fst (first_char s) \<and> utf8_ok (drop (snd (first_char s)) s))"
  by pat_completeness auto
termination
  by (relation "measure length") (use first_char_pos in auto)

declare utf8_ok.simps [simp del]

text \<open>A well-formed character is read the same with what follows it, and is kept.\<close>

lemma fits_append: "second_fits s \<Longrightarrow> second_fits (s @ t)" "continues s i \<Longrightarrow> continues (s @ t) i"
  by (auto simp: second_fits_def continues_def nth_append)

lemma fits_length: "second_fits s \<Longrightarrow> 2 \<le> length s" "continues s i \<Longrightarrow> Suc i \<le> length s"
  by (auto simp: second_fits_def continues_def)

lemma first_char_append:
  assumes "s \<noteq> []" and "fst (first_char s)"
  shows "first_char (s @ t) = first_char s" "snd (first_char s) \<le> length s"
proof -
  have hd: "hd (s @ t) = hd s" and pos: "1 \<le> length s" using assms(1) by (simp_all add: Suc_leI)
  note fits = fits_append(1) [of s t] fits_append(2) [of s 2 t] fits_append(2) [of s 3 t]
    fits_length(1) [of s] fits_length(2) [of s 2] fits_length(2) [of s 3]
  show "first_char (s @ t) = first_char s"
    using assms(2) fits by (simp add: first_char_def Let_def hd split: if_split_asm)
  show "snd (first_char s) \<le> length s"
    using assms(2) fits pos by (simp add: first_char_def Let_def split: if_split_asm)
qed

lemma utf8_lossy_append: "utf8_ok s \<Longrightarrow> from_utf8_lossy (s @ t) = s @ from_utf8_lossy t"
proof (induction s rule: utf8_ok.induct)
  case (1 s)
  show ?case
  proof (cases "s = []")
    case False
    have ok: "fst (first_char s)" "utf8_ok (drop (snd (first_char s)) s)"
      using 1(2) False by (subst (asm) utf8_ok.simps; simp)+
    note fits = first_char_append [OF False ok(1)]
    have "from_utf8_lossy (s @ t) = take (snd (first_char s)) s @ from_utf8_lossy (drop (snd (first_char s)) s @ t)"
      using False ok(1) fits by (subst from_utf8_lossy.simps) (auto simp: split_beta)
    also have "\<dots> = s @ from_utf8_lossy t" using 1(1) [OF False ok(2)] by simp
    finally show ?thesis .
  qed simp
qed

lemma utf8_lossy_id: "utf8_ok s \<Longrightarrow> from_utf8_lossy s = s"
  using utf8_lossy_append [of s "[]"] by (simp add: from_utf8_lossy.simps)

lemma utf8_ok_append: "utf8_ok s \<Longrightarrow> utf8_ok (s @ t) = utf8_ok t"
proof (induction s rule: utf8_ok.induct)
  case (1 s)
  show ?case
  proof (cases "s = []")
    case False
    have ok: "fst (first_char s)" "utf8_ok (drop (snd (first_char s)) s)"
      using 1(2) False by (subst (asm) utf8_ok.simps; simp)+
    note fits = first_char_append [OF False ok(1)]
    have "utf8_ok (s @ t) = utf8_ok (drop (snd (first_char s)) s @ t)"
      using False ok(1) fits by (subst utf8_ok.simps) simp
    then show ?thesis using 1(1) [OF False ok(2)] by simp
  qed simp
qed

end
