(* ===== verification/FileTools.thy ===== *)
theory FileTools
  imports PatchApply RustReplace TurnRounds
begin

text \<open>
  The tools that write, edit and read one file (\<open>write_file.rs\<close>, \<open>edit_file.rs\<close> and \<open>read_file.rs\<close>
  of \<open>core/src/tools/handlers\<close>), on the disk of \<open>PatchApply\<close>. Their arguments are decoded; the
  diagnostics that language servers add to a message are an argument. Files hold text, so that
  decoding a line of a file gives that line.
\<close>

section \<open>Writing\<close>

definition absolute_path_error :: function_call_error where
  "absolute_path_error = FCE_RespondToModel ''file_path must be an absolute path''"

text \<open>Creating the directories above a path and writing the file.\<close>

definition write_new :: "string \<Rightarrow> string \<Rightarrow> disk \<Rightarrow> (function_call_error + unit) \<times> disk" where
  "write_new path contents d =
     (case create_parents path d of
        Some e \<Rightarrow> (Inl (FCE_Execution (''failed to create '' @ (case path_parent path of Some p \<Rightarrow> p | None \<Rightarrow> [])
            @ '': '' @ (case e of IoFailed _ err \<Rightarrow> err | _ \<Rightarrow> []))), d)
      | None \<Rightarrow> (case fs_write path contents d of
          (Inl err, d1) \<Rightarrow> (Inl (FCE_Execution (''failed to write '' @ path @ '': '' @ err)), d1)
        | (Inr _, d1) \<Rightarrow> (Inr (), d1)))"

definition write_file :: "(string \<Rightarrow> string) \<Rightarrow> string \<Rightarrow> string \<Rightarrow> disk \<Rightarrow> (function_call_error + string) \<times> disk" where
  "write_file diagnostics path contents d =
     (if \<not> is_absolute path then (Inl absolute_path_error, d)
      else case write_new path contents d of
        (Inl e, d1) \<Rightarrow> (Inl e, d1)
      | (Inr _, d1) \<Rightarrow> (Inr (''wrote '' @ path @ diagnostics path), d1))"

section \<open>Editing\<close>

record edit_file_args =
  ea_file_path :: string
  ea_old_string :: string
  ea_new_string :: string
  ea_replace_all :: bool

definition trim_lines :: "string \<Rightarrow> string" where
  "trim_lines s = join [LF] (map trim (str_lines s))"

definition show_delta :: "nat \<Rightarrow> nat \<Rightarrow> string" where
  "show_delta new_lines old_lines =
     (if new_lines > old_lines then ''+'' @ show_nat (new_lines - old_lines) @ '' lines''
      else if new_lines < old_lines then ''-'' @ show_nat (old_lines - new_lines) @ '' lines''
      else ''same line count'')"

definition build_diff_summary :: "string \<Rightarrow> string \<Rightarrow> nat \<Rightarrow> string" where
  "build_diff_summary old new replacements =
     (let old_lines = length (str_lines old); new_lines = length (str_lines new)
      in show_nat replacements @ '' replacement(s), '' @ show_nat old_lines @ '' lines removed, ''
           @ show_nat new_lines @ '' lines added ('' @ show_delta new_lines old_lines @ '')'')"

definition not_found_error :: "string \<Rightarrow> string \<Rightarrow> function_call_error" where
  "not_found_error content old =
     FCE_RespondToModel (if str_contains (trim_lines old) (trim_lines content)
       then ''old_string not found in file (exact match). A similar match exists with different '' @
         ''whitespace. Please provide the exact string including whitespace.''
       else ''old_string not found in file. Please check the content and try again.'')"

definition several_error :: "nat \<Rightarrow> function_call_error" where
  "several_error count = FCE_RespondToModel (''old_string found '' @ show_nat count @
     '' times in file. Use replace_all: true to replace all '' @
     ''occurrences, or provide a more specific old_string that matches exactly once.'')"

text \<open>The new contents of a file and the number of replacements.\<close>

definition edit_content :: "edit_file_args \<Rightarrow> string \<Rightarrow> function_call_error + string \<times> nat" where
  "edit_content args content =
     (let normalised_content = to_lf content;
          normalised_old = to_lf (ea_old_string args);
          normalised_new = to_lf (ea_new_string args);
          count = match_count normalised_old normalised_content
      in if count = 0 then Inl (not_found_error normalised_content normalised_old)
         else if count > 1 \<and> \<not> ea_replace_all args then Inl (several_error count)
         else
           (let new_content = (if ea_replace_all args then str_replace normalised_old normalised_new normalised_content
                  else str_replace_first normalised_old normalised_new normalised_content);
                final_content = (if str_contains [CR, LF] content then to_crlf new_content else new_content)
            in Inr (final_content, if ea_replace_all args then count else 1)))"

definition edit_file :: "(string \<Rightarrow> string) \<Rightarrow> edit_file_args \<Rightarrow> disk \<Rightarrow> (function_call_error + string) \<times> disk" where
  "edit_file diagnostics args d =
     (let path = ea_file_path args
      in if \<not> is_absolute path then (Inl absolute_path_error, d)
         else if ea_old_string args = ea_new_string args
         then (Inl (FCE_RespondToModel ''old_string and new_string must be different''), d)
         else if ea_old_string args = []
         then (case write_new path (ea_new_string args) d of
             (Inl e, d1) \<Rightarrow> (Inl e, d1)
           | (Inr _, d1) \<Rightarrow> (Inr (''Created new file: '' @ path @ diagnostics path), d1))
         else (case fs_read_to_string path d of
             Inl err \<Rightarrow> (Inl (FCE_RespondToModel (''failed to read '' @ path @ '': '' @ err)), d)
           | Inr content \<Rightarrow>
               (case edit_content args content of
                  Inl e \<Rightarrow> (Inl e, d)
                | Inr (final_content, replacements) \<Rightarrow>
                    (case fs_write path final_content d of
                       (Inl err, d1) \<Rightarrow> (Inl (FCE_Execution (''failed to write '' @ path @ '': '' @ err)), d1)
                     | (Inr _, d1) \<Rightarrow>
                         (Inr (''Edit applied successfully to '' @ path @ ''.'' @ [LF]
                            @ build_diff_summary (to_lf (ea_old_string args)) (to_lf (ea_new_string args)) replacements
                            @ diagnostics path), d1)))))"

section \<open>Reading\<close>

definition MAX_LINE_LENGTH :: nat where "MAX_LINE_LENGTH = 500"

text \<open>A byte that continues a character is 10xxxxxx.\<close>

definition is_char_boundary :: "string \<Rightarrow> nat \<Rightarrow> bool" where
  "is_char_boundary s i \<longleftrightarrow> i = 0 \<or> i = length s
     \<or> (i < length s \<and> \<not> (128 \<le> (of_char (s ! i) :: nat) \<and> (of_char (s ! i) :: nat) < 192))"

fun boundary_below :: "string \<Rightarrow> nat \<Rightarrow> nat" where
  "boundary_below s 0 = 0"
| "boundary_below s (Suc n) = (if is_char_boundary s (Suc n) then Suc n else boundary_below s n)"

definition take_at_char_boundary :: "string \<Rightarrow> nat \<Rightarrow> string" where
  "take_at_char_boundary s max_bytes = (if length s \<le> max_bytes then s else take (boundary_below s max_bytes) s)"

definition format_line :: "string \<Rightarrow> string" where
  "format_line line = (if length line > MAX_LINE_LENGTH then take_at_char_boundary line MAX_LINE_LENGTH else line)"

definition numbered :: "nat \<Rightarrow> string \<Rightarrow> string" where
  "numbered n line = ''L'' @ show_nat n @ '': '' @ format_line line"

text \<open>The loop over what \<open>read_until\<close> delivers: the lines that were seen, and those collected.\<close>

fun read_loop :: "string list \<Rightarrow> nat \<Rightarrow> nat \<Rightarrow> nat \<Rightarrow> string list \<Rightarrow> nat \<times> string list" where
  "read_loop [] seen offset limit collected = (seen, collected)"
| "read_loop (buffer # rest) seen offset limit collected =
     (if seen + 1 < offset then read_loop rest (seen + 1) offset limit collected
      else if length collected = limit then (seen + 1, collected)
      else
        (let collected1 = collected @ [numbered (seen + 1) (chomp buffer)]
         in if length collected1 = limit then (seen + 1, collected1)
            else read_loop rest (seen + 1) offset limit collected1))"

definition read_slice :: "string \<Rightarrow> nat \<Rightarrow> nat \<Rightarrow> disk \<Rightarrow> function_call_error + string list" where
  "read_slice path offset limit d =
     (case fs_read_to_string path d of
        Inl err \<Rightarrow> Inl (FCE_RespondToModel (''failed to read file: '' @ err))
      | Inr content \<Rightarrow>
          (case read_loop (split_inclusive content) 0 offset limit [] of
             (seen, collected) \<Rightarrow>
               if seen < offset then Inl (FCE_RespondToModel ''offset exceeds file length'') else Inr collected))"

definition read_file :: "string \<Rightarrow> nat \<Rightarrow> nat \<Rightarrow> disk \<Rightarrow> function_call_error + string" where
  "read_file path offset limit d =
     (if offset = 0 then Inl (FCE_RespondToModel ''offset must be a 1-indexed line number'')
      else if limit = 0 then Inl (FCE_RespondToModel ''limit must be greater than zero'')
      else if \<not> is_absolute path then Inl absolute_path_error
      else (case read_slice path offset limit d of
          Inl e \<Rightarrow> Inl e
        | Inr collected \<Rightarrow> Inr (join [LF] collected)))"

end
