(* ===== verification/FileProps.thy ===== *)
theory FileProps
  imports FileTools
begin

text \<open>
  What the tools that write, edit and read a file do to it: an edit is one splice per match, an
  edit can be undone, a failure leaves the files alone, and reading shows the lines of a window.
\<close>

section \<open>An edit\<close>

lemma join_empty: "sep \<noteq> [] \<Longrightarrow> join sep xs = [] \<Longrightarrow> xs = [] \<or> xs = [[]]"
  by (cases xs rule: join.cases [of "(sep, xs)" for sep xs, simplified]) auto

lemma to_lf_empty: "to_lf s = [] \<longleftrightarrow> s = []"
proof
  assume "to_lf s = []"
  then have "str_pieces [CR, LF] s = [[]]" using join_empty [of "[LF]" "str_pieces [CR, LF] s"] by (simp add: to_lf_def str_replace_def)
  then show "s = []" using join_pieces [of "[CR, LF]" s] by simp
qed (simp add: to_lf_plain)

definition restore_endings :: "string \<Rightarrow> string \<Rightarrow> string" where
  "restore_endings content s = (if str_contains [CR, LF] content then to_crlf s else s)"

lemma edit_content_pieces:
  assumes "ea_old_string args \<noteq> []"
  shows "edit_content args content =
     (let old = to_lf (ea_old_string args); pieces = str_pieces old (to_lf content)
      in if length pieces = 1 then Inl (not_found_error (to_lf content) old)
         else if length pieces > 2 \<and> \<not> ea_replace_all args then Inl (several_error (length pieces - 1))
         else Inr (restore_endings content (join (to_lf (ea_new_string args)) pieces),
           length pieces - 1))"
proof -
  have old: "to_lf (ea_old_string args) \<noteq> []" using assms by (simp add: to_lf_empty)
  show ?thesis
    using replace_first_pieces [OF old, of "to_lf content" "to_lf (ea_new_string args)"]
    by (auto simp: edit_content_def Let_def count_pieces restore_endings_def str_replace_def)
qed

text \<open>C35. An edit that fails leaves the files alone. One that succeeds changes the named file only: the
  old text, up to line endings, cuts its contents into pieces that do not contain it, exactly two
  unless all matches are replaced, and the new text joins them again; with an empty old text the
  contents are the new text, whatever was there.\<close>

theorem edit_is_splice:
  "case edit_file diagnostics args d of
     (Inl e, d') \<Rightarrow> dk_files d' = dk_files d
   | (Inr m, d') \<Rightarrow>
       \<exists>contents. dk_files d' = hm_insert (ea_file_path args) contents (dk_files d)
         \<and> (if ea_old_string args = [] then contents = ea_new_string args
            else \<exists>content pieces. hm_get (dk_files d) (ea_file_path args) = Some content
              \<and> to_lf content = join (to_lf (ea_old_string args)) pieces
              \<and> list_all (\<lambda>x. str_split_once (to_lf (ea_old_string args)) x = None) pieces
              \<and> 2 \<le> length pieces \<and> (ea_replace_all args \<or> length pieces = 2)
              \<and> contents = restore_endings content (join (to_lf (ea_new_string args)) pieces))"
proof (cases "ea_old_string args = []")
  case True
  then show ?thesis
    by (auto simp: edit_file_def write_new_def fs_write_def Let_def split: option.split)
next
  case False
  then have old: "to_lf (ea_old_string args) \<noteq> []" by (simp add: to_lf_empty)
  show ?thesis
  proof (cases "is_absolute (ea_file_path args) \<and> ea_old_string args \<noteq> ea_new_string args")
    case ok: True
    show ?thesis
    proof (cases "fs_read_to_string (ea_file_path args) d")
      case (Inl err)
      then show ?thesis using ok False by (simp add: edit_file_def Let_def)
    next
      case (Inr content)
      then have content: "hm_get (dk_files d) (ea_file_path args) = Some content"
        by (auto simp: fs_read_to_string_def split: option.splits)
      define pieces where "pieces = str_pieces (to_lf (ea_old_string args)) (to_lf content)"
      have pieces: "to_lf content = join (to_lf (ea_old_string args)) pieces"
        "list_all (\<lambda>x. str_split_once (to_lf (ea_old_string args)) x = None) pieces" "length pieces \<noteq> 0"
        using pieces_free [OF old] by (simp_all add: pieces_def join_pieces list_all_iff)
      show ?thesis
      proof (cases "length pieces = 1 \<or> length pieces > 2 \<and> \<not> ea_replace_all args")
        case True
        then have "\<exists>e. edit_content args content = Inl e"
          by (auto simp: edit_content_pieces [OF False] Let_def pieces_def)
        then show ?thesis using ok False Inr by (auto simp: edit_file_def Let_def)
      next
        case fits: False
        then have "edit_content args content = Inr (restore_endings content (join (to_lf (ea_new_string args)) pieces), length pieces - 1)"
          by (simp add: edit_content_pieces [OF False] Let_def pieces_def)
        moreover have "2 \<le> length pieces" "ea_replace_all args \<or> length pieces = 2" using fits pieces(3) by linarith+
        ultimately show ?thesis using ok False Inr content pieces(1,2)
          by (auto simp: edit_file_def Let_def fs_write_def split: option.split)
      qed
    qed
  qed (use False in \<open>auto simp: edit_file_def Let_def\<close>)
qed

section \<open>Undoing an edit\<close>

text \<open>The places at which a text occurs, overlapping ones as well.\<close>

definition occurrences :: "string \<Rightarrow> string \<Rightarrow> nat list" where
  "occurrences p s = filter (\<lambda>j. starts_with p (drop j s)) [0..<Suc (length s)]"

lemma unique_pieces:
  assumes "p \<noteq> []" and "occurrences p (a @ p @ b) = [length a]"
  shows "str_pieces p (a @ p @ b) = [a, b]"
proof -
  have at: "j = length a" if "j \<le> length (a @ p @ b)" "starts_with p (drop j (a @ p @ b))" for j
  proof -
    have "j \<in> set (occurrences p (a @ p @ b))"
      unfolding occurrences_def set_filter set_upt using that by simp
    then show ?thesis using assms(2) by simp
  qed
  have "\<not> starts_with p (drop j (a @ p @ b))" if "j < length a" for j
    using at [of j] that by (auto simp del: drop_append)
  then have "str_split_once p (a @ p @ b) = Some (a, b)" by (simp add: split_once_Some del: drop_append)
  moreover have "\<not> starts_with p (drop j b)" if "j \<le> length b" for j
    using at [of "length a + length p + j"] assms(1) that by auto
  then have "str_split_once p b = None" by (simp add: split_once_None)
  ultimately show ?thesis using assms(1) by (simp add: pieces_Some pieces_None)
qed

definition with_endings :: "bool \<Rightarrow> string \<Rightarrow> string" where
  "with_endings crlf s = (if crlf then to_crlf s else s)"

lemma edit_once:
  assumes "is_absolute path" and "old \<noteq> []" and "old \<noteq> new" and "CR \<notin> set (a @ old @ b)" and "CR \<notin> set new"
    and "crlf \<longrightarrow> LF \<in> set (a @ old @ b)" and "occurrences old (a @ old @ b) = [length a]"
    and "dk_deny d = (\<lambda>_. None)" and "hm_get (dk_files d) path = Some (with_endings crlf (a @ old @ b))"
  shows "\<exists>m. edit_file diagnostics \<lparr>ea_file_path = path, ea_old_string = old, ea_new_string = new, ea_replace_all = all\<rparr> d
    = (Inr m, d\<lparr>dk_files := hm_insert path (with_endings crlf (a @ new @ b)) (dk_files d)\<rparr>)"
proof -
  let ?args = "\<lparr>ea_file_path = path, ea_old_string = old, ea_new_string = new, ea_replace_all = all\<rparr>"
  let ?content = "with_endings crlf (a @ old @ b)"
  have lf: "to_lf ?content = a @ old @ b" "to_lf old = old" "to_lf new = new"
    using assms(4,5) by (simp_all add: with_endings_def to_lf_crlf to_lf_plain del: to_crlf_simps)
  have crlf: "restore_endings ?content s = with_endings crlf s" for s
    using assms(4,6) contains_crlf [of "a @ old @ b"] contains_none [of "a @ old @ b"]
    by (auto simp: restore_endings_def with_endings_def simp del: to_crlf_simps)
  have "edit_content ?args ?content = Inr (with_endings crlf (a @ new @ b), 1)"
    using assms(2) by (simp add: edit_content_pieces lf unique_pieces [OF assms(2,7)] crlf Let_def)
  then show ?thesis
    using assms(1,2,3,8,9) by (simp add: edit_file_def Let_def fs_read_to_string_def fs_write_def)
qed

text \<open>C36. An edit is undone by the opposite edit, byte for byte, in a file whose line endings are all the
  same, if the old text occurs once in the file and the new text once in the result.\<close>

theorem edit_undone:
  assumes "is_absolute path" and "old \<noteq> []" and "new \<noteq> []" and "old \<noteq> new"
    and "CR \<notin> set (a @ old @ b)" and "CR \<notin> set new"
    and "crlf \<longrightarrow> LF \<in> set (a @ old @ b) \<and> LF \<in> set (a @ new @ b)"
    and "occurrences old (a @ old @ b) = [length a]" and "occurrences new (a @ new @ b) = [length a]"
    and "dk_deny d = (\<lambda>_. None)" and "hm_get (dk_files d) path = Some (with_endings crlf (a @ old @ b))"
  shows "case edit_file diagnostics \<lparr>ea_file_path = path, ea_old_string = old, ea_new_string = new, ea_replace_all = False\<rparr> d of
    (r1, d1) \<Rightarrow>
      (case edit_file diagnostics \<lparr>ea_file_path = path, ea_old_string = new, ea_new_string = old, ea_replace_all = False\<rparr> d1 of
        (r2, d2) \<Rightarrow> isl r1 = False \<and> isl r2 = False \<and> hm_get (dk_files d2) = hm_get (dk_files d))"
proof -
  let ?d1 = "d\<lparr>dk_files := hm_insert path (with_endings crlf (a @ new @ b)) (dk_files d)\<rparr>"
  obtain m where first: "edit_file diagnostics \<lparr>ea_file_path = path, ea_old_string = old, ea_new_string = new, ea_replace_all = False\<rparr> d
      = (Inr m, ?d1)"
    using edit_once [OF assms(1,2,4-6) _ assms(8,10,11)] assms(7) by blast
  have "hm_get (dk_files ?d1) path = Some (with_endings crlf (a @ new @ b))" by (simp add: get_hm_insert)
  then obtain m' where "edit_file diagnostics \<lparr>ea_file_path = path, ea_old_string = new, ea_new_string = old, ea_replace_all = False\<rparr> ?d1
      = (Inr m', ?d1\<lparr>dk_files := hm_insert path (with_endings crlf (a @ old @ b)) (dk_files ?d1)\<rparr>)"
    using edit_once [of path new old a b crlf ?d1] assms by auto
  then show ?thesis using first assms(11) by (auto simp: get_hm_insert fun_eq_iff)
qed

section \<open>Reading\<close>

text \<open>A line is cut to a beginning of at most 500 bytes that ends between characters.\<close>

lemma boundary_below_le: "boundary_below s n \<le> n"
  by (induction n) auto

lemma boundary_below_boundary: "is_char_boundary s (boundary_below s n)"
  by (induction n) (auto simp: is_char_boundary_def)

lemma format_line_cut:
  "length (format_line l) \<le> MAX_LINE_LENGTH \<and> (\<exists>k. format_line l = take k l \<and> is_char_boundary l k)"
proof (cases "length l \<le> MAX_LINE_LENGTH")
  case True
  then show ?thesis by (auto simp: format_line_def is_char_boundary_def intro!: exI [of _ "length l"])
next
  case False
  then show ?thesis
    using boundary_below_le [of l MAX_LINE_LENGTH] boundary_below_boundary [of l MAX_LINE_LENGTH]
    by (auto simp: format_line_def take_at_char_boundary_def)
qed

text \<open>The lines of a file, numbered from \<open>n\<close> on.\<close>

primrec lines_from :: "nat \<Rightarrow> string list \<Rightarrow> string list" where
  "lines_from n [] = []"
| "lines_from n (l # ls) = numbered n l # lines_from (Suc n) ls"

lemma length_lines_from [simp]: "length (lines_from n ls) = length ls"
  by (induction ls arbitrary: n) auto

lemma read_loop_window:
  "length collected < limit \<Longrightarrow> read_loop bufs seen offset limit collected = (seen', collected') \<Longrightarrow>
     collected' = collected @ take (limit - length collected) (drop (offset - 1 - seen) (lines_from (seen + 1) (map chomp bufs)))
     \<and> (seen' < offset \<longleftrightarrow> seen + length bufs < offset)"
proof (induction bufs arbitrary: seen collected)
  case (Cons buf bufs)
  show ?case
  proof (cases "seen + 1 < offset")
    case True
    then have "offset - 1 - seen = Suc (offset - 1 - (seen + 1))" by simp
    then show ?thesis using Cons True by simp
  next
    case False
    then have skip: "offset - 1 - seen = 0" "offset - 1 - (seen + 1) = 0" by simp_all
    let ?c = "collected @ [numbered (seen + 1) (chomp buf)]"
    show ?thesis
    proof (cases "length ?c = limit")
      case True
      then show ?thesis using Cons.prems False skip by (auto simp: Let_def)
    next
      case more: False
      then have run: "read_loop bufs (seen + 1) offset limit ?c = (seen', collected')"
        using Cons.prems False by (simp add: Let_def)
      have "length ?c < limit" using Cons.prems(1) more by simp
      from Cons.IH [OF this run] Cons.prems(1) False skip show ?thesis
        by (simp add: take_Cons' Suc_diff_Suc)
    qed
  qed
qed auto

lemma length_split_lines: "length (split_inclusive s) = length (str_lines s)"
  by (simp add: str_lines_def)

text \<open>Reading shows the window of the numbered lines that was asked for, or says that there is none.\<close>

lemma read_file_window:
  assumes "0 < offset" and "0 < limit" and "is_absolute path" and "fs_read_to_string path d = Inr content"
  shows "read_file path offset limit d =
     (let ls = lines_from 1 (str_lines content)
      in if length ls < offset then Inl (FCE_RespondToModel ''offset exceeds file length'')
         else Inr (join [LF] (take limit (drop (offset - 1) ls))))"
proof -
  obtain seen collected where run: "read_loop (split_inclusive content) 0 offset limit [] = (seen, collected)" by fastforce
  from read_loop_window [OF _ run] assms(2)
  have "collected = take limit (drop (offset - 1) (lines_from 1 (str_lines content)))"
    "seen < offset \<longleftrightarrow> length (str_lines content) < offset"
    by (simp_all add: str_lines_def)
  then show ?thesis using assms run by (simp add: read_file_def read_slice_def Let_def)
qed

text \<open>What was written is read.\<close>

theorem read_after_write:
  assumes "is_absolute path" and "dk_deny d = (\<lambda>_. None)" and "contents \<noteq> []" and "length (str_lines contents) \<le> limit"
  shows "case write_file diagnostics path contents d of (r, d1) \<Rightarrow>
     isl r = False \<and> read_file path 1 limit d1 = Inr (join [LF] (lines_from 1 (str_lines contents)))"
proof -
  let ?d = "d\<lparr>dk_files := hm_insert path contents (dk_files d)\<rparr>"
  have written: "write_file diagnostics path contents d = (Inr (''wrote '' @ path @ diagnostics path), ?d)"
    using assms(1,2) by (auto simp: write_file_def write_new_def create_parents_def fs_create_dir_all_def fs_write_def split: option.split)
  have "split_inclusive contents \<noteq> []" using assms(3) concat_split_inclusive [of contents] by force
  then have limit: "0 < limit" using assms(4) by (cases "str_lines contents") (auto simp: str_lines_def)
  have "0 < length (lines_from 1 (str_lines contents))" using \<open>split_inclusive contents \<noteq> []\<close> unfolding length_lines_from by (simp add: str_lines_def)
  then have nonempty: "lines_from 1 (str_lines contents) \<noteq> []" by blast
  have "fs_read_to_string path ?d = Inr contents" using assms(2) by (simp add: fs_read_to_string_def get_hm_insert)
  from read_file_window [OF _ _ assms(1) this, of 1 limit] nonempty limit assms(4) written show ?thesis
    by (auto simp: Let_def)
qed

section \<open>The properties at work\<close>

definition demo_file :: disk where
  "demo_file = \<lparr>dk_files = [(''/f'', ''ab'' @ [CR, LF] @ ''cd'')], dk_deny = (\<lambda>_. None)\<rparr>"

definition demo_edit :: "string \<Rightarrow> string \<Rightarrow> edit_file_args" where
  "demo_edit old new = \<lparr>ea_file_path = ''/f'', ea_old_string = old, ea_new_string = new, ea_replace_all = False\<rparr>"

theorem edit_is_splice_witness:
  "\<exists>pieces. to_lf (''ab'' @ [CR, LF] @ ''cd'') = join ''b'' pieces \<and> length pieces = 2
     \<and> hm_get (dk_files (snd (edit_file (\<lambda>_. []) (demo_edit ''b'' ''x'') demo_file))) ''/f''
       = Some (to_crlf (join ''x'' pieces))"
proof -
  obtain m d where run: "edit_file (\<lambda>_. []) (demo_edit ''b'' ''x'') demo_file = (Inr m, d)"
  proof -
    have "isl (fst (edit_file (\<lambda>_. []) (demo_edit ''b'' ''x'') demo_file)) = False" by code_simp
    then show thesis using that by (cases "edit_file (\<lambda>_. []) (demo_edit ''b'' ''x'') demo_file"; cases "fst (edit_file (\<lambda>_. []) (demo_edit ''b'' ''x'') demo_file)") auto
  qed
  have "to_lf ''b'' = ''b''" "to_lf ''x'' = ''x''" "hm_get (dk_files demo_file) ''/f'' = Some (''ab'' @ [CR, LF] @ ''cd'')"
    "str_contains [CR, LF] (''ab'' @ [CR, LF] @ ''cd'')" by code_simp+
  with edit_is_splice [where diagnostics = "\<lambda>_. []" and args = "demo_edit ''b'' ''x''" and d = demo_file] show ?thesis
    unfolding run by (auto simp: demo_edit_def restore_endings_def get_hm_insert)
qed

theorem edit_undone_witness:
  "case edit_file (\<lambda>_. []) (demo_edit ''b'' ''x'') demo_file of (r1, d1) \<Rightarrow>
     (case edit_file (\<lambda>_. []) (demo_edit ''x'' ''b'') d1 of (r2, d2) \<Rightarrow>
        isl r1 = False \<and> isl r2 = False \<and> hm_get (dk_files d2) = hm_get (dk_files demo_file))"
  unfolding demo_edit_def
  by (rule edit_undone [where a = "''a''" and b = "[LF] @ ''cd''" and crlf = True])
    (simp_all add: demo_file_def with_endings_def occurrences_def starts_with_def is_absolute_def)

theorem read_after_write_witness:
  "read_file ''/g'' 1 9 (snd (write_file (\<lambda>_. []) ''/g'' (''ab'' @ [CR, LF] @ ''c'') demo_file)) = Inr (''L1: ab'' @ [LF] @ ''L2: c'')"
proof -
  have "is_absolute ''/g''" "length (str_lines (''ab'' @ [CR, LF] @ ''c'')) \<le> 9"
    "join [LF] (lines_from 1 (str_lines (''ab'' @ [CR, LF] @ ''c''))) = ''L1: ab'' @ [LF] @ ''L2: c''" by code_simp+
  then show ?thesis
    using read_after_write [of "''/g''" demo_file "''ab'' @ [CR, LF] @ ''c''" 9 "\<lambda>_. []"]
    by (auto simp: demo_file_def split: prod.splits)
qed

section \<open>What is left open\<close>

text \<open>An empty old text replaces a file that exists and reports a new one; an edit of one word turns
  every line end of a file into that of its first; a match that overlaps itself is counted once, and
  the edit is not refused; texts that differ in their line ends only are replaced by themselves.\<close>

theorem edits_that_surprise:
  "fst (edit_file (\<lambda>_. []) (demo_edit [] ''new'') demo_file) = Inr (''Created new file: /f'')
   \<and> hm_get (dk_files (snd (edit_file (\<lambda>_. []) (demo_edit [] ''new'') demo_file))) ''/f'' = Some ''new''
   \<and> edit_content (demo_edit ''b'' ''x'') (''a'' @ [LF] @ ''b'' @ [CR, LF]) = Inr (''a'' @ [CR, LF] @ ''x'' @ [CR, LF], 1)
   \<and> edit_content (demo_edit ''aa'' ''b'') ''aaa'' = Inr (''ba'', 1)
   \<and> edit_content (demo_edit [CR, LF] [LF]) (''a'' @ [LF] @ ''b'') = Inr (''a'' @ [LF] @ ''b'', 1)"
  by code_simp

end
