(* ===== verification/ResponsesStream.thy ===== *)
theory ResponsesStream
  imports RustReplace ConfigLayers TurnModel
begin

text \<open>
  The event stream of the Responses API: \<open>create_openai_responses_event_stream\<close> and what it calls
  (\<open>core/src/model/streaming.rs\<close>), with what it shares with the other reader: the events and chunks
  (\<open>protocol/src/protocol/models.rs\<close>, \<open>core/src/model/types.rs\<close>), the fields of a JSON value, the
  counts of tokens, and the cutting of a stream of bytes into frames. The body of a response is the
  list of the pieces that the network delivers, an error being \<open>Inl\<close>. The parser of serde_json is a
  parameter; the text of a number is the one of the message.
\<close>

section \<open>Fields\<close>

definition unwrap_or :: "'a \<Rightarrow> 'a option \<Rightarrow> 'a" where
  "unwrap_or d m = (case m of None \<Rightarrow> d | Some x \<Rightarrow> x)"

lemma unwrap_or_simps [simp]: "unwrap_or d None = d" "unwrap_or d (Some x) = x"
  by (simp_all add: unwrap_or_def)

text \<open>\<open>get(..).and_then(|v| v.get(..))\<close> along a path, and \<open>get(..).or_else(|| ..)\<close> over alternatives.\<close>

fun json_at :: "string list \<Rightarrow> json \<Rightarrow> json option" where
  "json_at [] v = Some v"
| "json_at (k # ks) v = (case json_get v k of None \<Rightarrow> None | Some w \<Rightarrow> json_at ks w)"

fun json_either :: "string list list \<Rightarrow> json \<Rightarrow> json option" where
  "json_either [] v = None"
| "json_either (p # ps) v = (case json_at p v of Some w \<Rightarrow> Some w | None \<Rightarrow> json_either ps v)"

definition str_at :: "string list \<Rightarrow> json \<Rightarrow> string option" where
  "str_at p v = (case json_at p v of None \<Rightarrow> None | Some w \<Rightarrow> json_as_str w)"

definition json_as_array :: "json \<Rightarrow> json list option" where
  "json_as_array v = (case v of J_Array vs \<Rightarrow> Some vs | _ \<Rightarrow> None)"

text \<open>Integers of a message; \<open>-0\<close> is a floating-point number.\<close>

definition json_as_i64 :: "json \<Rightarrow> int option" where
  "json_as_i64 v = (case v of J_Number s \<Rightarrow> if s = ''-0'' then None else parse_i64 s | _ \<Rightarrow> None)"

definition json_as_u64 :: "json \<Rightarrow> nat option" where
  "json_as_u64 v =
     (case v of
        J_Number s \<Rightarrow> (case parse_digits s of Some n \<Rightarrow> if n < 2 ^ 64 then Some (nat n) else None | None \<Rightarrow> None)
      | _ \<Rightarrow> None)"

definition i64_either :: "string list list \<Rightarrow> json \<Rightarrow> int option" where
  "i64_either ps v = (case json_either ps v of None \<Rightarrow> None | Some w \<Rightarrow> json_as_i64 w)"

definition u64_either :: "string list list \<Rightarrow> json \<Rightarrow> nat option" where
  "u64_either ps v = (case json_either ps v of None \<Rightarrow> None | Some w \<Rightarrow> json_as_u64 w)"

section \<open>Events\<close>

record output_item_event =
  oi_id :: string
  oi_role :: "string option"
  oi_item_type :: "string option"

record rate_limits =
  rl_requests_remaining :: "int option"
  rl_tokens_remaining :: "int option"
  rl_reset_seconds :: "int option"

datatype model_event =
    ME_Created
  | ME_ContentDelta string nat
  | ME_OutputItemAdded output_item_event
  | ME_OutputItemDone output_item_event
  | ME_FunctionCall function_call_event
  | ME_ReasoningSummaryDelta string nat
  | ME_ReasoningContentDelta string nat
  | ME_RateLimits rate_limits
  | ME_Completed string "response_token_usage option"
  | ME_ServerModel string
  | ME_EndTurn
  | ME_Error string

text \<open>The part of an event that the turn reads (\<open>TurnModel\<close>).\<close>

fun seen_by_turn :: "model_event \<Rightarrow> response_event" where
  "seen_by_turn (ME_ContentDelta t _) = RE_ContentDelta t"
| "seen_by_turn (ME_FunctionCall call) = RE_FunctionCall call"
| "seen_by_turn (ME_Completed _ us) = RE_Completed us"
| "seen_by_turn ME_EndTurn = RE_EndTurn"
| "seen_by_turn (ME_Error msg) = RE_Error msg"
| "seen_by_turn _ = RE_Other"

definition message_item :: "string \<Rightarrow> output_item_event" where
  "message_item i = \<lparr>oi_id = i, oi_role = Some ''assistant'', oi_item_type = Some ''message''\<rparr>"

definition call_event :: "string \<Rightarrow> string \<Rightarrow> string \<Rightarrow> string option \<Rightarrow> function_call_event" where
  "call_event i name arguments signature =
     \<lparr>fc_id = i, fc_call_type = ''function'', fc_name = name, fc_arguments = arguments, fc_thought_signature = signature\<rparr>"

record tool_call_delta =
  td_id :: "string option"
  td_name :: "string option"
  td_arguments :: "string option"
  td_thought_signature :: "string option"

datatype chunk =
    Ch_Content string
  | Ch_ToolCall tool_call_delta
  | Ch_MessageStart
  | Ch_MessageDelta
  | Ch_MessageStop
  | Ch_Unknown

section \<open>Counts of tokens\<close>

text \<open>Sums of an \<open>i64\<close> wrap around, conversions to \<open>u32\<close> drop the high bits.\<close>

definition wrap_i64 :: "int \<Rightarrow> int" where
  "wrap_i64 i = (i + 2 ^ 63) mod 2 ^ 64 - 2 ^ 63"

definition saturating_sub_i64 :: "int \<Rightarrow> int \<Rightarrow> int" where
  "saturating_sub_i64 a b = max (- (2 ^ 63)) (min (2 ^ 63 - 1) (a - b))"

definition parse_response_usage :: "json \<Rightarrow> response_token_usage option" where
  "parse_response_usage v =
     (let prompt_tokens = unwrap_or 0 (i64_either [[''input_tokens''], [''prompt_tokens''], [''promptTokenCount'']] v);
          cached_input_tokens = unwrap_or 0 (i64_either [[''cached_input_tokens''], [''cached_tokens''],
            [''input_tokens_details'', ''cached_tokens''], [''prompt_tokens_details'', ''cached_tokens''],
            [''cachedContentTokenCount'']] v);
          input_tokens = saturating_sub_i64 prompt_tokens cached_input_tokens;
          output_tokens = unwrap_or 0 (i64_either [[''output_tokens''], [''completion_tokens''], [''candidatesTokenCount'']] v);
          reasoning_output_tokens = unwrap_or 0 (i64_either [[''reasoning_output_tokens''], [''reasoning_tokens''],
            [''output_tokens_details'', ''reasoning_tokens''], [''completion_tokens_details'', ''reasoning_tokens''],
            [''thoughtsTokenCount'']] v);
          total_tokens = unwrap_or (wrap_i64 (wrap_i64 (prompt_tokens + output_tokens) + reasoning_output_tokens))
            (i64_either [[''total_tokens''], [''totalTokenCount'']] v)
      in if input_tokens = 0 \<and> cached_input_tokens = 0 \<and> output_tokens = 0 \<and> reasoning_output_tokens = 0
            \<and> total_tokens = 0 then None
         else Some \<lparr>ru_input_tokens = input_tokens, ru_cached_input_tokens = cached_input_tokens,
           ru_output_tokens = output_tokens, ru_reasoning_output_tokens = reasoning_output_tokens,
           ru_total_tokens = total_tokens\<rparr>)"

definition parse_usage :: "json \<Rightarrow> usage option" where
  "parse_usage v =
     (let input_tokens = unwrap_or 0 (u64_either [[''prompt_tokens''], [''input_tokens''], [''promptTokenCount'']] v) mod 2 ^ 32;
          output_tokens = unwrap_or 0 (u64_either [[''completion_tokens''], [''output_tokens''], [''candidatesTokenCount'']] v) mod 2 ^ 32;
          total_tokens = unwrap_or ((input_tokens + output_tokens) mod 2 ^ 32)
            (u64_either [[''total_tokens''], [''totalTokenCount'']] v) mod 2 ^ 32
      in if input_tokens = 0 \<and> output_tokens = 0 \<and> total_tokens = 0 then None
         else Some \<lparr>us_input_tokens = input_tokens, us_output_tokens = output_tokens, us_total_tokens = total_tokens\<rparr>)"

section \<open>Lines of data\<close>

function trim_start_matches :: "string \<Rightarrow> string \<Rightarrow> string" where
  "trim_start_matches p s =
     (if p = [] then s else case strip_prefix p s of None \<Rightarrow> s | Some r \<Rightarrow> trim_start_matches p r)"
  by pat_completeness auto
termination
  by (relation "measure (\<lambda>(p, s). length s)") (auto simp: strip_prefix_Some)

declare trim_start_matches.simps [simp del]

definition data_payload :: "string \<Rightarrow> string" where
  "data_payload line = trim (trim_start_matches ''data: '' line)"

section \<open>Frames\<close>

text \<open>The loop that takes frames out of a buffer. Handling a frame gives events and either the next
  state or none, which ends the stream; without a frame the buffer stays for the bytes to come.\<close>

function drain_frames :: "string \<Rightarrow> (string \<Rightarrow> 's \<Rightarrow> 'e list \<times> 's option) \<Rightarrow> string \<Rightarrow> 's
    \<Rightarrow> 'e list \<times> (string \<times> 's) option" where
  "drain_frames sep handle buffer st =
     (if sep = [] then ([], Some (buffer, st))
      else case str_split_once sep buffer of
        None \<Rightarrow> ([], Some (buffer, st))
      | Some (raw, rest) \<Rightarrow>
          (case handle raw st of
             (out, None) \<Rightarrow> (out, None)
           | (out, Some st1) \<Rightarrow> (case drain_frames sep handle rest st1 of (out1, left) \<Rightarrow> (out @ out1, left))))"
  by pat_completeness auto
termination
  by (relation "measure (\<lambda>(sep, handle, buffer, st). length buffer)") (auto dest: split_once_shorter)

declare drain_frames.simps [simp del]

section \<open>One event\<close>

record function_call_buffer =
  fb_call_id :: string
  fb_name :: string
  fb_arguments :: string

record responses_state =
  rs_response_id :: string
  rs_text_index :: nat
  rs_function_calls :: "(string, function_call_buffer) hashmap"

type_synonym on_message = "json \<Rightarrow> responses_state \<Rightarrow> model_event list \<times> responses_state"

definition text_field :: "string \<Rightarrow> json \<Rightarrow> string" where
  "text_field key v = unwrap_or [] (string_field v key)"

definition on_created :: on_message where
  "on_created v st =
     (ME_Created # (case str_at [''response'', ''model''] v of None \<Rightarrow> [] | Some model \<Rightarrow> [ME_ServerModel model]),
      case str_at [''response'', ''id''] v of None \<Rightarrow> st | Some i \<Rightarrow> st\<lparr>rs_response_id := i\<rparr>)"

definition on_item_added :: on_message where
  "on_item_added v st =
     (case json_get v ''item'' of
        None \<Rightarrow> ([], st)
      | Some item \<Rightarrow>
          (let kind = string_field item ''type''
           in if kind = Some ''message''
              then ([ME_OutputItemAdded (message_item (unwrap_or ''assistant_item'' (string_field item ''id'')))], st)
              else if kind = Some ''function_call''
              then (let item_id = text_field ''id'' item
                    in ([], st\<lparr>rs_function_calls := hm_insert item_id
                      \<lparr>fb_call_id = unwrap_or item_id (string_field item ''call_id''), fb_name = text_field ''name'' item,
                       fb_arguments = text_field ''arguments'' item\<rparr> (rs_function_calls st)\<rparr>))
              else ([], st)))"

definition if_empty :: "string \<Rightarrow> string \<Rightarrow> string" where
  "if_empty d s = (if s = [] then d else s)"

definition completed_call :: "json \<Rightarrow> string \<Rightarrow> function_call_buffer \<Rightarrow> function_call_buffer" where
  "completed_call item item_id call =
     \<lparr>fb_call_id = if_empty (unwrap_or item_id (string_field item ''call_id'')) (fb_call_id call),
      fb_name = if_empty (text_field ''name'' item) (fb_name call),
      fb_arguments = if_empty (text_field ''arguments'' item) (fb_arguments call)\<rparr>"

definition on_item_done :: on_message where
  "on_item_done v st =
     (case json_get v ''item'' of
        None \<Rightarrow> ([], st)
      | Some item \<Rightarrow>
          (let kind = string_field item ''type''
           in if kind = Some ''message''
              then ([ME_OutputItemDone (message_item (unwrap_or ''assistant_item'' (string_field item ''id'')))], st)
              else if kind = Some ''function_call''
              then (let item_id = text_field ''id'' item;
                        call = completed_call item item_id (unwrap_or \<lparr>fb_call_id = [], fb_name = [], fb_arguments = []\<rparr>
                          (hm_get (rs_function_calls st) item_id))
                    in (if fb_name call = [] then []
                        else [ME_FunctionCall (call_event (fb_call_id call) (fb_name call) (fb_arguments call) None)],
                        st\<lparr>rs_function_calls := hm_remove item_id (rs_function_calls st)\<rparr>))
              else ([], st)))"

definition on_text_delta :: on_message where
  "on_text_delta v st =
     (let delta = text_field ''delta'' v
      in if delta = [] then ([], st)
         else ([ME_ContentDelta delta (rs_text_index st)], st\<lparr>rs_text_index := rs_text_index st + 1\<rparr>))"

definition on_reasoning_delta :: on_message where
  "on_reasoning_delta v st =
     (let delta = text_field ''delta'' v
      in if delta = [] then ([], st)
         else ([ME_ReasoningSummaryDelta delta (unwrap_or 0 (u64_either [[''summary_index'']] v))], st))"

definition on_arguments_delta :: on_message where
  "on_arguments_delta v st =
     ([], st\<lparr>rs_function_calls := hm_modify (text_field ''item_id'' v)
        (\<lambda>call. call\<lparr>fb_arguments := fb_arguments call @ text_field ''delta'' v\<rparr>) (rs_function_calls st)\<rparr>)"

definition on_completed :: on_message where
  "on_completed v st =
     ([ME_Completed (rs_response_id st)
         (case json_at [''response'', ''usage''] v of None \<Rightarrow> None | Some us \<Rightarrow> parse_response_usage us), ME_EndTurn], st)"

definition on_error :: on_message where
  "on_error v st = ([ME_Error (unwrap_or ''Unknown provider error'' (string_field v ''message''))], st)"

definition on_event :: on_message where
  "on_event v st =
     (let event_type = text_field ''type'' v
      in if event_type = ''response.created'' then on_created v st
         else if event_type = ''response.output_item.added'' then on_item_added v st
         else if event_type = ''response.output_item.done'' then on_item_done v st
         else if event_type = ''response.output_text.delta'' then on_text_delta v st
         else if event_type = ''response.reasoning_summary_text.delta'' then on_reasoning_delta v st
         else if event_type = ''response.function_call_arguments.delta'' then on_arguments_delta v st
         else if event_type = ''response.completed'' \<or> event_type = ''response.incomplete'' then on_completed v st
         else if event_type = ''error'' then on_error v st
         else ([], st))"

section \<open>One frame\<close>

type_synonym json_parser = "string \<Rightarrow> string + json"

fun parse_frame_lines :: "json_parser \<Rightarrow> string list \<Rightarrow> responses_state
    \<Rightarrow> model_error + model_event list \<times> responses_state" where
  "parse_frame_lines from_str [] st = Inr ([], st)"
| "parse_frame_lines from_str (line # ls) st =
     (let trimmed = trim line; payload = data_payload trimmed
      in if \<not> starts_with ''data: '' trimmed then parse_frame_lines from_str ls st
         else if payload = ''[DONE]'' \<or> payload = [] then parse_frame_lines from_str ls st
         else (case from_str payload of
             Inl err \<Rightarrow> Inl (StreamError (''invalid responses event: '' @ err))
           | Inr v \<Rightarrow>
               (case on_event v st of
                  (events, st1) \<Rightarrow>
                    (case parse_frame_lines from_str ls st1 of
                       Inl err \<Rightarrow> Inl err
                     | Inr (events1, st2) \<Rightarrow> Inr (events @ events1, st2)))))"

definition parse_openai_responses_event :: "json_parser \<Rightarrow> string \<Rightarrow> responses_state
    \<Rightarrow> model_error + model_event list \<times> responses_state" where
  "parse_openai_responses_event from_str raw st = parse_frame_lines from_str (str_lines raw) st"

definition responses_frame :: "json_parser \<Rightarrow> string \<Rightarrow> responses_state
    \<Rightarrow> (model_error + model_event) list \<times> responses_state option" where
  "responses_frame from_str raw st =
     (case parse_openai_responses_event from_str raw st of
        Inl err \<Rightarrow> ([Inl err], None)
      | Inr (events, st1) \<Rightarrow> (map Inr events, Some st1))"

section \<open>The stream\<close>

definition decode_responses :: "string \<Rightarrow> string" where
  "decode_responses bytes = to_lf (from_utf8_lossy bytes)"

fun responses_loop :: "json_parser \<Rightarrow> (string + string) list \<Rightarrow> string \<Rightarrow> responses_state
    \<Rightarrow> (model_error + model_event) list" where
  "responses_loop from_str [] buffer st = (if trim buffer = [] then [] else fst (responses_frame from_str buffer st))"
| "responses_loop from_str (Inl err # items) buffer st = [Inl (StreamError err)]"
| "responses_loop from_str (Inr bytes # items) buffer st =
     (case drain_frames [LF, LF] (responses_frame from_str) (buffer @ decode_responses bytes) st of
        (out, None) \<Rightarrow> out
      | (out, Some (buffer1, st1)) \<Rightarrow> out @ responses_loop from_str items buffer1 st1)"

record http_response =
  hr_status :: string
  hr_success :: bool
  hr_header :: "string \<Rightarrow> string option"
  hr_body :: "(string + string) list"

definition header_i64 :: "http_response \<Rightarrow> string \<Rightarrow> int option" where
  "header_i64 response key = (case hr_header response key of None \<Rightarrow> None | Some v \<Rightarrow> parse_i64 v)"

definition response_rate_limits_from_headers :: "http_response \<Rightarrow> rate_limits option" where
  "response_rate_limits_from_headers response =
     (let requests_remaining = header_i64 response ''x-ratelimit-remaining-requests'';
          tokens_remaining = header_i64 response ''x-ratelimit-remaining-tokens'';
          reset_seconds = header_i64 response ''x-ratelimit-reset-requests''
      in if requests_remaining = None \<and> tokens_remaining = None \<and> reset_seconds = None then None
         else Some \<lparr>rl_requests_remaining = requests_remaining, rl_tokens_remaining = tokens_remaining,
           rl_reset_seconds = reset_seconds\<rparr>)"

text \<open>The body of a response that is no success is the message of the error.\<close>

fun error_body :: "string \<Rightarrow> (string + string) list \<Rightarrow> string \<Rightarrow> model_error" where
  "error_body status [] body = ApiError (''HTTP '' @ status @ '': '' @ body)"
| "error_body status (Inl err # items) body = StreamError err"
| "error_body status (Inr bytes # items) body = error_body status items (body @ from_utf8_lossy bytes)"

definition fresh_responses :: responses_state where
  "fresh_responses = \<lparr>rs_response_id = [], rs_text_index = 0, rs_function_calls = []\<rparr>"

definition create_openai_responses_event_stream :: "json_parser \<Rightarrow> http_response \<Rightarrow> (model_error + model_event) list" where
  "create_openai_responses_event_stream from_str response =
     (if \<not> hr_success response then [Inl (error_body (hr_status response) (hr_body response) [])]
      else (case response_rate_limits_from_headers response of None \<Rightarrow> [] | Some snapshot' \<Rightarrow> [Inr (ME_RateLimits snapshot')])
        @ responses_loop from_str (hr_body response) [] fresh_responses)"

text \<open>The same stream as chunks, for callers that want those.\<close>

fun response_event_stream_to_chunk_stream :: "(model_error + model_event) list \<Rightarrow> (model_error + chunk) list" where
  "response_event_stream_to_chunk_stream [] = []"
| "response_event_stream_to_chunk_stream (Inl err # items) = [Inl err]"
| "response_event_stream_to_chunk_stream (Inr event # items) =
     (case event of
        ME_ContentDelta t _ \<Rightarrow> (if t = [] then [] else [Inr (Ch_Content t)]) @ response_event_stream_to_chunk_stream items
      | ME_FunctionCall call \<Rightarrow> Inr (Ch_ToolCall \<lparr>td_id = Some (fc_id call), td_name = Some (fc_name call),
          td_arguments = Some (fc_arguments call), td_thought_signature = None\<rparr>) # response_event_stream_to_chunk_stream items
      | ME_Completed _ _ \<Rightarrow> Inr Ch_MessageStop # response_event_stream_to_chunk_stream items
      | ME_EndTurn \<Rightarrow> Inr Ch_MessageStop # response_event_stream_to_chunk_stream items
      | ME_Error msg \<Rightarrow> [Inl (StreamError msg)]
      | _ \<Rightarrow> response_event_stream_to_chunk_stream items)"

end
