(* ===== verification/ChatStream.thy ===== *)
theory ChatStream
  imports ResponsesStream
begin

text \<open>
  The streams of the other providers: the parser of server-sent events (\<open>StreamingProcessor\<close> in
  \<open>core/src/model/streaming.rs\<close>), the stream of chunks (\<open>create_response_stream\<close> in
  \<open>core/src/model/providers/mod.rs\<close>) and its conversion into the events that a turn reads
  (\<open>chunk_stream_to_response_events\<close> in \<open>core/src/model/provider.rs\<close>).
\<close>

section \<open>A chunk\<close>

definition unnamed_delta :: tool_call_delta where
  "unnamed_delta = \<lparr>td_id = None, td_name = None, td_arguments = None, td_thought_signature = None\<rparr>"

definition parse_anthropic_chunk :: "json \<Rightarrow> chunk option" where
  "parse_anthropic_chunk v =
     (case string_field v ''type'' of
        None \<Rightarrow> None
      | Some event_type \<Rightarrow>
          if event_type = ''content_block_delta'' then Some (Ch_Content (unwrap_or [] (str_at [''delta'', ''text''] v)))
          else if event_type = ''tool_call_delta'' then
            Some (Ch_ToolCall \<lparr>td_id = str_at [''delta'', ''id''] v, td_name = str_at [''delta'', ''name''] v,
              td_arguments = str_at [''delta'', ''arguments''] v, td_thought_signature = None\<rparr>)
          else if event_type = ''message_stop'' then Some Ch_MessageStop
          else None)"

definition parse_openai_choice :: "json \<Rightarrow> chunk option" where
  "parse_openai_choice choice =
     (if string_field choice ''finish_reason'' \<noteq> None then Some Ch_MessageStop
      else (case str_at [''delta'', ''content''] choice of
          Some text' \<Rightarrow> Some (Ch_Content text')
        | None \<Rightarrow>
            (case Option.bind (json_at [''delta'', ''tool_calls''] choice) json_as_array of
               None \<Rightarrow> None
             | Some [] \<Rightarrow> None
             | Some (first # _) \<Rightarrow>
                 Some (Ch_ToolCall \<lparr>td_id = string_field first ''id'', td_name = str_at [''function'', ''name''] first,
                   td_arguments = str_at [''function'', ''arguments''] first, td_thought_signature = None\<rparr>))))"

definition parse_chunk_value :: "json \<Rightarrow> chunk option" where
  "parse_chunk_value v =
     (case parse_anthropic_chunk v of
        Some c \<Rightarrow> Some c
      | None \<Rightarrow>
          (case Option.bind (json_get v ''choices'') json_as_array of
             None \<Rightarrow> None
           | Some [] \<Rightarrow> None
           | Some (choice # _) \<Rightarrow> parse_openai_choice choice))"

section \<open>Usage\<close>

text \<open>A parser of usage sees each line of data and remembers what it found last.\<close>

fun data_lines_json :: "json_parser \<Rightarrow> string list \<Rightarrow> json option" where
  "data_lines_json from_str [] = None"
| "data_lines_json from_str (line # ls) =
     (if \<not> starts_with ''data: '' line then data_lines_json from_str ls
      else if data_payload line = ''[DONE]'' then None
      else (case from_str (data_payload line) of Inr v \<Rightarrow> Some v | Inl _ \<Rightarrow> data_lines_json from_str ls))"

definition parse_data_line_json :: "json_parser \<Rightarrow> string \<Rightarrow> json option" where
  "parse_data_line_json from_str chunk = data_lines_json from_str (str_lines chunk)"

type_synonym usage_parser = "string \<Rightarrow> usage option \<Rightarrow> usage option"

definition usage_at :: "string list \<Rightarrow> json \<Rightarrow> usage option" where
  "usage_at p v = Option.bind (json_at p v) parse_usage"

definition openai_usage :: "json_parser \<Rightarrow> usage_parser" where
  "openai_usage from_str chunk seen =
     (case parse_data_line_json from_str chunk of
        None \<Rightarrow> seen
      | Some v \<Rightarrow> (case usage_at [''usage''] v of None \<Rightarrow> seen | Some us \<Rightarrow> Some us))"

definition anthropic_usage :: "json_parser \<Rightarrow> usage_parser" where
  "anthropic_usage from_str chunk seen =
     (case parse_data_line_json from_str chunk of
        None \<Rightarrow> seen
      | Some v \<Rightarrow>
          (case usage_at [''usage''] v of
             Some us \<Rightarrow> Some us
           | None \<Rightarrow> (case usage_at [''message'', ''usage''] v of None \<Rightarrow> seen | Some us \<Rightarrow> Some us)))"

section \<open>One event\<close>

record parsed_stream_event =
  pe_chunk :: "chunk option"
  pe_usage :: "usage option"
  pe_done :: bool

fun parse_event_lines :: "json_parser \<Rightarrow> usage_parser \<Rightarrow> string list \<Rightarrow> parsed_stream_event \<Rightarrow> usage option
    \<Rightarrow> parsed_stream_event \<times> usage option" where
  "parse_event_lines from_str usage [] event seen = (event, seen)"
| "parse_event_lines from_str usage (line # ls) event seen =
     (if \<not> starts_with ''data: '' line then parse_event_lines from_str usage ls event seen
      else
        (let payload = data_payload line;
             seen1 = usage line seen;
             event1 = event\<lparr>pe_usage := seen1\<rparr>
         in if payload = ''[DONE]''
            then parse_event_lines from_str usage ls (event1\<lparr>pe_done := True, pe_chunk := Some Ch_MessageStop\<rparr>) seen1
            else (case from_str payload of
                Inl _ \<Rightarrow> parse_event_lines from_str usage ls event1 seen1
              | Inr v \<Rightarrow>
                  (let c = parse_chunk_value v
                   in parse_event_lines from_str usage ls
                        (event1\<lparr>pe_chunk := c, pe_done := (if c = Some Ch_MessageStop then True else pe_done event1)\<rparr>) seen1))))"

definition parse_event :: "json_parser \<Rightarrow> usage_parser \<Rightarrow> string \<Rightarrow> usage option \<Rightarrow> parsed_stream_event \<times> usage option" where
  "parse_event from_str usage raw seen =
     parse_event_lines from_str usage (str_lines raw) \<lparr>pe_chunk = None, pe_usage = None, pe_done = False\<rparr> seen"

section \<open>The processor\<close>

record streaming_processor =
  sp_buffer :: string
  sp_seen :: "usage option"

definition new_processor :: streaming_processor where
  "new_processor = \<lparr>sp_buffer = [], sp_seen = None\<rparr>"

definition event_frame :: "json_parser \<Rightarrow> usage_parser \<Rightarrow> string \<Rightarrow> usage option
    \<Rightarrow> parsed_stream_event list \<times> usage option option" where
  "event_frame from_str usage raw seen = (case parse_event from_str usage raw seen of (event, seen1) \<Rightarrow> ([event], Some seen1))"

definition push_text :: "json_parser \<Rightarrow> usage_parser \<Rightarrow> string \<Rightarrow> streaming_processor
    \<Rightarrow> parsed_stream_event list \<times> streaming_processor" where
  "push_text from_str usage text' sp =
     (case drain_frames [LF, LF] (event_frame from_str usage) (sp_buffer sp @ text') (sp_seen sp) of
        (events, Some (buffer, seen)) \<Rightarrow> (events, \<lparr>sp_buffer = buffer, sp_seen = seen\<rparr>)
      | (events, None) \<Rightarrow> (events, sp))"

definition finish :: "json_parser \<Rightarrow> usage_parser \<Rightarrow> streaming_processor \<Rightarrow> parsed_stream_event list" where
  "finish from_str usage sp =
     (if sp_buffer sp = [] then [] else [fst (parse_event from_str usage (sp_buffer sp) (sp_seen sp))])"

section \<open>The stream of chunks\<close>

definition decode_chat :: "string \<Rightarrow> string" where
  "decode_chat bytes = str_replace [CR, LF, CR, LF] [LF, LF] (from_utf8_lossy bytes)"

definition chunks_of :: "parsed_stream_event list \<Rightarrow> (model_error + chunk) list" where
  "chunks_of events = map Inr (List.map_filter pe_chunk events)"

fun chat_loop :: "json_parser \<Rightarrow> usage_parser \<Rightarrow> (string + string) list \<Rightarrow> streaming_processor
    \<Rightarrow> (model_error + chunk) list" where
  "chat_loop from_str usage [] sp = chunks_of (finish from_str usage sp)"
| "chat_loop from_str usage (Inl err # items) sp = Inl (StreamError err) # chat_loop from_str usage items sp"
| "chat_loop from_str usage (Inr bytes # items) sp =
     (case push_text from_str usage (decode_chat bytes) sp of
        (events, sp1) \<Rightarrow> chunks_of events @ chat_loop from_str usage items sp1)"

definition create_response_stream_with_usage_parser ::
  "json_parser \<Rightarrow> usage_parser \<Rightarrow> http_response \<Rightarrow> (model_error + chunk) list" where
  "create_response_stream_with_usage_parser from_str usage response =
     (if \<not> hr_success response then [Inl (error_body (hr_status response) (hr_body response) [])]
      else chat_loop from_str usage (hr_body response) new_processor)"

definition create_response_stream :: "json_parser \<Rightarrow> http_response \<Rightarrow> (model_error + chunk) list" where
  "create_response_stream from_str = create_response_stream_with_usage_parser from_str (openai_usage from_str)"

section \<open>The events of a stream of chunks\<close>

record chunk_call =
  cb_name :: string
  cb_arguments :: string
  cb_thought_signature :: "string option"

text \<open>The calls are in a \<open>BTreeMap\<close>: iterated in the order of their identifiers.\<close>

record chunk_state =
  ck_item_started :: bool
  ck_text_index :: nat
  ck_calls :: "(string, chunk_call) hashmap"
  ck_active :: "string option"
  ck_ended :: bool

definition response_item_id :: string where
  "response_item_id = ''assistant_item_0''"

definition delta_call_id :: "tool_call_delta \<Rightarrow> chunk_state \<Rightarrow> string" where
  "delta_call_id delta st =
     (case td_id delta of
        Some i \<Rightarrow> i
      | None \<Rightarrow>
          (case ck_active st of Some i \<Rightarrow> i | None \<Rightarrow> ''tool_call_'' @ show_nat (length (ck_calls st) + 1)))"

definition add_delta :: "tool_call_delta \<Rightarrow> chunk_call \<Rightarrow> chunk_call" where
  "add_delta delta call =
     \<lparr>cb_name = (case td_name delta of None \<Rightarrow> cb_name call | Some name \<Rightarrow> name),
      cb_arguments = cb_arguments call @ unwrap_or [] (td_arguments delta),
      cb_thought_signature = (case td_thought_signature delta of None \<Rightarrow> cb_thought_signature call | Some s \<Rightarrow> Some s)\<rparr>"

definition empty_call :: chunk_call where
  "empty_call = \<lparr>cb_name = [], cb_arguments = [], cb_thought_signature = None\<rparr>"

definition take_delta :: "tool_call_delta \<Rightarrow> chunk_state \<Rightarrow> chunk_state" where
  "take_delta delta st =
     (let call_id = delta_call_id delta st
      in st\<lparr>ck_active := Some call_id,
           ck_calls := hm_insert call_id (add_delta delta (unwrap_or empty_call (hm_get (ck_calls st) call_id))) (ck_calls st)\<rparr>)"

definition call_events :: "(string, chunk_call) hashmap \<Rightarrow> model_event list" where
  "call_events calls =
     map (\<lambda>(i, call). ME_FunctionCall (call_event i (cb_name call) (cb_arguments call) (cb_thought_signature call)))
       (filter (\<lambda>(i, call). cb_name call \<noteq> []) (sort_key fst calls))"

definition on_chunk :: "chunk \<Rightarrow> chunk_state \<Rightarrow> model_event list \<times> chunk_state" where
  "on_chunk c st =
     (case c of
        Ch_Content t \<Rightarrow>
          if t = [] then ([], st)
          else ((if ck_item_started st then [] else [ME_OutputItemAdded (message_item response_item_id)])
              @ [ME_ContentDelta t (ck_text_index st)],
            st\<lparr>ck_item_started := True, ck_text_index := ck_text_index st + 1\<rparr>)
      | Ch_ToolCall delta \<Rightarrow> ([], take_delta delta st)
      | Ch_MessageStop \<Rightarrow>
          (call_events (ck_calls st)
             @ (if ck_item_started st then [ME_OutputItemDone (message_item response_item_id)] else [])
             @ [ME_Completed [] None, ME_EndTurn],
           st\<lparr>ck_calls := [], ck_active := None, ck_ended := True\<rparr>)
      | _ \<Rightarrow> ([], st))"

fun chunk_loop :: "(model_error + chunk) list \<Rightarrow> chunk_state \<Rightarrow> (model_error + model_event) list" where
  "chunk_loop [] st = map Inr (call_events (ck_calls st) @ (if ck_ended st then [] else [ME_Completed [] None, ME_EndTurn]))"
| "chunk_loop (Inl err # items) st = [Inl err]"
| "chunk_loop (Inr c # items) st = (case on_chunk c st of (events, st1) \<Rightarrow> map Inr events @ chunk_loop items st1)"

definition fresh_chunks :: chunk_state where
  "fresh_chunks = \<lparr>ck_item_started = False, ck_text_index = 0, ck_calls = [], ck_active = None, ck_ended = False\<rparr>"

definition chunk_stream_to_response_events :: "(model_error + chunk) list \<Rightarrow> (model_error + model_event) list" where
  "chunk_stream_to_response_events items = Inr ME_Created # chunk_loop items fresh_chunks"

end
