(* ===== verification/StreamCuts.thy ===== *)
theory StreamCuts
  imports ChatStream
begin

text \<open>
  The network cuts the body of a response where it likes. The locale \<open>cut_stream\<close> is the contract of
  a reader that decodes each piece and feeds it to a buffer: if decoding distributes over a cut and
  feeding is incremental, the cut makes no difference. It is interpreted on both readers; the
  conditions on a cut are those under which the code's decoding distributes.
\<close>

section \<open>The contract\<close>

locale cut_stream =
  fixes decode :: "string \<Rightarrow> string"
    and whole :: "string \<Rightarrow> bool"
    and feed :: "string \<Rightarrow> 's \<Rightarrow> 'e list \<times> 's option"
    and run :: "(string + string) list \<Rightarrow> 's \<Rightarrow> 'e list"
  assumes decode_append: "whole a \<Longrightarrow> decode (a @ b) = decode a @ decode b"
    and feed_append: "feed (x @ y) s =
      (case feed x s of
         (out, None) \<Rightarrow> (out, None)
       | (out, Some s1) \<Rightarrow> (case feed y s1 of (out1, left) \<Rightarrow> (out @ out1, left)))"
    and run_piece: "run (Inr bytes # items) s =
      (case feed (decode bytes) s of (out, None) \<Rightarrow> out | (out, Some s1) \<Rightarrow> out @ run items s1)"
begin

lemma run_two: "whole a \<Longrightarrow> run (Inr a # Inr b # items) s = run (Inr (a @ b) # items) s"
  by (auto simp: run_piece decode_append feed_append split: prod.splits option.splits)

lemma run_pieces: "list_all whole ps \<Longrightarrow> run (map Inr ps @ Inr q # items) s = run (Inr (concat ps @ q) # items) s"
proof (induction ps arbitrary: s)
  case (Cons a ps)
  then have "run (map Inr (a # ps) @ Inr q # items) s = run (Inr a # Inr (concat ps @ q) # items) s"
    by (auto simp: run_piece [of a] split: prod.split option.split)
  also have "\<dots> = run (Inr (a @ concat ps @ q) # items) s" using Cons.prems by (simp add: run_two)
  finally show ?case by simp
qed simp

end

section \<open>Draining a buffer\<close>

lemma drain_None: "str_split_once sep buffer = None \<Longrightarrow> drain_frames sep handle buffer st = ([], Some (buffer, st))"
  by (subst drain_frames.simps) simp

lemma drain_Some:
  "sep \<noteq> [] \<Longrightarrow> str_split_once sep buffer = Some (raw, rest) \<Longrightarrow> drain_frames sep handle buffer st =
     (case handle raw st of
        (out, None) \<Rightarrow> (out, None)
      | (out, Some st1) \<Rightarrow> (case drain_frames sep handle rest st1 of (out1, left) \<Rightarrow> (out @ out1, left)))"
  by (subst drain_frames.simps) simp

lemma drain_append:
  "sep \<noteq> [] \<Longrightarrow> drain_frames sep handle (x @ y) st =
     (case drain_frames sep handle x st of
        (out, None) \<Rightarrow> (out, None)
      | (out, Some (rest, st1)) \<Rightarrow> (case drain_frames sep handle (rest @ y) st1 of (out1, left) \<Rightarrow> (out @ out1, left)))"
proof (induction sep handle x st rule: drain_frames.induct)
  case (1 sep handle buffer st)
  show ?case
  proof (cases "str_split_once sep buffer")
    case None
    then show ?thesis by (simp add: drain_None split: prod.split)
  next
    case (Some rr)
    obtain raw rest where rr: "rr = (raw, rest)" by fastforce
    note split = Some [unfolded rr] split_once_append [OF Some [unfolded rr], of y]
    show ?thesis
    proof (cases "handle raw st")
      case (Pair out next_st)
      show ?thesis
      proof (cases next_st)
        case None
        then show ?thesis using 1(2) Pair by (simp add: drain_Some [OF _ split(1)] drain_Some [OF _ split(2)])
      next
        case more: (Some st1)
        show ?thesis
          using 1(2) Pair more 1(1) [OF 1(2) Some rr [symmetric] Pair [symmetric] more 1(2)]
          by (auto simp: drain_Some [OF _ split(1)] drain_Some [OF _ split(2)] split: prod.splits option.splits)
      qed
    qed
  qed
qed

section \<open>The Responses stream\<close>

definition responses_feed :: "json_parser \<Rightarrow> string \<Rightarrow> string \<times> responses_state
    \<Rightarrow> (model_error + model_event) list \<times> (string \<times> responses_state) option" where
  "responses_feed from_str x = (\<lambda>(buffer, st). drain_frames [LF, LF] (responses_frame from_str) (buffer @ x) st)"

definition responses_whole :: "string \<Rightarrow> bool" where
  "responses_whole bytes \<longleftrightarrow> utf8_ok bytes \<and> \<not> ends_with [CR] bytes"

interpretation responses_cut: cut_stream decode_responses responses_whole "responses_feed from_str"
  "\<lambda>items (buffer, st). responses_loop from_str items buffer st" for from_str
proof
  show "decode_responses (a @ b) = decode_responses a @ decode_responses b" if "responses_whole a" for a b
    using that by (simp add: decode_responses_def responses_whole_def utf8_lossy_append utf8_lossy_id to_lf_append)
next
  show "responses_feed from_str (x @ y) s =
      (case responses_feed from_str x s of
         (out, None) \<Rightarrow> (out, None)
       | (out, Some s1) \<Rightarrow> (case responses_feed from_str y s1 of (out1, left) \<Rightarrow> (out @ out1, left)))" for x y s
    using drain_append [of "[LF, LF]" "responses_frame from_str" "fst s @ x" y "snd s"]
    by (cases s) (auto simp: responses_feed_def split: prod.splits option.splits)
next
  show "(case s of (buffer, st) \<Rightarrow> responses_loop from_str (Inr bytes # items) buffer st) =
      (case responses_feed from_str (decode_responses bytes) s of
         (out, None) \<Rightarrow> out
       | (out, Some s1) \<Rightarrow> out @ (case s1 of (buffer, st) \<Rightarrow> responses_loop from_str items buffer st))" for bytes items s
    by (cases s) (simp add: responses_feed_def split: prod.split option.split)
qed

lemma error_body_pieces:
  "list_all utf8_ok ps \<Longrightarrow> error_body status (map Inr ps @ Inr q # items) body = error_body status (Inr (concat ps @ q) # items) body"
proof (induction ps arbitrary: body)
  case (Cons a ps)
  then show ?case by (simp add: utf8_lossy_append utf8_lossy_id)
qed simp

text \<open>The events do not depend on how the network cuts the body, as long as no character and no CRLF
  is cut in two; what comes behind, errors as well, does not matter.\<close>

theorem responses_cut_independent:
  assumes "list_all responses_whole pieces"
  shows "create_openai_responses_event_stream from_str (response\<lparr>hr_body := map Inr pieces @ Inr piece # items\<rparr>)
    = create_openai_responses_event_stream from_str (response\<lparr>hr_body := Inr (concat pieces @ piece) # items\<rparr>)"
proof -
  have "list_all utf8_ok pieces" using assms by (auto simp: list_all_iff responses_whole_def)
  then show ?thesis
    using responses_cut.run_pieces [OF assms, of from_str piece items "([], fresh_responses)"]
    by (simp add: create_openai_responses_event_stream_def error_body_pieces response_rate_limits_from_headers_def header_i64_def
        del: responses_loop.simps)
qed

section \<open>The chunk stream\<close>

definition chat_feed :: "json_parser \<Rightarrow> usage_parser \<Rightarrow> string \<Rightarrow> streaming_processor
    \<Rightarrow> (model_error + chunk) list \<times> streaming_processor option" where
  "chat_feed from_str usage x sp = (case push_text from_str usage x sp of (events, sp1) \<Rightarrow> (chunks_of events, Some sp1))"

definition chat_whole :: "string \<Rightarrow> bool" where
  "chat_whole bytes \<longleftrightarrow> utf8_ok bytes \<and> \<not> ends_with [CR] bytes \<and> \<not> ends_with [CR, LF] bytes"

lemma drain_events_go_on: "\<exists>events buffer seen. drain_frames sep (event_frame from_str usage) x st = (events, Some (buffer, seen))"
proof (induction sep "event_frame from_str usage" x st rule: drain_frames.induct)
  case (1 sep x st)
  show ?case
  proof (cases "sep = [] \<or> str_split_once sep x = None")
    case False
    then obtain raw rest where s: "sep \<noteq> []" "str_split_once sep x = Some (raw, rest)" by auto
    obtain out st1 where h: "event_frame from_str usage raw st = (out, Some st1)"
      by (cases "parse_event from_str usage raw st") (simp add: event_frame_def)
    from 1 [OF s(1,2) refl h [symmetric] refl] show ?thesis by (auto simp: drain_Some [OF s] h)
  qed (subst drain_frames.simps; auto)
qed

lemma push_text_append:
  "push_text from_str usage (x @ y) sp =
     (case push_text from_str usage x sp of (events, sp1) \<Rightarrow>
        (case push_text from_str usage y sp1 of (events1, sp2) \<Rightarrow> (events @ events1, sp2)))"
proof -
  obtain events buffer seen where first: "drain_frames [LF, LF] (event_frame from_str usage) (sp_buffer sp @ x) (sp_seen sp) = (events, Some (buffer, seen))"
    using drain_events_go_on by blast
  obtain events1 buffer1 seen1 where second: "drain_frames [LF, LF] (event_frame from_str usage) (buffer @ y) seen = (events1, Some (buffer1, seen1))"
    using drain_events_go_on by blast
  show ?thesis
    using drain_append [of "[LF, LF]" "event_frame from_str usage" "sp_buffer sp @ x" y "sp_seen sp"]
    by (simp add: push_text_def first second)
qed

lemma chunks_of_append: "chunks_of (xs @ ys) = chunks_of xs @ chunks_of ys"
  by (simp add: chunks_of_def List.map_filter_def)

lemma chat_decode_append: "chat_whole a \<Longrightarrow> decode_chat (a @ b) = decode_chat a @ decode_chat b"
proof -
  assume a: "chat_whole a"
  have "suffix_len_matching_prefix a [CR, LF, CR, LF] = 0"
  proof (subst suffix_len_0, simp, intro allI impI)
    fix m assume "1 \<le> m \<and> m < length [CR, LF, CR, LF] \<and> m \<le> length a"
    then have "1 \<le> m" "m < 4" by simp_all
    then consider "m = 1" | "m = 2" | "m = 3" by linarith
    then show "\<not> ends_with (take m [CR, LF, CR, LF]) a"
      using a by cases (auto simp: chat_whole_def ends_with_iff)
  qed
  then show ?thesis
    using a by (simp add: decode_chat_def chat_whole_def utf8_lossy_append utf8_lossy_id replace_append)
qed

interpretation chat_cut: cut_stream decode_chat chat_whole "chat_feed from_str usage" "chat_loop from_str usage" for from_str usage
proof
  show "decode_chat (a @ b) = decode_chat a @ decode_chat b" if "chat_whole a" for a b
    using that by (rule chat_decode_append)
qed (auto simp: chat_feed_def push_text_append chunks_of_append split: prod.splits)

text \<open>C38. The same of the chunks of the other providers, which look for CRLFCRLF in each piece.\<close>

theorem chunks_cut_independent:
  assumes "list_all chat_whole pieces"
  shows "create_response_stream_with_usage_parser from_str usage (response\<lparr>hr_body := map Inr pieces @ Inr piece # items\<rparr>)
    = create_response_stream_with_usage_parser from_str usage (response\<lparr>hr_body := Inr (concat pieces @ piece) # items\<rparr>)"
proof -
  have "list_all utf8_ok pieces" using assms by (auto simp: list_all_iff chat_whole_def)
  then show ?thesis
    using chat_cut.run_pieces [OF assms, of from_str usage piece items new_processor]
    by (simp add: create_response_stream_with_usage_parser_def error_body_pieces del: chat_loop.simps)
qed

end
