(* ===== verification/StreamReading.thy ===== *)
theory StreamReading
  imports StreamCuts ChatStream
begin

text \<open>
  What the two readers make of a body: the messages of a Responses stream are read back, however the
  network cuts it; the arguments of a call are put together from their parts, whatever comes between
  them; and a turn is given the text and the calls that the chunks of an answer spell.
\<close>

section \<open>Frames of messages\<close>

definition sse_frame :: "string \<Rightarrow> string" where
  "sse_frame payload = ''data: '' @ payload @ [LF, LF]"

text \<open>A message that can be sent: one line of an object.\<close>

definition sendable :: "string \<Rightarrow> bool" where
  "sendable payload \<longleftrightarrow> (\<exists>body. payload = ''{'' @ body @ ''}'' \<and> LF \<notin> set body \<and> CR \<notin> set body)"

fun events_of :: "json list \<Rightarrow> responses_state \<Rightarrow> model_event list" where
  "events_of [] st = []"
| "events_of (v # vs) st = (case on_event v st of (events, st1) \<Rightarrow> events @ events_of vs st1)"

lemma ends_with_last: "ends_with p (s @ [c]) \<Longrightarrow> p \<noteq> [] \<Longrightarrow> last p = c"
  by (metis ends_with_iff last_appendR last_snoc)

lemma payload_edges: "leading_ws (CHR ''{'' # s) = None" "leading_ws (CHR ''d'' # s) = None" "trailing_ws (s @ ''}'') = None"
proof -
  show "leading_ws (CHR ''{'' # s) = None" "leading_ws (CHR ''d'' # s) = None" by (simp_all add: leading_ws_def ws_utf8_def)
  have "list_all (\<lambda>w. w \<noteq> [] \<and> last w \<noteq> CHR ''}'') ws_utf8" by (simp add: ws_utf8_def)
  then show "trailing_ws (s @ ''}'') = None"
    using ends_with_last [of _ s "CHR ''}''"] by (auto simp: trailing_ws_def find_None_iff list_all_iff)
qed

lemma sendable_facts:
  assumes "sendable payload"
  shows "trim payload = payload" "trim (''data: '' @ payload) = ''data: '' @ payload" "payload \<noteq> []" "payload \<noteq> ''[DONE]''"
    "trim_start_matches ''data: '' (''data: '' @ payload) = payload"
    "LF \<notin> set payload" "CR \<notin> set payload" "\<not> ends_with [CR] payload"
proof -
  obtain body where p: "payload = ''{'' @ body @ ''}''" and lf: "LF \<notin> set body" "CR \<notin> set body"
    using assms by (auto simp: sendable_def)
  show "trim payload = payload" "trim (''data: '' @ payload) = ''data: '' @ payload"
    using payload_edges(1) [of "body @ ''}''"] payload_edges(2) [of "''ata: {'' @ body @ ''}''"]
      payload_edges(3) [of "''{'' @ body"] payload_edges(3) [of "''data: {'' @ body"]
    by (simp_all add: p trim_id)
  have "strip_prefix ''data: '' payload = None" by (simp add: p strip_prefix_None)
  then have "trim_start_matches ''data: '' payload = payload" by (subst trim_start_matches.simps) simp
  then show "trim_start_matches ''data: '' (''data: '' @ payload) = payload"
    using strip_prefix_append [of "''data: ''" payload] by (subst trim_start_matches.simps) simp
  show "payload \<noteq> []" "payload \<noteq> ''[DONE]''" "LF \<notin> set payload" "CR \<notin> set payload" "\<not> ends_with [CR] payload"
    using lf by (auto simp: p ends_with_iff)
qed

lemma lines_of_frame: "sendable payload \<Longrightarrow> str_lines (''data: '' @ payload) = [''data: '' @ payload]"
proof -
  assume "sendable payload"
  then have none: "LF \<notin> set (''data: '' @ payload)" using sendable_facts(6) by auto
  then show ?thesis using split_inclusive_last [OF none] chomp_last [OF none] by (simp add: str_lines_def)
qed

lemma split_two_feeds:
  assumes "LF \<notin> set a"
  shows "str_split_once [LF, LF] (a @ LF # LF # rest) = Some (a, rest)"
proof -
  have "\<not> starts_with [LF, LF] (drop j (a @ LF # LF # rest))" if j: "j < length a" for j
  proof -
    obtain y ys where y: "drop j a = y # ys" using j by (cases "drop j a") auto
    then have "y \<in> set a" using in_set_dropD [of y j a] by simp
    then have "y \<noteq> LF" using assms by blast
    moreover have "drop j (a @ LF # LF # rest) = y # ys @ LF # LF # rest" using y j by simp
    ultimately show ?thesis by simp
  qed
  then show ?thesis by (simp add: split_once_Some)
qed

lemma split_frame: "sendable payload \<Longrightarrow> str_split_once [LF, LF] (sse_frame payload @ rest) = Some (''data: '' @ payload, rest)"
proof -
  assume "sendable payload"
  then have "LF \<notin> set (''data: '' @ payload)" using sendable_facts(6) by auto
  from split_two_feeds [OF this, of rest] show ?thesis by (simp add: sse_frame_def)
qed

section \<open>A Responses stream is read back\<close>

lemma read_frame:
  assumes "sendable payload" and "from_str payload = Inr v"
  shows "responses_frame from_str (''data: '' @ payload) st = (map Inr (fst (on_event v st)), Some (snd (on_event v st)))"
  using sendable_facts [OF assms(1)] lines_of_frame [OF assms(1)] assms(2)
  by (simp add: responses_frame_def parse_openai_responses_event_def data_payload_def Let_def split: prod.split)

lemma drain_messages:
  assumes "list_all sendable payloads" and "map from_str payloads = map Inr vs"
  shows "\<exists>st'. drain_frames [LF, LF] (responses_frame from_str) (concat (map sse_frame payloads)) st
    = (map Inr (events_of vs st), Some ([], st'))"
  using assms
proof (induction payloads arbitrary: vs st)
  case Nil
  have "str_split_once [LF, LF] [] = None" by (simp add: split_once_None)
  with Nil show ?case by (simp add: drain_None)
next
  case (Cons payload payloads)
  then obtain v vs' where v: "vs = v # vs'" "from_str payload = Inr v" "map from_str payloads = map Inr vs'" by (cases vs) auto
  from Cons.IH [OF _ v(3), of "snd (on_event v st)"] Cons.prems(1) obtain st'
    where rest: "drain_frames [LF, LF] (responses_frame from_str) (concat (map sse_frame payloads)) (snd (on_event v st))
      = (map Inr (events_of vs' (snd (on_event v st))), Some ([], st'))" by auto
  show ?case
    using Cons.prems(1) v rest read_frame [of payload from_str v st]
      drain_Some [OF _ split_frame [of payload "concat (map sse_frame payloads)"], of "responses_frame from_str" st]
    by (auto split: prod.splits)
qed

text \<open>C37. However the network cuts a body of messages, outside characters, the events are those of the
  messages in their order, and nothing else.\<close>

theorem responses_read_back:
  assumes "list_all sendable payloads" and "map from_str payloads = map Inr vs"
    and "concat pieces = concat (map sse_frame payloads)" and "list_all utf8_ok pieces"
    and "hr_success response" and "hr_body response = map Inr pieces"
  shows "create_openai_responses_event_stream from_str response
    = (case response_rate_limits_from_headers response of None \<Rightarrow> [] | Some limits \<Rightarrow> [Inr (ME_RateLimits limits)])
      @ map Inr (events_of vs fresh_responses)"
proof -
  have "responses_loop from_str (map Inr pieces) [] fresh_responses = map Inr (events_of vs fresh_responses)"
  proof (cases pieces rule: rev_cases)
    case Nil
    then have "payloads = []" using assms(3) by (cases payloads) (auto simp: sse_frame_def)
    then show ?thesis using assms(2) Nil by simp
  next
    case (snoc ps q)
    have no_cr: "CR \<notin> set b" if "b \<in> set pieces" for b
    proof -
      have "set b \<subseteq> set (concat (map sse_frame payloads))" using that by (auto simp flip: assms(3))
      moreover have "CR \<notin> set (sse_frame payload)" if "payload \<in> set payloads" for payload
        using sendable_facts(7) [of payload] that assms(1) by (simp add: sse_frame_def list_all_iff)
      ultimately show ?thesis by auto
    qed
    have whole: "list_all responses_whole ps"
      using assms(4) no_cr unfolding snoc by (fastforce simp: list_all_iff responses_whole_def ends_with_iff)
    have one: "utf8_ok (concat pieces)" using assms(4) by (induction pieces) (auto simp: utf8_ok_append utf8_ok.simps [of "[]"])
    have "CR \<notin> set (concat pieces)" using no_cr by auto
    then have "decode_responses (concat pieces) = concat (map sse_frame payloads)"
      using one by (simp add: decode_responses_def utf8_lossy_id to_lf_plain flip: assms(3))
    moreover obtain st' where "drain_frames [LF, LF] (responses_frame from_str) (concat (map sse_frame payloads)) fresh_responses
      = (map Inr (events_of vs fresh_responses), Some ([], st'))" using drain_messages [OF assms(1,2)] by blast
    ultimately have "responses_loop from_str [Inr (concat pieces)] [] fresh_responses = map Inr (events_of vs fresh_responses)" by simp
    then show ?thesis
      using responses_cut.run_pieces [OF whole, of from_str q "[]" "([], fresh_responses)"] by (simp add: snoc del: responses_loop.simps)
  qed
  then show ?thesis using assms(5,6) by (simp add: create_openai_responses_event_stream_def)
qed

section \<open>The arguments of a call\<close>

definition state_after :: "json list \<Rightarrow> responses_state \<Rightarrow> responses_state" where
  "state_after vs st = foldl (\<lambda>st v. snd (on_event v st)) st vs"

lemma events_of_append: "events_of (vs @ ws) st = events_of vs st @ events_of ws (state_after vs st)"
  by (induction vs arbitrary: st) (auto simp: state_after_def split: prod.split)

definition is_type :: "string \<Rightarrow> json \<Rightarrow> bool" where
  "is_type t v \<longleftrightarrow> text_field ''type'' v = t"

text \<open>A message that opens or closes the call of an item, and one that brings a part of its arguments.\<close>

definition names_call :: "string \<Rightarrow> string \<Rightarrow> json \<Rightarrow> bool" where
  "names_call t i v \<longleftrightarrow> is_type t v
     \<and> (case json_get v ''item'' of Some item \<Rightarrow> string_field item ''type'' = Some ''function_call'' \<and> text_field ''id'' item = i | None \<Rightarrow> False)"

definition brings_part :: "string \<Rightarrow> json \<Rightarrow> bool" where
  "brings_part i v \<longleftrightarrow> is_type ''response.function_call_arguments.delta'' v \<and> text_field ''item_id'' v = i"

definition parts_of :: "string \<Rightarrow> json list \<Rightarrow> string" where
  "parts_of i vs = concat (map (text_field ''delta'') (filter (brings_part i) vs))"

lemma call_after_event:
  assumes "\<not> names_call ''response.output_item.added'' i v" and "\<not> names_call ''response.output_item.done'' i v"
  shows "hm_get (rs_function_calls (snd (on_event v st))) i
    = map_option (\<lambda>call. call\<lparr>fb_arguments := fb_arguments call @ parts_of i [v]\<rparr>) (hm_get (rs_function_calls st) i)"
proof -
  consider "is_type ''response.output_item.added'' v" | "is_type ''response.output_item.done'' v"
    | "is_type ''response.function_call_arguments.delta'' v"
    | "\<not> is_type ''response.output_item.added'' v" "\<not> is_type ''response.output_item.done'' v"
      "\<not> is_type ''response.function_call_arguments.delta'' v" by blast
  then show ?thesis
  proof cases
    case 1
    then show ?thesis using assms(1)
      by (auto simp: names_call_def is_type_def on_event_def on_item_added_def parts_of_def brings_part_def Let_def hm_simps
          option.map_ident split: option.splits)
  next
    case 2
    then show ?thesis using assms(2)
      by (auto simp: names_call_def is_type_def on_event_def on_item_done_def parts_of_def brings_part_def Let_def hm_simps
          option.map_ident split: option.splits)
  next
    case 3
    then show ?thesis
      by (auto simp: is_type_def on_event_def on_arguments_delta_def parts_of_def brings_part_def hm_simps option.map_ident)
  next
    case 4
    then show ?thesis
      by (auto simp: is_type_def on_event_def on_created_def on_text_delta_def on_reasoning_delta_def on_completed_def on_error_def
          parts_of_def brings_part_def Let_def option.map_ident split: option.splits)
  qed
qed

lemma call_after:
  assumes "list_all (\<lambda>v. \<not> names_call ''response.output_item.added'' i v \<and> \<not> names_call ''response.output_item.done'' i v) vs"
  shows "hm_get (rs_function_calls (state_after vs st)) i
    = map_option (\<lambda>call. call\<lparr>fb_arguments := fb_arguments call @ parts_of i vs\<rparr>) (hm_get (rs_function_calls st) i)"
  using assms
proof (induction vs arbitrary: st)
  case Nil
  show ?case by (simp add: state_after_def parts_of_def option.map_ident)
next
  case (Cons v vs)
  then show ?case
    using call_after_event [of i v st]
    by (cases "hm_get (rs_function_calls st) i") (simp_all add: state_after_def parts_of_def)
qed

text \<open>Whatever comes between them, a call that was opened with a name and an identifier is emitted when
  it is closed, with the arguments it was opened with and all the parts that were brought for it.\<close>

theorem parts_make_call:
  assumes "names_call ''response.output_item.added'' i opening" and "names_call ''response.output_item.done'' i closing"
    and "list_all (\<lambda>v. \<not> names_call ''response.output_item.added'' i v \<and> \<not> names_call ''response.output_item.done'' i v) between"
    and "json_get opening ''item'' = Some item" and "string_field item ''call_id'' = Some call_id" and "call_id \<noteq> []"
    and "text_field ''name'' item \<noteq> []" and "text_field ''arguments'' item @ parts_of i between \<noteq> []"
  shows "fst (on_event closing (state_after (opening # between) st)) =
    [ME_FunctionCall (call_event call_id (text_field ''name'' item) (text_field ''arguments'' item @ parts_of i between) None)]"
proof -
  let ?call = "\<lparr>fb_call_id = call_id, fb_name = text_field ''name'' item, fb_arguments = text_field ''arguments'' item\<rparr>"
  have "hm_get (rs_function_calls (snd (on_event opening st))) i = Some ?call"
    using assms(1,4,5) by (auto simp: names_call_def is_type_def on_event_def on_item_added_def Let_def hm_simps)
  then have "hm_get (rs_function_calls (state_after (opening # between) st)) i
      = Some (?call\<lparr>fb_arguments := fb_arguments ?call @ parts_of i between\<rparr>)"
    using call_after [OF assms(3), of "snd (on_event opening st)"] by (simp add: state_after_def)
  then show ?thesis
    using assms(2,6,7,8) by (auto simp: names_call_def is_type_def on_event_def on_item_done_def completed_call_def if_empty_def
        Let_def split: option.splits)
qed

section \<open>Chunks\<close>

text \<open>
  What a turn (\<open>TurnModel\<close>) makes of the chunks of an answer: the text that they bring, and the calls
  that their parts spell.
\<close>

section \<open>What chunks spell\<close>

text \<open>The parts of calls with the calls they belong to: a part without an identifier belongs to the call
  of the part before it.\<close>

fun attributed :: "string option \<Rightarrow> chunk list \<Rightarrow> (string \<times> tool_call_delta) list" where
  "attributed active [] = []"
| "attributed active (c # cs) =
     (case c of
        Ch_ToolCall delta \<Rightarrow>
          (let i = unwrap_or (unwrap_or ''tool_call_1'' active) (td_id delta) in (i, delta) # attributed (Some i) cs)
      | _ \<Rightarrow> attributed active cs)"

definition parts_for :: "string \<Rightarrow> (string \<times> tool_call_delta) list \<Rightarrow> tool_call_delta list" where
  "parts_for i parts = map snd (filter (\<lambda>p. fst p = i) parts)"

text \<open>A name or a signature that is given again replaces the one before; arguments are appended.\<close>

definition last_given :: "('a \<Rightarrow> 'b option) \<Rightarrow> 'a list \<Rightarrow> 'b option" where
  "last_given f xs = (case rev (List.map_filter f xs) of [] \<Rightarrow> None | y # _ \<Rightarrow> Some y)"

definition spelled_name :: "tool_call_delta list \<Rightarrow> string" where
  "spelled_name ds = unwrap_or [] (last_given td_name ds)"

definition spelled_call :: "string \<Rightarrow> tool_call_delta list \<Rightarrow> function_call_event" where
  "spelled_call i ds = call_event i (spelled_name ds) (concat (map (\<lambda>d. unwrap_or [] (td_arguments d)) ds))
     (last_given td_thought_signature ds)"

text \<open>One call for each identifier with a name, in the order of the identifiers.\<close>

definition spelled_calls :: "(string \<times> tool_call_delta) list \<Rightarrow> function_call_event list" where
  "spelled_calls parts = map (\<lambda>i. spelled_call i (parts_for i parts))
     (filter (\<lambda>i. spelled_name (parts_for i parts) \<noteq> []) (sort (remdups (map fst parts))))"

fun chunk_texts :: "chunk list \<Rightarrow> string list" where
  "chunk_texts [] = []"
| "chunk_texts (c # cs) = (case c of Ch_Content t \<Rightarrow> if t = [] then chunk_texts cs else t # chunk_texts cs | _ \<Rightarrow> chunk_texts cs)"

section \<open>The calls that are collected\<close>

definition spelled_state :: "tool_call_delta list \<Rightarrow> chunk_call" where
  "spelled_state ds = \<lparr>cb_name = spelled_name ds, cb_arguments = concat (map (\<lambda>d. unwrap_or [] (td_arguments d)) ds),
     cb_thought_signature = last_given td_thought_signature ds\<rparr>"

lemma last_given_simps [simp]: "last_given f [] = None"
  "last_given f (xs @ [x]) = (case f x of None \<Rightarrow> last_given f xs | Some y \<Rightarrow> Some y)"
  by (simp_all add: last_given_def List.map_filter_def split: option.split)

lemma spelled_empty: "spelled_state [] = empty_call"
  by (simp add: spelled_state_def empty_call_def spelled_name_def)

lemma spelled_step: "add_delta d (spelled_state ds) = spelled_state (ds @ [d])"
  by (simp add: add_delta_def spelled_state_def spelled_name_def split: option.split)

definition collects :: "(string \<times> tool_call_delta) list \<Rightarrow> chunk_state \<Rightarrow> bool" where
  "collects parts st \<longleftrightarrow> hm_wf (ck_calls st)
     \<and> (\<forall>i. hm_get (ck_calls st) i = (if parts_for i parts = [] then None else Some (spelled_state (parts_for i parts))))
     \<and> ck_active st = (if parts = [] then None else Some (fst (last parts)))"

lemma parts_for_simps [simp]: "parts_for i [] = []" "parts_for i [(j, d)] = (if j = i then [d] else [])"
  "parts_for i (xs @ [(j, d)]) = (if j = i then parts_for i xs @ [d] else parts_for i xs)"
  by (simp_all add: parts_for_def)

lemma collects_same:
  "collects parts st \<Longrightarrow> ck_calls st' = ck_calls st \<Longrightarrow> ck_active st' = ck_active st \<Longrightarrow> collects parts st'"
  by (simp add: collects_def)

lemma collects_fresh: "collects [] fresh_chunks"
  by (simp add: collects_def fresh_chunks_def)

lemma collected_keys: "collects parts st \<Longrightarrow> set (map fst (ck_calls st)) = set (map fst parts)"
proof -
  assume c: "collects parts st"
  have "i \<in> fst ` set (ck_calls st) \<longleftrightarrow> i \<in> fst ` set parts" for i
  proof -
    have "i \<in> fst ` set (ck_calls st) \<longleftrightarrow> hm_get (ck_calls st) i \<noteq> None" by (simp add: map_of_eq_None_iff)
    also have "\<dots> \<longleftrightarrow> parts_for i parts \<noteq> []" using c by (simp add: collects_def)
    also have "\<dots> \<longleftrightarrow> i \<in> fst ` set parts" by (auto simp: parts_for_def filter_empty_conv)
    finally show ?thesis .
  qed
  then show ?thesis by auto
qed

lemma delta_id:
  assumes "collects parts st"
  shows "delta_call_id d st = unwrap_or (unwrap_or ''tool_call_1'' (ck_active st)) (td_id d)"
proof -
  have "ck_calls st = []" if "ck_active st = None"
  proof -
    have "parts = []" using assms that by (auto simp: collects_def split: if_splits)
    then have "set (map fst (ck_calls st)) = {}" using collected_keys [OF assms] by simp
    then show ?thesis by simp
  qed
  moreover have "''tool_call_'' @ show_nat (0 + 1) = ''tool_call_1''" by code_simp
  ultimately show ?thesis by (auto simp: delta_call_id_def split: option.splits)
qed

lemma collects_delta:
  assumes "collects parts st"
  shows "collects (parts @ [(unwrap_or (unwrap_or ''tool_call_1'' (ck_active st)) (td_id d), d)]) (take_delta d st)"
  using assms
  by (auto simp: collects_def take_delta_def delta_id [OF assms] Let_def hm_simps spelled_step simp flip: spelled_empty
      intro!: distinct_update)

lemma sort_key_keys: "distinct (map fst m) \<Longrightarrow> map fst (sort_key fst m) = sort (map fst m)"
  by (intro sorted_distinct_set_unique) (simp_all add: distinct_map)

lemma filter_keys:
  "(\<And>k v. (k, v) \<in> set m \<Longrightarrow> P (k, v) = Q k \<and> f (k, v) = g k) \<Longrightarrow> map f (filter P m) = map g (filter Q (map fst m))"
  by (induction m) auto

lemma call_events_spelled:
  assumes "collects parts st"
  shows "call_events (ck_calls st) = map ME_FunctionCall (spelled_calls parts)"
proof -
  have wf: "hm_wf (ck_calls st)" using assms by (simp add: collects_def)
  have call: "call = spelled_state (parts_for i parts)" if "(i, call) \<in> set (ck_calls st)" for i call
  proof -
    have "hm_get (ck_calls st) i = Some call" using that by (intro in_set_getD [OF wf])
    then show ?thesis using assms by (simp add: collects_def split: if_splits)
  qed
  have keys: "map fst (sort_key fst (ck_calls st)) = sort (remdups (map fst parts))"
    unfolding sort_key_keys [OF wf]
    using collected_keys [OF assms] wf by (intro sorted_distinct_set_unique) simp_all
  have "call_events (ck_calls st) = map (\<lambda>i. ME_FunctionCall (spelled_call i (parts_for i parts)))
      (filter (\<lambda>i. spelled_name (parts_for i parts) \<noteq> []) (map fst (sort_key fst (ck_calls st))))"
    unfolding call_events_def by (rule filter_keys) (auto dest: call simp: spelled_state_def spelled_call_def)
  then show ?thesis by (simp add: keys spelled_calls_def)
qed

section \<open>Chunks before the end of an answer\<close>

definition no_stop :: "chunk list \<Rightarrow> bool" where
  "no_stop cs \<longleftrightarrow> Ch_MessageStop \<notin> set cs"

text \<open>Events that bring text, or nothing that a turn reads.\<close>

fun brings_text :: "model_event \<Rightarrow> string option" where
  "brings_text (ME_ContentDelta t _) = Some t"
| "brings_text (ME_OutputItemAdded _) = Some []"
| "brings_text _ = None"

primrec brought :: "model_event list \<Rightarrow> string" where
  "brought [] = []"
| "brought (ev # evs) = unwrap_or [] (brings_text ev) @ brought evs"

lemma brought_append [simp]: "brought (xs @ ys) = brought xs @ brought ys"
  by (induction xs) auto

lemma chunk_loop_texts:
  assumes "collects parts st" and "no_stop cs"
  shows "\<exists>events st'. chunk_loop (map Inr cs @ items) st = map Inr events @ chunk_loop items st'
    \<and> collects (parts @ attributed (ck_active st) cs) st'
    \<and> list_all (\<lambda>ev. brings_text ev \<noteq> None) events
    \<and> brought events = concat (chunk_texts cs)"
  using assms
proof (induction cs arbitrary: parts st)
  case Nil
  then show ?case by (auto intro!: exI [of _ "[]"])
next
  case (Cons c cs)
  then have rest: "no_stop cs" "c \<noteq> Ch_MessageStop" by (auto simp: no_stop_def)
  obtain events1 st1 where step: "on_chunk c st = (events1, st1)" by fastforce
  let ?parts = "parts @ (case c of Ch_ToolCall d \<Rightarrow> [(unwrap_or (unwrap_or ''tool_call_1'' (ck_active st)) (td_id d), d)] | _ \<Rightarrow> [])"
  have one: "collects ?parts st1"
    using rest(2) step collects_delta [OF Cons.prems(1)] Cons.prems(1)
    by (auto simp: on_chunk_def split: chunk.splits if_splits elim!: collects_same)
  have shown: "list_all (\<lambda>ev. brings_text ev \<noteq> None) events1" "brought events1 = concat (chunk_texts [c])"
    using rest(2) step by (auto simp: on_chunk_def split: chunk.splits if_splits)
  have active: "?parts @ attributed (ck_active st1) cs = parts @ attributed (ck_active st) (c # cs)"
    using step rest(2) delta_id [OF Cons.prems(1)]
    by (auto simp: on_chunk_def take_delta_def Let_def split: chunk.splits if_splits)
  from Cons.IH [OF one rest(1)] obtain events2 st2 where
    "chunk_loop (map Inr cs @ items) st1 = map Inr events2 @ chunk_loop items st2"
    "collects (parts @ attributed (ck_active st) (c # cs)) st2" "list_all (\<lambda>ev. brings_text ev \<noteq> None) events2"
    "brought events2 = concat (chunk_texts cs)"
    unfolding active by blast
  then show ?case
    using step shown
    by (intro exI [of _ "events1 @ events2"] exI [of _ st2])
      (auto split: chunk.splits if_splits)
qed

section \<open>A turn that reads chunks\<close>

definition poll_of :: "model_error + model_event \<Rightarrow> poll" where
  "poll_of item = Poll_Item (case item of Inl err \<Rightarrow> Inl err | Inr event \<Rightarrow> Inr (seen_by_turn event))"

lemma poll_of_simps [simp]: "poll_of (Inr ev) = Poll_Item (Inr (seen_by_turn ev))"
  by (simp add: poll_of_def)

lemma read_texts:
  assumes "tw_room w = None" and "list_all (\<lambda>ev. brings_text ev \<noteq> None) events"
  shows "\<exists>flt1 w1. read_stream item_id (map (poll_of \<circ> Inr) events @ ps) delta calls flt' w
      = read_stream item_id ps (delta @ brought events) calls flt1 w1 \<and> tw_room w1 = None"
  using assms
proof (induction events arbitrary: delta flt' w)
  case Nil
  then show ?case by auto
next
  case (Cons ev events)
  then have rest: "list_all (\<lambda>ev. brings_text ev \<noteq> None) events" and brings: "brings_text ev \<noteq> None" by simp_all
  show ?case
  proof (cases ev)
    case (ME_ContentDelta t n)
    obtain flt1 visible where f: "filter_visible t flt' = (flt1, visible)" by fastforce
    show ?thesis
    proof (cases "t = [] \<or> visible = []")
      case True
      then show ?thesis
        using ME_ContentDelta f Cons.IH [where delta = "delta @ t" and flt' = flt1, OF Cons.prems(1) rest]
          Cons.IH [where delta = delta and flt' = flt', OF Cons.prems(1) rest] by auto
    next
      case False
      define w1 where "w1 = on_session (emit_event (ContentDelta item_id visible)) w"
      have "tw_room w1 = None" "send_event (ContentDelta item_id visible) w = (Inr (), w1)"
        using Cons.prems(1) by (simp_all add: w1_def send_event_def)
      then show ?thesis
        using ME_ContentDelta f False Cons.IH [of w1 "delta @ t" flt1] rest by (auto simp: try_do_def)
    qed
  qed (use brings Cons.IH [OF Cons.prems(1) rest] in \<open>auto\<close>)
qed

lemma read_calls:
  "read_stream item_id (map (poll_of \<circ> Inr \<circ> ME_FunctionCall) new_calls @ ps) delta calls flt'
    = read_stream item_id ps delta (calls @ new_calls) flt'"
  by (induction new_calls arbitrary: calls) simp_all

text \<open>C39. A turn whose client listens is given the text of all chunks in their order, and each call with
  its whole arguments; what comes behind the end of the answer is not read.\<close>

theorem turn_reads_chunks:
  assumes "tw_room w = None" and "no_stop cs"
  shows "\<exists>w'. try_run_sampling_request \<lparr>at_runtime_info = None,
      at_stream = Inr (map poll_of (chunk_stream_to_response_events (map Inr (cs @ [Ch_MessageStop]) @ items)))\<rparr> item_id ms w
    = (Inr \<lparr>sr_assistant_delta = concat (chunk_texts cs), sr_function_calls = spelled_calls (attributed None cs)\<rparr>, w')"
proof -
  obtain events st where loop: "chunk_loop (map Inr cs @ Inr Ch_MessageStop # items) fresh_chunks
      = map Inr events @ chunk_loop (Inr Ch_MessageStop # items) st"
    and st: "collects (attributed None cs) st" and events: "list_all (\<lambda>ev. brings_text ev \<noteq> None) events"
    and texts: "brought events = concat (chunk_texts cs)"
    using chunk_loop_texts [OF collects_fresh assms(2), of "Inr Ch_MessageStop # items"] by (auto simp: fresh_chunks_def)
  define tail where "tail = (if ck_item_started st then [ME_OutputItemDone (message_item response_item_id)] else [])
    @ [ME_Completed [] None, ME_EndTurn]"
  obtain left where stop: "chunk_loop (Inr Ch_MessageStop # items) st
      = map Inr (map ME_FunctionCall (spelled_calls (attributed None cs))) @ map Inr tail @ left"
    using call_events_spelled [OF st] by (simp add: on_chunk_def tail_def)
  let ?w = "w\<lparr>tw_requests := tw_requests w @ [ms]\<rparr>"
  let ?calls = "map (poll_of \<circ> Inr \<circ> ME_FunctionCall) (spelled_calls (attributed None cs))"
  let ?tail = "map (poll_of \<circ> Inr) tail @ map poll_of left"
  obtain flt1 w1 where read: "read_stream item_id (map (poll_of \<circ> Inr) events @ ?calls @ ?tail) [] [] new_filter ?w
      = read_stream item_id (?calls @ ?tail) (concat (chunk_texts cs)) [] flt1 w1"
    using read_texts [OF _ events, of ?w item_id "?calls @ ?tail" "[]" "[]" new_filter] assms(1) by (auto simp: texts)
  have ends: "read_stream item_id ?tail delta calls flt1 w1 = (Inr \<lparr>sr_assistant_delta = delta, sr_function_calls = calls\<rparr>, w1)" for delta calls
    by (simp add: tail_def give_def)
  have polls: "map poll_of (chunk_stream_to_response_events (map Inr (cs @ [Ch_MessageStop]) @ items))
      = Poll_Item (Inr RE_Other) # map (poll_of \<circ> Inr) events @ ?calls @ ?tail"
    using loop stop by (simp add: chunk_stream_to_response_events_def del: chunk_loop.simps)
  show ?thesis
    unfolding polls try_run_sampling_request_def
    using read by (simp add: try_do_def change_def read_calls ends)
qed

end
