(* ===== verification/StreamDemo.thy ===== *)
theory StreamDemo
  imports StreamReading TurnDemo
begin

text \<open>
  Streams that run: the witnesses of the theorems on the readers, and the streams that they do not
  read as they were meant.
\<close>

section \<open>The demonstration\<close>

definition obj :: "(string \<times> string) list \<Rightarrow> json" where
  "obj fs = J_Object (map (\<lambda>(k, v). (k, J_String v)) fs)"

definition text_message :: "string \<Rightarrow> json" where
  "text_message t = obj [(''type'', ''response.output_text.delta''), (''delta'', t)]"

text \<open>A parser that knows a few messages; the rest of a payload is a text for itself.\<close>

definition demo_json :: json_parser where
  "demo_json s = (if s = ''{a}'' then Inr (text_message ''hello'') else if s = ''{b}'' then Inr (obj [(''type'', ''response.completed'')])
     else if s = ''{x}'' then Inl ''no JSON'' else Inr (text_message s))"

definition ok_response :: http_response where
  "ok_response = \<lparr>hr_status = ''200 OK'', hr_success = True, hr_header = (\<lambda>_. None), hr_body = []\<rparr>"

definition received_events :: "string list \<Rightarrow> (model_error + model_event) list" where
  "received_events pieces = create_openai_responses_event_stream demo_json (ok_response\<lparr>hr_body := map Inr pieces\<rparr>)"

theorem responses_cut_independent_witness:
  "create_openai_responses_event_stream demo_json (ok_response\<lparr>hr_body := [Inr ''da'', Inr ''ta: {a}'', Inr [LF, LF], Inl ''reset'']\<rparr>)
     = [Inr (ME_ContentDelta ''hello'' 0), Inl (StreamError ''reset'')]"
proof -
  have "list_all responses_whole [''da'', ''ta: {a}'']" by code_simp
  from responses_cut_independent [OF this, where from_str = demo_json and response = ok_response and piece = "[LF, LF]"
      and items = "[Inl ''reset'']"]
  have "create_openai_responses_event_stream demo_json (ok_response\<lparr>hr_body := [Inr ''da'', Inr ''ta: {a}'', Inr [LF, LF], Inl ''reset'']\<rparr>)
    = create_openai_responses_event_stream demo_json (ok_response\<lparr>hr_body := [Inr (''data: {a}'' @ [LF, LF]), Inl ''reset'']\<rparr>)" by simp
  also have "\<dots> = [Inr (ME_ContentDelta ''hello'' 0), Inl (StreamError ''reset'')]" by code_simp
  finally show ?thesis .
qed

theorem responses_read_back_witness:
  "received_events [''data: {'', ''a}'' @ [LF, LF] @ ''data'', '': {b}'' @ [LF, LF]]
     = map Inr [ME_ContentDelta ''hello'' 0, ME_Completed [] None, ME_EndTurn]"
proof -
  let ?pieces = "[''data: {'', ''a}'' @ [LF, LF] @ ''data'', '': {b}'' @ [LF, LF]]"
  let ?vs = "[text_message ''hello'', obj [(''type'', ''response.completed'')]]"
  have "list_all sendable [''{a}'', ''{b}'']"
    by (simp add: sendable_def)
  moreover have "map demo_json [''{a}'', ''{b}''] = map Inr ?vs" "concat ?pieces = concat (map sse_frame [''{a}'', ''{b}''])"
    "list_all utf8_ok ?pieces" "response_rate_limits_from_headers (ok_response\<lparr>hr_body := map Inr ?pieces\<rparr>) = None"
    "events_of ?vs fresh_responses = [ME_ContentDelta ''hello'' 0, ME_Completed [] None, ME_EndTurn]" by code_simp+
  ultimately show ?thesis
    using responses_read_back [of "[''{a}'', ''{b}'']" demo_json ?vs ?pieces "ok_response\<lparr>hr_body := map Inr ?pieces\<rparr>"]
    by (simp add: received_events_def ok_response_def)
qed

definition part_message :: "string \<Rightarrow> string \<Rightarrow> json" where
  "part_message i t = obj [(''type'', ''response.function_call_arguments.delta''), (''item_id'', i), (''delta'', t)]"

definition item_message :: "string \<Rightarrow> (string \<times> string) list \<Rightarrow> json" where
  "item_message t fs = J_Object [(''type'', J_String t), (''item'', obj ((''type'', ''function_call'') # fs))]"

theorem parts_make_call_witness:
  "fst (on_event (item_message ''response.output_item.done'' [(''id'', ''f'')])
      (state_after [item_message ''response.output_item.added'' [(''id'', ''f''), (''call_id'', ''c''), (''name'', ''ls'')],
         part_message ''f'' ''{'', part_message ''g'' ''?'', text_message ''hi'', part_message ''f'' ''}''] fresh_responses))
    = [ME_FunctionCall (call_event ''c'' ''ls'' ''{}'' None)]"
proof -
  let ?opening = "item_message ''response.output_item.added'' [(''id'', ''f''), (''call_id'', ''c''), (''name'', ''ls'')]"
  let ?item = "obj [(''type'', ''function_call''), (''id'', ''f''), (''call_id'', ''c''), (''name'', ''ls'')]"
  let ?between = "[part_message ''f'' ''{'', part_message ''g'' ''?'', text_message ''hi'', part_message ''f'' ''}'']"
  let ?closing = "item_message ''response.output_item.done'' [(''id'', ''f'')]"
  have "names_call ''response.output_item.added'' ''f'' ?opening" "names_call ''response.output_item.done'' ''f'' ?closing"
    "list_all (\<lambda>v. \<not> names_call ''response.output_item.added'' ''f'' v \<and> \<not> names_call ''response.output_item.done'' ''f'' v) ?between"
    "json_get ?opening ''item'' = Some ?item" "string_field ?item ''call_id'' = Some ''c''" "text_field ''name'' ?item = ''ls''"
    "text_field ''arguments'' ?item = []" "parts_of ''f'' ?between = ''{}''" by code_simp+
  then show ?thesis
    using parts_make_call [of "''f''" ?opening ?closing ?between ?item "''c''" fresh_responses] by simp
qed

section \<open>Chunks\<close>

definition choice :: "(string \<times> json) list \<Rightarrow> (string \<times> json) list \<Rightarrow> json" where
  "choice fs delta = J_Object [(''choices'', J_Array [J_Object (fs @ [(''delta'', J_Object delta)])])]"

definition says_text :: "string \<Rightarrow> json" where
  "says_text t = choice [] [(''content'', J_String t)]"

definition chat_json :: json_parser where
  "chat_json s = (if s = ''{1}'' then Inr (says_text ''one'') else if s = ''{2}'' then Inr (says_text ''two'') else Inl ''no JSON'')"

definition chat_body :: "(string + string) list \<Rightarrow> (model_error + chunk) list" where
  "chat_body items = create_response_stream_with_usage_parser chat_json (openai_usage chat_json) (ok_response\<lparr>hr_body := items\<rparr>)"

definition crlf_frame :: "string \<Rightarrow> string" where
  "crlf_frame payload = ''data: '' @ payload @ [CR, LF, CR, LF]"

theorem chunks_cut_independent_witness:
  "chat_body [Inr ''data: '', Inr (''{1}'' @ [CR, LF, CR, LF]), Inr (crlf_frame ''{2}'')]
     = [Inr (Ch_Content ''one''), Inr (Ch_Content ''two'')]"
proof -
  have "list_all chat_whole [''data: '']" by code_simp
  from chunks_cut_independent [OF this, where from_str = chat_json and usage = "openai_usage chat_json" and response = ok_response
      and piece = "''{1}'' @ [CR, LF, CR, LF]" and items = "[Inr (crlf_frame ''{2}'')]"]
  have "chat_body [Inr ''data: '', Inr (''{1}'' @ [CR, LF, CR, LF]), Inr (crlf_frame ''{2}'')]
    = chat_body [Inr (''data: {1}'' @ [CR, LF, CR, LF]), Inr (crlf_frame ''{2}'')]" by (simp add: chat_body_def)
  also have "\<dots> = [Inr (Ch_Content ''one''), Inr (Ch_Content ''two'')]" by code_simp
  finally show ?thesis .
qed

definition part :: "string option \<Rightarrow> string option \<Rightarrow> string \<Rightarrow> chunk" where
  "part i name arguments = Ch_ToolCall \<lparr>td_id = i, td_name = name, td_arguments = Some arguments, td_thought_signature = None\<rparr>"

definition demo_chunks :: "chunk list" where
  "demo_chunks = [Ch_Content ''I '', Ch_Content ''look.'', part (Some ''c2'') (Some ''read'') ''{'', part None None ''}'',
     part (Some ''c1'') (Some ''ls'') ''{}'']"

theorem turn_reads_chunks_witness:
  "fst (try_run_sampling_request \<lparr>at_runtime_info = None,
      at_stream = Inr (map poll_of (chunk_stream_to_response_events (map Inr (demo_chunks @ [Ch_MessageStop]))))\<rparr> ''i'' [] fresh_world)
    = Inr \<lparr>sr_assistant_delta = ''I look.'', sr_function_calls = [call_event ''c1'' ''ls'' ''{}'' None, call_event ''c2'' ''read'' ''{}'' None]\<rparr>"
proof -
  have "no_stop demo_chunks" "tw_room fresh_world = None" "concat (chunk_texts demo_chunks) = ''I look.''"
    "spelled_calls (attributed None demo_chunks) = [call_event ''c1'' ''ls'' ''{}'' None, call_event ''c2'' ''read'' ''{}'' None]"
    by code_simp+
  then show ?thesis using turn_reads_chunks [of fresh_world demo_chunks "[]" "''i''" "[]"] by auto
qed

section \<open>What is left open\<close>

text \<open>A character that is cut in two becomes two characters U+FFFD, in both streams.\<close>

theorem cut_character_is_lost:
  "received_events [''data: caf'' @ [CHR 0xC3, CHR 0xA9, LF, LF]] = [Inr (ME_ContentDelta (''caf'' @ [CHR 0xC3, CHR 0xA9]) 0)]
   \<and> received_events [''data: caf'' @ [CHR 0xC3], [CHR 0xA9, LF, LF]]
     = [Inr (ME_ContentDelta (''caf'' @ replacement_char @ replacement_char) 0)]"
  by code_simp

text \<open>A CRLFCRLF that is cut in two does not end its event; of the messages of one event the chunk
  stream keeps the last. The Responses stream delays its events and keeps them, unless a later
  message of the same event is no JSON: then those before it are dropped.\<close>

theorem cut_separator_loses_text:
  "chat_body [Inr (crlf_frame ''{1}'' @ crlf_frame ''{2}'')] = [Inr (Ch_Content ''one''), Inr (Ch_Content ''two'')]
   \<and> chat_body [Inr (''data: {1}'' @ [CR, LF]), Inr ([CR, LF] @ crlf_frame ''{2}'')] = [Inr (Ch_Content ''two'')]
   \<and> received_events [''data: {a}'' @ [LF, LF] @ ''data: {x}'' @ [LF, LF]]
     = [Inr (ME_ContentDelta ''hello'' 0), Inl (StreamError ''invalid responses event: no JSON'')]
   \<and> received_events [''data: {a}'' @ [CR, LF, CR], [LF] @ ''data: {x}'' @ [LF, LF]]
     = [Inl (StreamError ''invalid responses event: no JSON'')]"
  by code_simp

text \<open>A message with an empty text and calls is a text; of several calls in a message the first is
  kept; a message that finishes is read for nothing else; and the calls of an answer are executed in
  the order of their identifiers.\<close>

definition tool_part :: "string \<Rightarrow> json" where
  "tool_part i = J_Object [(''id'', J_String i), (''function'', obj [(''name'', ''ls''), (''arguments'', ''{}'')])]"

theorem chunk_reading_drops_calls:
  "parse_chunk_value (choice [] [(''content'', J_String []), (''tool_calls'', J_Array [tool_part ''c1''])]) = Some (Ch_Content [])
   \<and> parse_chunk_value (choice [] [(''tool_calls'', J_Array [tool_part ''c1'', tool_part ''c2''])])
     = Some (part (Some ''c1'') (Some ''ls'') ''{}'')
   \<and> parse_chunk_value (choice [(''finish_reason'', J_String ''tool_calls'')] [(''tool_calls'', J_Array [tool_part ''c1''])]) = Some Ch_MessageStop
   \<and> map fc_id (spelled_calls (attributed None demo_chunks)) = [''c1'', ''c2'']"
  by code_simp

end
