(* ===== verification/Spec2Isabelle.thy ===== *)
theory Spec2Isabelle
  imports TeamClaims TeamOwnership TeamWrites TeamHandoff TeamMail TeamSnapshot AgentGuards AgentControl
    PatchSeek PatchRoundtrip PatchEffects ExecSafety GateSafety OrchestratorSafety PendingApprovals ConfigTrust TextFilter SessionHistory NetworkConsent AgentRace RuntimeProps LoopDemo FileProps StreamDemo
begin

text \<open>
  A verification development for \<open>cokra\<close>, an agent runtime in Rust (\<open>src/cokra-rs\<close>): a language
  model answers in turns, its answers call tools, tools change files and run commands under an
  approval policy, and a team of agents shares a board of tasks, leases on files and a mailbox.

  \<^bold>\<open>How the parts interact.\<close> A session keeps the history that is sent to the model
  (\<open>core/src/session\<close>), cuts it down (\<open>core/src/compaction\<close>) and reads the calls in an answer
  (\<open>core/src/turn/text_function_calls.rs\<close>). A call goes through the router, whose ownership gate
  asks the team's runtime for leases on the paths the call will change (\<open>core/src/tools/router.rs\<close>),
  and through the orchestrator, which asks for approval, runs a first attempt in a sandbox and
  perhaps a second one outside (\<open>core/src/tools/orchestrator.rs\<close>) by the policy of
  \<open>core/src/exec_policy.rs\<close>; network access of a running tool is decided by
  \<open>core/src/tools/network_approval.rs\<close>. The tool \<open>apply_patch\<close> is a crate of its own. The team's
  runtime (\<open>core/src/agent/team_runtime.rs\<close>) runs the operations of the team's state
  (\<open>core/src/agent/team_state.rs\<close>), keeps the workflow runs in step, saves both, and wakes the
  agents that it has spawned. The configuration comes in layers (\<open>config\<close>).

  \<^bold>\<open>The library.\<close>
  \<^item> \<open>Prelude\<close>: Rust's hash maps as association lists (the order of the list is the order of
    iteration, over which the theorems quantify), saturating words, the outside world of an
    operation (\<open>env\<close>: readings of the clock by place, drawn identifiers by place, the crate
    \<open>glob\<close>), and the locales \<open>key_map\<close> (the contract of a map, interpreted on the association
    lists) and \<open>machine\<close> (an invariant that holds at the start and is kept by every step holds in
    every reachable state), interpreted by every component that is driven by steps: \<open>team\<close>, the
    spawn guards, the status of an agent, the prompts, the network service, the workflow runs, the
    spawned agents (twice: whole operations and atomic steps), the team's runtime.
  \<^item> \<open>RustStr\<close>, \<open>RustFind\<close>, \<open>RustReplace\<close>, \<open>RustPath\<close>: the parts of \<open>str\<close>,
    \<open>String::from_utf8_lossy\<close> and \<open>std::path\<close> that the source uses.
    A Rust string is the list of its UTF-8 bytes; the white space of \<open>trim\<close> is that of Unicode.

  \<^bold>\<open>The team\<close> (\<open>team_state.rs\<close>, \<open>protocol/src/protocol/items.rs\<close>). \<open>TeamTypes\<close> has the data,
  \<open>TeamScopes\<close> and \<open>TeamGraph\<close> scopes and \<open>recompute_task_graph\<close>, \<open>TeamLeases\<close> the leases and the
  write gate, \<open>TeamTasks\<close> the board, \<open>TeamMailbox\<close> messages and plans, \<open>TeamSnapshot\<close>
  what a client sees. \<open>TeamInv\<close> carries the invariant of all operations;
  \<open>TeamClaims\<close>, \<open>TeamOwnership\<close>, \<open>TeamWrites\<close>, \<open>TeamHandoff\<close> and \<open>TeamMail\<close> say what claiming,
  leases, writes, handing over and the mailbox promise; the end of \<open>TeamSnapshot\<close> what operations leave alone.

  \<^bold>\<open>The runtime of a team\<close> (\<open>team_runtime.rs\<close>). \<open>WorkflowRuns\<close> and \<open>WorkflowGate\<close>: the module
  \<open>team_runs\<close>. \<open>AgentWake\<close> and \<open>AgentQueue\<close>: a spawned agent, its wake queue, its loop and the
  waiters, operation by operation; \<open>AgentRace\<close>: the same agent split into atomic reads, sends and
  locked steps, with what survives every interleaving and what does not. \<open>TeamRuntime\<close>,
  \<open>RuntimeState\<close> and \<open>RuntimeProps\<close>: the operations the tools call, their invariant and promises.
  \<open>AgentGuards\<close> and \<open>AgentControl\<close>: the limit on spawned threads under interleaving, the status
  of an agent and the registry of threads (\<open>guards.rs\<close>, \<open>control.rs\<close>, \<open>status.rs\<close>,
  \<open>thread_manager.rs\<close>).

  \<^bold>\<open>Patches\<close> (crate \<open>apply-patch\<close>). \<open>PatchParser\<close> with the round trip of \<open>PatchRoundtrip\<close>,
  \<open>PatchSeek\<close> for the search of lines, \<open>PatchApply\<close> and \<open>PatchEffects\<close> for what a patch does to a
  file and to a disk, a map of text files whose operations the environment may refuse.

  \<^bold>\<open>Tools.\<close> \<open>ToolPolicy\<close> and \<open>ExecSafety\<close>: the classification of commands and the
  approval matrix. \<open>ToolGate\<close> and \<open>GateSafety\<close>: the ownership gate. \<open>ToolOrchestrator\<close> and
  \<open>OrchestratorSafety\<close>: approval, attempts and escalation, for every tool runtime.
  \<open>NetworkAttempts\<close>, \<open>NetworkAuthorize\<close> and \<open>NetworkConsent\<close>: network attempts and the decision
  about hosts, one locked step at a time under every interleaving. \<open>PendingApprovals\<close>: the prompts
  of a session. \<open>FileTools\<close> and \<open>FileProps\<close>: the handlers that write, edit and read a file
  (\<open>core/src/tools/handlers\<close>).

  \<^bold>\<open>Sessions and configuration.\<close> \<open>TextCalls\<close> and \<open>TextFilter\<close>: function calls in the text of an
  answer and the filter that hides them from a stream. \<open>Compaction\<close>, \<open>CompactionSafety\<close> and
  \<open>SessionHistory\<close>: summarising and cutting a history. \<open>Truncate\<close>: cutting the output of a tool
  (\<open>core/src/truncate.rs\<close>). \<open>ConfigLayers\<close>, \<open>ConfigEffective\<close>,
  \<open>ConfigLoader\<close> and \<open>ConfigTrust\<close>: layers, merging, origins, project trust,
  loading, and the type of what is loaded.

  \<^bold>\<open>The answer of a model\<close> (\<open>core/src/model\<close>). \<open>ResponsesStream\<close>: events, chunks, counts of
  tokens, the loop that takes frames out of a buffer, and the reader of the Responses API
  (\<open>streaming.rs\<close>); \<open>ChatStream\<close>: the reader of the other providers (\<open>streaming.rs\<close>,
  \<open>providers/mod.rs\<close>) and the events of its chunks (\<open>provider.rs\<close>). \<open>StreamCuts\<close>: the locale
  \<open>cut_stream\<close>, interpreted on both readers: where the network cuts a body makes no difference as
  long as no character and no separator is split. \<open>StreamReading\<close>: messages are read back, and the
  parts of a call are put together; what the turn of \<open>TurnModel\<close> is given. \<open>StreamDemo\<close>:
  concrete streams, and what the readers lose.

  \<^bold>\<open>A turn\<close> (\<open>core/src/turn/sse_executor.rs\<close>, \<open>executor.rs\<close>). \<open>TurnModel\<close>: the session, the steps that
  may fail (\<open>try_do\<close>, with the rules of \<open>outcome\<close>), one request to the model, its retries and
  compactions. \<open>TurnRounds\<close>: the execution of the tools, the waiting inputs, a round, the loop of
  rounds and the whole turn; what the environment does in each round (the attempts, the results of
  the tools, the inputs that arrive, a cancelling) is a list of inputs, and a turn whose list is
  used up is still running (\<open>None\<close>). \<open>TurnInvariant\<close>: the locale \<open>history_invariant\<close>, a property of
  histories that appending and compacting keep and that a whole turn then keeps; it is interpreted
  three times, in \<open>TurnPairs\<close> (calls and results are paired, every call is answered) and
  \<open>TurnBounds\<close> (results fit the budget). \<open>TurnTold\<close>, \<open>TurnEvents\<close>: what the model is told and what
  the client is shown; \<open>TurnDemo\<close>: concrete turns.

  \<^bold>\<open>The loop of a session\<close> (\<open>core/src/cokra.rs\<close>). \<open>SessionLoop\<close>: the configuration of turns, the
  submissions, compaction between turns, the select between a running turn and what arrives, and
  \<open>submission_loop\<close>, which terminates because a turn never leaves more work than it found. What a
  turn does between two polls (asking for approvals, taking inputs, recording messages, returning)
  is an input of the loop like a submission. \<open>LoopInvariant\<close>: the locale \<open>loop_invariant\<close>, a property
  of the states between turns and what it becomes within one, kept by the loop; it is interpreted in
  \<open>LoopOrder\<close> (three times: the order of the submissions, the configuration of the turns, nothing of
  a turn outlives it). \<open>LoopProps\<close>: what follows from the start.
  \<open>ClientTurn\<close>: a client that runs one turn and waits for its answer. \<open>LoopDemo\<close>: concrete runs.

  \<^bold>\<open>What the lemmas show.\<close> Invariants of every reachable state (team, workflow runs, agents,
  prompts, network service, runtime); the functional behaviour of the operations on every branch,
  with errors as \<open>None\<close> or \<open>Inl\<close>; refinements (the prompts implement one map, a patch is one
  splice, the effective configuration is the last writer, wakes are a queue); round trips (a
  printed patch is parsed back, a restart finds what was saved, an edit is undone, the messages of
  a stream are read back); equivalences (a filtered stream
  does not depend on how it is cut, and shows what the parser shows); bounds; and, for the
  concurrent parts, safety and progress under interleaving. Where the code does not keep a
  promise, the theorem states what it does instead, on a concrete run.

  \<^bold>\<open>Integers, bounds, fuel.\<close> Counters that saturate or wrap are words of their width
  (\<open>u64\<close>, \<open>u16\<close>); timestamps are only compared and are integers; \<open>usize\<close> counts of things in
  memory are natural numbers, with \<open>USIZE_MAX\<close> where an addition may saturate. No definition
  takes fuel: loops are structural or have a termination proof; the loop of \<open>reserve_spawn_slot\<close>,
  the calls of the network service and the loop of an agent are step relations. The attempts of one
  request are at most twelve, which is proved. The demonstration
  runs of \<open>AgentRace\<close> give a number of steps, enough for the call to end.

  \<^bold>\<open>Not modelled.\<close> Third-party code and services are parameters: \<open>glob\<close>, \<open>shlex\<close>, \<open>serde_json\<close>,
  the TOML conversions, the operating system, the model. Left out, as the manifest lists: the
  start of a session, most tool handlers (they decode arguments and call what is modelled), processes
  and sandboxes, requests to models and sign-in, MCP, language servers and integrations, skills, the
  terminal interface, the command line, the events that announce changes to clients. Within the
  modelled files: building the session of a spawned agent, the texts of the ownership gate's errors,
  builder methods of the configuration, the tracking of a turn's changes. The tools of one answer
  are executed one after the other in the model; the code overlaps those that only read.
\<close>

end
